(* ===== verification/CC_Prelude.thy ===== *)
theory CC_Prelude
  imports Main "HOL-Library.AList"
begin

text \<open>
  Shared vocabulary of the development: Go maps as association lists, points in time and
  durations, signed 64-bit arithmetic, the files the stores persist to, and the list facts
  the components share. The collection \<open>gomap\<close> gathers the rewrite rules of the map operations,
  the collection \<open>wfm\<close> the rules that keep a map well formed.
\<close>

named_theorems gomap "lookup after each map operation"
named_theorems wfm "well-formedness of maps after each operation"

section \<open>Go maps\<close>

text \<open>
  A Go \<open>map[K]V\<close> is an association list with distinct keys. The order of the list is the order in
  which \<open>range\<close> visits the map; Go leaves that order open, so a theorem stated for every
  well-formed list covers every iteration order.
\<close>

type_synonym ('k, 'v) gomap = "('k \<times> 'v) list"

abbreviation mget :: "('k, 'v) gomap \<Rightarrow> 'k \<Rightarrow> 'v option" where
  "mget \<equiv> map_of"

abbreviation mput :: "'k \<Rightarrow> 'v \<Rightarrow> ('k, 'v) gomap \<Rightarrow> ('k, 'v) gomap" where
  "mput \<equiv> AList.update"

abbreviation mdel :: "'k \<Rightarrow> ('k, 'v) gomap \<Rightarrow> ('k, 'v) gomap" where
  "mdel \<equiv> AList.delete"

definition mkeys :: "('k, 'v) gomap \<Rightarrow> 'k set" where
  "mkeys m = fst ` set m"

definition wf_map :: "('k, 'v) gomap \<Rightarrow> bool" where
  "wf_map m \<longleftrightarrow> distinct (map fst m)"

text \<open>Reading an absent key of a Go map yields the zero value of the element type.\<close>

definition mget_or :: "'v \<Rightarrow> ('k, 'v) gomap \<Rightarrow> 'k \<Rightarrow> 'v" where
  "mget_or z m k = (case mget m k of None \<Rightarrow> z | Some v \<Rightarrow> v)"

text \<open>Mutation through a pointer held in the map, and mutation of every value in the map.\<close>

definition madj :: "'k \<Rightarrow> ('v \<Rightarrow> 'v) \<Rightarrow> ('k, 'v) gomap \<Rightarrow> ('k, 'v) gomap" where
  "madj k f m = map (\<lambda>(k', v). if k' = k then (k', f v) else (k', v)) m"

definition mmap :: "('k \<Rightarrow> 'v \<Rightarrow> 'w) \<Rightarrow> ('k, 'v) gomap \<Rightarrow> ('k, 'w) gomap" where
  "mmap f m = map (\<lambda>(k, v). (k, f k v)) m"

lemma wf_map_Nil [wfm, simp]: "wf_map []"
  by (simp add: wf_map_def)

lemma wf_map_put [wfm]: "wf_map m \<Longrightarrow> wf_map (mput k v m)"
  by (simp add: wf_map_def distinct_update)

lemma wf_map_del [wfm]: "wf_map m \<Longrightarrow> wf_map (mdel k m)"
  by (simp add: wf_map_def distinct_delete)

lemma map_fst_madj [simp]: "map fst (madj k f m) = map fst m"
  by (induction m) (auto simp: madj_def)

lemma map_fst_mmap [simp]: "map fst (mmap f m) = map fst m"
  by (induction m) (auto simp: mmap_def)

lemma wf_map_madj [wfm]: "wf_map m \<Longrightarrow> wf_map (madj k f m)"
  by (simp add: wf_map_def)

lemma wf_map_mmap [wfm]: "wf_map m \<Longrightarrow> wf_map (mmap f m)"
  by (simp add: wf_map_def)

lemma wf_map_filter [wfm]: "wf_map m \<Longrightarrow> wf_map (filter P m)"
  by (induction m) (auto simp: wf_map_def)

lemma mget_put [gomap]: "mget (mput k v m) k' = (if k' = k then Some v else mget m k')"
  by (simp add: update_conv)

lemma mget_del [gomap]: "mget (mdel k m) k' = (if k' = k then None else mget m k')"
  by (simp add: delete_conv)

lemma mget_madj [gomap]: "mget (madj k f m) k' = (if k' = k then map_option f (mget m k') else mget m k')"
  by (induction m) (auto simp: madj_def)

lemma mget_mmap [gomap]: "mget (mmap f m) k = map_option (f k) (mget m k)"
  by (induction m) (auto simp: mmap_def)

lemma mget_or_put [gomap]: "mget_or z (mput k v m) k' = (if k' = k then v else mget_or z m k')"
  by (simp add: mget_or_def gomap)

lemma mget_or_del [gomap]: "mget_or z (mdel k m) k' = (if k' = k then z else mget_or z m k')"
  by (simp add: mget_or_def gomap)

lemma mkeys_put [gomap]: "mkeys (mput k v m) = insert k (mkeys m)"
  by (simp add: mkeys_def dom_update)

lemma mkeys_del [gomap]: "mkeys (mdel k m) = mkeys m - {k}"
  unfolding mkeys_def by (metis delete_keys image_set set_removeAll)

lemma mkeys_madj [gomap]: "mkeys (madj k f m) = mkeys m"
  unfolding mkeys_def by (metis list.set_map map_fst_madj)

lemma mkeys_mmap [gomap]: "mkeys (mmap f m) = mkeys m"
  unfolding mkeys_def by (metis list.set_map map_fst_mmap)

lemma mkeys_Nil [simp, gomap]: "mkeys [] = {}"
  by (simp add: mkeys_def)

lemma mkeys_Cons [simp]: "mkeys (p # m) = insert (fst p) (mkeys m)"
  by (simp add: mkeys_def)

lemma in_mkeys: "(k, v) \<in> set m \<Longrightarrow> k \<in> mkeys m"
  by (force simp: mkeys_def)

lemma wf_map_Cons [simp]: "wf_map (p # m) \<longleftrightarrow> fst p \<notin> mkeys m \<and> wf_map m"
  by (simp add: wf_map_def mkeys_def)

lemma mget_None_keys: "mget m k = None \<longleftrightarrow> k \<notin> mkeys m"
  by (simp add: mkeys_def map_of_eq_None_iff)

lemma mget_Some_keys: "(\<exists>v. mget m k = Some v) \<longleftrightarrow> k \<in> mkeys m"
  by (metis mget_None_keys not_None_eq)

lemma mget_in_keys: "mget m k = Some v \<Longrightarrow> k \<in> mkeys m"
  using mget_Some_keys by metis

lemma mget_in_set: "wf_map m \<Longrightarrow> (mget m k = Some v) = ((k, v) \<in> set m)"
  by (auto simp: wf_map_def map_of_is_SomeI dest: map_of_SomeD)

lemma mkeys_filter_subset: "mkeys (filter P m) \<subseteq> mkeys m"
  by (auto simp: mkeys_def)

lemma mget_filter_keys: "wf_map m \<Longrightarrow>
    mget (filter (\<lambda>(k, v). P k v) m) k = (case mget m k of Some v \<Rightarrow> if P k v then Some v else None | None \<Rightarrow> None)"
proof (induction m)
  case (Cons p m)
  then have "fst p \<notin> mkeys (filter (\<lambda>(k, v). P k v) m)" using mkeys_filter_subset by fastforce
  then have "mget (filter (\<lambda>(k, v). P k v) m) (fst p) = None" by (simp add: mget_None_keys)
  with Cons show ?case by (cases p) auto
qed simp

lemma set_del: "set (mdel k m) = {(k', v). (k', v) \<in> set m \<and> k' \<noteq> k}"
  by (induction m) auto

lemma set_put: "wf_map m \<Longrightarrow> set (mput k v m) = {(k', w). (k', w) \<in> set m \<and> k' \<noteq> k} \<union> {(k, v)}"
  by (induction m) (auto simp: wf_map_def image_iff)

lemma set_madj: "set (madj k f m) = {(k', if k' = k then f v else v) | k' v. (k', v) \<in> set m}"
  by (force simp: madj_def image_iff)

lemma set_mmap: "set (mmap f m) = {(k, f k v) | k v. (k, v) \<in> set m}"
  by (induction m) (auto simp: mmap_def)

text \<open>
  The contract of a Go map that the stores rely on, as an interface: a lookup after each
  update. The facts below are proved from the contract alone.
\<close>

locale key_value_map =
  fixes lookup :: "'m \<Rightarrow> 'k \<Rightarrow> 'v option"
    and insert :: "'k \<Rightarrow> 'v \<Rightarrow> 'm \<Rightarrow> 'm"
    and remove :: "'k \<Rightarrow> 'm \<Rightarrow> 'm"
    and ok :: "'m \<Rightarrow> bool"
  assumes lookup_insert: "ok m \<Longrightarrow> lookup (insert k v m) k' = (if k' = k then Some v else lookup m k')"
    and lookup_remove: "ok m \<Longrightarrow> lookup (remove k m) k' = (if k' = k then None else lookup m k')"
    and ok_insert: "ok m \<Longrightarrow> ok (insert k v m)"
    and ok_remove: "ok m \<Longrightarrow> ok (remove k m)"
begin

lemma insert_insert_same: "ok m \<Longrightarrow> lookup (insert k v (insert k w m)) k' = lookup (insert k v m) k'"
  by (simp add: lookup_insert ok_insert)

lemma insert_commute: "ok m \<Longrightarrow> k \<noteq> j \<Longrightarrow>
    lookup (insert k v (insert j w m)) i = lookup (insert j w (insert k v m)) i"
  by (simp add: lookup_insert ok_insert)

lemma remove_insert: "ok m \<Longrightarrow> lookup (remove k (insert k v m)) k' = lookup (remove k m) k'"
  by (simp add: lookup_insert lookup_remove ok_insert)

lemma ok_fold_remove: "ok m \<Longrightarrow> ok (fold remove ks m)"
  by (induction ks arbitrary: m) (auto simp: ok_remove)

lemma lookup_fold_remove: "ok m \<Longrightarrow> lookup (fold remove ks m) k = (if k \<in> set ks then None else lookup m k)"
  by (induction ks arbitrary: m) (auto simp: lookup_remove ok_remove)

end

interpretation gm: key_value_map map_of AList.update AList.delete wf_map
  by unfold_locales (auto simp: gomap wfm)

section \<open>Time\<close>

text \<open>
  A point in time is the number of nanoseconds since Go's zero time, so \<open>Time.IsZero\<close> is
  \<open>t = 0\<close>; a \<open>Duration\<close> is a number of nanoseconds. \<open>time.Now()\<close> is an argument of every
  operation that reads the clock. Differences between times the programs handle lie far inside the
  64-bit range of a \<open>Duration\<close>; a product with a user-supplied factor does not, and is wrapped
  with \<open>wrap64\<close>.
\<close>

type_synonym time = int
type_synonym duration = int

definition second :: duration where "second = 1000000000"
definition minute :: duration where "minute = 60 * second"

text \<open>Two's complement wrap-around of an \<open>int64\<close> result.\<close>

definition wrap64 :: "int \<Rightarrow> int" where
  "wrap64 x = (x + 2 ^ 63) mod 2 ^ 64 - 2 ^ 63"

lemma wrap64_id: "- (2 ^ 63) \<le> x \<Longrightarrow> x < 2 ^ 63 \<Longrightarrow> wrap64 x = x"
  by (simp add: wrap64_def)

lemma wrap64_range: "- (2 ^ 63) \<le> wrap64 x \<and> wrap64 x < 2 ^ 63"
proof -
  have "0 \<le> (x + 2 ^ 63) mod 2 ^ 64" "(x + 2 ^ 63) mod 2 ^ 64 < (2::int) ^ 64"
    by simp_all
  then show ?thesis by (simp add: wrap64_def)
qed

text \<open>Go's integer division truncates towards zero, and the remainder has the sign of the dividend.\<close>

definition go_div :: "int \<Rightarrow> int \<Rightarrow> int" where
  "go_div a b = sgn a * sgn b * (\<bar>a\<bar> div \<bar>b\<bar>)"

definition go_mod :: "int \<Rightarrow> int \<Rightarrow> int" where
  "go_mod a b = a - go_div a b * b"

lemma go_div_nonneg: "0 \<le> a \<Longrightarrow> 0 < b \<Longrightarrow> go_div a b = a div b"
  by (cases "a = 0") (simp_all add: go_div_def)

lemma go_mod_nonneg: "0 \<le> a \<Longrightarrow> 0 < b \<Longrightarrow> go_mod a b = a mod b"
  by (simp add: go_mod_def go_div_nonneg minus_div_mult_eq_mod)

lemma go_div_ge_0 [simp]: "0 \<le> a \<Longrightarrow> 0 < b \<Longrightarrow> 0 \<le> go_div a b"
  by (simp add: go_div_nonneg pos_imp_zdiv_nonneg_iff)

section \<open>Persisted files\<close>

text \<open>
  What a store finds at its path when it loads: nothing, a file that cannot be read, a file that
  is no valid document, or a document. A document is the decoded value: \<open>encoding/json\<close> maps
  the structs field by field and is not modelled as text.
\<close>

datatype 'd stored = NoFile | Unreadable | Garbled | Doc 'd

section \<open>Lists\<close>

text \<open>The loop \<open>for i, x := range xs { if P(x) { xs = append(xs[:i], xs[i+1:]...); break } }\<close>.\<close>

fun remove_first :: "('a \<Rightarrow> bool) \<Rightarrow> 'a list \<Rightarrow> 'a list" where
  "remove_first P [] = []"
| "remove_first P (x # xs) = (if P x then xs else x # remove_first P xs)"

text \<open>The loop \<open>for _, x := range xs { if P(x) { mutate x; break } }\<close> over pointers.\<close>

fun update_first :: "('a \<Rightarrow> bool) \<Rightarrow> ('a \<Rightarrow> 'a) \<Rightarrow> 'a list \<Rightarrow> 'a list" where
  "update_first P f [] = []"
| "update_first P f (x # xs) = (if P x then f x # xs else x # update_first P f xs)"

lemma remove_first_remove1: "remove_first ((=) a) xs = remove1 a xs"
  by (induction xs) auto

lemma set_remove_first_subset: "set (remove_first P xs) \<subseteq> set xs"
  by (induction xs) auto

lemma remove_first_none: "\<forall>x \<in> set xs. \<not> P x \<Longrightarrow> remove_first P xs = xs"
  by (induction xs) auto

lemma length_remove_first: "\<exists>x \<in> set xs. P x \<Longrightarrow> length xs = Suc (length (remove_first P xs))"
  by (induction xs) auto

lemma distinct_remove_first: "distinct (map f xs) \<Longrightarrow> distinct (map f (remove_first P xs))"
  by (induction xs) (auto dest: set_remove_first_subset [THEN subsetD])

lemma remove_first_key_filter: "distinct (map f xs) \<Longrightarrow>
    remove_first (\<lambda>x. f x = k) xs = filter (\<lambda>x. f x \<noteq> k) xs"
proof (induction xs)
  case (Cons x xs)
  show ?case
  proof (cases "f x = k")
    case True
    with Cons.prems have "\<forall>y \<in> set xs. f y \<noteq> k" by (auto simp: image_iff)
    then have "filter (\<lambda>y. f y \<noteq> k) xs = xs" by (simp add: filter_id_conv)
    with True show ?thesis by simp
  next
    case False
    with Cons show ?thesis by simp
  qed
qed simp

lemma length_update_first [simp]: "length (update_first P f xs) = length xs"
  by (induction xs) auto

lemma map_update_first: "(\<And>x. P x \<Longrightarrow> g (f x) = g x) \<Longrightarrow> map g (update_first P f xs) = map g xs"
  by (induction xs) auto

lemma update_first_none: "\<forall>x \<in> set xs. \<not> P x \<Longrightarrow> update_first P f xs = xs"
  by (induction xs) auto

lemma find_update_first_same: "(\<And>x. P x \<Longrightarrow> P (f x)) \<Longrightarrow>
    find P (update_first P f xs) = map_option f (find P xs)"
  by (induction xs) auto

lemma find_update_first_other: "(\<And>x. P x \<Longrightarrow> \<not> Q x) \<Longrightarrow> (\<And>x. P x \<Longrightarrow> \<not> Q (f x)) \<Longrightarrow>
    find Q (update_first P f xs) = find Q xs"
  by (induction xs) auto

lemma find_remove_first_other: "(\<And>x. P x \<Longrightarrow> \<not> Q x) \<Longrightarrow> find Q (remove_first P xs) = find Q xs"
  by (induction xs) auto

lemma find_remove_first_same: "distinct (map f xs) \<Longrightarrow>
    find (\<lambda>x. f x = k) (remove_first (\<lambda>x. f x = k) xs) = None"
  by (simp add: remove_first_key_filter find_None_iff)

lemma find_SomeD: "find P xs = Some x \<Longrightarrow> x \<in> set xs \<and> P x"
  by (induction xs) (auto split: if_splits)

lemma find_key_in: "distinct (map f xs) \<Longrightarrow> x \<in> set xs \<Longrightarrow> find (\<lambda>y. f y = f x) xs = Some x"
  by (induction xs) force+

text \<open>A search for an element that is the only one of its kind does not depend on the order.\<close>

lemma find_unique:
  assumes "\<And>x y. x \<in> set xs \<Longrightarrow> y \<in> set xs \<Longrightarrow> P x \<Longrightarrow> P y \<Longrightarrow> x = y" and "set xs = set ys"
  shows "find P xs = find P ys"
proof (cases "find P xs")
  case None
  then show ?thesis using assms(2) by (metis find_None_iff)
next
  case (Some x)
  then have x: "x \<in> set ys" "P x" using find_SomeD [OF Some] assms(2) by auto
  then obtain y where "find P ys = Some y" by (metis find_None_iff not_None_eq)
  then show ?thesis using Some x assms find_SomeD by metis
qed

lemma find_rev_distinct: "distinct (map f xs) \<Longrightarrow> find (\<lambda>x. f x = k) (rev xs) = find (\<lambda>x. f x = k) xs"
  by (rule find_unique) (auto simp: distinct_map inj_on_def)

lemma find_map: "find P (map f xs) = map_option f (find (P \<circ> f) xs)"
  by (induction xs) auto

end
