(* ===== verification/GoStrings.thy ===== *)
theory GoStrings
  imports CC_Prelude
begin

text \<open>
  Go strings are byte sequences, and so is \<open>string\<close> here: a \<open>char\<close> is one byte. This theory models
  what the sources use of the packages \<open>strings\<close>, \<open>unicode/utf8\<close> and \<open>strconv\<close>: decoding into
  runes with Go's treatment of invalid bytes, trimming and splitting at Unicode white space,
  splitting at a separator, and decimal numbers. Letter case is folded for the letters of ASCII;
  other bytes are left as they are, which is what Go does for strings without cased letters
  outside ASCII.
\<close>

section \<open>Bytes and letters\<close>

abbreviation tab :: char where "tab \<equiv> CHR 0x09"
abbreviation newline :: char where "newline \<equiv> CHR 0x0A"

definition byte :: "char \<Rightarrow> nat" where
  "byte c = of_char c"

definition lower_byte :: "char \<Rightarrow> char" where
  "lower_byte c = (if 65 \<le> byte c \<and> byte c \<le> 90 then char_of (byte c + 32) else c)"

definition upper_byte :: "char \<Rightarrow> char" where
  "upper_byte c = (if 97 \<le> byte c \<and> byte c \<le> 122 then char_of (byte c - 32) else c)"

definition to_lower :: "string \<Rightarrow> string" where
  "to_lower s = map lower_byte s"

definition to_upper :: "string \<Rightarrow> string" where
  "to_upper s = map upper_byte s"

text \<open>\<open>strings.EqualFold\<close>.\<close>

definition equal_fold :: "string \<Rightarrow> string \<Rightarrow> bool" where
  "equal_fold a b \<longleftrightarrow> to_lower a = to_lower b"

lemma byte_char_of [simp]: "n < 256 \<Longrightarrow> byte (char_of n) = n"
  by (simp add: byte_def)

lemma char_of_byte [simp]: "char_of (byte c) = c"
  by (simp add: byte_def)

lemma byte_less [simp]: "byte c < 256"
  by (simp add: byte_def)

lemma byte_inject [simp]: "byte c = byte d \<longleftrightarrow> c = d"
  by (simp add: byte_def)

lemma lower_byte_idem [simp]: "lower_byte (lower_byte c) = lower_byte c"
  by (simp add: lower_byte_def)

text \<open>A byte that is no small letter has only itself in the fold.\<close>

lemma lower_byte_other: "lower_byte c = d \<Longrightarrow> \<not> (97 \<le> byte d \<and> byte d \<le> 122) \<Longrightarrow> c = d"
proof (rule ccontr)
  assume a: "lower_byte c = d" "\<not> (97 \<le> byte d \<and> byte d \<le> 122)" "c \<noteq> d"
  then have r: "65 \<le> byte c" "byte c \<le> 90" "char_of (byte c + 32) = d" by (auto simp: lower_byte_def split: if_splits)
  then have "byte d = byte c + 32" using byte_char_of [of "byte c + 32"] by auto
  then show False using a(2) r by simp
qed

lemma to_lower_idem [simp]: "to_lower (to_lower s) = to_lower s"
  by (simp add: to_lower_def)

lemma length_to_lower [simp]: "length (to_lower s) = length s"
  by (simp add: to_lower_def)

section \<open>Runes\<close>

text \<open>\<open>utf8.DecodeRuneInString\<close>: the rune and its width; an invalid encoding is U+FFFD of width 1.\<close>

definition rune_error :: nat where "rune_error = 65533"

definition cont :: "nat \<Rightarrow> bool" where
  "cont b \<longleftrightarrow> 128 \<le> b \<and> b \<le> 191"

definition second_ok :: "nat \<Rightarrow> nat \<Rightarrow> bool" where
  "second_ok b0 b1 \<longleftrightarrow>
     (if b0 = 224 then 160 \<le> b1 \<and> b1 \<le> 191
      else if b0 = 237 then 128 \<le> b1 \<and> b1 \<le> 159
      else if b0 = 240 then 144 \<le> b1 \<and> b1 \<le> 191
      else if b0 = 244 then 128 \<le> b1 \<and> b1 \<le> 143
      else cont b1)"

fun decode_rune :: "nat list \<Rightarrow> nat \<times> nat" where
  "decode_rune [] = (rune_error, 0)"
| "decode_rune (b0 # bs) =
     (if b0 < 128 then (b0, 1)
      else if 194 \<le> b0 \<and> b0 \<le> 223 then
        (case bs of b1 # _ \<Rightarrow> if cont b1 then ((b0 - 192) * 64 + (b1 - 128), 2) else (rune_error, 1)
         | [] \<Rightarrow> (rune_error, 1))
      else if 224 \<le> b0 \<and> b0 \<le> 239 then
        (case bs of b1 # b2 # _ \<Rightarrow>
           if second_ok b0 b1 \<and> cont b2
           then ((b0 - 224) * 4096 + (b1 - 128) * 64 + (b2 - 128), 3) else (rune_error, 1)
         | _ \<Rightarrow> (rune_error, 1))
      else if 240 \<le> b0 \<and> b0 \<le> 244 then
        (case bs of b1 # b2 # b3 # _ \<Rightarrow>
           if second_ok b0 b1 \<and> cont b2 \<and> cont b3
           then ((b0 - 240) * 262144 + (b1 - 128) * 4096 + (b2 - 128) * 64 + (b3 - 128), 4)
           else (rune_error, 1)
         | _ \<Rightarrow> (rune_error, 1))
      else (rune_error, 1))"

text \<open>A string as the sequence of its runes, each with the bytes it was decoded from.\<close>

function segs :: "string \<Rightarrow> (nat \<times> string) list" where
  "segs s = (if s = [] then []
     else (let (r, w) = decode_rune (map byte (take 4 s)); k = max 1 w in (r, take k s) # segs (drop k s)))"
  by pat_completeness auto
termination by (relation "measure length") (auto simp: Let_def max_def)

declare segs.simps [simp del]

lemma segs_Nil [simp]: "segs [] = []"
  by (subst segs.simps) simp

text \<open>The conversion \<open>[]rune(s)\<close>.\<close>

definition runes :: "string \<Rightarrow> nat list" where
  "runes s = map fst (segs s)"

text \<open>The conversion \<open>string(rs)\<close>: surrogates and numbers beyond U+10FFFF become U+FFFD.\<close>

definition valid_rune :: "nat \<Rightarrow> bool" where
  "valid_rune r \<longleftrightarrow> r < 55296 \<or> (57343 < r \<and> r \<le> 1114111)"

definition encode_valid :: "nat \<Rightarrow> nat list" where
  "encode_valid r =
     (if r < 128 then [r]
      else if r < 2048 then [192 + r div 64, 128 + r mod 64]
      else if r < 65536 then [224 + r div 4096, 128 + r div 64 mod 64, 128 + r mod 64]
      else [240 + r div 262144, 128 + r div 4096 mod 64, 128 + r div 64 mod 64, 128 + r mod 64])"

definition encode_rune :: "nat \<Rightarrow> string" where
  "encode_rune r = map char_of (encode_valid (if valid_rune r then r else rune_error))"

definition of_runes :: "nat list \<Rightarrow> string" where
  "of_runes rs = concat (map encode_rune rs)"

lemma concat_segs: "concat (map snd (segs s)) = s"
proof (induction s rule: segs.induct)
  case (1 s)
  show ?case
  proof (cases "s = []")
    case False
    obtain r w where rw: "decode_rune (map byte (take 4 s)) = (r, w)" by fastforce
    with False 1 have "concat (map snd (segs (drop (max 1 w) s))) = drop (max 1 w) s"
      by (metis (no_types))
    with False rw show ?thesis
      by (subst segs.simps) (simp add: Let_def)
  qed simp
qed

lemma segs_ascii: "byte c < 128 \<Longrightarrow> segs (c # s) = (byte c, [c]) # segs s"
  by (subst segs.simps) (simp add: Let_def)

lemma runes_ascii: "\<forall>c \<in> set s. byte c < 128 \<Longrightarrow> runes s = map byte s"
  by (induction s) (auto simp: runes_def segs_ascii)

lemma runes_Nil [simp]: "runes [] = []"
  by (simp add: runes_def)

lemma of_runes_append [simp]: "of_runes (rs @ qs) = of_runes rs @ of_runes qs"
  by (simp add: of_runes_def)

text \<open>Decoding what was encoded: the round trip on valid runes.\<close>

lemma encode_valid_bytes: "valid_rune r \<Longrightarrow> \<forall>b \<in> set (encode_valid r). b < 256"
  by (auto simp: valid_rune_def encode_valid_def)

lemma encode_valid_nonempty: "encode_valid r \<noteq> []"
  by (simp add: encode_valid_def)

lemma encode_valid_length: "length (encode_valid r) \<le> 4"
  by (simp add: encode_valid_def)

text \<open>The base-64 digits of a number, as linear facts.\<close>

lemma base64_digits:
  fixes r :: nat
  obtains q p a b c d where "r = 64 * q + d" "d < 64" "q = 64 * p + c" "c < 64" "p = 64 * a + b" "b < 64"
    "q = r div 64" "d = r mod 64" "p = r div 4096" "c = r div 64 mod 64"
    "a = r div 262144" "b = r div 4096 mod 64"
proof -
  have "r div 64 div 64 = r div 4096" "r div 4096 div 64 = r div 262144"
    by (simp_all add: div_mult2_eq [symmetric])
  then show ?thesis
    using that [of "r div 64" "r mod 64" "r div 4096" "r div 64 mod 64" "r div 262144" "r div 4096 mod 64"]
    by (metis mod_less_divisor mult_div_mod_eq zero_less_numeral)
qed

lemma decode_encode_valid:
  assumes "valid_rune r"
  shows "decode_rune (encode_valid r @ bs) = (r, length (encode_valid r))"
proof -
  obtain q p a b c d where D: "r = 64 * q + d" "d < 64" "q = 64 * p + c" "c < 64" "p = 64 * a + b" "b < 64"
    and Q: "q = r div 64" "d = r mod 64" "p = r div 4096" "c = r div 64 mod 64"
      "a = r div 262144" "b = r div 4096 mod 64"
    by (rule base64_digits)
  consider "r < 128" | "128 \<le> r" "r < 2048" | "2048 \<le> r" "r < 65536" | "65536 \<le> r" by linarith
  then show ?thesis
  proof cases
    case 1
    then show ?thesis by (simp add: encode_valid_def)
  next
    case 2
    have e: "encode_valid r = [192 + q, 128 + d]" using 2 by (simp add: encode_valid_def Q)
    have "2 \<le> q" "q \<le> 31" "q * 64 + d = r" using 2 D by linarith+
    then show ?thesis using D(2) by (simp add: e cont_def)
  next
    case 3
    have e: "encode_valid r = [224 + p, 128 + c, 128 + d]" using 3 by (simp add: encode_valid_def Q)
    have p: "p \<le> 15" using 3 D by linarith
    have "p = 0 \<longrightarrow> 32 \<le> c" using 3 D by linarith
    moreover have "p = 13 \<longrightarrow> c \<le> 31" using assms D unfolding valid_rune_def by linarith
    ultimately have "second_ok (224 + p) (128 + c)"
      using p D(4) by (auto simp: second_ok_def cont_def)
    moreover have "p * 4096 + c * 64 + d = r" using D by linarith
    ultimately show ?thesis using p D(2) by (simp add: e cont_def)
  next
    case 4
    have e: "encode_valid r = [240 + a, 128 + b, 128 + c, 128 + d]"
      using 4 by (simp add: encode_valid_def Q)
    have a: "a \<le> 4" using assms 4 D unfolding valid_rune_def by linarith
    have "a = 0 \<longrightarrow> 16 \<le> b" using 4 D by linarith
    moreover have "a = 4 \<longrightarrow> b \<le> 15" using assms D unfolding valid_rune_def by linarith
    ultimately have "second_ok (240 + a) (128 + b)"
      using a D(6) by (auto simp: second_ok_def cont_def)
    moreover have "a * 262144 + b * 4096 + c * 64 + d = r" using D by linarith
    ultimately show ?thesis using a D(2,4) by (simp add: e cont_def)
  qed
qed

lemma segs_encode:
  assumes "valid_rune r"
  shows "segs (encode_rune r @ s) = (r, encode_rune r) # segs s"
proof -
  let ?e = "encode_valid r" and ?n = "length (encode_valid r)"
  have enc: "encode_rune r = map char_of ?e" using assms by (simp add: encode_rune_def)
  have n: "1 \<le> ?n" "?n \<le> 4"
    using encode_valid_nonempty [of r] encode_valid_length [of r] by (auto simp: Suc_le_eq)
  have "map byte (map char_of ?e) = ?e"
    using encode_valid_bytes [OF assms] by (simp add: map_idI)
  then have bytes: "map byte (take 4 (encode_rune r @ s)) = ?e @ map byte (take (4 - ?n) s)"
    using n by (simp add: enc)
  have "decode_rune (map byte (take 4 (encode_rune r @ s))) = (r, ?n)"
    by (simp only: bytes decode_encode_valid [OF assms])
  moreover have "encode_rune r @ s \<noteq> []" using n by (auto simp: enc)
  moreover have "max 1 ?n = length (encode_rune r)" using n by (simp add: enc)
  ultimately show ?thesis by (subst segs.simps) (simp add: Let_def)
qed

lemma runes_of_runes:
  assumes "\<forall>r \<in> set rs. valid_rune r"
  shows "runes (of_runes rs) = rs"
  using assms by (induction rs) (auto simp: runes_def of_runes_def segs_encode)

text \<open>The first \<open>n\<close> runes of a string, re-encoded, as in \<open>string([]rune(s)[:n])\<close>.\<close>

lemma valid_decode_2:
  "(194::nat) \<le> b0 \<Longrightarrow> b0 \<le> 223 \<Longrightarrow> cont b1 \<Longrightarrow> valid_rune ((b0 - 192) * 64 + (b1 - 128))"
  by (auto simp: valid_rune_def cont_def)

lemma valid_decode_3:
  assumes "(224::nat) \<le> b0" "b0 \<le> 239" "second_ok b0 b1" "cont b2"
  shows "valid_rune ((b0 - 224) * 4096 + (b1 - 128) * 64 + (b2 - 128))"
proof -
  have b1: "128 \<le> b1" "b1 \<le> 191" using assms(3) by (auto simp: second_ok_def cont_def split: if_splits)
  have b2: "128 \<le> b2" "b2 \<le> 191" using assms(4) by (auto simp: cont_def)
  have "b0 = 237 \<longrightarrow> b1 \<le> 159" using assms(3) by (auto simp: second_ok_def)
  moreover have "b0 \<le> 236 \<or> b0 = 237 \<or> 238 \<le> b0" by linarith
  ultimately show ?thesis using assms(1,2) b1 b2 unfolding valid_rune_def by linarith
qed

lemma valid_decode_4:
  assumes "(240::nat) \<le> b0" "b0 \<le> 244" "second_ok b0 b1" "cont b2" "cont b3"
  shows "valid_rune ((b0 - 240) * 262144 + (b1 - 128) * 4096 + (b2 - 128) * 64 + (b3 - 128))"
proof -
  have b1: "128 \<le> b1" "b1 \<le> 191" using assms(3) by (auto simp: second_ok_def cont_def split: if_splits)
  have "b0 = 240 \<longrightarrow> 144 \<le> b1" "b0 = 244 \<longrightarrow> b1 \<le> 143" using assms(3) by (auto simp: second_ok_def)
  with assms b1 show ?thesis unfolding valid_rune_def cont_def by linarith
qed

lemma decode_rune_valid: "\<forall>b \<in> set bs. b < 256 \<Longrightarrow> valid_rune (fst (decode_rune bs))"
proof (cases bs)
  case (Cons b0 bt)
  have err: "valid_rune rune_error" by (simp add: valid_rune_def rune_error_def)
  show ?thesis
    using err by (auto simp: Cons valid_rune_def [of b0] intro: valid_decode_2 valid_decode_3 valid_decode_4
        split: list.splits)
qed (simp add: valid_rune_def rune_error_def)

lemma segs_valid: "r \<in> fst ` set (segs s) \<Longrightarrow> valid_rune r"
proof (induction s rule: segs.induct)
  case (1 s)
  show ?case
  proof (cases "s = []")
    case False
    obtain q w where qw: "decode_rune (map byte (take 4 s)) = (q, w)" by fastforce
    have "valid_rune q" using decode_rune_valid [of "map byte (take 4 s)"] qw by auto
    moreover have "r = q \<or> r \<in> fst ` set (segs (drop (max 1 w) s))"
      using "1.prems" False qw by (subst (asm) segs.simps) (auto simp: Let_def)
    ultimately show ?thesis using "1.IH" False qw by (metis (no_types))
  qed (use "1.prems" in simp)
qed

lemma runes_valid: "\<forall>r \<in> set (runes s). valid_rune r"
  by (auto simp: runes_def intro: segs_valid)

definition rune_prefix :: "nat \<Rightarrow> string \<Rightarrow> string" where
  "rune_prefix n s = of_runes (take n (runes s))"

lemma runes_rune_prefix: "runes (rune_prefix n s) = take n (runes s)"
  unfolding rune_prefix_def using runes_valid [of s]
  by (intro runes_of_runes) (auto dest: in_set_takeD)

section \<open>White space, fields, separators\<close>

definition is_space :: "nat \<Rightarrow> bool" where
  "is_space r \<longleftrightarrow> r \<in> {9, 10, 11, 12, 13, 32, 133, 160, 5760, 8232, 8233, 8239, 8287, 12288}
     \<or> (8192 \<le> r \<and> r \<le> 8202)"

definition trim_space :: "string \<Rightarrow> string" where
  "trim_space s =
     concat (map snd (rev (dropWhile (is_space \<circ> fst) (rev (dropWhile (is_space \<circ> fst) (segs s))))))"

text \<open>\<open>strings.Fields\<close>: the maximal runs of runes that are no space.\<close>

fun fields_acc :: "(nat \<times> string) list \<Rightarrow> string \<Rightarrow> string list" where
  "fields_acc [] acc = (if acc = [] then [] else [acc])"
| "fields_acc ((r, b) # xs) acc =
     (if is_space r then (if acc = [] then fields_acc xs [] else acc # fields_acc xs [])
      else fields_acc xs (acc @ b))"

definition fields :: "string \<Rightarrow> string list" where
  "fields s = fields_acc (segs s) []"

lemma fields_acc_nonempty: "[] \<notin> set (fields_acc xs acc) \<or> (\<exists>r. (r, []) \<in> set xs)"
  by (induction xs acc rule: fields_acc.induct) (auto split: if_splits)

lemma segs_nonempty_bytes: "(r, b) \<in> set (segs s) \<Longrightarrow> b \<noteq> []"
proof (induction s rule: segs.induct)
  case (1 s)
  show ?case
  proof (cases "s = []")
    case False
    obtain q w where qw: "decode_rune (map byte (take 4 s)) = (q, w)" by fastforce
    have "b = take (max 1 w) s \<or> (r, b) \<in> set (segs (drop (max 1 w) s))"
      using "1.prems" False qw by (subst (asm) segs.simps) (auto simp: Let_def)
    then show ?thesis
    proof
      assume "b = take (max 1 w) s"
      with False show ?thesis by simp
    next
      assume "(r, b) \<in> set (segs (drop (max 1 w) s))"
      with "1.IH" False qw show ?thesis by (metis (no_types))
    qed
  qed (use "1.prems" in simp)
qed

lemma fields_nonempty: "[] \<notin> set (fields s)"
  using fields_acc_nonempty [of "segs s" "[]"] segs_nonempty_bytes by (auto simp: fields_def)

text \<open>Words of printable ASCII separated by single blanks come apart again.\<close>

definition ascii_word :: "string \<Rightarrow> bool" where
  "ascii_word w \<longleftrightarrow> w \<noteq> [] \<and> list_all (\<lambda>c. 33 \<le> byte c \<and> byte c < 127) w"

lemma segs_ascii_list: "\<forall>c \<in> set s. byte c < 128 \<Longrightarrow> segs s = map (\<lambda>c. (byte c, [c])) s"
  by (induction s) (auto simp: segs_ascii)

lemma fields_acc_word:
  "list_all (\<lambda>c. 33 \<le> byte c \<and> byte c < 127) w \<Longrightarrow>
   fields_acc (map (\<lambda>c. (byte c, [c])) w @ xs) acc = fields_acc xs (acc @ w)"
  by (induction w arbitrary: acc) (auto simp: is_space_def)

lemma trim_space_Nil [simp]: "trim_space [] = []"
  by (simp add: trim_space_def)

lemma trim_space_ascii:
  assumes "\<forall>c \<in> set s. byte c < 128" "s \<noteq> []" "\<not> is_space (byte (hd s))" "\<not> is_space (byte (last s))"
  shows "trim_space s = s"
proof -
  let ?f = "\<lambda>c. (byte c, [c])"
  have seg: "segs s = map ?f s" by (rule segs_ascii_list [OF assms(1)])
  have keep: "dropWhile (is_space \<circ> fst) (map ?f v) = map ?f v" if "v \<noteq> []" "\<not> is_space (byte (hd v))" for v
    using that by (cases v) auto
  have c: "concat (map snd (map ?f s)) = s" by (induction s) auto
  have "rev (dropWhile (is_space \<circ> fst) (rev (map ?f s))) = map ?f s"
    unfolding rev_map [of ?f s] using keep [of "rev s"] assms(2,4) by (simp add: hd_rev rev_map)
  then show ?thesis unfolding trim_space_def seg keep [OF assms(2,3)] using c by simp
qed

lemma trim_space_word:
  assumes "ascii_word w"
  shows "trim_space w = w"
proof (rule trim_space_ascii)
  have b: "33 \<le> byte c \<and> byte c < 127" if "c \<in> set w" for c using that assms by (simp add: ascii_word_def list_all_iff)
  show ne: "w \<noteq> []" using assms by (simp add: ascii_word_def)
  show "\<forall>c \<in> set w. byte c < 128" using b by fastforce
  show "\<not> is_space (byte (hd w))" using b [of "hd w"] ne by (simp add: is_space_def)
  show "\<not> is_space (byte (last w))" using b [of "last w"] ne by (simp add: is_space_def)
qed

fun join_blank :: "string list \<Rightarrow> string" where
  "join_blank [] = []"
| "join_blank [w] = w"
| "join_blank (w # v # ws) = w @ CHR '' '' # join_blank (v # ws)"

lemma join_blank_ascii: "list_all ascii_word ws \<Longrightarrow> \<forall>c \<in> set (join_blank ws). byte c < 128"
  by (induction ws rule: join_blank.induct) (auto simp: ascii_word_def list_all_iff byte_def)

lemma fields_join_blank:
  assumes "list_all ascii_word ws"
  shows "fields (join_blank ws) = ws"
proof -
  have blank: "is_space (byte (CHR '' ''))" by (simp add: is_space_def byte_def)
  have "fields_acc (map (\<lambda>c. (byte c, [c])) (join_blank ws)) [] = ws"
    using assms
  proof (induction ws rule: join_blank.induct)
    case (2 w)
    then show ?case using fields_acc_word [of w "[]" "[]"] by (simp add: ascii_word_def)
  next
    case (3 w v ws)
    then show ?case using blank by (simp add: ascii_word_def fields_acc_word)
  qed simp
  then show ?thesis unfolding fields_def by (simp add: segs_ascii_list [OF join_blank_ascii [OF assms]])
qed

text \<open>\<open>strings.Cut\<close> at a one-byte separator: before, after, and whether it was found.\<close>

fun cut :: "char \<Rightarrow> string \<Rightarrow> string \<times> string option" where
  "cut c [] = ([], None)"
| "cut c (x # xs) = (if x = c then ([], Some xs) else (case cut c xs of (a, b) \<Rightarrow> (x # a, b)))"

text \<open>\<open>strings.SplitN\<close> for a one-byte separator and a positive bound.\<close>

fun split_n :: "char \<Rightarrow> nat \<Rightarrow> string \<Rightarrow> string list" where
  "split_n c 0 s = []"
| "split_n c (Suc 0) s = [s]"
| "split_n c (Suc (Suc n)) s =
     (case cut c s of (a, None) \<Rightarrow> [a] | (a, Some rest) \<Rightarrow> a # split_n c (Suc n) rest)"

lemma cut_None: "cut c s = (a, None) \<Longrightarrow> a = s \<and> c \<notin> set s"
  by (induction s arbitrary: a) (auto split: if_splits prod.splits)

lemma cut_Some: "cut c s = (a, Some b) \<Longrightarrow> s = a @ c # b \<and> c \<notin> set a"
  by (induction s arbitrary: a) (auto split: if_splits prod.splits)

lemma cut_append: "c \<notin> set a \<Longrightarrow> cut c (a @ c # b) = (a, Some b)"
  by (induction a) auto

lemma cut_absent: "c \<notin> set a \<Longrightarrow> cut c a = (a, None)"
  by (induction a) auto

lemma length_split_n: "length (split_n c n s) \<le> n"
  by (induction c n s rule: split_n.induct) (auto split: prod.splits option.splits)

lemma split_n_nonempty: "0 < n \<Longrightarrow> split_n c n s \<noteq> []"
  by (cases "(c, n, s)" rule: split_n.cases) (auto split: prod.splits option.splits)

fun join :: "string \<Rightarrow> string list \<Rightarrow> string" where
  "join sep [] = []"
| "join sep [x] = x"
| "join sep (x # y # ys) = x @ sep @ join sep (y # ys)"

text \<open>Splitting loses nothing: joining the parts gives the string back.\<close>

lemma join_split_n: "0 < n \<Longrightarrow> join [c] (split_n c n s) = s"
proof (induction c n s rule: split_n.induct)
  case (3 c n s)
  obtain a b where ab: "cut c s = (a, b)" by fastforce
  show ?case
  proof (cases b)
    case None
    with ab show ?thesis using cut_None [of c s a] by simp
  next
    case (Some r)
    then have "split_n c (Suc n) r \<noteq> []" by (simp add: split_n_nonempty)
    then obtain y ys where y: "split_n c (Suc n) r = y # ys" by (cases "split_n c (Suc n) r") auto
    have "join [c] (split_n c (Suc n) r) = r" using 3 ab Some by auto
    with ab Some y show ?thesis using cut_Some [of c s a r] by simp
  qed
qed simp_all

text \<open>\<open>strings.Split\<close> at a one-byte separator, and its parts.\<close>

definition split_all :: "char \<Rightarrow> string \<Rightarrow> string list" where
  "split_all c s = split_n c (Suc (length s)) s"

lemma split_n_enough: "length s < n \<Longrightarrow> split_n c n s = split_n c (Suc (length s)) s"
proof (induction "length s" arbitrary: s n rule: less_induct)
  case less
  obtain a r where c: "cut c s = (a, r)" by fastforce
  obtain n' where n: "n = Suc n'" using less.prems by (cases n) auto
  show ?case
  proof (cases s)
    case Nil
    then show ?thesis using n by (cases n') auto
  next
    case (Cons x xs)
    then obtain n'' where n': "n' = Suc n''" using n less.prems by (cases n') auto
    show ?thesis
    proof (cases r)
      case None
      then show ?thesis using c n n' Cons by simp
    next
      case (Some t)
      then have "s = a @ c # t" using cut_Some c by metis
      then have t: "length t < length s" by simp
      then have "split_n c (Suc n'') t = split_n c (Suc (length t)) t" "split_n c (Suc (length xs)) t = split_n c (Suc (length t)) t"
        using less.hyps [OF t, of "Suc n''"] less.hyps [OF t, of "Suc (length xs)"] less.prems n n' Cons by auto
      then show ?thesis using c Some n n' Cons by simp
    qed
  qed
qed

lemma split_all_step:
  "split_all c s = (case cut c s of (a, None) \<Rightarrow> [a] | (a, Some r) \<Rightarrow> a # split_all c r)"
proof (cases s)
  case (Cons x xs)
  obtain a r where ar: "cut c s = (a, r)" by fastforce
  show ?thesis
  proof (cases r)
    case None
    then show ?thesis using Cons ar by (simp add: split_all_def)
  next
    case (Some t)
    then have "s = a @ c # t" using ar cut_Some by metis
    then have "length s = length a + Suc (length t)" by simp
    then have "length t < Suc (length xs)" using Cons by simp
    then have "split_n c (Suc (length xs)) t = split_all c t" unfolding split_all_def by (rule split_n_enough)
    then show ?thesis using Cons ar Some by (simp add: split_all_def)
  qed
qed (simp add: split_all_def)

lemma split_all_append: "split_all c (a @ c # b) = split_all c a @ split_all c b"
proof (induction "length a" arbitrary: a rule: less_induct)
  case less
  show ?case
  proof (cases "c \<in> set a")
    case False
    then show ?thesis
      by (subst (1 2) split_all_step) (simp add: cut_append cut_absent)
  next
    case True
    then obtain p q where pq: "a = p @ c # q" "c \<notin> set p" by (meson split_list_first)
    then show ?thesis using less [of q]
      by (subst (1 2) split_all_step) (simp add: cut_append)
  qed
qed

lemma split_all_absent: "c \<notin> set a \<Longrightarrow> split_all c a = [a]"
  by (subst split_all_step) (simp add: cut_absent)

lemma split_all_parts: "p \<in> set (split_all c s) \<Longrightarrow> c \<notin> set p"
proof (induction "length s" arbitrary: s rule: less_induct)
  case less
  obtain a r where c: "cut c s = (a, r)" by fastforce
  show ?case
  proof (cases r)
    case None
    then show ?thesis using less.prems c cut_None [of c s a] by (subst (asm) split_all_step) auto
  next
    case (Some t)
    then have "s = a @ c # t" "c \<notin> set a" using cut_Some c by metis+
    then show ?thesis using less.hyps [of t] less.prems c Some by (subst (asm) split_all_step) auto
  qed
qed

lemma split_all_join: "ps \<noteq> [] \<Longrightarrow> \<forall>p \<in> set ps. c \<notin> set p \<Longrightarrow> split_all c (join [c] ps) = ps"
  by (induction "[c]" ps rule: join.induct) (auto simp: split_all_absent split_all_append)

text \<open>The lexical clean-up of a Unix path (\<open>filepath.Clean\<close>).\<close>

fun clean_parts :: "bool \<Rightarrow> string list \<Rightarrow> string list \<Rightarrow> string list" where
  "clean_parts rooted [] stack = rev stack"
| "clean_parts rooted (c # cs) stack =
     (if c = [] \<or> c = ''.'' then clean_parts rooted cs stack
      else if c = ''..'' then
        (case stack of
           d # rest \<Rightarrow> if d = ''..'' then clean_parts rooted cs (c # stack) else clean_parts rooted cs rest
         | [] \<Rightarrow> clean_parts rooted cs (if rooted then [] else [c]))
      else clean_parts rooted cs (c # stack))"

definition path_clean :: "string \<Rightarrow> string" where
  "path_clean s =
     (let rooted = (s \<noteq> [] \<and> hd s = CHR ''/'');
          p = (if rooted then ''/'' else []) @ join ''/'' (clean_parts rooted (split_all (CHR ''/'') s) [])
      in if p = [] then ''.'' else p)"

definition has_prefix :: "string \<Rightarrow> string \<Rightarrow> bool" where
  "has_prefix s p \<longleftrightarrow> take (length p) s = p"

definition has_suffix :: "string \<Rightarrow> string \<Rightarrow> bool" where
  "has_suffix s p \<longleftrightarrow> length p \<le> length s \<and> drop (length s - length p) s = p"

definition trim_prefix :: "string \<Rightarrow> string \<Rightarrow> string" where
  "trim_prefix s p = (if has_prefix s p then drop (length p) s else s)"

definition trim_suffix :: "string \<Rightarrow> string \<Rightarrow> string" where
  "trim_suffix s p = (if has_suffix s p then take (length s - length p) s else s)"

fun contains :: "string \<Rightarrow> string \<Rightarrow> bool" where
  "contains [] p = (p = [])"
| "contains (c # s) p = (has_prefix (c # s) p \<or> contains s p)"

definition replace_byte :: "char \<Rightarrow> char \<Rightarrow> string \<Rightarrow> string" where
  "replace_byte a b s = map (\<lambda>c. if c = a then b else c) s"

lemma contains_iff: "contains s p \<longleftrightarrow> (\<exists>a b. s = a @ p @ b)"
proof (induction s)
  case (Cons c s)
  have "has_prefix (c # s) p \<longleftrightarrow> (\<exists>b. c # s = p @ b)"
    by (metis append_eq_conv_conj append_take_drop_id has_prefix_def)
  with Cons show ?case by (auto simp: Cons_eq_append_conv)
qed auto

section \<open>Decimal numbers\<close>

fun dec_nat :: "nat \<Rightarrow> string" where
  "dec_nat n = (if n < 10 then [char_of (48 + n)] else dec_nat (n div 10) @ [char_of (48 + n mod 10)])"

declare dec_nat.simps [simp del]

definition itoa :: "int \<Rightarrow> string" where
  "itoa i = (if i < 0 then ''-'' @ dec_nat (nat (- i)) else dec_nat (nat i))"

definition is_digit :: "char \<Rightarrow> bool" where
  "is_digit c \<longleftrightarrow> 48 \<le> byte c \<and> byte c \<le> 57"

definition digits_value :: "string \<Rightarrow> nat" where
  "digits_value s = foldl (\<lambda>a c. a * 10 + (byte c - 48)) 0 s"

text \<open>\<open>strconv.Atoi\<close>: an optional sign, at least one digit, nothing else; out of range is an error.\<close>

definition atoi :: "string \<Rightarrow> int option" where
  "atoi s =
     (let (neg, d) = (case s of c # t \<Rightarrow> if c = CHR ''-'' then (True, t)
            else if c = CHR ''+'' then (False, t) else (False, s) | [] \<Rightarrow> (False, s));
          v = (if neg then - int (digits_value d) else int (digits_value d))
      in if d \<noteq> [] \<and> list_all is_digit d \<and> - (2 ^ 63) \<le> v \<and> v < 2 ^ 63 then Some v else None)"

lemma dec_nat_digits: "list_all is_digit (dec_nat n) \<and> dec_nat n \<noteq> []"
proof (induction n rule: dec_nat.induct)
  case (1 n)
  show ?case
  proof (cases "n < 10")
    case False
    have "n mod 10 < 10" by simp
    then have "is_digit (char_of (48 + n mod 10))" by (simp add: is_digit_def)
    with 1 False show ?thesis by (subst (1 2) dec_nat.simps) simp
  qed (subst (1 2) dec_nat.simps, simp add: is_digit_def)
qed

lemma digits_value_dec_nat: "digits_value (dec_nat n) = n"
proof (induction n rule: dec_nat.induct)
  case (1 n)
  show ?case
  proof (cases "n < 10")
    case False
    have "n mod 10 < 10" by simp
    then have "byte (char_of (48 + n mod 10)) - 48 = n mod 10" by simp
    moreover have "n div 10 * 10 + n mod 10 = n" by simp
    ultimately show ?thesis using 1 False by (subst dec_nat.simps) (simp add: digits_value_def)
  qed (subst dec_nat.simps, simp add: digits_value_def)
qed

lemma dec_nat_inject [simp]: "dec_nat m = dec_nat n \<longleftrightarrow> m = n"
  by (metis digits_value_dec_nat)

lemma is_digit_no_minus: "is_digit c \<Longrightarrow> c \<noteq> CHR ''-'' \<and> c \<noteq> CHR ''+''"
  by (auto simp: is_digit_def byte_def)

lemma dec_nat_head: "\<exists>c t. dec_nat n = c # t \<and> c \<noteq> CHR ''-'' \<and> c \<noteq> CHR ''+''"
  using dec_nat_digits [of n] is_digit_no_minus by (cases "dec_nat n") auto

lemma itoa_inject [simp]: "itoa i = itoa j \<longleftrightarrow> i = j"
  using dec_nat_head [of "nat i"] dec_nat_head [of "nat j"] by (auto simp: itoa_def)

lemma atoi_itoa: "- (2 ^ 63) \<le> i \<Longrightarrow> i < 2 ^ 63 \<Longrightarrow> atoi (itoa i) = Some i"
  using dec_nat_head [of "nat i"] dec_nat_digits [of "nat i"] digits_value_dec_nat [of "nat i"]
    dec_nat_digits [of "nat (- i)"] digits_value_dec_nat [of "nat (- i)"]
  by (auto simp: atoi_def itoa_def Let_def)

section \<open>Hexadecimal\<close>

definition hex_digit :: "nat \<Rightarrow> char" where
  "hex_digit n = (if n < 10 then char_of (48 + n) else char_of (87 + n))"

definition hex_encode :: "nat list \<Rightarrow> string" where
  "hex_encode bs = concat (map (\<lambda>b. [hex_digit (b div 16), hex_digit (b mod 16)]) bs)"

end
