(* ===== verification/Session.thy ===== *)
theory Session
  imports GoStrings
begin

text \<open>
  One conversation (\<open>type Session\<close> of \<open>src/core/session.go\<close>). Every method takes the session's
  mutex for its whole body, so each is one atomic function on the record; methods that read the
  clock take \<open>now\<close>. A \<open>*Session\<close> held by other parts of the program is named by its ID.
\<close>

definition ContinueSession :: string where
  "ContinueSession = ''__continue__''"

definition ExplicitActivationTTL :: duration where
  "ExplicitActivationTTL = 7 * 24 * 60 * minute"

record history_entry =
  he_Role :: string
  he_Content :: string
  he_Timestamp :: time

record session =
  s_ID :: string
  s_Name :: string
  s_AgentSessionID :: string
  s_AgentType :: string
  s_PastAgentSessionIDs :: "string list"
  s_ActiveProvider :: string
  s_History :: "history_entry list"
  s_CreatedAt :: time
  s_UpdatedAt :: time
  s_LastUserActivity :: time
  s_ExplicitActivatedAt :: time
  s_busy :: bool

text \<open>The composite literal \<open>\&Session{ID: id, Name: name, CreatedAt: now, UpdatedAt: now}\<close>.\<close>

definition new_session :: "string \<Rightarrow> string \<Rightarrow> time \<Rightarrow> session" where
  "new_session sid name now =
     \<lparr>s_ID = sid, s_Name = name, s_AgentSessionID = [], s_AgentType = [], s_PastAgentSessionIDs = [],
      s_ActiveProvider = [], s_History = [], s_CreatedAt = now, s_UpdatedAt = now,
      s_LastUserActivity = 0, s_ExplicitActivatedAt = 0, s_busy = False\<rparr>"

section \<open>The turn lock\<close>

definition TryLock :: "session \<Rightarrow> session \<times> bool" where
  "TryLock s = (if s_busy s then (s, False) else (s\<lparr>s_busy := True\<rparr>, True))"

definition Busy :: "session \<Rightarrow> bool" where
  "Busy s = s_busy s"

definition unlock :: "bool \<Rightarrow> time \<Rightarrow> session \<Rightarrow> session" where
  "unlock upd now s = (let s = s\<lparr>s_busy := False\<rparr> in if upd then s\<lparr>s_UpdatedAt := now\<rparr> else s)"

definition Unlock :: "time \<Rightarrow> session \<Rightarrow> session" where
  "Unlock now s = unlock True now s"

definition UnlockWithoutUpdate :: "time \<Rightarrow> session \<Rightarrow> session" where
  "UnlockWithoutUpdate now s = unlock False now s"

section \<open>Agent session IDs\<close>

definition recordPastAgentSessionID :: "session \<Rightarrow> session" where
  "recordPastAgentSessionID s =
     (if s_AgentSessionID s = [] \<or> s_AgentSessionID s = ContinueSession then s
      else if s_AgentSessionID s \<in> set (s_PastAgentSessionIDs s) then s
      else s\<lparr>s_PastAgentSessionIDs := s_PastAgentSessionIDs s @ [s_AgentSessionID s]\<rparr>)"

definition SetAgentInfo :: "string \<Rightarrow> string \<Rightarrow> string \<Rightarrow> session \<Rightarrow> session" where
  "SetAgentInfo aid atype name s =
     (let aid = (if aid = ContinueSession then [] else aid);
          s = (if s_AgentSessionID s \<noteq> aid then recordPastAgentSessionID s else s)
      in s\<lparr>s_AgentSessionID := aid, s_AgentType := atype, s_Name := name\<rparr>)"

definition SetAgentSessionID :: "string \<Rightarrow> string \<Rightarrow> session \<Rightarrow> session" where
  "SetAgentSessionID sid atype s =
     (if sid = ContinueSession then s
      else let s = (if s_AgentSessionID s \<noteq> sid then recordPastAgentSessionID s else s)
           in s\<lparr>s_AgentSessionID := sid, s_AgentType := atype\<rparr>)"

definition CompareAndSetAgentSessionID :: "string \<Rightarrow> string \<Rightarrow> session \<Rightarrow> session \<times> bool" where
  "CompareAndSetAgentSessionID sid atype s =
     (if sid = [] \<or> sid = ContinueSession then (s, False)
      else if s_AgentSessionID s \<noteq> [] \<and> s_AgentSessionID s \<noteq> ContinueSession then (s, False)
      else (s\<lparr>s_AgentSessionID := sid, s_AgentType := atype\<rparr>, True))"

definition stripContinueSessionSentinel :: "session \<Rightarrow> session" where
  "stripContinueSessionSentinel s =
     (if s_AgentSessionID s = ContinueSession then s\<lparr>s_AgentSessionID := []\<rparr> else s)"

definition SetActiveProvider :: "string \<Rightarrow> session \<Rightarrow> session" where
  "SetActiveProvider name s = s\<lparr>s_ActiveProvider := name\<rparr>"

definition SetName :: "string \<Rightarrow> session \<Rightarrow> session" where
  "SetName name s = s\<lparr>s_Name := name\<rparr>"

section \<open>Activity and history\<close>

definition TouchUserActivity :: "time \<Rightarrow> session \<Rightarrow> session" where
  "TouchUserActivity now s = s\<lparr>s_LastUserActivity := now\<rparr>"

definition MarkExplicitlyActivated :: "time \<Rightarrow> session \<Rightarrow> session" where
  "MarkExplicitlyActivated now s = s\<lparr>s_ExplicitActivatedAt := now\<rparr>"

definition AddHistory :: "time \<Rightarrow> string \<Rightarrow> string \<Rightarrow> session \<Rightarrow> session" where
  "AddHistory now role content s =
     s\<lparr>s_History := s_History s @ [\<lparr>he_Role = role, he_Content = content, he_Timestamp = now\<rparr>]\<rparr>"

definition ClearHistory :: "session \<Rightarrow> session" where
  "ClearHistory s = s\<lparr>s_History := []\<rparr>"

definition HistoryLen :: "session \<Rightarrow> int" where
  "HistoryLen s = int (length (s_History s))"

definition GetHistory :: "int \<Rightarrow> session \<Rightarrow> history_entry list" where
  "GetHistory n s =
     (let total = int (length (s_History s));
          n = (if n \<le> 0 \<or> n > total then total else n)
      in drop (nat (total - n)) (s_History s))"

text \<open>The methods other components call on a session, as one datatype of operations.\<close>

datatype session_op =
    OpUnlock time | OpUnlockWithoutUpdate time | OpTryLock
  | OpSetAgentInfo string string string | OpSetAgentSessionID string string
  | OpCompareAndSet string string | OpSetActiveProvider string | OpSetName string
  | OpTouch time | OpMark time | OpAddHistory time string string | OpClearHistory

fun session_apply :: "session_op \<Rightarrow> session \<Rightarrow> session" where
  "session_apply (OpUnlock now) s = Unlock now s"
| "session_apply (OpUnlockWithoutUpdate now) s = UnlockWithoutUpdate now s"
| "session_apply OpTryLock s = fst (TryLock s)"
| "session_apply (OpSetAgentInfo a t n) s = SetAgentInfo a t n s"
| "session_apply (OpSetAgentSessionID i t) s = SetAgentSessionID i t s"
| "session_apply (OpCompareAndSet i t) s = fst (CompareAndSetAgentSessionID i t s)"
| "session_apply (OpSetActiveProvider n) s = SetActiveProvider n s"
| "session_apply (OpSetName n) s = SetName n s"
| "session_apply (OpTouch now) s = TouchUserActivity now s"
| "session_apply (OpMark now) s = MarkExplicitlyActivated now s"
| "session_apply (OpAddHistory now r c) s = AddHistory now r c s"
| "session_apply OpClearHistory s = ClearHistory s"

definition session_run :: "session_op list \<Rightarrow> session \<Rightarrow> session" where
  "session_run ops s = fold session_apply ops s"

named_theorems session_ops "definitions of the session methods"
lemmas [session_ops] = TryLock_def unlock_def Unlock_def UnlockWithoutUpdate_def
  recordPastAgentSessionID_def SetAgentInfo_def SetAgentSessionID_def CompareAndSetAgentSessionID_def
  stripContinueSessionSentinel_def SetActiveProvider_def SetName_def TouchUserActivity_def
  MarkExplicitlyActivated_def AddHistory_def ClearHistory_def Let_def

section \<open>Lemmas\<close>

text \<open>
  The agent session IDs a session is known by: the current one and the past ones. No method
  forgets an ID, and no ID is recorded twice. \<open>ids_ok\<close>: past IDs are distinct, and neither empty nor the
  \<open>--continue\<close> sentinel.
\<close>

definition known_ids :: "session \<Rightarrow> string set" where
  "known_ids s = (insert (s_AgentSessionID s) (set (s_PastAgentSessionIDs s))) - {[], ContinueSession}"

definition ids_ok :: "session \<Rightarrow> bool" where
  "ids_ok s \<longleftrightarrow> distinct (s_PastAgentSessionIDs s) \<and> [] \<notin> set (s_PastAgentSessionIDs s)
     \<and> ContinueSession \<notin> set (s_PastAgentSessionIDs s) \<and> s_AgentSessionID s \<noteq> ContinueSession"

lemma ContinueSession_nonempty [simp]: "ContinueSession \<noteq> []" "[] \<noteq> ContinueSession"
  by (simp_all add: ContinueSession_def)

lemma session_apply_ID [simp]: "s_ID (session_apply c s) = s_ID s"
  by (cases c) (auto simp: session_ops)

lemma session_run_ID [simp]: "s_ID (session_run ops s) = s_ID s"
  by (induction ops arbitrary: s) (auto simp: session_run_def)

lemma session_apply_known: "known_ids s \<subseteq> known_ids (session_apply c s)"
  by (cases c) (auto simp: session_ops known_ids_def)

lemma session_run_known: "known_ids s \<subseteq> known_ids (session_run ops s)"
  unfolding session_run_def
proof (induction ops arbitrary: s)
  case (Cons c ops)
  then show ?case using session_apply_known [of s c] by fastforce
qed simp

lemma session_apply_ids_ok: "ids_ok s \<Longrightarrow> ids_ok (session_apply c s)"
  by (cases c) (auto simp: session_ops ids_ok_def)

lemma session_run_ids_ok: "ids_ok s \<Longrightarrow> ids_ok (session_run ops s)"
  unfolding session_run_def by (induction ops arbitrary: s) (auto simp: session_apply_ids_ok)

text \<open>
  The turn lock as a state machine over the calls of any number of goroutines: \<open>holders\<close> counts
  the successful \<open>TryLock\<close> calls not yet followed by an unlock.
\<close>

datatype lock_call = Acquire | Release time bool

inductive lock_run :: "session \<Rightarrow> nat \<Rightarrow> lock_call list \<Rightarrow> session \<Rightarrow> nat \<Rightarrow> bool" where
  lock_nil: "lock_run s n [] s n"
| lock_win: "lock_run s n cs t m \<Longrightarrow> TryLock t = (t', True) \<Longrightarrow> lock_run s n (cs @ [Acquire]) t' (Suc m)"
| lock_lose: "lock_run s n cs t m \<Longrightarrow> TryLock t = (t', False) \<Longrightarrow> lock_run s n (cs @ [Acquire]) t' m"
| lock_release: "lock_run s n cs t (Suc m) \<Longrightarrow> lock_run s n (cs @ [Release now u]) (unlock u now t) m"

lemma lock_run_holders:
  "lock_run s n cs t m \<Longrightarrow> n = (if s_busy s then 1 else 0) \<Longrightarrow> m = (if s_busy t then 1 else 0)"
  by (induction rule: lock_run.induct) (auto simp: session_ops split: if_splits)

lemma length_GetHistory: "length (GetHistory n s) =
    (if n \<le> 0 \<or> n > HistoryLen s then length (s_History s) else nat n)"
  by (auto simp: GetHistory_def HistoryLen_def Let_def)

lemma GetHistory_suffix: "\<exists>older. s_History s = older @ GetHistory n s"
  unfolding GetHistory_def Let_def by (metis append_take_drop_id)

lemma GetHistory_AddHistory:
  "0 < n \<Longrightarrow> n \<le> HistoryLen s + 1 \<Longrightarrow>
   GetHistory n (AddHistory now r c s) =
     (if n = 1 then [] else GetHistory (n - 1) s) @ [\<lparr>he_Role = r, he_Content = c, he_Timestamp = now\<rparr>]"
  by (auto simp: GetHistory_def AddHistory_def HistoryLen_def Let_def algebra_simps)

end
