(* ===== verification/SessionManager.thy ===== *)
theory SessionManager
  imports Session
begin

text \<open>
  The session manager of \<open>src/core/session.go\<close>: the sessions of every user key, the active session
  of each user, and the snapshot it persists. A method holds the manager's lock for its whole
  body, so it is one function on the state. \<open>sm_disk\<close> is the content of the file at
  \<open>sm_storePath\<close>, and \<open>sm_writable\<close> says whether writing it succeeds (a failed write is logged and
  otherwise ignored). A returned \<open>*Session\<close> is the session's ID.
\<close>

record user_meta =
  um_UserName :: string
  um_ChatName :: string

text \<open>\<open>type sessionSnapshot\<close>: the five maps may be missing in a document, and are then nil.\<close>

record session_snapshot =
  sn_Sessions :: "(string, session) gomap option"
  sn_ActiveSession :: "(string, string) gomap option"
  sn_UserSessions :: "(string, string list) gomap option"
  sn_Counter :: int
  sn_SessionNames :: "(string, string) gomap option"
  sn_UserMeta :: "(string, user_meta) gomap option"
  sn_PastIDTracking :: bool
  sn_LegacyData :: bool
  sn_Version :: int

definition snapshotVersion :: int where "snapshotVersion = 1"

record session_manager =
  sm_sessions :: "(string, session) gomap"
  sm_activeSession :: "(string, string) gomap"
  sm_userSessions :: "(string, string list) gomap"
  sm_sessionNames :: "(string, string) gomap"
  sm_userMeta :: "(string, user_meta) gomap"
  sm_counter :: int
  sm_storePath :: string
  sm_legacyData :: bool
  sm_disk :: "session_snapshot stored"
  sm_writable :: bool

datatype session_error = SessionNotFound string

section \<open>Persistence\<close>

text \<open>
  The copy of a session that \<open>saveLocked\<close> puts into the snapshot: the fields it names, the zero
  value for the others (\<open>busy\<close> is not serialised).
\<close>

definition snap_session :: "session \<Rightarrow> session" where
  "snap_session s =
     (new_session (s_ID s) (s_Name s) (s_CreatedAt s))
       \<lparr>s_AgentSessionID := s_AgentSessionID s, s_AgentType := s_AgentType s,
        s_PastAgentSessionIDs := s_PastAgentSessionIDs s, s_History := s_History s,
        s_UpdatedAt := s_UpdatedAt s, s_LastUserActivity := s_LastUserActivity s,
        s_ExplicitActivatedAt := s_ExplicitActivatedAt s\<rparr>"

definition tracked :: "session \<Rightarrow> bool" where
  "tracked s \<longleftrightarrow> \<not> (s_AgentSessionID s = [] \<and> s_PastAgentSessionIDs s = [])"

definition sm_saveLocked :: "session_manager \<Rightarrow> session_manager" where
  "sm_saveLocked sm =
     (if sm_storePath sm = [] then sm
      else let sessions = mmap (\<lambda>_. stripContinueSessionSentinel) (sm_sessions sm);
               snaps = mmap (\<lambda>_. snap_session) sessions;
               legacy = sm_legacyData sm \<and> \<not> list_all (\<lambda>(_, s). tracked s) snaps;
               snap = \<lparr>sn_Sessions = Some snaps, sn_ActiveSession = Some (sm_activeSession sm),
                       sn_UserSessions = Some (sm_userSessions sm), sn_Counter = sm_counter sm,
                       sn_SessionNames = Some (sm_sessionNames sm), sn_UserMeta = Some (sm_userMeta sm),
                       sn_PastIDTracking = True, sn_LegacyData = legacy, sn_Version = snapshotVersion\<rparr>
           in sm\<lparr>sm_sessions := sessions, sm_legacyData := legacy,
                 sm_disk := (if sm_writable sm then Doc snap else sm_disk sm)\<rparr>)"

definition Save :: "session_manager \<Rightarrow> session_manager" where
  "Save sm = sm_saveLocked sm"

definition nil_to_empty :: "('k, 'v) gomap option \<Rightarrow> ('k, 'v) gomap" where
  "nil_to_empty m = (case m of None \<Rightarrow> [] | Some m \<Rightarrow> m)"

definition sm_load :: "session_manager \<Rightarrow> session_manager" where
  "sm_load sm =
     (case sm_disk sm of
        Doc snap \<Rightarrow>
          let sessions = nil_to_empty (sn_Sessions snap);
              legacy = (if snapshotVersion \<le> sn_Version snap then sn_LegacyData snap
                        else if \<not> sn_PastIDTracking snap then True
                        else list_ex (\<lambda>(_, s). \<not> tracked s) sessions)
          in sm\<lparr>sm_sessions := mmap (\<lambda>_. stripContinueSessionSentinel) sessions,
                sm_activeSession := nil_to_empty (sn_ActiveSession snap),
                sm_userSessions := nil_to_empty (sn_UserSessions snap),
                sm_sessionNames := nil_to_empty (sn_SessionNames snap),
                sm_userMeta := nil_to_empty (sn_UserMeta snap),
                sm_counter := sn_Counter snap,
                sm_legacyData := legacy\<rparr>
      | _ \<Rightarrow> sm)"

definition NewSessionManager :: "string \<Rightarrow> session_snapshot stored \<Rightarrow> bool \<Rightarrow> session_manager" where
  "NewSessionManager path disk writable =
     (let sm = \<lparr>sm_sessions = [], sm_activeSession = [], sm_userSessions = [], sm_sessionNames = [],
                sm_userMeta = [], sm_counter = 0, sm_storePath = path, sm_legacyData = False,
                sm_disk = disk, sm_writable = writable\<rparr>
      in if path \<noteq> [] then sm_load sm else sm)"

section \<open>Creating and switching sessions\<close>

definition nextID :: "session_manager \<Rightarrow> session_manager \<times> string" where
  "nextID sm = (let c = sm_counter sm + 1 in (sm\<lparr>sm_counter := c\<rparr>, ''s'' @ itoa c))"

definition addUserSession :: "string \<Rightarrow> string \<Rightarrow> session_manager \<Rightarrow> session_manager" where
  "addUserSession u sid sm =
     sm\<lparr>sm_userSessions := mput u (mget_or [] (sm_userSessions sm) u @ [sid]) (sm_userSessions sm)\<rparr>"

definition createLocked :: "time \<Rightarrow> string \<Rightarrow> string \<Rightarrow> session_manager \<Rightarrow> session_manager \<times> string" where
  "createLocked now userKey name sm =
     (let (sm, sid) = nextID sm;
          sm = sm\<lparr>sm_sessions := mput sid (new_session sid name now) (sm_sessions sm)\<rparr>;
          sm = sm\<lparr>sm_activeSession := mput userKey sid (sm_activeSession sm)\<rparr>
      in (addUserSession userKey sid sm, sid))"

definition GetOrCreateActive :: "time \<Rightarrow> string \<Rightarrow> session_manager \<Rightarrow> session_manager \<times> string" where
  "GetOrCreateActive now userKey sm =
     (let create = (let (sm', sid) = createLocked now userKey ''default'' sm in (sm_saveLocked sm', sid))
      in case mget (sm_activeSession sm) userKey of
           None \<Rightarrow> create
         | Some sid \<Rightarrow> (case mget (sm_sessions sm) sid of None \<Rightarrow> create | Some s \<Rightarrow> (sm, s_ID s)))"

definition NewSession :: "time \<Rightarrow> string \<Rightarrow> string \<Rightarrow> session_manager \<Rightarrow> session_manager \<times> string" where
  "NewSession now userKey name sm =
     (let (sm, sid) = createLocked now userKey name sm in (sm_saveLocked sm, sid))"

definition NewSideSession :: "time \<Rightarrow> string \<Rightarrow> string \<Rightarrow> session_manager \<Rightarrow> session_manager \<times> string" where
  "NewSideSession now userKey name sm =
     (let (sm, sid) = nextID sm;
          sm = sm\<lparr>sm_sessions := mput sid (new_session sid name now) (sm_sessions sm)\<rparr>
      in (sm_saveLocked (addUserSession userKey sid sm), sid))"

text \<open>The loops over a user's session IDs that stop at the first session satisfying a test.\<close>

fun first_session :: "(session \<Rightarrow> bool) \<Rightarrow> (string, session) gomap \<Rightarrow> string list \<Rightarrow> (string \<times> session) option" where
  "first_session P m [] = None"
| "first_session P m (sid # sids) =
     (case mget m sid of
        Some s \<Rightarrow> if P s then Some (sid, s) else first_session P m sids
      | None \<Rightarrow> first_session P m sids)"

definition activate :: "time \<Rightarrow> string \<Rightarrow> string \<times> session \<Rightarrow> session_manager \<Rightarrow> session_manager" where
  "activate now userKey = (\<lambda>(sid, s) sm. sm_saveLocked
     (sm\<lparr>sm_activeSession := mput userKey (s_ID s) (sm_activeSession sm),
         sm_sessions := madj sid (MarkExplicitlyActivated now) (sm_sessions sm)\<rparr>))"

definition SwitchSession ::
    "time \<Rightarrow> string \<Rightarrow> string \<Rightarrow> session_manager \<Rightarrow> session_manager \<times> (session_error + string)" where
  "SwitchSession now userKey target sm =
     (case first_session (\<lambda>s. s_ID s = target \<or> s_Name s = target) (sm_sessions sm)
             (mget_or [] (sm_userSessions sm) userKey) of
        Some (sid, s) \<Rightarrow> (activate now userKey (sid, s) sm, Inr (s_ID s))
      | None \<Rightarrow> (sm, Inl (SessionNotFound target)))"

definition SwitchToAgentSession ::
    "time \<Rightarrow> string \<Rightarrow> string \<Rightarrow> string \<Rightarrow> string \<Rightarrow> session_manager \<Rightarrow> session_manager \<times> string" where
  "SwitchToAgentSession now userKey agentSID agentName summary sm =
     (case first_session (\<lambda>s. s_AgentSessionID s = agentSID) (sm_sessions sm)
             (mget_or [] (sm_userSessions sm) userKey) of
        Some (sid, s) \<Rightarrow> (activate now userKey (sid, s) sm, s_ID s)
      | None \<Rightarrow>
          let (sm, sid) = createLocked now userKey summary sm;
              sm = sm\<lparr>sm_sessions := madj sid
                (MarkExplicitlyActivated now \<circ> SetAgentInfo agentSID agentName summary) (sm_sessions sm)\<rparr>
          in (sm_saveLocked sm, sid))"

section \<open>Queries\<close>

definition ListSessions :: "string \<Rightarrow> session_manager \<Rightarrow> session list" where
  "ListSessions userKey sm =
     List.map_filter (mget (sm_sessions sm)) (mget_or [] (sm_userSessions sm) userKey)"

definition ActiveSessionID :: "string \<Rightarrow> session_manager \<Rightarrow> string" where
  "ActiveSessionID userKey sm = mget_or [] (sm_activeSession sm) userKey"

definition AllSessions :: "session_manager \<Rightarrow> session list" where
  "AllSessions sm = map snd (sm_sessions sm)"

definition ActiveUserKeys :: "session_manager \<Rightarrow> string list" where
  "ActiveUserKeys sm = map fst (sm_activeSession sm)"

definition FindByID :: "string \<Rightarrow> session_manager \<Rightarrow> session option" where
  "FindByID sid sm = mget (sm_sessions sm) sid"

text \<open>\<open>None\<close> is the nil set that disables filtering.\<close>

definition KnownAgentSessionIDs :: "session_manager \<Rightarrow> string list option" where
  "KnownAgentSessionIDs sm =
     (if sm_legacyData sm then None
      else Some (concat (map (\<lambda>(_, s). (if s_AgentSessionID s \<noteq> [] then [s_AgentSessionID s] else [])
                                          @ s_PastAgentSessionIDs s) (sm_sessions sm))))"

definition SessionKeyMap :: "session_manager \<Rightarrow> (string, string) gomap \<times> string list" where
  "SessionKeyMap sm =
     (fold (\<lambda>(u, ids) m. fold (\<lambda>sid m. mput sid u m) ids m) (sm_userSessions sm) [],
      List.map_filter (\<lambda>(u, _). mget (sm_activeSession sm) u) (sm_userSessions sm))"

section \<open>Names and metadata\<close>

definition SetSessionName :: "string \<Rightarrow> string \<Rightarrow> session_manager \<Rightarrow> session_manager" where
  "SetSessionName agentSessionID name sm =
     sm_saveLocked (if name = []
       then sm\<lparr>sm_sessionNames := mdel agentSessionID (sm_sessionNames sm)\<rparr>
       else sm\<lparr>sm_sessionNames := mput agentSessionID name (sm_sessionNames sm)\<rparr>)"

definition GetSessionName :: "string \<Rightarrow> session_manager \<Rightarrow> string" where
  "GetSessionName agentSessionID sm = mget_or [] (sm_sessionNames sm) agentSessionID"

definition UpdateUserMeta :: "string \<Rightarrow> string \<Rightarrow> string \<Rightarrow> session_manager \<Rightarrow> session_manager" where
  "UpdateUserMeta sessionKey userName chatName sm =
     (if userName = [] \<and> chatName = [] then sm
      else let meta = mget_or \<lparr>um_UserName = [], um_ChatName = []\<rparr> (sm_userMeta sm) sessionKey;
               meta = (if userName \<noteq> [] then meta\<lparr>um_UserName := userName\<rparr> else meta);
               meta = (if chatName \<noteq> [] then meta\<lparr>um_ChatName := chatName\<rparr> else meta)
           in sm\<lparr>sm_userMeta := mput sessionKey meta (sm_userMeta sm)\<rparr>)"

definition GetUserMeta :: "string \<Rightarrow> session_manager \<Rightarrow> user_meta option" where
  "GetUserMeta sessionKey sm = mget (sm_userMeta sm) sessionKey"

section \<open>Deleting and invalidating\<close>

definition deleteByIDLocked :: "string \<Rightarrow> session_manager \<Rightarrow> session_manager" where
  "deleteByIDLocked sid sm =
     sm\<lparr>sm_sessions := mdel sid (sm_sessions sm),
        sm_userSessions := mmap (\<lambda>_. remove_first ((=) sid)) (sm_userSessions sm),
        sm_activeSession := filter (\<lambda>(u, a). \<not> (a = sid \<and> u \<in> mkeys (sm_userSessions sm)))
                              (sm_activeSession sm)\<rparr>"

definition DeleteByID :: "string \<Rightarrow> session_manager \<Rightarrow> session_manager \<times> bool" where
  "DeleteByID sid sm =
     (if mget (sm_sessions sm) sid = None then (sm, False)
      else (sm_saveLocked (deleteByIDLocked sid sm), True))"

definition DeleteByAgentSessionID :: "string \<Rightarrow> session_manager \<Rightarrow> session_manager \<times> int" where
  "DeleteByAgentSessionID agentSessionID sm =
     (if agentSessionID = [] then (sm, 0)
      else let sids = map fst (filter (\<lambda>(_, s). s_AgentSessionID s = agentSessionID) (sm_sessions sm));
               sm' = fold deleteByIDLocked sids sm
           in (if sids \<noteq> [] then sm_saveLocked sm' else sm', int (length sids)))"

definition stale_for :: "string \<Rightarrow> session \<Rightarrow> bool" where
  "stale_for agentType s \<longleftrightarrow>
     s_AgentSessionID s \<noteq> [] \<and> s_AgentType s \<noteq> [] \<and> s_AgentType s \<noteq> agentType"

definition invalidate_session :: "string \<Rightarrow> session \<Rightarrow> session" where
  "invalidate_session agentType s =
     (if stale_for agentType s
      then (recordPastAgentSessionID s)\<lparr>s_AgentSessionID := [], s_AgentType := agentType\<rparr> else s)"

definition InvalidateForAgent :: "string \<Rightarrow> session_manager \<Rightarrow> session_manager" where
  "InvalidateForAgent agentType sm =
     (let sm' = sm\<lparr>sm_sessions := mmap (\<lambda>_. invalidate_session agentType) (sm_sessions sm)\<rparr>
      in if list_ex (\<lambda>(_, s). stale_for agentType s) (sm_sessions sm) then sm_saveLocked sm' else sm')"

definition PruneEmptySessions :: "session_manager \<Rightarrow> session_manager \<times> int" where
  "PruneEmptySessions sm =
     (let sids = map (\<lambda>(_, s). s_ID s) (filter (\<lambda>(_, s). s_History s = []) (sm_sessions sm));
          sm' = fold deleteByIDLocked sids sm
      in (if sids \<noteq> [] then sm_saveLocked sm' else sm', int (length sids)))"

text \<open>A call of a session method through a pointer the manager handed out.\<close>

definition with_session :: "string \<Rightarrow> session_op \<Rightarrow> session_manager \<Rightarrow> session_manager" where
  "with_session sid c sm = sm\<lparr>sm_sessions := madj sid (session_apply c) (sm_sessions sm)\<rparr>"

end
