(* ===== verification/SessionPrune.thy ===== *)
theory SessionPrune
  imports SessionManager
begin

text \<open>
  Pruning duplicate sessions of a chat (\<open>ParseSessionKey\<close>, \<open>PruneDuplicateSessions\<close> of
  \<open>src/core/session.go\<close>). The Go code collects \<open>*Session\<close> pointers first and mutates and deletes
  while it goes over them; \<open>heap\<close> is the memory those pointers lead to, so a session deleted
  from the maps can still be read. A pointer is named by the session's key in the map, which is
  its ID. \<open>sort.Slice\<close> is taken as a stable sort (for at most twelve elements it is an insertion sort).
\<close>

definition ParseSessionKey :: "string \<Rightarrow> string \<times> string \<times> string" where
  "ParseSessionKey sessionKey =
     (case split_n (CHR '':'') 4 sessionKey of
        [p, c] \<Rightarrow> (p, sessionKey, [])
      | [p, c, u] \<Rightarrow> (p, p @ '':'' @ c, u)
      | [p, c, r, t] \<Rightarrow> (p, p @ '':'' @ c, r @ '':'' @ t)
      | _ \<Rightarrow> (sessionKey, [], []))"

definition base_chat :: "string \<Rightarrow> string" where
  "base_chat userKey = fst (snd (ParseSessionKey userKey))"

record prune_result =
  pr_RemovedSessions :: "string list"
  pr_MergedHistory :: nat
  pr_ChatsAffected :: nat

text \<open>The grouping pass: base chat to the sessions of every user key of that chat.\<close>

definition chat_sessions :: "session_manager \<Rightarrow> (string, string list) gomap" where
  "chat_sessions sm =
     fold (\<lambda>(userKey, sids) m.
       fold (\<lambda>sid m. if mget (sm_sessions sm) sid = None then m
                      else mput (base_chat userKey) (mget_or [] m (base_chat userKey) @ [sid]) m) sids m)
       (sm_userSessions sm) []"

type_synonym session_heap = "(string, session) gomap"

definition heap_history :: "session_heap \<Rightarrow> string \<Rightarrow> history_entry list" where
  "heap_history heap sid = (case mget heap sid of None \<Rightarrow> [] | Some s \<Rightarrow> s_History s)"

definition heap_updated :: "session_heap \<Rightarrow> string \<Rightarrow> time" where
  "heap_updated heap sid = (case mget heap sid of None \<Rightarrow> 0 | Some s \<Rightarrow> s_UpdatedAt s)"

text \<open>The session to keep: the most recent one with history, else the most recent one.\<close>

definition choose_keep :: "session_heap \<Rightarrow> string list \<Rightarrow> string" where
  "choose_keep heap ordered =
     (case find (\<lambda>sid. heap_history heap sid \<noteq> []) ordered of Some sid \<Rightarrow> sid | None \<Rightarrow> hd ordered)"

definition merge_into :: "string \<Rightarrow> string \<Rightarrow> session_heap \<Rightarrow> session_heap" where
  "merge_into keep old heap =
     madj keep (\<lambda>k. k\<lparr>s_History := sort_key he_Timestamp (s_History k @ heap_history heap old)\<rparr>) heap"

text \<open>The body of the inner loop, for one session \<open>old\<close> of the chat.\<close>

definition prune_old :: "bool \<Rightarrow> string \<Rightarrow> string \<Rightarrow>
    session_manager \<times> session_heap \<times> prune_result \<Rightarrow> session_manager \<times> session_heap \<times> prune_result" where
  "prune_old mergeHistory keep old = (\<lambda>(sm, heap, res).
     if old = keep then (sm, heap, res)
     else let hasHistory = (heap_history heap old \<noteq> []); oldLen = length (heap_history heap old)
          in if \<not> mergeHistory \<and> hasHistory then (sm, heap, res)
             else let (heap, res) = (if mergeHistory \<and> hasHistory
                    then (merge_into keep old heap, res\<lparr>pr_MergedHistory := pr_MergedHistory res + oldLen\<rparr>)
                    else (heap, res))
                  in (deleteByIDLocked old sm, heap,
                      res\<lparr>pr_RemovedSessions := pr_RemovedSessions res @ [old]\<rparr>))"

text \<open>The body of the outer loop, for one base chat.\<close>

definition prune_chat :: "bool \<Rightarrow> string \<times> string list \<Rightarrow>
    session_manager \<times> session_heap \<times> prune_result \<times> (string, string) gomap \<Rightarrow>
    session_manager \<times> session_heap \<times> prune_result \<times> (string, string) gomap" where
  "prune_chat mergeHistory = (\<lambda>(chat, sids) (sm, heap, res, kept).
     if length sids \<le> 1 then (sm, heap, res, kept)
     else let res = res\<lparr>pr_ChatsAffected := pr_ChatsAffected res + 1\<rparr>;
              ordered = sort_key (\<lambda>sid. - heap_updated heap sid) sids;
              keep = choose_keep heap ordered;
              (sm, heap, res) = fold (prune_old mergeHistory keep) ordered (sm, heap, res)
          in (sm, heap, res, mput chat keep kept))"

text \<open>Writes through the pointers are visible in the sessions still in the map.\<close>

definition sync_heap :: "session_heap \<Rightarrow> session_manager \<Rightarrow> session_manager" where
  "sync_heap heap sm =
     sm\<lparr>sm_sessions := mmap (\<lambda>sid s. case mget heap sid of None \<Rightarrow> s | Some s' \<Rightarrow> s') (sm_sessions sm)\<rparr>"

definition retarget_active :: "(string, string) gomap \<Rightarrow> session_manager \<Rightarrow> session_manager" where
  "retarget_active kept sm =
     fold (\<lambda>(userKey, sids) sm.
       if sids = [] then sm
       else case mget kept (base_chat userKey) of
              None \<Rightarrow> sm
            | Some keep \<Rightarrow> sm\<lparr>sm_activeSession := mput userKey keep (sm_activeSession sm)\<rparr>)
       (sm_userSessions sm) sm"

definition PruneDuplicateSessions :: "bool \<Rightarrow> session_manager \<Rightarrow> session_manager \<times> prune_result" where
  "PruneDuplicateSessions mergeHistory sm =
     (let res0 = \<lparr>pr_RemovedSessions = [], pr_MergedHistory = 0, pr_ChatsAffected = 0\<rparr>;
          (sm, heap, res, kept) =
            fold (prune_chat mergeHistory) (chat_sessions sm) (sm, sm_sessions sm, res0, []);
          sm = retarget_active kept (sync_heap heap sm)
      in (if pr_RemovedSessions res \<noteq> [] then sm_saveLocked sm else sm, res))"

end
