(* ===== verification/SessionInvariant.thy ===== *)
theory SessionInvariant
  imports SessionPrune "HOL-Library.Multiset"
begin

text \<open>
  The invariant of the session manager and its preservation by every operation: the maps of the
  manager agree with each other, so that a session ID found in one of them can be looked up in
  the others, every session belongs to exactly one user key, and a new ID is fresh.
\<close>

definition ownedIDs :: "session_manager \<Rightarrow> string list" where
  "ownedIDs sm = concat (map snd (sm_userSessions sm))"

definition issuedID :: "int \<Rightarrow> string \<Rightarrow> bool" where
  "issuedID c sid \<longleftrightarrow> (\<exists>n. 1 \<le> n \<and> n \<le> c \<and> sid = ''s'' @ itoa n)"

definition maps_wf :: "session_manager \<Rightarrow> bool" where
  "maps_wf sm \<longleftrightarrow> wf_map (sm_sessions sm) \<and> wf_map (sm_activeSession sm) \<and> wf_map (sm_userSessions sm)"

definition keys_are_ids :: "session_manager \<Rightarrow> bool" where
  "keys_are_ids sm \<longleftrightarrow> (\<forall>(k, s) \<in> set (sm_sessions sm). s_ID s = k)"

definition active_ok :: "session_manager \<Rightarrow> bool" where
  "active_ok sm \<longleftrightarrow> (\<forall>(u, i) \<in> set (sm_activeSession sm).
     i \<in> mkeys (sm_sessions sm) \<and> u \<in> mkeys (sm_userSessions sm))"

definition owned_ok :: "session_manager \<Rightarrow> bool" where
  "owned_ok sm \<longleftrightarrow> distinct (ownedIDs sm) \<and> set (ownedIDs sm) = mkeys (sm_sessions sm)"

definition counter_ok :: "session_manager \<Rightarrow> bool" where
  "counter_ok sm \<longleftrightarrow> 0 \<le> sm_counter sm \<and> (\<forall>k \<in> mkeys (sm_sessions sm). issuedID (sm_counter sm) k)"

definition sm_wf :: "session_manager \<Rightarrow> bool" where
  "sm_wf sm \<longleftrightarrow> maps_wf sm \<and> keys_are_ids sm \<and> active_ok sm \<and> owned_ok sm \<and> counter_ok sm"

lemmas sm_wf_defs = sm_wf_def maps_wf_def keys_are_ids_def active_ok_def owned_ok_def counter_ok_def

section \<open>Concatenated ownership lists\<close>

lemma mset_concat_put_append:
  assumes "wf_map m"
  shows "mset (concat (map snd (mput u (mget_or [] m u @ xs) m))) = mset (concat (map snd m)) + mset xs"
  using assms
proof (induction m)
  case (Cons p m)
  obtain k v where p: "p = (k, v)" by force
  have wf: "wf_map m" using Cons.prems by simp
  show ?case
  proof (cases "k = u")
    case True
    then show ?thesis by (simp add: p mget_or_def)
  next
    case False
    then have "mget_or [] (p # m) u = mget_or [] m u" by (simp add: p mget_or_def)
    with False Cons.IH [OF wf] show ?thesis by (simp add: p)
  qed
qed (simp add: mget_or_def)

lemma concat_map_remove_first:
  assumes "distinct (concat xss)"
  shows "concat (map (remove_first ((=) x)) xss) = filter (\<lambda>y. y \<noteq> x) (concat xss)"
  using assms
proof (induction xss)
  case (Cons xs xss)
  then show ?case
    by (simp add: remove_first_remove1 distinct_remove1_removeAll removeAll_filter_not_eq) (metis (mono_tags, lifting))
qed simp

lemma map_snd_mmap: "map snd (mmap (\<lambda>_. f) m) = map f (map snd m)"
  by (induction m) (auto simp: mmap_def)

lemma ownedIDs_addUserSession:
  "wf_map (sm_userSessions sm) \<Longrightarrow> mset (ownedIDs (addUserSession u sid sm)) = mset (ownedIDs sm) + {#sid#}"
  by (simp add: ownedIDs_def addUserSession_def mset_concat_put_append)

lemma ownedIDs_delete:
  "distinct (ownedIDs sm) \<Longrightarrow> ownedIDs (deleteByIDLocked sid sm) = filter (\<lambda>y. y \<noteq> sid) (ownedIDs sm)"
  by (simp add: ownedIDs_def deleteByIDLocked_def map_snd_mmap concat_map_remove_first del: map_map)

section \<open>Preservation by the building blocks\<close>

lemma keys_are_idsD: "keys_are_ids sm \<Longrightarrow> wf_map (sm_sessions sm) \<Longrightarrow> mget (sm_sessions sm) k = Some s \<Longrightarrow> s_ID s = k"
  by (auto simp: keys_are_ids_def mget_in_set)

lemma fresh_nextID:
  assumes "counter_ok sm"
  shows "''s'' @ itoa (sm_counter sm + 1) \<notin> mkeys (sm_sessions sm)"
  using assms by (fastforce simp: counter_ok_def issuedID_def)

lemma counter_ok_next:
  "counter_ok sm \<Longrightarrow> mkeys m = insert (''s'' @ itoa (sm_counter sm + 1)) (mkeys (sm_sessions sm)) \<Longrightarrow>
   counter_ok (sm\<lparr>sm_counter := sm_counter sm + 1, sm_sessions := m\<rparr>)"
  by (fastforce simp: counter_ok_def issuedID_def)

text \<open>Changing sessions in place, keeping their IDs, keeps the invariant.\<close>

lemma sm_wf_cong:
  assumes "sm_wf sm" "mkeys (sm_sessions sm') = mkeys (sm_sessions sm)" "wf_map (sm_sessions sm')"
    and "sm_userSessions sm' = sm_userSessions sm" "sm_activeSession sm' = sm_activeSession sm"
    and "sm_counter sm' = sm_counter sm" "keys_are_ids sm'"
  shows "sm_wf sm'"
  using assms by (simp add: sm_wf_def maps_wf_def active_ok_def owned_ok_def counter_ok_def ownedIDs_def)

lemma keys_are_ids_mmap:
  "keys_are_ids sm \<Longrightarrow> sm_sessions sm' = mmap f (sm_sessions sm) \<Longrightarrow> (\<And>k s. s_ID (f k s) = s_ID s) \<Longrightarrow>
   keys_are_ids sm'"
  by (auto simp: keys_are_ids_def set_mmap)

lemma sm_wf_sessions_mmap:
  assumes "sm_wf sm" "\<And>k s. s_ID (f k s) = s_ID s"
  shows "sm_wf (sm\<lparr>sm_sessions := mmap f (sm_sessions sm)\<rparr>)"
  using assms(1)
  by (rule sm_wf_cong) (use assms in \<open>auto simp: gomap wfm sm_wf_def maps_wf_def intro: keys_are_ids_mmap [of sm]\<close>)

lemma madj_mmap: "madj k f m = mmap (\<lambda>k' v. if k' = k then f v else v) m"
  by (induction m) (auto simp: madj_def mmap_def)

lemma sm_wf_sessions_madj:
  "sm_wf sm \<Longrightarrow> (\<And>s. s_ID (f s) = s_ID s) \<Longrightarrow> sm_wf (sm\<lparr>sm_sessions := madj k f (sm_sessions sm)\<rparr>)"
  unfolding madj_mmap by (rule sm_wf_sessions_mmap) auto

lemma strip_ID [simp]: "s_ID (stripContinueSessionSentinel s) = s_ID s"
  by (simp add: stripContinueSessionSentinel_def)

text \<open>Fields the invariant does not speak of.\<close>

lemma sm_wf_frame [simp]:
  "sm_wf (sm\<lparr>sm_sessionNames := a\<rparr>) = sm_wf sm" "sm_wf (sm\<lparr>sm_userMeta := b\<rparr>) = sm_wf sm"
  "sm_wf (sm\<lparr>sm_legacyData := c\<rparr>) = sm_wf sm" "sm_wf (sm\<lparr>sm_disk := d\<rparr>) = sm_wf sm"
  by (auto simp: sm_wf_defs ownedIDs_def)

lemma sm_saveLocked_cases:
  "sm_saveLocked sm = sm \<or> (\<exists>leg d. sm_saveLocked sm =
     sm\<lparr>sm_sessions := mmap (\<lambda>_. stripContinueSessionSentinel) (sm_sessions sm)\<rparr>\<lparr>sm_legacyData := leg\<rparr>\<lparr>sm_disk := d\<rparr>)"
proof (cases "sm_storePath sm = []")
  case False
  show ?thesis
    by (rule disjI2, rule exI, rule exI) (simp add: sm_saveLocked_def Let_def False)
qed (simp add: sm_saveLocked_def)

lemma sm_wf_saveLocked [simp]: "sm_wf sm \<Longrightarrow> sm_wf (sm_saveLocked sm)"
  using sm_saveLocked_cases [of sm] sm_wf_sessions_mmap [of sm "\<lambda>_. stripContinueSessionSentinel"] by auto

lemma saveLocked_frame [simp]:
  "sm_userSessions (sm_saveLocked sm) = sm_userSessions sm"
  "sm_activeSession (sm_saveLocked sm) = sm_activeSession sm"
  "sm_counter (sm_saveLocked sm) = sm_counter sm"
  "sm_storePath (sm_saveLocked sm) = sm_storePath sm"
  "mkeys (sm_sessions (sm_saveLocked sm)) = mkeys (sm_sessions sm)"
  using sm_saveLocked_cases [of sm] by (auto simp: gomap)

text \<open>Registering a fresh session for a user.\<close>

abbreviation next_sid :: "session_manager \<Rightarrow> string" where
  "next_sid sm \<equiv> ''s'' @ itoa (sm_counter sm + 1)"

definition register :: "time \<Rightarrow> string \<Rightarrow> string \<Rightarrow> session_manager \<Rightarrow> session_manager" where
  "register now u name sm = addUserSession u (next_sid sm)
     (sm\<lparr>sm_counter := sm_counter sm + 1,
         sm_sessions := mput (next_sid sm) (new_session (next_sid sm) name now) (sm_sessions sm)\<rparr>)"

lemma register_frame [simp]:
  "sm_sessions (register now u name sm) = mput (next_sid sm) (new_session (next_sid sm) name now) (sm_sessions sm)"
  "sm_activeSession (register now u name sm) = sm_activeSession sm"
  "mkeys (sm_userSessions (register now u name sm)) = insert u (mkeys (sm_userSessions sm))"
  by (simp_all add: register_def addUserSession_def gomap)

lemma sm_wf_register:
  assumes wf: "sm_wf sm"
  shows "sm_wf (register now u name sm)"
proof -
  have maps: "maps_wf sm" and keys: "keys_are_ids sm" and act: "active_ok sm" and own: "owned_ok sm"
    and cnt: "counter_ok sm" using wf by (simp_all add: sm_wf_def)
  have wfs: "wf_map (sm_sessions sm)" using maps by (simp add: maps_wf_def)
  have m: "mset (ownedIDs (register now u name sm)) = mset (next_sid sm # ownedIDs sm)"
    using maps by (simp add: register_def ownedIDs_def addUserSession_def mset_concat_put_append maps_wf_def)
  have "distinct (next_sid sm # ownedIDs sm)"
    using own fresh_nextID [OF cnt] by (simp add: owned_ok_def)
  then have "distinct (ownedIDs (register now u name sm))"
    using m mset_eq_imp_distinct_iff by blast
  moreover have "set (ownedIDs (register now u name sm)) = insert (next_sid sm) (set (ownedIDs sm))"
    using arg_cong [OF m, of set_mset] by simp
  ultimately have "owned_ok (register now u name sm)"
    using own by (simp add: owned_ok_def gomap)
  moreover have "maps_wf (register now u name sm)"
    using maps by (simp add: maps_wf_def register_def addUserSession_def wfm)
  moreover have "keys_are_ids (register now u name sm)"
    using keys wfs by (auto simp: keys_are_ids_def set_put new_session_def)
  moreover have "active_ok (register now u name sm)"
    using act by (auto simp: active_ok_def gomap)
  moreover have "counter_ok (register now u name sm)"
    using counter_ok_next [OF cnt, of "sm_sessions (register now u name sm)"]
    by (simp add: gomap counter_ok_def register_def addUserSession_def)
  ultimately show ?thesis by (simp add: sm_wf_def)
qed

lemma sm_wf_set_active:
  "sm_wf sm \<Longrightarrow> sid \<in> mkeys (sm_sessions sm) \<Longrightarrow> u \<in> mkeys (sm_userSessions sm) \<Longrightarrow>
   sm_wf (sm\<lparr>sm_activeSession := mput u sid (sm_activeSession sm)\<rparr>)"
  by (auto simp: sm_wf_def maps_wf_def keys_are_ids_def active_ok_def owned_ok_def counter_ok_def
      ownedIDs_def wfm set_put)

lemma createLocked_register:
  "createLocked now u name sm =
     ((register now u name sm)\<lparr>sm_activeSession := mput u (next_sid sm) (sm_activeSession sm)\<rparr>, next_sid sm)"
  by (simp add: createLocked_def nextID_def register_def addUserSession_def Let_def)

lemma sm_wf_createLocked: "sm_wf sm \<Longrightarrow> sm_wf (fst (createLocked now u name sm))"
  using sm_wf_set_active [OF sm_wf_register, of sm "next_sid sm" now u name u]
  by (simp add: createLocked_register gomap)

lemma sm_wf_delete:
  assumes wf: "sm_wf sm"
  shows "sm_wf (deleteByIDLocked sid sm)"
proof -
  have dist: "distinct (ownedIDs sm)" and own: "set (ownedIDs sm) = mkeys (sm_sessions sm)"
    using wf by (simp_all add: sm_wf_def owned_ok_def)
  have "owned_ok (deleteByIDLocked sid sm)"
    unfolding owned_ok_def ownedIDs_delete [OF dist] using dist own
    by (auto simp: deleteByIDLocked_def gomap)
  moreover have "maps_wf (deleteByIDLocked sid sm)"
    using wf by (simp add: sm_wf_def maps_wf_def deleteByIDLocked_def wfm)
  moreover have "keys_are_ids (deleteByIDLocked sid sm)"
    using wf by (auto simp: sm_wf_def keys_are_ids_def deleteByIDLocked_def set_del)
  moreover have "active_ok (deleteByIDLocked sid sm)"
    using wf by (auto simp: sm_wf_def active_ok_def deleteByIDLocked_def gomap)
  moreover have "counter_ok (deleteByIDLocked sid sm)"
    using wf by (auto simp: sm_wf_def counter_ok_def deleteByIDLocked_def gomap)
  ultimately show ?thesis by (simp add: sm_wf_def)
qed

lemma sm_wf_fold_delete: "sm_wf sm \<Longrightarrow> sm_wf (fold deleteByIDLocked sids sm)"
  by (induction sids arbitrary: sm) (auto simp: sm_wf_delete)

lemma mkeys_fold_delete: "mkeys (sm_sessions (fold deleteByIDLocked sids sm)) = mkeys (sm_sessions sm) - set sids"
  by (induction sids arbitrary: sm) (auto simp: deleteByIDLocked_def gomap)

section \<open>Preservation by the operations\<close>

named_theorems sm_inv "preservation of the session manager's invariant by each operation"

lemma first_session_Some:
  "first_session P m sids = Some (sid, s) \<Longrightarrow> sid \<in> set sids \<and> mget m sid = Some s \<and> P s"
  by (induction P m sids rule: first_session.induct) (auto split: option.splits if_splits)

lemma first_session_None:
  "first_session P m sids = None \<longleftrightarrow> (\<forall>sid \<in> set sids. \<forall>s. mget m sid = Some s \<longrightarrow> \<not> P s)"
  by (induction P m sids rule: first_session.induct) (auto split: option.splits)

lemma mget_or_Nil_in_keys: "x \<in> set (mget_or [] m u) \<Longrightarrow> u \<in> mkeys m"
  by (cases "mget m u") (auto simp: mget_or_def intro: mget_in_keys)

lemma sm_wf_activate:
  assumes wf: "sm_wf sm" and s: "first_session P (sm_sessions sm) (mget_or [] (sm_userSessions sm) u) = Some (sid, s)"
  shows "sm_wf (activate now u (sid, s) sm)"
proof -
  have g: "mget (sm_sessions sm) sid = Some s" and u: "u \<in> mkeys (sm_userSessions sm)"
    using first_session_Some [OF s] by (auto intro: mget_or_Nil_in_keys)
  have "s_ID s = sid" using wf g by (auto simp: sm_wf_def maps_wf_def intro: keys_are_idsD)
  then have "sm_wf (sm\<lparr>sm_activeSession := mput u (s_ID s) (sm_activeSession sm)\<rparr>)"
    using wf g u by (intro sm_wf_set_active) (auto intro: mget_in_keys)
  from sm_wf_sessions_madj [OF this, of "MarkExplicitlyActivated now" sid]
  show ?thesis by (simp add: activate_def MarkExplicitlyActivated_def)
qed

lemma sm_wf_GetOrCreateActive [sm_inv]: "sm_wf sm \<Longrightarrow> sm_wf (fst (GetOrCreateActive now u sm))"
  using sm_wf_createLocked [of sm now u "''default''"]
  by (auto simp: GetOrCreateActive_def Let_def split: option.splits prod.splits)

lemma sm_wf_NewSession [sm_inv]: "sm_wf sm \<Longrightarrow> sm_wf (fst (NewSession now u name sm))"
  using sm_wf_createLocked [of sm now u name] by (auto simp: NewSession_def split: prod.splits)

lemma NewSideSession_register:
  "NewSideSession now u name sm = (sm_saveLocked (register now u name sm), next_sid sm)"
  by (simp add: NewSideSession_def nextID_def register_def Let_def)

lemma sm_wf_NewSideSession [sm_inv]: "sm_wf sm \<Longrightarrow> sm_wf (fst (NewSideSession now u name sm))"
  by (simp add: NewSideSession_register sm_wf_register)

lemma sm_wf_SwitchSession [sm_inv]: "sm_wf sm \<Longrightarrow> sm_wf (fst (SwitchSession now u target sm))"
  by (auto simp: SwitchSession_def sm_wf_activate split: option.splits)

lemma sm_wf_SwitchToAgentSession [sm_inv]:
  assumes wf: "sm_wf sm"
  shows "sm_wf (fst (SwitchToAgentSession now u aid atype summary sm))"
proof -
  let ?f = "MarkExplicitlyActivated now \<circ> SetAgentInfo aid atype summary"
  have "s_ID (?f s) = s_ID s" for s
    by (simp add: MarkExplicitlyActivated_def SetAgentInfo_def recordPastAgentSessionID_def Let_def)
  then have "sm_wf ((fst (createLocked now u summary sm))\<lparr>sm_sessions :=
      madj (next_sid sm) ?f (sm_sessions (fst (createLocked now u summary sm)))\<rparr>)"
    by (intro sm_wf_sessions_madj sm_wf_createLocked wf)
  then show ?thesis using wf
    by (auto simp: SwitchToAgentSession_def createLocked_register Let_def sm_wf_activate split: option.splits)
qed

lemma sm_wf_DeleteByID [sm_inv]: "sm_wf sm \<Longrightarrow> sm_wf (fst (DeleteByID sid sm))"
  by (simp add: DeleteByID_def sm_wf_delete)

lemma sm_wf_DeleteByAgentSessionID [sm_inv]: "sm_wf sm \<Longrightarrow> sm_wf (fst (DeleteByAgentSessionID aid sm))"
  by (simp add: DeleteByAgentSessionID_def Let_def sm_wf_fold_delete)

lemma sm_wf_InvalidateForAgent [sm_inv]: "sm_wf sm \<Longrightarrow> sm_wf (InvalidateForAgent atype sm)"
  by (simp add: InvalidateForAgent_def Let_def sm_wf_sessions_mmap invalidate_session_def recordPastAgentSessionID_def)

lemma sm_wf_PruneEmptySessions [sm_inv]: "sm_wf sm \<Longrightarrow> sm_wf (fst (PruneEmptySessions sm))"
  by (simp add: PruneEmptySessions_def Let_def sm_wf_fold_delete)

lemma sm_wf_SetSessionName [sm_inv]: "sm_wf sm \<Longrightarrow> sm_wf (SetSessionName aid name sm)"
  by (simp add: SetSessionName_def)

lemma sm_wf_UpdateUserMeta [sm_inv]: "sm_wf sm \<Longrightarrow> sm_wf (UpdateUserMeta k n c sm)"
  by (simp add: UpdateUserMeta_def Let_def)

lemma sm_wf_with_session [sm_inv]: "sm_wf sm \<Longrightarrow> sm_wf (with_session sid c sm)"
  by (simp add: with_session_def sm_wf_sessions_madj)

lemma sm_wf_Save [sm_inv]: "sm_wf sm \<Longrightarrow> sm_wf (Save sm)"
  by (simp add: Save_def)

end
