(* ===== verification/SessionPruneProofs.thy ===== *)
theory SessionPruneProofs
  imports SessionInvariant
begin

text \<open>
  Pruning keeps the invariant of the manager, loses no history entry, and with merging leaves at
  most one session per chat. The loops are first put into closed form: which sessions are
  deleted, and which are merged into the kept one.
\<close>

section \<open>The grouping pass\<close>

definition chat_list :: "(string, string list) gomap \<Rightarrow> string \<Rightarrow> string list" where
  "chat_list us c = concat (map snd (filter (\<lambda>(u, _). base_chat u = c) us))"

abbreviation group_ids :: "(string, session) gomap \<Rightarrow> string \<Rightarrow> string list \<Rightarrow>
    (string, string list) gomap \<Rightarrow> (string, string list) gomap" where
  "group_ids m b \<equiv> fold (\<lambda>sid g. if mget m sid = None then g else mput b (mget_or [] g b @ [sid]) g)"

lemma group_user:
  "\<forall>sid \<in> set sids. mget m sid \<noteq> None \<Longrightarrow>
   mget_or [] (group_ids m b sids g) c = mget_or [] g c @ (if c = b then sids else [])"
  by (induction sids arbitrary: g) (auto simp: gomap)

lemma wf_group_user: "wf_map g \<Longrightarrow> wf_map (group_ids m b sids g)"
  by (induction sids arbitrary: g) (auto simp: wfm)

lemma group_users:
  "\<forall>(u, sids) \<in> set us. \<forall>sid \<in> set sids. mget m sid \<noteq> None \<Longrightarrow>
   mget_or [] (fold (\<lambda>(u, sids). group_ids m (base_chat u) sids) us g) c = mget_or [] g c @ chat_list us c"
proof (induction us arbitrary: g)
  case (Cons p us)
  obtain u sids where p: "p = (u, sids)" by force
  have "\<forall>sid \<in> set sids. mget m sid \<noteq> None" using Cons.prems by (auto simp: p)
  then show ?case using Cons by (auto simp: p chat_list_def group_user)
qed (simp add: chat_list_def)

lemma wf_group_users:
  "wf_map g \<Longrightarrow> wf_map (fold (\<lambda>(u, sids). group_ids m (base_chat u) sids) us g)"
  by (induction us arbitrary: g) (auto simp: wf_group_user)

lemma chat_sessions_lookup:
  assumes "sm_wf sm"
  shows "mget_or [] (chat_sessions sm) c = chat_list (sm_userSessions sm) c"
proof -
  have "\<forall>(u, sids) \<in> set (sm_userSessions sm). \<forall>sid \<in> set sids. mget (sm_sessions sm) sid \<noteq> None"
  proof (intro ballI, clarsimp)
    fix u sids sid
    assume "(u, sids) \<in> set (sm_userSessions sm)" "sid \<in> set sids"
    then have "sid \<in> set (ownedIDs sm)" by (force simp: ownedIDs_def)
    then show "\<exists>y. mget (sm_sessions sm) sid = Some y" using assms
      by (simp add: sm_wf_def owned_ok_def mget_Some_keys)
  qed
  from group_users [OF this, where g = "[]" and c = c]
  show ?thesis by (simp add: chat_sessions_def mget_or_def)
qed

lemma wf_chat_sessions [wfm]: "wf_map (chat_sessions sm)"
  unfolding chat_sessions_def by (rule wf_group_users) simp

lemma chat_sessions_entry:
  "sm_wf sm \<Longrightarrow> (c, sids) \<in> set (chat_sessions sm) \<Longrightarrow> sids = chat_list (sm_userSessions sm) c"
  using chat_sessions_lookup [of sm c] mget_in_set [of "chat_sessions sm" c sids] by (simp add: mget_or_def wfm)

lemma distinct_filter_concat: "distinct (concat (map snd us)) \<Longrightarrow> distinct (chat_list us c)"
proof (induction us)
  case (Cons p us)
  have "set (chat_list us c) \<subseteq> set (concat (map snd us))" by (auto simp: chat_list_def)
  with Cons show ?case by (cases p) (auto simp: chat_list_def)
qed (simp add: chat_list_def)

lemma chat_list_distinct: "sm_wf sm \<Longrightarrow> distinct (chat_list (sm_userSessions sm) c)"
  by (intro distinct_filter_concat) (simp add: sm_wf_def owned_ok_def ownedIDs_def)

lemma chat_list_keys: "sm_wf sm \<Longrightarrow> set (chat_list (sm_userSessions sm) c) \<subseteq> mkeys (sm_sessions sm)"
  by (force simp: sm_wf_def owned_ok_def ownedIDs_def chat_list_def)

lemma chat_list_disjoint:
  assumes "distinct (concat (map snd us))" "c \<noteq> d"
  shows "set (chat_list us c) \<inter> set (chat_list us d) = {}"
  using assms
proof (induction us)
  case (Cons p us)
  have "set (chat_list us e) \<subseteq> set (concat (map snd us))" for e by (auto simp: chat_list_def)
  with Cons show ?case by (cases p) (auto simp: chat_list_def)
qed (simp add: chat_list_def)

section \<open>The inner loop in closed form\<close>

definition doomed :: "bool \<Rightarrow> session_heap \<Rightarrow> string \<Rightarrow> string \<Rightarrow> bool" where
  "doomed m heap keep old \<longleftrightarrow> old \<noteq> keep \<and> (m \<or> heap_history heap old = [])"

lemma heap_history_merge: "old \<noteq> keep \<Longrightarrow> heap_history (merge_into keep x heap) old = heap_history heap old"
  by (simp add: heap_history_def merge_into_def gomap)

lemma mkeys_merge [simp]: "mkeys (merge_into keep x heap) = mkeys heap"
  by (simp add: merge_into_def gomap)

definition merged :: "bool \<Rightarrow> string \<Rightarrow> string list \<Rightarrow> session_heap \<Rightarrow> session_heap" where
  "merged m keep olds heap =
     (if m then fold (merge_into keep) (filter (\<lambda>old. old \<noteq> keep \<and> heap_history heap old \<noteq> []) olds) heap
      else heap)"

lemma mkeys_fold_merge: "mkeys (fold (merge_into keep) xs heap) = mkeys heap"
  by (induction xs arbitrary: heap) auto

lemma mkeys_merged [simp]: "mkeys (merged m keep olds heap) = mkeys heap"
  by (simp add: merged_def mkeys_fold_merge)

lemma heap_history_fold_merge: "old \<noteq> keep \<Longrightarrow> heap_history (fold (merge_into keep) xs heap) old = heap_history heap old"
  by (induction xs arbitrary: heap) (auto simp: heap_history_merge)

lemma heap_history_merged: "old \<noteq> keep \<Longrightarrow> heap_history (merged m keep olds heap) old = heap_history heap old"
  by (simp add: merged_def heap_history_fold_merge)

lemma merged_step:
  "merged m keep (old # olds) heap =
     merged m keep olds (if m \<and> old \<noteq> keep \<and> heap_history heap old \<noteq> [] then merge_into keep old heap else heap)"
proof -
  have "filter (\<lambda>o'. o' \<noteq> keep \<and> heap_history (merge_into keep old heap) o' \<noteq> []) olds =
        filter (\<lambda>o'. o' \<noteq> keep \<and> heap_history heap o' \<noteq> []) olds"
    by (intro filter_cong) (auto simp: heap_history_merge)
  then show ?thesis by (simp add: merged_def)
qed

lemma fold_prune_old:
  "\<exists>res'. fold (prune_old m keep) olds (sm, heap, res) =
     (fold deleteByIDLocked (filter (doomed m heap keep) olds) sm, merged m keep olds heap, res')
     \<and> pr_RemovedSessions res' = pr_RemovedSessions res @ filter (doomed m heap keep) olds
     \<and> pr_ChatsAffected res' = pr_ChatsAffected res"
proof (induction olds arbitrary: sm heap res)
  case Nil
  show ?case by (simp add: merged_def)
next
  case (Cons old olds)
  let ?heap = "if m \<and> old \<noteq> keep \<and> heap_history heap old \<noteq> [] then merge_into keep old heap else heap"
  have same: "filter (doomed m ?heap keep) olds = filter (doomed m heap keep) olds"
    by (intro filter_cong) (auto simp: doomed_def heap_history_merge)
  have "\<exists>res1. prune_old m keep old (sm, heap, res) =
      (if doomed m heap keep old then deleteByIDLocked old sm else sm, ?heap, res1)
      \<and> pr_RemovedSessions res1 = pr_RemovedSessions res @ (if doomed m heap keep old then [old] else [])
      \<and> pr_ChatsAffected res1 = pr_ChatsAffected res"
    by (auto simp: prune_old_def doomed_def Let_def)
  then obtain res1 where step: "prune_old m keep old (sm, heap, res) =
      (if doomed m heap keep old then deleteByIDLocked old sm else sm, ?heap, res1)"
    and r1: "pr_RemovedSessions res1 = pr_RemovedSessions res @ (if doomed m heap keep old then [old] else [])"
    and c1: "pr_ChatsAffected res1 = pr_ChatsAffected res" by blast
  show ?case
    using Cons.IH [of "if doomed m heap keep old then deleteByIDLocked old sm else sm" ?heap res1] r1 c1
    unfolding fold_Cons comp_def step merged_step same by auto
qed

section \<open>No history is lost\<close>

definition kept_history :: "session_manager \<Rightarrow> session_heap \<Rightarrow> history_entry multiset" where
  "kept_history sm heap = (\<Sum>sid \<in> mkeys (sm_sessions sm). mset (heap_history heap sid))"

lemma finite_mkeys [simp]: "finite (mkeys m)"
  by (simp add: mkeys_def)

lemma heap_history_keep:
  "keep \<in> mkeys heap \<Longrightarrow>
   mset (heap_history (merge_into keep old heap) keep) = mset (heap_history heap keep) + mset (heap_history heap old)"
  using mget_Some_keys [of heap keep] by (auto simp: heap_history_def merge_into_def gomap)

lemma kept_history_delete:
  "old \<in> mkeys (sm_sessions sm) \<Longrightarrow>
   kept_history sm heap = kept_history (deleteByIDLocked old sm) heap + mset (heap_history heap old)"
  by (simp add: kept_history_def deleteByIDLocked_def gomap sum.remove add.commute)

lemma kept_history_merge:
  assumes "keep \<in> mkeys (sm_sessions sm)" "keep \<in> mkeys heap"
  shows "kept_history sm (merge_into keep old heap) = kept_history sm heap + mset (heap_history heap old)"
proof -
  let ?S = "mkeys (sm_sessions sm)"
  have "kept_history sm (merge_into keep old heap) =
      mset (heap_history (merge_into keep old heap) keep) + (\<Sum>sid \<in> ?S - {keep}. mset (heap_history (merge_into keep old heap) sid))"
    unfolding kept_history_def by (rule sum.remove) (simp_all add: assms)
  also have "(\<Sum>sid \<in> ?S - {keep}. mset (heap_history (merge_into keep old heap) sid)) =
      (\<Sum>sid \<in> ?S - {keep}. mset (heap_history heap sid))"
    by (intro sum.cong) (auto simp: heap_history_merge)
  finally show ?thesis
    using assms by (simp add: heap_history_keep kept_history_def sum.remove [of ?S keep] add_ac)
qed

lemma kept_history_fold:
  assumes "keep \<in> mkeys (sm_sessions sm)" "keep \<in> mkeys heap"
    and "distinct olds" "set olds \<subseteq> mkeys (sm_sessions sm)"
  shows "kept_history (fold deleteByIDLocked (filter (doomed m heap keep) olds) sm) (merged m keep olds heap)
      = kept_history sm heap"
  using assms
proof (induction olds arbitrary: sm heap)
  case Nil
  show ?case by (simp add: merged_def)
next
  case (Cons old olds)
  let ?heap = "if m \<and> old \<noteq> keep \<and> heap_history heap old \<noteq> [] then merge_into keep old heap else heap"
  let ?sm = "if doomed m heap keep old then deleteByIDLocked old sm else sm"
  have same: "filter (doomed m ?heap keep) olds = filter (doomed m heap keep) olds"
    by (intro filter_cong) (auto simp: doomed_def heap_history_merge)
  have keys: "mkeys (sm_sessions ?sm) = mkeys (sm_sessions sm) - (if doomed m heap keep old then {old} else {})"
    by (simp add: deleteByIDLocked_def gomap)
  have "kept_history ?sm ?heap = kept_history sm heap"
  proof (cases "doomed m heap keep old")
    case True
    then have ne: "old \<noteq> keep" by (simp add: doomed_def)
    have del: "kept_history sm heap = kept_history (deleteByIDLocked old sm) heap + mset (heap_history heap old)"
      using Cons.prems by (intro kept_history_delete) auto
    show ?thesis
    proof (cases "heap_history heap old = []")
      case True
      with \<open>doomed m heap keep old\<close> del show ?thesis by simp
    next
      case False
      then have m: "m" using True by (simp add: doomed_def)
      have "keep \<in> mkeys (sm_sessions (deleteByIDLocked old sm))" using Cons.prems keys True ne by auto
      from kept_history_merge [OF this Cons.prems(2), of old]
      show ?thesis using True False m ne del by simp
    qed
  next
    case False
    then show ?thesis by (auto simp: doomed_def)
  qed
  moreover have "kept_history (fold deleteByIDLocked (filter (doomed m ?heap keep) olds) ?sm) (merged m keep olds ?heap)
      = kept_history ?sm ?heap"
    using Cons.prems keys by (intro Cons.IH) (auto simp: doomed_def)
  moreover have "fold deleteByIDLocked (filter (doomed m heap keep) (old # olds)) sm =
      fold deleteByIDLocked (filter (doomed m heap keep) olds) ?sm" by simp
  ultimately show ?case unfolding same merged_step by (simp only:)
qed

section \<open>The outer loop\<close>

lemma choose_keep_in: "ordered \<noteq> [] \<Longrightarrow> choose_keep heap ordered \<in> set ordered"
  by (auto simp: choose_keep_def dest: find_SomeD split: option.splits)

definition heap_ids :: "session_heap \<Rightarrow> bool" where
  "heap_ids heap \<longleftrightarrow> wf_map heap \<and> (\<forall>(k, s) \<in> set heap. s_ID s = k)"

lemma heap_ids_merged: "heap_ids heap \<Longrightarrow> heap_ids (merged m keep olds heap)"
proof -
  have "heap_ids h \<Longrightarrow> heap_ids (merge_into keep old h)" for old h
    by (auto simp: heap_ids_def merge_into_def wfm set_madj)
  then have "heap_ids h \<Longrightarrow> heap_ids (fold (merge_into keep) xs h)" for xs h
    by (induction xs arbitrary: h) auto
  then show "heap_ids heap \<Longrightarrow> heap_ids (merged m keep olds heap)" by (simp add: merged_def)
qed

definition outer_inv :: "bool \<Rightarrow> session_manager \<Rightarrow> (string \<times> string list) list \<Rightarrow>
    session_manager \<times> session_heap \<times> prune_result \<times> (string, string) gomap \<Rightarrow> bool" where
  "outer_inv m sm0 todo = (\<lambda>(sm, heap, res, kept).
     (let us = sm_userSessions sm0; R = set (pr_RemovedSessions res) in
      sm = fold deleteByIDLocked (pr_RemovedSessions res) sm0
      \<and> heap_ids heap \<and> mkeys heap = mkeys (sm_sessions sm0)
      \<and> (\<forall>(c, sids) \<in> set todo. R \<inter> set (chat_list us c) = {})
      \<and> (\<forall>c k. mget kept c = Some k \<longrightarrow> c \<notin> fst ` set todo \<and> k \<in> set (chat_list us c) - R)
      \<and> kept_history sm heap = kept_history sm0 (sm_sessions sm0)
      \<and> (m \<longrightarrow> (\<forall>c. c \<notin> fst ` set todo \<longrightarrow> length (filter (\<lambda>i. i \<notin> R) (chat_list us c)) \<le> 1))))"

lemma fold_deleteByIDLocked_append:
  "fold deleteByIDLocked ys (fold deleteByIDLocked xs sm) = fold deleteByIDLocked (xs @ ys) sm"
  by simp

lemma filter_only: "distinct xs \<Longrightarrow> k \<in> set xs \<Longrightarrow> filter (\<lambda>i. i = k) xs = [k]"
  by (induction xs) (auto simp: filter_empty_conv)

lemma outer_step:
  assumes wf: "sm_wf sm0" and sids: "sids = chat_list (sm_userSessions sm0) c"
    and todo: "c \<notin> fst ` set todo" "\<forall>(d, ds) \<in> set todo. ds = chat_list (sm_userSessions sm0) d"
    and inv: "outer_inv m sm0 ((c, sids) # todo) (sm, heap, res, kept)"
  shows "outer_inv m sm0 todo (prune_chat m (c, sids) (sm, heap, res, kept))"
proof -
  let ?us = "sm_userSessions sm0" and ?R = "set (pr_RemovedSessions res)"
  have sm: "sm = fold deleteByIDLocked (pr_RemovedSessions res) sm0"
    and heap: "heap_ids heap" "mkeys heap = mkeys (sm_sessions sm0)"
    and Rc: "?R \<inter> set (chat_list ?us c) = {}"
    and Rtodo: "\<forall>(d, ds) \<in> set todo. ?R \<inter> set (chat_list ?us d) = {}"
    and kept: "\<forall>d k. mget kept d = Some k \<longrightarrow> d \<noteq> c \<and> d \<notin> fst ` set todo \<and> k \<in> set (chat_list ?us d) - ?R"
    and hist: "kept_history sm heap = kept_history sm0 (sm_sessions sm0)"
    and small: "m \<longrightarrow> (\<forall>d. d \<noteq> c \<and> d \<notin> fst ` set todo \<longrightarrow> length (filter (\<lambda>i. i \<notin> ?R) (chat_list ?us d)) \<le> 1)"
    using inv by (auto simp: outer_inv_def Let_def)
  have untouched: "filter (\<lambda>i. i \<notin> ?R) sids = sids" using Rc by (auto simp: sids filter_id_conv)
  show ?thesis
  proof (cases "length sids \<le> 1")
    case True
    then have eq: "prune_chat m (c, sids) (sm, heap, res, kept) = (sm, heap, res, kept)"
      by (simp add: prune_chat_def)
    have "m \<longrightarrow> (\<forall>d. d \<notin> fst ` set todo \<longrightarrow> length (filter (\<lambda>i. i \<notin> ?R) (chat_list ?us d)) \<le> 1)"
      using small True untouched sids by metis
    then show ?thesis
      unfolding eq using sm heap Rtodo kept hist by (simp add: outer_inv_def Let_def)
  next
    case False
    let ?o = "sort_key (\<lambda>sid. - heap_updated heap sid) sids"
    let ?k = "choose_keep heap ?o"
    let ?D = "filter (doomed m heap ?k) ?o"
    let ?r0 = "res\<lparr>pr_ChatsAffected := pr_ChatsAffected res + 1\<rparr>"
    have so: "set ?o = set sids" by simp
    have "length ?o = length sids" by simp
    then have "?o \<noteq> []" using False by (metis list.size(3) zero_le)
    then have kin: "?k \<in> set sids" using choose_keep_in [of ?o heap] by simp
    obtain res' where f: "fold (prune_old m ?k) ?o (sm, heap, ?r0) =
        (fold deleteByIDLocked ?D sm, merged m ?k ?o heap, res')"
      and res': "pr_RemovedSessions res' = pr_RemovedSessions res @ ?D"
      using fold_prune_old [of m ?k ?o sm heap ?r0] by auto
    have eq: "prune_chat m (c, sids) (sm, heap, res, kept) =
        (fold deleteByIDLocked ?D sm, merged m ?k ?o heap, res', mput c ?k kept)"
      using False f by (simp add: prune_chat_def Let_def)
    have disj: "set (chat_list ?us d) \<inter> set sids = {}" if "d \<noteq> c" for d
      using wf that by (auto simp: sids sm_wf_def owned_ok_def ownedIDs_def dest!: chat_list_disjoint)
    have D: "set ?D \<subseteq> set sids - {?k}" by (auto simp: doomed_def)
    have keys: "mkeys (sm_sessions sm) = mkeys (sm_sessions sm0) - ?R"
      by (simp add: sm mkeys_fold_delete)
    have sub: "set sids \<subseteq> mkeys (sm_sessions sm)"
      using chat_list_keys [OF wf, of c] Rc by (auto simp: keys sids)
    have "kept_history (fold deleteByIDLocked ?D sm) (merged m ?k ?o heap) = kept_history sm heap"
      using sub kin keys heap chat_list_distinct [OF wf, of c]
      by (intro kept_history_fold) (auto simp: sids)
    moreover have "\<forall>(d, ds) \<in> set todo. set (pr_RemovedSessions res') \<inter> set (chat_list ?us d) = {}"
    proof (intro ballI, clarify)
      fix d ds
      assume d: "(d, ds) \<in> set todo"
      then have "d \<noteq> c" using todo(1) by force
      from disj [OF this] show "set (pr_RemovedSessions res') \<inter> set (chat_list ?us d) = {}"
        using Rtodo d D unfolding res' by (simp add: disjoint_iff) blast
    qed
    moreover have "\<forall>d k. mget (mput c ?k kept) d = Some k \<longrightarrow>
        d \<notin> fst ` set todo \<and> k \<in> set (chat_list ?us d) - set (pr_RemovedSessions res')"
    proof (intro allI impI)
      fix d k
      assume dk: "mget (mput c ?k kept) d = Some k"
      show "d \<notin> fst ` set todo \<and> k \<in> set (chat_list ?us d) - set (pr_RemovedSessions res')"
      proof (cases "d = c")
        case True
        then have "k = ?k" using dk by (simp add: gomap)
        moreover have "?k \<notin> set (pr_RemovedSessions res')" using Rc kin D by (auto simp: res' sids)
        ultimately show ?thesis using True todo(1) kin by (simp add: sids)
      next
        case False
        then have k: "d \<notin> fst ` set todo" "k \<in> set (chat_list ?us d)" "k \<notin> ?R"
          using dk kept by (auto simp: gomap)
        then have "k \<notin> set ?D" using disj [OF False] D by blast
        then show ?thesis using k by (simp add: res')
      qed
    qed
    moreover have "m \<longrightarrow> (\<forall>d. d \<notin> fst ` set todo \<longrightarrow>
        length (filter (\<lambda>i. i \<notin> set (pr_RemovedSessions res')) (chat_list ?us d)) \<le> 1)"
    proof (intro impI allI)
      fix d
      assume m: m and d: "d \<notin> fst ` set todo"
      show "length (filter (\<lambda>i. i \<notin> set (pr_RemovedSessions res')) (chat_list ?us d)) \<le> 1"
      proof (cases "d = c")
        case True
        have "filter (\<lambda>i. i \<notin> set (pr_RemovedSessions res')) sids = filter (\<lambda>i. i = ?k) sids"
          using Rc m by (intro filter_cong) (auto simp: res' doomed_def sids)
        then show ?thesis
          using True kin chat_list_distinct [OF wf, of c] by (simp add: sids filter_only)
      next
        case False
        have "filter (\<lambda>i. i \<notin> set (pr_RemovedSessions res')) (chat_list ?us d) =
            filter (\<lambda>i. i \<notin> ?R) (chat_list ?us d)"
          using D disj [OF False] by (intro filter_cong) (auto simp: res')
        then show ?thesis using small m d False by simp
      qed
    qed
    ultimately show ?thesis
      unfolding eq using heap hist
      by (simp add: outer_inv_def Let_def res' heap_ids_merged sm)
  qed
qed

lemma outer_fold:
  assumes "sm_wf sm0" "distinct (map fst todo)" "\<forall>(d, ds) \<in> set todo. ds = chat_list (sm_userSessions sm0) d"
    and "outer_inv m sm0 todo st"
  shows "outer_inv m sm0 [] (fold (prune_chat m) todo st)"
  using assms(2-4)
proof (induction todo arbitrary: st)
  case (Cons p todo)
  obtain c sids where p: "p = (c, sids)" by force
  obtain sm heap res kept where st: "st = (sm, heap, res, kept)" by (cases st) auto
  have "outer_inv m sm0 todo (prune_chat m (c, sids) st)"
    unfolding st by (rule outer_step [OF assms(1)]) (use Cons.prems in \<open>auto simp: p st\<close>)
  then show ?case using Cons by (simp add: p)
qed simp

lemma outer_inv_start:
  assumes wf: "sm_wf sm"
  shows "outer_inv m sm (chat_sessions sm) (sm, sm_sessions sm, \<lparr>pr_RemovedSessions = [], pr_MergedHistory = a, pr_ChatsAffected = b\<rparr>, [])"
proof -
  have "chat_list (sm_userSessions sm) c = []" if "c \<notin> fst ` set (chat_sessions sm)" for c
    using chat_sessions_lookup [OF wf, of c] that
    by (simp add: mget_or_def mget_None_keys [THEN iffD2] mkeys_def)
  then show ?thesis
    using wf by (auto simp: outer_inv_def heap_ids_def sm_wf_def maps_wf_def keys_are_ids_def)
qed

text \<open>The state of the two loops after the last chat.\<close>

lemma prune_loops:
  assumes wf: "sm_wf sm"
  obtains heap res kept where
    "fold (prune_chat m) (chat_sessions sm)
       (sm, sm_sessions sm, \<lparr>pr_RemovedSessions = [], pr_MergedHistory = 0, pr_ChatsAffected = 0\<rparr>, []) =
       (fold deleteByIDLocked (pr_RemovedSessions res) sm, heap, res, kept)"
    "outer_inv m sm [] (fold deleteByIDLocked (pr_RemovedSessions res) sm, heap, res, kept)"
proof -
  let ?st = "fold (prune_chat m) (chat_sessions sm)
       (sm, sm_sessions sm, \<lparr>pr_RemovedSessions = [], pr_MergedHistory = 0, pr_ChatsAffected = 0\<rparr>, [])"
  have "outer_inv m sm [] ?st"
    by (rule outer_fold [OF wf _ _ outer_inv_start [OF wf]])
      (use chat_sessions_entry [OF wf] wf_chat_sessions [of sm] in \<open>auto simp: wf_map_def\<close>)
  moreover obtain sm' heap res kept where st: "?st = (sm', heap, res, kept)" by (metis prod_cases4)
  ultimately have inv: "outer_inv m sm [] (sm', heap, res, kept)" by simp
  then have "sm' = fold deleteByIDLocked (pr_RemovedSessions res) sm" by (simp add: outer_inv_def Let_def)
  with that st inv show ?thesis by blast
qed

lemma mget_heap_mmap:
  "mget (mmap (\<lambda>sid s. case mget heap sid of None \<Rightarrow> s | Some s' \<Rightarrow> s') m) k =
   (case mget m k of None \<Rightarrow> None | Some s \<Rightarrow> Some (case mget heap k of None \<Rightarrow> s | Some s' \<Rightarrow> s'))"
  by (simp add: gomap split: option.splits)

lemma sm_wf_sync_heap:
  assumes "sm_wf sm" "heap_ids heap"
  shows "sm_wf (sync_heap heap sm)"
  using assms(1)
proof (rule sm_wf_cong)
  show "keys_are_ids (sync_heap heap sm)"
    using assms by (auto simp: keys_are_ids_def sync_heap_def set_mmap heap_ids_def mget_in_set sm_wf_def
        split: option.splits)
qed (use assms in \<open>auto simp: sync_heap_def gomap wfm sm_wf_def maps_wf_def\<close>)

lemma retarget_frame:
  "\<exists>act. retarget_active kept sm = sm\<lparr>sm_activeSession := act\<rparr>"
proof -
  have "\<exists>act. fold (\<lambda>(userKey, sids) sm. if sids = [] then sm
       else case mget kept (base_chat userKey) of None \<Rightarrow> sm
         | Some keep \<Rightarrow> sm\<lparr>sm_activeSession := mput userKey keep (sm_activeSession sm)\<rparr>) us sm
       = sm\<lparr>sm_activeSession := act\<rparr>" for us
  proof (induction us arbitrary: sm)
    case Nil
    have "sm = sm\<lparr>sm_activeSession := sm_activeSession sm\<rparr>" by simp
    then show ?case by (metis fold_simps(1))
  next
    case (Cons p us)
    show ?case
    proof (cases "snd p = [] \<or> mget kept (base_chat (fst p)) = None")
      case True
      then show ?thesis using Cons by (cases p) auto
    next
      case False
      then obtain keep where k: "mget kept (base_chat (fst p)) = Some keep" by auto
      show ?thesis
        using Cons.IH [of "sm\<lparr>sm_activeSession := mput (fst p) keep (sm_activeSession sm)\<rparr>"] False k
        by (cases p) auto
    qed
  qed
  then show ?thesis by (simp add: retarget_active_def)
qed

lemma sm_wf_retarget:
  assumes "sm_wf sm" "\<forall>c k. mget kept c = Some k \<longrightarrow> k \<in> mkeys (sm_sessions sm)"
  shows "sm_wf (retarget_active kept sm)"
proof -
  have "sm_wf sm' \<and> sm_sessions sm' = sm_sessions sm \<and> sm_userSessions sm' = sm_userSessions sm \<Longrightarrow>
      set us \<subseteq> set (sm_userSessions sm) \<Longrightarrow>
      sm_wf (fold (\<lambda>(userKey, sids) sm. if sids = [] then sm
       else case mget kept (base_chat userKey) of None \<Rightarrow> sm
         | Some keep \<Rightarrow> sm\<lparr>sm_activeSession := mput userKey keep (sm_activeSession sm)\<rparr>) us sm')" for us sm'
  proof (induction us arbitrary: sm')
    case (Cons p us)
    obtain u sids where p: "p = (u, sids)" by force
    have u: "u \<in> mkeys (sm_userSessions sm)" using Cons.prems by (auto simp: p intro: in_mkeys)
    show ?case
    proof (cases "sids = [] \<or> mget kept (base_chat u) = None")
      case True
      then show ?thesis using Cons by (auto simp: p)
    next
      case False
      then obtain keep where k: "mget kept (base_chat u) = Some keep" by auto
      have "sm_wf (sm'\<lparr>sm_activeSession := mput u keep (sm_activeSession sm')\<rparr>)"
        using assms k u Cons.prems by (intro sm_wf_set_active) auto
      then show ?thesis
        using Cons.IH [of "sm'\<lparr>sm_activeSession := mput u keep (sm_activeSession sm')\<rparr>"] Cons.prems False k
        by (simp add: p)
    qed
  qed simp
  then show ?thesis using assms(1) by (simp add: retarget_active_def)
qed

lemma userSessions_fold_delete:
  assumes "distinct (ownedIDs sm)"
  shows "chat_list (sm_userSessions (fold deleteByIDLocked R sm)) c =
      filter (\<lambda>i. i \<notin> set R) (chat_list (sm_userSessions sm) c)
    \<and> distinct (ownedIDs (fold deleteByIDLocked R sm))"
  using assms
proof (induction R arbitrary: sm)
  case (Cons x R)
  have "chat_list (sm_userSessions (deleteByIDLocked x sm)) c = filter (\<lambda>i. i \<noteq> x) (chat_list (sm_userSessions sm) c)"
    using Cons.prems
    unfolding ownedIDs_def deleteByIDLocked_def chat_list_def
  proof (induction "sm_userSessions sm" arbitrary: sm)
    case (Cons p us)
    obtain u sids where p: "p = (u, sids)" by force
    have "distinct (concat (map snd us))" using Cons.prems Cons.hyps(2) by (metis concat.simps(2) distinct_append list.simps(9))
    with Cons.hyps(1) [of "sm\<lparr>sm_userSessions := us\<rparr>"]
    have IH: "concat (map snd (filter (\<lambda>(u, _). base_chat u = c) (mmap (\<lambda>_. remove_first ((=) x)) us))) =
        filter (\<lambda>i. i \<noteq> x) (concat (map snd (filter (\<lambda>(u, _). base_chat u = c) us)))" by simp
    have "distinct sids" using Cons.prems Cons.hyps(2) [symmetric] by (simp add: p)
    then have "remove_first ((=) x) sids = filter (\<lambda>i. i \<noteq> x) sids"
      by (simp add: remove_first_remove1 distinct_remove1_removeAll removeAll_filter_not_eq) metis
    then show ?case using IH Cons.hyps(2) [symmetric] by (simp add: p mmap_def)
  qed (simp add: mmap_def)
  moreover have "distinct (ownedIDs (deleteByIDLocked x sm))"
    using Cons.prems by (simp add: ownedIDs_delete)
  moreover have "filter (\<lambda>i. i \<notin> set R) (filter (\<lambda>i. i \<noteq> x) xs) = filter (\<lambda>i. i \<notin> set (x # R)) xs" for xs :: "string list"
    by (simp add: conj_commute)
  ultimately show ?case using Cons.IH [of "deleteByIDLocked x sm"] by simp
qed simp

end
