(* ===== verification/SessionSystem.thy ===== *)
theory SessionSystem
  imports SessionPruneProofs
begin

text \<open>
  The session manager as a state machine: one step per call of its API, of a session method
  through a pointer it handed out, or a restart that reloads the file. The properties of the manager
  are stated over the reachable states.
\<close>

section \<open>Pruning duplicates keeps the invariant\<close>

lemma PruneDuplicateSessions_eq:
  assumes wf: "sm_wf sm"
  obtains heap res kept sm1 where
    "PruneDuplicateSessions m sm = (if pr_RemovedSessions res \<noteq> [] then sm_saveLocked sm1 else sm1, res)"
    "sm1 = retarget_active kept (sync_heap heap (fold deleteByIDLocked (pr_RemovedSessions res) sm))"
    "outer_inv m sm [] (fold deleteByIDLocked (pr_RemovedSessions res) sm, heap, res, kept)"
  using prune_loops [OF wf, of m] by (metis (no_types, lifting) PruneDuplicateSessions_def case_prod_conv)

lemma sm_wf_prune_core:
  assumes wf: "sm_wf sm" and inv: "outer_inv m sm [] (fold deleteByIDLocked R sm, heap, res, kept)"
    and R: "R = pr_RemovedSessions res"
  shows "sm_wf (retarget_active kept (sync_heap heap (fold deleteByIDLocked R sm)))"
proof (rule sm_wf_retarget)
  show "sm_wf (sync_heap heap (fold deleteByIDLocked R sm))"
    using wf inv by (intro sm_wf_sync_heap sm_wf_fold_delete) (auto simp: outer_inv_def Let_def)
  show "\<forall>c k. mget kept c = Some k \<longrightarrow> k \<in> mkeys (sm_sessions (sync_heap heap (fold deleteByIDLocked R sm)))"
  proof (intro allI impI)
    fix c k
    assume "mget kept c = Some k"
    then have "k \<in> set (chat_list (sm_userSessions sm) c) - set R"
      using inv R by (auto simp: outer_inv_def Let_def)
    then show "k \<in> mkeys (sm_sessions (sync_heap heap (fold deleteByIDLocked R sm)))"
      using chat_list_keys [OF wf, of c] by (auto simp: sync_heap_def gomap mkeys_fold_delete)
  qed
qed

lemma sm_wf_PruneDuplicateSessions [sm_inv]:
  assumes wf: "sm_wf sm"
  shows "sm_wf (fst (PruneDuplicateSessions m sm))"
proof -
  obtain heap res kept sm1 where
    eq: "PruneDuplicateSessions m sm = (if pr_RemovedSessions res \<noteq> [] then sm_saveLocked sm1 else sm1, res)"
    and sm1: "sm1 = retarget_active kept (sync_heap heap (fold deleteByIDLocked (pr_RemovedSessions res) sm))"
    and inv: "outer_inv m sm [] (fold deleteByIDLocked (pr_RemovedSessions res) sm, heap, res, kept)"
    by (rule PruneDuplicateSessions_eq [OF wf])
  have "sm_wf sm1" unfolding sm1 by (rule sm_wf_prune_core [OF wf inv refl])
  then show ?thesis by (simp add: eq)
qed

section \<open>What is on disk can be loaded\<close>

definition disk_ok :: "session_manager \<Rightarrow> bool" where
  "disk_ok sm \<longleftrightarrow> (\<forall>snap path w. sm_disk sm = Doc snap \<longrightarrow> path \<noteq> [] \<longrightarrow> sm_wf (NewSessionManager path (Doc snap) w))"

lemma snap_session_ID [simp]: "s_ID (snap_session s) = s_ID s"
  by (simp add: snap_session_def new_session_def)

lemma mmap_mmap: "mmap f (mmap g m) = mmap (\<lambda>k v. f k (g k v)) m"
  by (induction m) (auto simp: mmap_def)

lemma mmap_cong: "(\<And>k v. (k, v) \<in> set m \<Longrightarrow> f k v = g k v) \<Longrightarrow> mmap f m = mmap g m"
  by (auto simp: mmap_def)

text \<open>A restart after a successful save: the manager that \<open>NewSessionManager\<close> builds from the file.\<close>

lemma load_saved:
  assumes "sm_storePath sm \<noteq> []" "sm_writable sm" "path \<noteq> []"
  shows "NewSessionManager path (sm_disk (sm_saveLocked sm)) w =
    \<lparr>sm_sessions = mmap (\<lambda>_. snap_session \<circ> stripContinueSessionSentinel) (sm_sessions sm),
     sm_activeSession = sm_activeSession sm, sm_userSessions = sm_userSessions sm,
     sm_sessionNames = sm_sessionNames sm, sm_userMeta = sm_userMeta sm, sm_counter = sm_counter sm,
     sm_storePath = path, sm_legacyData = sm_legacyData (sm_saveLocked sm),
     sm_disk = sm_disk (sm_saveLocked sm), sm_writable = w\<rparr>"
proof -
  have "stripContinueSessionSentinel (snap_session (stripContinueSessionSentinel s)) =
      snap_session (stripContinueSessionSentinel s)" for s
    by (simp add: stripContinueSessionSentinel_def snap_session_def new_session_def)
  then show ?thesis
    using assms by (simp add: NewSessionManager_def sm_load_def sm_saveLocked_def Let_def nil_to_empty_def
        mmap_mmap comp_def)
qed

lemma disk_ok_saveLocked:
  assumes "sm_wf sm" "disk_ok sm"
  shows "disk_ok (sm_saveLocked sm)"
proof (cases "sm_storePath sm \<noteq> [] \<and> sm_writable sm")
  case False
  then have "sm_disk (sm_saveLocked sm) = sm_disk sm" by (auto simp: sm_saveLocked_def Let_def)
  with assms show ?thesis by (simp add: disk_ok_def)
next
  case True
  show ?thesis
    unfolding disk_ok_def
  proof (intro allI impI)
    fix snap and path :: string and w
    assume snap: "sm_disk (sm_saveLocked sm) = Doc snap" and path: "path \<noteq> []"
    let ?new = "NewSessionManager path (sm_disk (sm_saveLocked sm)) w"
    have eq: "sm_sessions ?new = mmap (\<lambda>_. snap_session \<circ> stripContinueSessionSentinel) (sm_sessions sm)"
      "sm_userSessions ?new = sm_userSessions sm" "sm_activeSession ?new = sm_activeSession sm"
      "sm_counter ?new = sm_counter sm"
      using load_saved [of sm path w] True path by simp_all
    have "sm_wf ?new"
      by (rule sm_wf_cong [OF assms(1)])
        (use assms(1) in \<open>auto simp: eq gomap wfm sm_wf_def maps_wf_def intro!: keys_are_ids_mmap [OF _ eq(1)]\<close>)
    then show "sm_wf (NewSessionManager path (Doc snap) w)" by (simp add: snap)
  qed
qed

lemma disk_ok_same: "disk_ok sm \<Longrightarrow> sm_disk sm' = sm_disk sm \<Longrightarrow> disk_ok sm'"
  by (simp add: disk_ok_def)

lemma disk_frame [simp]:
  "sm_disk (register now u name sm) = sm_disk sm"
  "sm_disk (fst (createLocked now u name sm)) = sm_disk sm"
  "sm_disk (deleteByIDLocked sid sm) = sm_disk sm"
  "sm_disk (sync_heap heap sm) = sm_disk sm"
  by (simp_all add: register_def addUserSession_def createLocked_register deleteByIDLocked_def sync_heap_def)

lemma disk_fold_delete [simp]: "sm_disk (fold deleteByIDLocked R sm) = sm_disk sm"
  by (induction R arbitrary: sm) auto

lemma disk_retarget [simp]: "sm_disk (retarget_active kept sm) = sm_disk sm"
  using retarget_frame [of kept sm] by auto

lemma sm_load_nothing: "path \<noteq> [] \<Longrightarrow> (\<And>d. disk \<noteq> Doc d) \<Longrightarrow> sm_wf (NewSessionManager path disk w)"
  by (cases disk) (auto simp: NewSessionManager_def sm_load_def Let_def sm_wf_defs ownedIDs_def)

lemma sm_wf_NewSessionManager_empty: "(\<And>d. disk \<noteq> Doc d) \<Longrightarrow> sm_wf (NewSessionManager path disk w)"
  by (cases disk) (auto simp: NewSessionManager_def sm_load_def Let_def sm_wf_defs ownedIDs_def)

section \<open>The state machine\<close>

datatype sm_call =
    CGetOrCreateActive time string | CNewSession time string string | CNewSideSession time string string
  | CSwitch time string string | CSwitchToAgent time string string string string
  | CSetSessionName string string | CUpdateUserMeta string string string
  | CDeleteByID string | CDeleteByAgentSessionID string | CInvalidateForAgent string
  | CPruneDuplicates bool | CPruneEmpty | CSave | CSession string session_op

fun sm_step :: "sm_call \<Rightarrow> session_manager \<Rightarrow> session_manager" where
  "sm_step (CGetOrCreateActive now u) sm = fst (GetOrCreateActive now u sm)"
| "sm_step (CNewSession now u n) sm = fst (NewSession now u n sm)"
| "sm_step (CNewSideSession now u n) sm = fst (NewSideSession now u n sm)"
| "sm_step (CSwitch now u t) sm = fst (SwitchSession now u t sm)"
| "sm_step (CSwitchToAgent now u a t n) sm = fst (SwitchToAgentSession now u a t n sm)"
| "sm_step (CSetSessionName a n) sm = SetSessionName a n sm"
| "sm_step (CUpdateUserMeta k n c) sm = UpdateUserMeta k n c sm"
| "sm_step (CDeleteByID i) sm = fst (DeleteByID i sm)"
| "sm_step (CDeleteByAgentSessionID a) sm = fst (DeleteByAgentSessionID a sm)"
| "sm_step (CInvalidateForAgent t) sm = InvalidateForAgent t sm"
| "sm_step (CPruneDuplicates m) sm = fst (PruneDuplicateSessions m sm)"
| "sm_step CPruneEmpty sm = fst (PruneEmptySessions sm)"
| "sm_step CSave sm = Save sm"
| "sm_step (CSession i c) sm = with_session i c sm"

lemma sm_step_wf: "sm_wf sm \<Longrightarrow> sm_wf (sm_step c sm)"
  by (cases c) (simp_all add: sm_inv)

lemma disk_ok_step:
  assumes wf: "sm_wf sm" and ok: "disk_ok sm"
  shows "disk_ok (sm_step c sm)"
proof -
  have save: "disk_ok (sm_saveLocked x)" if "sm_wf x" "sm_disk x = sm_disk sm" for x
    using that disk_ok_saveLocked disk_ok_same [OF ok] by blast
  have same: "disk_ok x" if "sm_disk x = sm_disk sm" for x
    using that disk_ok_same [OF ok] by blast
  have act: "disk_ok (activate now u (i, s) sm)"
    if "first_session P (sm_sessions sm) (mget_or [] (sm_userSessions sm) u) = Some (i, s)" for P now u i s
  proof -
    have g: "mget (sm_sessions sm) i = Some s" and u: "u \<in> mkeys (sm_userSessions sm)"
      using first_session_Some [OF that] by (auto intro: mget_or_Nil_in_keys)
    have "s_ID s = i" using wf g by (auto simp: sm_wf_def maps_wf_def intro: keys_are_idsD)
    then have "sm_wf (sm\<lparr>sm_activeSession := mput u (s_ID s) (sm_activeSession sm)\<rparr>)"
      using wf g u by (intro sm_wf_set_active) (auto intro: mget_in_keys)
    from sm_wf_sessions_madj [OF this, of "MarkExplicitlyActivated now" i]
    show ?thesis unfolding activate_def by (auto intro!: save simp: MarkExplicitlyActivated_def)
  qed
  show ?thesis
  proof (cases c)
    case (CGetOrCreateActive now u)
    then show ?thesis
      using save [OF sm_wf_createLocked [OF wf, of now u "''default''"]] ok
      by (auto simp: GetOrCreateActive_def Let_def split: option.splits prod.splits)
  next
    case (CNewSession now u n)
    then show ?thesis
      using save [OF sm_wf_createLocked [OF wf, of now u n]] by (auto simp: NewSession_def split: prod.splits)
  next
    case (CNewSideSession now u n)
    then show ?thesis by (simp add: NewSideSession_register save sm_wf_register wf)
  next
    case (CSwitch now u t)
    then show ?thesis using ok act by (auto simp: SwitchSession_def split: option.splits)
  next
    case (CSwitchToAgent now u a t n)
    let ?f = "MarkExplicitlyActivated now \<circ> SetAgentInfo a t n"
    have "s_ID (?f s) = s_ID s" for s
      by (simp add: MarkExplicitlyActivated_def SetAgentInfo_def recordPastAgentSessionID_def Let_def)
    then have "sm_wf ((fst (createLocked now u n sm))\<lparr>sm_sessions :=
        madj (next_sid sm) ?f (sm_sessions (fst (createLocked now u n sm)))\<rparr>)"
      by (intro sm_wf_sessions_madj sm_wf_createLocked wf)
    from save [OF this] show ?thesis using CSwitchToAgent act
      by (auto simp: SwitchToAgentSession_def createLocked_register Let_def split: option.splits)
  next
    case (CSetSessionName a n)
    then show ?thesis using wf by (auto simp: SetSessionName_def intro!: save)
  next
    case (CUpdateUserMeta k n c)
    then show ?thesis by (auto simp: UpdateUserMeta_def Let_def intro!: same)
  next
    case (CDeleteByID i)
    then show ?thesis using ok by (auto simp: DeleteByID_def sm_wf_delete wf intro!: save)
  next
    case (CDeleteByAgentSessionID a)
    let ?x = "fold deleteByIDLocked (map fst (filter (\<lambda>(_, s). s_AgentSessionID s = a) (sm_sessions sm))) sm"
    have "disk_ok (sm_saveLocked ?x)" "disk_ok ?x"
      by (auto intro: same save simp: sm_wf_fold_delete wf)
    then show ?thesis using ok CDeleteByAgentSessionID by (simp add: DeleteByAgentSessionID_def Let_def)
  next
    case (CInvalidateForAgent t)
    have "sm_wf (sm\<lparr>sm_sessions := mmap (\<lambda>_. invalidate_session t) (sm_sessions sm)\<rparr>)"
      using wf by (intro sm_wf_sessions_mmap) (auto simp: invalidate_session_def recordPastAgentSessionID_def)
    note save [OF this] same [of "sm\<lparr>sm_sessions := mmap (\<lambda>_. invalidate_session t) (sm_sessions sm)\<rparr>"]
    then show ?thesis using CInvalidateForAgent by (simp add: InvalidateForAgent_def Let_def)
  next
    case (CPruneDuplicates m)
    obtain heap res kept sm1 where
      eq: "PruneDuplicateSessions m sm = (if pr_RemovedSessions res \<noteq> [] then sm_saveLocked sm1 else sm1, res)"
      and sm1: "sm1 = retarget_active kept (sync_heap heap (fold deleteByIDLocked (pr_RemovedSessions res) sm))"
      and inv: "outer_inv m sm [] (fold deleteByIDLocked (pr_RemovedSessions res) sm, heap, res, kept)"
      by (rule PruneDuplicateSessions_eq [OF wf])
    have "sm_wf sm1" unfolding sm1 by (rule sm_wf_prune_core [OF wf inv refl])
    moreover have "sm_disk sm1 = sm_disk sm" by (simp add: sm1)
    ultimately have "disk_ok (sm_saveLocked sm1)" "disk_ok sm1" by (simp_all add: save same)
    then show ?thesis using CPruneDuplicates eq by simp
  next
    case CPruneEmpty
    have "disk_ok (sm_saveLocked (fold deleteByIDLocked xs sm))" "disk_ok (fold deleteByIDLocked xs sm)" for xs
      by (auto intro: same save simp: sm_wf_fold_delete wf)
    then show ?thesis using CPruneEmpty ok by (simp add: PruneEmptySessions_def Let_def)
  next
    case CSave
    then show ?thesis by (auto simp: Save_def wf intro!: save)
  next
    case (CSession i c)
    then show ?thesis by (auto simp: with_session_def intro!: same)
  qed
qed

inductive sm_reachable :: "session_manager \<Rightarrow> bool" where
  sm_boot: "(\<And>d. disk \<noteq> Doc d) \<Longrightarrow> sm_reachable (NewSessionManager path disk w)"
| sm_call: "sm_reachable sm \<Longrightarrow> sm_reachable (sm_step c sm)"
| sm_restart: "sm_reachable sm \<Longrightarrow> sm_storePath sm \<noteq> [] \<Longrightarrow>
    sm_reachable (NewSessionManager (sm_storePath sm) (sm_disk sm) w)"

lemma disk_NewSessionManager: "sm_disk (NewSessionManager path disk w) = disk"
  by (auto simp: NewSessionManager_def sm_load_def Let_def split: stored.splits)

lemma reachable_inv: "sm_reachable sm \<Longrightarrow> sm_wf sm \<and> disk_ok sm"
proof (induction rule: sm_reachable.induct)
  case (sm_boot disk path w)
  then show ?case by (auto simp: disk_ok_def disk_NewSessionManager intro: sm_wf_NewSessionManager_empty)
next
  case (sm_call sm c)
  then show ?case by (simp add: sm_step_wf disk_ok_step)
next
  case (sm_restart sm w)
  have "sm_wf (NewSessionManager (sm_storePath sm) (sm_disk sm) w)"
  proof (cases "\<exists>d. sm_disk sm = Doc d")
    case True
    then show ?thesis using sm_restart by (auto simp: disk_ok_def)
  next
    case False
    then show ?thesis by (intro sm_wf_NewSessionManager_empty) auto
  qed
  then show ?case using sm_restart by (simp add: disk_ok_def disk_NewSessionManager)
qed

end
