(* ===== verification/SessionProperties.thy ===== *)
theory SessionProperties
  imports SessionSystem
begin

text \<open>
  The properties of sessions and of the session manager: the invariant of the reachable states,
  what a restart restores, how the active session of a user is found and switched, what
  pruning may and may not do, and the turn lock.
\<close>

section \<open>Library lemmas of this part\<close>

definition all_history :: "session_manager \<Rightarrow> history_entry multiset" where
  "all_history sm = mset (concat (map (s_History \<circ> snd) (sm_sessions sm)))"

lemma kept_history_own:
  assumes "wf_map m"
  shows "(\<Sum>sid \<in> mkeys m. mset (heap_history m sid)) = mset (concat (map (s_History \<circ> snd) m))"
  using assms
proof (induction m)
  case (Cons p m)
  obtain k s where p: "p = (k, s)" by force
  have "(\<Sum>sid \<in> mkeys m. mset (heap_history (p # m) sid)) = (\<Sum>sid \<in> mkeys m. mset (heap_history m sid))"
    using Cons.prems by (intro sum.cong) (auto simp: p heap_history_def)
  then show ?case using Cons by (simp add: p) (simp add: heap_history_def)
qed simp

lemma all_history_kept: "wf_map (sm_sessions sm) \<Longrightarrow> all_history sm = kept_history sm (sm_sessions sm)"
  by (simp add: all_history_def kept_history_def kept_history_own)

lemma all_history_mmap: "(\<And>k s. s_History (f k s) = s_History s) \<Longrightarrow>
    sm_sessions sm' = mmap f (sm_sessions sm) \<Longrightarrow> all_history sm' = all_history sm"
  by (simp add: all_history_def mmap_def comp_def case_prod_unfold)

lemma all_history_saveLocked [simp]: "all_history (sm_saveLocked sm) = all_history sm"
proof -
  have "all_history sm' = all_history sm"
    if "sm_sessions sm' = mmap (\<lambda>_. stripContinueSessionSentinel) (sm_sessions sm)" for sm'
    by (rule all_history_mmap [OF _ that]) (simp add: stripContinueSessionSentinel_def)
  then show ?thesis using sm_saveLocked_cases [of sm] by auto
qed

lemma chat_sessions_frame:
  "sm_wf sm \<Longrightarrow> sm_wf sm' \<Longrightarrow> sm_userSessions sm' = sm_userSessions sm \<Longrightarrow>
   mget_or [] (chat_sessions sm') c = mget_or [] (chat_sessions sm) c"
  by (simp add: chat_sessions_lookup)

lemma retarget_userSessions [simp]:
  "sm_userSessions (retarget_active kept sm) = sm_userSessions sm"
  "sm_sessions (retarget_active kept sm) = sm_sessions sm"
  using retarget_frame [of kept sm] by auto

lemma prune_small:
  assumes "\<forall>(c, sids) \<in> set chats. length sids \<le> 1"
  shows "fold (prune_chat m) chats st = st"
  using assms by (induction chats arbitrary: st) (auto simp: prune_chat_def)

lemma prune_merge_small:
  assumes wf: "sm_wf sm" and "(c, sids) \<in> set (chat_sessions (fst (PruneDuplicateSessions True sm)))"
  shows "length sids \<le> 1"
proof -
  let ?sm' = "fst (PruneDuplicateSessions True sm)"
  obtain heap res kept sm1 where
    eq: "PruneDuplicateSessions True sm = (if pr_RemovedSessions res \<noteq> [] then sm_saveLocked sm1 else sm1, res)"
    and sm1: "sm1 = retarget_active kept (sync_heap heap (fold deleteByIDLocked (pr_RemovedSessions res) sm))"
    and inv: "outer_inv True sm [] (fold deleteByIDLocked (pr_RemovedSessions res) sm, heap, res, kept)"
    by (rule PruneDuplicateSessions_eq [OF wf])
  have wf': "sm_wf ?sm'" by (rule sm_wf_PruneDuplicateSessions [OF wf])
  have us: "sm_userSessions ?sm' = sm_userSessions (fold deleteByIDLocked (pr_RemovedSessions res) sm)"
    by (simp add: eq sm1 sync_heap_def)
  have "sids = chat_list (sm_userSessions ?sm') c"
    by (rule chat_sessions_entry [OF wf' assms(2)])
  also have "\<dots> = filter (\<lambda>i. i \<notin> set (pr_RemovedSessions res)) (chat_list (sm_userSessions sm) c)"
    unfolding us using userSessions_fold_delete [of sm] wf by (simp add: sm_wf_def owned_ok_def)
  finally show ?thesis using inv by (simp add: outer_inv_def Let_def)
qed

lemma GetOrCreateActive_cases:
  assumes "sm_wf sm"
  obtains (existing) s where "mget (sm_activeSession sm) u = Some (s_ID s)"
      "mget (sm_sessions sm) (s_ID s) = Some s" "GetOrCreateActive now u sm = (sm, s_ID s)"
  | (fresh) "mget (sm_activeSession sm) u = None"
      "GetOrCreateActive now u sm = (sm_saveLocked (fst (createLocked now u ''default'' sm)), next_sid sm)"
proof (cases "mget (sm_activeSession sm) u")
  case None
  then show ?thesis by (intro that(2)) (simp_all add: GetOrCreateActive_def createLocked_register)
next
  case (Some sid)
  then have "sid \<in> mkeys (sm_sessions sm)"
    using assms by (auto simp: sm_wf_def maps_wf_def active_ok_def mget_in_set)
  then obtain s where s: "mget (sm_sessions sm) sid = Some s" using mget_Some_keys by metis
  then have "s_ID s = sid" using assms by (auto simp: sm_wf_def maps_wf_def intro: keys_are_idsD)
  then show ?thesis using Some s by (intro that(1) [of s]) (simp_all add: GetOrCreateActive_def)
qed

lemma sm_wf_new_empty: "sm_wf (NewSessionManager [] NoFile True)"
  by (rule sm_wf_NewSessionManager_empty) simp

section \<open>Properties\<close>

text \<open>
  C1. In every state the manager can reach, across calls, session methods, failed writes and
  restarts from the file: each map is keyed by session IDs that exist, each session belongs to
  exactly one user key, every active session exists, and the next ID is unused.
\<close>

theorem session_manager_invariant:
  assumes "sm_reachable sm"
  shows "sm_wf sm \<and> ''s'' @ itoa (sm_counter sm + 1) \<notin> mkeys (sm_sessions sm)"
  using reachable_inv [OF assms] fresh_nextID by (auto simp: sm_wf_def)

theorem session_manager_invariant_witness:
  "sm_wf (sm_step (CNewSession 5 ''tg:1:bob'' ''work'') (NewSessionManager [] NoFile True))"
  by (rule session_manager_invariant [THEN conjunct1]) (rule sm_reachable.intros | simp)+

text \<open>
  C2. A restart after a successful save restores the manager: the same users, active sessions,
  names, metadata and counter, and every session with its agent session IDs, history and
  timestamps. What it does not restore is exactly what \<open>snap_session\<close> leaves out.
\<close>

theorem restart_restores_saved:
  assumes "sm_storePath sm \<noteq> []" and "sm_writable sm"
  shows "(let sm' = NewSessionManager (sm_storePath sm) (sm_disk (Save sm)) w in
      sm_userSessions sm' = sm_userSessions sm \<and> sm_activeSession sm' = sm_activeSession sm
      \<and> sm_sessionNames sm' = sm_sessionNames sm \<and> sm_userMeta sm' = sm_userMeta sm
      \<and> sm_counter sm' = sm_counter sm \<and> sm_legacyData sm' = sm_legacyData (Save sm)
      \<and> (\<forall>sid. mget (sm_sessions sm') sid =
           map_option (\<lambda>s. (stripContinueSessionSentinel s)\<lparr>s_ActiveProvider := [], s_busy := False\<rparr>)
             (mget (sm_sessions sm) sid)))"
proof -
  have snap: "snap_session s = s\<lparr>s_ActiveProvider := [], s_busy := False\<rparr>" for s
    by (simp add: snap_session_def new_session_def)
  show ?thesis
    unfolding Save_def load_saved [OF assms assms(1), of w] Let_def
    by (simp add: gomap comp_def snap)
qed

theorem restart_restores_saved_witness:
  "sm_counter (NewSessionManager ''f'' (sm_disk (Save (NewSessionManager ''f'' NoFile True))) True) = 0"
  using restart_restores_saved [of "NewSessionManager ''f'' NoFile True" True]
  by (simp add: NewSessionManager_def sm_load_def Let_def)

text \<open>
  The active provider chosen with \<open>/provider switch\<close> does not survive a restart, although it is
  set, saved and declared to be persisted: \<open>saveLocked\<close> does not copy the field.
\<close>

theorem active_provider_lost_on_restart:
  "(let sm = fst (GetOrCreateActive 1 ''tg:1:bob'' (NewSessionManager ''f'' NoFile True));
        sm = Save (with_session ''s1'' (OpSetActiveProvider ''azure'') sm);
        sm' = NewSessionManager ''f'' (sm_disk sm) True
    in map_option s_ActiveProvider (FindByID ''s1'' sm) = Some ''azure''
       \<and> map_option s_ActiveProvider (FindByID ''s1'' sm') = Some [])"
  by code_simp

text \<open>
  Asking for the active session of a user: the answer exists in the manager and is the user's
  active session from then on, a second call changes nothing, and no other user's active
  session changes.
\<close>

theorem GetOrCreateActive_spec:
  assumes "sm_wf sm"
  shows "(let (sm1, sid) = GetOrCreateActive now u sm in
      sid \<in> mkeys (sm_sessions sm1) \<and> ActiveSessionID u sm1 = sid
      \<and> GetOrCreateActive now' u sm1 = (sm1, sid)
      \<and> (\<forall>v. v \<noteq> u \<longrightarrow> ActiveSessionID v sm1 = ActiveSessionID v sm)
      \<and> mkeys (sm_sessions sm) \<subseteq> mkeys (sm_sessions sm1))"
proof (rule GetOrCreateActive_cases [OF assms, of u now])
  fix s
  assume "mget (sm_activeSession sm) u = Some (s_ID s)" "mget (sm_sessions sm) (s_ID s) = Some s"
    "GetOrCreateActive now u sm = (sm, s_ID s)"
  then show ?thesis
    by (simp add: ActiveSessionID_def mget_or_def mget_in_keys GetOrCreateActive_def)
next
  assume none: "mget (sm_activeSession sm) u = None"
    and new: "GetOrCreateActive now u sm = (sm_saveLocked (fst (createLocked now u ''default'' sm)), next_sid sm)"
  let ?sm1 = "sm_saveLocked (fst (createLocked now u ''default'' sm))"
  have wf1: "sm_wf ?sm1" using assms sm_wf_createLocked by simp
  have act: "sm_activeSession (fst (createLocked now u ''default'' sm)) = mput u (next_sid sm) (sm_activeSession sm)"
    and keys: "mkeys (sm_sessions (fst (createLocked now u ''default'' sm))) = insert (next_sid sm) (mkeys (sm_sessions sm))"
    by (simp_all add: createLocked_register gomap)
  have "GetOrCreateActive now' u ?sm1 = (?sm1, next_sid sm)"
    by (rule GetOrCreateActive_cases [OF wf1, of u now']) (auto simp: act gomap)
  then show ?thesis
    unfolding new by (auto simp: ActiveSessionID_def act keys gomap)
qed

theorem GetOrCreateActive_spec_witness:
  "ActiveSessionID ''u'' (fst (GetOrCreateActive 1 ''u'' (NewSessionManager [] NoFile True))) =
   snd (GetOrCreateActive 1 ''u'' (NewSessionManager [] NoFile True))"
  using GetOrCreateActive_spec [OF sm_wf_new_empty, of 1 "''u''" 2]
  by (auto simp: case_prod_unfold Let_def)

text \<open>
  Switching by ID or name: it succeeds exactly if the user owns a session with that ID or
  name, then activates such a session, marks it as chosen by the user and touches no other
  user; otherwise it reports the target and changes nothing.
\<close>

theorem SwitchSession_spec:
  assumes "sm_wf sm"
  shows "case SwitchSession now u target sm of
      (sm1, Inr sid) \<Rightarrow> sid \<in> set (mget_or [] (sm_userSessions sm) u) \<and> ActiveSessionID u sm1 = sid
         \<and> (\<exists>s. mget (sm_sessions sm) sid = Some s \<and> (s_ID s = target \<or> s_Name s = target))
         \<and> map_option s_ExplicitActivatedAt (mget (sm_sessions sm1) sid) = Some now
         \<and> (\<forall>v. v \<noteq> u \<longrightarrow> ActiveSessionID v sm1 = ActiveSessionID v sm)
    | (sm1, Inl e) \<Rightarrow> sm1 = sm \<and> e = SessionNotFound target
         \<and> (\<forall>sid \<in> set (mget_or [] (sm_userSessions sm) u). \<forall>s.
              mget (sm_sessions sm) sid = Some s \<longrightarrow> s_ID s \<noteq> target \<and> s_Name s \<noteq> target)"
proof (cases "first_session (\<lambda>s. s_ID s = target \<or> s_Name s = target) (sm_sessions sm)
    (mget_or [] (sm_userSessions sm) u)")
  case None
  then show ?thesis using first_session_None [THEN iffD1, OF None] by (simp add: SwitchSession_def)
next
  case (Some p)
  obtain sid s where p: "p = (sid, s)" by force
  note f = first_session_Some [OF Some [unfolded p]]
  have i: "s_ID s = sid" using f assms by (auto simp: sm_wf_def maps_wf_def intro: keys_are_idsD)
  have "map_option s_ExplicitActivatedAt (mget (sm_sessions (sm_saveLocked x)) sid) =
      map_option s_ExplicitActivatedAt (mget (sm_sessions x) sid)" for x
    using sm_saveLocked_cases [of x]
    by (auto simp: gomap option.map_comp comp_def stripContinueSessionSentinel_def intro!: option.map_cong0)
  then have m: "map_option s_ExplicitActivatedAt (mget (sm_sessions (activate now u (sid, s) sm)) sid) = Some now"
    using f by (simp add: activate_def gomap MarkExplicitlyActivated_def)
  show ?thesis
    unfolding SwitchSession_def Some p using f i m
    by (auto simp: activate_def ActiveSessionID_def gomap)
qed

theorem SwitchSession_spec_witness:
  "SwitchSession 1 ''u'' ''x'' (NewSessionManager [] NoFile True) =
    (NewSessionManager [] NoFile True, Inl (SessionNotFound ''x''))"
  using SwitchSession_spec [OF sm_wf_new_empty, where now = 1 and u = "''u''" and target = "''x''"]
  by (auto simp: NewSessionManager_def mget_or_def SwitchSession_def split: prod.splits sum.splits)

text \<open>
  C9. Pruning duplicate sessions, merging or not, loses and duplicates no history entry: the
  multiset of all entries of all sessions is unchanged.
\<close>

theorem prune_keeps_all_history:
  assumes wf: "sm_wf sm"
  shows "all_history (fst (PruneDuplicateSessions m sm)) = all_history sm"
proof -
  obtain heap res kept sm1 where
    eq: "PruneDuplicateSessions m sm = (if pr_RemovedSessions res \<noteq> [] then sm_saveLocked sm1 else sm1, res)"
    and sm1: "sm1 = retarget_active kept (sync_heap heap (fold deleteByIDLocked (pr_RemovedSessions res) sm))"
    and inv: "outer_inv m sm [] (fold deleteByIDLocked (pr_RemovedSessions res) sm, heap, res, kept)"
    by (rule PruneDuplicateSessions_eq [OF wf])
  let ?smR = "fold deleteByIDLocked (pr_RemovedSessions res) sm"
  have wf1: "sm_wf sm1" unfolding sm1 by (rule sm_wf_prune_core [OF wf inv refl])
  have keys: "mkeys (sm_sessions ?smR) \<subseteq> mkeys heap"
    using inv by (auto simp: outer_inv_def Let_def mkeys_fold_delete)
  have "heap_history (sm_sessions sm1) sid = heap_history heap sid" if sid: "sid \<in> mkeys (sm_sessions ?smR)" for sid
  proof -
    obtain s s' where "mget (sm_sessions ?smR) sid = Some s" "mget heap sid = Some s'"
      using sid keys mget_Some_keys by (metis subsetD)
    then show ?thesis by (simp add: sm1 sync_heap_def heap_history_def mget_heap_mmap)
  qed
  then have "kept_history sm1 (sm_sessions sm1) = kept_history ?smR heap"
    by (simp add: kept_history_def sm1 sync_heap_def gomap)
  also have "\<dots> = kept_history sm (sm_sessions sm)" using inv by (simp add: outer_inv_def Let_def)
  finally have "all_history sm1 = all_history sm"
    using wf wf1 by (simp add: all_history_kept sm_wf_def maps_wf_def)
  then show ?thesis by (simp add: eq)
qed

theorem prune_keeps_all_history_witness:
  "all_history (fst (PruneDuplicateSessions True
      (sm_step (CNewSession 5 ''tg:1:bob'' ''work'') (NewSessionManager [] NoFile True)))) =
   all_history (sm_step (CNewSession 5 ''tg:1:bob'' ''work'') (NewSessionManager [] NoFile True))"
  by (rule prune_keeps_all_history, rule sm_step_wf, rule sm_wf_NewSessionManager_empty) simp

text \<open>
  Pruning with merging leaves at most one session in every chat, so pruning again finds no chat
  with duplicates and removes nothing.
\<close>

theorem prune_merge_one_per_chat:
  assumes "sm_wf sm"
  shows "(\<forall>(c, sids) \<in> set (chat_sessions (fst (PruneDuplicateSessions True sm))). length sids \<le> 1)
    \<and> pr_ChatsAffected (snd (PruneDuplicateSessions m (fst (PruneDuplicateSessions True sm)))) = 0
    \<and> pr_RemovedSessions (snd (PruneDuplicateSessions m (fst (PruneDuplicateSessions True sm)))) = []"
proof -
  have "\<forall>(c, sids) \<in> set (chat_sessions (fst (PruneDuplicateSessions True sm))). length sids \<le> 1"
    using prune_merge_small [OF assms] by auto
  from prune_small [OF this] this show ?thesis
    by (simp add: PruneDuplicateSessions_def [of m] Let_def)
qed

theorem prune_merge_one_per_chat_witness:
  "pr_ChatsAffected (snd (PruneDuplicateSessions False
      (fst (PruneDuplicateSessions True (NewSessionManager [] NoFile True))))) = 0"
  using prune_merge_one_per_chat [OF sm_wf_new_empty, of False] by simp

text \<open>
  Pruning without merging can move a user onto another user's conversation: both users of a
  chat have a session with history, nothing is removed, and yet the first user's active session
  becomes the session of the second user.
\<close>

theorem prune_redirects_to_foreign_session:
  "(let sm = fst (GetOrCreateActive 1 ''tg:1:bob'' (NewSessionManager [] NoFile True));
        sm = fst (GetOrCreateActive 2 ''tg:1:eve'' sm);
        sm = with_session ''s1'' (OpAddHistory 3 ''user'' ''hi'') sm;
        sm = with_session ''s2'' (OpAddHistory 4 ''user'' ''hi'') sm;
        (sm', res) = PruneDuplicateSessions False sm
    in ActiveSessionID ''tg:1:bob'' sm = ''s1'' \<and> ActiveSessionID ''tg:1:bob'' sm' = ''s2''
       \<and> map s_ID (ListSessions ''tg:1:bob'' sm') = [''s1''] \<and> pr_RemovedSessions res = [])"
  by code_simp

text \<open>Deleting and pruning are the calls that may forget a session.\<close>

fun deleting :: "sm_call \<Rightarrow> bool" where
  "deleting (CDeleteByID _) = True"
| "deleting (CDeleteByAgentSessionID _) = True"
| "deleting (CPruneDuplicates _) = True"
| "deleting CPruneEmpty = True"
| "deleting _ = False"

lemma kept_madj:
  assumes "mget m k = Some s" "\<And>s. known_ids s \<subseteq> known_ids (f s)"
  shows "\<exists>s'. mget (madj j f m) k = Some s' \<and> known_ids s \<subseteq> known_ids s'"
  using assms by (auto simp: gomap)

definition remembers :: "session_manager \<Rightarrow> session_manager \<Rightarrow> bool" where
  "remembers sm sm' \<longleftrightarrow> (\<forall>k s. mget (sm_sessions sm) k = Some s \<longrightarrow>
     (\<exists>s'. mget (sm_sessions sm') k = Some s' \<and> known_ids s \<subseteq> known_ids s'))"

lemma remembers_refl: "sm_sessions sm' = sm_sessions sm \<Longrightarrow> remembers sm sm'"
  by (simp add: remembers_def)

lemma remembers_trans: "remembers a b \<Longrightarrow> remembers b c \<Longrightarrow> remembers a c"
  unfolding remembers_def by (meson order_trans)

lemma remembers_mmap:
  "sm_sessions sm' = mmap f (sm_sessions sm) \<Longrightarrow> (\<And>k s. known_ids s \<subseteq> known_ids (f k s)) \<Longrightarrow> remembers sm sm'"
  by (auto simp: remembers_def gomap)

lemma remembers_madj:
  assumes "sm_sessions sm' = madj j f (sm_sessions sm)" "\<And>s. known_ids s \<subseteq> known_ids (f s)"
  shows "remembers sm sm'"
proof (rule remembers_mmap [OF assms(1) [unfolded madj_mmap]])
  show "known_ids s \<subseteq> known_ids (if k = j then f s else s)" for k s
    using assms(2) [of s] by (cases "k = j") auto
qed

lemma remembers_save: "remembers sm (sm_saveLocked sm)"
proof -
  have "known_ids s \<subseteq> known_ids (stripContinueSessionSentinel s)" for s
    by (auto simp: known_ids_def stripContinueSessionSentinel_def)
  then show ?thesis
    using sm_saveLocked_cases [of sm] remembers_mmap [of _ "\<lambda>_. stripContinueSessionSentinel" sm]
    by (auto intro: remembers_refl)
qed

lemma remembers_saved: "remembers sm sm' \<Longrightarrow> remembers sm (sm_saveLocked sm')"
  by (rule remembers_trans [OF _ remembers_save])

lemma remembers_fresh:
  "sm_wf sm \<Longrightarrow> sm_sessions sm' = mput (next_sid sm) s0 (sm_sessions sm) \<Longrightarrow> remembers sm sm'"
  using fresh_nextID [of sm] by (auto simp: remembers_def gomap sm_wf_def dest: mget_in_keys)

lemma known_ids_info: "known_ids s \<subseteq> known_ids ((MarkExplicitlyActivated now \<circ> SetAgentInfo a t n) s)"
  by (auto simp: known_ids_def MarkExplicitlyActivated_def SetAgentInfo_def recordPastAgentSessionID_def Let_def)

lemma remembers_activate: "remembers sm (activate now u p sm)"
proof (cases p)
  case (Pair sid s)
  show ?thesis unfolding Pair activate_def
    by (simp, rule remembers_saved, rule remembers_madj [of _ sid "MarkExplicitlyActivated now"])
      (auto simp: known_ids_def MarkExplicitlyActivated_def)
qed

lemma remembers_invalidate: "remembers sm (InvalidateForAgent t sm)"
proof -
  have "known_ids s \<subseteq> known_ids (invalidate_session t s)" for s
    by (auto simp: known_ids_def invalidate_session_def recordPastAgentSessionID_def)
  then have "remembers sm (sm\<lparr>sm_sessions := mmap (\<lambda>_. invalidate_session t) (sm_sessions sm)\<rparr>)"
    by (intro remembers_mmap [of _ "\<lambda>_. invalidate_session t"]) auto
  then show ?thesis by (simp add: InvalidateForAgent_def Let_def remembers_saved)
qed

lemma remembers_SwitchToAgent:
  assumes wf: "sm_wf sm"
  shows "remembers sm (fst (SwitchToAgentSession now u a t n sm))"
proof -
  let ?c = "fst (createLocked now u n sm)"
  have "remembers sm ?c" using wf by (rule remembers_fresh) (simp add: createLocked_register)
  moreover have "remembers ?c (?c\<lparr>sm_sessions :=
      madj (next_sid sm) (MarkExplicitlyActivated now \<circ> SetAgentInfo a t n) (sm_sessions ?c)\<rparr>)"
    by (rule remembers_madj) (auto intro: known_ids_info [THEN subsetD])
  ultimately have "remembers sm (?c\<lparr>sm_sessions :=
      madj (next_sid sm) (MarkExplicitlyActivated now \<circ> SetAgentInfo a t n) (sm_sessions ?c)\<rparr>)"
    by (rule remembers_trans)
  then show ?thesis
    by (auto simp: SwitchToAgentSession_def createLocked_register Let_def remembers_activate remembers_saved
        split: option.splits)
qed

text \<open>
  C10. No call but a deletion or a pruning makes the manager forget a session or an agent session ID
  it is known by: the session is still there and still recognises every earlier ID.
\<close>

theorem agent_session_ids_remembered:
  assumes wf: "sm_wf sm" and keeps: "\<not> deleting c"
  shows "remembers sm (sm_step c sm)"
proof -
  have create: "remembers sm (fst (createLocked now u n sm))" for now u n
    using wf by (rule remembers_fresh) (simp add: createLocked_register)
  have reg: "remembers sm (register now u n sm)" for now u n
    using wf by (rule remembers_fresh) simp
  have goc: "remembers sm (fst (GetOrCreateActive now u sm))" for now u
    using remembers_saved [OF create [of now u "''default''"]]
    by (simp add: GetOrCreateActive_def case_prod_unfold Let_def remembers_refl split: option.split)
  have new: "remembers sm (fst (NewSession now u n sm))" for now u n
    using remembers_saved [OF create [of now u n]] by (simp add: NewSession_def case_prod_unfold Let_def)
  have switch: "remembers sm (fst (SwitchSession now u t sm))" for now u t
    by (auto simp: SwitchSession_def remembers_activate remembers_refl split: option.split)
  have names: "remembers sm (SetSessionName a n sm)" for a n
    unfolding SetSessionName_def by (rule remembers_saved, rule remembers_refl) simp
  have meta: "remembers sm (UpdateUserMeta k n c sm)" for k n c
    by (rule remembers_refl) (simp add: UpdateUserMeta_def Let_def)
  have ses: "remembers sm (with_session i c sm)" for i c
    by (rule remembers_madj [of _ i "session_apply c"]) (simp_all add: with_session_def session_apply_known)
  show ?thesis
    using keeps goc new switch names meta ses remembers_saved [OF reg] remembers_save
      remembers_invalidate remembers_SwitchToAgent [OF wf]
    by (cases c) (simp_all add: NewSideSession_register Save_def)
qed

theorem agent_session_ids_remembered_witness:
  "remembers (NewSessionManager [] NoFile True) (sm_step (CInvalidateForAgent ''pi'') (NewSessionManager [] NoFile True))"
  by (rule agent_session_ids_remembered [OF sm_wf_new_empty]) simp

text \<open>
  C8. A session is processed by one turn at a time: whatever the interleaving of \<open>TryLock\<close> calls and of
  unlocks by holders, at most one caller holds the session, and the busy flag says whether one does.
\<close>

theorem turn_lock_mutual_exclusion:
  assumes "lock_run s 0 cs t m" and "\<not> s_busy s"
  shows "m \<le> 1 \<and> (s_busy t \<longleftrightarrow> m = 1)"
  using lock_run_holders [OF assms(1)] assms(2) by auto

theorem turn_lock_mutual_exclusion_witness:
  "s_busy ((new_session ''s1'' ''a'' 0)\<lparr>s_busy := True\<rparr>) \<longleftrightarrow> (1::nat) = 1"
proof -
  have "lock_run (new_session ''s1'' ''a'' 0) 0 ([] @ [Acquire]) ((new_session ''s1'' ''a'' 0)\<lparr>s_busy := True\<rparr>) (Suc 0)"
    by (rule lock_win [OF lock_nil]) (simp add: TryLock_def new_session_def)
  from turn_lock_mutual_exclusion [OF this] show ?thesis by (simp add: new_session_def)
qed

end
