(* ===== verification/Dedup.thy ===== *)
theory Dedup
  imports GoStrings
begin

text \<open>
  De-duplication of incoming messages (\<open>src/core/dedup.go\<close>): the IDs seen recently, each with the time it was
  first seen. A nil map is an empty one, since \<open>IsDuplicate\<close> creates it before use.
\<close>

definition DefaultDedupTTL :: duration where "DefaultDedupTTL = 60 * second"

record message_dedup =
  dd_seen :: "(string, time) gomap"
  dd_ttl :: duration

definition NewMessageDedup :: "duration \<Rightarrow> message_dedup" where
  "NewMessageDedup ttl = \<lparr>dd_seen = [], dd_ttl = (if ttl \<le> 0 then DefaultDedupTTL else ttl)\<rparr>"

text \<open>\<open>None\<close> is the nil receiver.\<close>

definition TTL :: "message_dedup option \<Rightarrow> duration" where
  "TTL d = (case d of None \<Rightarrow> 0 | Some d \<Rightarrow> if dd_ttl d \<le> 0 then DefaultDedupTTL else dd_ttl d)"

definition IsDuplicate :: "time \<Rightarrow> string \<Rightarrow> message_dedup option \<Rightarrow> message_dedup option \<times> bool" where
  "IsDuplicate now msgID d =
     (case d of
        None \<Rightarrow> (None, False)
      | Some m \<Rightarrow>
          if msgID = [] then (d, False)
          else let ttl = TTL d;
                   seen = filter (\<lambda>(k, t). \<not> (now - t > ttl)) (dd_seen m)
               in if mget seen msgID \<noteq> None then (Some (m\<lparr>dd_seen := seen\<rparr>), True)
                  else (Some (m\<lparr>dd_seen := mput msgID now seen\<rparr>), False))"

definition IsOldMessage :: "time \<Rightarrow> time \<Rightarrow> bool" where
  "IsOldMessage startTime msgTime \<longleftrightarrow> msgTime < startTime - 2 * second"

section \<open>Runs\<close>

text \<open>A stream of deliveries with its verdicts: the messages passed on, oldest first.\<close>

fun dedup_run :: "message_dedup option \<Rightarrow> (time \<times> string) list \<Rightarrow> message_dedup option \<times> (time \<times> string) list" where
  "dedup_run d [] = (d, [])"
| "dedup_run d ((now, i) # ms) =
     (case IsDuplicate now i d of (d', dup) \<Rightarrow>
        (case dedup_run d' ms of (d'', passed) \<Rightarrow> (d'', if dup then passed else (now, i) # passed)))"

definition seen_wf :: "time \<Rightarrow> message_dedup \<Rightarrow> bool" where
  "seen_wf t d \<longleftrightarrow> wf_map (dd_seen d) \<and> (\<forall>k ts. mget (dd_seen d) k = Some ts \<longrightarrow> ts \<le> t)"

lemma TTL_pos: "0 < TTL (Some d)"
  by (simp add: TTL_def DefaultDedupTTL_def second_def)

lemma IsDuplicate_ttl: "IsDuplicate now i (Some d) = (d', dup) \<Longrightarrow> TTL d' = TTL (Some d) \<and> d' \<noteq> None"
  by (auto simp: IsDuplicate_def TTL_def Let_def split: if_splits)

lemma get_recent:
  "wf_map m \<Longrightarrow> mget (filter (\<lambda>(k, t). now - t \<le> ttl) m) k =
     (case mget m k of Some t \<Rightarrow> if now - t \<le> ttl then Some t else None | None \<Rightarrow> None)"
  for ttl :: duration
  using mget_filter_keys [of m "\<lambda>_ t. now - t \<le> ttl" k] by (simp split: option.split)

text \<open>The verdict, and what the seen map holds afterwards.\<close>

lemma IsDuplicate_verdict:
  assumes "wf_map (dd_seen d)" "i \<noteq> []"
  shows "snd (IsDuplicate now i (Some d)) \<longleftrightarrow> (\<exists>t. mget (dd_seen d) i = Some t \<and> now - t \<le> TTL (Some d))"
  using assms by (auto simp: IsDuplicate_def Let_def get_recent not_less split: option.splits)

lemma IsDuplicate_seen:
  assumes "wf_map (dd_seen d)" "i \<noteq> []" "IsDuplicate now i (Some d) = (Some d', dup)"
  shows "wf_map (dd_seen d') \<and> mget (dd_seen d') k =
    (if k = i \<and> \<not> dup then Some now
     else case mget (dd_seen d) k of Some t \<Rightarrow> if now - t \<le> TTL (Some d) then Some t else None | None \<Rightarrow> None)"
  using assms by (auto simp: IsDuplicate_def Let_def not_less get_recent gomap wfm split: if_splits option.splits)

text \<open>
  What a delivery time and the seen map say about earlier deliveries: every ID passed on less than a
  TTL ago is in the map with the time it was passed on.
\<close>

definition covers :: "time \<Rightarrow> message_dedup \<Rightarrow> (time \<times> string) list \<Rightarrow> bool" where
  "covers t d passed \<longleftrightarrow> wf_map (dd_seen d)
     \<and> (\<forall>(ts, k) \<in> set passed. k \<noteq> [] \<longrightarrow> t - ts \<le> TTL (Some d) \<longrightarrow> (\<exists>u. mget (dd_seen d) k = Some u \<and> ts \<le> u))"

fun nondecreasing :: "time \<Rightarrow> (time \<times> string) list \<Rightarrow> bool" where
  "nondecreasing t [] = True"
| "nondecreasing t ((now, i) # ms) = (t \<le> now \<and> nondecreasing now ms)"

lemma covers_step:
  assumes c: "covers t d passed" and t: "t \<le> now" and old: "\<forall>(ts, k) \<in> set passed. ts \<le> t"
    and r: "IsDuplicate now i (Some d) = (Some d', dup)"
  shows "covers now d' (if dup then passed else passed @ [(now, i)])"
    and "\<not> dup \<Longrightarrow> i \<noteq> [] \<Longrightarrow> \<forall>(ts, k) \<in> set passed. k = i \<longrightarrow> now - ts > TTL (Some d)"
proof -
  have wf: "wf_map (dd_seen d)" using c by (simp add: covers_def)
  have ttl: "TTL (Some d') = TTL (Some d)" using IsDuplicate_ttl [OF r] by simp
  show "covers now d' (if dup then passed else passed @ [(now, i)])"
  proof (cases "i = []")
    case True
    then have "d' = d" "\<not> dup" using r by (auto simp: IsDuplicate_def)
    then show ?thesis using c t True by (fastforce simp: covers_def)
  next
    case False
    note s = IsDuplicate_seen [OF wf False r]
    have "\<exists>u. mget (dd_seen d') k = Some u \<and> ts \<le> u"
      if k: "(ts, k) \<in> set passed" "k \<noteq> []" "now - ts \<le> TTL (Some d)" for ts k
    proof -
      have "t - ts \<le> TTL (Some d)" using k t by simp
      then obtain u where u: "mget (dd_seen d) k = Some u" "ts \<le> u" using c k by (fastforce simp: covers_def)
      show ?thesis using s [of k] u k t old by (auto split: if_splits)
    qed
    moreover have "dup \<or> ts \<le> now" if "(ts, k) \<in> set passed" for ts k using that t old by auto
    moreover have "mget (dd_seen d') i = Some now" if "\<not> dup" using s [of i] that by simp
    ultimately have "\<exists>u. mget (dd_seen d') k = Some u \<and> ts \<le> u"
      if "(ts, k) \<in> set (if dup then passed else passed @ [(now, i)])" "k \<noteq> []" "now - ts \<le> TTL (Some d)" for ts k
      using that by (cases dup) (metis, auto)
    then show ?thesis using s unfolding covers_def ttl by blast
  qed
  show "\<forall>(ts, k) \<in> set passed. k = i \<longrightarrow> now - ts > TTL (Some d)" if nd: "\<not> dup" and i: "i \<noteq> []"
  proof (clarify, rule ccontr)
    fix ts
    assume p: "(ts, i) \<in> set passed" and "\<not> now - ts > TTL (Some d)"
    then have le: "t - ts \<le> TTL (Some d)" and le': "now - ts \<le> TTL (Some d)" using t by auto
    then obtain u where "mget (dd_seen d) i = Some u" "ts \<le> u" using c p i by (fastforce simp: covers_def)
    then have "snd (IsDuplicate now i (Some d))"
      using le' by (subst IsDuplicate_verdict [OF wf i]) (intro exI [of _ u], simp)
    then show False using r nd by simp
  qed
qed

text \<open>The messages of a stream passed on: two with the same ID are more than a TTL apart.\<close>

definition spaced :: "duration \<Rightarrow> (time \<times> string) list \<Rightarrow> bool" where
  "spaced ttl passed \<longleftrightarrow> (\<forall>i j. i < j \<longrightarrow> j < length passed \<longrightarrow> snd (passed ! i) = snd (passed ! j) \<longrightarrow>
     snd (passed ! j) \<noteq> [] \<longrightarrow> fst (passed ! j) - fst (passed ! i) > ttl)"

lemma spaced_snoc:
  "spaced ttl (xs @ [(now, i)]) \<longleftrightarrow> spaced ttl xs \<and> (i \<noteq> [] \<longrightarrow> (\<forall>(ts, k) \<in> set xs. k = i \<longrightarrow> now - ts > ttl))"
proof -
  have nth: "(xs @ [(now, i)]) ! a = xs ! a" if "a < length xs" for a using that by (simp add: nth_append)
  show ?thesis (is "?l = ?r")
  proof
    assume l: ?l
    have "spaced ttl xs"
      unfolding spaced_def
    proof (intro allI impI)
      fix a b
      assume "a < b" "b < length xs" "snd (xs ! a) = snd (xs ! b)" "snd (xs ! b) \<noteq> []"
      then show "fst (xs ! b) - fst (xs ! a) > ttl"
        using l [unfolded spaced_def, rule_format, of a b] nth by simp
    qed
    moreover have "now - ts > ttl" if i: "i \<noteq> []" and m: "(ts, i) \<in> set xs" for ts
    proof -
      obtain a where "a < length xs" "xs ! a = (ts, i)" using m by (auto simp: in_set_conv_nth)
      then show ?thesis using l [unfolded spaced_def, rule_format, of a "length xs"] nth i by simp
    qed
    ultimately show ?r by auto
  next
    assume r: ?r
    show ?l
      unfolding spaced_def
    proof (intro allI impI)
      fix a b
      assume ab: "a < b" "b < length (xs @ [(now, i)])"
        and eq: "snd ((xs @ [(now, i)]) ! a) = snd ((xs @ [(now, i)]) ! b)"
        and ne: "snd ((xs @ [(now, i)]) ! b) \<noteq> []"
      show "fst ((xs @ [(now, i)]) ! b) - fst ((xs @ [(now, i)]) ! a) > ttl"
      proof (cases "b = length xs")
        case True
        then have "xs ! a \<in> set xs" "snd (xs ! a) = i" "i \<noteq> []" using ab eq ne nth by auto
        then show ?thesis using r True ab nth by (cases "xs ! a") (auto simp: nth_append)
      next
        case False
        then show ?thesis using r ab eq ne nth by (auto simp: spaced_def)
      qed
    qed
  qed
qed

lemma dedup_run_spaced:
  assumes "covers t d passed" "\<forall>(ts, k) \<in> set passed. ts \<le> t" "spaced (TTL (Some d)) passed" "nondecreasing t ms"
  shows "spaced (TTL (Some d)) (passed @ snd (dedup_run (Some d) ms))"
  using assms
proof (induction ms arbitrary: t d passed)
  case (Cons m ms)
  obtain now i where m: "m = (now, i)" by force
  have t: "t \<le> now" and ms: "nondecreasing now ms" using Cons.prems(4) by (auto simp: m)
  obtain d' dup where r: "IsDuplicate now i (Some d) = (Some d', dup)"
    using IsDuplicate_ttl [of now i d] by (metis option.exhaust surj_pair)
  have ttl: "TTL (Some d') = TTL (Some d)" using IsDuplicate_ttl [OF r] by simp
  let ?p = "if dup then passed else passed @ [(now, i)]"
  have sp: "spaced (TTL (Some d')) ?p"
    using Cons.prems(3) covers_step(2) [OF Cons.prems(1) t Cons.prems(2) r] by (auto simp: ttl spaced_snoc)
  have "spaced (TTL (Some d')) (?p @ snd (dedup_run (Some d') ms))"
    by (rule Cons.IH [OF covers_step(1) [OF Cons.prems(1) t Cons.prems(2) r] _ sp ms])
      (use Cons.prems(2) t in \<open>fastforce split: if_splits\<close>)
  then show ?case by (simp add: m r ttl case_prod_unfold split: if_splits)
qed simp

section \<open>Properties\<close>

text \<open>
  A message ID delivered again within the TTL of the delivery that was passed on is recognised as a
  duplicate: of any stream, two messages passed on with the same ID are more than a TTL apart.
\<close>

theorem dedup_passes_once_per_ttl:
  assumes "nondecreasing t ms"
  shows "spaced (TTL (Some (NewMessageDedup ttl))) (snd (dedup_run (Some (NewMessageDedup ttl)) ms))"
  using dedup_run_spaced [of t "NewMessageDedup ttl" "[]" ms] assms
  by (simp add: covers_def spaced_def NewMessageDedup_def)

theorem dedup_passes_once_per_ttl_witness:
  "spaced 5 (snd (dedup_run (Some (NewMessageDedup 5)) [(1, ''a''), (3, ''a''), (7, ''a'')]))"
  using dedup_passes_once_per_ttl [of 0 "[(1, ''a''), (3, ''a''), (7, ''a'')]" 5]
  by (simp add: TTL_def NewMessageDedup_def)

text \<open>
  And no other message is held back: a message whose ID was not passed on within the last TTL, or has no
  ID, is passed on, and repeats do not extend the window.
\<close>

theorem dedup_verdict:
  assumes "wf_map (dd_seen d)" and "IsDuplicate now i (Some d) = (Some d', dup)"
  shows "(dup \<longleftrightarrow> i \<noteq> [] \<and> (\<exists>t. mget (dd_seen d) i = Some t \<and> now - t \<le> TTL (Some d)))
    \<and> (dup \<longrightarrow> mget (dd_seen d') i = mget (dd_seen d) i)"
proof (cases "i = []")
  case True
  then show ?thesis using assms(2) by (simp add: IsDuplicate_def)
next
  case False
  have "dup \<longleftrightarrow> (\<exists>t. mget (dd_seen d) i = Some t \<and> now - t \<le> TTL (Some d))"
    using IsDuplicate_verdict [OF assms(1) False, of now] assms(2) by simp
  then show ?thesis
    using False IsDuplicate_seen [OF assms(1) False assms(2), of i] by auto
qed

theorem dedup_verdict_witness:
  "IsDuplicate 7 ''a'' (Some \<lparr>dd_seen = [(''a'', 3)], dd_ttl = 5\<rparr>) = (Some \<lparr>dd_seen = [(''a'', 3)], dd_ttl = 5\<rparr>, True)
   \<and> mget [(''a'', 3 :: time)] ''a'' = Some 3"
proof -
  have r: "IsDuplicate 7 ''a'' (Some \<lparr>dd_seen = [(''a'', 3)], dd_ttl = 5\<rparr>) = (Some \<lparr>dd_seen = [(''a'', 3)], dd_ttl = 5\<rparr>, True)"
    by code_simp
  show ?thesis using dedup_verdict [OF _ r] r by simp
qed

end
