(* ===== verification/CommandTable.thy ===== *)
theory CommandTable
  imports GoStrings
begin

text \<open>
  The table of built-in commands of \<open>src/core/engine.go\<close>, the prefix matching that resolves what a user
  typed, and the resolution of a list of disabled commands.
\<close>

type_synonym command_table = "(string list \<times> string) list"

definition builtinCommands :: command_table where
  "builtinCommands =
    [([''new''], ''new''), ([''next''], ''next''), ([''list'', ''sessions''], ''list''), ([''switch''], ''switch''),
     ([''name'', ''rename''], ''name''), ([''current''], ''current''), ([''status''], ''status''),
     ([''usage'', ''quota''], ''usage''), ([''history''], ''history''), ([''allow''], ''allow''), ([''model''], ''model''),
     ([''reasoning'', ''effort''], ''reasoning''), ([''mode''], ''mode''), ([''preset'', ''presets''], ''preset''),
     ([''lang''], ''lang''), ([''quiet''], ''quiet''), ([''provider''], ''provider''), ([''memory''], ''memory''),
     ([''cron''], ''cron''), ([''timer'', ''at'', ''remind''], ''timer''), ([''heartbeat'', ''hb''], ''heartbeat''),
     ([''compress'', ''compact''], ''compress''), ([''stop''], ''stop''), ([''cancel''], ''cancel''), ([''help''], ''help''),
     ([''start''], ''start''), ([''version''], ''version''), ([''commands'', ''command'', ''cmd''], ''commands''),
     ([''skills'', ''skill''], ''skills''), ([''config''], ''config''), ([''doctor''], ''doctor''),
     ([''upgrade'', ''update''], ''upgrade''), ([''restart''], ''restart''), ([''alias''], ''alias''),
     ([''delete'', ''del'', ''rm''], ''delete''), ([''bind''], ''bind''), ([''search'', ''find''], ''search''),
     ([''shell'', ''sh'', ''exec'', ''run''], ''shell''), ([''show''], ''show''),
     ([''dir'', ''cd'', ''chdir'', ''workdir''], ''dir''), ([''tts''], ''tts''), ([''workspace'', ''ws''], ''workspace''),
     ([''whoami'', ''myid''], ''whoami''), ([''web''], ''web''), ([''diff''], ''diff''), ([''inject''], ''inject''),
     ([''ps'', ''btw''], ''ps'')]"

text \<open>The two passes of \<open>matchPrefix\<close>; the empty string is "no match" and "ambiguous".\<close>

fun exact_command :: "string \<Rightarrow> command_table \<Rightarrow> string option" where
  "exact_command p [] = None"
| "exact_command p ((names, i) # cs) = (if p \<in> set names then Some i else exact_command p cs)"

fun prefix_command :: "string \<Rightarrow> string \<Rightarrow> command_table \<Rightarrow> string" where
  "prefix_command p matched [] = matched"
| "prefix_command p matched ((names, i) # cs) =
     (if list_ex (\<lambda>n. has_prefix n p) names
      then if matched \<noteq> [] \<and> matched \<noteq> i then [] else prefix_command p i cs
      else prefix_command p matched cs)"

definition matchPrefix :: "string \<Rightarrow> command_table \<Rightarrow> string" where
  "matchPrefix p cs = (case exact_command p cs of Some i \<Rightarrow> i | None \<Rightarrow> prefix_command p [] cs)"

fun exact_sub :: "string \<Rightarrow> string list \<Rightarrow> bool" where
  "exact_sub p [] = False"
| "exact_sub p (c # cs) = (p = c \<or> exact_sub p cs)"

fun prefix_sub :: "string \<Rightarrow> string \<Rightarrow> string list \<Rightarrow> string" where
  "prefix_sub p matched [] = (if matched \<noteq> [] then matched else p)"
| "prefix_sub p matched (c # cs) =
     (if has_prefix c p then if matched \<noteq> [] then p else prefix_sub p c cs
      else prefix_sub p matched cs)"

definition matchSubCommand :: "string \<Rightarrow> string list \<Rightarrow> string" where
  "matchSubCommand p cs = (if exact_sub p cs then p else prefix_sub p [] cs)"

fun disable_cmds :: "string list \<Rightarrow> (string, bool) gomap \<Rightarrow> (string, bool) gomap" where
  "disable_cmds [] m = m"
| "disable_cmds (c # cs) m =
     (let c = to_lower (trim_prefix c ''/'')
      in if c = ''*'' then fold (\<lambda>(_, i) m. mput i True m) builtinCommands m
         else let i = matchPrefix c builtinCommands
              in disable_cmds cs (mput (if i \<noteq> [] then i else c) True m))"

definition resolveDisabledCmds :: "string list \<Rightarrow> (string, bool) gomap" where
  "resolveDisabledCmds cmds = disable_cmds cmds []"

section \<open>Matching\<close>

lemma exact_sub_set: "exact_sub p cs \<longleftrightarrow> p \<in> set cs"
  by (induction cs) auto

text \<open>No name of a built-in command is shadowed by another entry: each resolves to its own ID.\<close>

lemma builtin_names_resolve: "list_all (\<lambda>(names, i). i \<noteq> [] \<and> list_all (\<lambda>n. matchPrefix n builtinCommands = i) names) builtinCommands"
  by code_simp

lemma builtin_name_resolves: "(names, i) \<in> set builtinCommands \<Longrightarrow> n \<in> set names \<Longrightarrow> i \<noteq> [] \<and> matchPrefix n builtinCommands = i"
  using builtin_names_resolve by (auto simp: list_all_iff)

text \<open>A prefix is resolved only when every entry it fits has one ID.\<close>

lemma prefix_command_unique:
  "prefix_command p m cs = i \<Longrightarrow> i \<noteq> [] \<Longrightarrow> (m \<noteq> [] \<longrightarrow> m = i) \<and>
     (\<forall>(names, j) \<in> set cs. (\<exists>n \<in> set names. has_prefix n p) \<longrightarrow> j = i \<or> j = [])"
  by (induction p m cs rule: prefix_command.induct) (auto simp: list_ex_iff split: if_splits)

lemma matchPrefix_sound:
  assumes "matchPrefix p cs = i" "i \<noteq> []"
  shows "\<exists>names. (names, i) \<in> set cs \<and> (\<exists>n \<in> set names. has_prefix n p)"
proof (cases "exact_command p cs")
  case (Some j)
  have "exact_command p cs = Some j \<Longrightarrow> \<exists>names. (names, j) \<in> set cs \<and> p \<in> set names" for cs
    by (induction cs) (auto split: if_splits)
  then obtain names where "(names, j) \<in> set cs" "p \<in> set names" using Some by blast
  moreover have "j = i" using Some assms(1) by (simp add: matchPrefix_def)
  moreover have "has_prefix p p" by (simp add: has_prefix_def)
  ultimately show ?thesis by blast
next
  case None
  have "prefix_command p m cs = i \<Longrightarrow> i = m \<or> (\<exists>names. (names, i) \<in> set cs \<and> (\<exists>n \<in> set names. has_prefix n p))" for m
    using assms(2)
    by (induction p m cs rule: prefix_command.induct) (auto simp: list_ex_iff split: if_splits)
  then show ?thesis using None assms by (auto simp: matchPrefix_def)
qed

section \<open>Disabled commands\<close>

lemma wf_disable_cmds [wfm]: "wf_map m \<Longrightarrow> wf_map (disable_cmds cs m)"
proof (induction cs m rule: disable_cmds.induct)
  case (2 c cs m)
  have "wf_map m \<Longrightarrow> wf_map (fold (\<lambda>(_, i) m. mput i True m) t m)" for t :: command_table and m
    by (induction t arbitrary: m) (auto simp: wfm)
  then show ?case using 2 by (simp add: Let_def wfm)
qed simp

lemma disable_all: "mget (fold (\<lambda>(_, i) m. mput i True m) t m) j = (if j \<in> snd ` set t then Some True else mget m j)"
  for t :: command_table
  by (induction t arbitrary: m) (auto simp: gomap)

lemma disable_cmds_keeps: "mget m j = Some True \<Longrightarrow> mget (disable_cmds cs m) j = Some True"
  by (induction cs m rule: disable_cmds.induct) (simp_all add: Let_def disable_all gomap)

lemma disable_cmds_name:
  assumes "c \<in> set cs" "(names, i) \<in> set builtinCommands" "to_lower (trim_prefix c ''/'') \<in> set names"
  shows "mget (disable_cmds cs m) i = Some True"
  using assms(1)
proof (induction cs m rule: disable_cmds.induct)
  case (2 c' cs m)
  let ?c = "to_lower (trim_prefix c' ''/'')"
  show ?case
  proof (cases "?c = ''*''")
    case True
    then show ?thesis using assms(2) by (force simp: disable_all)
  next
    case False
    show ?thesis
    proof (cases "c = c'")
      case True
      then have "matchPrefix ?c builtinCommands = i" "i \<noteq> []" using builtin_name_resolves [OF assms(2,3)] by auto
      then show ?thesis using False by (simp add: Let_def disable_cmds_keeps gomap)
    next
      case neq: False
      then show ?thesis using 2 False by (simp add: Let_def)
    qed
  qed
qed simp

lemma disable_cmds_wildcard:
  assumes "c \<in> set cs" "to_lower (trim_prefix c ''/'') = ''*''" "i \<in> snd ` set builtinCommands"
  shows "mget (disable_cmds cs m) i = Some True"
  using assms(1)
proof (induction cs m rule: disable_cmds.induct)
  case (2 c' cs m)
  show ?case
  proof (cases "to_lower (trim_prefix c' ''/'') = ''*''")
    case True
    then show ?thesis using assms(3) by (auto simp: disable_all)
  next
    case False
    then have "c \<noteq> c'" using assms(2) by auto
    then show ?thesis using 2 False by (simp add: Let_def)
  qed
qed simp

text \<open>
  A built-in command is disabled by any of its names, in any case and with or without the slash, and by
  the wildcard, wherever they stand in the list.
\<close>

theorem disabled_by_any_name:
  assumes "(names, i) \<in> set builtinCommands" and "c \<in> set cmds"
    and "to_lower (trim_prefix c ''/'') \<in> insert ''*'' (set names)"
  shows "mget (resolveDisabledCmds cmds) i = Some True"
proof (cases "to_lower (trim_prefix c ''/'') = ''*''")
  case True
  then show ?thesis
    unfolding resolveDisabledCmds_def using assms by (intro disable_cmds_wildcard) force+
next
  case False
  then show ?thesis
    unfolding resolveDisabledCmds_def using assms by (intro disable_cmds_name) auto
qed

theorem disabled_by_any_name_witness:
  "mget (resolveDisabledCmds [''foo'', ''/Sh'']) ''shell'' = Some True"
proof (rule disabled_by_any_name)
  show "([''shell'', ''sh'', ''exec'', ''run''], ''shell'') \<in> set builtinCommands" by (simp add: builtinCommands_def)
  show "''/Sh'' \<in> set [''foo'', ''/Sh'']" by simp
  show "to_lower (trim_prefix ''/Sh'' ''/'') \<in> insert ''*'' (set [''shell'', ''sh'', ''exec'', ''run''])" by code_simp
qed

end
