(* ===== verification/RateLimit.thy ===== *)
theory RateLimit
  imports GoStrings
begin

text \<open>
  The sliding-window limiter for incoming messages (\<open>src/core/ratelimit.go\<close>) and the classification
  of agent errors that are worth a retry (\<open>src/core/rate_limit.go\<close>). Times are milliseconds since the
  Unix epoch, as in the code. The background goroutine's clean-up of idle buckets is an operation of its own,
  so that it can happen between any two calls.
\<close>

record rate_bucket =
  rb_timestamps :: "int list"
  rb_lastAccess :: int

record rate_limiter =
  rl_buckets :: "(string, rate_bucket) gomap"
  rl_maxMessages :: int
  rl_windowMs :: int
  rl_stopped :: bool

text \<open>\<open>Duration.Milliseconds\<close> truncates towards zero; a window is not negative.\<close>

definition NewRateLimiter :: "int \<Rightarrow> duration \<Rightarrow> rate_limiter" where
  "NewRateLimiter maxMessages window =
     \<lparr>rl_buckets = [], rl_maxMessages = maxMessages,
      rl_windowMs = go_div window 1000000, rl_stopped = False\<rparr>"

definition rl_Stop :: "rate_limiter \<Rightarrow> rate_limiter" where
  "rl_Stop rl = rl\<lparr>rl_stopped := True\<rparr>"

definition Allow :: "int \<Rightarrow> string \<Rightarrow> rate_limiter \<Rightarrow> rate_limiter \<times> bool" where
  "Allow now key rl =
     (if rl_maxMessages rl \<le> 0 then (rl, True)
      else let b = mget_or \<lparr>rb_timestamps = [], rb_lastAccess = 0\<rparr> (rl_buckets rl) key;
               cutoff = now - rl_windowMs rl;
               filtered = filter (\<lambda>ts. ts > cutoff) (rb_timestamps b)
           in if int (length filtered) \<ge> rl_maxMessages rl
              then (rl\<lparr>rl_buckets := mput key \<lparr>rb_timestamps = filtered, rb_lastAccess = now\<rparr> (rl_buckets rl)\<rparr>, False)
              else (rl\<lparr>rl_buckets := mput key \<lparr>rb_timestamps = filtered @ [now], rb_lastAccess = now\<rparr> (rl_buckets rl)\<rparr>, True))"

text \<open>One tick of \<open>cleanupLoop\<close>; after \<open>Stop\<close> the loop has returned.\<close>

definition cleanup :: "int \<Rightarrow> rate_limiter \<Rightarrow> rate_limiter" where
  "cleanup now rl =
     (if rl_stopped rl \<or> rl_maxMessages rl \<le> 0 then rl
      else rl\<lparr>rl_buckets := filter (\<lambda>(k, b). \<not> (now - rb_lastAccess b > rl_windowMs rl * 2)) (rl_buckets rl)\<rparr>)"

section \<open>The contract of a sliding-window limiter\<close>

text \<open>
  What a limiter promises, without buckets and clean-up: a message is accepted if and only if fewer than
  \<open>n\<close> messages of its key were accepted in the window ending now. A run interleaves calls with clean-up ticks
  and logs the accepted messages.
\<close>

definition accepted_of :: "string \<Rightarrow> (string \<times> int) list \<Rightarrow> int list" where
  "accepted_of k log = map snd (filter (\<lambda>(k', _). k' = k) log)"

definition spec_allow :: "int \<Rightarrow> int \<Rightarrow> int \<Rightarrow> int list \<Rightarrow> bool" where
  "spec_allow n w now accepted \<longleftrightarrow> int (length (filter (\<lambda>ts. ts > now - w) accepted)) < n"

datatype rl_event = EAllow int string | ECleanup int | EStop

fun rl_run :: "(int \<Rightarrow> string \<Rightarrow> 's \<Rightarrow> 's \<times> bool) \<Rightarrow> (int \<Rightarrow> 's \<Rightarrow> 's) \<Rightarrow> ('s \<Rightarrow> 's) \<Rightarrow>
    's \<times> (string \<times> int) list \<Rightarrow> rl_event list \<Rightarrow> 's \<times> (string \<times> int) list" where
  "rl_run allow tick stop st [] = st"
| "rl_run allow tick stop (s, log) (EAllow now k # es) =
     (case allow now k s of (s', ok) \<Rightarrow> rl_run allow tick stop (s', if ok then log @ [(k, now)] else log) es)"
| "rl_run allow tick stop (s, log) (ECleanup now # es) = rl_run allow tick stop (tick now s, log) es"
| "rl_run allow tick stop (s, log) (EStop # es) = rl_run allow tick stop (stop s, log) es"

text \<open>Events come with times that never go back.\<close>

fun times_from :: "int \<Rightarrow> rl_event list \<Rightarrow> bool" where
  "times_from t [] = True"
| "times_from t (EAllow now k # es) = (t \<le> now \<and> times_from now es)"
| "times_from t (ECleanup now # es) = (t \<le> now \<and> times_from now es)"
| "times_from t (EStop # es) = times_from t es"

fun end_time :: "int \<Rightarrow> rl_event list \<Rightarrow> int" where
  "end_time t [] = t"
| "end_time t (EAllow now k # es) = end_time now es"
| "end_time t (ECleanup now # es) = end_time now es"
| "end_time t (EStop # es) = end_time t es"

lemma accepted_of_append [simp]:
  "accepted_of k (log @ [(k', t)]) = accepted_of k log @ (if k' = k then [t] else [])"
  by (simp add: accepted_of_def)

lemma accepted_in_log: "ts \<in> set (accepted_of k log) \<longleftrightarrow> (k, ts) \<in> set log"
  by (force simp: accepted_of_def)

text \<open>
  The bound for one key: if every message was accepted by the specification given the ones before it, and
  their times do not go back, then no window of length \<open>w\<close> holds more than \<open>n\<close> of them.
\<close>

lemma window_bound_snoc:
  fixes x :: int
  assumes "\<forall>T. int (length (filter (\<lambda>ts. T - w < ts \<and> ts \<le> T) xs)) \<le> n"
    and "spec_allow n w x xs" and "\<forall>ts \<in> set xs. ts \<le> x"
  shows "int (length (filter (\<lambda>ts. T - w < ts \<and> ts \<le> T) (xs @ [x]))) \<le> n"
proof (cases "T - w < x \<and> x \<le> T")
  case True
  have "length (filter (\<lambda>ts. T - w < ts \<and> ts \<le> T) xs) \<le> length (filter (\<lambda>ts. ts > x - w) xs)"
    using True by (induction xs) auto
  then show ?thesis using True assms(2) by (simp add: spec_allow_def)
next
  case False
  then show ?thesis using assms(1) by auto
qed

locale window_limiter =
  fixes allow :: "int \<Rightarrow> string \<Rightarrow> 's \<Rightarrow> 's \<times> bool"
    and tick :: "int \<Rightarrow> 's \<Rightarrow> 's"
    and stop :: "'s \<Rightarrow> 's"
    and rel :: "int \<Rightarrow> 's \<Rightarrow> (string \<times> int) list \<Rightarrow> bool"
    and n w :: int
  assumes allow_decides: "rel t s log \<Longrightarrow> t \<le> now \<Longrightarrow> snd (allow now k s) = spec_allow n w now (accepted_of k log)"
    and allow_rel: "rel t s log \<Longrightarrow> t \<le> now \<Longrightarrow>
      rel now (fst (allow now k s)) (if snd (allow now k s) then log @ [(k, now)] else log)"
    and tick_rel: "rel t s log \<Longrightarrow> t \<le> now \<Longrightarrow> rel now (tick now s) log"
    and stop_rel: "rel t s log \<Longrightarrow> rel t (stop s) log"
    and rel_log: "rel t s log \<Longrightarrow> (k, ts) \<in> set log \<Longrightarrow> ts \<le> t"
begin

lemma run_rel:
  "rel t s log \<Longrightarrow> times_from t es \<Longrightarrow> rl_run allow tick stop (s, log) es = (s', log') \<Longrightarrow> rel (end_time t es) s' log'"
proof (induction es arbitrary: t s log)
  case (Cons e es)
  show ?case
  proof (cases e)
    case (EAllow now k)
    then show ?thesis
      using Cons allow_rel [of t s log now k] by (auto simp: case_prod_unfold)
  next
    case (ECleanup now)
    then show ?thesis using Cons tick_rel [of t s log now] by auto
  next
    case EStop
    then show ?thesis using Cons stop_rel [of t s log] by auto
  qed
qed simp

text \<open>Whatever happened before, the next decision is the one of the specification.\<close>

lemma run_decides:
  "rel t s log \<Longrightarrow> times_from t es \<Longrightarrow> rl_run allow tick stop (s, log) es = (s', log') \<Longrightarrow> end_time t es \<le> now \<Longrightarrow>
   snd (allow now k s') = spec_allow n w now (accepted_of k log')"
  by (rule allow_decides [OF run_rel])

abbreviation within :: "string \<Rightarrow> (string \<times> int) list \<Rightarrow> bool" where
  "within k log \<equiv> \<forall>T. int (length (filter (\<lambda>ts. T - w < ts \<and> ts \<le> T) (accepted_of k log))) \<le> n"

lemma allow_bound:
  assumes "rel t s log" "t \<le> now" "within k log"
  shows "within k (if snd (allow now j s) then log @ [(j, now)] else log)"
proof -
  have "\<forall>ts \<in> set (accepted_of k log). ts \<le> now"
    using rel_log [OF assms(1)] assms(2) by (force simp: accepted_in_log)
  moreover have "snd (allow now k s) \<longleftrightarrow> spec_allow n w now (accepted_of k log)"
    by (rule allow_decides [OF assms(1,2)])
  ultimately show ?thesis using window_bound_snoc [OF assms(3), of now] assms(3) by auto
qed

lemma run_bound:
  assumes "rel t s log" "times_from t es" "rl_run allow tick stop (s, log) es = (s', log')" "within k log"
  shows "int (length (filter (\<lambda>ts. T - w < ts \<and> ts \<le> T) (accepted_of k log'))) \<le> n"
  using assms
proof (induction es arbitrary: t s log)
  case (Cons e es)
  show ?case
  proof (cases e)
    case (EAllow now j)
    have le: "t \<le> now" and more: "times_from now es" using Cons.prems(2) EAllow by auto
    show ?thesis
      using Cons.IH [OF allow_rel [OF Cons.prems(1) le, of j] more] Cons.prems(3) EAllow
        allow_bound [OF Cons.prems(1) le Cons.prems(4), of j]
      by (simp add: case_prod_unfold)
  next
    case (ECleanup now)
    then show ?thesis using Cons.IH [OF tick_rel [OF Cons.prems(1)]] Cons.prems by auto
  next
    case EStop
    then show ?thesis using Cons.IH [OF stop_rel [OF Cons.prems(1)]] Cons.prems by auto
  qed
qed simp

end

section \<open>The limiter keeps the contract\<close>

text \<open>
  The bucket of a key agrees with the log on every timestamp that can still count: the limiter may have
  forgotten older ones, by filtering or by dropping the bucket.
\<close>

abbreviation bucket_ts :: "rate_limiter \<Rightarrow> string \<Rightarrow> int list" where
  "bucket_ts rl k \<equiv> rb_timestamps (mget_or \<lparr>rb_timestamps = [], rb_lastAccess = 0\<rparr> (rl_buckets rl) k)"

definition rl_rel :: "int \<Rightarrow> int \<Rightarrow> int \<Rightarrow> rate_limiter \<Rightarrow> (string \<times> int) list \<Rightarrow> bool" where
  "rl_rel n w t rl log \<longleftrightarrow> wf_map (rl_buckets rl) \<and> rl_maxMessages rl = n \<and> rl_windowMs rl = w \<and> 0 < n \<and> 0 \<le> w
     \<and> (\<forall>k. filter (\<lambda>ts. ts > t - w) (bucket_ts rl k) = filter (\<lambda>ts. ts > t - w) (accepted_of k log))
     \<and> (\<forall>k b. mget (rl_buckets rl) k = Some b \<longrightarrow> (\<forall>ts \<in> set (rb_timestamps b). ts \<le> rb_lastAccess b))
     \<and> (\<forall>(k, ts) \<in> set log. ts \<le> t)"

lemma filter_later:
  fixes t :: int
  assumes "filter (\<lambda>ts. ts > t - w) xs = filter (\<lambda>ts. ts > t - w) ys" "t \<le> t'"
  shows "filter (\<lambda>ts. ts > t' - w) xs = filter (\<lambda>ts. ts > t' - w) ys"
proof -
  have "filter (\<lambda>ts. ts > t' - w) zs = filter (\<lambda>ts. ts > t' - w) (filter (\<lambda>ts. ts > t - w) zs)" for zs
    using assms(2) by (auto intro: filter_cong)
  then show ?thesis using assms(1) by metis
qed

lemma rl_rel_later:
  assumes "rl_rel n w t rl log" "t \<le> t'"
  shows "rl_rel n w t' rl log"
proof -
  have "filter (\<lambda>ts. ts > t' - w) (bucket_ts rl k) = filter (\<lambda>ts. ts > t' - w) (accepted_of k log)" for k
    by (rule filter_later [OF _ assms(2)]) (use assms(1) in \<open>simp add: rl_rel_def\<close>)
  moreover have "\<forall>(k, ts) \<in> set log. ts \<le> t'" using assms by (auto simp: rl_rel_def)
  ultimately show ?thesis using assms(1) by (simp add: rl_rel_def)
qed

lemma Allow_decides:
  assumes "rl_rel n w t rl log" "t \<le> now"
  shows "snd (Allow now k rl) = spec_allow n w now (accepted_of k log)"
  using rl_rel_later [OF assms] by (simp add: rl_rel_def Allow_def spec_allow_def Let_def not_le)

lemma Allow_rel:
  assumes "rl_rel n w t rl log" "t \<le> now" and old: "\<forall>ts \<in> set (bucket_ts rl k). ts \<le> now"
  shows "rl_rel n w now (fst (Allow now k rl)) (if snd (Allow now k rl) then log @ [(k, now)] else log)"
proof -
  have r: "rl_rel n w now rl log" by (rule rl_rel_later [OF assms(1,2)])
  let ?f = "filter (\<lambda>ts. ts > now - w) (bucket_ts rl k)"
  let ?ok = "snd (Allow now k rl)"
  let ?b = "\<lparr>rb_timestamps = (if ?ok then ?f @ [now] else ?f), rb_lastAccess = now\<rparr>"
  have al: "fst (Allow now k rl) = rl\<lparr>rl_buckets := mput k ?b (rl_buckets rl)\<rparr>"
    using r by (auto simp: rl_rel_def Allow_def Let_def)
  show ?thesis
    unfolding al using r old by (auto simp: rl_rel_def gomap wfm accepted_in_log split: if_splits)
qed

lemma bucket_ts_bound:
  assumes "\<forall>k b. mget (rl_buckets rl) k = Some b \<longrightarrow> rb_lastAccess b \<le> t" "rl_rel n w t rl log" "ts \<in> set (bucket_ts rl k)"
  shows "ts \<le> t"
  using assms by (cases "mget (rl_buckets rl) k") (force simp: rl_rel_def mget_or_def)+

text \<open>Times of access do not lie in the future either.\<close>

definition rl_inv :: "int \<Rightarrow> int \<Rightarrow> int \<Rightarrow> rate_limiter \<Rightarrow> (string \<times> int) list \<Rightarrow> bool" where
  "rl_inv n w t rl log \<longleftrightarrow> rl_rel n w t rl log \<and> (\<forall>k b. mget (rl_buckets rl) k = Some b \<longrightarrow> rb_lastAccess b \<le> t)"

lemma Allow_inv:
  assumes "rl_inv n w t rl log" "t \<le> now"
  shows "rl_inv n w now (fst (Allow now k rl)) (if snd (Allow now k rl) then log @ [(k, now)] else log)"
proof -
  have "\<forall>ts \<in> set (bucket_ts rl k). ts \<le> now"
    using assms bucket_ts_bound [of rl t n w log] by (force simp: rl_inv_def)
  then have "rl_rel n w now (fst (Allow now k rl)) (if snd (Allow now k rl) then log @ [(k, now)] else log)"
    using assms by (intro Allow_rel) (auto simp: rl_inv_def)
  moreover have "\<forall>j b. mget (rl_buckets (fst (Allow now k rl))) j = Some b \<longrightarrow> rb_lastAccess b \<le> now"
    using assms by (fastforce simp: rl_inv_def Allow_def Let_def gomap split: if_splits)
  ultimately show ?thesis by (simp add: rl_inv_def)
qed

lemma cleanup_inv:
  assumes inv: "rl_inv n w t rl log" and t: "t \<le> now"
  shows "rl_inv n w now (cleanup now rl) log"
proof (cases "rl_stopped rl")
  case True
  then show ?thesis using inv t rl_rel_later [OF _ t] by (fastforce simp: cleanup_def rl_inv_def)
next
  case False
  have r: "rl_rel n w now rl log" using inv t by (auto simp: rl_inv_def intro: rl_rel_later)
  let ?P = "\<lambda>(k :: string, b). \<not> (now - rb_lastAccess b > w * 2)"
  let ?m = "filter ?P (rl_buckets rl)"
  have cl: "cleanup now rl = rl\<lparr>rl_buckets := ?m\<rparr>"
    using False r by (auto simp: cleanup_def rl_rel_def)
  have wf: "wf_map (rl_buckets rl)" using r by (simp add: rl_rel_def)
  have get: "mget ?m k = (case mget (rl_buckets rl) k of
      Some b \<Rightarrow> if now - rb_lastAccess b > w * 2 then None else Some b | None \<Rightarrow> None)" for k
    using mget_filter_keys [OF wf, of "\<lambda>_ b. \<not> (now - rb_lastAccess b > w * 2)" k] by (simp split: option.split)
  have same: "filter (\<lambda>ts. ts > now - w) (rb_timestamps (mget_or \<lparr>rb_timestamps = [], rb_lastAccess = 0\<rparr> ?m k))
      = filter (\<lambda>ts. ts > now - w) (bucket_ts rl k)" for k
  proof (cases "mget (rl_buckets rl) k")
    case (Some b)
    show ?thesis
    proof (cases "now - rb_lastAccess b > w * 2")
      case True
      have "\<forall>ts \<in> set (rb_timestamps b). ts \<le> rb_lastAccess b" and "0 \<le> w" using r Some by (auto simp: rl_rel_def)
      then have "filter (\<lambda>ts. ts > now - w) (rb_timestamps b) = []"
        using True by (force simp: filter_empty_conv)
      then show ?thesis using Some True by (simp add: mget_or_def get)
    qed (simp add: Some mget_or_def get)
  qed (simp add: mget_or_def get)
  have "rl_rel n w now (cleanup now rl) log"
    unfolding cl rl_rel_def using r same by (auto simp: rl_rel_def get wfm split: option.splits if_splits)
  moreover have "\<forall>k b. mget ?m k = Some b \<longrightarrow> rb_lastAccess b \<le> now"
    using inv t by (fastforce simp: rl_inv_def get split: option.splits if_splits)
  ultimately show ?thesis by (simp add: rl_inv_def cl)
qed

interpretation lim: window_limiter Allow cleanup rl_Stop "rl_inv n w" n w for n w
proof unfold_locales
  fix t now :: int and s log k ts
  show "snd (Allow now k s) = spec_allow n w now (accepted_of k log)" if "rl_inv n w t s log" "t \<le> now"
    by (rule Allow_decides [of n w t]) (use that in \<open>auto simp: rl_inv_def\<close>)
  show "rl_inv n w now (fst (Allow now k s)) (if snd (Allow now k s) then log @ [(k, now)] else log)"
    if "rl_inv n w t s log" "t \<le> now" by (rule Allow_inv [OF that])
  show "rl_inv n w now (cleanup now s) log" if "rl_inv n w t s log" "t \<le> now" by (rule cleanup_inv [OF that])
  show "rl_inv n w t (rl_Stop s) log" if "rl_inv n w t s log" using that by (simp add: rl_inv_def rl_rel_def rl_Stop_def)
  show "ts \<le> t" if "rl_inv n w t s log" "(k, ts) \<in> set log" using that by (auto simp: rl_inv_def rl_rel_def)
qed

lemma NewRateLimiter_inv:
  "0 < n \<Longrightarrow> 0 \<le> d \<Longrightarrow> rl_inv n (rl_windowMs (NewRateLimiter n d)) t (NewRateLimiter n d) []"
  by (auto simp: rl_inv_def rl_rel_def NewRateLimiter_def mget_or_def accepted_of_def)

section \<open>Error classification\<close>

text \<open>
  \<open>json.Unmarshal\<close> into \<open>map[string]any\<close> is the argument \<open>unmarshal\<close>: the decoded object, or \<open>None\<close> for an
  error. The decoded values are those of \<open>encoding/json\<close>.
\<close>

datatype json = JNull | JBool bool | JNum int | JStr string | JArr "json list" | JObj "(string \<times> json) list"

datatype error_kind = ErrorKindUnknown | ErrorKindRateLimit | ErrorKindOverloaded | ErrorKindQuota

definition kindFromAnthropicType :: "string \<Rightarrow> error_kind" where
  "kindFromAnthropicType t =
     (if t = ''rate_limit_error'' then ErrorKindRateLimit
      else if t = ''overloaded_error'' then ErrorKindOverloaded
      else ErrorKindUnknown)"

definition json_string_field :: "(string \<times> json) list \<Rightarrow> string \<Rightarrow> string" where
  "json_string_field obj k = (case map_of obj k of Some (JStr t) \<Rightarrow> t | _ \<Rightarrow> [])"

definition classifyJSON :: "(string \<Rightarrow> (string \<times> json) list option) \<Rightarrow> string \<Rightarrow> error_kind" where
  "classifyJSON unmarshal b =
     (case unmarshal b of
        None \<Rightarrow> ErrorKindUnknown
      | Some raw \<Rightarrow>
          let inner = (case map_of raw ''error'' of Some (JObj o') \<Rightarrow> json_string_field o' ''type'' | _ \<Rightarrow> [])
          in if inner \<noteq> [] then kindFromAnthropicType inner
             else let t = json_string_field raw ''type''
                  in if t \<noteq> [] then kindFromAnthropicType t else ErrorKindUnknown)"

fun index_byte :: "char \<Rightarrow> string \<Rightarrow> nat option" where
  "index_byte c [] = None"
| "index_byte c (x # xs) = (if x = c then Some 0 else map_option Suc (index_byte c xs))"

definition ClassifyAnthropicError :: "(string \<Rightarrow> (string \<times> json) list option) \<Rightarrow> string \<Rightarrow> error_kind" where
  "ClassifyAnthropicError unmarshal payload =
     (if payload = [] then ErrorKindUnknown
      else let k = classifyJSON unmarshal payload
           in if k \<noteq> ErrorKindUnknown then k
              else let k = (case index_byte (CHR ''{'') payload of
                        Some i \<Rightarrow> if 0 < i then classifyJSON unmarshal (drop i payload) else ErrorKindUnknown
                      | None \<Rightarrow> ErrorKindUnknown)
                   in if k \<noteq> ErrorKindUnknown then k
                      else let low = to_lower payload
                           in if contains low ''rate_limit_error'' then ErrorKindRateLimit
                              else if contains low ''overloaded_error'' then ErrorKindOverloaded
                              else ErrorKindUnknown)"

definition IsRetriable :: "error_kind \<Rightarrow> bool" where
  "IsRetriable k \<longleftrightarrow> k = ErrorKindRateLimit \<or> k = ErrorKindOverloaded"

lemma kindFromAnthropicType_known:
  "kindFromAnthropicType t \<noteq> ErrorKindUnknown \<longleftrightarrow> t = ''rate_limit_error'' \<or> t = ''overloaded_error''"
  by (simp add: kindFromAnthropicType_def)

section \<open>Properties\<close>

text \<open>
  C40. However calls, clean-up ticks and the stop of the background loop interleave, a started limiter never
  accepts more than \<open>maxMessages\<close> messages of one key in any window of the configured length.
\<close>

theorem rate_limit_window_bound:
  assumes "0 < n" and "0 \<le> d" and "times_from t es"
    and "rl_run Allow cleanup rl_Stop (NewRateLimiter n d, []) es = (rl, log)"
  shows "int (length (filter (\<lambda>ts. T - rl_windowMs rl < ts \<and> ts \<le> T) (accepted_of k log))) \<le> n"
proof -
  let ?w = "rl_windowMs (NewRateLimiter n d)"
  note start = NewRateLimiter_inv [OF assms(1,2), of t]
  have "rl_inv n ?w (end_time t es) rl log"
    by (rule lim.run_rel [OF start assms(3,4)])
  then have "rl_windowMs rl = ?w" by (simp add: rl_inv_def rl_rel_def)
  then show ?thesis
    using lim.run_bound [OF start assms(3,4), where T = T and k = k] assms(1) by (simp add: accepted_of_def)
qed

theorem rate_limit_window_bound_witness:
  "int (length (filter (\<lambda>ts. 10 - 5 < ts \<and> ts \<le> 10) (accepted_of ''a'' [(''a'', 9)]))) \<le> 1"
proof -
  have r: "rl_run Allow cleanup rl_Stop (NewRateLimiter 1 5000000, []) [EAllow 9 ''a'', EAllow 10 ''a''] =
      (\<lparr>rl_buckets = [(''a'', \<lparr>rb_timestamps = [9], rb_lastAccess = 10\<rparr>)], rl_maxMessages = 1, rl_windowMs = 5,
        rl_stopped = False\<rparr>, [(''a'', 9)])"
    by code_simp
  from rate_limit_window_bound [OF _ _ _ r, where t = 0 and T = 10 and k = "''a''"] show ?thesis by simp
qed

text \<open>
  Dropping idle buckets is invisible: after any run the limiter decides about the next message as the
  specification does on the log of all accepted messages, whether or not buckets were dropped in between.
\<close>

theorem cleanup_never_changes_decisions:
  assumes "0 < n" and "0 \<le> d" and "times_from t es" and "end_time t es \<le> now"
    and "rl_run Allow cleanup rl_Stop (NewRateLimiter n d, []) es = (rl, log)"
  shows "snd (Allow now k rl) = spec_allow n (rl_windowMs (NewRateLimiter n d)) now (accepted_of k log)"
  by (rule lim.run_decides [OF NewRateLimiter_inv [OF assms(1,2)] assms(3,5,4)])

theorem cleanup_never_changes_decisions_witness:
  "\<not> spec_allow 1 5 10 (accepted_of ''a'' [(''a'', 9)]) "
proof -
  have r: "rl_run Allow cleanup rl_Stop (NewRateLimiter 1 5000000, []) [EAllow 9 ''a'', ECleanup 10] =
      (\<lparr>rl_buckets = [(''a'', \<lparr>rb_timestamps = [9], rb_lastAccess = 9\<rparr>)], rl_maxMessages = 1, rl_windowMs = 5,
        rl_stopped = False\<rparr>, [(''a'', 9)])"
    by code_simp
  have "\<not> snd (Allow 10 ''a'' \<lparr>rl_buckets = [(''a'', \<lparr>rb_timestamps = [9], rb_lastAccess = 9\<rparr>)], rl_maxMessages = 1,
      rl_windowMs = 5, rl_stopped = False\<rparr>)" by code_simp
  with cleanup_never_changes_decisions [OF _ _ _ _ r, where t = 0 and now = 10 and k = "''a''"] show ?thesis
    by (simp add: NewRateLimiter_def go_div_nonneg)
qed

end
