(* ===== verification/UserRoles.thy ===== *)
theory UserRoles
  imports CommandTable RateLimit "HOL-Library.Char_ord" "HOL-Library.List_Lexorder"
begin

text \<open>
  Roles of users (\<open>src/core/user_roles.go\<close>): the resolution of a user ID to a role, the shared rate limiter of
  each role, and the validation of the configured roles. A pointer to a role is the role; \<open>None\<close> is the nil
  pointer. The manager's lock makes each operation atomic.
\<close>

record rate_limit_cfg =
  rlc_MaxMessages :: int
  rlc_Window :: duration

record user_role =
  ur_Name :: string
  ur_DisabledCmds :: "(string, bool) gomap"
  ur_RateLimitCfg :: "rate_limit_cfg option"

record role_input =
  ri_Name :: string
  ri_UserIDs :: "string list"
  ri_DisabledCommands :: "string list"
  ri_RateLimit :: "rate_limit_cfg option"

record role_entry =
  re_roleName :: string
  re_userIDs :: "(string, bool) gomap"
  re_wildcard :: bool

record role_manager =
  urm_roles :: "role_entry list"
  urm_defaultRole :: string
  urm_roleMap :: "(string, user_role) gomap"
  urm_limiters :: "(string, rate_limiter) gomap"

definition NewUserRoleManager :: role_manager where
  "NewUserRoleManager = \<lparr>urm_roles = [], urm_defaultRole = [], urm_roleMap = [], urm_limiters = []\<rparr>"

text \<open>
  \<open>sort.Slice\<close> by name: inputs with equal names may come in any order in Go; here they keep theirs.
\<close>

definition make_role :: "role_input \<Rightarrow> user_role" where
  "make_role ri = \<lparr>ur_Name = ri_Name ri, ur_DisabledCmds = resolveDisabledCmds (ri_DisabledCommands ri),
                   ur_RateLimitCfg = ri_RateLimit ri\<rparr>"

definition make_entry :: "role_input \<Rightarrow> role_entry" where
  "make_entry ri = fold (\<lambda>uid e. if uid = ''*'' then e\<lparr>re_wildcard := True\<rparr>
                                 else e\<lparr>re_userIDs := mput (to_lower uid) True (re_userIDs e)\<rparr>)
                     (ri_UserIDs ri) \<lparr>re_roleName = ri_Name ri, re_userIDs = [], re_wildcard = False\<rparr>"

definition add_role :: "role_input \<Rightarrow> role_manager \<Rightarrow> role_manager" where
  "add_role ri m = m\<lparr>
     urm_roleMap := mput (ri_Name ri) (make_role ri) (urm_roleMap m),
     urm_roles := urm_roles m @ [make_entry ri],
     urm_limiters := (case ri_RateLimit ri of
        Some c \<Rightarrow> if 0 < rlc_MaxMessages c
                   then mput (ri_Name ri) (NewRateLimiter (rlc_MaxMessages c) (rlc_Window c)) (urm_limiters m)
                   else urm_limiters m
      | None \<Rightarrow> urm_limiters m)\<rparr>"

definition Configure :: "string \<Rightarrow> role_input list \<Rightarrow> role_manager \<Rightarrow> role_manager" where
  "Configure defaultRole roles m =
     fold add_role (sort_key ri_Name roles)
       (m\<lparr>urm_defaultRole := defaultRole, urm_roleMap := [], urm_limiters := [], urm_roles := []\<rparr>)"

definition ResolveRole :: "string \<Rightarrow> role_manager option \<Rightarrow> user_role option" where
  "ResolveRole userID mgr =
     (case mgr of
        None \<Rightarrow> None
      | Some m \<Rightarrow>
          let uid = to_lower userID;
              wild = (case find re_wildcard (urm_roles m) of
                        Some e \<Rightarrow> mget (urm_roleMap m) (re_roleName e) | None \<Rightarrow> None)
          in case find (\<lambda>e. \<not> re_wildcard e \<and> mget_or False (re_userIDs e) uid) (urm_roles m) of
               Some e \<Rightarrow> mget (urm_roleMap m) (re_roleName e)
             | None \<Rightarrow>
                 if urm_defaultRole m \<noteq> []
                 then (case mget (urm_roleMap m) (urm_defaultRole m) of Some r \<Rightarrow> Some r | None \<Rightarrow> wild)
                 else wild)"

text \<open>The result is the pair \<open>(allowed, handled)\<close>.\<close>

definition AllowRate :: "int \<Rightarrow> string \<Rightarrow> role_manager option \<Rightarrow> role_manager option \<times> bool \<times> bool" where
  "AllowRate now userID mgr =
     (case mgr of
        None \<Rightarrow> (None, True, False)
      | Some m \<Rightarrow>
          (case ResolveRole userID mgr of
             None \<Rightarrow> (mgr, True, False)
           | Some role \<Rightarrow>
               if ur_RateLimitCfg role = None then (mgr, True, False)
               else (case mget (urm_limiters m) (ur_Name role) of
                       None \<Rightarrow> (mgr, True, False)
                     | Some rl \<Rightarrow>
                         let (rl', ok) = Allow now userID rl
                         in (Some (m\<lparr>urm_limiters := mput (ur_Name role) rl' (urm_limiters m)\<rparr>), ok, True))))"

definition urm_Stop :: "role_manager option \<Rightarrow> role_manager option" where
  "urm_Stop mgr = map_option (\<lambda>m. m\<lparr>urm_limiters := mmap (\<lambda>_. rl_Stop) (urm_limiters m)\<rparr>) mgr"

text \<open>
  What \<open>Snapshot\<close> returns, field by field: the sorted user IDs and disabled commands of each role and its
  limit in seconds.
\<close>

record role_data =
  rd_user_ids :: "string list"
  rd_disabled_commands :: "string list"
  rd_rate_limit :: "(int \<times> int) option"

record role_snapshot =
  rs_default_role :: string
  rs_roles :: "(string, role_data) gomap"

definition role_data_of :: "role_manager \<Rightarrow> role_entry \<Rightarrow> role_data option" where
  "role_data_of m e =
     map_option (\<lambda>role. \<lparr>
         rd_user_ids = sort ((if re_wildcard e then [''*''] else []) @ map fst (re_userIDs e)),
         rd_disabled_commands = sort (map fst (ur_DisabledCmds role)),
         rd_rate_limit = map_option (\<lambda>c. (rlc_MaxMessages c, go_div (rlc_Window c) second)) (ur_RateLimitCfg role)\<rparr>)
       (mget (urm_roleMap m) (re_roleName e))"

text \<open>
  The outer \<open>None\<close> is the answer \<open>"configured": false\<close> of a nil manager. Every entry has its role in the
  role map (\<open>Configure\<close> writes both), so the pointer \<open>role\<close> is never nil.
\<close>

definition urm_Snapshot :: "role_manager option \<Rightarrow> role_snapshot option" where
  "urm_Snapshot mgr =
     map_option (\<lambda>m. \<lparr>rs_default_role = urm_defaultRole m,
       rs_roles = fold (\<lambda>e ds. case role_data_of m e of Some d \<Rightarrow> mput (re_roleName e) d ds | None \<Rightarrow> ds) (urm_roles m) []\<rparr>) mgr"

section \<open>Validation\<close>

datatype role_error = NoRoles | EmptyUserIDs string | DuplicateUser string string string | MultipleWildcards
  | UnknownDefaultRole string

record role_check =
  rc_wildcards :: nat
  rc_seen :: "(string, string) gomap"

fun check_users :: "string \<Rightarrow> string list \<Rightarrow> role_check \<Rightarrow> role_error + role_check" where
  "check_users role [] c = Inr c"
| "check_users role (uid # us) c =
     (if uid = ''*'' then check_users role us (c\<lparr>rc_wildcards := Suc (rc_wildcards c)\<rparr>)
      else (case mget (rc_seen c) (to_lower uid) of
              Some prev \<Rightarrow> Inl (DuplicateUser uid prev role)
            | None \<Rightarrow> check_users role us (c\<lparr>rc_seen := mput (to_lower uid) role (rc_seen c)\<rparr>)))"

fun check_roles :: "role_input list \<Rightarrow> role_check \<Rightarrow> role_error + role_check" where
  "check_roles [] c = Inr c"
| "check_roles (ri # rs) c =
     (if ri_UserIDs ri = [] then Inl (EmptyUserIDs (ri_Name ri))
      else (case check_users (ri_Name ri) (ri_UserIDs ri) c of
              Inl e \<Rightarrow> Inl e
            | Inr c' \<Rightarrow> check_roles rs c'))"

definition ValidateRoleInputs :: "string \<Rightarrow> role_input list \<Rightarrow> role_error option" where
  "ValidateRoleInputs defaultRole roles =
     (if roles = [] then Some NoRoles
      else (case check_roles roles \<lparr>rc_wildcards = 0, rc_seen = []\<rparr> of
              Inl e \<Rightarrow> Some e
            | Inr c \<Rightarrow>
                if 1 < rc_wildcards c then Some MultipleWildcards
                else if defaultRole \<noteq> [] \<and> defaultRole \<notin> ri_Name ` set roles then Some (UnknownDefaultRole defaultRole)
                else None))"

section \<open>What Configure builds\<close>

definition lists_user :: "string \<Rightarrow> role_input \<Rightarrow> bool" where
  "lists_user userID ri \<longleftrightarrow> ''*'' \<notin> set (ri_UserIDs ri) \<and> to_lower userID \<in> to_lower ` set (ri_UserIDs ri)"

definition has_wildcard :: "role_input \<Rightarrow> bool" where
  "has_wildcard ri \<longleftrightarrow> ''*'' \<in> set (ri_UserIDs ri)"

definition entry_step :: "string \<Rightarrow> role_entry \<Rightarrow> role_entry" where
  "entry_step uid e = (if uid = ''*'' then e\<lparr>re_wildcard := True\<rparr>
      else e\<lparr>re_userIDs := mput (to_lower uid) True (re_userIDs e)\<rparr>)"

lemma entry_step_simps:
  "re_roleName (entry_step uid e) = re_roleName e"
  "re_wildcard (entry_step uid e) \<longleftrightarrow> re_wildcard e \<or> uid = ''*''"
  "mget_or False (re_userIDs (entry_step uid e)) u \<longleftrightarrow>
     mget_or False (re_userIDs e) u \<or> (uid \<noteq> ''*'' \<and> u = to_lower uid)"
  by (auto simp: entry_step_def gomap)

lemma make_entry_fold_name: "re_roleName (fold entry_step us e) = re_roleName e"
  by (induction us arbitrary: e) (simp_all add: entry_step_simps)

lemma make_entry_fold_wildcard: "re_wildcard (fold entry_step us e) \<longleftrightarrow> re_wildcard e \<or> ''*'' \<in> set us"
  by (induction us arbitrary: e) (auto simp add: entry_step_simps(2))

lemma make_entry_fold_ids:
  "mget_or False (re_userIDs (fold entry_step us e)) u \<longleftrightarrow>
     mget_or False (re_userIDs e) u \<or> (\<exists>uid\<in>set us. uid \<noteq> ''*'' \<and> u = to_lower uid)"
  by (induction us arbitrary: e) (auto simp add: entry_step_simps(3))

lemma make_entry_alt:
  "make_entry ri = fold entry_step (ri_UserIDs ri) \<lparr>re_roleName = ri_Name ri, re_userIDs = [], re_wildcard = False\<rparr>"
proof -
  have "(\<lambda>uid e. if uid = ''*'' then e\<lparr>re_wildcard := True\<rparr>
           else e\<lparr>re_userIDs := mput (to_lower uid) True (re_userIDs e)\<rparr>) = entry_step"
    by (intro ext) (simp add: entry_step_def)
  then show ?thesis by (simp only: make_entry_def)
qed

lemma make_entry_name [simp]: "re_roleName (make_entry ri) = ri_Name ri"
  by (simp add: make_entry_alt make_entry_fold_name)

lemma make_entry_wildcard: "re_wildcard (make_entry ri) \<longleftrightarrow> has_wildcard ri"
  by (simp add: make_entry_alt make_entry_fold_wildcard has_wildcard_def)

lemma make_entry_users:
  "\<not> re_wildcard (make_entry ri) \<and> mget_or False (re_userIDs (make_entry ri)) (to_lower userID) \<longleftrightarrow> lists_user userID ri"
proof -
  have "mget_or False (re_userIDs (make_entry ri)) u \<longleftrightarrow> u \<in> to_lower ` (set (ri_UserIDs ri) - {''*''})" for u
    unfolding make_entry_alt make_entry_fold_ids by (auto simp: mget_or_def)
  then show ?thesis by (auto simp: make_entry_wildcard lists_user_def has_wildcard_def)
qed

lemma add_roles:
  "urm_roles (fold add_role rs m) = urm_roles m @ map make_entry rs"
  "urm_defaultRole (fold add_role rs m) = urm_defaultRole m"
  "mget (urm_roleMap (fold add_role rs m)) n =
     (case find (\<lambda>ri. ri_Name ri = n) (rev rs) of Some ri \<Rightarrow> Some (make_role ri) | None \<Rightarrow> mget (urm_roleMap m) n)"
  by (induction rs rule: rev_induct) (auto simp: add_role_def gomap)

lemma Configure_roles: "urm_roles (Configure d rs m) = map make_entry (sort_key ri_Name rs)"
  and Configure_default: "urm_defaultRole (Configure d rs m) = d"
  by (simp_all add: Configure_def add_roles)

lemma Configure_roleMap:
  assumes "distinct (map ri_Name rs)"
  shows "mget (urm_roleMap (Configure d rs m)) n = map_option make_role (find (\<lambda>ri. ri_Name ri = n) rs)"
proof -
  have "find (\<lambda>ri. ri_Name ri = n) (rev (sort_key ri_Name rs)) = find (\<lambda>ri. ri_Name ri = n) rs"
    by (rule find_unique) (use assms in \<open>auto simp: distinct_map inj_on_def\<close>)
  then show ?thesis by (simp add: Configure_def add_roles split: option.split)
qed

lemma add_role_limiter:
  "mget (urm_limiters (add_role ri m)) n =
     (case ri_RateLimit ri of
        Some c \<Rightarrow> if 0 < rlc_MaxMessages c \<and> ri_Name ri = n
                   then Some (NewRateLimiter (rlc_MaxMessages c) (rlc_Window c)) else mget (urm_limiters m) n
      | None \<Rightarrow> mget (urm_limiters m) n)"
  by (auto simp: add_role_def gomap split: option.splits)

lemma add_roles_limiters:
  "distinct (map ri_Name rs) \<Longrightarrow> ri \<in> set rs \<Longrightarrow> ri_RateLimit ri = Some c \<Longrightarrow> 0 < rlc_MaxMessages c \<Longrightarrow>
   mget (urm_limiters (fold add_role rs m)) (ri_Name ri) = Some (NewRateLimiter (rlc_MaxMessages c) (rlc_Window c))"
proof (induction rs rule: rev_induct)
  case (snoc r rs)
  show ?case
  proof (cases "ri = r")
    case False
    then have "ri \<in> set rs" "ri_Name r \<noteq> ri_Name ri" using snoc.prems by auto
    then show ?thesis using snoc by (auto simp: add_role_limiter split: option.splits)
  qed (use snoc.prems in \<open>simp add: add_role_limiter\<close>)
qed simp

section \<open>What validation guarantees\<close>

lemma check_users_seen:
  assumes "check_users role us c = Inr c'"
  shows "(\<forall>k r. mget (rc_seen c) k = Some r \<longrightarrow> mget (rc_seen c') k = Some r)
    \<and> (\<forall>uid \<in> set us. uid \<noteq> ''*'' \<longrightarrow> mget (rc_seen c') (to_lower uid) = Some role)
    \<and> rc_wildcards c' = rc_wildcards c + count_list us ''*''"
  using assms
proof (induction role us c rule: check_users.induct)
  case (2 role uid us c)
  show ?case
  proof (cases "uid = ''*''")
    case False
    then have new: "mget (rc_seen c) (to_lower uid) = None"
      and ok: "check_users role us (c\<lparr>rc_seen := mput (to_lower uid) role (rc_seen c)\<rparr>) = Inr c'"
      using "2.prems" by (auto split: option.splits)
    note ih = "2.IH"(2) [OF False new ok]
    have "mget (rc_seen c') k = Some r" if "mget (rc_seen c) k = Some r" for k r
    proof -
      have "mget (mput (to_lower uid) role (rc_seen c)) k = Some r" using that new by (auto simp: gomap)
      then show ?thesis using ih by simp
    qed
    moreover have "mget (rc_seen c') (to_lower uid) = Some role" using ih by (simp add: gomap)
    ultimately show ?thesis using ih False by auto
  qed (use 2 in auto)
qed simp

lemma check_roles_seen:
  assumes "check_roles rs c = Inr c'"
  shows "(\<forall>k r. mget (rc_seen c) k = Some r \<longrightarrow> mget (rc_seen c') k = Some r)
    \<and> (\<forall>ri \<in> set rs. \<forall>uid \<in> set (ri_UserIDs ri). uid \<noteq> ''*'' \<longrightarrow> mget (rc_seen c') (to_lower uid) = Some (ri_Name ri))
    \<and> rc_wildcards c' = rc_wildcards c + sum_list (map (\<lambda>ri. count_list (ri_UserIDs ri) ''*'') rs)"
  using assms
proof (induction rs arbitrary: c)
  case (Cons ri rs)
  then obtain c1 where c1: "check_users (ri_Name ri) (ri_UserIDs ri) c = Inr c1" "check_roles rs c1 = Inr c'"
    by (auto split: if_splits sum.splits)
  show ?case using check_users_seen [OF c1(1)] Cons.IH [OF c1(2)] by auto
qed simp

lemma one_positive_summand:
  fixes f :: "'a \<Rightarrow> nat"
  shows "sum_list (map f xs) \<le> 1 \<Longrightarrow> x \<in> set xs \<Longrightarrow> y \<in> set xs \<Longrightarrow> 0 < f x \<Longrightarrow> 0 < f y \<Longrightarrow> x = y"
proof (induction xs)
  case (Cons a xs)
  have le: "z \<in> set xs \<Longrightarrow> f z \<le> sum_list (map f xs)" for z by (simp add: member_le_sum_list)
  then show ?case using Cons le [of x] le [of y] by fastforce
qed simp

lemma valid_unique:
  assumes "ValidateRoleInputs d rs = None" "distinct (map ri_Name rs)" "ri \<in> set rs" "rj \<in> set rs"
  shows "lists_user u ri \<Longrightarrow> lists_user u rj \<Longrightarrow> ri = rj" and "has_wildcard ri \<Longrightarrow> has_wildcard rj \<Longrightarrow> ri = rj"
proof -
  obtain c where c: "check_roles rs \<lparr>rc_wildcards = 0, rc_seen = []\<rparr> = Inr c" "rc_wildcards c \<le> 1"
    using assms(1) by (auto simp: ValidateRoleInputs_def split: if_splits sum.splits)
  note seen = check_roles_seen [OF c(1)]
  have name: "mget (rc_seen c) (to_lower u) = Some (ri_Name r)" if "lists_user u r" "r \<in> set rs" for r
    using that seen unfolding lists_user_def by (metis (no_types, lifting) imageE)
  show "lists_user u ri \<Longrightarrow> lists_user u rj \<Longrightarrow> ri = rj"
    using name [of ri] name [of rj] assms(2-4) by (auto simp: distinct_map inj_on_def)
  have pos: "has_wildcard r \<Longrightarrow> 0 < count_list (ri_UserIDs r) ''*''" for r
    unfolding has_wildcard_def by (metis count_list_0_iff gr0I)
  show "has_wildcard ri \<Longrightarrow> has_wildcard rj \<Longrightarrow> ri = rj"
    using pos [of ri] pos [of rj] one_positive_summand [of "\<lambda>ri. count_list (ri_UserIDs ri) ''*''" rs ri rj] seen c(2) assms(3,4)
    by auto
qed

section \<open>The limit of a role\<close>

text \<open>Which role a user has does not change while the manager runs.\<close>

definition same_policy :: "role_manager \<Rightarrow> role_manager \<Rightarrow> bool" where
  "same_policy m m' \<longleftrightarrow> urm_roles m' = urm_roles m \<and> urm_defaultRole m' = urm_defaultRole m
     \<and> urm_roleMap m' = urm_roleMap m"

lemma same_policy_resolve: "same_policy m m' \<Longrightarrow> ResolveRole u (Some m') = ResolveRole u (Some m)"
  by (simp add: same_policy_def ResolveRole_def Let_def split: option.split)

lemma AllowRate_policy: "AllowRate now u (Some m) = (m', r) \<Longrightarrow> \<exists>m1. m' = Some m1 \<and> same_policy m m1"
  by (auto simp: AllowRate_def same_policy_def Let_def split: option.splits if_splits prod.splits)

text \<open>Messages of a stream, and the ones a role limit was asked about and let through.\<close>

fun rate_run :: "role_manager option \<Rightarrow> (int \<times> string) list \<Rightarrow> (string \<times> int) list" where
  "rate_run m [] = []"
| "rate_run m ((now, u) # ms) =
     (case AllowRate now u m of (m', ok, handled) \<Rightarrow>
        if ok \<and> handled then (u, now) # rate_run m' ms else rate_run m' ms)"

fun calls_from :: "int \<Rightarrow> (int \<times> string) list \<Rightarrow> bool" where
  "calls_from t [] = True"
| "calls_from t ((now, u) # ms) = (t \<le> now \<and> calls_from now ms)"

definition has_role :: "role_manager \<Rightarrow> string \<Rightarrow> string \<Rightarrow> bool" where
  "has_role m n u \<longleftrightarrow> map_option ur_Name (ResolveRole u (Some m)) = Some n"

definition of_role :: "role_manager \<Rightarrow> string \<Rightarrow> (string \<times> int) list \<Rightarrow> (string \<times> int) list" where
  "of_role m n log = filter (\<lambda>(u, _). has_role m n u) log"

lemma of_role_append [simp]:
  "of_role m n (log @ [(u, t)]) = of_role m n log @ (if has_role m n u then [(u, t)] else [])"
  by (simp add: of_role_def)

lemma of_role_Nil [simp]: "of_role m n [] = []"
  by (simp add: of_role_def)

lemma same_policy_of_role: "same_policy m m' \<Longrightarrow> of_role m' n = of_role m n"
  by (simp add: of_role_def has_role_def same_policy_resolve fun_eq_iff)

text \<open>What one call does to the limiter of a role.\<close>

lemma AllowRate_limiter:
  assumes "mget (urm_limiters m) n = Some rl" and "AllowRate now u (Some m) = (Some m', ok, handled)"
  shows "(has_role m n u \<and> mget (urm_limiters m') n = Some (fst (Allow now u rl)) \<and> (ok \<and> handled \<longleftrightarrow> snd (Allow now u rl)))
    \<or> ((has_role m n u \<longrightarrow> \<not> handled) \<and> mget (urm_limiters m') n = Some rl)"
  using assms
  by (auto simp: AllowRate_def has_role_def Let_def gomap split: option.splits if_splits prod.splits)

text \<open>One call: the limiter of role \<open>n\<close> sees exactly the messages of the users of that role.\<close>

lemma AllowRate_step:
  assumes "mget (urm_limiters m) n = Some rl" "lim.within N w k (of_role m n log)" "rl_inv N w t rl (of_role m n log)" "t \<le> now"
    and r: "AllowRate now u (Some m) = (Some m', ok, handled)"
  shows "\<exists>rl'. mget (urm_limiters m') n = Some rl' \<and> same_policy m m' \<and>
    rl_inv N w now rl' (of_role m' n (if ok \<and> handled then log @ [(u, now)] else log)) \<and>
    lim.within N w k (of_role m' n (if ok \<and> handled then log @ [(u, now)] else log))"
proof -
  let ?log = "if ok \<and> handled then log @ [(u, now)] else log"
  obtain m1 where "Some m' = Some m1" "same_policy m m1" using AllowRate_policy [OF r] by blast
  then have pol: "same_policy m m'" by simp
  have later: "rl_inv N w now rl (of_role m n log)"
    using assms(3,4) rl_rel_later by (fastforce simp: rl_inv_def)
  show ?thesis
  proof (cases "has_role m n u \<and> mget (urm_limiters m') n = Some (fst (Allow now u rl)) \<and> (ok \<and> handled \<longleftrightarrow> snd (Allow now u rl))")
    case True
    then have log: "of_role m n ?log = (if snd (Allow now u rl) then of_role m n log @ [(u, now)] else of_role m n log)"
      by simp
    have "mget (urm_limiters m') n = Some (fst (Allow now u rl))" using True by simp
    then show ?thesis
      unfolding same_policy_of_role [OF pol] log
      using Allow_inv [OF assms(3,4), of u] lim.allow_bound [OF assms(3,4,2), of u] pol by blast
  next
    case False
    then have "mget (urm_limiters m') n = Some rl" and h: "has_role m n u \<longrightarrow> \<not> handled"
      using AllowRate_limiter [OF assms(1) r] by auto
    moreover have "of_role m n ?log = of_role m n log" using h by simp
    ultimately show ?thesis
      unfolding same_policy_of_role [OF pol] using later assms(2) pol by auto
  qed
qed

lemma rate_run_bound:
  assumes "mget (urm_limiters m) n = Some rl" "rl_inv N w t rl (of_role m n log)" "lim.within N w k (of_role m n log)"
    and "calls_from t ms"
  shows "lim.within N w k (of_role m n (log @ rate_run (Some m) ms))"
  using assms
proof (induction ms arbitrary: m rl t log)
  case (Cons c ms)
  obtain now u where c: "c = (now, u)" by force
  obtain m' ok handled where r: "AllowRate now u (Some m) = (Some m', ok, handled)"
    using AllowRate_policy [of now u m] by (metis prod.exhaust)
  let ?log = "if ok \<and> handled then log @ [(u, now)] else log"
  have t: "t \<le> now" "calls_from now ms" using Cons.prems(4) by (auto simp: c)
  obtain rl' where rl': "mget (urm_limiters m') n = Some rl'" "same_policy m m'"
      "rl_inv N w now rl' (of_role m' n ?log)" "lim.within N w k (of_role m' n ?log)"
    using AllowRate_step [OF Cons.prems(1,3,2) t(1) r] by blast
  have ih: "lim.within N w k (of_role m' n (?log @ rate_run (Some m') ms))"
    by (rule Cons.IH [OF rl'(1,3,4) t(2)])
  have eq: "?log @ rate_run (Some m') ms = log @ rate_run (Some m) (c # ms)" by (simp add: c r)
  show ?case using ih unfolding eq same_policy_of_role [OF rl'(2)] .
qed simp

section \<open>Properties\<close>

text \<open>
  For a configuration that passes validation (with distinct role names), however its roles are
  ordered, every user gets the role the configuration names: the role that lists the user in any letter case,
  else the default role, else the wildcard role, with its disabled commands and its limit.
\<close>

theorem resolve_role_of_valid_config:
  assumes "ValidateRoleInputs d rs = None" and "distinct (map ri_Name rs)"
  shows "ResolveRole u (Some (Configure d rs m)) =
    map_option make_role
      (case find (lists_user u) rs of
         Some ri \<Rightarrow> Some ri
       | None \<Rightarrow> if d \<noteq> [] then find (\<lambda>ri. ri_Name ri = d) rs else find has_wildcard rs)"
proof -
  let ?M = "Configure d rs m"
  note unique = valid_unique [OF assms]
  have sorted_find: "find P (sort_key ri_Name rs) = find P rs" if "P = lists_user u \<or> P = has_wildcard" for P
    by (rule find_unique) (use that unique in auto)
  have get: "mget (urm_roleMap ?M) n = map_option make_role (find (\<lambda>ri. ri_Name ri = n) rs)" for n
    by (rule Configure_roleMap [OF assms(2)])
  have role: "mget (urm_roleMap ?M) (ri_Name ri) = Some (make_role ri)" if "ri \<in> set rs" for ri
    using find_key_in [OF assms(2) that] by (simp add: get)
  have listed: "find (\<lambda>e. \<not> re_wildcard e \<and> mget_or False (re_userIDs e) (to_lower u)) (urm_roles ?M)
      = map_option make_entry (find (lists_user u) rs)"
    by (simp add: Configure_roles find_map comp_def make_entry_users sorted_find)
  have wild: "find re_wildcard (urm_roles ?M) = map_option make_entry (find has_wildcard rs)"
    by (simp add: Configure_roles find_map comp_def make_entry_wildcard sorted_find)
  have default: "d \<noteq> [] \<Longrightarrow> \<exists>ri. find (\<lambda>ri. ri_Name ri = d) rs = Some ri"
    using assms(1) find_key_in [OF assms(2)]
    by (auto simp: ValidateRoleInputs_def split: if_splits sum.splits)
  have fallback: "(if d \<noteq> [] then (case mget (urm_roleMap ?M) d of Some r \<Rightarrow> Some r | None \<Rightarrow> W) else W)
      = (if d \<noteq> [] then map_option make_role (find (\<lambda>ri. ri_Name ri = d) rs) else W)" for W
    using default by (auto simp: get)
  have entry: "(case map_option make_entry (find P rs) of Some e \<Rightarrow> mget (urm_roleMap ?M) (re_roleName e) | None \<Rightarrow> W)
      = (case find P rs of Some ri \<Rightarrow> Some (make_role ri) | None \<Rightarrow> W)" for P W
    using role find_SomeD [of P rs] by (cases "find P rs") simp_all
  show ?thesis
    unfolding ResolveRole_def Let_def option.case Configure_default listed wild fallback entry
    by (simp split: option.split)
qed

theorem resolve_role_of_valid_config_witness:
  "map_option ur_Name (ResolveRole ''BOB'' (Some (Configure ''guest''
     [\<lparr>ri_Name = ''guest'', ri_UserIDs = [''*''], ri_DisabledCommands = [''*''], ri_RateLimit = None\<rparr>,
      \<lparr>ri_Name = ''admin'', ri_UserIDs = [''Bob''], ri_DisabledCommands = [], ri_RateLimit = None\<rparr>]
     NewUserRoleManager))) = Some ''admin''"
proof -
  let ?rs = "[\<lparr>ri_Name = ''guest'', ri_UserIDs = [''*''], ri_DisabledCommands = [''*''], ri_RateLimit = None\<rparr>,
      \<lparr>ri_Name = ''admin'', ri_UserIDs = [''Bob''], ri_DisabledCommands = [], ri_RateLimit = None\<rparr>]"
  have v: "ValidateRoleInputs ''guest'' ?rs = None" by code_simp
  have f: "find (lists_user ''BOB'') ?rs = Some (?rs ! 1)" by code_simp
  have dist: "distinct (map ri_Name ?rs)" by simp
  show ?thesis
    using resolve_role_of_valid_config [OF v dist, of "''BOB''" NewUserRoleManager]
    unfolding f by (simp add: make_role_def)
qed

text \<open>
  The users of a role with a limit are held to it: whatever stream of messages comes in, from
  whatever users, no window of the configured length holds more accepted messages of one user ID than the
  limit of the role that ID resolves to.
\<close>

theorem role_limit_window_bound:
  assumes "distinct (map ri_Name rs)" and "ri \<in> set rs" and "ri_RateLimit ri = Some c"
    and "0 < rlc_MaxMessages c" and "0 \<le> rlc_Window c"
    and "ResolveRole u (Some (Configure d rs m)) = Some (make_role ri)" and "calls_from t ms"
  shows "int (length (filter (\<lambda>ts. T - go_div (rlc_Window c) 1000000 < ts \<and> ts \<le> T)
           (accepted_of u (rate_run (Some (Configure d rs m)) ms)))) \<le> rlc_MaxMessages c"
proof -
  let ?M = "Configure d rs m" and ?N = "rlc_MaxMessages c" and ?w = "go_div (rlc_Window c) 1000000"
  have rl: "mget (urm_limiters ?M) (ri_Name ri) = Some (NewRateLimiter ?N (rlc_Window c))"
    unfolding Configure_def by (rule add_roles_limiters) (use assms in \<open>auto simp: distinct_map inj_on_def\<close>)
  have inv: "rl_inv ?N ?w t (NewRateLimiter ?N (rlc_Window c)) (of_role ?M (ri_Name ri) [])"
    using NewRateLimiter_inv [OF assms(4,5), of t] by (simp add: NewRateLimiter_def)
  have "lim.within ?N ?w u (of_role ?M (ri_Name ri) ([] @ rate_run (Some ?M) ms))"
    by (rule rate_run_bound [OF rl inv _ assms(7)]) (use assms(4) in \<open>simp add: accepted_of_def\<close>)
  moreover have "accepted_of u (of_role ?M (ri_Name ri) L) = accepted_of u L" for L
    using assms(6) by (induction L) (auto simp: accepted_of_def of_role_def has_role_def make_role_def)
  ultimately show ?thesis by simp
qed

theorem role_limit_window_bound_witness:
  "int (length (filter (\<lambda>ts. 10 - 5 < ts \<and> ts \<le> 10) (accepted_of ''a'' [(''a'', 9)]))) \<le> 1"
proof -
  let ?r = "\<lparr>ri_Name = ''r'', ri_UserIDs = [''a''], ri_DisabledCommands = [],
      ri_RateLimit = Some \<lparr>rlc_MaxMessages = 1, rlc_Window = 5000000\<rparr>\<rparr>"
  let ?M = "Configure [] [?r] NewUserRoleManager"
  have run: "rate_run (Some ?M) [(9, ''a''), (10, ''a'')] = [(''a'', 9)]" by code_simp
  have role: "ResolveRole ''a'' (Some ?M) = Some (make_role ?r)" by code_simp
  show ?thesis
    using role_limit_window_bound [OF _ _ _ _ _ role, where t = 0 and T = 10 and ms = "[(9, ''a''), (10, ''a'')]"
        and c = "\<lparr>rlc_MaxMessages = 1, rlc_Window = 5000000\<rparr>"]
    unfolding run by (simp add: go_div_nonneg)
qed

end
