(* ===== verification/OutgoingRate.thy ===== *)
theory OutgoingRate
  imports GoStrings Complex_Main
begin

text \<open>
  The token bucket that paces messages to each platform (\<open>src/core/outgoing_ratelimit.go\<close>). The code keeps
  tokens and rates as \<open>float64\<close>; here they are rational numbers, so the rounding of each addition is not
  part of the model. \<open>Wait\<close> is a loop around one locked attempt; the time of each attempt, and whether the
  context ends the sleep that follows it, are its input.
\<close>

record outgoing_cfg =
  oc_MaxPerSecond :: rat
  oc_Burst :: int

definition oc_disabled :: "outgoing_cfg \<Rightarrow> bool" where
  "oc_disabled c \<longleftrightarrow> oc_MaxPerSecond c \<le> 0"

definition effectiveBurst :: "outgoing_cfg \<Rightarrow> int" where
  "effectiveBurst c = (if 0 < oc_Burst c then oc_Burst c else \<lceil>oc_MaxPerSecond c\<rceil>)"

record token_bucket =
  tb_tokens :: rat
  tb_maxTokens :: rat
  tb_refillRate :: rat
  tb_lastRefill :: time

record outgoing_limiter =
  orl_buckets :: "(string, token_bucket) gomap"
  orl_defaults :: outgoing_cfg
  orl_overrides :: "(string, outgoing_cfg) gomap"

definition NewOutgoingRateLimiter :: "outgoing_cfg \<Rightarrow> (string, outgoing_cfg) gomap option \<Rightarrow> outgoing_limiter" where
  "NewOutgoingRateLimiter defaults overrides =
     \<lparr>orl_buckets = [], orl_defaults = defaults,
      orl_overrides = (case overrides of None \<Rightarrow> [] | Some m \<Rightarrow> m)\<rparr>"

definition cfgFor :: "outgoing_limiter \<Rightarrow> string \<Rightarrow> outgoing_cfg" where
  "cfgFor orl platform = (case mget (orl_overrides orl) platform of Some c \<Rightarrow> c | None \<Rightarrow> orl_defaults orl)"

definition bucketFor :: "time \<Rightarrow> string \<Rightarrow> outgoing_limiter \<Rightarrow> outgoing_limiter \<times> token_bucket" where
  "bucketFor now platform orl =
     (case mget (orl_buckets orl) platform of
        Some b \<Rightarrow> (orl, b)
      | None \<Rightarrow>
          let cfg = cfgFor orl platform;
              burst = of_int (effectiveBurst cfg);
              b = \<lparr>tb_tokens = burst, tb_maxTokens = burst, tb_refillRate = oc_MaxPerSecond cfg, tb_lastRefill = now\<rparr>
          in (orl\<lparr>orl_buckets := mput platform b (orl_buckets orl)\<rparr>, b))"

definition seconds :: "duration \<Rightarrow> rat" where
  "seconds d = of_int d / of_int second"

definition refill :: "time \<Rightarrow> token_bucket \<Rightarrow> token_bucket" where
  "refill now b =
     (let elapsed = seconds (now - tb_lastRefill b)
      in if elapsed \<le> 0 then b
         else let tokens = tb_tokens b + elapsed * tb_refillRate b
              in b\<lparr>tb_tokens := (if tokens > tb_maxTokens b then tb_maxTokens b else tokens), tb_lastRefill := now\<rparr>)"

datatype attempt_result = Sent | SleepFor duration

text \<open>The body of the loop: one attempt under the lock, and the sleep it asks for otherwise.\<close>

definition attempt :: "time \<Rightarrow> string \<Rightarrow> outgoing_limiter \<Rightarrow> outgoing_limiter \<times> attempt_result" where
  "attempt now platform orl =
     (let (orl, b) = bucketFor now platform orl;
          b = refill now b
      in if 1 \<le> tb_tokens b
         then (orl\<lparr>orl_buckets := mput platform (b\<lparr>tb_tokens := tb_tokens b - 1\<rparr>) (orl_buckets orl)\<rparr>, Sent)
         else (orl\<lparr>orl_buckets := mput platform b (orl_buckets orl)\<rparr>,
               SleepFor \<lfloor>(1 - tb_tokens b) / tb_refillRate b * of_int second\<rfloor>))"

datatype wait_outcome = WaitOk | WaitCancelled | WaitPending

fun wait_loop :: "string \<Rightarrow> (time \<times> bool) list \<Rightarrow> outgoing_limiter \<Rightarrow> outgoing_limiter \<times> wait_outcome" where
  "wait_loop platform [] orl = (orl, WaitPending)"
| "wait_loop platform ((now, done) # rest) orl =
     (case attempt now platform orl of
        (orl', Sent) \<Rightarrow> (orl', WaitOk)
      | (orl', SleepFor d) \<Rightarrow> if done then (orl', WaitCancelled) else wait_loop platform rest orl')"

definition Wait :: "string \<Rightarrow> (time \<times> bool) list \<Rightarrow> outgoing_limiter \<Rightarrow> outgoing_limiter \<times> wait_outcome" where
  "Wait platform schedule orl =
     (if oc_disabled (cfgFor orl platform) then (orl, WaitOk) else wait_loop platform schedule orl)"

section \<open>The bucket of a platform\<close>

definition orl_ok :: "time \<Rightarrow> outgoing_limiter \<Rightarrow> bool" where
  "orl_ok t orl \<longleftrightarrow> (\<forall>p b. mget (orl_buckets orl) p = Some b \<longrightarrow>
     0 \<le> tb_tokens b \<and> tb_tokens b \<le> tb_maxTokens b \<and> tb_lastRefill b \<le> t
     \<and> tb_maxTokens b = of_int (effectiveBurst (cfgFor orl p)) \<and> tb_refillRate b = oc_MaxPerSecond (cfgFor orl p))"

text \<open>The tokens a platform has at time \<open>t\<close>.\<close>

definition avail :: "time \<Rightarrow> string \<Rightarrow> outgoing_limiter \<Rightarrow> rat" where
  "avail t p orl = (case mget (orl_buckets orl) p of
     Some b \<Rightarrow> min (tb_maxTokens b) (tb_tokens b + seconds (t - tb_lastRefill b) * tb_refillRate b)
   | None \<Rightarrow> of_int (effectiveBurst (cfgFor orl p)))"

lemma seconds_nonneg: "0 \<le> d \<Longrightarrow> 0 \<le> seconds d"
  by (simp add: seconds_def second_def)

lemma seconds_pos: "seconds d \<le> 0 \<longleftrightarrow> d \<le> 0"
  by (simp add: seconds_def second_def divide_le_0_iff)

lemma seconds_add: "seconds (a + b) = seconds a + seconds b"
  by (simp add: seconds_def add_divide_distrib)

lemma effectiveBurst_pos: "\<not> oc_disabled c \<Longrightarrow> 1 \<le> effectiveBurst c"
  by (simp add: effectiveBurst_def oc_disabled_def)

lemma orl_ok_new: "orl_ok t (NewOutgoingRateLimiter d o')"
  by (simp add: orl_ok_def NewOutgoingRateLimiter_def)

lemma orl_ok_later: "orl_ok t orl \<Longrightarrow> t \<le> t' \<Longrightarrow> orl_ok t' orl"
  by (fastforce simp: orl_ok_def)

lemma cfgFor_buckets [simp]: "cfgFor (orl\<lparr>orl_buckets := x\<rparr>) = cfgFor orl"
  by (rule ext) (simp add: cfgFor_def split: option.split)

text \<open>The bucket an attempt works on: refilled up to now, it holds the available tokens.\<close>

definition cur :: "time \<Rightarrow> string \<Rightarrow> outgoing_limiter \<Rightarrow> token_bucket" where
  "cur now p orl = refill now (snd (bucketFor now p orl))"

lemma cur_fields:
  assumes "orl_ok t orl" "t \<le> now" "0 < oc_MaxPerSecond (cfgFor orl p)"
  shows "tb_tokens (cur now p orl) = avail now p orl" and "tb_lastRefill (cur now p orl) = now"
    and "tb_maxTokens (cur now p orl) = of_int (effectiveBurst (cfgFor orl p))"
    and "tb_refillRate (cur now p orl) = oc_MaxPerSecond (cfgFor orl p)"
    and "0 \<le> avail now p orl" and "avail now p orl \<le> of_int (effectiveBurst (cfgFor orl p))"
proof -
  have b: "1 \<le> effectiveBurst (cfgFor orl p)" using assms(3) by (intro effectiveBurst_pos) (simp add: oc_disabled_def)
  then have b': "(0::rat) \<le> of_int (effectiveBurst (cfgFor orl p))" by simp
  have zero: "seconds 0 = 0" by (simp add: seconds_def)
  have "tb_tokens (cur now p orl) = avail now p orl \<and> tb_lastRefill (cur now p orl) = now
    \<and> tb_maxTokens (cur now p orl) = of_int (effectiveBurst (cfgFor orl p))
    \<and> tb_refillRate (cur now p orl) = oc_MaxPerSecond (cfgFor orl p)
    \<and> avail now p orl \<le> of_int (effectiveBurst (cfgFor orl p))"
  proof (cases "mget (orl_buckets orl) p")
    case None
    then show ?thesis by (simp add: cur_def bucketFor_def refill_def avail_def Let_def zero)
  next
    case (Some b)
    then have B: "tb_tokens b \<le> tb_maxTokens b" "tb_lastRefill b \<le> now"
      "tb_maxTokens b = of_int (effectiveBurst (cfgFor orl p))" "tb_refillRate b = oc_MaxPerSecond (cfgFor orl p)"
      using assms(1) [unfolded orl_ok_def, rule_format, OF Some] assms(2) by auto
    show ?thesis
    proof (cases "tb_lastRefill b = now")
      case True
      then show ?thesis using Some B by (simp add: cur_def bucketFor_def refill_def avail_def zero)
    next
      case False
      then have "\<not> seconds (now - tb_lastRefill b) \<le> 0" using B by (simp add: seconds_pos)
      then show ?thesis using Some B by (simp add: cur_def bucketFor_def refill_def avail_def Let_def min_def not_less)
    qed
  qed
  then show "tb_tokens (cur now p orl) = avail now p orl" "tb_lastRefill (cur now p orl) = now"
    "tb_maxTokens (cur now p orl) = of_int (effectiveBurst (cfgFor orl p))"
    "tb_refillRate (cur now p orl) = oc_MaxPerSecond (cfgFor orl p)"
    "avail now p orl \<le> of_int (effectiveBurst (cfgFor orl p))" by auto
  show "0 \<le> avail now p orl"
  proof (cases "mget (orl_buckets orl) p")
    case (Some b)
    then have "0 \<le> seconds (now - tb_lastRefill b) * tb_refillRate b"
      using assms(1) [unfolded orl_ok_def, rule_format, OF Some] assms(2,3)
      by (intro mult_nonneg_nonneg seconds_nonneg) auto
    moreover have "0 \<le> tb_tokens b" "0 \<le> tb_maxTokens b" using Some assms(1) b' by (auto simp: orl_ok_def)
    ultimately show ?thesis by (simp add: avail_def Some)
  qed (use b in \<open>simp add: avail_def\<close>)
qed

lemma attempt_eq:
  "attempt now p orl =
     (if 1 \<le> tb_tokens (cur now p orl)
      then (orl\<lparr>orl_buckets := mput p ((cur now p orl)\<lparr>tb_tokens := tb_tokens (cur now p orl) - 1\<rparr>)
              (orl_buckets (fst (bucketFor now p orl)))\<rparr>, Sent)
      else (orl\<lparr>orl_buckets := mput p (cur now p orl) (orl_buckets (fst (bucketFor now p orl)))\<rparr>,
            SleepFor \<lfloor>(1 - tb_tokens (cur now p orl)) / tb_refillRate (cur now p orl) * of_int second\<rfloor>))"
  by (auto simp: attempt_def cur_def bucketFor_def Let_def case_prod_unfold split: option.splits)

lemma bucketFor_other: "q \<noteq> p \<Longrightarrow> mget (orl_buckets (fst (bucketFor now p orl))) q = mget (orl_buckets orl) q"
  by (auto simp: bucketFor_def Let_def gomap split: option.splits)

lemma attempt_step:
  assumes ok: "orl_ok t orl" "t \<le> now" "0 < oc_MaxPerSecond (cfgFor orl p)" and r: "attempt now p orl = (orl', res)"
  shows "orl_ok now orl'" and "cfgFor orl' = cfgFor orl"
    and "avail now p orl' = avail now p orl - (if res = Sent then 1 else 0)"
    and "res = Sent \<longleftrightarrow> 1 \<le> avail now p orl"
    and "q \<noteq> p \<Longrightarrow> avail now q orl' = avail now q orl"
proof -
  note cur = cur_fields [OF ok]
  have zero: "seconds 0 = 0" by (simp add: seconds_def)
  show cfg: "cfgFor orl' = cfgFor orl" using r by (auto simp: attempt_eq split: if_splits)
  show sent: "res = Sent \<longleftrightarrow> 1 \<le> avail now p orl" using r cur(1) by (auto simp: attempt_eq split: if_splits)
  have get: "mget (orl_buckets orl') q = (if q = p then Some ((cur now p orl)\<lparr>tb_tokens := avail now p orl - (if res = Sent then 1 else 0)\<rparr>)
      else mget (orl_buckets orl) q)" for q
    using r cur(1) by (auto simp: attempt_eq gomap bucketFor_other split: if_splits)
  show "orl_ok now orl'"
    unfolding orl_ok_def get cfg using ok cur sent
    by (auto simp: orl_ok_def) (smt (verit) order_trans)+
  show "avail now p orl' = avail now p orl - (if res = Sent then 1 else 0)"
    using cur by (auto simp: avail_def [of now p orl'] get zero)
  show "q \<noteq> p \<Longrightarrow> avail now q orl' = avail now q orl"
    by (simp add: avail_def get cfg split: option.split)
qed

section \<open>Streams of sends\<close>

text \<open>A stream of attempts on any platforms, and the messages sent; a disabled platform is not paced.\<close>

fun send_run :: "outgoing_limiter \<Rightarrow> (time \<times> string) list \<Rightarrow> (time \<times> string) list" where
  "send_run orl [] = []"
| "send_run orl ((now, p) # rest) =
     (if oc_disabled (cfgFor orl p) then (now, p) # send_run orl rest
      else (case attempt now p orl of (orl', r) \<Rightarrow> (if r = Sent then [(now, p)] else []) @ send_run orl' rest))"

fun in_order :: "time \<Rightarrow> (time \<times> string) list \<Rightarrow> bool" where
  "in_order t [] = True"
| "in_order t ((now, p) # rest) = (t \<le> now \<and> in_order now rest)"

definition sent_between :: "time \<Rightarrow> time \<Rightarrow> string \<Rightarrow> (time \<times> string) list \<Rightarrow> rat" where
  "sent_between s e p sent = of_nat (length (filter (\<lambda>(ts, q). q = p \<and> s \<le> ts \<and> ts \<le> e) sent))"

lemma sent_between_append: "sent_between s e p (xs @ ys) = sent_between s e p xs + sent_between s e p ys"
  by (simp add: sent_between_def)

lemma sent_between_Cons: "sent_between s e p (x # ys) = sent_between s e p [x] + sent_between s e p ys"
  by (simp add: sent_between_def)

lemma sent_between_Nil [simp]: "sent_between s e p [] = 0"
  by (simp add: sent_between_def)

lemma sent_between_single: "sent_between s e p [(ts, q)] = (if q = p \<and> s \<le> ts \<and> ts \<le> e then 1 else 0)"
  by (simp add: sent_between_def)

lemma in_order_after: "in_order t ms \<Longrightarrow> e < t \<Longrightarrow> sent_between s e p (send_run orl ms) = 0"
proof (induction ms arbitrary: t orl)
  case (Cons c ms)
  obtain now q where c: "c = (now, q)" by force
  obtain orl' r where r: "attempt now q orl = (orl', r)" by force
  have "t \<le> now" "in_order now ms" using Cons.prems by (auto simp: c)
  then show ?case
    using Cons.IH [of now orl'] Cons.IH [of now orl] Cons.prems(2)
    by (simp add: c r sent_between_append sent_between_single sent_between_Cons [of _ _ _ "(now, q)"])
qed simp

lemma in_order_earlier: "in_order t ms \<Longrightarrow> t' \<le> t \<Longrightarrow> in_order t' ms"
  by (cases ms) auto

text \<open>The first attempt of a stream on platform \<open>p\<close> or another one that is paced.\<close>

lemma enabled: "\<not> oc_disabled c \<longleftrightarrow> 0 < oc_MaxPerSecond c"
  by (simp add: oc_disabled_def not_le)

text \<open>Refilling adds no more than the rate allows.\<close>

lemma avail_grows:
  assumes "orl_ok t orl" "0 < oc_MaxPerSecond (cfgFor orl p)" "t \<le> now" "now \<le> now'"
  shows "avail now' p orl \<le> avail now p orl + seconds (now' - now) * oc_MaxPerSecond (cfgFor orl p)"
proof (cases "mget (orl_buckets orl) p")
  case None
  then show ?thesis using assms seconds_nonneg [of "now' - now"] by (simp add: avail_def)
next
  case (Some b)
  let ?r = "oc_MaxPerSecond (cfgFor orl p)"
  have r: "tb_refillRate b = ?r" using assms(1) [unfolded orl_ok_def, rule_format, OF Some] by simp
  have nn: "0 \<le> seconds (now' - now) * ?r" using assms seconds_nonneg [of "now' - now"] by simp
  have "seconds (now' - tb_lastRefill b) = seconds (now - tb_lastRefill b) + seconds (now' - now)"
    by (simp add: seconds_add [symmetric])
  then have "seconds (now' - tb_lastRefill b) * ?r = seconds (now - tb_lastRefill b) * ?r + seconds (now' - now) * ?r"
    by (simp add: distrib_right)
  then show ?thesis using nn by (simp add: avail_def Some r min_def)
qed

text \<open>From a given moment on, a platform sends no more than its tokens and the refill.\<close>

lemma send_run_bound:
  assumes "orl_ok t orl" "0 < oc_MaxPerSecond (cfgFor orl p)" "in_order t ms" "t \<le> e"
  shows "sent_between s e p (send_run orl ms) \<le> avail t p orl + seconds (e - t) * oc_MaxPerSecond (cfgFor orl p)"
  using assms
proof (induction ms arbitrary: t orl)
  case Nil
  then have "0 \<le> avail t p orl" "0 \<le> seconds (e - t) * oc_MaxPerSecond (cfgFor orl p)"
    using cur_fields(5) [of t orl t p] seconds_nonneg [of "e - t"]
    by (auto intro!: mult_nonneg_nonneg simp: less_imp_le)
  then show ?case by simp
next
  case (Cons c ms)
  obtain now q where c: "c = (now, q)" by force
  obtain orl' r where r: "attempt now q orl = (orl', r)" by force
  let ?R = "oc_MaxPerSecond (cfgFor orl p)"
  have t: "t \<le> now" "in_order now ms" using Cons.prems(3) by (auto simp: c)
  have skip: ?case if "oc_disabled (cfgFor orl q)"
  proof -
    have "q \<noteq> p" using that Cons.prems(2) by (auto simp: oc_disabled_def)
    then show ?thesis
      using that Cons.IH [OF Cons.prems(1,2) in_order_earlier [OF t(2,1)] Cons.prems(4)]
      by (simp add: c sent_between_Cons [of _ _ _ "(now, q)"] sent_between_single)
  qed
  show ?case
  proof (cases "oc_disabled (cfgFor orl q)")
    case True
    then show ?thesis by (rule skip)
  next
    case en: False
    note step = attempt_step [OF Cons.prems(1) t(1) en [unfolded enabled] r]
    have grow: "avail now p orl \<le> avail t p orl + seconds (now - t) * ?R"
      using Cons.prems t by (intro avail_grows [of t]) auto
    show ?thesis
    proof (cases "now \<le> e")
      case True
      have ih: "sent_between s e p (send_run orl' ms) \<le> avail now p orl' + seconds (e - now) * ?R"
        using Cons.IH [OF step(1) _ t(2) True] Cons.prems(2) step(2) by simp
      have "seconds (e - t) = seconds (now - t) + seconds (e - now)" by (simp add: seconds_add [symmetric])
      then have "seconds (e - t) * ?R = seconds (now - t) * ?R + seconds (e - now) * ?R" by (simp add: distrib_right)
      moreover have "avail now p orl' + (if r = Sent \<and> q = p then 1 else 0) = avail now p orl"
        using step(3) step(5) [of p] by (cases "q = p") auto
      moreover have "sent_between s e p (if r = Sent then [(now, q)] else []) \<le> (if r = Sent \<and> q = p then 1 else 0)"
        by (simp add: sent_between_single)
      ultimately show ?thesis using ih grow by (simp add: c r en sent_between_append)
    next
      case False
      then have "sent_between s e p (send_run orl (c # ms)) = 0"
        using Cons.prems(3) in_order_after [OF t(2), of e s p orl'] by (simp add: c r en sent_between_append sent_between_single)
      moreover have "0 \<le> avail t p orl" using cur_fields(5) [OF Cons.prems(1) order_refl] Cons.prems(2) by simp
      moreover have "0 \<le> seconds (e - t) * ?R"
        using Cons.prems(2,4) seconds_nonneg [of "e - t"] by (auto intro!: mult_nonneg_nonneg simp: less_imp_le)
      ultimately show ?thesis by linarith
    qed
  qed
qed

lemma window_bound:
  assumes "orl_ok t orl" "0 < oc_MaxPerSecond (cfgFor orl p)" "in_order t ms" "s \<le> e"
  shows "sent_between s e p (send_run orl ms)
    \<le> of_int (effectiveBurst (cfgFor orl p)) + seconds (e - s) * oc_MaxPerSecond (cfgFor orl p)"
  using assms
proof (induction ms arbitrary: t orl)
  case Nil
  then have "0 \<le> avail t p orl" "avail t p orl \<le> of_int (effectiveBurst (cfgFor orl p))"
    using cur_fields(5,6) [OF Nil.prems(1) order_refl] by auto
  moreover have "0 \<le> seconds (e - s) * oc_MaxPerSecond (cfgFor orl p)"
    using Nil.prems seconds_nonneg [of "e - s"] by (auto intro!: mult_nonneg_nonneg simp: less_imp_le)
  ultimately show ?case by simp
next
  case (Cons c ms)
  obtain now q where c: "c = (now, q)" by force
  obtain orl' r where r: "attempt now q orl = (orl', r)" by force
  let ?R = "oc_MaxPerSecond (cfgFor orl p)"
  have t: "t \<le> now" "in_order now ms" using Cons.prems(3) by (auto simp: c)
  have skip: ?case if "oc_disabled (cfgFor orl q)"
  proof -
    have "q \<noteq> p" using that Cons.prems(2) by (auto simp: oc_disabled_def)
    then show ?thesis
      using that Cons.IH [OF Cons.prems(1,2) in_order_earlier [OF t(2,1)] Cons.prems(4)]
      by (simp add: c sent_between_Cons [of _ _ _ "(now, q)"] sent_between_single)
  qed
  show ?case
  proof (cases "oc_disabled (cfgFor orl q)")
    case True
    then show ?thesis by (rule skip)
  next
    case en: False
    note step = attempt_step [OF Cons.prems(1) t(1) en [unfolded enabled] r]
    show ?thesis
    proof (cases "now < s")
      case True
      have "sent_between s e p (send_run orl' ms) \<le> of_int (effectiveBurst (cfgFor orl p)) + seconds (e - s) * ?R"
        using Cons.IH [OF step(1) _ t(2) Cons.prems(4)] Cons.prems(2) step(2) by simp
      then show ?thesis using True by (simp add: c r en sent_between_append sent_between_single)
    next
      case False
      show ?thesis
      proof (cases "now \<le> e")
        case True
        have ok: "orl_ok now orl" using Cons.prems(1) t(1) by (rule orl_ok_later)
        have "sent_between s e p (send_run orl (c # ms)) \<le> avail now p orl + seconds (e - now) * ?R"
          using t(2) by (intro send_run_bound [OF ok Cons.prems(2) _ True]) (simp add: c)
        moreover have "avail now p orl \<le> of_int (effectiveBurst (cfgFor orl p))"
          using cur_fields(6) [OF ok order_refl] Cons.prems(2) by simp
        moreover have "seconds (e - now) * ?R \<le> seconds (e - s) * ?R"
          using False Cons.prems(2) by (intro mult_right_mono) (auto simp: seconds_def second_def divide_right_mono less_imp_le)
        ultimately show ?thesis by linarith
      next
        case out: False
        then have "sent_between s e p (send_run orl (c # ms)) = 0"
          using in_order_after [OF t(2), of e s p orl'] by (simp add: c r en sent_between_append sent_between_single)
        moreover have "0 \<le> avail t p orl" "avail t p orl \<le> of_int (effectiveBurst (cfgFor orl p))"
          using cur_fields(5,6) [OF Cons.prems(1) order_refl] Cons.prems(2) by auto
        moreover have "0 \<le> seconds (e - s) * ?R"
          using Cons.prems(2,4) seconds_nonneg [of "e - s"] by (auto intro!: mult_nonneg_nonneg simp: less_imp_le)
        ultimately show ?thesis by linarith
      qed
    qed
  qed
qed

section \<open>Properties\<close>

text \<open>
  Whatever attempts come in on whatever platforms, in any interval a paced platform is sent at most its
  burst plus what the rate refills in that time.
\<close>

theorem outgoing_window_bound:
  assumes "0 < oc_MaxPerSecond (cfgFor (NewOutgoingRateLimiter dflt over) p)" and "in_order t ms" and "s \<le> e"
  shows "sent_between s e p (send_run (NewOutgoingRateLimiter dflt over) ms)
    \<le> of_int (effectiveBurst (cfgFor (NewOutgoingRateLimiter dflt over) p))
      + seconds (e - s) * oc_MaxPerSecond (cfgFor (NewOutgoingRateLimiter dflt over) p)"
  by (rule window_bound [OF orl_ok_new assms])

theorem outgoing_window_bound_witness:
  "sent_between 0 1000000000 ''tg'' (send_run (NewOutgoingRateLimiter \<lparr>oc_MaxPerSecond = 1, oc_Burst = 2\<rparr> None)
     [(0, ''tg''), (1, ''tg''), (2, ''tg''), (1000000000, ''tg'')]) \<le> 3"
  using outgoing_window_bound [of "\<lparr>oc_MaxPerSecond = 1, oc_Burst = 2\<rparr>" None "''tg''" 0
      "[(0, ''tg''), (1, ''tg''), (2, ''tg''), (1000000000, ''tg'')]" 0 1000000000]
  by (simp add: cfgFor_def NewOutgoingRateLimiter_def effectiveBurst_def seconds_def second_def)

text \<open>
  A send that has to wait does come through: the sleep asked for is not negative, and once it is over by a
  nanosecond, the next attempt succeeds if no other message of the platform was sent meanwhile.
\<close>

theorem wait_succeeds_after_sleep:
  assumes "orl_ok t orl" and "t \<le> now" and "0 < oc_MaxPerSecond (cfgFor orl p)"
    and "attempt now p orl = (orl', SleepFor d)" and "now + d + 1 \<le> now'"
  shows "0 \<le> d \<and> snd (Wait p ((now, False) # (now', done) # rest) orl) = WaitOk"
proof -
  let ?R = "oc_MaxPerSecond (cfgFor orl p)" and ?a = "avail now p orl"
  note cur = cur_fields [OF assms(1-3)] and step = attempt_step [OF assms(1-4)]
  have a: "?a < 1" using step(4) by simp
  have d: "d = \<lfloor>(1 - ?a) / ?R * of_int second\<rfloor>" using assms(4) cur by (simp add: attempt_eq split: if_splits)
  have d0: "0 \<le> d" using a assms(3) by (simp add: d second_def)
  have "(1 - ?a) / ?R * of_int second < of_int (d + 1)" unfolding d by linarith
  then have "(1 - ?a) * of_int second < of_int (d + 1) * ?R" using assms(3) by (simp add: field_simps)
  also have "\<dots> \<le> of_int (now' - now) * ?R" using assms(3,5) by (intro mult_right_mono) auto
  finally have "1 - ?a < seconds (now' - now) * ?R" by (simp add: seconds_def second_def field_simps)
  moreover have b: "mget (orl_buckets orl') p = Some (cur now p orl)"
    using assms(4) cur(1) a by (auto simp: attempt_eq gomap split: if_splits)
  moreover have "1 \<le> effectiveBurst (cfgFor orl p)" using assms(3) by (simp add: effectiveBurst_pos enabled)
  ultimately have "1 \<le> avail now' p orl'" using cur by (simp add: avail_def [of now' p orl'])
  moreover have "now \<le> now'" using assms(5) d0 by simp
  ultimately have "snd (attempt now' p orl') = Sent"
    using attempt_step(4) [OF step(1), of now' p] step(2) assms(3) by (metis prod.collapse)
  then show ?thesis
    using d0 assms(3,4) by (simp add: Wait_def oc_disabled_def case_prod_unfold split: attempt_result.split)
qed

theorem wait_succeeds_after_sleep_witness:
  "snd (Wait ''tg'' [(10, False), (500000011, True)]
     \<lparr>orl_buckets = [(''tg'', \<lparr>tb_tokens = 0, tb_maxTokens = 2, tb_refillRate = 2, tb_lastRefill = 10\<rparr>)],
      orl_defaults = \<lparr>oc_MaxPerSecond = 2, oc_Burst = 2\<rparr>, orl_overrides = []\<rparr>) = WaitOk"
proof -
  let ?s = "\<lparr>orl_buckets = [(''tg'', \<lparr>tb_tokens = 0, tb_maxTokens = 2, tb_refillRate = 2, tb_lastRefill = 10\<rparr>)],
      orl_defaults = \<lparr>oc_MaxPerSecond = 2, oc_Burst = 2\<rparr>, orl_overrides = []\<rparr>"
  have ok: "orl_ok 10 ?s" by (simp add: orl_ok_def cfgFor_def effectiveBurst_def)
  have r: "attempt 10 ''tg'' ?s = (?s, SleepFor 500000000)"
    by (simp add: attempt_def bucketFor_def refill_def seconds_def second_def)
  show ?thesis
    using wait_succeeds_after_sleep [OF ok _ _ r, of 500000011 True "[]"] by (simp add: cfgFor_def)
qed

end
