(* ===== verification/WorkspaceBinding.thy ===== *)
theory WorkspaceBinding
  imports GoStrings
begin

text \<open>
  Bindings of channels to workspaces (\<open>src/core/workspace_binding.go\<close>), persisted to a file several
  processes share: every operation first rereads the file when its modification time or size has changed.
  What \<open>os.Stat\<close> says of the file and what it contains are in \<open>bf_stat\<close> and \<open>bf_content\<close>; an empty file is
  \<open>Doc []\<close>. The result of a write is an argument. Bindings in the maps are no nil pointers (the code never
  stores one). The lenient parsing of times is part of decoding the file.
\<close>

definition sharedWorkspaceBindingsKey :: string where "sharedWorkspaceBindingsKey = ''shared''"

record workspace_binding =
  wb_ChannelName :: string
  wb_Workspace :: string
  wb_BoundAt :: time

type_synonym bindings = "(string, (string, workspace_binding) gomap) gomap"

datatype stat_result = StatMissing | StatError | StatOk time int

record binding_file =
  bf_stat :: stat_result
  bf_content :: "bindings stored"

text \<open>A write fails, or replaces the file; \<open>Written st\<close> says what \<open>os.Stat\<close> then answers.\<close>

datatype write_result = WriteFails | Written stat_result

record binding_manager =
  wbm_bindings :: bindings
  wbm_storePath :: string
  wbm_lastLoadedModTime :: time
  wbm_lastLoadedSize :: int

definition legacyWorkspaceChannelKey :: "string \<Rightarrow> string" where
  "legacyWorkspaceChannelKey channelKey = (case cut (CHR '':'') channelKey of (_, Some rest) \<Rightarrow> rest | (_, None) \<Rightarrow> channelKey)"

definition workspaceChannelKeyCandidates :: "string \<Rightarrow> string list" where
  "workspaceChannelKeyCandidates channelKey =
     (if channelKey = [] then []
      else let legacyKey = legacyWorkspaceChannelKey channelKey
           in if legacyKey = channelKey then [channelKey] else [channelKey, legacyKey])"

fun first_binding :: "(string, workspace_binding) gomap \<Rightarrow> string list \<Rightarrow> workspace_binding option" where
  "first_binding proj [] = None"
| "first_binding proj (c # cs) = (case mget proj c of Some b \<Rightarrow> Some b | None \<Rightarrow> first_binding proj cs)"

definition lookupLocked :: "string \<Rightarrow> string \<Rightarrow> bindings \<Rightarrow> workspace_binding option" where
  "lookupLocked projectKey channelKey bs =
     (case mget bs projectKey of
        None \<Rightarrow> None
      | Some proj \<Rightarrow> first_binding proj (workspaceChannelKeyCandidates channelKey))"

definition refreshLocked :: "binding_file \<Rightarrow> binding_manager \<Rightarrow> binding_manager" where
  "refreshLocked f m =
     (if wbm_storePath m = [] then m
      else case bf_stat f of
             StatMissing \<Rightarrow> m\<lparr>wbm_bindings := [], wbm_lastLoadedModTime := 0, wbm_lastLoadedSize := 0\<rparr>
           | StatError \<Rightarrow> m
           | StatOk modTime sz \<Rightarrow>
               if wbm_lastLoadedModTime m \<noteq> 0 \<and> modTime = wbm_lastLoadedModTime m \<and> sz = wbm_lastLoadedSize m then m
               else (case bf_content f of
                       Doc loaded \<Rightarrow> m\<lparr>wbm_bindings := loaded, wbm_lastLoadedModTime := modTime, wbm_lastLoadedSize := sz\<rparr>
                     | _ \<Rightarrow> m))"

definition wbm_saveLocked :: "write_result \<Rightarrow> binding_file \<Rightarrow> binding_manager \<Rightarrow> binding_file \<times> binding_manager" where
  "wbm_saveLocked w f m =
     (if wbm_storePath m = [] then (f, m)
      else case w of
             WriteFails \<Rightarrow> (f, m)
           | Written st \<Rightarrow>
               (\<lparr>bf_stat = st, bf_content = Doc (wbm_bindings m)\<rparr>,
                case st of StatOk modTime sz \<Rightarrow> m\<lparr>wbm_lastLoadedModTime := modTime, wbm_lastLoadedSize := sz\<rparr> | _ \<Rightarrow> m))"

definition NewWorkspaceBindingManager :: "string \<Rightarrow> binding_file \<Rightarrow> binding_manager" where
  "NewWorkspaceBindingManager path f =
     (let m = \<lparr>wbm_bindings = [], wbm_storePath = path, wbm_lastLoadedModTime = 0, wbm_lastLoadedSize = 0\<rparr>
      in if path \<noteq> [] then refreshLocked f m else m)"

definition Bind :: "time \<Rightarrow> string \<Rightarrow> string \<Rightarrow> string \<Rightarrow> string \<Rightarrow> write_result
    \<Rightarrow> binding_file \<Rightarrow> binding_manager \<Rightarrow> binding_file \<times> binding_manager" where
  "Bind now projectKey channelKey channelName workspace w f m =
     (let m = refreshLocked f m;
          proj = mget_or [] (wbm_bindings m) projectKey;
          b = \<lparr>wb_ChannelName = channelName, wb_Workspace = workspace, wb_BoundAt = now\<rparr>
      in wbm_saveLocked w f (m\<lparr>wbm_bindings := mput projectKey (mput channelKey b proj) (wbm_bindings m)\<rparr>))"

definition MigrateChannelKey :: "string \<Rightarrow> string \<Rightarrow> string \<Rightarrow> write_result
    \<Rightarrow> binding_file \<Rightarrow> binding_manager \<Rightarrow> (binding_file \<times> binding_manager) \<times> bool" where
  "MigrateChannelKey projectKey oldChannelKey newChannelKey w f m =
     (if oldChannelKey = [] \<or> newChannelKey = [] \<or> oldChannelKey = newChannelKey then ((f, m), False)
      else let m = refreshLocked f m
           in case mget (wbm_bindings m) projectKey of
                None \<Rightarrow> ((f, m), False)
              | Some proj \<Rightarrow>
                  if lookupLocked projectKey newChannelKey (wbm_bindings m) \<noteq> None then ((f, m), False)
                  else (case first_binding proj (workspaceChannelKeyCandidates oldChannelKey) of
                          None \<Rightarrow> ((f, m), False)
                        | Some b \<Rightarrow>
                            (wbm_saveLocked w f
                               (m\<lparr>wbm_bindings := mput projectKey (mput newChannelKey b proj) (wbm_bindings m)\<rparr>), True)))"

definition Unbind :: "string \<Rightarrow> string \<Rightarrow> write_result \<Rightarrow> binding_file \<Rightarrow> binding_manager \<Rightarrow> binding_file \<times> binding_manager" where
  "Unbind projectKey channelKey w f m =
     (let m = refreshLocked f m;
          m = (case mget (wbm_bindings m) projectKey of
                 None \<Rightarrow> m
               | Some proj \<Rightarrow>
                   let proj' = fold mdel (workspaceChannelKeyCandidates channelKey) proj
                   in m\<lparr>wbm_bindings := (if proj' = [] then mdel projectKey (wbm_bindings m)
                                         else mput projectKey proj' (wbm_bindings m))\<rparr>)
      in wbm_saveLocked w f m)"

definition wb_Lookup :: "string \<Rightarrow> string \<Rightarrow> binding_file \<Rightarrow> binding_manager \<Rightarrow> binding_manager \<times> workspace_binding option" where
  "wb_Lookup projectKey channelKey f m =
     (let m = refreshLocked f m in (m, lookupLocked projectKey channelKey (wbm_bindings m)))"

definition LookupEffective :: "string \<Rightarrow> string \<Rightarrow> binding_file \<Rightarrow> binding_manager
    \<Rightarrow> binding_manager \<times> (workspace_binding option \<times> string)" where
  "LookupEffective projectKey channelKey f m =
     (let m = refreshLocked f m
      in case lookupLocked projectKey channelKey (wbm_bindings m) of
           Some b \<Rightarrow> (m, Some b, projectKey)
         | None \<Rightarrow>
             (case lookupLocked sharedWorkspaceBindingsKey channelKey (wbm_bindings m) of
                Some b \<Rightarrow> (m, Some b, sharedWorkspaceBindingsKey)
              | None \<Rightarrow> (m, None, [])))"

definition ListByProject :: "string \<Rightarrow> binding_file \<Rightarrow> binding_manager \<Rightarrow> binding_manager \<times> (string, workspace_binding) gomap" where
  "ListByProject projectKey f m = (let m = refreshLocked f m in (m, mget_or [] (wbm_bindings m) projectKey))"

section \<open>Look-ups\<close>

text \<open>The key of a channel binding comes first, the legacy key (without the platform) second.\<close>

lemma lookupLocked_eq:
  "lookupLocked p c bs =
     (if c = [] then None
      else case mget (mget_or [] bs p) c of Some b \<Rightarrow> Some b | None \<Rightarrow> mget (mget_or [] bs p) (legacyWorkspaceChannelKey c))"
  by (auto simp: lookupLocked_def workspaceChannelKeyCandidates_def mget_or_def Let_def split: option.split)

lemma first_binding_mem: "first_binding proj cs = None \<longleftrightarrow> (\<forall>c \<in> set cs. mget proj c = None)"
  by (induction cs) (auto split: option.split)

lemma lookupLocked_put_project:
  "lookupLocked p c (mput p' proj bs) = (if p = p' then first_binding proj (workspaceChannelKeyCandidates c) else lookupLocked p c bs)"
  by (simp add: lookupLocked_def gomap)

text \<open>
  A manager is coherent with the file when the state it would not reread is what the file holds.
\<close>

definition coherent :: "binding_file \<Rightarrow> binding_manager \<Rightarrow> bool" where
  "coherent f m \<longleftrightarrow> (bf_stat f = StatOk (wbm_lastLoadedModTime m) (wbm_lastLoadedSize m) \<and> wbm_lastLoadedModTime m \<noteq> 0
     \<longrightarrow> bf_content f = Doc (wbm_bindings m))"

text \<open>The bindings the file holds; a missing file holds none.\<close>

definition file_bindings :: "binding_file \<Rightarrow> bindings option" where
  "file_bindings f = (case bf_stat f of
     StatMissing \<Rightarrow> Some []
   | StatError \<Rightarrow> None
   | StatOk _ _ \<Rightarrow> (case bf_content f of Doc bs \<Rightarrow> Some bs | _ \<Rightarrow> None))"

lemma refresh_reads_file:
  assumes "wbm_storePath m \<noteq> []" "coherent f m" "file_bindings f = Some bs"
  shows "wbm_bindings (refreshLocked f m) = bs" and "coherent f (refreshLocked f m)"
  using assms
  by (auto simp: refreshLocked_def coherent_def file_bindings_def split: stat_result.splits stored.splits if_splits)

lemma refresh_path [simp]: "wbm_storePath (refreshLocked f m) = wbm_storePath m"
  by (auto simp: refreshLocked_def split: stat_result.split stored.split)

lemma refresh_bindings_update [simp]: "wbm_storePath (m\<lparr>wbm_bindings := b\<rparr>) = wbm_storePath m"
  by simp

text \<open>After a successful write the file holds the bindings of the writer, and the writer is coherent with it.\<close>

lemma save_writes:
  assumes "wbm_storePath m \<noteq> []" "wbm_saveLocked (Written (StatOk t n)) f m = (f', m')"
  shows "file_bindings f' = Some (wbm_bindings m)" and "wbm_bindings m' = wbm_bindings m" and "coherent f' m'"
    and "wbm_storePath m' = wbm_storePath m" and "bf_stat f' = StatOk t n"
  using assms by (auto simp: wbm_saveLocked_def file_bindings_def coherent_def)

text \<open>Each writing operation, on the bindings alone.\<close>

lemma Bind_file:
  assumes "wbm_storePath m \<noteq> []" "coherent f m" "file_bindings f = Some bs"
    and "Bind now p c name ws (Written (StatOk t n)) f m = (f', m')"
  shows "file_bindings f' = Some (mput p (mput c \<lparr>wb_ChannelName = name, wb_Workspace = ws, wb_BoundAt = now\<rparr> (mget_or [] bs p)) bs)"
    and "coherent f' m'"
proof -
  have r: "wbm_bindings (refreshLocked f m) = bs" by (rule refresh_reads_file [OF assms(1-3)])
  have s: "wbm_saveLocked (Written (StatOk t n)) f ((refreshLocked f m)\<lparr>wbm_bindings :=
      mput p (mput c \<lparr>wb_ChannelName = name, wb_Workspace = ws, wb_BoundAt = now\<rparr> (mget_or [] bs p)) bs\<rparr>) = (f', m')"
    using assms(4) by (simp add: Bind_def Let_def r)
  show "file_bindings f' = Some (mput p (mput c \<lparr>wb_ChannelName = name, wb_Workspace = ws, wb_BoundAt = now\<rparr> (mget_or [] bs p)) bs)"
    using save_writes(1) [OF _ s] assms(1) by simp
  show "coherent f' m'" using save_writes(3) [OF _ s] assms(1) by simp
qed

lemma lookup_after_bind:
  "c \<noteq> [] \<Longrightarrow> lookupLocked p c (mput p (mput c b (mget_or [] bs p)) bs) = Some b"
  by (simp add: lookupLocked_eq gomap)

lemma lookup_other_after_bind:
  "q \<noteq> p \<or> (d \<noteq> c \<and> legacyWorkspaceChannelKey d \<noteq> c) \<Longrightarrow>
   lookupLocked q d (mput p (mput c b (mget_or [] bs p)) bs) = lookupLocked q d bs"
  by (auto simp: lookupLocked_eq gomap split: option.split)

section \<open>Properties\<close>

text \<open>
  A binding made by one process is seen by every process that shares the file: after a successful
  \<open>Bind\<close>, a look-up in any manager coherent with the file finds the new binding under its channel, and every
  look-up that the new key does not serve answers as before.
\<close>

theorem binding_seen_by_every_process:
  assumes "wbm_storePath m \<noteq> []" and "coherent f m" and "file_bindings f = Some bs" and "c \<noteq> []"
    and "Bind now p c name ws (Written (StatOk t n)) f m = (f', m')"
    and "wbm_storePath m2 \<noteq> []" and "coherent f' m2"
  shows "snd (wb_Lookup p c f' m2) = Some \<lparr>wb_ChannelName = name, wb_Workspace = ws, wb_BoundAt = now\<rparr>
    \<and> snd (LookupEffective p c f' m2) = (Some \<lparr>wb_ChannelName = name, wb_Workspace = ws, wb_BoundAt = now\<rparr>, p)
    \<and> (\<forall>q d. q \<noteq> p \<or> (d \<noteq> c \<and> legacyWorkspaceChannelKey d \<noteq> c) \<longrightarrow>
          snd (wb_Lookup q d f' m2) = lookupLocked q d bs)"
proof -
  have "wbm_bindings (refreshLocked f' m2)
      = mput p (mput c \<lparr>wb_ChannelName = name, wb_Workspace = ws, wb_BoundAt = now\<rparr> (mget_or [] bs p)) bs"
    by (rule refresh_reads_file [OF assms(6,7) Bind_file(1) [OF assms(1-3,5)]])
  then show ?thesis
    using assms(4) lookup_after_bind [of c p _ bs] lookup_other_after_bind [of _ p _ c _ bs]
    by (simp add: wb_Lookup_def LookupEffective_def Let_def)
qed

theorem binding_seen_by_every_process_witness:
  "snd (wb_Lookup ''p'' ''tg:1''
     \<lparr>bf_stat = StatOk 9 40, bf_content = Doc [(''p'', [(''tg:1'', \<lparr>wb_ChannelName = ''n'', wb_Workspace = ''/w'', wb_BoundAt = 5\<rparr>)])]\<rparr>
     (NewWorkspaceBindingManager ''f'' \<lparr>bf_stat = StatMissing, bf_content = NoFile\<rparr>))
   = Some \<lparr>wb_ChannelName = ''n'', wb_Workspace = ''/w'', wb_BoundAt = 5\<rparr>"
proof -
  let ?f = "\<lparr>bf_stat = StatMissing, bf_content = NoFile\<rparr>"
  let ?m = "NewWorkspaceBindingManager ''f'' ?f"
  have m: "wbm_storePath ?m \<noteq> []" "coherent ?f ?m" "file_bindings ?f = Some []"
    by (simp_all add: NewWorkspaceBindingManager_def refreshLocked_def coherent_def file_bindings_def)
  have b: "Bind 5 ''p'' ''tg:1'' ''n'' ''/w'' (Written (StatOk 9 40)) ?f ?m =
     (\<lparr>bf_stat = StatOk 9 40, bf_content = Doc [(''p'', [(''tg:1'', \<lparr>wb_ChannelName = ''n'', wb_Workspace = ''/w'', wb_BoundAt = 5\<rparr>)])]\<rparr>,
      \<lparr>wbm_bindings = [(''p'', [(''tg:1'', \<lparr>wb_ChannelName = ''n'', wb_Workspace = ''/w'', wb_BoundAt = 5\<rparr>)])],
       wbm_storePath = ''f'', wbm_lastLoadedModTime = 9, wbm_lastLoadedSize = 40\<rparr>)"
    by code_simp
  show ?thesis
    by (rule binding_seen_by_every_process [OF m _ b, of ?m, THEN conjunct1])
      (simp_all add: NewWorkspaceBindingManager_def refreshLocked_def coherent_def)
qed

text \<open>
  Migrating a channel key never overwrites: it succeeds exactly when the project has a binding for the
  old key and none that serves the new one; then the new key has the old key's binding, and every key that had
  a binding keeps it.
\<close>

theorem migrate_never_overwrites:
  assumes "wbm_storePath m \<noteq> []" and "coherent f m" and "file_bindings f = Some bs"
    and "old \<noteq> []" and "new \<noteq> []" and "old \<noteq> new"
    and "MigrateChannelKey p old new w f m = ((f', m'), ok)"
  shows "(ok \<longleftrightarrow> lookupLocked p old bs \<noteq> None \<and> lookupLocked p new bs = None)
    \<and> (ok \<longrightarrow> lookupLocked p new (wbm_bindings m') = lookupLocked p old bs)
    \<and> (\<forall>q d. lookupLocked q d bs \<noteq> None \<longrightarrow> lookupLocked q d (wbm_bindings m') = lookupLocked q d bs)"
proof -
  have r: "wbm_bindings (refreshLocked f m) = bs" by (rule refresh_reads_file [OF assms(1-3)])
  have saved: "wbm_bindings (snd (wbm_saveLocked w f M)) = wbm_bindings M" for M
    by (auto simp: wbm_saveLocked_def split: write_result.split stat_result.split)
  have old: "lookupLocked p old bs = (case mget bs p of None \<Rightarrow> None | Some proj \<Rightarrow> first_binding proj (workspaceChannelKeyCandidates old))"
    by (simp add: lookupLocked_def)
  show ?thesis
  proof (cases "lookupLocked p old bs \<noteq> None \<and> lookupLocked p new bs = None")
    case True
    then obtain proj b where b: "mget bs p = Some proj" "first_binding proj (workspaceChannelKeyCandidates old) = Some b"
      by (auto simp: old split: option.splits)
    have ok: "ok" and m': "wbm_bindings m' = mput p (mput new b proj) bs"
      using assms(4-7) True b saved [of "(refreshLocked f m)\<lparr>wbm_bindings := mput p (mput new b proj) bs\<rparr>"]
      by (auto simp: MigrateChannelKey_def Let_def r)
    have proj: "mget_or [] bs p = proj" using b by (simp add: mget_or_def)
    have none: "mget proj new = None" using True assms(5) by (auto simp: lookupLocked_eq proj split: option.splits)
    have "lookupLocked q d (wbm_bindings m') = lookupLocked q d bs" if "lookupLocked q d bs \<noteq> None" for q d
    proof (cases "q = p")
      case same: True
      have d: "d \<noteq> []" "d \<noteq> new" using that True same by (auto simp: lookupLocked_eq)
      have "mget_or [] (mput p (mput new b proj) bs) p = mput new b proj" by (simp add: gomap)
      then show ?thesis
        using that d none same by (auto simp: lookupLocked_eq [of p d] m' proj gomap split: option.splits)
    next
      case False
      then show ?thesis by (simp add: lookupLocked_def m' gomap)
    qed
    moreover have "lookupLocked p new (wbm_bindings m') = lookupLocked p old bs"
      using assms(5) b by (simp add: lookupLocked_eq [of p new] m' gomap old)
    ultimately show ?thesis using True ok by blast
  next
    case False
    then have "\<not> ok \<and> wbm_bindings m' = bs"
      using assms(4-7) r by (auto simp: MigrateChannelKey_def Let_def old split: option.splits if_splits)
    then show ?thesis using False by auto
  qed
qed

theorem migrate_never_overwrites_witness:
  "snd (MigrateChannelKey ''p'' ''1'' ''1:2'' WriteFails
     \<lparr>bf_stat = StatOk 9 40, bf_content = Doc [(''p'', [(''1'', \<lparr>wb_ChannelName = ''n'', wb_Workspace = ''/w'', wb_BoundAt = 5\<rparr>)])]\<rparr>
     (NewWorkspaceBindingManager ''f'' \<lparr>bf_stat = StatMissing, bf_content = NoFile\<rparr>))"
proof -
  let ?bs = "[(''p'', [(''1'', \<lparr>wb_ChannelName = ''n'', wb_Workspace = ''/w'', wb_BoundAt = 5\<rparr>)])]"
  let ?f = "\<lparr>bf_stat = StatOk 9 40, bf_content = Doc ?bs\<rparr>"
  let ?m = "NewWorkspaceBindingManager ''f'' \<lparr>bf_stat = StatMissing, bf_content = NoFile\<rparr>"
  have m: "wbm_storePath ?m \<noteq> []" "coherent ?f ?m" "file_bindings ?f = Some ?bs"
    by (simp_all add: NewWorkspaceBindingManager_def refreshLocked_def coherent_def file_bindings_def)
  have "lookupLocked ''p'' ''1'' ?bs \<noteq> None \<and> lookupLocked ''p'' ''1:2'' ?bs = None" by code_simp
  moreover obtain f' m' ok where e: "MigrateChannelKey ''p'' ''1'' ''1:2'' WriteFails ?f ?m = ((f', m'), ok)" by (metis prod.exhaust)
  ultimately show ?thesis using migrate_never_overwrites [OF m _ _ _ e] by simp
qed

end
