(* ===== verification/DirHistory.thy ===== *)
theory DirHistory
  imports GoStrings
begin

text \<open>
  The history of working directories per project (\<open>src/core/dir_history.go\<close>), most recent first. The store
  path is the result of \<open>filepath.Join\<close>; \<open>dh_disk\<close> is the file at it, whose document may be \<open>null\<close>
  (\<open>Doc None\<close>). A nil slice reads as an empty one.
\<close>

definition defaultDirHistorySize :: int where "defaultDirHistorySize = 10"

record dir_history =
  dh_storePath :: string
  dh_entries :: "(string, string list) gomap"
  dh_maxSize :: int
  dh_disk :: "(string, string list) gomap option stored"
  dh_writable :: bool

definition dh_load :: "dir_history \<Rightarrow> dir_history" where
  "dh_load dh =
     (if dh_storePath dh = [] then dh
      else case dh_disk dh of
             Doc (Some entries) \<Rightarrow> dh\<lparr>dh_entries := entries\<rparr>
           | _ \<Rightarrow> dh)"

definition NewDirHistory :: "string \<Rightarrow> (string, string list) gomap option stored \<Rightarrow> bool \<Rightarrow> dir_history" where
  "NewDirHistory path disk writable =
     dh_load \<lparr>dh_storePath = path, dh_entries = [], dh_maxSize = defaultDirHistorySize,
              dh_disk = disk, dh_writable = writable\<rparr>"

definition dh_saveLocked :: "dir_history \<Rightarrow> dir_history" where
  "dh_saveLocked dh =
     (if dh_storePath dh = [] \<or> \<not> dh_writable dh then dh else dh\<lparr>dh_disk := Doc (Some (dh_entries dh))\<rparr>)"

text \<open>Slicing \<open>entries[:maxSize]\<close> is reached only with \<open>maxSize \<ge> 1\<close>, since \<open>SetMaxSize\<close> sees to it.\<close>

definition dh_Add :: "string \<Rightarrow> string \<Rightarrow> dir_history \<Rightarrow> dir_history" where
  "dh_Add project dir dh =
     (if dir = [] then dh
      else let entries = dir # remove_first ((=) dir) (mget_or [] (dh_entries dh) project);
               entries = (if int (length entries) > dh_maxSize dh then take (nat (dh_maxSize dh)) entries else entries)
           in dh_saveLocked (dh\<lparr>dh_entries := mput project entries (dh_entries dh)\<rparr>))"

definition dh_List :: "string \<Rightarrow> dir_history \<Rightarrow> string list" where
  "dh_List project dh = mget_or [] (dh_entries dh) project"

definition dh_Get :: "string \<Rightarrow> int \<Rightarrow> dir_history \<Rightarrow> string" where
  "dh_Get project index dh =
     (let entries = mget_or [] (dh_entries dh) project
      in if index < 1 \<or> index > int (length entries) then [] else entries ! nat (index - 1))"

definition dh_Previous :: "string \<Rightarrow> dir_history \<Rightarrow> string" where
  "dh_Previous project dh = dh_Get project 2 dh"

definition dh_Contains :: "string \<Rightarrow> string \<Rightarrow> dir_history \<Rightarrow> bool" where
  "dh_Contains project dir dh = list_ex (\<lambda>d. d = dir) (mget_or [] (dh_entries dh) project)"

definition dh_SetMaxSize :: "int \<Rightarrow> dir_history \<Rightarrow> dir_history" where
  "dh_SetMaxSize n dh = dh\<lparr>dh_maxSize := (if n < 1 then 1 else n)\<rparr>"

section \<open>Most recent first\<close>

text \<open>Moving an element to the front and trimming can be done in either order.\<close>

lemma take_remove1_front:
  "distinct xs \<Longrightarrow> 0 < n \<Longrightarrow> take n (d # remove1 d (take n xs)) = take n (d # remove1 d xs)"
proof (induction xs arbitrary: n)
  case (Cons x xs)
  obtain m where m: "n = Suc m" using Cons.prems(2) by (cases n) auto
  show ?case
  proof (cases "d = x")
    case True
    then show ?thesis by (simp add: m)
  next
    case False
    then show ?thesis using Cons.IH [of m] Cons.prems by (cases m) (auto simp: m)
  qed
qed simp

lemma remdups_snoc: "remdups (xs @ [x]) = remove1 x (remdups xs) @ [x]"
  by (induction xs) (auto simp: remove1_append remove1_idem)

lemma rev_remdups_snoc: "rev (remdups (xs @ [x])) = x # remove1 x (rev (remdups xs))"
  by (simp add: remdups_snoc distinct_remove1_removeAll removeAll_filter_not_eq rev_filter)

lemma dh_Add_entries:
  assumes "dir \<noteq> []" "1 \<le> dh_maxSize dh"
  shows "dh_List p (dh_Add project dir dh) =
     (if p = project then take (nat (dh_maxSize dh)) (dir # remove1 dir (dh_List p dh)) else dh_List p dh)"
    and "dh_maxSize (dh_Add project dir dh) = dh_maxSize dh"
  using assms
  by (auto simp: dh_Add_def dh_saveLocked_def dh_List_def Let_def gomap remove_first_remove1)

lemma dh_List_run:
  assumes "[] \<notin> set ds" "1 \<le> dh_maxSize dh" "dh_List p dh = []"
  shows "dh_List p (fold (dh_Add p) ds dh) = take (nat (dh_maxSize dh)) (rev (remdups ds))
    \<and> dh_maxSize (fold (dh_Add p) ds dh) = dh_maxSize dh"
  using assms(1)
proof (induction ds rule: rev_induct)
  case (snoc d ds)
  let ?h = "fold (dh_Add p) ds dh" and ?n = "nat (dh_maxSize dh)"
  have h: "dh_List p ?h = take ?n (rev (remdups ds))" "dh_maxSize ?h = dh_maxSize dh" and d: "d \<noteq> []"
    using snoc by auto
  have "take ?n (d # remove1 d (take ?n (rev (remdups ds)))) = take ?n (rev (remdups (ds @ [d])))"
    using assms(2) by (subst take_remove1_front) (auto simp: rev_remdups_snoc)
  then show ?case using h d assms(2) dh_Add_entries(1) [of d ?h p p] dh_Add_entries(2) [of d ?h p] by simp
qed (simp add: assms)

text \<open>
  However often directories of a project are entered, interleaved with anything done in other projects,
  its history is the last ten different ones, the most recent first; \<open>Previous\<close> is the last one but one.
\<close>

theorem dir_history_is_recency_list:
  assumes "[] \<notin> snd ` set adds"
  shows "dh_List p (fold (\<lambda>(q, d). dh_Add q d) adds (NewDirHistory path NoFile w))
    = take 10 (rev (remdups (map snd (filter (\<lambda>(q, d). q = p) adds))))"
proof -
  have step: "dh_List p (fold (\<lambda>(q, d). dh_Add q d) adds dh) = dh_List p (fold (dh_Add p) (map snd (filter (\<lambda>(q, d). q = p) adds)) dh')"
    if "dh_List p dh = dh_List p dh'" "1 \<le> dh_maxSize dh" "dh_maxSize dh' = dh_maxSize dh" for dh dh'
    using assms that
  proof (induction adds arbitrary: dh dh')
    case (Cons a adds)
    obtain q d where a: "a = (q, d)" by force
    have d: "d \<noteq> []" using Cons.prems(1) by (force simp: a)
    show ?case
      using Cons dh_Add_entries(1) [OF d, of dh p q] dh_Add_entries(1) [OF d, of dh' p p]
        dh_Add_entries(2) [OF d, of dh q] dh_Add_entries(2) [OF d, of dh' p] d
      by (cases "q = p") (simp_all add: a)
  qed simp
  let ?h = "NewDirHistory path NoFile w"
  have h: "dh_List p ?h = []" "dh_maxSize ?h = 10"
    by (auto simp: NewDirHistory_def dh_load_def dh_List_def mget_or_def defaultDirHistorySize_def)
  have "[] \<notin> set (map snd (filter (\<lambda>(q, d). q = p) adds))" using assms by force
  then show ?thesis using dh_List_run [of _ ?h p] step [of ?h ?h] h by simp
qed

theorem dir_history_is_recency_list_witness:
  "dh_List ''p'' (fold (\<lambda>(q, d). dh_Add q d) [(''p'', ''a''), (''q'', ''x''), (''p'', ''b''), (''p'', ''a'')]
     (NewDirHistory ''f'' NoFile True)) = [''a'', ''b'']"
  by (subst dir_history_is_recency_list) simp_all

end
