(* ===== verification/ProjectState.thy ===== *)
theory ProjectState
  imports GoStrings
begin

text \<open>
  Runtime overrides of a project (\<open>src/core/projectstate.go\<close>): the working directory, and per workspace or
  channel a directory, a model, a reasoning effort and an injected prompt. The four maps are nil until
  something is set, and become nil again when the last entry is cleared; \<open>None\<close> is a nil map.
\<close>

type_synonym override_map = "(string, string) gomap option"

record project_state_data =
  ps_WorkDirOverride :: string
  ps_WorkspaceDirOverrides :: override_map
  ps_WorkspaceModelOverrides :: override_map
  ps_InjectPrompts :: override_map
  ps_WorkspaceEffortOverrides :: override_map

record project_state_store =
  pss_storePath :: string
  pss_state :: project_state_data
  pss_disk :: "project_state_data stored"
  pss_writable :: bool

section \<open>Maps that are nil when empty\<close>

definition om_get :: "override_map \<Rightarrow> string \<Rightarrow> string" where
  "om_get m k = (case m of None \<Rightarrow> [] | Some m \<Rightarrow> mget_or [] m k)"

definition om_put :: "string \<Rightarrow> string \<Rightarrow> override_map \<Rightarrow> override_map" where
  "om_put k v m = Some (mput k v (case m of None \<Rightarrow> [] | Some m \<Rightarrow> m))"

definition om_del :: "string \<Rightarrow> override_map \<Rightarrow> override_map" where
  "om_del k m = (case m of None \<Rightarrow> None | Some m \<Rightarrow> let m' = mdel k m in if m' = [] then None else Some m')"

text \<open>They keep the contract of a key-value map.\<close>

definition om_lookup :: "override_map \<Rightarrow> string \<Rightarrow> string option" where
  "om_lookup m k = (case m of None \<Rightarrow> None | Some m \<Rightarrow> mget m k)"

interpretation om: key_value_map om_lookup om_put om_del "\<lambda>_. True"
proof unfold_locales
  fix m :: override_map and k k' v
  show "om_lookup (om_put k v m) k' = (if k' = k then Some v else om_lookup m k')"
    by (simp add: om_lookup_def om_put_def gomap split: option.split)
  show "om_lookup (om_del k m) k' = (if k' = k then None else om_lookup m k')"
  proof (cases m)
    case (Some l)
    have "mget (mdel k l) k' = (if k' = k then None else mget l k')" by (rule mget_del)
    then show ?thesis by (auto simp: Some om_lookup_def om_del_def Let_def)
  qed (simp add: om_lookup_def om_del_def)
qed simp_all

lemma om_get_lookup: "om_get m k = (case om_lookup m k of None \<Rightarrow> [] | Some v \<Rightarrow> v)"
  by (simp add: om_get_def om_lookup_def mget_or_def split: option.split)

lemma om_get_put [gomap]: "om_get (om_put k v m) k' = (if k' = k then v else om_get m k')"
  by (simp add: om_get_lookup om.lookup_insert)

lemma om_get_del [gomap]: "om_get (om_del k m) k' = (if k' = k then [] else om_get m k')"
  by (simp add: om_get_lookup om.lookup_remove)

section \<open>The store\<close>

definition WorkDirOverride :: "project_state_store \<Rightarrow> string" where
  "WorkDirOverride ps = ps_WorkDirOverride (pss_state ps)"

definition SetWorkDirOverride :: "string \<Rightarrow> project_state_store \<Rightarrow> project_state_store" where
  "SetWorkDirOverride dir ps = ps\<lparr>pss_state := (pss_state ps)\<lparr>ps_WorkDirOverride := dir\<rparr>\<rparr>"

definition ClearWorkDirOverride :: "project_state_store \<Rightarrow> project_state_store" where
  "ClearWorkDirOverride ps = SetWorkDirOverride [] ps"

definition WorkspaceDirOverride :: "string \<Rightarrow> project_state_store \<Rightarrow> string" where
  "WorkspaceDirOverride workspace ps = om_get (ps_WorkspaceDirOverrides (pss_state ps)) workspace"

definition SetWorkspaceDirOverride :: "string \<Rightarrow> string \<Rightarrow> project_state_store \<Rightarrow> project_state_store" where
  "SetWorkspaceDirOverride workspace dir ps =
     ps\<lparr>pss_state := (pss_state ps)\<lparr>ps_WorkspaceDirOverrides := om_put workspace dir (ps_WorkspaceDirOverrides (pss_state ps))\<rparr>\<rparr>"

definition ClearWorkspaceDirOverride :: "string \<Rightarrow> project_state_store \<Rightarrow> project_state_store" where
  "ClearWorkspaceDirOverride workspace ps =
     ps\<lparr>pss_state := (pss_state ps)\<lparr>ps_WorkspaceDirOverrides := om_del workspace (ps_WorkspaceDirOverrides (pss_state ps))\<rparr>\<rparr>"

definition WorkspaceModelOverride :: "string \<Rightarrow> project_state_store \<Rightarrow> string" where
  "WorkspaceModelOverride workspace ps = om_get (ps_WorkspaceModelOverrides (pss_state ps)) workspace"

definition ClearWorkspaceModelOverride :: "string \<Rightarrow> project_state_store \<Rightarrow> project_state_store" where
  "ClearWorkspaceModelOverride workspace ps =
     ps\<lparr>pss_state := (pss_state ps)\<lparr>ps_WorkspaceModelOverrides := om_del workspace (ps_WorkspaceModelOverrides (pss_state ps))\<rparr>\<rparr>"

definition SetWorkspaceModelOverride :: "string \<Rightarrow> string \<Rightarrow> project_state_store \<Rightarrow> project_state_store" where
  "SetWorkspaceModelOverride workspace model ps =
     (if model = [] then ClearWorkspaceModelOverride workspace ps
      else ps\<lparr>pss_state := (pss_state ps)\<lparr>ps_WorkspaceModelOverrides := om_put workspace model (ps_WorkspaceModelOverrides (pss_state ps))\<rparr>\<rparr>)"

definition WorkspaceEffortOverride :: "string \<Rightarrow> project_state_store \<Rightarrow> string" where
  "WorkspaceEffortOverride workspace ps = om_get (ps_WorkspaceEffortOverrides (pss_state ps)) workspace"

definition ClearWorkspaceEffortOverride :: "string \<Rightarrow> project_state_store \<Rightarrow> project_state_store" where
  "ClearWorkspaceEffortOverride workspace ps =
     ps\<lparr>pss_state := (pss_state ps)\<lparr>ps_WorkspaceEffortOverrides := om_del workspace (ps_WorkspaceEffortOverrides (pss_state ps))\<rparr>\<rparr>"

definition SetWorkspaceEffortOverride :: "string \<Rightarrow> string \<Rightarrow> project_state_store \<Rightarrow> project_state_store" where
  "SetWorkspaceEffortOverride workspace effort ps =
     (if effort = [] then ClearWorkspaceEffortOverride workspace ps
      else ps\<lparr>pss_state := (pss_state ps)\<lparr>ps_WorkspaceEffortOverrides := om_put workspace effort (ps_WorkspaceEffortOverrides (pss_state ps))\<rparr>\<rparr>)"

definition GetInjectPrompt :: "string \<Rightarrow> project_state_store \<Rightarrow> string" where
  "GetInjectPrompt channelID ps = om_get (ps_InjectPrompts (pss_state ps)) channelID"

definition SetInjectPrompt :: "string \<Rightarrow> string \<Rightarrow> project_state_store \<Rightarrow> project_state_store" where
  "SetInjectPrompt channelID prompt ps =
     ps\<lparr>pss_state := (pss_state ps)\<lparr>ps_InjectPrompts := om_put channelID prompt (ps_InjectPrompts (pss_state ps))\<rparr>\<rparr>"

definition ClearInjectPrompt :: "string \<Rightarrow> project_state_store \<Rightarrow> project_state_store" where
  "ClearInjectPrompt channelID ps =
     ps\<lparr>pss_state := (pss_state ps)\<lparr>ps_InjectPrompts := om_del channelID (ps_InjectPrompts (pss_state ps))\<rparr>\<rparr>"

text \<open>Every field is \<open>omitempty\<close>: an empty map is not written and comes back as nil.\<close>

definition omit_empty :: "override_map \<Rightarrow> override_map" where
  "omit_empty m = (if m = Some [] then None else m)"

definition ps_document :: "project_state_data \<Rightarrow> project_state_data" where
  "ps_document s = \<lparr>ps_WorkDirOverride = ps_WorkDirOverride s,
     ps_WorkspaceDirOverrides = omit_empty (ps_WorkspaceDirOverrides s),
     ps_WorkspaceModelOverrides = omit_empty (ps_WorkspaceModelOverrides s),
     ps_InjectPrompts = omit_empty (ps_InjectPrompts s),
     ps_WorkspaceEffortOverrides = omit_empty (ps_WorkspaceEffortOverrides s)\<rparr>"

definition ps_saveLocked :: "project_state_store \<Rightarrow> project_state_store" where
  "ps_saveLocked ps =
     (if pss_storePath ps = [] \<or> \<not> pss_writable ps then ps else ps\<lparr>pss_disk := Doc (ps_document (pss_state ps))\<rparr>)"

definition ps_Save :: "project_state_store \<Rightarrow> project_state_store" where
  "ps_Save ps = ps_saveLocked ps"

definition ps_load :: "project_state_store \<Rightarrow> project_state_store" where
  "ps_load ps = (case pss_disk ps of Doc s \<Rightarrow> ps\<lparr>pss_state := s\<rparr> | _ \<Rightarrow> ps)"

definition ps_zero :: project_state_data where
  "ps_zero = \<lparr>ps_WorkDirOverride = [], ps_WorkspaceDirOverrides = None, ps_WorkspaceModelOverrides = None,
     ps_InjectPrompts = None, ps_WorkspaceEffortOverrides = None\<rparr>"

definition NewProjectStateStore :: "string \<Rightarrow> project_state_data stored \<Rightarrow> bool \<Rightarrow> project_state_store" where
  "NewProjectStateStore path disk writable =
     (let ps = \<lparr>pss_storePath = path, pss_state = ps_zero, pss_disk = disk, pss_writable = writable\<rparr>
      in if path \<noteq> [] then ps_load ps else ps)"

section \<open>Overrides survive a restart\<close>

datatype override_kind = KWorkDir | KDir | KModel | KEffort | KPrompt

datatype ps_call = PSet override_kind string string | PClear override_kind string | PSave

fun ps_apply :: "ps_call \<Rightarrow> project_state_store \<Rightarrow> project_state_store" where
  "ps_apply (PSet KWorkDir _ v) = SetWorkDirOverride v"
| "ps_apply (PSet KDir k v) = SetWorkspaceDirOverride k v"
| "ps_apply (PSet KModel k v) = SetWorkspaceModelOverride k v"
| "ps_apply (PSet KEffort k v) = SetWorkspaceEffortOverride k v"
| "ps_apply (PSet KPrompt k v) = SetInjectPrompt k v"
| "ps_apply (PClear KWorkDir _) = ClearWorkDirOverride"
| "ps_apply (PClear KDir k) = ClearWorkspaceDirOverride k"
| "ps_apply (PClear KModel k) = ClearWorkspaceModelOverride k"
| "ps_apply (PClear KEffort k) = ClearWorkspaceEffortOverride k"
| "ps_apply (PClear KPrompt k) = ClearInjectPrompt k"
| "ps_apply PSave = ps_Save"

fun ps_read :: "override_kind \<Rightarrow> string \<Rightarrow> project_state_store \<Rightarrow> string" where
  "ps_read KWorkDir _ = WorkDirOverride"
| "ps_read KDir k = WorkspaceDirOverride k"
| "ps_read KModel k = WorkspaceModelOverride k"
| "ps_read KEffort k = WorkspaceEffortOverride k"
| "ps_read KPrompt k = GetInjectPrompt k"

text \<open>The specification: the last value set and not cleared since. The working directory has no key.\<close>

definition same_slot :: "override_kind \<Rightarrow> string \<Rightarrow> override_kind \<Rightarrow> string \<Rightarrow> bool" where
  "same_slot a k a' k' \<longleftrightarrow> a = a' \<and> (a = KWorkDir \<or> k = k')"

fun last_set :: "override_kind \<Rightarrow> string \<Rightarrow> ps_call list \<Rightarrow> string \<Rightarrow> string" where
  "last_set a k [] v = v"
| "last_set a k (PSet a' k' v' # cs) v = last_set a k cs (if same_slot a k a' k' then v' else v)"
| "last_set a k (PClear a' k' # cs) v = last_set a k cs (if same_slot a k a' k' then [] else v)"
| "last_set a k (PSave # cs) v = last_set a k cs v"

lemmas ps_ops = SetWorkDirOverride_def ClearWorkDirOverride_def SetWorkspaceDirOverride_def ClearWorkspaceDirOverride_def
  SetWorkspaceModelOverride_def ClearWorkspaceModelOverride_def SetWorkspaceEffortOverride_def
  ClearWorkspaceEffortOverride_def SetInjectPrompt_def ClearInjectPrompt_def ps_Save_def ps_saveLocked_def

lemmas ps_reads = WorkDirOverride_def WorkspaceDirOverride_def WorkspaceModelOverride_def WorkspaceEffortOverride_def
  GetInjectPrompt_def

lemma ps_read_set: "ps_read a k (ps_apply (PSet a' k' v) ps) = (if same_slot a k a' k' then v else ps_read a k ps)"
  by (cases a; cases a') (auto simp: ps_ops ps_reads same_slot_def gomap)

lemma ps_read_clear: "ps_read a k (ps_apply (PClear a' k') ps) = (if same_slot a k a' k' then [] else ps_read a k ps)"
  by (cases a; cases a') (auto simp: ps_ops ps_reads same_slot_def gomap)

lemma ps_read_save: "ps_read a k (ps_Save ps) = ps_read a k ps"
  by (cases a) (auto simp: ps_ops ps_reads)

lemma ps_apply_fixed: "pss_storePath (ps_apply c ps) = pss_storePath ps \<and> pss_writable (ps_apply c ps) = pss_writable ps"
  by (cases c rule: ps_apply.cases) (auto simp: ps_ops)

lemma ps_read_run: "ps_read a k (fold ps_apply cs ps) = last_set a k cs (ps_read a k ps)"
proof (induction cs arbitrary: ps)
  case (Cons c cs)
  show ?case
  proof (cases c)
    case (PSet a' k' v)
    then show ?thesis by (simp add: Cons ps_read_set)
  next
    case (PClear a' k')
    then show ?thesis by (simp add: Cons ps_read_clear)
  next
    case PSave
    then show ?thesis by (simp add: Cons ps_read_save)
  qed
qed simp

lemma ps_run_fixed:
  "pss_storePath (fold ps_apply cs ps) = pss_storePath ps \<and> pss_writable (fold ps_apply cs ps) = pss_writable ps"
  by (induction cs arbitrary: ps) (simp_all add: ps_apply_fixed)

lemma om_get_omit [simp]: "om_get (omit_empty m) k = om_get m k"
  by (simp add: om_get_def omit_empty_def mget_or_def)

lemma ps_read_reload:
  assumes "pss_storePath ps \<noteq> []" "pss_writable ps"
  shows "ps_read a k (NewProjectStateStore (pss_storePath ps) (pss_disk (ps_Save ps)) w) = ps_read a k ps"
  using assms by (cases a) (simp_all add: NewProjectStateStore_def ps_load_def ps_ops ps_reads ps_document_def)

text \<open>
  Every override read after a restart is the last value set and not cleared since, for any sequence of
  calls on any keys that ends in a save that succeeds.
\<close>

theorem overrides_survive_restart:
  assumes "path \<noteq> []"
  shows "ps_read a k (NewProjectStateStore path
      (pss_disk (ps_Save (fold ps_apply cs (NewProjectStateStore path disk True)))) w)
    = last_set a k cs (ps_read a k (NewProjectStateStore path disk True))"
proof -
  let ?s = "NewProjectStateStore path disk True" and ?e = "fold ps_apply cs (NewProjectStateStore path disk True)"
  have f: "pss_storePath ?s = path" "pss_writable ?s"
    using assms by (auto simp: NewProjectStateStore_def ps_load_def Let_def split: stored.split)
  have "ps_read a k (NewProjectStateStore (pss_storePath ?e) (pss_disk (ps_Save ?e)) w) = ps_read a k ?e"
    using ps_run_fixed [of cs ?s] f assms by (intro ps_read_reload) auto
  then show ?thesis using ps_run_fixed [of cs ?s] f by (simp add: ps_read_run)
qed

theorem overrides_survive_restart_witness:
  "WorkspaceModelOverride ''w'' (NewProjectStateStore ''f''
     (pss_disk (ps_Save (fold ps_apply [PSet KModel ''w'' ''opus'', PSet KDir ''w'' ''d'', PClear KDir ''w'']
        (NewProjectStateStore ''f'' NoFile True)))) True) = ''opus''"
  using overrides_survive_restart [of "''f''" KModel "''w''" "[PSet KModel ''w'' ''opus'', PSet KDir ''w'' ''d'', PClear KDir ''w'']" NoFile True]
  by (simp add: same_slot_def)

end
