(* ===== verification/WorkspacePool.thy ===== *)
theory WorkspacePool
  imports GoStrings
begin

text \<open>
  The pool of workspace states and its idle reaper (\<open>src/core/workspace_state.go\<close>). A \<open>*workspaceState\<close> is
  an index into \<open>wp_heap\<close>, so that a state taken out of the pool can still be used through a pointer. The
  fields \<open>sessions\<close> and \<open>agent\<close> belong to the engine. What \<open>filepath.EvalSymlinks\<close> answers is an
  argument, \<open>None\<close> for an error.
\<close>

definition normalizeWorkspacePath :: "(string \<Rightarrow> string option) \<Rightarrow> string \<Rightarrow> string" where
  "normalizeWorkspacePath eval path =
     (let cleaned = path_clean path in case eval cleaned of None \<Rightarrow> cleaned | Some resolved \<Rightarrow> resolved)"

record workspace_state =
  ws_workspace :: string
  ws_lastActivity :: time
  ws_activeTurns :: int

record workspace_pool =
  wp_states :: "(string, nat) gomap"
  wp_heap :: "workspace_state list"
  wp_idleTimeout :: duration

definition newWorkspaceState :: "time \<Rightarrow> string \<Rightarrow> workspace_state" where
  "newWorkspaceState now workspace = \<lparr>ws_workspace = workspace, ws_lastActivity = now, ws_activeTurns = 0\<rparr>"

definition ws_Touch :: "time \<Rightarrow> workspace_state \<Rightarrow> workspace_state" where
  "ws_Touch now ws = ws\<lparr>ws_lastActivity := now\<rparr>"

definition ws_BeginTurn :: "time \<Rightarrow> workspace_state \<Rightarrow> workspace_state" where
  "ws_BeginTurn now ws = ws\<lparr>ws_activeTurns := ws_activeTurns ws + 1, ws_lastActivity := now\<rparr>"

definition ws_EndTurn :: "time \<Rightarrow> workspace_state \<Rightarrow> workspace_state" where
  "ws_EndTurn now ws =
     ws\<lparr>ws_activeTurns := (if 0 < ws_activeTurns ws then ws_activeTurns ws - 1 else ws_activeTurns ws), ws_lastActivity := now\<rparr>"

definition ws_HasActiveTurn :: "workspace_state \<Rightarrow> bool" where
  "ws_HasActiveTurn ws \<longleftrightarrow> 0 < ws_activeTurns ws"

definition newWorkspacePool :: "duration \<Rightarrow> workspace_pool" where
  "newWorkspacePool idleTimeout = \<lparr>wp_states = [], wp_heap = [], wp_idleTimeout = idleTimeout\<rparr>"

definition wp_Get :: "(string \<Rightarrow> string option) \<Rightarrow> string \<Rightarrow> workspace_pool \<Rightarrow> nat option" where
  "wp_Get eval workspace p =
     (case mget (wp_states p) workspace of
        Some i \<Rightarrow> Some i
      | None \<Rightarrow>
          let normalized = normalizeWorkspacePath eval workspace
          in if normalized = workspace then None else mget (wp_states p) normalized)"

definition wp_add :: "time \<Rightarrow> string \<Rightarrow> workspace_pool \<Rightarrow> workspace_pool \<times> nat" where
  "wp_add now workspace p =
     (p\<lparr>wp_heap := wp_heap p @ [newWorkspaceState now workspace],
        wp_states := mput workspace (length (wp_heap p)) (wp_states p)\<rparr>, length (wp_heap p))"

text \<open>
  The pool's lock is released while the path is resolved; the second look-up under the lock is the one that
  counts, so one atomic step on the state at that moment is the operation.
\<close>

definition wp_GetOrCreate :: "(string \<Rightarrow> string option) \<Rightarrow> time \<Rightarrow> string \<Rightarrow> workspace_pool \<Rightarrow> workspace_pool \<times> nat" where
  "wp_GetOrCreate eval now workspace p =
     (case mget (wp_states p) workspace of
        Some i \<Rightarrow> (p, i)
      | None \<Rightarrow>
          let normalized = normalizeWorkspacePath eval workspace
          in if normalized \<noteq> workspace
             then (case mget (wp_states p) normalized of Some i \<Rightarrow> (p, i) | None \<Rightarrow> wp_add now normalized p)
             else wp_add now workspace p)"

definition idle :: "time \<Rightarrow> workspace_pool \<Rightarrow> nat \<Rightarrow> bool" where
  "idle now p i \<longleftrightarrow>
     \<not> ws_HasActiveTurn (wp_heap p ! i) \<and> ws_lastActivity (wp_heap p ! i) < now - wp_idleTimeout p"

definition wp_ReapIdle :: "time \<Rightarrow> workspace_pool \<Rightarrow> workspace_pool \<times> string list" where
  "wp_ReapIdle now p =
     (if wp_idleTimeout p \<le> 0 then (p, [])
      else (p\<lparr>wp_states := filter (\<lambda>(path, i). \<not> idle now p i) (wp_states p)\<rparr>,
            map fst (filter (\<lambda>(path, i). idle now p i) (wp_states p))))"

definition wp_All :: "workspace_pool \<Rightarrow> (string, nat) gomap" where
  "wp_All p = wp_states p"

text \<open>A method call through a pointer.\<close>

definition on_state :: "nat \<Rightarrow> (workspace_state \<Rightarrow> workspace_state) \<Rightarrow> workspace_pool \<Rightarrow> workspace_pool" where
  "on_state i f p = p\<lparr>wp_heap := (wp_heap p)[i := f (wp_heap p ! i)]\<rparr>"

section \<open>Traces\<close>

datatype pool_event = POpen time string | PTouch time nat | PBegin time nat | PEnd time nat | PReap time

fun pool_step :: "(string \<Rightarrow> string option) \<Rightarrow> pool_event \<Rightarrow> workspace_pool \<Rightarrow> workspace_pool" where
  "pool_step eval (POpen now path) p = fst (wp_GetOrCreate eval now path p)"
| "pool_step eval (PTouch now i) p = on_state i (ws_Touch now) p"
| "pool_step eval (PBegin now i) p = on_state i (ws_BeginTurn now) p"
| "pool_step eval (PEnd now i) p = on_state i (ws_EndTurn now) p"
| "pool_step eval (PReap now) p = fst (wp_ReapIdle now p)"

definition pool_run :: "(string \<Rightarrow> string option) \<Rightarrow> pool_event list \<Rightarrow> workspace_pool \<Rightarrow> workspace_pool" where
  "pool_run eval es p = fold (pool_step eval) es p"

text \<open>
  The invariant: every state of the pool is on the heap, under a normalized path that is its own, and no
  counter of turns is negative.
\<close>

definition state_ok :: "(string \<Rightarrow> string option) \<Rightarrow> workspace_state list \<Rightarrow> string \<Rightarrow> nat \<Rightarrow> bool" where
  "state_ok eval heap path i \<longleftrightarrow>
     normalizeWorkspacePath eval path = path \<and> i < length heap \<and> ws_workspace (heap ! i) = path"

definition pool_ok :: "(string \<Rightarrow> string option) \<Rightarrow> workspace_pool \<Rightarrow> bool" where
  "pool_ok eval p \<longleftrightarrow> wf_map (wp_states p)
     \<and> (\<forall>path i. mget (wp_states p) path = Some i \<longrightarrow> state_ok eval (wp_heap p) path i)
     \<and> (\<forall>ws \<in> set (wp_heap p). 0 \<le> ws_activeTurns ws)"

lemma pool_ok_new: "pool_ok eval (newWorkspacePool d)"
  by (simp add: pool_ok_def newWorkspacePool_def)

lemma state_ok_append: "state_ok eval heap path i \<Longrightarrow> state_ok eval (heap @ [ws]) path i"
  by (simp add: state_ok_def nth_append)

lemma state_ok_update:
  "state_ok eval heap path i \<Longrightarrow> ws_workspace ws = ws_workspace (heap ! j) \<Longrightarrow> state_ok eval (heap[j := ws]) path i"
  by (cases "i = j") (auto simp: state_ok_def)

lemma pool_ok_on_state:
  assumes "pool_ok eval p" "\<And>ws. ws_workspace (f ws) = ws_workspace ws" "\<And>ws. 0 \<le> ws_activeTurns ws \<Longrightarrow> 0 \<le> ws_activeTurns (f ws)"
  shows "pool_ok eval (on_state i f p)"
proof (cases "i < length (wp_heap p)")
  case True
  have "set ((wp_heap p)[i := f (wp_heap p ! i)]) \<subseteq> insert (f (wp_heap p ! i)) (set (wp_heap p))"
    by (rule set_update_subset_insert)
  moreover have "0 \<le> ws_activeTurns (f (wp_heap p ! i))" using True assms(1,3) by (simp add: pool_ok_def)
  ultimately have "\<forall>ws \<in> set ((wp_heap p)[i := f (wp_heap p ! i)]). 0 \<le> ws_activeTurns ws"
    using assms(1) by (auto simp: pool_ok_def)
  then show ?thesis using assms(1,2) by (simp add: pool_ok_def on_state_def state_ok_update)
next
  case False
  then have "on_state i f p = p" by (simp add: on_state_def list_update_beyond)
  then show ?thesis using assms(1) by simp
qed

lemma pool_ok_add:
  assumes "pool_ok eval p" "normalizeWorkspacePath eval path = path"
  shows "pool_ok eval (fst (wp_add now path p))"
proof -
  have "state_ok eval (wp_heap p @ [newWorkspaceState now path]) path (length (wp_heap p))"
    using assms(2) by (simp add: state_ok_def newWorkspaceState_def)
  then show ?thesis
    using assms(1) by (auto simp: pool_ok_def wp_add_def newWorkspaceState_def gomap wfm state_ok_append)
qed

lemma pool_ok_GetOrCreate:
  assumes "pool_ok eval p" "\<And>x. normalizeWorkspacePath eval (normalizeWorkspacePath eval x) = normalizeWorkspacePath eval x"
  shows "pool_ok eval (fst (wp_GetOrCreate eval now path p))"
proof -
  have "pool_ok eval (fst (wp_add now (normalizeWorkspacePath eval path) p))"
    by (rule pool_ok_add [OF assms(1)]) (rule assms(2))
  then show ?thesis
    using assms(1) by (auto simp: wp_GetOrCreate_def Let_def split: option.split)
qed

lemma get_reaped:
  assumes "wf_map (wp_states p)" "0 < wp_idleTimeout p"
  shows "mget (wp_states (fst (wp_ReapIdle now p))) path =
     (case mget (wp_states p) path of Some i \<Rightarrow> if idle now p i then None else Some i | None \<Rightarrow> None)"
  using assms mget_filter_keys [of "wp_states p" "\<lambda>_ i. \<not> idle now p i" path]
  by (simp add: wp_ReapIdle_def split: option.split)

lemma pool_ok_ReapIdle:
  assumes "pool_ok eval p"
  shows "pool_ok eval (fst (wp_ReapIdle now p))"
proof (cases "wp_idleTimeout p \<le> 0")
  case False
  then have "mget (wp_states (fst (wp_ReapIdle now p))) path = Some i \<Longrightarrow> mget (wp_states p) path = Some i" for path i
    using get_reaped [of p now path] assms by (auto simp: pool_ok_def split: option.splits if_splits)
  moreover have "wp_heap (fst (wp_ReapIdle now p)) = wp_heap p" "wf_map (wp_states (fst (wp_ReapIdle now p)))"
    using False assms by (auto simp: wp_ReapIdle_def pool_ok_def wfm)
  ultimately show ?thesis using assms by (simp add: pool_ok_def)
qed (use assms in \<open>simp add: wp_ReapIdle_def\<close>)

lemma pool_ok_step:
  assumes "pool_ok eval p" "\<And>x. normalizeWorkspacePath eval (normalizeWorkspacePath eval x) = normalizeWorkspacePath eval x"
  shows "pool_ok eval (pool_step eval e p)"
  using assms
  by (cases e) (auto simp: ws_Touch_def ws_BeginTurn_def ws_EndTurn_def
      intro!: pool_ok_GetOrCreate pool_ok_on_state pool_ok_ReapIdle)

lemma pool_ok_run:
  assumes "\<And>x. normalizeWorkspacePath eval (normalizeWorkspacePath eval x) = normalizeWorkspacePath eval x"
  shows "pool_ok eval p \<Longrightarrow> pool_ok eval (pool_run eval es p)"
  unfolding pool_run_def by (induction es arbitrary: p) (simp_all add: pool_ok_step assms)

section \<open>Properties\<close>

text \<open>
  The reaper takes a workspace out of the pool exactly when it has no turn in progress and was not
  used within the timeout; it leaves every other state in place, and does nothing when the timeout is not
  positive.
\<close>

theorem reap_exactly_the_idle:
  assumes "wf_map (wp_states p)" and "wp_ReapIdle now p = (p', reaped)"
  shows "(path \<in> set reaped \<longleftrightarrow> 0 < wp_idleTimeout p \<and> (\<exists>i. mget (wp_states p) path = Some i
            \<and> ws_activeTurns (wp_heap p ! i) \<le> 0 \<and> ws_lastActivity (wp_heap p ! i) < now - wp_idleTimeout p))
    \<and> mget (wp_states p') path = (if path \<in> set reaped then None else mget (wp_states p) path)
    \<and> wp_heap p' = wp_heap p"
proof (cases "wp_idleTimeout p \<le> 0")
  case False
  then have p': "p' = p\<lparr>wp_states := filter (\<lambda>(path, i). \<not> idle now p i) (wp_states p)\<rparr>"
    and reaped: "reaped = map fst (filter (\<lambda>(path, i). idle now p i) (wp_states p))"
    using assms(2) by (auto simp: wp_ReapIdle_def)
  have "path \<in> set reaped \<longleftrightarrow> (\<exists>i. (path, i) \<in> set (wp_states p) \<and> idle now p i)" by (force simp: reaped)
  then have r: "path \<in> set reaped \<longleftrightarrow> (\<exists>i. mget (wp_states p) path = Some i \<and> idle now p i)"
    using mget_in_set [OF assms(1)] by metis
  moreover have "mget (wp_states p') path = (if path \<in> set reaped then None else mget (wp_states p) path)"
    using get_reaped [OF assms(1), of now path] False assms(2) r by (auto split: option.splits)
  ultimately show ?thesis using False by (simp add: idle_def ws_HasActiveTurn_def not_less p')
qed (use assms(2) in \<open>auto simp: wp_ReapIdle_def\<close>)

theorem reap_exactly_the_idle_witness:
  "''w'' \<in> set (snd (wp_ReapIdle 20 \<lparr>wp_states = [(''w'', 0)],
     wp_heap = [\<lparr>ws_workspace = ''w'', ws_lastActivity = 5, ws_activeTurns = 0\<rparr>], wp_idleTimeout = 10\<rparr>))"
  using reap_exactly_the_idle [OF _ prod.collapse [symmetric], where path = "''w''" and now = 20 and
      p = "\<lparr>wp_states = [(''w'', 0)], wp_heap = [\<lparr>ws_workspace = ''w'', ws_lastActivity = 5, ws_activeTurns = 0\<rparr>], wp_idleTimeout = 10\<rparr>"]
  by (simp add: mkeys_def)

text \<open>
  One workspace, one state: after any sequence of pool operations, all spellings of a path that resolve to
  one directory lead to the same state, which is the state of that directory (symbolic links resolving to a
  resolved path).
\<close>

theorem one_state_per_workspace:
  assumes "\<And>x. normalizeWorkspacePath eval (normalizeWorkspacePath eval x) = normalizeWorkspacePath eval x"
    and "normalizeWorkspacePath eval a = normalizeWorkspacePath eval b"
    and "wp_GetOrCreate eval now a (pool_run eval es (newWorkspacePool d)) = (p', i)"
  shows "wp_Get eval b p' = Some i \<and> wp_GetOrCreate eval now' b p' = (p', i)
    \<and> ws_workspace (wp_heap p' ! i) = normalizeWorkspacePath eval a"
proof -
  let ?n = "normalizeWorkspacePath eval" and ?p = "pool_run eval es (newWorkspacePool d)"
  have ok: "pool_ok eval ?p" by (rule pool_ok_run [OF assms(1)]) (rule pool_ok_new)
  have ok': "pool_ok eval p'" using pool_ok_GetOrCreate [OF ok assms(1), of now a] assms(3) by simp
  have keys: "?n x = x" if "pool_ok eval q" "mget (wp_states q) x = Some j" for x j q
    using that by (simp add: pool_ok_def state_ok_def)
  have get: "mget (wp_states p') (?n a) = Some i"
    using assms(3) keys [OF ok, of a] by (auto simp: wp_GetOrCreate_def wp_add_def Let_def gomap split: option.splits if_splits)
  have b: "mget (wp_states p') b = (if ?n b = b then Some i else None)"
    using get assms(2) keys [OF ok', of b] by (cases "mget (wp_states p') b") auto
  have "ws_workspace (wp_heap p' ! i) = ?n a" using ok' get by (simp add: pool_ok_def state_ok_def)
  then show ?thesis using b get assms(2) by (auto simp: wp_Get_def wp_GetOrCreate_def Let_def)
qed

theorem one_state_per_workspace_witness:
  "wp_Get (\<lambda>_. None) ''a//b/.'' (fst (wp_GetOrCreate (\<lambda>_. None) 5 ''b'' (newWorkspacePool 10))) = None
   \<and> wp_Get Some ''/a'' (fst (wp_GetOrCreate (\<lambda>_. Some ''/r'') 5 ''/a'' (newWorkspacePool 10))) = None
   \<and> wp_Get (\<lambda>_. Some ''/r'') ''/b'' (fst (wp_GetOrCreate (\<lambda>_. Some ''/r'') 5 ''/a'' (newWorkspacePool 10))) = Some 0"
proof -
  have r: "wp_GetOrCreate (\<lambda>_. Some ''/r'') 5 ''/a'' (pool_run (\<lambda>_. Some ''/r'') [] (newWorkspacePool 10))
      = (\<lparr>wp_states = [(''/r'', 0)], wp_heap = [newWorkspaceState 5 ''/r''], wp_idleTimeout = 10\<rparr>, 0)"
    by code_simp
  have "wp_Get (\<lambda>_. Some ''/r'') ''/b'' (fst (wp_GetOrCreate (\<lambda>_. Some ''/r'') 5 ''/a'' (newWorkspacePool 10))) = Some 0"
    using one_state_per_workspace [OF _ _ r, of "''/b''"] r by (simp add: normalizeWorkspacePath_def Let_def pool_run_def)
  moreover have "wp_Get (\<lambda>_. None) ''a//b/.'' (fst (wp_GetOrCreate (\<lambda>_. None) 5 ''b'' (newWorkspacePool 10))) = None
     \<and> wp_Get Some ''/a'' (fst (wp_GetOrCreate (\<lambda>_. Some ''/r'') 5 ''/a'' (newWorkspacePool 10))) = None"
    by code_simp
  ultimately show ?thesis by simp
qed

text \<open>
  A turn can lose its workspace: \<open>GetOrCreate\<close> does not mark the state as used, so the reaper can take
  it out of the pool between the look-up and \<open>BeginTurn\<close>. The turn then runs on a state that is no longer in
  the pool, the next look-up creates a second state for the same workspace, and that one is reaped as idle
  while the turn is still running.
\<close>

theorem reaper_races_begin_turn:
  "let p = pool_run Some [POpen 0 ''/w'', PReap 100, PBegin 100 0, POpen 101 ''/w'', PReap 200] (newWorkspacePool 10)
   in ws_activeTurns (wp_heap p ! 0) = 1 \<and> ws_workspace (wp_heap p ! 0) = ''/w'' \<and> wp_Get Some ''/w'' p = None
      \<and> snd (wp_ReapIdle 200 (pool_run Some [POpen 0 ''/w'', PReap 100, PBegin 100 0, POpen 101 ''/w''] (newWorkspacePool 10))) = [''/w'']"
  by code_simp

end
