(* ===== verification/JobStore.thy ===== *)
theory JobStore
  imports GoStrings
begin

text \<open>
  The contract the two job stores share (\<open>src/core/cron.go\<close>, \<open>src/core/timer.go\<close>): a list of jobs looked up by
  ID, each change written through to the file. The schedulers rely on nothing else of a store.
\<close>

locale job_store =
  fixes jobs :: "'s \<Rightarrow> 'j list"
    and jid :: "'j \<Rightarrow> string"
    and get :: "string \<Rightarrow> 's \<Rightarrow> 'j option"
    and add :: "'j \<Rightarrow> 's \<Rightarrow> 's"
    and remove :: "string \<Rightarrow> 's \<Rightarrow> 's \<times> bool"
    and change :: "string \<Rightarrow> ('j \<Rightarrow> 'j) \<Rightarrow> 's \<Rightarrow> 's"
    and saved :: "'s \<Rightarrow> bool"
    and writable :: "'s \<Rightarrow> bool"
  assumes get_find: "get i s = find (\<lambda>j. jid j = i) (jobs s)"
    and jobs_add: "jobs (add j s) = jobs s @ [j]"
    and jobs_remove: "jobs (fst (remove i s)) = remove_first (\<lambda>j. jid j = i) (jobs s)"
    and removed: "snd (remove i s) \<longleftrightarrow> (\<exists>j \<in> set (jobs s). jid j = i)"
    and jobs_change: "jobs (change i f s) = update_first (\<lambda>j. jid j = i) f (jobs s)"
    and saved_add: "writable s \<Longrightarrow> saved (add j s)"
    and saved_remove: "writable s \<Longrightarrow> saved s \<Longrightarrow> saved (fst (remove i s))"
    and saved_change: "writable s \<Longrightarrow> saved s \<Longrightarrow> saved (change i f s)"
    and writable_ops: "writable (add j s) = writable s" "writable (fst (remove i s)) = writable s"
      "writable (change i f s) = writable s"
begin

definition unique :: "'s \<Rightarrow> bool" where
  "unique s \<longleftrightarrow> distinct (map jid (jobs s))"

lemma get_SomeD: "get i s = Some j \<Longrightarrow> j \<in> set (jobs s) \<and> jid j = i"
  by (auto simp: get_find dest: find_SomeD)

lemma get_None: "get i s = None \<longleftrightarrow> i \<notin> jid ` set (jobs s)"
  by (auto simp: get_find find_None_iff)

lemma get_Some: "unique s \<Longrightarrow> get i s = Some j \<longleftrightarrow> j \<in> set (jobs s) \<and> jid j = i"
  using find_key_in [of jid "jobs s" j] get_SomeD [of i s j] by (auto simp: unique_def get_find)

lemma unique_add: "unique s \<Longrightarrow> get (jid j) s = None \<Longrightarrow> unique (add j s)"
  by (auto simp: unique_def jobs_add get_None)

lemma unique_remove: "unique s \<Longrightarrow> unique (fst (remove i s))"
  by (simp add: unique_def jobs_remove distinct_remove_first)

lemma unique_change: "unique s \<Longrightarrow> (\<And>j. jid j = i \<Longrightarrow> jid (f j) = i) \<Longrightarrow> unique (change i f s)"
  unfolding unique_def jobs_change by (subst map_update_first) auto

lemma get_add: "get (jid j) s = None \<Longrightarrow> get i (add j s) = (if i = jid j then Some j else get i s)"
proof -
  assume n: "get (jid j) s = None"
  have "find P (xs @ [j]) = (case find P xs of Some x \<Rightarrow> Some x | None \<Rightarrow> if P j then Some j else None)" for P and xs :: "'j list"
    by (induction xs) auto
  then show ?thesis using n by (auto simp: get_find jobs_add split: option.splits)
qed

lemma get_remove: "unique s \<Longrightarrow> get k (fst (remove i s)) = (if k = i then None else get k s)"
  unfolding unique_def get_find jobs_remove
  by (auto simp: find_remove_first_same intro: find_remove_first_other)

lemma get_change: "(\<And>j. jid j = i \<Longrightarrow> jid (f j) = i) \<Longrightarrow>
    get k (change i f s) = (if k = i then map_option f (get i s) else get k s)"
  unfolding get_find jobs_change
  by (auto simp: find_update_first_same intro: find_update_first_other)

lemma removed_get: "snd (remove i s) \<longleftrightarrow> get i s \<noteq> None"
  using get_None [of i s] by (auto simp: removed)

text \<open>A store in good order: IDs are unique, the file can be written and says what the store holds.\<close>

definition good :: "'s \<Rightarrow> bool" where
  "good s \<longleftrightarrow> unique s \<and> writable s \<and> saved s"

lemma good_add: "good s \<Longrightarrow> get (jid j) s = None \<Longrightarrow> good (add j s)"
  by (simp add: good_def unique_add writable_ops saved_add)

lemma good_remove: "good s \<Longrightarrow> good (fst (remove i s))"
  by (simp add: good_def unique_remove writable_ops saved_remove)

lemma good_change: "good s \<Longrightarrow> (\<And>j. jid j = i \<Longrightarrow> jid (f j) = i) \<Longrightarrow> good (change i f s)"
  by (simp add: good_def unique_change writable_ops saved_change)

end

end
