(* ===== verification/CronStore.thy ===== *)
theory CronStore
  imports JobStore Complex_Main
begin

text \<open>
  Scheduled jobs and their store (the first half of \<open>src/core/cron.go\<close>): validation, the execution
  timeout, the operations of the store, and the update of a single field by name. The file is its decoded
  content; a file that does not decode leaves the store empty.
\<close>

record cron_job =
  cj_ID :: string
  cj_Project :: string
  cj_SessionKey :: string
  cj_CronExpr :: string
  cj_Prompt :: string
  cj_Exec :: string
  cj_WorkDir :: string
  cj_Description :: string
  cj_Enabled :: bool
  cj_Silent :: "bool option"
  cj_Mute :: bool
  cj_SessionMode :: string
  cj_Mode :: string
  cj_TimeoutMins :: "int option"
  cj_CreatedAt :: time
  cj_LastRun :: time
  cj_LastError :: string

definition cron_IsShellJob :: "cron_job \<Rightarrow> bool" where
  "cron_IsShellJob j \<longleftrightarrow> cj_Exec j \<noteq> []"

definition defaultCronJobTimeout :: duration where "defaultCronJobTimeout = 30 * minute"

text \<open>The product of minutes is an \<open>int64\<close>.\<close>

definition timeout_of :: "int option \<Rightarrow> duration" where
  "timeout_of mins = (case mins of
     None \<Rightarrow> defaultCronJobTimeout
   | Some m \<Rightarrow> if m \<le> 0 then 0 else wrap64 (m * minute))"

definition cron_ExecutionTimeout :: "cron_job \<Rightarrow> duration" where
  "cron_ExecutionTimeout j = timeout_of (cj_TimeoutMins j)"

definition NormalizeCronSessionMode :: "string \<Rightarrow> string" where
  "NormalizeCronSessionMode s =
     (let s = trim_space s; low = to_lower s
      in if low \<in> {'''', ''reuse''} then []
         else if low \<in> {''new_per_run'', ''new-per-run''} then ''new_per_run''
         else s)"

definition cron_UsesNewSessionPerRun :: "cron_job \<Rightarrow> bool" where
  "cron_UsesNewSessionPerRun j \<longleftrightarrow> NormalizeCronSessionMode (cj_SessionMode j) = ''new_per_run''"

datatype job_error = SessionKeyRequired | InvalidSessionMode string | InvalidMode string | NegativeTimeout
  | InvalidCronExpr string | SaveFailed | JobNotFound string | ProjectNotFound string | CronExprNotString
  | EnabledNotBool | UpdateFailed string | RescheduleFailed string | ScheduledAtRequired | PromptOrExecRequired
  | PromptAndExec | JobTimedOut duration | ExecError string | MissedBy duration

definition known_modes :: "string list" where
  "known_modes = [''default'', ''bypassPermissions'', ''acceptEdits'', ''plan'', ''auto'', ''dontAsk'']"

definition session_mode_ok :: "string \<Rightarrow> bool" where
  "session_mode_ok s \<longleftrightarrow> NormalizeCronSessionMode s \<in> {'''', ''new_per_run''}"

definition validateCronJob :: "cron_job \<Rightarrow> job_error option" where
  "validateCronJob j =
     (if trim_space (cj_SessionKey j) = [] then Some SessionKeyRequired
      else if \<not> session_mode_ok (cj_SessionMode j) then Some (InvalidSessionMode (cj_SessionMode j))
      else if cj_Mode j \<noteq> [] \<and> cj_Mode j \<notin> set known_modes then Some (InvalidMode (cj_Mode j))
      else if (case cj_TimeoutMins j of Some m \<Rightarrow> m < 0 | None \<Rightarrow> False) then Some NegativeTimeout
      else None)"

section \<open>The store\<close>

record cron_store =
  cst_jobs :: "cron_job list"
  cst_disk :: "cron_job list stored"
  cst_writable :: bool

definition cron_load :: "cron_store \<Rightarrow> cron_store" where
  "cron_load s = (case cst_disk s of Doc js \<Rightarrow> s\<lparr>cst_jobs := js\<rparr> | _ \<Rightarrow> s)"

text \<open>\<open>None\<close> when the directory cannot be created.\<close>

definition NewCronStore :: "bool \<Rightarrow> cron_job list stored \<Rightarrow> bool \<Rightarrow> cron_store option" where
  "NewCronStore mkdir_ok disk writable =
     (if \<not> mkdir_ok then None else Some (cron_load \<lparr>cst_jobs = [], cst_disk = disk, cst_writable = writable\<rparr>))"

definition cron_save :: "cron_store \<Rightarrow> cron_store \<times> bool" where
  "cron_save s = (if cst_writable s then (s\<lparr>cst_disk := Doc (cst_jobs s)\<rparr>, True) else (s, False))"

definition cst_Add :: "cron_job \<Rightarrow> cron_store \<Rightarrow> cron_store \<times> bool" where
  "cst_Add job s = cron_save (s\<lparr>cst_jobs := cst_jobs s @ [job]\<rparr>)"

definition has_id :: "string \<Rightarrow> cron_job \<Rightarrow> bool" where
  "has_id i j \<longleftrightarrow> cj_ID j = i"

definition cst_Remove :: "string \<Rightarrow> cron_store \<Rightarrow> cron_store \<times> bool" where
  "cst_Remove i s =
     (if list_ex (has_id i) (cst_jobs s)
      then (fst (cron_save (s\<lparr>cst_jobs := remove_first (has_id i) (cst_jobs s)\<rparr>)), True)
      else (s, False))"

text \<open>The loop of the setters: change the first job with the ID and save.\<close>

definition cst_change :: "string \<Rightarrow> (cron_job \<Rightarrow> cron_job) \<Rightarrow> cron_store \<Rightarrow> cron_store" where
  "cst_change i f s =
     (if list_ex (has_id i) (cst_jobs s)
      then fst (cron_save (s\<lparr>cst_jobs := update_first (has_id i) f (cst_jobs s)\<rparr>))
      else s)"

definition cst_SetEnabled :: "string \<Rightarrow> bool \<Rightarrow> cron_store \<Rightarrow> cron_store \<times> bool" where
  "cst_SetEnabled i enabled s = (cst_change i (\<lambda>j. j\<lparr>cj_Enabled := enabled\<rparr>) s, list_ex (has_id i) (cst_jobs s))"

definition cst_SetMute :: "string \<Rightarrow> bool \<Rightarrow> cron_store \<Rightarrow> cron_store \<times> bool" where
  "cst_SetMute i mute s = (cst_change i (\<lambda>j. j\<lparr>cj_Mute := mute\<rparr>) s, list_ex (has_id i) (cst_jobs s))"

definition cst_Get :: "string \<Rightarrow> cron_store \<Rightarrow> cron_job option" where
  "cst_Get i s = find (has_id i) (cst_jobs s)"

text \<open>The new state and whether the job was found.\<close>

definition cst_ToggleMute :: "string \<Rightarrow> cron_store \<Rightarrow> cron_store \<times> bool \<times> bool" where
  "cst_ToggleMute i s =
     (case cst_Get i s of
        Some j \<Rightarrow> (cst_change i (\<lambda>j. j\<lparr>cj_Mute := \<not> cj_Mute j\<rparr>) s, \<not> cj_Mute j, True)
      | None \<Rightarrow> (s, False, False))"

definition cst_MarkRun :: "time \<Rightarrow> string \<Rightarrow> string option \<Rightarrow> cron_store \<Rightarrow> cron_store" where
  "cst_MarkRun now i err s =
     cst_change i (\<lambda>j. j\<lparr>cj_LastRun := now, cj_LastError := (case err of Some e \<Rightarrow> e | None \<Rightarrow> [])\<rparr>) s"

definition cst_List :: "cron_store \<Rightarrow> cron_job list" where
  "cst_List s = cst_jobs s"

definition cst_ListByProject :: "string \<Rightarrow> cron_store \<Rightarrow> cron_job list" where
  "cst_ListByProject project s = filter (\<lambda>j. cj_Project j = project) (cst_jobs s)"

definition cst_ListBySessionKey :: "string \<Rightarrow> cron_store \<Rightarrow> cron_job list" where
  "cst_ListBySessionKey sessionKey s = filter (\<lambda>j. cj_SessionKey j = sessionKey) (cst_jobs s)"

section \<open>Updating one field\<close>

text \<open>
  A value as decoded from JSON or given by a caller: a string, a boolean, a \<open>float64\<close> (here a rational), an
  \<open>int\<close>, or anything else. A conversion of a float to \<open>int\<close> truncates.
\<close>

datatype any_value = VStr string | VBool bool | VFloat rat | VInt int | VOther

definition truncate_rat :: "rat \<Rightarrow> int" where
  "truncate_rat r = (if r < 0 then \<lceil>r\<rceil> else \<lfloor>r\<rfloor>)"

fun exported_name :: "bool \<Rightarrow> string \<Rightarrow> string" where
  "exported_name up [] = []"
| "exported_name up (c # cs) =
     (if c = CHR ''_'' then exported_name True cs
      else (if up then upper_byte c else c) # exported_name False cs)"

definition toExportedFieldName :: "string \<Rightarrow> string" where
  "toExportedFieldName s = exported_name True s"

text \<open>What reflection can set: the string fields, by their Go names.\<close>

definition set_by_reflection :: "string \<Rightarrow> string \<Rightarrow> cron_job \<Rightarrow> cron_job option" where
  "set_by_reflection name v j =
     (if name = ''ID'' then Some (j\<lparr>cj_ID := v\<rparr>)
      else if name = ''Project'' then Some (j\<lparr>cj_Project := v\<rparr>)
      else if name = ''SessionKey'' then Some (j\<lparr>cj_SessionKey := v\<rparr>)
      else if name = ''CronExpr'' then Some (j\<lparr>cj_CronExpr := v\<rparr>)
      else if name = ''Prompt'' then Some (j\<lparr>cj_Prompt := v\<rparr>)
      else if name = ''Exec'' then Some (j\<lparr>cj_Exec := v\<rparr>)
      else if name = ''WorkDir'' then Some (j\<lparr>cj_WorkDir := v\<rparr>)
      else if name = ''Description'' then Some (j\<lparr>cj_Description := v\<rparr>)
      else if name = ''SessionMode'' then Some (j\<lparr>cj_SessionMode := v\<rparr>)
      else if name = ''Mode'' then Some (j\<lparr>cj_Mode := v\<rparr>)
      else if name = ''LastError'' then Some (j\<lparr>cj_LastError := v\<rparr>)
      else None)"

text \<open>The switch; \<open>None\<close> is falling out of it into the reflective fallback.\<close>

definition set_by_switch :: "string \<Rightarrow> any_value \<Rightarrow> cron_job \<Rightarrow> cron_job option" where
  "set_by_switch field v j = (case v of
     VStr s \<Rightarrow>
       (if field = ''project'' then Some (j\<lparr>cj_Project := s\<rparr>)
        else if field = ''session_key'' then Some (j\<lparr>cj_SessionKey := s\<rparr>)
        else if field = ''cron_expr'' then Some (j\<lparr>cj_CronExpr := s\<rparr>)
        else if field = ''prompt'' then Some (j\<lparr>cj_Prompt := s\<rparr>)
        else if field = ''exec'' then Some (j\<lparr>cj_Exec := s\<rparr>)
        else if field = ''work_dir'' then Some (j\<lparr>cj_WorkDir := s\<rparr>)
        else if field = ''description'' then Some (j\<lparr>cj_Description := s\<rparr>)
        else if field = ''session_mode'' then Some (j\<lparr>cj_SessionMode := s\<rparr>)
        else if field = ''mode'' then Some (j\<lparr>cj_Mode := s\<rparr>)
        else None)
   | VBool b \<Rightarrow>
       (if field = ''enabled'' then Some (j\<lparr>cj_Enabled := b\<rparr>)
        else if field = ''silent'' then Some (j\<lparr>cj_Silent := Some b\<rparr>)
        else if field = ''mute'' then Some (j\<lparr>cj_Mute := b\<rparr>)
        else None)
   | VFloat r \<Rightarrow> if field = ''timeout_mins'' then Some (j\<lparr>cj_TimeoutMins := Some (truncate_rat r)\<rparr>) else None
   | VInt n \<Rightarrow> if field = ''timeout_mins'' then Some (j\<lparr>cj_TimeoutMins := Some n\<rparr>) else None
   | VOther \<Rightarrow> None)"

definition updateJobField :: "string \<Rightarrow> any_value \<Rightarrow> cron_job \<Rightarrow> cron_job option" where
  "updateJobField field v j =
     (case set_by_switch field v j of
        Some j' \<Rightarrow> Some j'
      | None \<Rightarrow> (case v of VStr s \<Rightarrow> set_by_reflection (toExportedFieldName field) s j | _ \<Rightarrow> None))"

definition read_only_fields :: "string list" where
  "read_only_fields = [''id'', ''created_at'', ''last_run'', ''last_error'']"

definition cst_Update :: "string \<Rightarrow> string \<Rightarrow> any_value \<Rightarrow> cron_store \<Rightarrow> cron_store \<times> bool" where
  "cst_Update i field v s =
     (if field \<in> set read_only_fields then (s, False)
      else case cst_Get i s of
             None \<Rightarrow> (s, False)
           | Some j \<Rightarrow>
               (case updateJobField field v j of
                  None \<Rightarrow> (s, False)
                | Some j' \<Rightarrow> (cst_change i (\<lambda>_. j') s, True)))"

section \<open>The store keeps the contract\<close>

text \<open>What the file says is what a store that loads it holds.\<close>

definition cst_saved :: "cron_store \<Rightarrow> bool" where
  "cst_saved s \<longleftrightarrow> cst_jobs (cron_load (s\<lparr>cst_jobs := []\<rparr>)) = cst_jobs s"

lemma has_id_eq: "has_id i = (\<lambda>j. cj_ID j = i)"
  by (auto simp: has_id_def)

lemma cron_save_jobs [simp]: "cst_jobs (fst (cron_save s)) = cst_jobs s" "cst_writable (fst (cron_save s)) = cst_writable s"
  by (simp_all add: cron_save_def)

lemma cron_save_saved [simp]: "cst_writable s \<Longrightarrow> cst_saved (fst (cron_save s))"
  by (simp add: cron_save_def cst_saved_def cron_load_def)

lemma absent_first: "\<not> list_ex P xs \<Longrightarrow> remove_first P xs = xs \<and> update_first P f xs = xs"
  by (auto simp: list_ex_iff remove_first_none update_first_none)

interpretation cst: job_store cst_jobs cj_ID cst_Get "\<lambda>j s. fst (cst_Add j s)" cst_Remove cst_change cst_saved cst_writable
proof unfold_locales
  fix s :: cron_store and i j f
  show "cst_Get i s = find (\<lambda>j. cj_ID j = i) (cst_jobs s)" by (simp add: cst_Get_def has_id_eq)
  show "cst_jobs (fst (cst_Add j s)) = cst_jobs s @ [j]" by (simp add: cst_Add_def)
  show "cst_jobs (fst (cst_Remove i s)) = remove_first (\<lambda>j. cj_ID j = i) (cst_jobs s)"
    using absent_first [of "has_id i" "cst_jobs s"] by (simp add: cst_Remove_def has_id_eq)
  show "snd (cst_Remove i s) \<longleftrightarrow> (\<exists>j \<in> set (cst_jobs s). cj_ID j = i)"
    by (simp add: cst_Remove_def has_id_eq list_ex_iff)
  show "cst_jobs (cst_change i f s) = update_first (\<lambda>j. cj_ID j = i) f (cst_jobs s)"
    using absent_first [of "has_id i" "cst_jobs s"] by (simp add: cst_change_def has_id_eq)
  show "cst_saved (fst (cst_Add j s))" if "cst_writable s" using that by (simp add: cst_Add_def)
  show "cst_saved (fst (cst_Remove i s))" if "cst_writable s" "cst_saved s" using that by (simp add: cst_Remove_def)
  show "cst_saved (cst_change i f s)" if "cst_writable s" "cst_saved s" using that by (simp add: cst_change_def)
  show "cst_writable (fst (cst_Add j s)) = cst_writable s" by (simp add: cst_Add_def)
  show "cst_writable (fst (cst_Remove i s)) = cst_writable s" by (simp add: cst_Remove_def)
  show "cst_writable (cst_change i f s) = cst_writable s" by (simp add: cst_change_def)
qed

end
