(* ===== verification/CronScheduler.thy ===== *)
theory CronScheduler
  imports CronStore
begin

text \<open>
  The scheduler (\<open>CronScheduler\<close> in \<open>src/core/cron.go\<close>): it keeps the entries of the library robfig/cron in
  step with the enabled jobs of the store. The library is a parameter: whether an expression parses, adding an entry
  for a job, removing an entry, and the entries it runs. Engines are known by the names they are
  registered under; what a job's execution returns, and how long it takes, are arguments, as are the texts that
  \<open>fmt\<close> makes of errors.
\<close>

record 'c cron_lib =
  cl_parse :: "string \<Rightarrow> bool"
  cl_add :: "string \<Rightarrow> string \<Rightarrow> 'c \<Rightarrow> ('c \<times> nat) option"
  cl_remove :: "nat \<Rightarrow> 'c \<Rightarrow> 'c"
  cl_entries :: "'c \<Rightarrow> (nat \<times> string \<times> string) list"
  cl_next :: "'c \<Rightarrow> nat \<Rightarrow> time"

record 'c cron_scheduler =
  cs_store :: cron_store
  cs_cron :: 'c
  cs_engines :: "string list"
  cs_entries :: "(string, nat) gomap"
  cs_defaultSilent :: bool
  cs_defaultSessionMode :: string

definition NewCronScheduler :: "cron_store \<Rightarrow> 'c \<Rightarrow> 'c cron_scheduler" where
  "NewCronScheduler store c =
     \<lparr>cs_store = store, cs_cron = c, cs_engines = [], cs_entries = [], cs_defaultSilent = False, cs_defaultSessionMode = []\<rparr>"

definition cs_RegisterEngine :: "string \<Rightarrow> 'c cron_scheduler \<Rightarrow> 'c cron_scheduler" where
  "cs_RegisterEngine name cs = cs\<lparr>cs_engines := List.insert name (cs_engines cs)\<rparr>"

definition cs_SetDefaultSilent :: "bool \<Rightarrow> 'c cron_scheduler \<Rightarrow> 'c cron_scheduler" where
  "cs_SetDefaultSilent silent cs = cs\<lparr>cs_defaultSilent := silent\<rparr>"

definition cs_SetDefaultSessionMode :: "string \<Rightarrow> 'c cron_scheduler \<Rightarrow> 'c cron_scheduler" where
  "cs_SetDefaultSessionMode mode cs = cs\<lparr>cs_defaultSessionMode := NormalizeCronSessionMode mode\<rparr>"

definition cs_IsSilent :: "cron_job \<Rightarrow> 'c cron_scheduler \<Rightarrow> bool" where
  "cs_IsSilent job cs = (case cj_Silent job of Some b \<Rightarrow> b | None \<Rightarrow> cs_defaultSilent cs)"

definition cs_UsesNewSession :: "cron_job \<Rightarrow> 'c cron_scheduler \<Rightarrow> bool" where
  "cs_UsesNewSession job cs =
     (if cj_SessionMode job \<noteq> [] then cron_UsesNewSessionPerRun job else cs_defaultSessionMode cs = ''new_per_run'')"

section \<open>Scheduling\<close>

definition scheduleJob :: "'c cron_lib \<Rightarrow> cron_job \<Rightarrow> 'c cron_scheduler \<Rightarrow> 'c cron_scheduler \<times> job_error option" where
  "scheduleJob lib job cs =
     (let c = (case mget (cs_entries cs) (cj_ID job) of Some old \<Rightarrow> cl_remove lib old (cs_cron cs) | None \<Rightarrow> cs_cron cs)
      in case cl_add lib (cj_CronExpr job) (cj_ID job) c of
           None \<Rightarrow> (cs\<lparr>cs_cron := c\<rparr>, Some (InvalidCronExpr (cj_CronExpr job)))
         | Some (c', entryID) \<Rightarrow>
             (cs\<lparr>cs_cron := c', cs_entries := mput (cj_ID job) entryID (cs_entries cs)\<rparr>, None))"

text \<open>The block that removes the entry of a job, in \<open>RemoveJob\<close>, \<open>DisableJob\<close> and \<open>UpdateJob\<close>.\<close>

definition unschedule :: "'c cron_lib \<Rightarrow> string \<Rightarrow> 'c cron_scheduler \<Rightarrow> 'c cron_scheduler" where
  "unschedule lib i cs =
     (case mget (cs_entries cs) i of
        Some entryID \<Rightarrow> cs\<lparr>cs_cron := cl_remove lib entryID (cs_cron cs), cs_entries := mdel i (cs_entries cs)\<rparr>
      | None \<Rightarrow> cs)"

definition cs_Start :: "'c cron_lib \<Rightarrow> 'c cron_scheduler \<Rightarrow> 'c cron_scheduler" where
  "cs_Start lib cs =
     fold (\<lambda>job cs. if cj_Enabled job then fst (scheduleJob lib job cs) else cs) (cst_List (cs_store cs)) cs"

definition cs_AddJob :: "'c cron_lib \<Rightarrow> cron_job \<Rightarrow> 'c cron_scheduler \<Rightarrow> 'c cron_scheduler \<times> job_error option" where
  "cs_AddJob lib job cs =
     (case validateCronJob job of
        Some e \<Rightarrow> (cs, Some e)
      | None \<Rightarrow>
          let job = job\<lparr>cj_SessionMode := NormalizeCronSessionMode (cj_SessionMode job)\<rparr>
          in if \<not> cl_parse lib (cj_CronExpr job) then (cs, Some (InvalidCronExpr (cj_CronExpr job)))
             else let (store, ok) = cst_Add job (cs_store cs);
                      cs = cs\<lparr>cs_store := store\<rparr>
                  in if \<not> ok then (cs, Some SaveFailed)
                     else if cj_Enabled job then scheduleJob lib job cs
                     else (cs, None))"

definition cs_RemoveJob :: "'c cron_lib \<Rightarrow> string \<Rightarrow> 'c cron_scheduler \<Rightarrow> 'c cron_scheduler \<times> bool" where
  "cs_RemoveJob lib i cs =
     (let cs = unschedule lib i cs; (store, removed) = cst_Remove i (cs_store cs)
      in (cs\<lparr>cs_store := store\<rparr>, removed))"

definition cs_EnableJob :: "'c cron_lib \<Rightarrow> string \<Rightarrow> 'c cron_scheduler \<Rightarrow> 'c cron_scheduler \<times> job_error option" where
  "cs_EnableJob lib i cs =
     (let (store, ok) = cst_SetEnabled i True (cs_store cs); cs = cs\<lparr>cs_store := store\<rparr>
      in if \<not> ok then (cs, Some (JobNotFound i))
         else case cst_Get i (cs_store cs) of
                Some job \<Rightarrow> scheduleJob lib job cs
              | None \<Rightarrow> (cs, None))"

definition cs_DisableJob :: "'c cron_lib \<Rightarrow> string \<Rightarrow> 'c cron_scheduler \<Rightarrow> 'c cron_scheduler \<times> job_error option" where
  "cs_DisableJob lib i cs =
     (let (store, ok) = cst_SetEnabled i False (cs_store cs); cs = cs\<lparr>cs_store := store\<rparr>
      in if \<not> ok then (cs, Some (JobNotFound i)) else (unschedule lib i cs, None))"

text \<open>The checks of \<open>UpdateJob\<close> that come before any change.\<close>

definition update_check :: "'c cron_lib \<Rightarrow> string \<Rightarrow> any_value \<Rightarrow> job_error option" where
  "update_check lib field v =
     (if field = ''cron_expr'' then
        (case v of VStr e \<Rightarrow> if cl_parse lib e then None else Some (InvalidCronExpr e) | _ \<Rightarrow> Some CronExprNotString)
      else if field = ''mode'' then
        (case v of VStr m \<Rightarrow> if m \<noteq> [] \<and> m \<notin> set known_modes then Some (InvalidMode m) else None | _ \<Rightarrow> None)
      else if field = ''session_mode'' then
        (case v of VStr m \<Rightarrow> if m \<noteq> [] \<and> \<not> session_mode_ok m then Some (InvalidSessionMode m) else None | _ \<Rightarrow> None)
      else if field = ''enabled'' then
        (case v of VBool _ \<Rightarrow> None | _ \<Rightarrow> Some EnabledNotBool)
      else None)"

definition cs_UpdateJob :: "'c cron_lib \<Rightarrow> string \<Rightarrow> string \<Rightarrow> any_value \<Rightarrow> 'c cron_scheduler
    \<Rightarrow> 'c cron_scheduler \<times> job_error option" where
  "cs_UpdateJob lib i field v cs =
     (case cst_Get i (cs_store cs) of
        None \<Rightarrow> (cs, Some (JobNotFound i))
      | Some _ \<Rightarrow>
          (case update_check lib field v of
             Some e \<Rightarrow> (cs, Some e)
           | None \<Rightarrow>
               let needsReschedule = (field = ''cron_expr'' \<or> field = ''enabled'');
                   cs = (if needsReschedule then unschedule lib i cs else cs);
                   (store, ok) = cst_Update i field v (cs_store cs);
                   cs = cs\<lparr>cs_store := store\<rparr>
               in if \<not> ok then (cs, Some (UpdateFailed field))
                  else if needsReschedule
                  then (case cst_Get i (cs_store cs) of
                          Some job \<Rightarrow>
                            if cj_Enabled job
                            then (let (cs, err) = scheduleJob lib job cs
                                  in (cs, map_option (\<lambda>_. RescheduleFailed (cj_CronExpr job)) err))
                            else (cs, None)
                        | None \<Rightarrow> (cs, None))
                  else (cs, None)))"

definition cs_NextRun :: "'c cron_lib \<Rightarrow> string \<Rightarrow> 'c cron_scheduler \<Rightarrow> time" where
  "cs_NextRun lib i cs =
     (case mget (cs_entries cs) i of
        None \<Rightarrow> 0
      | Some entryID \<Rightarrow>
          if list_ex (\<lambda>(e, _). e = entryID) (cl_entries lib (cs_cron cs)) then cl_next lib (cs_cron cs) entryID else 0)"

section \<open>Running\<close>

text \<open>What \<open>runJob\<close> does with a job, and what it records when the job is done or the wait is over.\<close>

datatype run_plan = RunSkip | RunNoProject | RunExecute duration

definition run_plan_of :: "cron_job \<Rightarrow> bool \<Rightarrow> 'c cron_scheduler \<Rightarrow> run_plan" where
  "run_plan_of job manual cs =
     (if \<not> manual \<and> \<not> cj_Enabled job then RunSkip
      else if cj_Project job \<notin> set (cs_engines cs) then RunNoProject
      else RunExecute (cron_ExecutionTimeout job))"

definition run_error :: "(job_error \<Rightarrow> string) \<Rightarrow> duration \<Rightarrow> duration \<Rightarrow> string option \<Rightarrow> string option" where
  "run_error errtext timeout took err =
     (if 0 < timeout \<and> timeout < took then Some (errtext (JobTimedOut timeout)) else err)"

definition cs_MarkRun :: "time \<Rightarrow> string \<Rightarrow> string option \<Rightarrow> 'c cron_scheduler \<Rightarrow> 'c cron_scheduler" where
  "cs_MarkRun now i err cs = cs\<lparr>cs_store := cst_MarkRun now i err (cs_store cs)\<rparr>"

text \<open>The boolean says whether the engine was asked to execute the job.\<close>

definition cs_runJob :: "(job_error \<Rightarrow> string) \<Rightarrow> time \<Rightarrow> cron_job \<Rightarrow> bool \<Rightarrow> duration \<Rightarrow> string option
    \<Rightarrow> 'c cron_scheduler \<Rightarrow> 'c cron_scheduler \<times> bool" where
  "cs_runJob errtext now job manual took err cs =
     (case run_plan_of job manual cs of
        RunSkip \<Rightarrow> (cs, False)
      | RunNoProject \<Rightarrow> (cs_MarkRun now (cj_ID job) (Some (errtext (ProjectNotFound (cj_Project job)))) cs, False)
      | RunExecute timeout \<Rightarrow> (cs_MarkRun now (cj_ID job) (run_error errtext timeout took err) cs, True))"

definition cs_executeJob :: "(job_error \<Rightarrow> string) \<Rightarrow> time \<Rightarrow> string \<Rightarrow> duration \<Rightarrow> string option
    \<Rightarrow> 'c cron_scheduler \<Rightarrow> 'c cron_scheduler \<times> bool" where
  "cs_executeJob errtext now i took err cs =
     (case cst_Get i (cs_store cs) of
        None \<Rightarrow> (cs, False)
      | Some job \<Rightarrow> cs_runJob errtext now job False took err cs)"

text \<open>\<open>RunJobNow\<close>: an error, or the copy of the job that then runs in the background as a manual run.\<close>

definition cs_RunJobNow :: "string \<Rightarrow> 'c cron_scheduler \<Rightarrow> job_error + cron_job" where
  "cs_RunJobNow i cs =
     (case cst_Get i (cs_store cs) of
        None \<Rightarrow> Inl (JobNotFound i)
      | Some job \<Rightarrow> if cj_Project job \<in> set (cs_engines cs) then Inr job else Inl (ProjectNotFound (cj_Project job)))"

definition GenerateCronID :: "nat list \<Rightarrow> string" where
  "GenerateCronID bytes = hex_encode (take 4 bytes)"

definition truncateStr :: "string \<Rightarrow> nat \<Rightarrow> string" where
  "truncateStr s n = (if length (runes s) \<le> n then s else rune_prefix n s @ ''...'')"

section \<open>The library and the schedule\<close>

text \<open>
  What the scheduler relies on of the library: \<open>AddFunc\<close> fails exactly on expressions that do not parse, and
  otherwise adds one entry under an ID not in use; \<open>Remove\<close> removes the entries with the ID and no others.
\<close>

definition lib_ok :: "'c cron_lib \<Rightarrow> bool" where
  "lib_ok lib \<longleftrightarrow>
     (\<forall>e j c. case cl_add lib e j c of
        None \<Rightarrow> \<not> cl_parse lib e
      | Some (c', i) \<Rightarrow> cl_parse lib e \<and> i \<notin> fst ` set (cl_entries lib c)
          \<and> set (cl_entries lib c') = insert (i, e, j) (set (cl_entries lib c)))
   \<and> (\<forall>i c. set (cl_entries lib (cl_remove lib i c)) = {x \<in> set (cl_entries lib c). fst x \<noteq> i})"

lemma lib_add_None: "lib_ok lib \<Longrightarrow> cl_add lib e j c = None \<Longrightarrow> \<not> cl_parse lib e"
proof -
  assume "lib_ok lib" and n: "cl_add lib e j c = None"
  then have "case cl_add lib e j c of None \<Rightarrow> \<not> cl_parse lib e
      | Some (c', i) \<Rightarrow> cl_parse lib e \<and> i \<notin> fst ` set (cl_entries lib c)
          \<and> set (cl_entries lib c') = insert (i, e, j) (set (cl_entries lib c))"
    unfolding lib_ok_def by blast
  then show ?thesis by (simp add: n)
qed

lemma lib_add_Some:
  assumes "lib_ok lib" "cl_add lib e j c = Some (c', i)"
  shows "cl_parse lib e" "i \<notin> fst ` set (cl_entries lib c)"
    "set (cl_entries lib c') = insert (i, e, j) (set (cl_entries lib c))"
proof -
  have "case cl_add lib e j c of None \<Rightarrow> \<not> cl_parse lib e
      | Some (c', i) \<Rightarrow> cl_parse lib e \<and> i \<notin> fst ` set (cl_entries lib c)
          \<and> set (cl_entries lib c') = insert (i, e, j) (set (cl_entries lib c))"
    using assms(1) unfolding lib_ok_def by blast
  then show "cl_parse lib e" "i \<notin> fst ` set (cl_entries lib c)"
    "set (cl_entries lib c') = insert (i, e, j) (set (cl_entries lib c))"
    by (simp_all add: assms(2))
qed

lemma lib_remove: "lib_ok lib \<Longrightarrow> set (cl_entries lib (cl_remove lib i c)) = {x \<in> set (cl_entries lib c). fst x \<noteq> i}"
  by (simp add: lib_ok_def)

definition runnable :: "'c cron_lib \<Rightarrow> 'c cron_scheduler \<Rightarrow> string \<Rightarrow> string \<Rightarrow> bool" where
  "runnable lib cs i e \<longleftrightarrow>
     (\<exists>job. cst_Get i (cs_store cs) = Some job \<and> cj_Enabled job \<and> cj_CronExpr job = e \<and> cl_parse lib e)"

text \<open>
  The schedule is right for the jobs in \<open>A\<close>: the library runs exactly one entry for each of them that is enabled
  and has a valid expression, with that expression, and nothing else.
\<close>

definition sched :: "'c cron_lib \<Rightarrow> string set \<Rightarrow> 'c cron_scheduler \<Rightarrow> bool" where
  "sched lib A cs \<longleftrightarrow>
     (\<forall>n e i. (n, e, i) \<in> set (cl_entries lib (cs_cron cs)) \<longleftrightarrow> mget (cs_entries cs) i = Some n \<and> runnable lib cs i e)
   \<and> (\<forall>i. mget (cs_entries cs) i \<noteq> None \<longleftrightarrow> i \<in> A \<and> (\<exists>e. runnable lib cs i e))
   \<and> (\<forall>i k n. mget (cs_entries cs) i = Some n \<longrightarrow> mget (cs_entries cs) k = Some n \<longrightarrow> i = k)"

lemma sched_live: "sched lib A cs \<Longrightarrow>
    (n, e, i) \<in> set (cl_entries lib (cs_cron cs)) \<longleftrightarrow> mget (cs_entries cs) i = Some n \<and> runnable lib cs i e"
  and sched_dom: "sched lib A cs \<Longrightarrow> (\<exists>n. mget (cs_entries cs) i = Some n) \<longleftrightarrow> i \<in> A \<and> (\<exists>e. runnable lib cs i e)"
  and sched_inj: "sched lib A cs \<Longrightarrow> mget (cs_entries cs) i = Some n \<Longrightarrow> mget (cs_entries cs) k = Some n \<Longrightarrow> i = k"
  by (auto simp: sched_def)

lemma schedI:
  assumes "\<And>n e i. (n, e, i) \<in> set (cl_entries lib (cs_cron cs)) \<longleftrightarrow> mget (cs_entries cs) i = Some n \<and> runnable lib cs i e"
    and "\<And>i. (\<exists>n. mget (cs_entries cs) i = Some n) \<longleftrightarrow> i \<in> A \<and> (\<exists>e. runnable lib cs i e)"
    and "\<And>i k n. mget (cs_entries cs) i = Some n \<Longrightarrow> mget (cs_entries cs) k = Some n \<Longrightarrow> i = k"
  shows "sched lib A cs"
  unfolding sched_def using assms by auto

lemma runnable_store: "cs_store cs' = cs_store cs \<Longrightarrow> runnable lib cs' = runnable lib cs"
  by (simp add: runnable_def fun_eq_iff)

lemma unschedule_fields:
  "cs_store (unschedule lib i cs) = cs_store cs" "mget (cs_entries (unschedule lib i cs)) k = (if k = i then None else mget (cs_entries cs) k)"
  by (auto simp: unschedule_def gomap split: option.split)

lemma sched_widen:
  assumes "sched lib A cs" "\<And>i. i \<in> B - A \<Longrightarrow> \<not> (\<exists>e. runnable lib cs i e)" "A \<subseteq> B"
  shows "sched lib B cs"
proof (rule schedI)
  show "(\<exists>n. mget (cs_entries cs) i = Some n) \<longleftrightarrow> i \<in> B \<and> (\<exists>e. runnable lib cs i e)" for i
    using sched_dom [OF assms(1), of i] assms(2) [of i] assms(3) by blast
qed (use sched_live [OF assms(1)] sched_inj [OF assms(1)] in auto)

lemma sched_narrow:
  assumes "sched lib A cs" "\<not> (\<exists>e. runnable lib cs i e)"
  shows "sched lib (A - {i}) cs"
proof (rule schedI)
  show "(\<exists>n. mget (cs_entries cs) k = Some n) \<longleftrightarrow> k \<in> A - {i} \<and> (\<exists>e. runnable lib cs k e)" for k
    using sched_dom [OF assms(1), of k] assms(2) by blast
qed (use sched_live [OF assms(1)] sched_inj [OF assms(1)] in auto)

lemma sched_unschedule:
  assumes ok: "lib_ok lib" and s: "sched lib A cs"
  shows "sched lib (A - {i}) (unschedule lib i cs)"
proof (cases "mget (cs_entries cs) i")
  case None
  then have u: "unschedule lib i cs = cs" by (simp add: unschedule_def)
  have "\<not> (i \<in> A \<and> (\<exists>e. runnable lib cs i e))" using sched_dom [OF s, of i] None by simp
  then show ?thesis
    unfolding u by (cases "i \<in> A") (auto intro: sched_narrow [OF s] simp: s)
next
  case (Some n)
  let ?cs = "unschedule lib i cs"
  have run: "runnable lib ?cs = runnable lib cs" by (rule runnable_store) (rule unschedule_fields)
  have live: "set (cl_entries lib (cs_cron ?cs)) = {x \<in> set (cl_entries lib (cs_cron cs)). fst x \<noteq> n}"
    using Some by (simp add: unschedule_def lib_remove [OF ok])
  have inj: "mget (cs_entries cs) k = Some n \<Longrightarrow> k = i" for k using sched_inj [OF s _ Some] .
  show ?thesis
  proof (rule schedI)
    show "(m, e, k) \<in> set (cl_entries lib (cs_cron ?cs)) \<longleftrightarrow> mget (cs_entries ?cs) k = Some m \<and> runnable lib ?cs k e" for m e k
    proof (cases "k = i")
      case True
      then show ?thesis using sched_live [OF s, of m e i] Some unfolding run live unschedule_fields by auto
    next
      case False
      then have "mget (cs_entries cs) k \<noteq> Some n" using inj by blast
      then show ?thesis using sched_live [OF s, of m e k] False unfolding run live unschedule_fields by auto
    qed
    show "(\<exists>m. mget (cs_entries ?cs) k = Some m) \<longleftrightarrow> k \<in> A - {i} \<and> (\<exists>e. runnable lib ?cs k e)" for k
      using sched_dom [OF s, of k] unfolding run unschedule_fields by auto
    show "mget (cs_entries ?cs) k = Some m \<Longrightarrow> mget (cs_entries ?cs) l = Some m \<Longrightarrow> k = l" for k l m
      using sched_inj [OF s, of k m l] unfolding unschedule_fields by (auto split: if_splits)
  qed
qed

text \<open>Scheduling is removing the old entry, and adding one if the expression parses.\<close>

lemma scheduleJob_store: "cs_store (fst (scheduleJob lib job cs)) = cs_store cs"
  by (auto simp: scheduleJob_def Let_def split: option.split)

lemma sched_scheduleJob:
  assumes ok: "lib_ok lib" and s: "sched lib A cs"
    and job: "cst_Get (cj_ID job) (cs_store cs) = Some job" "cj_Enabled job"
  shows "sched lib (insert (cj_ID job) A) (fst (scheduleJob lib job cs))"
proof -
  let ?i = "cj_ID job" and ?e = "cj_CronExpr job"
  let ?u = "unschedule lib ?i cs" and ?cs = "fst (scheduleJob lib job cs)"
  have u: "sched lib (A - {?i}) ?u" by (rule sched_unschedule [OF ok s])
  have rune: "runnable lib cs ?i e \<longleftrightarrow> e = ?e \<and> cl_parse lib ?e" for e using job by (auto simp: runnable_def)
  have run: "runnable lib ?cs = runnable lib cs" "runnable lib ?u = runnable lib cs"
    by (rule runnable_store, rule scheduleJob_store, rule runnable_store, rule unschedule_fields)
  have c: "(case mget (cs_entries cs) ?i of Some old \<Rightarrow> cl_remove lib old (cs_cron cs) | None \<Rightarrow> cs_cron cs) = cs_cron ?u"
    by (simp add: unschedule_def split: option.split)
  show ?thesis
  proof (cases "cl_add lib ?e ?i (cs_cron ?u)")
    case None
    have np: "\<not> cl_parse lib ?e" by (rule lib_add_None [OF ok None])
    have nr: "\<not> (\<exists>e. runnable lib cs ?i e)" using rune np by simp
    then have "mget (cs_entries cs) ?i = None" using sched_dom [OF s, of ?i] by simp
    then have "?u = cs" by (simp add: unschedule_def)
    then have cs: "?cs = cs" using None by (simp add: scheduleJob_def Let_def c)
    show ?thesis unfolding cs by (rule sched_widen [OF s]) (use nr in auto)
  next
    case (Some r)
    obtain c' n where r: "r = (c', n)" by force
    have add: "cl_parse lib ?e" "n \<notin> fst ` set (cl_entries lib (cs_cron ?u))"
      "set (cl_entries lib c') = insert (n, ?e, ?i) (set (cl_entries lib (cs_cron ?u)))"
      using lib_add_Some [OF ok Some [unfolded r]] by auto
    have cs: "cs_cron ?cs = c'" "cs_entries ?cs = mput ?i n (cs_entries cs)"
      using Some by (simp_all add: scheduleJob_def Let_def c r)
    have get: "mget (cs_entries ?cs) k = (if k = ?i then Some n else mget (cs_entries ?u) k)" for k
      by (simp add: cs gomap unschedule_fields)
    have gone: "mget (cs_entries ?u) ?i = None" by (simp add: unschedule_fields)
    have fresh: "mget (cs_entries ?u) k \<noteq> Some n" for k
    proof
      assume g: "mget (cs_entries ?u) k = Some n"
      then obtain e where "runnable lib ?u k e" using sched_dom [OF u, of k] by blast
      then have "(n, e, k) \<in> set (cl_entries lib (cs_cron ?u))" using sched_live [OF u] g by blast
      then show False using add(2) by force
    qed
    show ?thesis
    proof (rule schedI)
      show "(m, e, k) \<in> set (cl_entries lib (cs_cron ?cs)) \<longleftrightarrow> mget (cs_entries ?cs) k = Some m \<and> runnable lib ?cs k e" for m e k
        using sched_live [OF u, of m e k] gone rune [of e] add(1) fresh [of k]
        unfolding run get cs(1) add(3) by (cases "k = ?i") auto
      show "(\<exists>m. mget (cs_entries ?cs) k = Some m) \<longleftrightarrow> k \<in> insert ?i A \<and> (\<exists>e. runnable lib ?cs k e)" for k
        using sched_dom [OF u, of k] rune add(1) unfolding run get by (cases "k = ?i") auto
      show "mget (cs_entries ?cs) k = Some m \<Longrightarrow> mget (cs_entries ?cs) l = Some m \<Longrightarrow> k = l" for k l m
        using sched_inj [OF u, of k m l] fresh unfolding get by (auto split: if_splits)
    qed
  qed
qed

text \<open>A change of the store that leaves the schedule right.\<close>

lemma sched_store:
  assumes "sched lib A cs" and "\<And>k e. k \<in> A \<Longrightarrow> runnable lib (cs\<lparr>cs_store := st\<rparr>) k e \<longleftrightarrow> runnable lib cs k e"
  shows "sched lib A (cs\<lparr>cs_store := st\<rparr>)"
proof -
  let ?cs = "cs\<lparr>cs_store := st\<rparr>"
  have inA: "k \<in> A" if "mget (cs_entries cs) k = Some n" for k n using that sched_dom [OF assms(1), of k] by blast
  show ?thesis
  proof (rule schedI)
    show "(n, e, k) \<in> set (cl_entries lib (cs_cron ?cs)) \<longleftrightarrow> mget (cs_entries ?cs) k = Some n \<and> runnable lib ?cs k e" for n e k
      using sched_live [OF assms(1), of n e k] inA [of k n] assms(2) [of k e] by auto
    show "(\<exists>n. mget (cs_entries ?cs) k = Some n) \<longleftrightarrow> k \<in> A \<and> (\<exists>e. runnable lib ?cs k e)" for k
      using sched_dom [OF assms(1), of k] assms(2) [of k] by auto
    show "mget (cs_entries ?cs) k = Some m \<Longrightarrow> mget (cs_entries ?cs) l = Some m \<Longrightarrow> k = l" for k l m
      using sched_inj [OF assms(1), of k m l] by simp
  qed
qed

end
