(* ===== verification/CronInvariant.thy ===== *)
theory CronInvariant
  imports CronScheduler
begin

text \<open>
  Every call of the scheduler's API keeps the schedule in step with the store, the store in good order, and its
  file up to date.
\<close>

definition cs_inv :: "'c cron_lib \<Rightarrow> 'c cron_scheduler \<Rightarrow> bool" where
  "cs_inv lib cs \<longleftrightarrow> sched lib UNIV cs \<and> cst.good (cs_store cs)"

lemma sched_all_but: "sched lib UNIV cs \<Longrightarrow> \<not> (\<exists>e. runnable lib cs i e) \<Longrightarrow> sched lib (- {i}) cs"
  using sched_narrow [of lib UNIV cs i] by (simp add: Compl_eq_Diff_UNIV)

lemma sched_all: "sched lib (- {i}) cs \<Longrightarrow> \<not> (\<exists>e. runnable lib cs i e) \<Longrightarrow> sched lib UNIV cs"
  by (rule sched_widen [of lib "- {i}"]) auto

lemma sched_unschedule_all: "lib_ok lib \<Longrightarrow> sched lib UNIV cs \<Longrightarrow> sched lib (- {i}) (unschedule lib i cs)"
  using sched_unschedule [of lib UNIV cs i] by (simp add: Compl_eq_Diff_UNIV)

text \<open>The store after a change, as far as scheduling goes.\<close>

lemma runnable_change:
  assumes "\<And>j. cj_ID j = i \<Longrightarrow> cj_ID (f j) = i"
  shows "runnable lib (cs\<lparr>cs_store := cst_change i f (cs_store cs)\<rparr>) k e \<longleftrightarrow>
    (if k = i then (\<exists>job. cst_Get i (cs_store cs) = Some job \<and> cj_Enabled (f job) \<and> cj_CronExpr (f job) = e \<and> cl_parse lib e)
     else runnable lib cs k e)"
  using cst.get_change [of i f k "cs_store cs", OF assms] by (auto simp: runnable_def)

lemma sched_change_other:
  assumes "sched lib (- {i}) cs" "\<And>j. cj_ID j = i \<Longrightarrow> cj_ID (f j) = i"
  shows "sched lib (- {i}) (cs\<lparr>cs_store := cst_change i f (cs_store cs)\<rparr>)"
  by (rule sched_store [OF assms(1)]) (simp add: runnable_change [OF assms(2)])

lemma sched_change_same:
  assumes "sched lib A cs" "\<And>j. cj_ID j = i \<Longrightarrow> cj_ID (f j) = i" "\<And>j. cj_Enabled (f j) = cj_Enabled j" "\<And>j. cj_CronExpr (f j) = cj_CronExpr j"
  shows "sched lib A (cs\<lparr>cs_store := cst_change i f (cs_store cs)\<rparr>)"
proof (rule sched_store [OF assms(1)])
  show "runnable lib (cs\<lparr>cs_store := cst_change i f (cs_store cs)\<rparr>) k e \<longleftrightarrow> runnable lib cs k e" for k e
  proof -
    have rc: "runnable lib (cs\<lparr>cs_store := cst_change i f (cs_store cs)\<rparr>) k e \<longleftrightarrow>
        (if k = i then (\<exists>job. cst_Get i (cs_store cs) = Some job \<and> cj_Enabled (f job) \<and> cj_CronExpr (f job) = e \<and> cl_parse lib e)
         else runnable lib cs k e)"
      by (rule runnable_change) (rule assms(2))
    show ?thesis unfolding rc by (simp add: assms(3,4) runnable_def)
  qed
qed

section \<open>Start\<close>

lemma sched_start:
  assumes ok: "lib_ok lib" and empty: "cl_entries lib c = []" and u: "cst.unique st"
  shows "sched lib UNIV (cs_Start lib (NewCronScheduler st c))"
proof -
  let ?step = "\<lambda>job cs. if cj_Enabled job then fst (scheduleJob lib job cs) else cs"
  have run: "sched lib (A \<union> cj_ID ` set js) (fold ?step js cs) \<and> cs_store (fold ?step js cs) = st"
    if "set js \<subseteq> set (cst_jobs st)" "cs_store cs = st" "sched lib A cs" for js A cs
    using that
  proof (induction js arbitrary: A cs)
    case (Cons j js)
    have get: "cst_Get (cj_ID j) st = Some j" using Cons.prems(1) cst.get_Some [OF u] by auto
    have st: "cs_store (?step j cs) = st" using Cons.prems(2) by (simp add: scheduleJob_store)
    have "sched lib (insert (cj_ID j) A) (?step j cs)"
    proof (cases "cj_Enabled j")
      case True
      then show ?thesis using sched_scheduleJob [OF ok Cons.prems(3)] get Cons.prems(2) by simp
    next
      case False
      then have "\<not> (\<exists>e. runnable lib cs (cj_ID j) e)" using get Cons.prems(2) by (simp add: runnable_def)
      then show ?thesis using False by (auto intro: sched_widen [OF Cons.prems(3)])
    qed
    then show ?case using Cons.IH [OF _ st, of "insert (cj_ID j) A"] Cons.prems(1) by simp
  qed simp
  moreover have "sched lib {} (NewCronScheduler st c)"
    by (rule schedI) (simp_all add: NewCronScheduler_def empty)
  ultimately have s: "sched lib (cj_ID ` set (cst_jobs st)) (cs_Start lib (NewCronScheduler st c))
      \<and> cs_store (cs_Start lib (NewCronScheduler st c)) = st"
    using run [of "cst_jobs st" "NewCronScheduler st c" "{}"]
    unfolding cs_Start_def cst_List_def by (simp add: NewCronScheduler_def)
  show ?thesis
  proof (rule sched_widen [OF s [THEN conjunct1]])
    fix i
    assume "i \<in> UNIV - cj_ID ` set (cst_jobs st)"
    then have "cst_Get i st = None" by (simp add: cst.get_None)
    then show "\<not> (\<exists>e. runnable lib (cs_Start lib (NewCronScheduler st c)) i e)" using s by (simp add: runnable_def)
  qed simp
qed

lemma cs_Start_store: "cs_store (cs_Start lib cs) = cs_store cs"
proof -
  have "cs_store (fold (\<lambda>job cs. if cj_Enabled job then fst (scheduleJob lib job cs) else cs) js cs) = cs_store cs" for js
    by (induction js arbitrary: cs) (simp_all add: scheduleJob_store)
  then show ?thesis by (simp add: cs_Start_def)
qed

section \<open>Calls\<close>

lemma cs_inv_AddJob:
  assumes ok: "lib_ok lib" and inv: "cs_inv lib cs" and fresh: "cst_Get (cj_ID job) (cs_store cs) = None"
  shows "cs_inv lib (fst (cs_AddJob lib job cs))"
proof -
  let ?j = "job\<lparr>cj_SessionMode := NormalizeCronSessionMode (cj_SessionMode job)\<rparr>" and ?i = "cj_ID job"
  let ?st = "fst (cst_Add ?j (cs_store cs))"
  let ?cs = "cs\<lparr>cs_store := ?st\<rparr>"
  have w: "cst_writable (cs_store cs)" using inv by (simp add: cs_inv_def cst.good_def)
  have saved: "snd (cst_Add ?j (cs_store cs))" using w by (simp add: cst_Add_def cron_save_def)
  have good: "cst.good ?st" using inv fresh cst.good_add [of "cs_store cs" ?j] by (simp add: cs_inv_def)
  have get: "cst_Get k ?st = (if k = ?i then Some ?j else cst_Get k (cs_store cs))" for k
    using cst.get_add [of ?j "cs_store cs" k] fresh by simp
  have "sched lib (- {?i}) cs"
    using inv fresh by (intro sched_all_but) (auto simp: cs_inv_def runnable_def)
  then have s: "sched lib (- {?i}) ?cs" by (rule sched_store) (simp add: runnable_def get)
  have "sched lib UNIV (if cj_Enabled job then fst (scheduleJob lib ?j ?cs) else ?cs)"
  proof (cases "cj_Enabled job")
    case True
    have "insert ?i (- {?i}) = UNIV" by auto
    then show ?thesis using True sched_scheduleJob [OF ok s, of ?j] get by simp
  next
    case False
    then show ?thesis using sched_all [OF s] by (simp add: runnable_def get)
  qed
  moreover have "cs_store (if cj_Enabled job then fst (scheduleJob lib ?j ?cs) else ?cs) = ?st"
    by (simp add: scheduleJob_store)
  ultimately have "cs_inv lib (if cj_Enabled job then fst (scheduleJob lib ?j ?cs) else ?cs)"
    using good by (simp add: cs_inv_def)
  then show ?thesis
    using inv saved by (auto simp: cs_AddJob_def Let_def case_prod_unfold split: option.split)
qed

lemma cs_inv_RemoveJob:
  assumes ok: "lib_ok lib" and inv: "cs_inv lib cs"
  shows "cs_inv lib (fst (cs_RemoveJob lib i cs))"
proof -
  let ?u = "unschedule lib i cs" and ?st = "fst (cst_Remove i (cs_store cs))"
  let ?cs = "?u\<lparr>cs_store := ?st\<rparr>"
  have good: "cst.good ?st" using inv cst.good_remove by (simp add: cs_inv_def)
  have u: "cst.unique (cs_store cs)" using inv by (simp add: cs_inv_def cst.good_def)
  have get: "cst_Get k ?st = (if k = i then None else cst_Get k (cs_store cs))" for k by (rule cst.get_remove [OF u])
  have s: "sched lib (- {i}) ?u" using sched_unschedule_all [OF ok] inv by (simp add: cs_inv_def)
  then have "sched lib (- {i}) ?cs" by (rule sched_store) (simp add: runnable_def get unschedule_fields)
  then have "sched lib UNIV ?cs" by (rule sched_all) (simp add: runnable_def get)
  then show ?thesis
    using good by (simp add: cs_RemoveJob_def Let_def case_prod_unfold unschedule_fields cs_inv_def)
qed

lemma cst_SetEnabled_found: "snd (cst_SetEnabled i b st) \<longleftrightarrow> cst_Get i st \<noteq> None"
  using cst.get_None [of i st] by (auto simp: cst_SetEnabled_def list_ex_iff has_id_def)

lemma change_absent: "cst_Get i st = None \<Longrightarrow> cst_change i f st = st"
  using cst.get_None [of i st] by (auto simp: cst_change_def list_ex_iff has_id_def)

lemma cs_inv_EnableJob:
  assumes ok: "lib_ok lib" and inv: "cs_inv lib cs"
  shows "cs_inv lib (fst (cs_EnableJob lib i cs))"
proof (cases "cst_Get i (cs_store cs)")
  case None
  then have "cs_EnableJob lib i cs = (cs, Some (JobNotFound i))"
    using cst_SetEnabled_found [of i True "cs_store cs"] change_absent [OF None]
    by (simp add: cs_EnableJob_def Let_def cst_SetEnabled_def)
  then show ?thesis using inv by simp
next
  case (Some job)
  let ?f = "\<lambda>j. j\<lparr>cj_Enabled := True\<rparr>" and ?j = "job\<lparr>cj_Enabled := True\<rparr>"
  let ?st = "cst_change i ?f (cs_store cs)"
  let ?cs = "cs\<lparr>cs_store := ?st\<rparr>"
  have i: "cj_ID job = i" using cst.get_SomeD [OF Some] by simp
  have get: "cst_Get i ?st = Some ?j" using cst.get_change [of i ?f i "cs_store cs"] Some by simp
  have good: "cst.good ?st" using inv cst.good_change [of "cs_store cs" i ?f] by (simp add: cs_inv_def)
  have eq: "cs_EnableJob lib i cs = scheduleJob lib ?j ?cs"
    using cst_SetEnabled_found [of i True "cs_store cs"] Some get by (simp add: cs_EnableJob_def Let_def cst_SetEnabled_def)
  have "sched lib UNIV (fst (scheduleJob lib ?j ?cs))"
  proof (cases "cj_Enabled job")
    case True
    then have run: "runnable lib ?cs k e \<longleftrightarrow> runnable lib cs k e" for k e
      unfolding runnable_change [of i ?f, simplified] using Some by (simp add: runnable_def)
    have "sched lib UNIV ?cs" by (rule sched_store) (use inv run in \<open>auto simp: cs_inv_def\<close>)
    then show ?thesis using sched_scheduleJob [OF ok, of UNIV ?cs ?j] get i by simp
  next
    case False
    then have "sched lib (- {i}) cs" using inv Some by (intro sched_all_but) (auto simp: cs_inv_def runnable_def)
    then have "sched lib (- {i}) ?cs" by (rule sched_change_other) simp
    moreover have "insert i (- {i}) = UNIV" by auto
    ultimately show ?thesis using sched_scheduleJob [OF ok, of "- {i}" ?cs ?j] get i by simp
  qed
  then show ?thesis using good by (simp add: eq cs_inv_def scheduleJob_store)
qed

lemma unschedule_store_update: "unschedule lib i (cs\<lparr>cs_store := st\<rparr>) = (unschedule lib i cs)\<lparr>cs_store := st\<rparr>"
  by (simp add: unschedule_def split: option.split)

lemma cs_inv_DisableJob:
  assumes ok: "lib_ok lib" and inv: "cs_inv lib cs"
  shows "cs_inv lib (fst (cs_DisableJob lib i cs))"
proof (cases "cst_Get i (cs_store cs)")
  case None
  then have "cs_DisableJob lib i cs = (cs, Some (JobNotFound i))"
    using cst_SetEnabled_found [of i False "cs_store cs"] change_absent [OF None]
    by (simp add: cs_DisableJob_def Let_def cst_SetEnabled_def)
  then show ?thesis using inv by simp
next
  case (Some job)
  let ?f = "\<lambda>j. j\<lparr>cj_Enabled := False\<rparr>" and ?u = "unschedule lib i cs"
  let ?cs = "?u\<lparr>cs_store := cst_change i ?f (cs_store ?u)\<rparr>"
  have good: "cst.good (cst_change i ?f (cs_store cs))"
    using inv cst.good_change [of "cs_store cs" i ?f] by (simp add: cs_inv_def)
  have eq: "fst (cs_DisableJob lib i cs) = ?cs"
    using cst_SetEnabled_found [of i False "cs_store cs"] Some
    by (simp add: cs_DisableJob_def Let_def cst_SetEnabled_def unschedule_store_update unschedule_fields)
  have "sched lib (- {i}) ?u" using sched_unschedule_all [OF ok] inv by (simp add: cs_inv_def)
  then have "sched lib (- {i}) ?cs" by (rule sched_change_other) simp
  then have "sched lib UNIV ?cs" by (rule sched_all) (simp add: runnable_change [of i ?f, simplified])
  then show ?thesis using good by (simp add: eq cs_inv_def unschedule_fields)
qed

text \<open>
  The names of fields an update may use without stepping around the bookkeeping: any that reflection does not
  turn into the ID or, unless spelled \<open>cron_expr\<close>, into the expression.
\<close>

definition safe_field :: "string \<Rightarrow> bool" where
  "safe_field field \<longleftrightarrow> field = ''cron_expr'' \<or> toExportedFieldName field \<notin> {''ID'', ''CronExpr''}"

lemma updateJobField_keeps:
  assumes "updateJobField field v j = Some j'" "safe_field field"
  shows "cj_ID j' = cj_ID j" and "field \<noteq> ''cron_expr'' \<Longrightarrow> cj_CronExpr j' = cj_CronExpr j"
    and "field \<noteq> ''enabled'' \<Longrightarrow> cj_Enabled j' = cj_Enabled j"
proof -
  have sw: "cj_ID j1 = cj_ID j \<and> (field \<noteq> ''cron_expr'' \<longrightarrow> cj_CronExpr j1 = cj_CronExpr j)
      \<and> (field \<noteq> ''enabled'' \<longrightarrow> cj_Enabled j1 = cj_Enabled j)" if "set_by_switch field v j = Some j1" for j1
    using that by (auto simp: set_by_switch_def split: any_value.splits if_splits)
  have re: "cj_ID j1 = cj_ID j \<and> cj_CronExpr j1 = cj_CronExpr j \<and> cj_Enabled j1 = cj_Enabled j"
    if "set_by_reflection name s j = Some j1" "name \<notin> {''ID'', ''CronExpr''}" for name s j1
    using that by (auto simp: set_by_reflection_def split: if_splits)
  have sp: "set_by_switch ''cron_expr'' (VStr s) j \<noteq> None" for s by (simp add: set_by_switch_def)
  have all: "cj_ID j' = cj_ID j \<and> (field \<noteq> ''cron_expr'' \<longrightarrow> cj_CronExpr j' = cj_CronExpr j)
      \<and> (field \<noteq> ''enabled'' \<longrightarrow> cj_Enabled j' = cj_Enabled j)"
  proof (cases "set_by_switch field v j")
    case (Some j1)
    then have "j1 = j'" using assms(1) by (simp add: updateJobField_def)
    then show ?thesis using sw [OF Some] by blast
  next
    case None
    then obtain s where s: "v = VStr s" "set_by_reflection (toExportedFieldName field) s j = Some j'"
      using assms(1) by (auto simp: updateJobField_def split: any_value.splits)
    then have "field \<noteq> ''cron_expr''" using None sp [of s] by auto
    then have "toExportedFieldName field \<notin> {''ID'', ''CronExpr''}" using assms(2) unfolding safe_field_def by blast
    then show ?thesis using re [OF s(2)] by blast
  qed
  then show "cj_ID j' = cj_ID j" "field \<noteq> ''cron_expr'' \<Longrightarrow> cj_CronExpr j' = cj_CronExpr j"
    "field \<noteq> ''enabled'' \<Longrightarrow> cj_Enabled j' = cj_Enabled j" by auto
qed

text \<open>After the checks, an update of the expression or of the flag cannot fail.\<close>

lemma checked_update_works:
  assumes "update_check lib field v = None" "field = ''cron_expr'' \<or> field = ''enabled''"
  shows "field \<notin> set read_only_fields \<and> (\<exists>j'. updateJobField field v j = Some j')"
  using assms by (auto simp: update_check_def updateJobField_def set_by_switch_def read_only_fields_def split: any_value.splits if_splits)

lemma cs_inv_UpdateJob:
  assumes ok: "lib_ok lib" and inv: "cs_inv lib cs" and safe: "safe_field field"
  shows "cs_inv lib (fst (cs_UpdateJob lib i field v cs))"
proof (cases "cst_Get i (cs_store cs) = None \<or> update_check lib field v \<noteq> None")
  case True
  then have "fst (cs_UpdateJob lib i field v cs) = cs" by (auto simp: cs_UpdateJob_def split: option.split)
  then show ?thesis using inv by simp
next
  case False
  then obtain j where j: "cst_Get i (cs_store cs) = Some j" and check: "update_check lib field v = None" by auto
  have i: "cj_ID j = i" using cst.get_SomeD [OF j] by simp
  let ?re = "field = ''cron_expr'' \<or> field = ''enabled''"
  show ?thesis
  proof (cases "field \<in> set read_only_fields \<or> updateJobField field v j = None")
    case True
    then have "\<not> ?re" using checked_update_works [OF check, of j] by auto
    then have "fst (cs_UpdateJob lib i field v cs) = cs"
      using True j check by (auto simp: cs_UpdateJob_def cst_Update_def Let_def)
    then show ?thesis using inv by simp
  next
    case False
    then obtain j' where j': "updateJobField field v j = Some j'" and rw: "field \<notin> set read_only_fields" by auto
    note keeps = updateJobField_keeps [OF j' safe]
    let ?f = "\<lambda>_. j'" and ?u = "if ?re then unschedule lib i cs else cs"
    let ?st = "cst_change i ?f (cs_store cs)"
    let ?cs = "?u\<lparr>cs_store := ?st\<rparr>"
    have up: "cst_Update i field v (cs_store cs) = (?st, True)" using j j' rw by (simp add: cst_Update_def)
    have us: "cs_store ?u = cs_store cs" by (simp add: unschedule_fields)
    have get: "cst_Get i ?st = Some j'" using cst.get_change [of i ?f i "cs_store cs"] j i keeps(1) by simp
    have good: "cst.good ?st" using inv i keeps(1) cst.good_change [of "cs_store cs" i ?f] by (simp add: cs_inv_def)
    have eq: "fst (cs_UpdateJob lib i field v cs) = (if ?re \<and> cj_Enabled j' then fst (scheduleJob lib j' ?cs) else ?cs)"
      using j check up get us by (auto simp: cs_UpdateJob_def Let_def case_prod_unfold)
    have "sched lib UNIV (if ?re \<and> cj_Enabled j' then fst (scheduleJob lib j' ?cs) else ?cs)"
    proof (cases ?re)
      case True
      have "sched lib (- {i}) ?u" using True sched_unschedule_all [OF ok] inv by (simp add: cs_inv_def)
      then have s: "sched lib (- {i}) ?cs"
        using sched_change_other [of lib i ?u ?f] i keeps(1) us by simp
      show ?thesis
      proof (cases "cj_Enabled j'")
        case en: True
        have "insert i (- {i}) = UNIV" by auto
        then show ?thesis using sched_scheduleJob [OF ok s, of j'] get i keeps(1) en True by simp
      next
        case False
        then have "sched lib UNIV ?cs" by (intro sched_all [OF s]) (simp add: runnable_def get)
        then show ?thesis using False by simp
      qed
    next
      case False
      then have u: "?u = cs" and e: "cj_Enabled j' = cj_Enabled j" "cj_CronExpr j' = cj_CronExpr j" using keeps by auto
      have run: "runnable lib (cs\<lparr>cs_store := ?st\<rparr>) k x \<longleftrightarrow> runnable lib cs k x" for k x
        using cst.get_change [of i ?f k "cs_store cs"] i keeps(1) j e by (simp add: runnable_def)
      have "sched lib UNIV (cs\<lparr>cs_store := ?st\<rparr>)" by (rule sched_store) (use inv run in \<open>auto simp: cs_inv_def\<close>)
      then show ?thesis using False u by simp
    qed
    then show ?thesis using good unfolding eq by (simp add: cs_inv_def scheduleJob_store)
  qed
qed

section \<open>Reachable states\<close>

text \<open>
  The calls of the API, the muting commands, and the end of a run, which may come at any time after its start.
\<close>

datatype cron_call = CAdd cron_job | CRemove string | CEnable string | CDisable string | CUpdate string string any_value
  | CSetMute string bool | CToggleMute string | CEngine string | CRun time cron_job bool duration "string option"

fun cron_apply :: "'c cron_lib \<Rightarrow> (job_error \<Rightarrow> string) \<Rightarrow> cron_call \<Rightarrow> 'c cron_scheduler \<Rightarrow> 'c cron_scheduler" where
  "cron_apply lib et (CAdd job) cs = fst (cs_AddJob lib job cs)"
| "cron_apply lib et (CRemove i) cs = fst (cs_RemoveJob lib i cs)"
| "cron_apply lib et (CEnable i) cs = fst (cs_EnableJob lib i cs)"
| "cron_apply lib et (CDisable i) cs = fst (cs_DisableJob lib i cs)"
| "cron_apply lib et (CUpdate i field v) cs = fst (cs_UpdateJob lib i field v cs)"
| "cron_apply lib et (CSetMute i b) cs = cs\<lparr>cs_store := fst (cst_SetMute i b (cs_store cs))\<rparr>"
| "cron_apply lib et (CToggleMute i) cs = cs\<lparr>cs_store := fst (cst_ToggleMute i (cs_store cs))\<rparr>"
| "cron_apply lib et (CEngine name) cs = cs_RegisterEngine name cs"
| "cron_apply lib et (CRun now job manual took err) cs = fst (cs_runJob et now job manual took err cs)"

text \<open>A new job has an ID not in use (IDs are random), and an update names a field as the API documents it.\<close>

fun cron_allowed :: "cron_call \<Rightarrow> 'c cron_scheduler \<Rightarrow> bool" where
  "cron_allowed (CAdd job) cs = (cst_Get (cj_ID job) (cs_store cs) = None)"
| "cron_allowed (CUpdate i field v) cs = safe_field field"
| "cron_allowed _ cs = True"

inductive cron_reachable :: "'c cron_lib \<Rightarrow> (job_error \<Rightarrow> string) \<Rightarrow> 'c cron_scheduler \<Rightarrow> bool"
  for lib :: "'c cron_lib" and et :: "job_error \<Rightarrow> string" where
  start: "NewCronStore True disk True = Some st \<Longrightarrow> distinct (map cj_ID (cst_jobs st)) \<Longrightarrow> cl_entries lib c = []
    \<Longrightarrow> cron_reachable lib et (cs_Start lib (NewCronScheduler st c))"
| call: "cron_reachable lib et cs \<Longrightarrow> cron_allowed call cs \<Longrightarrow> cron_reachable lib et (cron_apply lib et call cs)"

lemma cs_inv_change:
  assumes "cs_inv lib cs" "\<And>j. cj_ID (f j) = cj_ID j" "\<And>j. cj_Enabled (f j) = cj_Enabled j" "\<And>j. cj_CronExpr (f j) = cj_CronExpr j"
  shows "cs_inv lib (cs\<lparr>cs_store := cst_change i f (cs_store cs)\<rparr>)"
  using assms by (auto simp: cs_inv_def intro: sched_change_same cst.good_change)

lemma cs_inv_MarkRun: "cs_inv lib cs \<Longrightarrow> cs_inv lib (cs_MarkRun now i err cs)"
  unfolding cs_MarkRun_def cst_MarkRun_def by (rule cs_inv_change) simp_all

lemma cs_inv_call:
  assumes "lib_ok lib" "cs_inv lib cs" "cron_allowed call cs"
  shows "cs_inv lib (cron_apply lib et call cs)"
proof (cases call)
  case (CSetMute i b)
  then show ?thesis using assms(2) by (auto simp: cst_SetMute_def intro: cs_inv_change)
next
  case (CToggleMute i)
  then show ?thesis using assms(2) by (auto simp: cst_ToggleMute_def split: option.split intro: cs_inv_change)
next
  case (CEngine name)
  have "sched lib UNIV (cs_RegisterEngine name cs)"
    using assms(2) by (simp add: cs_inv_def sched_def runnable_def cs_RegisterEngine_def)
  then show ?thesis using assms(2) CEngine by (simp add: cs_inv_def cs_RegisterEngine_def)
next
  case (CRun now job manual took err)
  then show ?thesis using assms(2) cs_inv_MarkRun by (auto simp: cs_runJob_def split: run_plan.split)
qed (use assms in \<open>auto intro: cs_inv_AddJob cs_inv_RemoveJob cs_inv_EnableJob cs_inv_DisableJob cs_inv_UpdateJob\<close>)

lemma cs_inv_reachable: "cron_reachable lib et cs \<Longrightarrow> lib_ok lib \<Longrightarrow> cs_inv lib cs"
proof (induction rule: cron_reachable.induct)
  case (start disk st c)
  have st: "st = cron_load \<lparr>cst_jobs = [], cst_disk = disk, cst_writable = True\<rparr>"
    using start(1) by (simp add: NewCronStore_def)
  have "cst_writable st" "cst_saved st" by (auto simp: st cron_load_def cst_saved_def split: stored.split)
  moreover have u: "cst.unique st" using start(2) by (simp add: cst.unique_def)
  ultimately show ?case
    using sched_start [OF start.prems start(3) u] by (simp add: cs_inv_def cst.good_def cs_Start_store NewCronScheduler_def)
next
  case (call cs c)
  then show ?case by (auto intro: cs_inv_call)
qed

end
