(* ===== verification/CronHuman.thy ===== *)
theory CronHuman
  imports GoStrings
begin

text \<open>
  The readable form of a cron expression (\<open>CronExprToHuman\<close> in \<open>src/core/cron.go\<close>). Text outside ASCII is given
  by its code points, encoded as UTF-8 by \<open>of_runes\<close>. A language is the string constant of \<open>src/core/i18n.go\<close>.
\<close>

type_synonym language = string

definition LangEnglish :: language where "LangEnglish = ''en''"
definition LangChinese :: language where "LangChinese = ''zh''"
definition LangTraditionalChinese :: language where "LangTraditionalChinese = ''zh-TW''"
definition LangJapanese :: language where "LangJapanese = ''ja''"
definition LangSpanish :: language where "LangSpanish = ''es''"

lemmas lang_defs = LangEnglish_def LangChinese_def LangTraditionalChinese_def LangJapanese_def LangSpanish_def

definition cronWeekdays :: "(language \<times> string list) list" where
  "cronWeekdays =
    [(LangEnglish, [''Sunday'', ''Monday'', ''Tuesday'', ''Wednesday'', ''Thursday'', ''Friday'', ''Saturday'']),
     (LangChinese, map (\<lambda>d. of_runes [0x5468, d]) [0x65E5, 0x4E00, 0x4E8C, 0x4E09, 0x56DB, 0x4E94, 0x516D]),
     (LangTraditionalChinese, map (\<lambda>d. of_runes [0x9031, d]) [0x65E5, 0x4E00, 0x4E8C, 0x4E09, 0x56DB, 0x4E94, 0x516D]),
     (LangJapanese, map (\<lambda>d. of_runes [d, 0x66DC]) [0x65E5, 0x6708, 0x706B, 0x6C34, 0x6728, 0x91D1, 0x571F]),
     (LangSpanish, [''domingo'', ''lunes'', ''martes'', ''mi'' @ of_runes [0xE9] @ ''rcoles'', ''jueves'', ''viernes'',
                    ''s'' @ of_runes [0xE1] @ ''bado''])]"

definition cjk_months :: "string list" where
  "cjk_months = [] # map (\<lambda>n. dec_nat n @ of_runes [0x6708]) [1, 2, 3, 4, 5, 6, 7, 8, 9, 10, 11, 12]"

definition cronMonths :: "(language \<times> string list) list" where
  "cronMonths =
    [(LangEnglish, ['''', ''Jan'', ''Feb'', ''Mar'', ''Apr'', ''May'', ''Jun'', ''Jul'', ''Aug'', ''Sep'', ''Oct'', ''Nov'', ''Dec'']),
     (LangChinese, cjk_months), (LangTraditionalChinese, cjk_months), (LangJapanese, cjk_months),
     (LangSpanish, ['''', ''ene'', ''feb'', ''mar'', ''abr'', ''may'', ''jun'', ''jul'', ''ago'', ''sep'', ''oct'', ''nov'', ''dic''])]"

definition cronLangNames :: "language \<Rightarrow> string list \<times> string list" where
  "cronLangNames lang =
     (let names = (\<lambda>m. case map_of m lang of Some w \<Rightarrow> w | None \<Rightarrow> the (map_of m LangEnglish))
      in (names cronWeekdays, names cronMonths))"

definition isZhLikeLang :: "language \<Rightarrow> bool" where
  "isZhLikeLang lang \<longleftrightarrow> lang = LangChinese \<or> lang = LangTraditionalChinese \<or> lang = LangJapanese"

text \<open>\<open>fmt.Sscanf(s, "%d", &n)\<close>: a signed decimal prefix that fits an \<open>int\<close>; what follows it is ignored.\<close>

definition scan_int :: "string \<Rightarrow> int option" where
  "scan_int s =
     (let (neg, d) = (case s of c # t \<Rightarrow> if c = CHR ''-'' then (True, t)
            else if c = CHR ''+'' then (False, t) else (False, s) | [] \<Rightarrow> (False, s));
          ds = takeWhile is_digit d;
          v = (if neg then - int (digits_value ds) else int (digits_value ds))
      in if ds \<noteq> [] \<and> - (2 ^ 63) \<le> v \<and> v < 2 ^ 63 then Some v else None)"

definition parseStep :: "string \<Rightarrow> int option" where
  "parseStep field =
     (if \<not> has_prefix field ''*/'' then None
      else case scan_int (drop 2 field) of
             Some n \<Rightarrow> if 0 < n then Some n else None
           | None \<Rightarrow> None)"

definition padZero :: "string \<Rightarrow> string" where
  "padZero s = (if length s = 1 then ''0'' @ s else s)"

text \<open>The two early returns for intervals.\<close>

definition every_minutes :: "language \<Rightarrow> int \<Rightarrow> string" where
  "every_minutes lang n =
     (if lang = LangChinese then of_runes [0x6BCF] @ itoa n @ of_runes [0x5206, 0x949F]
      else if lang = LangTraditionalChinese then of_runes [0x6BCF] @ itoa n @ of_runes [0x5206, 0x9418]
      else if lang = LangJapanese then itoa n @ of_runes [0x5206, 0x3054, 0x3068]
      else if lang = LangSpanish then ''Cada '' @ itoa n @ '' min''
      else ''Every '' @ itoa n @ '' min'')"

definition every_hours :: "language \<Rightarrow> int \<Rightarrow> string \<Rightarrow> string" where
  "every_hours lang n m =
     (let at = '' (:'' @ m @ '')''
      in if lang = LangChinese then of_runes [0x6BCF] @ itoa n @ of_runes [0x5C0F, 0x65F6] @ at
         else if lang = LangTraditionalChinese then of_runes [0x6BCF] @ itoa n @ of_runes [0x5C0F, 0x6642] @ at
         else if lang = LangJapanese then itoa n @ of_runes [0x6642, 0x9593, 0x3054, 0x3068] @ at
         else if lang = LangSpanish then ''Cada '' @ itoa n @ '' h'' @ at
         else ''Every '' @ itoa n @ '' h'' @ at)"

text \<open>The parts that are collected: weekday, month, day of the month, time.\<close>

definition weekday_part :: "language \<Rightarrow> string \<Rightarrow> string list" where
  "weekday_part lang dow =
     (if dow = ''*'' then []
      else case atoi dow of
             Some n \<Rightarrow>
               if 0 \<le> n \<and> n \<le> 6
               then (let w = fst (cronLangNames lang) ! nat n in [if isZhLikeLang lang then w else ''Every '' @ w])
               else [''weekday('' @ dow @ '')'']
           | None \<Rightarrow> [''weekday('' @ dow @ '')''])"

definition month_part :: "language \<Rightarrow> string \<Rightarrow> string list" where
  "month_part lang month =
     (if month = ''*'' then []
      else case atoi month of
             Some n \<Rightarrow> if 1 \<le> n \<and> n \<le> 12 then [snd (cronLangNames lang) ! nat n] else []
           | None \<Rightarrow> [])"

definition day_part :: "language \<Rightarrow> string \<Rightarrow> string list" where
  "day_part lang dm =
     (if dm = ''*'' then [] else if isZhLikeLang lang then [dm @ of_runes [0x65E5]] else [''day '' @ dm])"

definition time_part :: "language \<Rightarrow> string \<Rightarrow> string \<Rightarrow> string list" where
  "time_part lang hour mi =
     (if hour \<noteq> ''*'' \<and> mi \<noteq> ''*'' then
        (case parseStep mi of
           Some n \<Rightarrow>
             if lang = LangChinese \<or> lang = LangTraditionalChinese
             then [padZero hour @ of_runes [0x65F6] @ '' '' @ of_runes [0x6BCF] @ itoa n @ of_runes [0x5206, 0x949F]]
             else if lang = LangJapanese
             then [padZero hour @ of_runes [0x6642] @ '' '' @ itoa n @ of_runes [0x5206, 0x3054, 0x3068]]
             else [''hour '' @ padZero hour @ '' every '' @ itoa n @ '' min'']
         | None \<Rightarrow> [padZero hour @ '':'' @ padZero mi])
      else if hour \<noteq> ''*'' then
        [if isZhLikeLang lang then hour @ of_runes [0x6642] else ''hour '' @ hour]
      else if mi \<noteq> ''*'' then
        (case parseStep mi of
           Some n \<Rightarrow>
             if lang = LangChinese then [of_runes [0x6BCF] @ itoa n @ of_runes [0x5206, 0x949F]]
             else if lang = LangTraditionalChinese then [of_runes [0x6BCF] @ itoa n @ of_runes [0x5206, 0x9418]]
             else if lang = LangJapanese then [itoa n @ of_runes [0x5206, 0x3054, 0x3068]]
             else [''every '' @ itoa n @ '' min'']
         | None \<Rightarrow>
             if lang = LangChinese \<or> lang = LangTraditionalChinese
             then [of_runes [0x6BCF, 0x5C0F, 0x65F6, 0x7B2C] @ mi @ of_runes [0x5206]]
             else if lang = LangJapanese then [of_runes [0x6BCE, 0x6642] @ mi @ of_runes [0x5206]]
             else [''minute '' @ mi @ '' of every hour''])
      else [])"

definition describe :: "language \<Rightarrow> string \<Rightarrow> string \<Rightarrow> string \<Rightarrow> string list \<Rightarrow> string" where
  "describe lang dm month dow parts =
     (if dm = ''*'' \<and> month = ''*'' \<and> dow = ''*'' then
        (if lang = LangChinese \<or> lang = LangTraditionalChinese then of_runes [0x6BCF, 0x5929] @ '' '' @ join '' '' parts
         else if lang = LangJapanese then of_runes [0x6BCE, 0x65E5] @ '' '' @ join '' '' parts
         else if lang = LangSpanish then ''Diario '' @ join '' '' parts
         else ''Daily at '' @ join '' '' parts)
      else if dow \<noteq> ''*'' \<and> month = ''*'' \<and> dm = ''*'' then
        (if lang = LangChinese \<or> lang = LangTraditionalChinese then of_runes [0x6BCF] @ join '' '' parts
         else if lang = LangJapanese then of_runes [0x6BCE] @ join '' '' parts
         else join '' at '' parts)
      else if dm \<noteq> ''*'' \<and> month = ''*'' \<and> dow = ''*'' then
        (if lang = LangChinese \<or> lang = LangTraditionalChinese then of_runes [0x6BCF, 0x6708] @ join '' '' parts
         else if lang = LangJapanese then of_runes [0x6BCE, 0x6708] @ join '' '' parts
         else if lang = LangSpanish then ''Mensual, '' @ join '', '' parts
         else ''Monthly, '' @ join '', '' parts)
      else if isZhLikeLang lang then join '' '' parts
      else join '', '' parts)"

definition CronExprToHuman :: "string \<Rightarrow> language \<Rightarrow> string" where
  "CronExprToHuman expr lang =
     (case fields expr of
        [mi, hour, dm, month, dow] \<Rightarrow>
          let allWild = (dm = ''*'' \<and> month = ''*'' \<and> dow = ''*'');
              minutes = (if hour = ''*'' \<and> allWild then parseStep mi else None);
              hours = (if allWild then parseStep hour else None)
          in case minutes of
               Some n \<Rightarrow> every_minutes lang n
             | None \<Rightarrow>
                 (case hours of
                    Some n \<Rightarrow> every_hours lang n (if mi = ''*'' then ''00'' else padZero mi)
                  | None \<Rightarrow> describe lang dm month dow
                      (weekday_part lang dow @ month_part lang month @ day_part lang dm @ time_part lang hour mi))
      | _ \<Rightarrow> expr)"

section \<open>What users read\<close>

lemma digit_word: "list_all is_digit d \<Longrightarrow> d \<noteq> [] \<Longrightarrow> ascii_word d"
  by (auto simp: ascii_word_def list_all_iff is_digit_def)

lemma itoa_digits: "0 \<le> n \<Longrightarrow> list_all is_digit (itoa n) \<and> itoa n \<noteq> []"
  by (simp add: itoa_def dec_nat_digits)

lemma ascii_word_append: "ascii_word a \<Longrightarrow> ascii_word b \<Longrightarrow> ascii_word (a @ b)"
  by (simp add: ascii_word_def)

lemma scan_int_itoa: "0 \<le> n \<Longrightarrow> n < 2 ^ 63 \<Longrightarrow> scan_int (itoa n) = Some n"
proof -
  assume n: "0 \<le> n" "n < 2 ^ 63"
  obtain c t where c: "dec_nat (nat n) = c # t" "c \<noteq> CHR ''-''" "c \<noteq> CHR ''+''" using dec_nat_head by blast
  have d: "takeWhile is_digit (dec_nat (nat n)) = dec_nat (nat n)"
    using dec_nat_digits [of "nat n"] by (simp add: list_all_iff takeWhile_eq_all_conv)
  have v: "digits_value (c # t) = nat n" using digits_value_dec_nat [of "nat n"] by (simp add: c)
  show ?thesis using n d c(2,3) v by (simp add: scan_int_def itoa_def c(1))
qed

lemma parseStep_itoa: "0 < n \<Longrightarrow> n < 2 ^ 63 \<Longrightarrow> parseStep (''*/'' @ itoa n) = Some n"
  by (simp add: parseStep_def has_prefix_def scan_int_itoa)

lemma parseStep_digits: "list_all is_digit d \<Longrightarrow> parseStep d = None"
  by (cases d) (auto simp: parseStep_def has_prefix_def is_digit_def byte_def)

lemma star_word: "ascii_word ''*''" "ascii_word ''*/''"
  by (simp_all add: ascii_word_def byte_def)

lemma star_no_digits: "list_all is_digit d \<Longrightarrow> d \<noteq> ''*''"
  by (auto simp: is_digit_def byte_def)

lemma fields_five:
  assumes "ascii_word a" "ascii_word b"
  shows "fields (a @ '' '' @ b @ '' * * *'') = [a, b, ''*'', ''*'', ''*'']"
  using fields_join_blank [of "[a, b, ''*'', ''*'', ''*'']"] assms star_word by simp

text \<open>
  The common schedules are described as what they are: every \<open>n\<close> minutes, every \<open>n\<close> hours at a minute,
  and daily at a time.
\<close>

theorem common_schedules_described:
  assumes "0 < n" and "n < 2 ^ 63" and "0 \<le> m" and "m < 60" and "0 \<le> h" and "h < 24"
  shows "CronExprToHuman (''*/'' @ itoa n @ '' * * * *'') LangEnglish = ''Every '' @ itoa n @ '' min''
    \<and> CronExprToHuman (itoa m @ '' */'' @ itoa n @ '' * * *'') LangEnglish
        = ''Every '' @ itoa n @ '' h (:'' @ padZero (itoa m) @ '')''
    \<and> CronExprToHuman (itoa m @ '' '' @ itoa h @ '' * * *'') LangEnglish
        = ''Daily at '' @ padZero (itoa h) @ '':'' @ padZero (itoa m)"
proof -
  have num: "list_all is_digit (itoa k)" "ascii_word (itoa k)" "itoa k \<noteq> ''*''" if "0 \<le> k" for k
    using itoa_digits [OF that] digit_word star_no_digits by auto
  have n0: "0 \<le> n" using assms(1) by simp
  have step: "ascii_word (''*/'' @ itoa n)" by (rule ascii_word_append [OF star_word(2) num(2) [OF n0]])
  have f1: "fields (''*/'' @ itoa n @ '' * * * *'') = [''*/'' @ itoa n, ''*'', ''*'', ''*'', ''*'']"
    using fields_five [OF step star_word(1)] by simp
  have f2: "fields (itoa m @ '' */'' @ itoa n @ '' * * *'') = [itoa m, ''*/'' @ itoa n, ''*'', ''*'', ''*'']"
    using fields_five [OF num(2) [OF assms(3)] step] by simp
  have f3: "fields (itoa m @ '' '' @ itoa h @ '' * * *'') = [itoa m, itoa h, ''*'', ''*'', ''*'']"
    using fields_five [OF num(2) [OF assms(3)] num(2) [OF assms(5)]] by simp
  have ps: "parseStep (''*/'' @ itoa n) = Some n" by (rule parseStep_itoa [OF assms(1,2)])
  have none: "parseStep (itoa m) = None" "parseStep (itoa h) = None"
    using num(1) [OF assms(3)] num(1) [OF assms(5)] by (simp_all add: parseStep_digits)
  have "CronExprToHuman (''*/'' @ itoa n @ '' * * * *'') LangEnglish = ''Every '' @ itoa n @ '' min''"
    unfolding CronExprToHuman_def f1 using ps by (simp add: every_minutes_def lang_defs)
  moreover have "CronExprToHuman (itoa m @ '' */'' @ itoa n @ '' * * *'') LangEnglish
      = ''Every '' @ itoa n @ '' h (:'' @ padZero (itoa m) @ '')''"
    unfolding CronExprToHuman_def f2 using ps none num(3) [OF assms(3)]
    by (simp add: every_hours_def lang_defs)
  moreover have "CronExprToHuman (itoa m @ '' '' @ itoa h @ '' * * *'') LangEnglish
      = ''Daily at '' @ padZero (itoa h) @ '':'' @ padZero (itoa m)"
    unfolding CronExprToHuman_def f3 using none num(3) [OF assms(3)] num(3) [OF assms(5)]
    by (simp add: describe_def weekday_part_def month_part_def day_part_def time_part_def lang_defs)
  ultimately show ?thesis by blast
qed

theorem common_schedules_described_witness:
  "CronExprToHuman ''5 9 * * *'' LangEnglish = ''Daily at 09:05'' \<and> CronExprToHuman ''*/10 * * * *'' LangEnglish = ''Every 10 min''"
proof -
  have i: "itoa 5 = ''5''" "itoa 9 = ''9''" "itoa 10 = ''10''" by code_simp+
  show ?thesis using common_schedules_described [of 10 5 9] by (simp add: i padZero_def)
qed

text \<open>
  Schedules that are not the same can read the same: a job that runs every minute of every other hour
  reads as one that runs once in two hours, and one that runs every hour reads as daily.
\<close>

theorem different_schedules_same_text:
  "CronExprToHuman ''* */2 * * *'' LangEnglish = CronExprToHuman ''0 */2 * * *'' LangEnglish
   \<and> CronExprToHuman ''5 * * * *'' LangEnglish = ''Daily at minute 5 of every hour''
   \<and> CronExprToHuman ''0 9 1 */2 *'' LangEnglish = CronExprToHuman ''0 9 1 1-6 *'' LangEnglish"
proof -
  have five: "fields ''5 * * * *'' = [''5'', ''*'', ''*'', ''*'', ''*'']"
    "fields ''* */2 * * *'' = [''*'', ''*/2'', ''*'', ''*'', ''*'']"
    "fields ''0 */2 * * *'' = [''0'', ''*/2'', ''*'', ''*'', ''*'']"
    "fields ''0 9 1 */2 *'' = [''0'', ''9'', ''1'', ''*/2'', ''*'']"
    "fields ''0 9 1 1-6 *'' = [''0'', ''9'', ''1'', ''1-6'', ''*'']"
    using fields_join_blank [of "[''5'', ''*'', ''*'', ''*'', ''*'']"] fields_join_blank [of "[''*'', ''*/2'', ''*'', ''*'', ''*'']"]
      fields_join_blank [of "[''0'', ''*/2'', ''*'', ''*'', ''*'']"] fields_join_blank [of "[''0'', ''9'', ''1'', ''*/2'', ''*'']"]
      fields_join_blank [of "[''0'', ''9'', ''1'', ''1-6'', ''*'']"]
    by (simp_all add: ascii_word_def byte_def)
  have steps: "parseStep ''*/2'' = Some 2" "parseStep ''5'' = None" "parseStep ''9'' = None" "parseStep ''0'' = None"
    "parseStep ''*'' = None" "atoi ''*/2'' = None" "atoi ''1-6'' = None"
    by code_simp+
  show ?thesis
    unfolding CronExprToHuman_def five
    by (simp add: steps every_hours_def describe_def weekday_part_def month_part_def day_part_def time_part_def padZero_def lang_defs)
qed

end
