(* ===== verification/CronProperties.thy ===== *)
theory CronProperties
  imports CronInvariant CronHuman
begin

text \<open>
  The properties of scheduled jobs. A list of entries stands for the cron library in the concrete instances.
\<close>

definition list_lib :: "(nat \<times> string \<times> string) list cron_lib" where
  "list_lib = \<lparr>cl_parse = (\<lambda>e. e \<noteq> []),
     cl_add = (\<lambda>e j c. if e = [] then None else let n = Suc (sum_list (map fst c)) in Some (c @ [(n, e, j)], n)),
     cl_remove = (\<lambda>i c. filter (\<lambda>x. fst x \<noteq> i) c), cl_entries = (\<lambda>c. c), cl_next = (\<lambda>_ _. 0)\<rparr>"

lemma list_lib_ok: "lib_ok list_lib"
proof -
  have "n \<le> sum_list (map fst c)" if "n \<in> fst ` set c" for n and c :: "(nat \<times> string \<times> string) list"
    using member_le_sum_list [of n "map fst c"] that by simp
  then show ?thesis by (fastforce simp: lib_ok_def list_lib_def Let_def)
qed

definition sample_job :: cron_job where
  "sample_job = \<lparr>cj_ID = ''j1'', cj_Project = ''p'', cj_SessionKey = ''tg:1'', cj_CronExpr = ''0 9 * * *'', cj_Prompt = ''hi'',
     cj_Exec = [], cj_WorkDir = [], cj_Description = [], cj_Enabled = True, cj_Silent = None, cj_Mute = False,
     cj_SessionMode = [], cj_Mode = [], cj_TimeoutMins = None, cj_CreatedAt = 1, cj_LastRun = 0, cj_LastError = []\<rparr>"

definition sample_scheduler :: "(nat \<times> string \<times> string) list cron_scheduler" where
  "sample_scheduler = fst (cs_AddJob list_lib sample_job
     (cs_Start list_lib (NewCronScheduler (the (NewCronStore True NoFile True)) [])))"

lemma sample_reachable: "cron_reachable list_lib et sample_scheduler"
proof -
  have "cron_reachable list_lib et (cs_Start list_lib (NewCronScheduler (the (NewCronStore True NoFile True)) []))"
    by (rule cron_reachable.start [where disk = NoFile])
      (simp_all add: NewCronStore_def cron_load_def list_lib_def)
  then have "cron_reachable list_lib et (cron_apply list_lib et (CAdd sample_job)
      (cs_Start list_lib (NewCronScheduler (the (NewCronStore True NoFile True)) [])))"
    by (rule cron_reachable.call)
      (simp add: cs_Start_store NewCronScheduler_def NewCronStore_def cron_load_def cst_Get_def)
  then show ?thesis by (simp add: sample_scheduler_def)
qed

lemma sample_fields:
  "cj_ID sample_job = ''j1''" "cj_CronExpr sample_job = ''0 9 * * *''" "cj_Enabled sample_job" "cj_Project sample_job = ''p''"
  "cj_SessionKey sample_job = ''tg:1''" "cj_SessionMode sample_job = []" "cj_Mode sample_job = []" "cj_TimeoutMins sample_job = None"
  by (simp_all add: sample_job_def)

lemma sample_valid: "validateCronJob sample_job = None" "sample_job\<lparr>cj_SessionMode := NormalizeCronSessionMode []\<rparr> = sample_job"
proof -
  have n: "NormalizeCronSessionMode [] = []" by (simp add: NormalizeCronSessionMode_def to_lower_def)
  have "trim_space ''tg:1'' = ''tg:1''" by (rule trim_space_word) (simp add: ascii_word_def byte_def)
  then show "validateCronJob sample_job = None"
    using n by (simp add: validateCronJob_def sample_fields session_mode_ok_def)
  show "sample_job\<lparr>cj_SessionMode := NormalizeCronSessionMode []\<rparr> = sample_job" by (simp add: n sample_job_def)
qed

lemma sample_state:
  "cs_entries sample_scheduler = [(''j1'', 1)] \<and> cs_cron sample_scheduler = [(1, ''0 9 * * *'', ''j1'')]
   \<and> cs_store sample_scheduler = \<lparr>cst_jobs = [sample_job], cst_disk = Doc [sample_job], cst_writable = True\<rparr>
   \<and> cs_engines sample_scheduler = []"
  by (simp add: sample_scheduler_def cs_AddJob_def sample_valid sample_fields cs_Start_def cst_List_def NewCronScheduler_def
      NewCronStore_def cron_load_def cst_Add_def cron_save_def scheduleJob_def list_lib_def)





text \<open>
  An update can step around the validation: fields spelled as their Go names reach the reflective
  fallback, so the ID and the last error can be overwritten although they are read-only, an expression that does
  not parse is stored while the old schedule keeps running, and an empty session key, which a new job may
  not have, is accepted under its documented name.
\<close>

theorem update_bypasses_validation:
  "(let (cs, err) = cs_UpdateJob list_lib ''j1'' ''CronExpr'' (VStr []) sample_scheduler
    in err = None \<and> map cj_CronExpr (cst_jobs (cs_store cs)) = [[]] \<and> cs_cron cs = [(1, ''0 9 * * *'', ''j1'')])
   \<and> (let (cs, err) = cs_UpdateJob list_lib ''j1'' ''ID'' (VStr ''j2'') sample_scheduler
      in err = None \<and> map cj_ID (cst_jobs (cs_store cs)) = [''j2''] \<and> cs_cron cs = [(1, ''0 9 * * *'', ''j1'')])
   \<and> (let (cs, err) = cs_UpdateJob list_lib ''j1'' ''LastError'' (VStr ''x'') sample_scheduler
      in err = None \<and> map cj_LastError (cst_jobs (cs_store cs)) = [''x''])
   \<and> (let (cs, err) = cs_UpdateJob list_lib ''j1'' ''session_key'' (VStr []) sample_scheduler
      in err = None \<and> map validateCronJob (cst_jobs (cs_store cs)) = [Some SessionKeyRequired])"
proof -
  have names: "toExportedFieldName ''CronExpr'' = ''CronExpr''" "toExportedFieldName ''ID'' = ''ID''"
    "toExportedFieldName ''LastError'' = ''LastError''"
    by (simp_all add: toExportedFieldName_def upper_byte_def byte_def)
  have get: "cst_Get ''j1'' (cs_store sample_scheduler) = Some sample_job"
    using sample_state by (simp add: cst_Get_def has_id_def sample_fields)
  have up: "cst_Update ''j1'' f (VStr v) (cs_store sample_scheduler)
      = (\<lparr>cst_jobs = [j'], cst_disk = Doc [j'], cst_writable = True\<rparr>, True)"
    if "f \<notin> set read_only_fields" "updateJobField f (VStr v) sample_job = Some j'" for f v j'
    using that get sample_state by (simp add: cst_Update_def cst_change_def cron_save_def has_id_def sample_fields)
  have run: "cs_UpdateJob list_lib ''j1'' f (VStr v) sample_scheduler
      = (sample_scheduler\<lparr>cs_store := \<lparr>cst_jobs = [j'], cst_disk = Doc [j'], cst_writable = True\<rparr>\<rparr>, None)"
    if "f \<notin> set read_only_fields" "updateJobField f (VStr v) sample_job = Some j'"
      "f \<notin> {''cron_expr'', ''mode'', ''session_mode'', ''enabled''}" for f v j'
    using that get up [OF that(1,2)] by (simp add: cs_UpdateJob_def update_check_def)
  have fields: "updateJobField ''CronExpr'' (VStr []) sample_job = Some (sample_job\<lparr>cj_CronExpr := []\<rparr>)"
    "updateJobField ''ID'' (VStr ''j2'') sample_job = Some (sample_job\<lparr>cj_ID := ''j2''\<rparr>)"
    "updateJobField ''LastError'' (VStr ''x'') sample_job = Some (sample_job\<lparr>cj_LastError := ''x''\<rparr>)"
    "updateJobField ''session_key'' (VStr []) sample_job = Some (sample_job\<lparr>cj_SessionKey := []\<rparr>)"
    by (simp_all add: updateJobField_def set_by_switch_def set_by_reflection_def names)
  show ?thesis
    using sample_state run [OF _ fields(1)] run [OF _ fields(2)] run [OF _ fields(3)] run [OF _ fields(4)]
    by (simp add: read_only_fields_def validateCronJob_def)
qed

text \<open>
  A timeout is the configured number of minutes up to about 292 years; beyond, the product overflows: the
  job then waits without a limit, or is reported as timed out after seconds.
\<close>

theorem execution_timeout_bounds:
  "(\<forall>m. 0 < m \<and> m \<le> 153722867 \<longrightarrow> cron_ExecutionTimeout (sample_job\<lparr>cj_TimeoutMins := Some m\<rparr>) = m * minute)
   \<and> cron_ExecutionTimeout (sample_job\<lparr>cj_TimeoutMins := Some 0\<rparr>) = 0
   \<and> cron_ExecutionTimeout (sample_job\<lparr>cj_TimeoutMins := None\<rparr>) = 30 * minute
   \<and> cron_ExecutionTimeout (sample_job\<lparr>cj_TimeoutMins := Some 153722868\<rparr>) < 0
   \<and> 0 < cron_ExecutionTimeout (sample_job\<lparr>cj_TimeoutMins := Some 307445735\<rparr>)
   \<and> cron_ExecutionTimeout (sample_job\<lparr>cj_TimeoutMins := Some 307445735\<rparr>) < 27 * second"
proof -
  have m: "minute = 60000000000" by (simp add: minute_def second_def)
  have "cron_ExecutionTimeout (sample_job\<lparr>cj_TimeoutMins := Some k\<rparr>) = k * minute" if "0 < k" "k \<le> 153722867" for k
    using that wrap64_id [of "k * minute"] by (simp add: cron_ExecutionTimeout_def timeout_of_def m)
  then show ?thesis
    by (simp add: cron_ExecutionTimeout_def timeout_of_def m defaultCronJobTimeout_def wrap64_def second_def)
qed

theorem execution_timeout_bounds_witness:
  "cron_ExecutionTimeout (sample_job\<lparr>cj_TimeoutMins := Some 45\<rparr>) = 45 * minute"
  using execution_timeout_bounds by simp

text \<open>
  When an entry fires, the engine is asked to run the job exactly when the job still exists, is enabled
  and belongs to a registered project; the run, or that the project is missing, is recorded in that job, and
  nothing else changes.
\<close>

theorem scheduled_run_spec:
  assumes "cs_executeJob errtext now i took err cs = (cs', runs)"
  shows "(runs \<longleftrightarrow> (\<exists>job. cst_Get i (cs_store cs) = Some job \<and> cj_Enabled job \<and> cj_Project job \<in> set (cs_engines cs)))
    \<and> cst_Get k (cs_store cs') =
        (case cst_Get k (cs_store cs) of
           Some job \<Rightarrow>
             if k = i \<and> cj_Enabled job
             then Some (job\<lparr>cj_LastRun := now, cj_LastError :=
               (if cj_Project job \<notin> set (cs_engines cs) then errtext (ProjectNotFound (cj_Project job))
                else if 0 < cron_ExecutionTimeout job \<and> cron_ExecutionTimeout job < took
                     then errtext (JobTimedOut (cron_ExecutionTimeout job))
                     else case err of Some e \<Rightarrow> e | None \<Rightarrow> [])\<rparr>)
             else Some job
         | None \<Rightarrow> None)
    \<and> cs_entries cs' = cs_entries cs \<and> cs_cron cs' = cs_cron cs"
proof (cases "cst_Get i (cs_store cs)")
  case None
  then show ?thesis using assms by (auto simp: cs_executeJob_def split: option.split)
next
  case (Some job)
  have i: "cj_ID job = i" using cst.get_SomeD [OF Some] by simp
  have mark: "cst_Get k (cst_MarkRun now i e (cs_store cs)) = (if k = i
      then Some (job\<lparr>cj_LastRun := now, cj_LastError := (case e of Some x \<Rightarrow> x | None \<Rightarrow> [])\<rparr>)
      else cst_Get k (cs_store cs))" for e
    unfolding cst_MarkRun_def by (subst cst.get_change) (simp_all add: Some)
  have exec: "cs_executeJob errtext now i took err cs = cs_runJob errtext now job False took err cs"
    by (simp add: cs_executeJob_def Some)
  consider (off) "\<not> cj_Enabled job" | (noproject) "cj_Enabled job" "cj_Project job \<notin> set (cs_engines cs)"
    | (execute) "cj_Enabled job" "cj_Project job \<in> set (cs_engines cs)" by blast
  then show ?thesis
  proof cases
    case off
    then have "cs' = cs" "\<not> runs" using assms exec by (auto simp: cs_runJob_def run_plan_of_def)
    then show ?thesis using off Some by (simp split: option.split)
  next
    case noproject
    then have "cs' = cs_MarkRun now i (Some (errtext (ProjectNotFound (cj_Project job)))) cs" "\<not> runs"
      using assms exec i by (auto simp: cs_runJob_def run_plan_of_def)
    then show ?thesis using noproject Some by (simp add: cs_MarkRun_def mark split: option.split)
  next
    case execute
    then have "cs' = cs_MarkRun now i (run_error errtext (cron_ExecutionTimeout job) took err) cs" "runs"
      using assms exec i by (auto simp: cs_runJob_def run_plan_of_def)
    then show ?thesis using execute Some by (simp add: cs_MarkRun_def mark run_error_def split: option.split)
  qed
qed

theorem scheduled_run_spec_witness:
  "snd (cs_executeJob (\<lambda>_. ''e'') 9 ''j1'' 1 None (cs_RegisterEngine ''p'' sample_scheduler))"
proof -
  have "\<exists>job. cst_Get ''j1'' (cs_store (cs_RegisterEngine ''p'' sample_scheduler)) = Some job \<and> cj_Enabled job
      \<and> cj_Project job \<in> set (cs_engines (cs_RegisterEngine ''p'' sample_scheduler))"
    using sample_state by (simp add: cs_RegisterEngine_def cst_Get_def has_id_def sample_job_def)
  then show ?thesis
    using scheduled_run_spec [OF prod.collapse [symmetric], of "\<lambda>_. ''e''" 9 "''j1''" 1 None "cs_RegisterEngine ''p'' sample_scheduler"]
    by blast
qed

end
