(* ===== verification/TimerJob.thy ===== *)
theory TimerJob
  imports CronStore
begin

text \<open>
  One-shot timers and their scheduler (\<open>src/core/timer.go\<close>). A \<open>*time.Timer\<close> is a handle; \<open>ts_armed\<close>
  lists the timers of the runtime that are neither stopped nor expired, with the time each is due. The runtime
  runs the callback of an armed timer at some moment not before it is due.
\<close>

record timer_job =
  tj_ID :: string
  tj_Project :: string
  tj_SessionKey :: string
  tj_ScheduledAt :: time
  tj_Prompt :: string
  tj_Exec :: string
  tj_WorkDir :: string
  tj_Description :: string
  tj_Silent :: "bool option"
  tj_Mute :: bool
  tj_SessionMode :: string
  tj_Mode :: string
  tj_TimeoutMins :: "int option"
  tj_CreatedAt :: time
  tj_Fired :: bool
  tj_FiredAt :: time
  tj_LastError :: string

definition timer_IsShellJob :: "timer_job \<Rightarrow> bool" where
  "timer_IsShellJob j \<longleftrightarrow> tj_Exec j \<noteq> []"

definition timer_ExecutionTimeout :: "timer_job \<Rightarrow> duration" where
  "timer_ExecutionTimeout j = timeout_of (tj_TimeoutMins j)"

definition timer_UsesNewSessionPerRun :: "timer_job \<Rightarrow> bool" where
  "timer_UsesNewSessionPerRun j \<longleftrightarrow> NormalizeCronSessionMode (tj_SessionMode j) = ''new_per_run''"

definition validateTimerJob :: "timer_job \<Rightarrow> job_error option" where
  "validateTimerJob j =
     (if trim_space (tj_SessionKey j) = [] then Some SessionKeyRequired
      else if tj_ScheduledAt j = 0 then Some ScheduledAtRequired
      else if tj_Prompt j = [] \<and> tj_Exec j = [] then Some PromptOrExecRequired
      else if tj_Prompt j \<noteq> [] \<and> tj_Exec j \<noteq> [] then Some PromptAndExec
      else if \<not> session_mode_ok (tj_SessionMode j) then Some (InvalidSessionMode (tj_SessionMode j))
      else if tj_Mode j \<noteq> [] \<and> tj_Mode j \<notin> set known_modes then Some (InvalidMode (tj_Mode j))
      else if (case tj_TimeoutMins j of Some m \<Rightarrow> m < 0 | None \<Rightarrow> False) then Some NegativeTimeout
      else None)"

section \<open>The store\<close>

record timer_store =
  tst_jobs :: "timer_job list"
  tst_disk :: "timer_job list stored"
  tst_writable :: bool

definition timer_load :: "timer_store \<Rightarrow> timer_store" where
  "timer_load s = (case tst_disk s of Doc js \<Rightarrow> s\<lparr>tst_jobs := js\<rparr> | _ \<Rightarrow> s)"

definition NewTimerStore :: "bool \<Rightarrow> timer_job list stored \<Rightarrow> bool \<Rightarrow> timer_store option" where
  "NewTimerStore mkdir_ok disk writable =
     (if \<not> mkdir_ok then None else Some (timer_load \<lparr>tst_jobs = [], tst_disk = disk, tst_writable = writable\<rparr>))"

definition timer_save :: "timer_store \<Rightarrow> timer_store \<times> bool" where
  "timer_save s = (if tst_writable s then (s\<lparr>tst_disk := Doc (tst_jobs s)\<rparr>, True) else (s, False))"

definition tst_Add :: "timer_job \<Rightarrow> timer_store \<Rightarrow> timer_store \<times> bool" where
  "tst_Add job s = timer_save (s\<lparr>tst_jobs := tst_jobs s @ [job]\<rparr>)"

definition timer_has_id :: "string \<Rightarrow> timer_job \<Rightarrow> bool" where
  "timer_has_id i j \<longleftrightarrow> tj_ID j = i"

definition tst_Remove :: "string \<Rightarrow> timer_store \<Rightarrow> timer_store \<times> bool" where
  "tst_Remove i s =
     (if list_ex (timer_has_id i) (tst_jobs s)
      then (fst (timer_save (s\<lparr>tst_jobs := remove_first (timer_has_id i) (tst_jobs s)\<rparr>)), True)
      else (s, False))"

definition tst_change :: "string \<Rightarrow> (timer_job \<Rightarrow> timer_job) \<Rightarrow> timer_store \<Rightarrow> timer_store" where
  "tst_change i f s =
     (if list_ex (timer_has_id i) (tst_jobs s)
      then fst (timer_save (s\<lparr>tst_jobs := update_first (timer_has_id i) f (tst_jobs s)\<rparr>))
      else s)"

definition tst_SetMute :: "string \<Rightarrow> bool \<Rightarrow> timer_store \<Rightarrow> timer_store \<times> bool" where
  "tst_SetMute i mute s = (tst_change i (\<lambda>j. j\<lparr>tj_Mute := mute\<rparr>) s, list_ex (timer_has_id i) (tst_jobs s))"

definition tst_MarkFired :: "time \<Rightarrow> string \<Rightarrow> string option \<Rightarrow> timer_store \<Rightarrow> timer_store" where
  "tst_MarkFired now i err s =
     tst_change i (\<lambda>j. j\<lparr>tj_Fired := True, tj_FiredAt := now, tj_LastError := (case err of Some e \<Rightarrow> e | None \<Rightarrow> [])\<rparr>) s"

definition tst_List :: "timer_store \<Rightarrow> timer_job list" where
  "tst_List s = tst_jobs s"

definition tst_ListByProject :: "string \<Rightarrow> timer_store \<Rightarrow> timer_job list" where
  "tst_ListByProject project s = filter (\<lambda>j. tj_Project j = project) (tst_jobs s)"

definition tst_ListBySessionKey :: "string \<Rightarrow> timer_store \<Rightarrow> timer_job list" where
  "tst_ListBySessionKey sessionKey s = filter (\<lambda>j. tj_SessionKey j = sessionKey) (tst_jobs s)"

definition tst_Get :: "string \<Rightarrow> timer_store \<Rightarrow> timer_job option" where
  "tst_Get i s = find (timer_has_id i) (tst_jobs s)"

definition tst_ListPending :: "timer_store \<Rightarrow> timer_job list" where
  "tst_ListPending s = filter (\<lambda>j. \<not> tj_Fired j) (tst_jobs s)"

definition tst_saved :: "timer_store \<Rightarrow> bool" where
  "tst_saved s \<longleftrightarrow> tst_jobs (timer_load (s\<lparr>tst_jobs := []\<rparr>)) = tst_jobs s"

lemma timer_has_id_eq: "timer_has_id i = (\<lambda>j. tj_ID j = i)"
  by (auto simp: timer_has_id_def)

lemma timer_save_jobs [simp]: "tst_jobs (fst (timer_save s)) = tst_jobs s" "tst_writable (fst (timer_save s)) = tst_writable s"
  by (simp_all add: timer_save_def)

lemma timer_save_saved [simp]: "tst_writable s \<Longrightarrow> tst_saved (fst (timer_save s))"
  by (simp add: timer_save_def tst_saved_def timer_load_def)

interpretation tst: job_store tst_jobs tj_ID tst_Get "\<lambda>j s. fst (tst_Add j s)" tst_Remove tst_change tst_saved tst_writable
proof unfold_locales
  fix s :: timer_store and i j f
  show "tst_Get i s = find (\<lambda>j. tj_ID j = i) (tst_jobs s)" by (simp add: tst_Get_def timer_has_id_eq)
  show "tst_jobs (fst (tst_Add j s)) = tst_jobs s @ [j]" by (simp add: tst_Add_def)
  show "tst_jobs (fst (tst_Remove i s)) = remove_first (\<lambda>j. tj_ID j = i) (tst_jobs s)"
    using absent_first [of "timer_has_id i" "tst_jobs s"] by (simp add: tst_Remove_def timer_has_id_eq)
  show "snd (tst_Remove i s) \<longleftrightarrow> (\<exists>j \<in> set (tst_jobs s). tj_ID j = i)"
    by (simp add: tst_Remove_def timer_has_id_eq list_ex_iff)
  show "tst_jobs (tst_change i f s) = update_first (\<lambda>j. tj_ID j = i) f (tst_jobs s)"
    using absent_first [of "timer_has_id i" "tst_jobs s"] by (simp add: tst_change_def timer_has_id_eq)
  show "tst_saved (fst (tst_Add j s))" if "tst_writable s" using that by (simp add: tst_Add_def)
  show "tst_saved (fst (tst_Remove i s))" if "tst_writable s" "tst_saved s" using that by (simp add: tst_Remove_def)
  show "tst_saved (tst_change i f s)" if "tst_writable s" "tst_saved s" using that by (simp add: tst_change_def)
  show "tst_writable (fst (tst_Add j s)) = tst_writable s" by (simp add: tst_Add_def)
  show "tst_writable (fst (tst_Remove i s)) = tst_writable s" by (simp add: tst_Remove_def)
  show "tst_writable (tst_change i f s) = tst_writable s" by (simp add: tst_change_def)
qed

section \<open>The scheduler\<close>

record timer_scheduler =
  ts_store :: timer_store
  ts_engines :: "string list"
  ts_timers :: "(string, nat) gomap"
  ts_armed :: "(nat \<times> time \<times> string) list"
  ts_handles :: nat
  ts_defaultSilent :: bool
  ts_defaultSessionMode :: string

definition missedJobGracePeriod :: duration where "missedJobGracePeriod = 5 * minute"

definition NewTimerScheduler :: "timer_store \<Rightarrow> timer_scheduler" where
  "NewTimerScheduler store =
     \<lparr>ts_store = store, ts_engines = [], ts_timers = [], ts_armed = [], ts_handles = 0,
      ts_defaultSilent = False, ts_defaultSessionMode = []\<rparr>"

definition ts_RegisterEngine :: "string \<Rightarrow> timer_scheduler \<Rightarrow> timer_scheduler" where
  "ts_RegisterEngine name ts = ts\<lparr>ts_engines := List.insert name (ts_engines ts)\<rparr>"

definition ts_SetDefaultSilent :: "bool \<Rightarrow> timer_scheduler \<Rightarrow> timer_scheduler" where
  "ts_SetDefaultSilent silent ts = ts\<lparr>ts_defaultSilent := silent\<rparr>"

definition ts_SetDefaultSessionMode :: "string \<Rightarrow> timer_scheduler \<Rightarrow> timer_scheduler" where
  "ts_SetDefaultSessionMode mode ts = ts\<lparr>ts_defaultSessionMode := NormalizeCronSessionMode mode\<rparr>"

definition ts_IsSilent :: "timer_job \<Rightarrow> timer_scheduler \<Rightarrow> bool" where
  "ts_IsSilent job ts = (case tj_Silent job of Some b \<Rightarrow> b | None \<Rightarrow> ts_defaultSilent ts)"

definition ts_UsesNewSession :: "timer_job \<Rightarrow> timer_scheduler \<Rightarrow> bool" where
  "ts_UsesNewSession job ts =
     (if tj_SessionMode job \<noteq> [] then timer_UsesNewSessionPerRun job else ts_defaultSessionMode ts = ''new_per_run'')"

text \<open>\<open>Timer.Stop\<close>, and \<open>Time.Sub\<close>, which saturates at the ends of the 64-bit range.\<close>

definition stop_timer :: "nat \<Rightarrow> timer_scheduler \<Rightarrow> timer_scheduler" where
  "stop_timer n ts = ts\<lparr>ts_armed := filter (\<lambda>(m, _). m \<noteq> n) (ts_armed ts)\<rparr>"

definition time_sub :: "time \<Rightarrow> time \<Rightarrow> duration" where
  "time_sub t u = max (- (2 ^ 63)) (min (2 ^ 63 - 1) (t - u))"

definition scheduleAt :: "time \<Rightarrow> timer_job \<Rightarrow> duration \<Rightarrow> timer_scheduler \<Rightarrow> timer_scheduler" where
  "scheduleAt now job delay ts =
     (let ts = (case mget (ts_timers ts) (tj_ID job) of Some old \<Rightarrow> stop_timer old ts | None \<Rightarrow> ts);
          n = ts_handles ts
      in ts\<lparr>ts_handles := Suc n, ts_armed := ts_armed ts @ [(n, now + delay, tj_ID job)],
            ts_timers := mput (tj_ID job) n (ts_timers ts)\<rparr>)"

definition ts_mark :: "time \<Rightarrow> string \<Rightarrow> string option \<Rightarrow> timer_scheduler \<Rightarrow> timer_scheduler" where
  "ts_mark now i err ts = ts\<lparr>ts_store := tst_MarkFired now i err (ts_store ts)\<rparr>"

definition start_job :: "(job_error \<Rightarrow> string) \<Rightarrow> time \<Rightarrow> timer_job \<Rightarrow> timer_scheduler \<Rightarrow> timer_scheduler" where
  "start_job errtext now job ts =
     (if tj_Fired job then ts
      else let delay = time_sub (tj_ScheduledAt job) now
           in if delay \<le> 0
              then if wrap64 (- delay) \<le> missedJobGracePeriod then scheduleAt now job 0 ts
                   else ts_mark now (tj_ID job) (Some (errtext (MissedBy (wrap64 (- delay))))) ts
              else scheduleAt now job delay ts)"

definition ts_Start :: "(job_error \<Rightarrow> string) \<Rightarrow> time \<Rightarrow> timer_scheduler \<Rightarrow> timer_scheduler" where
  "ts_Start errtext now ts = fold (start_job errtext now) (tst_List (ts_store ts)) ts"

definition ts_Stop :: "timer_scheduler \<Rightarrow> timer_scheduler" where
  "ts_Stop ts = (fold (\<lambda>(i, n). stop_timer n) (ts_timers ts) ts)\<lparr>ts_timers := []\<rparr>"

definition ts_AddJob :: "time \<Rightarrow> timer_job \<Rightarrow> timer_scheduler \<Rightarrow> timer_scheduler \<times> job_error option" where
  "ts_AddJob now job ts =
     (case validateTimerJob job of
        Some e \<Rightarrow> (ts, Some e)
      | None \<Rightarrow>
          let job = job\<lparr>tj_SessionMode := NormalizeCronSessionMode (tj_SessionMode job)\<rparr>;
              (store, ok) = tst_Add job (ts_store ts);
              ts = ts\<lparr>ts_store := store\<rparr>
          in if \<not> ok then (ts, Some SaveFailed)
             else let delay = time_sub (tj_ScheduledAt job) now
                  in (scheduleAt now job (if delay \<le> 0 then 0 else delay) ts, None))"

definition ts_RemoveJob :: "string \<Rightarrow> timer_scheduler \<Rightarrow> timer_scheduler \<times> bool" where
  "ts_RemoveJob i ts =
     (let ts = (case mget (ts_timers ts) i of
                  Some n \<Rightarrow> (stop_timer n ts)\<lparr>ts_timers := mdel i (ts_timers ts)\<rparr>
                | None \<Rightarrow> ts);
          (store, removed) = tst_Remove i (ts_store ts)
      in (ts\<lparr>ts_store := store\<rparr>, removed))"

definition ts_SetMute :: "string \<Rightarrow> bool \<Rightarrow> timer_scheduler \<Rightarrow> timer_scheduler \<times> bool" where
  "ts_SetMute i mute ts = (let (store, ok) = tst_SetMute i mute (ts_store ts) in (ts\<lparr>ts_store := store\<rparr>, ok))"

text \<open>
  \<open>executeJob\<close>: what it does with the job, \<open>Some\<close> of its timeout when the engine is asked to run it. The run
  ends with \<open>exec_result\<close> of how long it took and what it returned, recorded by \<open>ts_mark\<close>.
\<close>

definition executeJob :: "(job_error \<Rightarrow> string) \<Rightarrow> time \<Rightarrow> string \<Rightarrow> timer_scheduler \<Rightarrow> timer_scheduler \<times> duration option" where
  "executeJob errtext now i ts =
     (case tst_Get i (ts_store ts) of
        None \<Rightarrow> (ts, None)
      | Some job \<Rightarrow>
          if tj_Fired job then (ts, None)
          else if tj_Project job \<notin> set (ts_engines ts)
          then (ts_mark now i (Some (errtext (ProjectNotFound (tj_Project job)))) ts, None)
          else (ts, Some (timer_ExecutionTimeout job)))"

definition exec_result :: "(job_error \<Rightarrow> string) \<Rightarrow> duration \<Rightarrow> duration \<Rightarrow> string option \<Rightarrow> string option" where
  "exec_result errtext timeout took err =
     (if 0 < timeout \<and> timeout < took then Some (errtext (JobTimedOut timeout)) else err)"

text \<open>The callback of a timer.\<close>

definition ts_fire :: "(job_error \<Rightarrow> string) \<Rightarrow> time \<Rightarrow> nat \<Rightarrow> string \<Rightarrow> timer_scheduler \<Rightarrow> timer_scheduler \<times> duration option" where
  "ts_fire errtext now n i ts =
     executeJob errtext now i ((stop_timer n ts)\<lparr>ts_timers := mdel i (ts_timers ts)\<rparr>)"

definition FormatTimerRemaining :: "time \<Rightarrow> time \<Rightarrow> string" where
  "FormatTimerRemaining now scheduledAt =
     (let d = time_sub scheduledAt now
      in if d \<le> 0 then ''overdue''
         else if d < minute then
           (let secs = (2 * d + second) div (2 * second)
            in if 60 \<le> secs then ''1m'' else itoa secs @ ''s'')
         else if d < 60 * minute then
           (let mins = (2 * d + minute) div (2 * minute)
            in if 60 \<le> mins then ''1h'' else itoa mins @ ''m'')
         else (let totalMins = (2 * d + minute) div (2 * minute); hours = totalMins div 60; mins = totalMins mod 60
               in if mins = 0 then itoa hours @ ''h'' else itoa hours @ ''h'' @ itoa mins @ ''m''))"

end
