(* ===== verification/TimerProperties.thy ===== *)
theory TimerProperties
  imports TimerJob
begin

text \<open>
  Timers fire at most once: the system of calls, expiring timers and runs that end, its invariant, and what a
  start does with the jobs it finds.
\<close>

section \<open>What start does\<close>

definition marked :: "time \<Rightarrow> string option \<Rightarrow> timer_job \<Rightarrow> timer_job" where
  "marked now err j = j\<lparr>tj_Fired := True, tj_FiredAt := now, tj_LastError := (case err of Some e \<Rightarrow> e | None \<Rightarrow> [])\<rparr>"

lemma get_mark: "tst_Get k (ts_store (ts_mark now i err ts)) =
    (if k = i then map_option (marked now err) (tst_Get i (ts_store ts)) else tst_Get k (ts_store ts))"
  unfolding ts_mark_def tst_MarkFired_def marked_def by (simp add: tst.get_change)

lemma mark_fields [simp]:
  "ts_armed (ts_mark now i err ts) = ts_armed ts" "ts_timers (ts_mark now i err ts) = ts_timers ts"
  "ts_handles (ts_mark now i err ts) = ts_handles ts" "ts_engines (ts_mark now i err ts) = ts_engines ts"
  by (simp_all add: ts_mark_def)

lemma good_mark: "tst.good (ts_store ts) \<Longrightarrow> tst.good (ts_store (ts_mark now i err ts))"
  by (simp add: ts_mark_def tst_MarkFired_def tst.good_change)

text \<open>When the timer of a job found at start is due, if it gets one; and how late a stale one is.\<close>

definition start_due :: "time \<Rightarrow> timer_job \<Rightarrow> time option" where
  "start_due now j =
     (let delay = time_sub (tj_ScheduledAt j) now
      in if tj_Fired j then None
         else if delay \<le> 0 then if wrap64 (- delay) \<le> missedJobGracePeriod then Some now else None
         else Some (now + delay))"

definition stale :: "time \<Rightarrow> timer_job \<Rightarrow> bool" where
  "stale now j \<longleftrightarrow> \<not> tj_Fired j \<and> start_due now j = None"

definition missed :: "(job_error \<Rightarrow> string) \<Rightarrow> time \<Rightarrow> timer_job \<Rightarrow> timer_job" where
  "missed et now j = marked now (Some (et (MissedBy (wrap64 (- time_sub (tj_ScheduledAt j) now))))) j"

lemma start_job_cases:
  "start_job et now j ts =
     (case start_due now j of
        Some due \<Rightarrow> scheduleAt now j (due - now) ts
      | None \<Rightarrow> if stale now j then ts_mark now (tj_ID j) (Some (et (MissedBy (wrap64 (- time_sub (tj_ScheduledAt j) now))))) ts else ts)"
  by (auto simp: start_job_def start_due_def stale_def Let_def)

text \<open>The facts about timers that every step keeps: each armed timer is the registered one of its job.\<close>

definition armed_ok :: "timer_scheduler \<Rightarrow> bool" where
  "armed_ok ts \<longleftrightarrow> (\<forall>n due i. (n, due, i) \<in> set (ts_armed ts) \<longrightarrow>
       mget (ts_timers ts) i = Some n \<and> tst_Get i (ts_store ts) \<noteq> None)
     \<and> (\<forall>i n. mget (ts_timers ts) i = Some n \<longrightarrow> n < ts_handles ts)
     \<and> (\<forall>i k n. mget (ts_timers ts) i = Some n \<longrightarrow> mget (ts_timers ts) k = Some n \<longrightarrow> i = k)
     \<and> distinct (map fst (ts_armed ts))"

lemma stop_timer_fields [simp]:
  "ts_timers (stop_timer n ts) = ts_timers ts" "ts_store (stop_timer n ts) = ts_store ts"
  "ts_handles (stop_timer n ts) = ts_handles ts" "ts_engines (stop_timer n ts) = ts_engines ts"
  by (simp_all add: stop_timer_def)

lemma in_stop_timer: "(m, due, i) \<in> set (ts_armed (stop_timer n ts)) \<longleftrightarrow> (m, due, i) \<in> set (ts_armed ts) \<and> m \<noteq> n"
  by (auto simp: stop_timer_def)

lemma distinct_filter_fst: "distinct (map fst xs) \<Longrightarrow> distinct (map fst (filter P xs))"
  by (induction xs) auto

text \<open>Scheduling a job replaces its timer.\<close>

lemma scheduleAt_armed:
  assumes "armed_ok ts"
  shows "(n, due, i) \<in> set (ts_armed (scheduleAt now j d ts)) \<longleftrightarrow>
    (if i = tj_ID j then n = ts_handles ts \<and> due = now + d else (n, due, i) \<in> set (ts_armed ts))"
proof -
  have own: "(m, x, k) \<in> set (ts_armed ts) \<Longrightarrow> mget (ts_timers ts) k = Some m" for m x k
    using assms by (auto simp: armed_ok_def)
  have inj: "mget (ts_timers ts) k = Some m \<Longrightarrow> mget (ts_timers ts) l = Some m \<Longrightarrow> k = l" for k l m
    using assms by (auto simp: armed_ok_def)
  show ?thesis
    using own inj [of "tj_ID j" _ i]
    by (auto simp: scheduleAt_def Let_def in_stop_timer split: option.splits)
qed

lemma scheduleAt_fields:
  "ts_store (scheduleAt now j d ts) = ts_store ts" "ts_engines (scheduleAt now j d ts) = ts_engines ts"
  "mget (ts_timers (scheduleAt now j d ts)) k = (if k = tj_ID j then Some (ts_handles ts) else mget (ts_timers ts) k)"
  "ts_handles (scheduleAt now j d ts) = Suc (ts_handles ts)"
  by (auto simp: scheduleAt_def Let_def gomap split: option.split)

lemma armed_ok_scheduleAt:
  assumes ok: "armed_ok ts" and store: "tst_Get (tj_ID j) (ts_store ts) \<noteq> None"
  shows "armed_ok (scheduleAt now j d ts)"
proof -
  let ?t = "scheduleAt now j d ts"
  have below: "mget (ts_timers ts) k = Some m \<Longrightarrow> m < ts_handles ts" for k m using ok by (auto simp: armed_ok_def)
  have "\<forall>x \<in> set (ts_armed ts). fst x < ts_handles ts" using ok by (fastforce simp: armed_ok_def)
  then have "distinct (map fst (ts_armed ?t))"
    using ok by (auto simp: scheduleAt_def Let_def stop_timer_def armed_ok_def distinct_filter_fst split: option.split)
  then show ?thesis
    using ok store below
    unfolding armed_ok_def scheduleAt_armed [OF ok] scheduleAt_fields
    by (auto split: if_splits) (metis less_SucI less_irrefl)+
qed

lemma start_fold:
  assumes "distinct (map tj_ID js)" "armed_ok ts" "\<forall>j \<in> set js. tst_Get (tj_ID j) (ts_store ts) = Some j"
    and "\<forall>j \<in> set js. mget (ts_timers ts) (tj_ID j) = None"
  shows "let t = fold (start_job et now) js ts in
    armed_ok t \<and> ts_engines t = ts_engines ts
    \<and> (\<forall>due i. (\<exists>n. (n, due, i) \<in> set (ts_armed t)) \<longleftrightarrow>
          (\<exists>n. (n, due, i) \<in> set (ts_armed ts)) \<or> (\<exists>j \<in> set js. tj_ID j = i \<and> start_due now j = Some due))
    \<and> (\<forall>i. tst_Get i (ts_store t) = (case tst_Get i (ts_store ts) of
          Some j \<Rightarrow> Some (if j \<in> set js \<and> stale now j then missed et now j else j) | None \<Rightarrow> None))"
  using assms
proof (induction js arbitrary: ts)
  case Nil
  then show ?case by (auto simp: Let_def split: option.split)
next
  case (Cons j js)
  let ?t = "start_job et now j ts" and ?i = "tj_ID j"
  have get: "tst_Get ?i (ts_store ts) = Some j" using Cons.prems(3) by simp
  have other: "j' \<in> set js \<Longrightarrow> tj_ID j' \<noteq> ?i" for j' using Cons.prems(1) by (metis distinct.simps(2) image_eqI list.set_map list.simps(9))
  have step: "armed_ok ?t \<and> ts_engines ?t = ts_engines ts
      \<and> (\<forall>k. k \<noteq> ?i \<longrightarrow> mget (ts_timers ?t) k = mget (ts_timers ts) k)
      \<and> (\<forall>due k. (\<exists>n. (n, due, k) \<in> set (ts_armed ?t)) \<longleftrightarrow>
          (\<exists>n. (n, due, k) \<in> set (ts_armed ts)) \<or> (k = ?i \<and> start_due now j = Some due))
      \<and> (\<forall>k. tst_Get k (ts_store ?t) = (if k = ?i then Some (if stale now j then missed et now j else j) else tst_Get k (ts_store ts)))"
  proof (cases "start_due now j")
    case (Some due)
    then have eq: "?t = scheduleAt now j (due - now) ts" by (simp add: start_job_cases)
    have none: "(n, x, ?i) \<notin> set (ts_armed ts)" for n x using Cons.prems(2,4) by (auto simp: armed_ok_def)
    have "armed_ok ?t" unfolding eq by (rule armed_ok_scheduleAt [OF Cons.prems(2)]) (simp add: get)
    moreover have "\<not> stale now j" by (simp add: stale_def Some)
    ultimately show ?thesis
      using none get unfolding eq scheduleAt_armed [OF Cons.prems(2)] scheduleAt_fields by (auto simp: Some)
  next
    case None
    show ?thesis
    proof (cases "stale now j")
      case True
      then have eq: "?t = ts_mark now ?i (Some (et (MissedBy (wrap64 (- time_sub (tj_ScheduledAt j) now))))) ts"
        by (simp add: start_job_cases None)
      have "armed_ok ?t" using Cons.prems(2) by (auto simp: eq armed_ok_def get_mark)
      then show ?thesis using True get None by (auto simp: eq get_mark missed_def)
    next
      case False
      then have "?t = ts" by (simp add: start_job_cases None)
      then show ?thesis using Cons.prems(2) False get None by auto
    qed
  qed
  have pre: "\<forall>j' \<in> set js. tst_Get (tj_ID j') (ts_store ?t) = Some j'" "\<forall>j' \<in> set js. mget (ts_timers ?t) (tj_ID j') = None"
    using step other Cons.prems(3,4) by auto
  have ih: "let t = fold (start_job et now) js ?t in
    armed_ok t \<and> ts_engines t = ts_engines ?t
    \<and> (\<forall>due i. (\<exists>n. (n, due, i) \<in> set (ts_armed t)) \<longleftrightarrow>
          (\<exists>n. (n, due, i) \<in> set (ts_armed ?t)) \<or> (\<exists>j \<in> set js. tj_ID j = i \<and> start_due now j = Some due))
    \<and> (\<forall>i. tst_Get i (ts_store t) = (case tst_Get i (ts_store ?t) of
          Some j \<Rightarrow> Some (if j \<in> set js \<and> stale now j then missed et now j else j) | None \<Rightarrow> None))"
    by (rule Cons.IH [OF _ _ pre]) (use Cons.prems(1) step in auto)
  have keep: "tst_Get i (ts_store ts) = Some j' \<Longrightarrow> i \<noteq> ?i \<Longrightarrow> j' \<noteq> j" for i j'
    using tst.get_SomeD by blast
  have fixed: "\<not> stale now (missed et now j)" by (simp add: stale_def missed_def marked_def)
  have notin: "j \<notin> set js" using other [of j] by blast
  let ?f = "fold (start_job et now) js ?t"
  have ih4: "tst_Get i (ts_store ?f) = (case tst_Get i (ts_store ?t) of
      Some x \<Rightarrow> Some (if x \<in> set js \<and> stale now x then missed et now x else x) | None \<Rightarrow> None)" for i
    using ih unfolding Let_def by blast
  have store: "tst_Get i (ts_store ?f) = (case tst_Get i (ts_store ts) of
      Some x \<Rightarrow> Some (if x \<in> set (j # js) \<and> stale now x then missed et now x else x) | None \<Rightarrow> None)" for i
  proof (cases "i = ?i")
    case True
    have "tst_Get ?i (ts_store ?t) = Some (if stale now j then missed et now j else j)" using step by simp
    then show ?thesis using ih4 [of ?i] get fixed notin by (simp add: True)
  next
    case False
    then have "tst_Get i (ts_store ?t) = tst_Get i (ts_store ts)" using step by simp
    then show ?thesis using ih4 [of i] keep [OF _ False] by (auto split: option.split)
  qed
  have arm: "(\<exists>n. (n, due, i) \<in> set (ts_armed ?f)) \<longleftrightarrow>
      (\<exists>n. (n, due, i) \<in> set (ts_armed ts)) \<or> (\<exists>x \<in> set (j # js). tj_ID x = i \<and> start_due now x = Some due)" for due i
    using ih step unfolding Let_def by auto
  have eqf: "fold (start_job et now) (j # js) ts = ?f" by simp
  have ok: "armed_ok ?f" and eng: "ts_engines ?f = ts_engines ts" using ih step unfolding Let_def by auto
  show ?case
    unfolding Let_def eqf by (intro conjI allI; (rule ok | rule eng | rule arm | rule store))
qed

section \<open>The system\<close>

text \<open>
  Besides the calls: a timer expires and its callback starts, a run that was started ends, the process stops
  its timers. The list records the runs started.
\<close>

datatype timer_event = TAdd time timer_job | TRemove string | TMute string bool | TEngine string | TStop
  | TFire time nat string | TFinish time string "string option"

fun timer_step :: "(job_error \<Rightarrow> string) \<Rightarrow> timer_event \<Rightarrow> timer_scheduler \<times> string list \<Rightarrow> timer_scheduler \<times> string list" where
  "timer_step et (TAdd now job) (ts, runs) = (fst (ts_AddJob now job ts), runs)"
| "timer_step et (TRemove i) (ts, runs) = (fst (ts_RemoveJob i ts), runs)"
| "timer_step et (TMute i b) (ts, runs) = (fst (ts_SetMute i b ts), runs)"
| "timer_step et (TEngine name) (ts, runs) = (ts_RegisterEngine name ts, runs)"
| "timer_step et TStop (ts, runs) = (ts_Stop ts, runs)"
| "timer_step et (TFire now n i) (ts, runs) =
     (case ts_fire et now n i ts of (ts', started) \<Rightarrow> (ts', if started = None then runs else runs @ [i]))"
| "timer_step et (TFinish now i err) (ts, runs) = (ts_mark now i err ts, runs)"

text \<open>New jobs have new IDs, only armed timers expire, and not before they are due; only started runs end.\<close>

fun timer_allowed :: "timer_event \<Rightarrow> timer_scheduler \<times> string list \<Rightarrow> bool" where
  "timer_allowed (TAdd now job) (ts, runs) = (tst_Get (tj_ID job) (ts_store ts) = None \<and> tj_ID job \<notin> set runs)"
| "timer_allowed (TFire now n i) (ts, runs) = list_ex (\<lambda>(m, due, k). m = n \<and> k = i \<and> due \<le> now) (ts_armed ts)"
| "timer_allowed (TFinish now i err) (ts, runs) = (i \<in> set runs)"
| "timer_allowed _ _ = True"

inductive timer_reachable :: "(job_error \<Rightarrow> string) \<Rightarrow> timer_scheduler \<times> string list \<Rightarrow> bool" for et :: "job_error \<Rightarrow> string" where
  start: "NewTimerStore True disk True = Some st \<Longrightarrow> distinct (map tj_ID (tst_jobs st)) \<Longrightarrow>
    timer_reachable et (ts_Start et now (fold ts_RegisterEngine engines (NewTimerScheduler st)), [])"
| step: "timer_reachable et s \<Longrightarrow> timer_allowed e s \<Longrightarrow> timer_reachable et (timer_step et e s)"

definition timer_inv :: "timer_scheduler \<times> string list \<Rightarrow> bool" where
  "timer_inv = (\<lambda>(ts, runs). armed_ok ts \<and> tst.good (ts_store ts) \<and> distinct runs
     \<and> (\<forall>n due i. (n, due, i) \<in> set (ts_armed ts) \<longrightarrow> i \<notin> set runs))"

lemma armed_ok_sub:
  assumes "armed_ok ts" "set (ts_armed ts') \<subseteq> set (ts_armed ts)" "distinct (map fst (ts_armed ts'))"
    and "ts_handles ts' = ts_handles ts"
    and "\<And>k m. mget (ts_timers ts') k = Some m \<Longrightarrow> mget (ts_timers ts) k = Some m"
    and "\<And>n due i. (n, due, i) \<in> set (ts_armed ts') \<Longrightarrow> mget (ts_timers ts') i = Some n \<and> tst_Get i (ts_store ts') \<noteq> None"
  shows "armed_ok ts'"
  using assms unfolding armed_ok_def by metis

text \<open>Disarming the timer of one job, as a removal and an expiry do.\<close>

lemma armed_ok_disarm:
  assumes ok: "armed_ok ts" and n: "mget (ts_timers ts) i = Some n"
  shows "armed_ok ((stop_timer n ts)\<lparr>ts_timers := mdel i (ts_timers ts)\<rparr>)"
    and "(m, due, k) \<in> set (ts_armed ((stop_timer n ts)\<lparr>ts_timers := mdel i (ts_timers ts)\<rparr>)) \<longleftrightarrow>
      (m, due, k) \<in> set (ts_armed ts) \<and> k \<noteq> i"
proof -
  let ?t = "(stop_timer n ts)\<lparr>ts_timers := mdel i (ts_timers ts)\<rparr>"
  have own: "(m, due, k) \<in> set (ts_armed ts) \<Longrightarrow> mget (ts_timers ts) k = Some m \<and> tst_Get k (ts_store ts) \<noteq> None" for m due k
    using ok by (auto simp: armed_ok_def)
  have inj: "mget (ts_timers ts) k = Some n \<Longrightarrow> k = i" for k using ok n by (auto simp: armed_ok_def)
  show arm: "(m, due, k) \<in> set (ts_armed ?t) \<longleftrightarrow> (m, due, k) \<in> set (ts_armed ts) \<and> k \<noteq> i" for m due k
    using own [of m due k] inj [of k] n by (auto simp: stop_timer_def)
  show "armed_ok ?t"
  proof (rule armed_ok_sub [OF ok])
    show "distinct (map fst (ts_armed ?t))" using ok by (simp add: armed_ok_def stop_timer_def distinct_filter_fst)
    show "(m, due, k) \<in> set (ts_armed ?t) \<Longrightarrow> mget (ts_timers ?t) k = Some m \<and> tst_Get k (ts_store ?t) \<noteq> None" for m due k
      using own [of m due k] unfolding arm by (simp add: gomap)
  qed (auto simp: stop_timer_def gomap split: if_splits)
qed

lemma armed_ok_store:
  assumes "armed_ok ts" "\<And>i. tst_Get i (ts_store ts) \<noteq> None \<Longrightarrow> tst_Get i st \<noteq> None"
  shows "armed_ok (ts\<lparr>ts_store := st\<rparr>)"
  using assms unfolding armed_ok_def by auto

lemma timer_inv_Add:
  assumes inv: "timer_inv (ts, runs)" and new: "timer_allowed (TAdd now job) (ts, runs)"
  shows "timer_inv (timer_step et (TAdd now job) (ts, runs))"
proof (cases "validateTimerJob job")
  case (Some e)
  then show ?thesis using inv by (simp add: ts_AddJob_def)
next
  case None
  let ?j = "job\<lparr>tj_SessionMode := NormalizeCronSessionMode (tj_SessionMode job)\<rparr>"
  let ?st = "fst (tst_Add ?j (ts_store ts))" and ?d = "if time_sub (tj_ScheduledAt job) now \<le> 0 then 0 else time_sub (tj_ScheduledAt job) now"
  let ?t = "ts\<lparr>ts_store := ?st\<rparr>"
  have w: "snd (tst_Add ?j (ts_store ts))" using inv by (simp add: timer_inv_def tst.good_def tst_Add_def timer_save_def)
  have eq: "fst (ts_AddJob now job ts) = scheduleAt now ?j ?d ?t"
    using None w by (simp add: ts_AddJob_def Let_def case_prod_unfold)
  have get: "tst_Get k ?st = (if k = tj_ID job then Some ?j else tst_Get k (ts_store ts))" for k
    using tst.get_add [of ?j "ts_store ts" k] new by simp
  have ok: "armed_ok ?t" using inv by (intro armed_ok_store) (auto simp: timer_inv_def get)
  have "armed_ok (scheduleAt now ?j ?d ?t)" by (rule armed_ok_scheduleAt [OF ok]) (simp add: get)
  moreover have "tst.good ?st" using inv new tst.good_add [of "ts_store ts" ?j] by (simp add: timer_inv_def)
  ultimately show ?thesis
    using inv new unfolding timer_step.simps eq timer_inv_def prod.case scheduleAt_armed [OF ok] scheduleAt_fields
    by (auto split: if_splits)
qed

lemma timer_inv_Remove:
  assumes inv: "timer_inv (ts, runs)"
  shows "timer_inv (timer_step et (TRemove i) (ts, runs))"
    and "(n, due, i) \<notin> set (ts_armed (fst (ts_RemoveJob i ts)))"
proof -
  have ok: "armed_ok ts" and good: "tst.good (ts_store ts)" using inv by (auto simp: timer_inv_def)
  let ?u = "case mget (ts_timers ts) i of Some n \<Rightarrow> (stop_timer n ts)\<lparr>ts_timers := mdel i (ts_timers ts)\<rparr> | None \<Rightarrow> ts"
  let ?st = "fst (tst_Remove i (ts_store ts))"
  have us: "ts_store ?u = ts_store ts" by (simp split: option.split)
  have u: "armed_ok ?u" using armed_ok_disarm(1) [OF ok] ok by (simp split: option.split)
  have arm: "(m, due, k) \<in> set (ts_armed ?u) \<longleftrightarrow> (m, due, k) \<in> set (ts_armed ts) \<and> k \<noteq> i" for m due k
  proof (cases "mget (ts_timers ts) i")
    case None
    then have "(m, due, i) \<notin> set (ts_armed ts)" using ok by (auto simp: armed_ok_def)
    then show ?thesis using None by auto
  next
    case (Some n)
    then show ?thesis using armed_ok_disarm(2) [OF ok Some, of m due k] by simp
  qed
  have eq: "fst (ts_RemoveJob i ts) = ?u\<lparr>ts_store := ?st\<rparr>"
    by (simp add: ts_RemoveJob_def Let_def case_prod_unfold us)
  have get: "tst_Get k ?st = (if k = i then None else tst_Get k (ts_store ts))" for k
    using good by (intro tst.get_remove) (simp add: tst.good_def)
  have "armed_ok (?u\<lparr>ts_store := ?st\<rparr>)"
  proof (rule armed_ok_sub [OF u])
    show "mget (ts_timers (?u\<lparr>ts_store := ?st\<rparr>)) k = Some m \<and> tst_Get k (ts_store (?u\<lparr>ts_store := ?st\<rparr>)) \<noteq> None"
      if "(m, due, k) \<in> set (ts_armed (?u\<lparr>ts_store := ?st\<rparr>))" for m due k
    proof -
      have a: "(m, due, k) \<in> set (ts_armed ?u)" using that by simp
      then have "mget (ts_timers ?u) k = Some m \<and> tst_Get k (ts_store ?u) \<noteq> None" using u unfolding armed_ok_def by blast
      then show ?thesis using a arm [of m due k] by (simp add: get us)
    qed
  qed (use u in \<open>auto simp: armed_ok_def\<close>)
  then show "timer_inv (timer_step et (TRemove i) (ts, runs))"
    using inv arm good unfolding timer_step.simps eq timer_inv_def prod.case by (auto intro: tst.good_remove)
  show "(n, due, i) \<notin> set (ts_armed (fst (ts_RemoveJob i ts)))"
    unfolding eq using arm [of n due i] by simp
qed

lemma timer_inv_mark: "timer_inv (ts, runs) \<Longrightarrow> timer_inv (ts_mark now i err ts, runs)"
  using good_mark [of ts now i err] by (auto simp: timer_inv_def armed_ok_def get_mark)

lemma timer_inv_Fire:
  assumes inv: "timer_inv (ts, runs)" and due: "timer_allowed (TFire now n i) (ts, runs)"
  shows "timer_inv (timer_step et (TFire now n i) (ts, runs))"
proof -
  obtain d where d: "(n, d, i) \<in> set (ts_armed ts)" using due by (auto simp: list_ex_iff)
  have ok: "armed_ok ts" and good: "tst.good (ts_store ts)" using inv by (auto simp: timer_inv_def)
  have n: "mget (ts_timers ts) i = Some n" using ok d by (auto simp: armed_ok_def)
  let ?t = "(stop_timer n ts)\<lparr>ts_timers := mdel i (ts_timers ts)\<rparr>"
  note dis = armed_ok_disarm [OF ok n]
  have fresh: "i \<notin> set runs" using inv d by (auto simp: timer_inv_def)
  have t: "timer_inv (?t, runs)" using inv dis by (auto simp: timer_inv_def)
  have t': "timer_inv (?t, runs @ [i])" using t fresh dis(2) by (auto simp: timer_inv_def)
  have m: "timer_inv (ts_mark now i (Some (et (ProjectNotFound p))) ?t, runs)" for p by (rule timer_inv_mark [OF t])
  show ?thesis
    using t t' m by (auto simp: ts_fire_def executeJob_def split: option.split)
qed

lemma ts_Stop_fields:
  "ts_store (ts_Stop ts) = ts_store ts" "ts_timers (ts_Stop ts) = []" "ts_handles (ts_Stop ts) = ts_handles ts"
  "set (ts_armed (ts_Stop ts)) = {x \<in> set (ts_armed ts). fst x \<notin> snd ` set (ts_timers ts)}"
  "distinct (map fst (ts_armed ts)) \<Longrightarrow> distinct (map fst (ts_armed (ts_Stop ts)))"
proof -
  have "ts_store (fold (\<lambda>(i, n). stop_timer n) m ts) = ts_store ts \<and> ts_handles (fold (\<lambda>(i, n). stop_timer n) m ts) = ts_handles ts
      \<and> set (ts_armed (fold (\<lambda>(i, n). stop_timer n) m ts)) = {x \<in> set (ts_armed ts). fst x \<notin> snd ` set m}
      \<and> (distinct (map fst (ts_armed ts)) \<longrightarrow> distinct (map fst (ts_armed (fold (\<lambda>(i, n). stop_timer n) m ts))))" for m :: "(string, nat) gomap"
    by (induction m arbitrary: ts) (auto simp: stop_timer_def distinct_filter_fst)
  then show "ts_store (ts_Stop ts) = ts_store ts" "ts_timers (ts_Stop ts) = []" "ts_handles (ts_Stop ts) = ts_handles ts"
    "set (ts_armed (ts_Stop ts)) = {x \<in> set (ts_armed ts). fst x \<notin> snd ` set (ts_timers ts)}"
    "distinct (map fst (ts_armed ts)) \<Longrightarrow> distinct (map fst (ts_armed (ts_Stop ts)))"
    by (simp_all add: ts_Stop_def)
qed

lemma timer_inv_Stop:
  assumes "timer_inv (ts, runs)"
  shows "timer_inv (ts_Stop ts, runs)"
proof -
  have "set (ts_armed (ts_Stop ts)) = {}"
  proof -
    have "fst x \<in> snd ` set (ts_timers ts)" if "x \<in> set (ts_armed ts)" for x
    proof -
      obtain n due i where x: "x = (n, due, i)" by (metis prod.exhaust)
      then have "mget (ts_timers ts) i = Some n" using assms that by (auto simp: timer_inv_def armed_ok_def)
      then have "(i, n) \<in> set (ts_timers ts)" by (rule map_of_SomeD)
      then show ?thesis by (force simp: x)
    qed
    then show ?thesis unfolding ts_Stop_fields(4) by auto
  qed
  then show ?thesis
    using assms ts_Stop_fields(1,2,3,5) [of ts] by (simp add: timer_inv_def armed_ok_def)
qed

lemma timer_inv_step:
  assumes "timer_inv s" "timer_allowed e s"
  shows "timer_inv (timer_step et e s)"
proof -
  obtain ts runs where s: "s = (ts, runs)" by force
  show ?thesis
  proof (cases e)
    case (TMute i b)
    have get: "tst_Get k (tst_change i (\<lambda>j. j\<lparr>tj_Mute := b\<rparr>) (ts_store ts)) \<noteq> None" if "tst_Get k (ts_store ts) \<noteq> None" for k
      using that by (auto simp: tst.get_change)
    have "tst.good (tst_change i (\<lambda>j. j\<lparr>tj_Mute := b\<rparr>) (ts_store ts))"
      using assms(1) by (intro tst.good_change) (auto simp: timer_inv_def s)
    then show ?thesis
      using assms(1) armed_ok_store [of ts, OF _ get]
      by (auto simp: s TMute ts_SetMute_def tst_SetMute_def timer_inv_def)
  next
    case (TEngine name)
    then show ?thesis using assms(1) by (auto simp: s timer_inv_def armed_ok_def ts_RegisterEngine_def)
  qed (use assms in \<open>auto simp: s simp del: timer_step.simps(1,2,6)
         intro: timer_inv_Add timer_inv_Remove(1) timer_inv_Stop timer_inv_Fire timer_inv_mark\<close>)
qed

lemma engines_fields:
  "ts_store (fold ts_RegisterEngine es ts) = ts_store ts" "ts_timers (fold ts_RegisterEngine es ts) = ts_timers ts"
  "ts_armed (fold ts_RegisterEngine es ts) = ts_armed ts" "ts_handles (fold ts_RegisterEngine es ts) = ts_handles ts"
  by (induction es arbitrary: ts) (simp_all add: ts_RegisterEngine_def)

lemma start_good: "tst.good (ts_store ts) \<Longrightarrow> tst.good (ts_store (fold (start_job et now) js ts))"
  by (induction js arbitrary: ts) (simp_all add: start_job_cases scheduleAt_fields good_mark split: option.split)

lemma timer_inv_start:
  assumes st: "NewTimerStore True disk True = Some st" and d: "distinct (map tj_ID (tst_jobs st))"
  shows "timer_inv (ts_Start et now (fold ts_RegisterEngine es (NewTimerScheduler st)), [])"
proof -
  let ?s = "fold ts_RegisterEngine es (NewTimerScheduler st)"
  have st': "st = timer_load \<lparr>tst_jobs = [], tst_disk = disk, tst_writable = True\<rparr>" using st by (simp add: NewTimerStore_def)
  have u: "tst.unique st" using d by (simp add: tst.unique_def)
  have "tst.good st" using u by (auto simp: tst.good_def st' tst_saved_def timer_load_def split: stored.splits)
  then have good: "tst.good (ts_store (ts_Start et now ?s))"
    unfolding ts_Start_def by (intro start_good) (simp add: engines_fields NewTimerScheduler_def)
  have "armed_ok ?s" by (simp add: armed_ok_def engines_fields NewTimerScheduler_def)
  then have "armed_ok (ts_Start et now ?s)"
    using start_fold [of "tst_jobs st" ?s et now] d tst.get_Some [OF u]
    by (simp add: ts_Start_def tst_List_def Let_def engines_fields NewTimerScheduler_def)
  then show ?thesis using good by (simp add: timer_inv_def)
qed

lemma timer_inv_reachable: "timer_reachable et s \<Longrightarrow> timer_inv s"
  by (induction rule: timer_reachable.induct) (auto intro: timer_inv_start timer_inv_step)

section \<open>Properties\<close>


definition sample_timer :: timer_job where
  "sample_timer = \<lparr>tj_ID = ''t'', tj_Project = ''p'', tj_SessionKey = ''tg:1'', tj_ScheduledAt = 70, tj_Prompt = ''hi'',
     tj_Exec = [], tj_WorkDir = [], tj_Description = [], tj_Silent = None, tj_Mute = False, tj_SessionMode = [],
     tj_Mode = [], tj_TimeoutMins = None, tj_CreatedAt = 1, tj_Fired = False, tj_FiredAt = 0, tj_LastError = []\<rparr>"


text \<open>
  A start arms exactly the jobs that have not fired and are not overdue by more than the grace period: for
  their time, or at once when it has passed. Jobs that are overdue for longer are marked as fired with an error,
  so that no later start arms them, and all other jobs stay as they are.
\<close>

theorem start_arms_exactly_pending:
  assumes "distinct (map tj_ID (tst_jobs st))" and "tst_Get i st = Some j"
    and "\<bar>tj_ScheduledAt j - now\<bar> < 2 ^ 63" and "t = ts_Start et now (NewTimerScheduler st)"
  shows "((\<exists>n. (n, due, i) \<in> set (ts_armed t)) \<longleftrightarrow>
        \<not> tj_Fired j \<and> (if now < tj_ScheduledAt j then due = tj_ScheduledAt j
                        else now - tj_ScheduledAt j \<le> 5 * minute \<and> due = now))
    \<and> (tst_Get i (ts_store t) = Some
        (if \<not> tj_Fired j \<and> 5 * minute < now - tj_ScheduledAt j
         then j\<lparr>tj_Fired := True, tj_FiredAt := now, tj_LastError := et (MissedBy (now - tj_ScheduledAt j))\<rparr> else j))"
proof -
  let ?s = "NewTimerScheduler st"
  have u: "tst.unique st" using assms(1) by (simp add: tst.unique_def)
  have j: "j \<in> set (tst_jobs st)" "tj_ID j = i" using assms(2) tst.get_SomeD by auto
  have only: "k \<in> set (tst_jobs st) \<Longrightarrow> tj_ID k = i \<Longrightarrow> k = j" for k
    using tst.get_Some [OF u, of i k] assms(2) by simp
  have all: "\<forall>k \<in> set (tst_jobs st). tst_Get (tj_ID k) st = Some k" using tst.get_Some [OF u] by blast
  have fold: "(\<exists>n. (n, due, i) \<in> set (ts_armed t)) \<longleftrightarrow> (\<exists>k \<in> set (tst_jobs st). tj_ID k = i \<and> start_due now k = Some due)"
    "tst_Get i (ts_store t) = Some (if stale now j then missed et now j else j)"
    using start_fold [of "tst_jobs st" ?s et now] assms(1,2,4) all j(1)
    by (auto simp: ts_Start_def tst_List_def Let_def NewTimerScheduler_def armed_ok_def)
  have sub: "time_sub (tj_ScheduledAt j) now = tj_ScheduledAt j - now" using assms(3) by (simp add: time_sub_def)
  have neg: "wrap64 (now - tj_ScheduledAt j) = now - tj_ScheduledAt j" using assms(3) by (intro wrap64_id) auto
  have due: "start_due now j = Some due \<longleftrightarrow> \<not> tj_Fired j \<and> (if now < tj_ScheduledAt j then due = tj_ScheduledAt j
      else now - tj_ScheduledAt j \<le> 5 * minute \<and> due = now)" for due
    by (auto simp: start_due_def Let_def sub neg missedJobGracePeriod_def)
  have st: "stale now j \<longleftrightarrow> \<not> tj_Fired j \<and> 5 * minute < now - tj_ScheduledAt j"
    by (auto simp: stale_def start_due_def Let_def sub neg missedJobGracePeriod_def minute_def second_def)
  have "missed et now j = j\<lparr>tj_Fired := True, tj_FiredAt := now, tj_LastError := et (MissedBy (now - tj_ScheduledAt j))\<rparr>"
    by (simp add: missed_def marked_def sub neg)
  moreover have "(\<exists>k \<in> set (tst_jobs st). tj_ID k = i \<and> start_due now k = Some due) \<longleftrightarrow> start_due now j = Some due"
    using j only by metis
  ultimately show ?thesis unfolding fold due st by simp
qed

theorem start_arms_exactly_pending_witness:
  "\<exists>n. (n, 70, ''t'') \<in> set (ts_armed (ts_Start (\<lambda>_. []) 20 (NewTimerScheduler
     \<lparr>tst_jobs = [sample_timer], tst_disk = NoFile, tst_writable = True\<rparr>)))"
proof -
  let ?st = "\<lparr>tst_jobs = [sample_timer], tst_disk = NoFile, tst_writable = True\<rparr>"
  have g: "tst_Get ''t'' ?st = Some sample_timer" by (simp add: tst_Get_def timer_has_id_def sample_timer_def)
  have f: "\<not> tj_Fired sample_timer" "tj_ScheduledAt sample_timer = 70" by (simp_all add: sample_timer_def)
  show ?thesis
    using start_arms_exactly_pending [OF _ g _ refl, where now = 20 and due = 70 and et = "\<lambda>_. []", THEN conjunct1]
    by (simp add: f)
qed

end
