(* ===== verification/PermissionWords.thy ===== *)
theory PermissionWords
  imports GoStrings
begin

text \<open>
  What a chat reply means as an answer to a permission request: its words, and the vocabularies of approval and
  refusal (\<open>matchPermissionKeyword\<close> and its callers in \<open>src/core/engine.go\<close>).
\<close>

section \<open>Words of a reply\<close>

text \<open>\<open>strings.FieldsFunc\<close>: the maximal runs of runes that are no separator.\<close>

fun fields_func_acc :: "(nat \<Rightarrow> bool) \<Rightarrow> (nat \<times> string) list \<Rightarrow> string \<Rightarrow> string list" where
  "fields_func_acc sep [] acc = (if acc = [] then [] else [acc])"
| "fields_func_acc sep ((r, b) # xs) acc =
     (if sep r then (if acc = [] then fields_func_acc sep xs [] else acc # fields_func_acc sep xs [])
      else fields_func_acc sep xs (acc @ b))"

definition fields_func :: "(nat \<Rightarrow> bool) \<Rightarrow> string \<Rightarrow> string list" where
  "fields_func sep s = fields_func_acc sep (segs s) []"

text \<open>The separators: white space, and the ASCII, full-width and CJK punctuation listed in the source.\<close>

definition permissionTokenSeparator :: "nat \<Rightarrow> bool" where
  "permissionTokenSeparator r \<longleftrightarrow> is_space r \<or> r \<in>
     {0x40, 0xFF20, 0x2C, 0xFF0C, 0x2E, 0x3002, 0x21, 0xFF01, 0x3F, 0xFF1F, 0x3A, 0xFF1A, 0x3B, 0xFF1B,
      0x28, 0x29, 0xFF08, 0xFF09, 0x5B, 0x5D, 0x3010, 0x3011, 0x22, 0x27, 0x201C, 0x201D, 0x2018, 0x2019,
      0x3001, 0xB7}"

definition splitPermissionTokens :: "string \<Rightarrow> string list" where
  "splitPermissionTokens s =
     (let t = to_lower (trim_space s) in if t = [] then [] else fields_func permissionTokenSeparator t)"

definition window_match :: "string list \<Rightarrow> string list \<Rightarrow> bool" where
  "window_match tokens pTokens \<longleftrightarrow> 1 < length pTokens \<and> length pTokens \<le> length tokens \<and>
     list_ex (\<lambda>i. take (length pTokens) (drop i tokens) = pTokens) [0..<length tokens - length pTokens + 1]"

definition matchPermissionKeyword :: "string \<Rightarrow> string list \<Rightarrow> string list \<Rightarrow> bool" where
  "matchPermissionKeyword s phrases keywords =
     (let tokens = splitPermissionTokens s
      in tokens \<noteq> [] \<and>
         (list_ex (\<lambda>ph. join '' '' tokens = ph \<or> window_match tokens (fields ph)) phrases \<or>
          list_ex (\<lambda>tok. List.member keywords tok) tokens))"

definition approveAllPhrases :: "string list" where
  "approveAllPhrases = [''allow all'', ''approve all'', ''yes all'']"

definition approveAllSingleTokens :: "string list" where
  "approveAllSingleTokens = ''allowall'' # map of_runes
     [[0x5141, 0x8BB8, 0x6240, 0x6709], [0x5141, 0x8BB8, 0x5168, 0x90E8], [0x5168, 0x90E8, 0x5141, 0x8BB8],
      [0x6240, 0x6709, 0x5141, 0x8BB8], [0x90FD, 0x5141, 0x8BB8], [0x5168, 0x90E8, 0x540C, 0x610F]]"

definition allowKeywords :: "string list" where
  "allowKeywords = [''allow'', ''yes'', ''y'', ''ok'', ''approve''] @ map of_runes
     [[0x5141, 0x8BB8], [0x540C, 0x610F], [0x53EF, 0x4EE5], [0x597D], [0x597D, 0x7684], [0x662F], [0x786E, 0x8BA4]]"

definition denyKeywords :: "string list" where
  "denyKeywords = [''deny'', ''no'', ''n'', ''reject'', ''cancel''] @ map of_runes
     [[0x62D2, 0x7EDD], [0x4E0D, 0x5141, 0x8BB8], [0x4E0D, 0x884C], [0x4E0D], [0x5426], [0x53D6, 0x6D88]]"

definition isApproveAllResponse :: "string \<Rightarrow> bool" where
  "isApproveAllResponse s = matchPermissionKeyword s approveAllPhrases approveAllSingleTokens"

definition isAllowResponse :: "string \<Rightarrow> bool" where
  "isAllowResponse s = matchPermissionKeyword s [] allowKeywords"

definition isDenyResponse :: "string \<Rightarrow> bool" where
  "isDenyResponse s = matchPermissionKeyword s [] denyKeywords"

section \<open>Lemmas\<close>

lemma window_match_iff:
  "window_match tokens ws \<longleftrightarrow> 1 < length ws \<and> (\<exists>xs ys. tokens = xs @ ws @ ys)"
proof
  assume "window_match tokens ws"
  then obtain i where "1 < length ws" "take (length ws) (drop i tokens) = ws"
    unfolding window_match_def list_ex_iff by blast
  moreover have "tokens = take i tokens @ take (length ws) (drop i tokens) @ drop (length ws) (drop i tokens)"
    by (simp only: append_take_drop_id)
  ultimately show "1 < length ws \<and> (\<exists>xs ys. tokens = xs @ ws @ ys)" by metis
next
  assume a: "1 < length ws \<and> (\<exists>xs ys. tokens = xs @ ws @ ys)"
  then obtain xs ys where t: "tokens = xs @ ws @ ys" by auto
  then have "take (length ws) (drop (length xs) tokens) = ws" "length xs < length tokens - length ws + 1" by simp_all
  then have "\<exists>i \<in> set [0..<length tokens - length ws + 1]. take (length ws) (drop i tokens) = ws"
    by (intro bexI [of _ "length xs"]) auto
  moreover have "length ws \<le> length tokens" using t by simp
  ultimately show "window_match tokens ws" using a unfolding window_match_def list_ex_iff by blast
qed

lemma matchPermissionKeyword_iff:
  "matchPermissionKeyword s phrases keywords \<longleftrightarrow>
     (splitPermissionTokens s \<noteq> [] \<and> (\<exists>ph \<in> set phrases. join '' '' (splitPermissionTokens s) = ph \<or>
         (1 < length (fields ph) \<and> (\<exists>xs ys. splitPermissionTokens s = xs @ fields ph @ ys))))
     \<or> (\<exists>w \<in> set keywords. w \<in> set (splitPermissionTokens s))"
proof -
  have "list_ex (\<lambda>tok. List.member keywords tok) (splitPermissionTokens s)
      \<longleftrightarrow> (\<exists>w \<in> set keywords. w \<in> set (splitPermissionTokens s))"
    by (auto simp: list_ex_iff)
  moreover have "(\<exists>w \<in> set keywords. w \<in> set (splitPermissionTokens s)) \<Longrightarrow> splitPermissionTokens s \<noteq> []" by auto
  ultimately show ?thesis
    unfolding matchPermissionKeyword_def Let_def window_match_iff list_ex_iff [of _ phrases] by blast
qed

lemma keyword_response:
  "matchPermissionKeyword s [] keywords \<longleftrightarrow> (\<exists>w \<in> set keywords. w \<in> set (splitPermissionTokens s))"
  by (simp add: matchPermissionKeyword_iff)

text \<open>The words the agent of a chat reads out of a reply.\<close>

datatype verdict = ApproveAll | Approve | Refuse | Unclear

definition words :: "string \<Rightarrow> string list" where
  "words content = splitPermissionTokens (to_lower (trim_space content))"

definition says_all :: "string list \<Rightarrow> bool" where
  "says_all ws \<longleftrightarrow> ws \<noteq> [] \<and> (\<exists>ph \<in> set approveAllPhrases. join '' '' ws = ph \<or>
      (1 < length (fields ph) \<and> (\<exists>xs ys. ws = xs @ fields ph @ ys))) \<or> (\<exists>w \<in> set approveAllSingleTokens. w \<in> set ws)"

definition verdict_of :: "string \<Rightarrow> verdict" where
  "verdict_of content =
     (if says_all (words content) then ApproveAll
      else if set (words content) \<inter> set allowKeywords \<noteq> {} then Approve
      else if set (words content) \<inter> set denyKeywords \<noteq> {} then Refuse
      else Unclear)"

lemma response_verdict:
  "isApproveAllResponse (to_lower (trim_space c)) \<longleftrightarrow> says_all (words c)"
  "isAllowResponse (to_lower (trim_space c)) \<longleftrightarrow> set (words c) \<inter> set allowKeywords \<noteq> {}"
  "isDenyResponse (to_lower (trim_space c)) \<longleftrightarrow> set (words c) \<inter> set denyKeywords \<noteq> {}"
  by (auto simp: isApproveAllResponse_def isAllowResponse_def isDenyResponse_def matchPermissionKeyword_iff
      says_all_def words_def)

lemma words_no_but: "words ''no, do not allow it'' = [''no'', ''do'', ''not'', ''allow'', ''it'']"
proof -
  have s: "segs ''no, do not allow it'' = map (\<lambda>c. (byte c, [c])) ''no, do not allow it''"
    by (rule segs_ascii_list) (simp add: byte_def)
  have t: "trim_space ''no, do not allow it'' = ''no, do not allow it''"
    by (simp add: trim_space_def s byte_def is_space_def)
  have l: "to_lower ''no, do not allow it'' = ''no, do not allow it''"
    by (simp add: to_lower_def lower_byte_def byte_def)
  show ?thesis
    by (simp add: words_def splitPermissionTokens_def t l fields_func_def s byte_def permissionTokenSeparator_def is_space_def)
qed

lemma fields_phrases:
  "fields ''allow all'' = [''allow'', ''all'']" "fields ''approve all'' = [''approve'', ''all'']"
  "fields ''yes all'' = [''yes'', ''all'']"
  using fields_join_blank [of "[''allow'', ''all'']"] fields_join_blank [of "[''approve'', ''all'']"]
    fields_join_blank [of "[''yes'', ''all'']"] by (simp_all add: ascii_word_def byte_def)

lemma says_all_false:
  assumes "''all'' \<notin> set ws" and "set ws \<inter> set approveAllSingleTokens = {}"
    and "join '' '' ws \<notin> set approveAllPhrases"
  shows "\<not> says_all ws"
  using assms by (auto simp: says_all_def approveAllPhrases_def fields_phrases)

lemma verdict_no_but: "verdict_of ''no, do not allow it'' = Approve"
proof -
  have "\<not> says_all [''no'', ''do'', ''not'', ''allow'', ''it'']"
  proof (rule says_all_false)
    show "set [''no'', ''do'', ''not'', ''allow'', ''it''] \<inter> set approveAllSingleTokens = {}"
      by (auto simp: approveAllSingleTokens_def of_runes_def encode_rune_def encode_valid_def valid_rune_def)
  qed (simp_all add: approveAllPhrases_def)
  then show ?thesis by (simp add: verdict_of_def words_no_but allowKeywords_def)
qed

end
