(* ===== verification/PermissionReply.thy ===== *)
theory PermissionReply
  imports PermissionWords
begin

text \<open>
  Answers to permission requests and questions of the agent (\<open>handlePendingPermission\<close> and its helpers in
  \<open>src/core/engine.go\<close>). Requests are shared by pointer between the event loop that waits for them and the
  handler of a reply, so they live in a store and a state holds the address of its pending one.
\<close>

section \<open>Answers to questions\<close>

record question_option =
  qo_Label :: string
  qo_Description :: string

record user_question =
  uq_Question :: string
  uq_Header :: string
  uq_Options :: "question_option list"
  uq_MultiSelect :: bool

text \<open>The option a decimal number between 1 and the number of options names.\<close>

definition option_label :: "user_question \<Rightarrow> string \<Rightarrow> string option" where
  "option_label q s =
     (case atoi s of
        Some idx \<Rightarrow> if 1 \<le> idx \<and> idx \<le> int (length (uq_Options q)) then Some (qo_Label (uq_Options q ! nat (idx - 1))) else None
      | None \<Rightarrow> None)"

fun all_labels :: "user_question \<Rightarrow> string list \<Rightarrow> string list option" where
  "all_labels q [] = Some []"
| "all_labels q (p # ps) =
     (case option_label q (trim_space p) of
        None \<Rightarrow> None
      | Some l \<Rightarrow> map_option (Cons l) (all_labels q ps))"

definition list_separator :: "nat \<Rightarrow> bool" where
  "list_separator r \<longleftrightarrow> r = 0x2C \<or> r = 0xFF0C \<or> r = 0x20"

definition button_answer :: "user_question \<Rightarrow> string \<Rightarrow> string option" where
  "button_answer q input =
     (if \<not> has_prefix input ''askq:'' then None
      else (let parts = split_n (CHR '':'') 3 input
            in if length parts = 3 then option_label q (parts ! 2)
               else if length parts = 2 then option_label q (parts ! 1)
               else None))"

definition resolveAskQuestionAnswer :: "user_question \<Rightarrow> string \<Rightarrow> string" where
  "resolveAskQuestionAnswer q input0 =
     (let input = trim_space input0
      in case button_answer q input of
           Some l \<Rightarrow> l
         | None \<Rightarrow>
             if uq_MultiSelect q then
               (case all_labels q (fields_func list_separator input) of
                  Some (l # ls) \<Rightarrow> join '', '' (l # ls)
                | _ \<Rightarrow> input)
             else (case option_label q input of Some l \<Rightarrow> l | None \<Rightarrow> input))"

text \<open>A value of a tool's input: any JSON value of the agent, or the map of answers the engine adds.\<close>

datatype 'j tool_value = Raw 'j | AnswerMap "(string, string) gomap"

definition add_answer :: "user_question list \<Rightarrow> int \<times> string \<Rightarrow> (string, string) gomap \<Rightarrow> (string, string) gomap" where
  "add_answer questions ia answers =
     (if 0 \<le> fst ia \<and> fst ia < int (length questions)
      then mput (uq_Question (questions ! nat (fst ia))) (snd ia) answers else answers)"

definition buildAskQuestionResponse ::
    "(string, 'j tool_value) gomap \<Rightarrow> user_question list \<Rightarrow> (int, string) gomap \<Rightarrow> (string, 'j tool_value) gomap" where
  "buildAskQuestionResponse originalInput questions collected =
     mput ''answers'' (AnswerMap (fold (add_answer questions) collected [])) originalInput"

section \<open>Pending requests\<close>

record 'j pending_permission =
  pp_RequestID :: string
  pp_ToolName :: string
  pp_ToolInput :: "(string, 'j tool_value) gomap"
  pp_Questions :: "user_question list"
  pp_Answers :: "(int, string) gomap"
  pp_CurrentQuestion :: nat
  pp_Resolved :: bool

datatype 'j permission_result = Allow "(string, 'j tool_value) gomap" | Deny string

datatype reply_text =
    AnswerEcho string string
  | AgentErrorText
  | PermissionApproveAll
  | PermissionAllowed
  | PermissionDenied
  | PermissionHint

text \<open>What the engine does to the outside: answer the agent, reply in the chat, ask for permission, ask a question.\<close>

datatype 'j effect = Respond string "'j permission_result" | Reply reply_text | AskPermission string | AskQuestion nat

record perm_state =
  pst_agent :: bool          (* agentSession is not nil *)
  pst_pending :: "nat option"
  pst_approveAll :: bool

record 'j perm_engine =
  pe_states :: "(string, perm_state) gomap"
  pe_perms :: "(nat, 'j pending_permission) gomap"
  pe_out :: "'j effect list"

definition emit :: "'j effect \<Rightarrow> 'j perm_engine \<Rightarrow> 'j perm_engine" where
  "emit x e = e\<lparr>pe_out := pe_out e @ [x]\<rparr>"

definition pp_resolve :: "nat \<Rightarrow> 'j perm_engine \<Rightarrow> 'j perm_engine" where
  "pp_resolve a e = e\<lparr>pe_perms := madj a (\<lambda>p. p\<lparr>pp_Resolved := True\<rparr>) (pe_perms e)\<rparr>"

definition clear_pending :: "string \<Rightarrow> 'j perm_engine \<Rightarrow> 'j perm_engine" where
  "clear_pending k e = e\<lparr>pe_states := madj k (\<lambda>s. s\<lparr>pst_pending := None\<rparr>) (pe_states e)\<rparr>"

definition lookupPending :: "string \<Rightarrow> 'j perm_engine \<Rightarrow> nat option" where
  "lookupPending iKey e = (case mget (pe_states e) iKey of Some s \<Rightarrow> pst_pending s | None \<Rightarrow> None)"

text \<open>The key whose request the reply answers: the key itself, or a cron run of the same chat.\<close>

definition pending_key :: "string \<Rightarrow> 'j perm_engine \<Rightarrow> string option" where
  "pending_key iKey e =
     (if lookupPending iKey e \<noteq> None then Some iKey
      else find (\<lambda>k. lookupPending k e \<noteq> None)
             (filter (\<lambda>k. has_prefix k (iKey @ ''#cron:'')) (map fst (pe_states e))))"

text \<open>
  \<open>RespondPermission\<close> is called on the agent session of the state; \<open>ok\<close> tells whether it returns no error. A
  session that is nil panics, which is the value \<open>None\<close>.
\<close>

definition respond :: "string \<Rightarrow> 'j pending_permission \<Rightarrow> 'j permission_result \<Rightarrow> 'j perm_engine \<Rightarrow> 'j perm_engine option" where
  "respond k p r e =
     (case mget (pe_states e) k of
        Some s \<Rightarrow> if pst_agent s then Some (emit (Respond (pp_RequestID p) r) e) else None
      | None \<Rightarrow> None)"

definition finish :: "string \<Rightarrow> nat \<Rightarrow> 'j perm_engine \<Rightarrow> 'j perm_engine" where
  "finish k a e = pp_resolve a (clear_pending k e)"

definition answer_question :: "bool \<Rightarrow> string \<Rightarrow> string \<Rightarrow> nat \<Rightarrow> 'j pending_permission \<Rightarrow> 'j perm_engine
    \<Rightarrow> ('j perm_engine \<times> bool) option" where
  "answer_question ok content k a p e =
     (if trim_space content = [] then Some (e, False)
      else if length (pp_Questions p) \<le> pp_CurrentQuestion p then None
      else (let q = pp_Questions p ! pp_CurrentQuestion p;
                answer = resolveAskQuestionAnswer q content;
                p' = p\<lparr>pp_Answers := mput (int (pp_CurrentQuestion p)) answer (pp_Answers p)\<rparr>;
                next = pp_CurrentQuestion p + 1
            in if next < length (pp_Questions p)
               then Some (emit (AskQuestion next) (emit (Reply (AnswerEcho (uq_Question q) answer))
                      (e\<lparr>pe_perms := mput a (p'\<lparr>pp_CurrentQuestion := next\<rparr>) (pe_perms e)\<rparr>)), True)
               else (case respond k p' (Allow (buildAskQuestionResponse (pp_ToolInput p') (pp_Questions p') (pp_Answers p')))
                             (e\<lparr>pe_perms := mput a p' (pe_perms e)\<rparr>) of
                       None \<Rightarrow> None
                     | Some e' \<Rightarrow> Some (finish k a (emit (Reply (if ok then AnswerEcho (uq_Question q) answer else AgentErrorText)) e'), True))))"

definition answer_permission :: "bool \<Rightarrow> string \<Rightarrow> string \<Rightarrow> nat \<Rightarrow> 'j pending_permission \<Rightarrow> 'j perm_engine
    \<Rightarrow> ('j perm_engine \<times> bool) option" where
  "answer_permission ok content k a p e =
     (let lower = to_lower (trim_space content);
          done = (\<lambda>r t e. case respond k p r e of
                            None \<Rightarrow> None
                          | Some e' \<Rightarrow> Some (finish k a (emit (Reply t) e'), True))
      in if isApproveAllResponse lower then
           done (Allow (pp_ToolInput p)) (if ok then PermissionApproveAll else AgentErrorText)
             (e\<lparr>pe_states := madj k (\<lambda>s. s\<lparr>pst_approveAll := True\<rparr>) (pe_states e)\<rparr>)
         else if isAllowResponse lower then
           done (Allow (pp_ToolInput p)) (if ok then PermissionAllowed else AgentErrorText) e
         else if isDenyResponse lower then done (Deny ''User denied this tool use.'') PermissionDenied e
         else Some (emit (Reply PermissionHint) e, True))"

text \<open>The part after the look-up, which runs without a lock on the state.\<close>

definition answer_pending :: "bool \<Rightarrow> string \<Rightarrow> string \<Rightarrow> nat \<Rightarrow> 'j perm_engine \<Rightarrow> ('j perm_engine \<times> bool) option" where
  "answer_pending ok content k a e =
     (case mget (pe_perms e) a of
        None \<Rightarrow> None
      | Some p \<Rightarrow> if pp_Questions p \<noteq> [] then answer_question ok content k a p e
                  else answer_permission ok content k a p e)"

definition handlePendingPermission ::
    "bool \<Rightarrow> bool \<Rightarrow> string \<Rightarrow> string \<Rightarrow> 'j perm_engine \<Rightarrow> ('j perm_engine \<times> bool) option" where
  "handlePendingPermission ok isPermissionResponse content iKey e =
     (case pending_key iKey e of
        None \<Rightarrow> Some (e, isPermissionResponse)
      | Some k \<Rightarrow> (case lookupPending k e of
                     Some a \<Rightarrow> answer_pending ok content k a e
                   | None \<Rightarrow> Some (e, isPermissionResponse)))"

text \<open>What the event loop does on a permission request (\<open>processInteractiveEvents\<close>), up to where it waits.\<close>

definition is_ask_question :: "'j pending_permission \<Rightarrow> bool" where
  "is_ask_question p \<longleftrightarrow> (pp_ToolName p = ''AskUserQuestion'' \<or> pp_ToolName p = ''extension_select'') \<and> pp_Questions p \<noteq> []"

definition permission_request :: "string \<Rightarrow> nat \<Rightarrow> 'j pending_permission \<Rightarrow> 'j perm_engine \<Rightarrow> 'j perm_engine option" where
  "permission_request k a p e =
     (case mget (pe_states e) k of
        None \<Rightarrow> Some e
      | Some s \<Rightarrow>
          if pst_approveAll s \<and> \<not> is_ask_question p then respond k p (Allow (pp_ToolInput p)) e
          else Some (let e' = e\<lparr>pe_perms := mput a (p\<lparr>pp_Resolved := False, pp_Answers := [], pp_CurrentQuestion := 0\<rparr>) (pe_perms e),
                                pe_states := madj k (\<lambda>s. s\<lparr>pst_pending := Some a\<rparr>) (pe_states e)\<rparr>
                     in emit (if is_ask_question p then AskQuestion 0 else AskPermission (pp_ToolName p)) e'))"

section \<open>Lemmas\<close>

lemma pending_key_own: "lookupPending k e = Some a \<Longrightarrow> pending_key k e = Some k"
  by (simp add: pending_key_def)

lemma handle_own:
  assumes "lookupPending k e = Some a" and "mget (pe_perms e) a = Some p"
  shows "handlePendingPermission ok cb content k e =
    (if pp_Questions p \<noteq> [] then answer_question ok content k a p e else answer_permission ok content k a p e)"
  using assms by (simp add: handlePendingPermission_def pending_key_own answer_pending_def)

lemmas perm_defs = emit_def pp_resolve_def clear_pending_def respond_def finish_def

definition verdict_result :: "verdict \<Rightarrow> 'j pending_permission \<Rightarrow> 'j permission_result" where
  "verdict_result v p = (if v = Refuse then Deny ''User denied this tool use.'' else Allow (pp_ToolInput p))"

definition verdict_text :: "bool \<Rightarrow> verdict \<Rightarrow> reply_text" where
  "verdict_text ok v = (case v of Refuse \<Rightarrow> PermissionDenied | Unclear \<Rightarrow> PermissionHint
     | ApproveAll \<Rightarrow> if ok then PermissionApproveAll else AgentErrorText
     | Approve \<Rightarrow> if ok then PermissionAllowed else AgentErrorText)"

definition answered :: "bool \<Rightarrow> verdict \<Rightarrow> string \<Rightarrow> nat \<Rightarrow> 'j pending_permission \<Rightarrow> 'j perm_engine \<Rightarrow> 'j perm_engine" where
  "answered ok v k a p e =
     \<lparr>pe_states = madj k (\<lambda>s. s\<lparr>pst_pending := None\<rparr>)
        (madj k (\<lambda>s. s\<lparr>pst_approveAll := pst_approveAll s \<or> v = ApproveAll\<rparr>) (pe_states e)),
      pe_perms = madj a (\<lambda>p. p\<lparr>pp_Resolved := True\<rparr>) (pe_perms e),
      pe_out = pe_out e @ [Respond (pp_RequestID p) (verdict_result v p), Reply (verdict_text ok v)]\<rparr>"

lemma madj_id [simp]: "madj k (\<lambda>s. s) m = m"
  by (induction m) (auto simp: madj_def)

lemma answer_permission_verdict:
  assumes "mget (pe_states e) k = Some s" and "pst_agent s"
  shows "answer_permission ok content k a p e = Some
    (if verdict_of content = Unclear then emit (Reply PermissionHint) e
     else answered ok (verdict_of content) k a p e, True)"
  using assms
  by (simp add: answer_permission_def response_verdict verdict_of_def perm_defs answered_def verdict_result_def
      verdict_text_def gomap Let_def)

end
