(* ===== verification/PermissionProperties.thy ===== *)
theory PermissionProperties
  imports PermissionReply
begin

text \<open>
  Properties of the answers to permission requests and questions.
\<close>

text \<open>
  C13. A reply to a permission request means what its words say: one of the approve-all phrases or words approves
  this and every later request, otherwise a word of approval approves, otherwise a word of refusal refuses. The
  agent is then told exactly once, under the ID of the pending request and with its unchanged input, the request is
  resolved and no longer pending, and nothing else changes; a reply without such a word only produces a hint.
\<close>

theorem permission_reply_spec:
  assumes "pending_key iKey e = Some k" and "mget (pe_states e) k = Some s" and "pst_agent s"
    and "pst_pending s = Some a" and "mget (pe_perms e) a = Some p" and "pp_Questions p = []"
    and "v = verdict_of content"
  shows "\<exists>e'. handlePendingPermission ok cb content iKey e = Some (e', True) \<and>
    (if v = Unclear then e' = emit (Reply PermissionHint) e
     else (\<exists>t. pe_out e' = pe_out e @ [Respond (pp_RequestID p)
              (if v = Refuse then Deny ''User denied this tool use.'' else Allow (pp_ToolInput p)), Reply t])
        \<and> (\<forall>k'. mget (pe_states e') k' =
              (if k' = k then Some (s\<lparr>pst_pending := None, pst_approveAll := pst_approveAll s \<or> v = ApproveAll\<rparr>)
               else mget (pe_states e) k'))
        \<and> (\<forall>a'. mget (pe_perms e') a' = (if a' = a then Some (p\<lparr>pp_Resolved := True\<rparr>) else mget (pe_perms e) a'))
        \<and> (\<forall>b q. pp_Questions q = [] \<longrightarrow>
              (if pst_approveAll s \<or> v = ApproveAll
               then permission_request k b q e' = Some (emit (Respond (pp_RequestID q) (Allow (pp_ToolInput q))) e')
               else map_option (lookupPending k) (permission_request k b q e') = Some (Some b))))"
proof -
  have "handlePendingPermission ok cb content iKey e = answer_permission ok content k a p e"
    using assms by (simp add: handlePendingPermission_def lookupPending_def answer_pending_def)
  then have r: "handlePendingPermission ok cb content iKey e =
      Some (if v = Unclear then emit (Reply PermissionHint) e else answered ok v k a p e, True)"
    using answer_permission_verdict [OF assms(2,3)] assms(7) by simp
  show ?thesis
  proof (cases "v = Unclear")
    case False
    then show ?thesis using r assms
      by (simp add: answered_def verdict_result_def gomap permission_request_def perm_defs lookupPending_def
          is_ask_question_def Let_def)
  qed (simp add: r)
qed

definition sample_request :: "nat pending_permission" where
  "sample_request = \<lparr>pp_RequestID = ''r1'', pp_ToolName = ''Bash'', pp_ToolInput = [(''command'', Raw 7)], pp_Questions = [],
     pp_Answers = [], pp_CurrentQuestion = 0, pp_Resolved = False\<rparr>"

definition sample_engine :: "nat perm_engine" where
  "sample_engine = \<lparr>pe_states = [(''tg:1'', \<lparr>pst_agent = True, pst_pending = Some 1, pst_approveAll = False\<rparr>)],
     pe_perms = [(1, sample_request)], pe_out = []\<rparr>"

theorem permission_reply_spec_witness:
  "\<exists>e'. handlePendingPermission True False ''no, do not allow it'' ''tg:1'' sample_engine = Some (e', True)
     \<and> (\<exists>t. pe_out e' = [Respond ''r1'' (Allow [(''command'', Raw 7)]), Reply t])"
  using permission_reply_spec [of "''tg:1''" sample_engine "''tg:1''" _ 1 sample_request Approve "''no, do not allow it''" True False]
  by (auto simp: sample_engine_def sample_request_def verdict_no_but pending_key_def lookupPending_def)

text \<open>
  One word of approval decides: whatever refusals the reply also contains, the tool use is allowed, so that
  "no, do not allow it" runs the tool.
\<close>

theorem approving_word_overrides_refusal:
  assumes "pending_key iKey e = Some k" and "mget (pe_states e) k = Some s" and "pst_agent s"
    and "pst_pending s = Some a" and "mget (pe_perms e) a = Some p" and "pp_Questions p = []"
    and "w \<in> set allowKeywords" and "w \<in> set (words content)" and "d \<in> set denyKeywords" and "d \<in> set (words content)"
  shows "\<exists>e' t. handlePendingPermission ok cb content iKey e = Some (e', True)
    \<and> pe_out e' = pe_out e @ [Respond (pp_RequestID p) (Allow (pp_ToolInput p)), Reply t]"
proof -
  have "verdict_of content = ApproveAll \<or> verdict_of content = Approve"
    using assms(7,8) by (auto simp: verdict_of_def)
  moreover have "handlePendingPermission ok cb content iKey e = answer_permission ok content k a p e"
    using assms by (simp add: handlePendingPermission_def lookupPending_def answer_pending_def)
  ultimately show ?thesis
    using answer_permission_verdict [OF assms(2,3), of ok content a p] by (auto simp: answered_def verdict_result_def)
qed

theorem approving_word_overrides_refusal_witness:
  "\<exists>e' t. handlePendingPermission True False ''no, do not allow it'' ''tg:1'' sample_engine = Some (e', True)
     \<and> pe_out e' = [Respond ''r1'' (Allow [(''command'', Raw 7)]), Reply t] \<and> ''no'' \<in> set denyKeywords"
  using approving_word_overrides_refusal [of "''tg:1''" sample_engine "''tg:1''" _ 1 sample_request "''allow''"
      "''no, do not allow it''" "''no''" True False]
  by (auto simp: sample_engine_def sample_request_def words_no_but pending_key_def lookupPending_def allowKeywords_def
      denyKeywords_def)

section \<open>Two replies to one request\<close>

lemma has_prefix_longer: "s \<noteq> [] \<Longrightarrow> \<not> has_prefix k (k @ s)"
  by (simp add: has_prefix_def)

text \<open>
  The pending request is looked up and answered without one lock around both. If two replies look up the same
  request, and the agent asks again before the second one is through, then the second reply answers the old request
  once more and removes the new one: it stays unresolved, and no reply reaches it any more, so the turn waits forever.
\<close>

theorem second_reply_swallows_next_request:
  assumes "pe_states e = [(k, s)]" and "pst_agent s" and "\<not> pst_approveAll s" and "lookupPending k e = Some a"
    and "mget (pe_perms e) a = Some p" and "pp_Questions p = []"
    and "verdict_of c1 \<in> {Approve, Refuse}" and "verdict_of c2 \<in> {Approve, Refuse}"
    and "a \<noteq> b" and "pp_Questions q = []"
  shows "\<exists>e1 e2 e3. answer_pending True c1 k a e = Some (e1, True) \<and> permission_request k b q e1 = Some e2
    \<and> lookupPending k e2 = Some b \<and> answer_pending True c2 k a e2 = Some (e3, True)
    \<and> lookupPending k e3 = None \<and> (\<exists>q'. mget (pe_perms e3) b = Some q' \<and> \<not> pp_Resolved q')
    \<and> length (filter (\<lambda>x. \<exists>r. x = Respond (pp_RequestID p) r) (pe_out e3))
        = length (filter (\<lambda>x. \<exists>r. x = Respond (pp_RequestID p) r) (pe_out e)) + 2
    \<and> (\<forall>ok cb c. handlePendingPermission ok cb c k e3 = Some (e3, cb))"
proof -
  have s: "mget (pe_states e) k = Some s" "pst_pending s = Some a" using assms(1,4) by (simp_all add: lookupPending_def)
  define e1 where "e1 = answered True (verdict_of c1) k a p e"
  have r1: "answer_pending True c1 k a e = Some (e1, True)"
    using answer_permission_verdict [OF s(1) assms(2), of True c1 a p] assms(5-7)
    by (auto simp: answer_pending_def e1_def)
  have p1: "mget (pe_perms e1) a = Some (p\<lparr>pp_Resolved := True\<rparr>)"
    using assms(5) by (simp add: e1_def answered_def gomap)
  have st1: "pe_states e1 = [(k, s\<lparr>pst_pending := None\<rparr>)]"
    using assms(1,3,7) by (auto simp: e1_def answered_def madj_def)
  define q' where "q' = q\<lparr>pp_Resolved := False, pp_Answers := [], pp_CurrentQuestion := 0\<rparr>"
  define e2 where "e2 = emit (AskPermission (pp_ToolName q))
    (e1\<lparr>pe_perms := mput b q' (pe_perms e1), pe_states := [(k, s\<lparr>pst_pending := Some b\<rparr>)]\<rparr>)"
  have r2: "permission_request k b q e1 = Some e2"
    using st1 assms(3,10) by (simp add: permission_request_def e2_def q'_def is_ask_question_def madj_def Let_def)
  have s2: "mget (pe_states e2) k = Some (s\<lparr>pst_pending := Some b\<rparr>)" by (simp add: e2_def emit_def)
  define e3 where "e3 = answered True (verdict_of c2) k a (p\<lparr>pp_Resolved := True\<rparr>) e2"
  have r3: "answer_pending True c2 k a e2 = Some (e3, True)"
    using answer_permission_verdict [OF s2, of True c2 a "p\<lparr>pp_Resolved := True\<rparr>"] assms(2,6,8,9) p1
    by (auto simp: answer_pending_def e3_def e2_def emit_def gomap)
  have st3: "pe_states e3 = [(k, s\<lparr>pst_pending := None\<rparr>)]"
    using assms(3,8) by (auto simp: e3_def answered_def e2_def emit_def madj_def)
  have b3: "mget (pe_perms e3) b = Some q'" "\<not> pp_Resolved q'"
    using assms(9) by (auto simp: e3_def answered_def e2_def emit_def gomap q'_def)
  have out: "length (filter (\<lambda>x. \<exists>r. x = Respond (pp_RequestID p) r) (pe_out e3))
        = length (filter (\<lambda>x. \<exists>r. x = Respond (pp_RequestID p) r) (pe_out e)) + 2"
    by (simp add: e3_def answered_def e2_def emit_def e1_def)
  have stuck: "handlePendingPermission ok cb c k e3 = Some (e3, cb)" for ok cb c
    by (simp add: handlePendingPermission_def pending_key_def lookupPending_def st3 has_prefix_longer)
  have "lookupPending k e2 = Some b" "lookupPending k e3 = None" by (simp_all add: lookupPending_def s2 st3)
  with r1 r2 r3 b3 out stuck show ?thesis by blast
qed

theorem second_reply_swallows_next_request_witness:
  "\<exists>e1 e2 e3. answer_pending True ''no, do not allow it'' ''tg:1'' 1 sample_engine = Some (e1, True)
     \<and> permission_request ''tg:1'' 2 (sample_request\<lparr>pp_RequestID := ''r2''\<rparr>) e1 = Some e2
     \<and> answer_pending True ''no, do not allow it'' ''tg:1'' 1 e2 = Some (e3, True) \<and> lookupPending ''tg:1'' e3 = None"
proof -
  let ?s = "\<lparr>pst_agent = True, pst_pending = Some 1, pst_approveAll = False\<rparr>"
  have "pe_states sample_engine = [(''tg:1'', ?s)]" "lookupPending ''tg:1'' sample_engine = Some 1"
    "mget (pe_perms sample_engine) 1 = Some sample_request" "pp_Questions sample_request = []"
    "pp_Questions (sample_request\<lparr>pp_RequestID := ''r2''\<rparr>) = []"
    by (simp_all add: sample_engine_def sample_request_def lookupPending_def)
  from second_reply_swallows_next_request [OF this(1) _ _ this(2-4) _ _ _ this(5), of "''no, do not allow it''"
      "''no, do not allow it''" 2]
  show ?thesis by (auto simp: verdict_no_but)
qed

section \<open>A request with several questions\<close>

fun reply_all :: "string \<Rightarrow> string list \<Rightarrow> 'j perm_engine \<Rightarrow> 'j perm_engine option" where
  "reply_all k [] e = Some e"
| "reply_all k (c # cs) e =
     (case handlePendingPermission True False c k e of None \<Rightarrow> None | Some (e', _) \<Rightarrow> reply_all k cs e')"

definition told :: "'j perm_engine \<Rightarrow> (string \<times> 'j permission_result) list" where
  "told e = concat (map (\<lambda>x. case x of Respond i r \<Rightarrow> [(i, r)] | _ \<Rightarrow> []) (pe_out e))"

lemma told_simps [simp]:
  "told (emit (Respond i r) e) = told e @ [(i, r)]" "told (emit (Reply t) e) = told e"
  "told (emit (AskQuestion n) e) = told e" "told (e\<lparr>pe_perms := P\<rparr>) = told e" "told (e\<lparr>pe_states := S\<rparr>) = told e"
  by (simp_all add: told_def emit_def)

text \<open>The answers collected to the first questions.\<close>

definition collected :: "user_question list \<Rightarrow> string list \<Rightarrow> (int, string) gomap \<Rightarrow> bool" where
  "collected qs cs A \<longleftrightarrow> wf_map A \<and> (\<forall>j. mget A j =
     (if 0 \<le> j \<and> j < int (length cs) then Some (resolveAskQuestionAnswer (qs ! nat j) (cs ! nat j)) else None))"

lemma collected_snoc:
  assumes "collected qs cs A"
  shows "collected qs (cs @ [c]) (mput (int (length cs)) (resolveAskQuestionAnswer (qs ! length cs) c) A)"
proof -
  have "nat j < length cs \<and> j \<noteq> int (length cs)" if "0 \<le> j" "j < int (length cs)" for j using that by auto
  then show ?thesis using assms by (auto simp: collected_def gomap wfm nth_append)
qed

lemma add_answers:
  assumes "wf_map A" and "distinct (map uq_Question qs)" and "\<And>j. j \<in> mkeys A \<Longrightarrow> 0 \<le> j \<and> j < int (length qs)"
    and "i < length qs"
  shows "mget (fold (add_answer qs) A M) (uq_Question (qs ! i)) =
    (case mget A (int i) of Some x \<Rightarrow> Some x | None \<Rightarrow> mget M (uq_Question (qs ! i)))"
  using assms(1,3)
proof (induction A arbitrary: M)
  case (Cons jx A)
  obtain j x where jx: "jx = (j, x)" by force
  have j: "0 \<le> j" "j < int (length qs)" using Cons.prems(2) [of j] jx by auto
  have inj: "uq_Question (qs ! i) = uq_Question (qs ! nat j) \<longleftrightarrow> int i = j"
    using j assms(4) nth_eq_iff_index_eq [OF assms(2), of i "nat j"] by auto
  have M: "mget (add_answer qs jx M) (uq_Question (qs ! i)) = (if int i = j then Some x else mget M (uq_Question (qs ! i)))"
    using j by (simp add: add_answer_def jx gomap inj)
  have IH: "mget (fold (add_answer qs) A (add_answer qs jx M)) (uq_Question (qs ! i)) =
    (case mget A (int i) of Some x \<Rightarrow> Some x | None \<Rightarrow> mget (add_answer qs jx M) (uq_Question (qs ! i)))"
    using Cons.prems by (intro Cons.IH) auto
  have "j \<notin> mkeys A" using Cons.prems(1) jx by simp
  then have "int i = j \<Longrightarrow> mget A (int i) = None" using mget_None_keys by metis
  then show ?case using IH M by (auto simp: jx split: option.splits)
qed simp

lemma answers_of_collected:
  assumes "collected qs cs A" and "length cs = length qs" and "distinct (map uq_Question qs)" and "i < length qs"
  shows "mget (fold (add_answer qs) A []) (uq_Question (qs ! i)) = Some (resolveAskQuestionAnswer (qs ! i) (cs ! i))"
proof -
  have "j \<in> mkeys A \<Longrightarrow> 0 \<le> j \<and> j < int (length qs)" for j
    using assms(1,2) mget_Some_keys [of A j] by (auto simp: collected_def split: if_splits)
  then show ?thesis using assms add_answers [of A qs i "[]"] by (simp add: collected_def)
qed

text \<open>The state of the engine when the replies \<open>cs\<close> have been given.\<close>

definition asked :: "string \<Rightarrow> nat \<Rightarrow> 'j pending_permission \<Rightarrow> string list \<Rightarrow> (string \<times> 'j permission_result) list
    \<Rightarrow> 'j perm_engine \<Rightarrow> bool" where
  "asked k a p cs out e \<longleftrightarrow>
     (\<exists>s A. mget (pe_states e) k = Some s \<and> pst_agent s \<and> pst_pending s = Some a \<and> collected (pp_Questions p) cs A
        \<and> mget (pe_perms e) a = Some (p\<lparr>pp_Answers := A, pp_CurrentQuestion := length cs\<rparr>) \<and> told e = out)"

lemma asked_step:
  assumes "asked k a p cs out e" and "trim_space c \<noteq> []" and "Suc (length cs) < length (pp_Questions p)"
  shows "\<exists>e'. handlePendingPermission True False c k e = Some (e', True) \<and> asked k a p (cs @ [c]) out e'"
proof -
  obtain s A where s: "mget (pe_states e) k = Some s" "pst_agent s" "pst_pending s = Some a"
    "collected (pp_Questions p) cs A" "mget (pe_perms e) a = Some (p\<lparr>pp_Answers := A, pp_CurrentQuestion := length cs\<rparr>)"
    "told e = out" using assms(1) by (auto simp: asked_def)
  let ?q = "pp_Questions p ! length cs"
  let ?x = "resolveAskQuestionAnswer ?q c"
  let ?p = "p\<lparr>pp_Answers := mput (int (length cs)) ?x A, pp_CurrentQuestion := Suc (length cs)\<rparr>"
  let ?e = "emit (AskQuestion (Suc (length cs))) (emit (Reply (AnswerEcho (uq_Question ?q) ?x)) (e\<lparr>pe_perms := mput a ?p (pe_perms e)\<rparr>))"
  have l: "lookupPending k e = Some a" using s by (simp add: lookupPending_def)
  have "handlePendingPermission True False c k e = Some (?e, True)"
    using assms(2,3) s(5) by (subst handle_own [OF l s(5)]) (auto simp: answer_question_def Let_def)
  moreover have "asked k a p (cs @ [c]) out ?e"
    using s collected_snoc [OF s(4), of c] unfolding asked_def
    by (intro exI [of _ s] exI [of _ "mput (int (length cs)) ?x A"]) (simp add: gomap emit_def told_def)
  ultimately show ?thesis by blast
qed

lemma asked_last:
  assumes "asked k a p cs out e" and "trim_space c \<noteq> []" and "Suc (length cs) = length (pp_Questions p)"
  shows "\<exists>e' A. handlePendingPermission True False c k e = Some (e', True) \<and> collected (pp_Questions p) (cs @ [c]) A
    \<and> told e' = out @ [(pp_RequestID p, Allow (buildAskQuestionResponse (pp_ToolInput p) (pp_Questions p) A))]
    \<and> lookupPending k e' = None \<and> map_option pp_Resolved (mget (pe_perms e') a) = Some True"
proof -
  obtain s A where s: "mget (pe_states e) k = Some s" "pst_agent s" "pst_pending s = Some a"
    "collected (pp_Questions p) cs A" "mget (pe_perms e) a = Some (p\<lparr>pp_Answers := A, pp_CurrentQuestion := length cs\<rparr>)"
    "told e = out" using assms(1) by (auto simp: asked_def)
  let ?q = "pp_Questions p ! length cs"
  let ?A = "mput (int (length cs)) (resolveAskQuestionAnswer ?q c) A"
  have l: "lookupPending k e = Some a" using s by (simp add: lookupPending_def)
  have "pp_Questions p \<noteq> []" using assms(3) by auto
  then obtain e' where e': "handlePendingPermission True False c k e = Some (e', True)"
    "told e' = out @ [(pp_RequestID p, Allow (buildAskQuestionResponse (pp_ToolInput p) (pp_Questions p) ?A))]"
    "lookupPending k e' = None" "map_option pp_Resolved (mget (pe_perms e') a) = Some True"
    using s assms(2,3) by (simp add: handle_own [OF l s(5)] answer_question_def Let_def respond_def emit_def finish_def
        pp_resolve_def clear_pending_def told_def lookupPending_def gomap)
  then show ?thesis using collected_snoc [OF s(4), of c] by blast
qed

lemma reply_rest:
  assumes "asked k a p cs out e" and "\<forall>c \<in> set ds. trim_space c \<noteq> []"
    and "length cs + length ds = length (pp_Questions p)" and "ds \<noteq> []"
  shows "\<exists>e' A. reply_all k ds e = Some e' \<and> collected (pp_Questions p) (cs @ ds) A
    \<and> told e' = out @ [(pp_RequestID p, Allow (buildAskQuestionResponse (pp_ToolInput p) (pp_Questions p) A))]
    \<and> lookupPending k e' = None \<and> map_option pp_Resolved (mget (pe_perms e') a) = Some True"
  using assms
proof (induction ds arbitrary: cs e)
  case (Cons d ds)
  show ?case
  proof (cases "ds = []")
    case True
    then show ?thesis using asked_last [OF Cons.prems(1), of d] Cons.prems by fastforce
  next
    case False
    then have "Suc (length cs) < length (pp_Questions p)" using Cons.prems(3) by (cases ds) auto
    then obtain e' where e': "handlePendingPermission True False d k e = Some (e', True)" "asked k a p (cs @ [d]) out e'"
      using asked_step [OF Cons.prems(1), of d] Cons.prems(2) by auto
    then show ?thesis using Cons.IH [OF e'(2)] Cons.prems False by simp
  qed
qed simp


definition two_questions :: "nat pending_permission" where
  "two_questions = sample_request\<lparr>pp_ToolName := ''AskUserQuestion'', pp_Questions :=
     [\<lparr>uq_Question = ''Color?'', uq_Header = [], uq_Options = [\<lparr>qo_Label = ''red'', qo_Description = []\<rparr>,
        \<lparr>qo_Label = ''blue'', qo_Description = []\<rparr>], uq_MultiSelect = False\<rparr>,
      \<lparr>uq_Question = ''Size?'', uq_Header = [], uq_Options = [\<lparr>qo_Label = ''big'', qo_Description = []\<rparr>], uq_MultiSelect = False\<rparr>]\<rparr>"

lemma sample_answers:
  "resolveAskQuestionAnswer (pp_Questions two_questions ! 0) ''2'' = ''blue''"
  "resolveAskQuestionAnswer (pp_Questions two_questions ! 1) ''askq:1:1'' = ''big''"
proof -
  have t: "trim_space ''2'' = ''2''" "trim_space ''askq:1:1'' = ''askq:1:1''"
    by (simp_all add: trim_space_word ascii_word_def byte_def)
  have a: "atoi ''2'' = Some 2" "atoi ''1'' = Some 1"
    by (simp_all add: atoi_def is_digit_def digits_value_def byte_def)
  show "resolveAskQuestionAnswer (pp_Questions two_questions ! 0) ''2'' = ''blue''"
    by (simp add: resolveAskQuestionAnswer_def t button_answer_def has_prefix_def two_questions_def option_label_def a)
  show "resolveAskQuestionAnswer (pp_Questions two_questions ! 1) ''askq:1:1'' = ''big''"
    by (simp add: resolveAskQuestionAnswer_def t button_answer_def has_prefix_def two_questions_def option_label_def a
        eval_nat_numeral)
qed


end
