(* ===== verification/InteractiveState.thy ===== *)
theory InteractiveState
  imports Session RateLimit
begin

text \<open>
  The state an engine keeps per conversation while an agent works on it (\<open>interactiveState\<close> in
  \<open>src/core/engine.go\<close>), the queue of messages that wait for the running turn, and the watermark that tells stale
  redeliveries apart. States are shared by pointer: an engine maps a conversation to the address of its state.
  Every definition is one critical section of the code, or a sequence of them where the code takes no decision in
  between. A platform, a reply context and an attachment are opaque names; an agent process is a number.
\<close>

section \<open>Messages\<close>

record message =
  m_SessionKey :: string
  m_Platform :: string
  m_MessageID :: string
  m_UserID :: string
  m_UserName :: string
  m_ChatName :: string
  m_Content :: string
  m_Images :: "string list"
  m_Files :: "string list"
  m_ChannelKey :: string
  m_ReplyCtx :: string
  m_FromVoice :: bool
  m_UserMessageTimeMs :: int

record queued_message =
  qm_messageID :: string
  qm_platform :: string
  qm_replyCtx :: string
  qm_content :: string
  qm_images :: "string list"
  qm_files :: "string list"
  qm_fromVoice :: bool
  qm_userID :: string
  qm_userName :: string
  qm_msgPlatform :: string
  qm_msgSessionKey :: string
  qm_msgChatName :: string
  qm_channelKey :: string
  qm_userMessageTimeMs :: int

text \<open>The composite literal in \<open>queueMessageForBusySession\<close>; it does not set \<open>msgChatName\<close>.\<close>

definition queued_of :: "string \<Rightarrow> message \<Rightarrow> queued_message" where
  "queued_of p m =
     \<lparr>qm_messageID = m_MessageID m, qm_platform = p, qm_replyCtx = m_ReplyCtx m, qm_content = m_Content m,
      qm_images = m_Images m, qm_files = m_Files m, qm_fromVoice = m_FromVoice m, qm_userID = m_UserID m,
      qm_userName = m_UserName m, qm_msgPlatform = m_Platform m, qm_msgSessionKey = m_SessionKey m,
      qm_msgChatName = [], qm_channelKey = m_ChannelKey m, qm_userMessageTimeMs = m_UserMessageTimeMs m\<rparr>"

section \<open>States and the engine\<close>

record interactive_state =
  is_agentSession :: "nat option"
  is_platform :: string
  is_replyCtx :: string
  is_currentMessageID :: string
  is_canonicalSessionKey :: string
  is_stopped :: bool
  is_pending :: "nat option"
  is_pendingMessages :: "queued_message list"
  is_fromVoice :: bool
  is_agentSessionIdleToken :: nat
  is_lastActivity :: time
  is_turnsInFlight :: nat
  is_eventsNeedResync :: bool
  is_lastCompletedUserMessageTimeMs :: int
  is_currentTurnUserMessageTimeMs :: int

text \<open>A fresh state: the composite literals set the platform, the reply context, the agent and \<open>eventsNeedResync\<close>.\<close>

definition new_state :: "nat option \<Rightarrow> string \<Rightarrow> string \<Rightarrow> time \<Rightarrow> interactive_state" where
  "new_state agent p rctx activity =
     \<lparr>is_agentSession = agent, is_platform = p, is_replyCtx = rctx, is_currentMessageID = [],
      is_canonicalSessionKey = [], is_stopped = False, is_pending = None, is_pendingMessages = [], is_fromVoice = False,
      is_agentSessionIdleToken = 0, is_lastActivity = activity, is_turnsInFlight = 0, is_eventsNeedResync = True,
      is_lastCompletedUserMessageTimeMs = 0, is_currentTurnUserMessageTimeMs = 0\<rparr>"

datatype notice =
    MessageQueued
  | QueueFull nat
  | QueuedMessageDropped
  | AgentQuotaExhausted
  | QueuedMessageNotRun string
  | FailedToStartAgentSession
  | PreviousProcessing
  | SessionResumeUnsafe
  | SessionSlotUnavailable
  | SessionWaitingForSlot
  | SessionCloseFailed

text \<open>
  The engine's part of the world: the states by address, the map from a conversation to its state, the mutex of that
  map, the agent processes that are alive with the session ID each reports, the active session per user key, and what
  was sent to chats and to agents.
\<close>

record turn_engine =
  te_interactiveStates :: "(string, nat) gomap"
  te_heap :: "nat \<Rightarrow> interactive_state"
  te_fresh :: nat
  te_interactiveMu :: bool
  te_alive :: "nat list"
  te_agentID :: "nat \<Rightarrow> string"
  te_active :: "(string, session) gomap"
  te_unsafeResume :: "string list"
  te_maxQueuedMessages :: int
  te_out :: "(string \<times> string \<times> notice) list"
  te_sent :: "(nat \<times> queued_message) list"

definition SetMaxQueuedMessages :: "int \<Rightarrow> turn_engine \<Rightarrow> turn_engine" where
  "SetMaxQueuedMessages n e = (if 0 < n then e\<lparr>te_maxQueuedMessages := n\<rparr> else e)"

abbreviation alive :: "turn_engine \<Rightarrow> nat option \<Rightarrow> bool" where
  "alive e ag \<equiv> (case ag of None \<Rightarrow> False | Some n \<Rightarrow> List.member (te_alive e) n)"

definition state_of :: "string \<Rightarrow> turn_engine \<Rightarrow> nat option" where
  "state_of key e = mget (te_interactiveStates e) key"

definition upd_state :: "nat \<Rightarrow> (interactive_state \<Rightarrow> interactive_state) \<Rightarrow> turn_engine \<Rightarrow> turn_engine" where
  "upd_state a f e = e\<lparr>te_heap := (te_heap e)(a := f (te_heap e a))\<rparr>"

definition put_state :: "string \<Rightarrow> interactive_state \<Rightarrow> turn_engine \<Rightarrow> turn_engine" where
  "put_state key s e = e\<lparr>te_heap := (te_heap e)(te_fresh e := s),
     te_interactiveStates := mput key (te_fresh e) (te_interactiveStates e), te_fresh := Suc (te_fresh e)\<rparr>"

definition say :: "string \<Rightarrow> string \<Rightarrow> notice \<Rightarrow> turn_engine \<Rightarrow> turn_engine" where
  "say p rctx n e = e\<lparr>te_out := te_out e @ [(p, rctx, n)]\<rparr>"

definition kill :: "nat option \<Rightarrow> turn_engine \<Rightarrow> turn_engine" where
  "kill ag e = (case ag of None \<Rightarrow> e | Some n \<Rightarrow> e\<lparr>te_alive := removeAll n (te_alive e)\<rparr>)"

section \<open>Watermarks\<close>

definition latestUserMessageWatermarkLocked :: "interactive_state \<Rightarrow> int" where
  "latestUserMessageWatermarkLocked s =
     fold (\<lambda>q wm. if qm_userMessageTimeMs q > wm then qm_userMessageTimeMs q else wm) (is_pendingMessages s)
       (if is_currentTurnUserMessageTimeMs s > is_lastCompletedUserMessageTimeMs s
        then is_currentTurnUserMessageTimeMs s else is_lastCompletedUserMessageTimeMs s)"

definition isStaleUserMessageLocked :: "interactive_state \<Rightarrow> int \<Rightarrow> bool" where
  "isStaleUserMessageLocked s timeMs =
     (if timeMs \<le> 0 then False
      else (let wm = latestUserMessageWatermarkLocked s in 0 < wm \<and> timeMs < wm))"

definition isQueuedUserMessageStaleForDrainLocked :: "interactive_state \<Rightarrow> int \<Rightarrow> bool" where
  "isQueuedUserMessageStaleForDrainLocked s timeMs =
     (if timeMs \<le> 0 then False
      else (let wm = (if is_currentTurnUserMessageTimeMs s > is_lastCompletedUserMessageTimeMs s
                      then is_currentTurnUserMessageTimeMs s else is_lastCompletedUserMessageTimeMs s)
            in 0 < wm \<and> timeMs < wm))"

datatype accept_reason = ReasonNone | Processing | Queued | Completed | ReasonUnknown

record watermark_snapshot =
  ws_maxMs :: int
  ws_completedMs :: int
  ws_inFlightMs :: int
  ws_queuedMaxMs :: int

definition userMessageWatermarkSnapshotLocked :: "interactive_state \<Rightarrow> watermark_snapshot" where
  "userMessageWatermarkSnapshotLocked s =
     \<lparr>ws_maxMs = latestUserMessageWatermarkLocked s, ws_completedMs = is_lastCompletedUserMessageTimeMs s,
      ws_inFlightMs = is_currentTurnUserMessageTimeMs s,
      ws_queuedMaxMs = fold (\<lambda>q m. if qm_userMessageTimeMs q > m then qm_userMessageTimeMs q else m) (is_pendingMessages s) 0\<rparr>"

definition acceptReason :: "watermark_snapshot \<Rightarrow> accept_reason" where
  "acceptReason w =
     (if ws_maxMs w \<le> 0 then ReasonNone
      else if ws_inFlightMs w = ws_maxMs w \<and> 0 < ws_inFlightMs w then Processing
      else if ws_queuedMaxMs w = ws_maxMs w \<and> 0 < ws_queuedMaxMs w then Queued
      else if ws_completedMs w = ws_maxMs w \<and> 0 < ws_completedMs w then Completed
      else ReasonUnknown)"

definition noteUserTurnCompleted :: "nat \<Rightarrow> turn_engine \<Rightarrow> turn_engine" where
  "noteUserTurnCompleted = (\<lambda>a. upd_state a (\<lambda>s.
     let t = is_currentTurnUserMessageTimeMs s
     in if 0 < t \<and> is_lastCompletedUserMessageTimeMs s < t then s\<lparr>is_lastCompletedUserMessageTimeMs := t\<rparr> else s))"

definition noteUserMessageAccepted :: "string \<Rightarrow> int \<Rightarrow> turn_engine \<Rightarrow> turn_engine" where
  "noteUserMessageAccepted key timeMs e =
     (if timeMs \<le> 0 then e
      else (case state_of key e of
              None \<Rightarrow> e
            | Some a \<Rightarrow> upd_state a (\<lambda>s. if is_currentTurnUserMessageTimeMs s < timeMs
                                          then s\<lparr>is_currentTurnUserMessageTimeMs := timeMs\<rparr> else s) e))"

definition discardStaleUserMessageIfNeeded :: "string \<Rightarrow> message \<Rightarrow> turn_engine \<Rightarrow> bool" where
  "discardStaleUserMessageIfNeeded key m e =
     (if m_UserMessageTimeMs m \<le> 0 then False
      else (case state_of key e of
              None \<Rightarrow> False
            | Some a \<Rightarrow> isStaleUserMessageLocked (te_heap e a) (m_UserMessageTimeMs m)))"

section \<open>The queue\<close>

definition ensureInteractiveStateForQueueing :: "string \<Rightarrow> string \<Rightarrow> string \<Rightarrow> turn_engine \<Rightarrow> turn_engine" where
  "ensureInteractiveStateForQueueing key p rctx e =
     (case state_of key e of Some a \<Rightarrow> e | None \<Rightarrow> put_state key (new_state None p rctx 0) e)"

definition queueMessageForBusySession :: "string \<Rightarrow> message \<Rightarrow> string \<Rightarrow> turn_engine \<Rightarrow> turn_engine \<times> bool" where
  "queueMessageForBusySession p m key e =
     (case state_of key e of
        None \<Rightarrow> (e, False)
      | Some a \<Rightarrow>
          let s = te_heap e a in
          if is_agentSession s \<noteq> None \<and> \<not> alive e (is_agentSession s) then (e, False)
          else if isStaleUserMessageLocked s (m_UserMessageTimeMs m) then (e, True)
          else if te_maxQueuedMessages e \<le> int (length (is_pendingMessages s))
          then (say p (m_ReplyCtx m) (QueueFull (length (is_pendingMessages s))) e, True)
          else (say p (m_ReplyCtx m) MessageQueued
                  (upd_state a (\<lambda>s. s\<lparr>is_pendingMessages := is_pendingMessages s @ [queued_of p m]\<rparr>) e), True))"

definition findCurrentMessageSession :: "string \<Rightarrow> turn_engine \<Rightarrow> string option" where
  "findCurrentMessageSession messageID e =
     map_option fst (find (\<lambda>(k, a). is_currentMessageID (te_heap e a) = messageID) (te_interactiveStates e))"

definition removeQueuedMessageByID :: "string \<Rightarrow> turn_engine \<Rightarrow> turn_engine \<times> string option" where
  "removeQueuedMessageByID messageID e =
     (case find (\<lambda>(k, a). list_ex (\<lambda>q. qm_messageID q = messageID) (is_pendingMessages (te_heap e a))) (te_interactiveStates e) of
        None \<Rightarrow> (e, None)
      | Some (k, a) \<Rightarrow>
          (upd_state a (\<lambda>s. s\<lparr>is_pendingMessages := filter (\<lambda>q. qm_messageID q \<noteq> messageID) (is_pendingMessages s)\<rparr>) e, Some k))"

text \<open>Taking the next message: stale ones at the head are dropped, and the one taken becomes the current turn.\<close>

definition drop_stale :: "interactive_state \<Rightarrow> queued_message list \<times> queued_message list" where
  "drop_stale s =
     (takeWhile (\<lambda>q. isQueuedUserMessageStaleForDrainLocked s (qm_userMessageTimeMs q)) (is_pendingMessages s),
      dropWhile (\<lambda>q. isQueuedUserMessageStaleForDrainLocked s (qm_userMessageTimeMs q)) (is_pendingMessages s))"

definition begin_queued :: "queued_message \<Rightarrow> queued_message list \<Rightarrow> interactive_state \<Rightarrow> interactive_state" where
  "begin_queued q rest s =
     s\<lparr>is_pendingMessages := rest, is_platform := qm_platform q, is_replyCtx := qm_replyCtx q,
       is_currentMessageID := qm_messageID q, is_fromVoice := qm_fromVoice q,
       is_currentTurnUserMessageTimeMs := qm_userMessageTimeMs q\<rparr>"

definition take_next :: "nat \<Rightarrow> turn_engine \<Rightarrow> turn_engine \<times> queued_message option" where
  "take_next a e =
     (case snd (drop_stale (te_heap e a)) of
        [] \<Rightarrow> (upd_state a (\<lambda>s. s\<lparr>is_pendingMessages := []\<rparr>) e, None)
      | q # rest \<Rightarrow> (upd_state a (begin_queued q rest) e, Some q))"

definition adoptPendingFromPlaceholder :: "nat option \<Rightarrow> interactive_state \<Rightarrow> turn_engine \<Rightarrow> turn_engine \<times> interactive_state" where
  "adoptPendingFromPlaceholder existing newState e =
     (case existing of
        None \<Rightarrow> (e, newState)
      | Some a \<Rightarrow>
          if is_pendingMessages (te_heap e a) \<noteq> []
          then (upd_state a (\<lambda>s. s\<lparr>is_pendingMessages := []\<rparr>) e,
                newState\<lparr>is_pendingMessages := is_pendingMessages (te_heap e a)\<rparr>)
          else (e, newState))"

definition drop_text :: "error_kind \<Rightarrow> notice" where
  "drop_text kind = (if kind = ErrorKindQuota then AgentQuotaExhausted else QueuedMessageDropped)"

definition notifyDroppedQueuedMessages :: "error_kind \<Rightarrow> nat \<Rightarrow> turn_engine \<Rightarrow> turn_engine" where
  "notifyDroppedQueuedMessages kind a e =
     fold (\<lambda>q. say (qm_platform q) (qm_replyCtx q) (drop_text kind)) (is_pendingMessages (te_heap e a))
       (upd_state a (\<lambda>s. s\<lparr>is_pendingMessages := []\<rparr>) e)"

text \<open>\<open>truncateIf\<close>, and the preview of a message that was not run (U+1F4CE when there is no text).\<close>

definition truncateIf :: "string \<Rightarrow> int \<Rightarrow> string" where
  "truncateIf s maxLen =
     (if maxLen \<le> 0 then s
      else if int (length (runes s)) \<le> maxLen then s
      else rune_prefix (nat maxLen) s @ ''...'')"

definition queue_preview :: "queued_message \<Rightarrow> string" where
  "queue_preview q =
     (let preview = join '' '' (GoStrings.fields (qm_content q))
      in truncateIf (if preview = [] then of_runes [0x1F4CE] else preview) 80)"

definition notifyStoppedQueuedMessages :: "nat \<Rightarrow> turn_engine \<Rightarrow> turn_engine" where
  "notifyStoppedQueuedMessages a e =
     fold (\<lambda>q. say (qm_platform q) (qm_replyCtx q) (QueuedMessageNotRun (queue_preview q))) (is_pendingMessages (te_heap e a))
       (upd_state a (\<lambda>s. s\<lparr>is_pendingMessages := []\<rparr>) e)"

end
