(* ===== verification/TurnLifecycle.thy ===== *)
theory TurnLifecycle
  imports InteractiveState
begin

text \<open>
  Starting, stopping and cleaning up the agent behind a conversation, and the bookkeeping of turns
  (\<open>src/core/engine.go\<close>, \<open>src/core/live_sessions.go\<close>). Starting an agent process and its answers are inputs.
\<close>

section \<open>Stopping\<close>

definition markStopped :: "nat \<Rightarrow> turn_engine \<Rightarrow> turn_engine" where
  "markStopped = (\<lambda>a. upd_state a (\<lambda>s. s\<lparr>is_stopped := True\<rparr>))"

definition consumeUnsafeResume :: "string \<Rightarrow> turn_engine \<Rightarrow> turn_engine \<times> bool" where
  "consumeUnsafeResume key e =
     (if key = [] \<or> \<not> List.member (te_unsafeResume e) key then (e, False)
      else (e\<lparr>te_unsafeResume := removeAll key (te_unsafeResume e)\<rparr>, True))"

definition markUnsafeResume :: "string \<Rightarrow> turn_engine \<Rightarrow> turn_engine" where
  "markUnsafeResume key e =
     (if key = [] then e else e\<lparr>te_unsafeResume := List.insert key (te_unsafeResume e)\<rparr>)"

text \<open>
  The end of an agent process: \<open>confirmed\<close> tells whether \<open>Close\<close> returned in time without a kill failure. When it
  did not, the process may live on, the chat is told, and the next start must not resume its session.
\<close>

definition closeAgentSession :: "string \<Rightarrow> nat option \<Rightarrow> string \<Rightarrow> string \<Rightarrow> bool \<Rightarrow> turn_engine \<Rightarrow> turn_engine" where
  "closeAgentSession key ag p rctx confirmed e =
     (if ag = None then e
      else if confirmed then kill ag e
      else say p rctx SessionCloseFailed (markUnsafeResume key e))"

definition close_state :: "string \<Rightarrow> interactive_state \<Rightarrow> bool \<Rightarrow> turn_engine \<Rightarrow> turn_engine" where
  "close_state key s confirmed = closeAgentSession key (is_agentSession s) (is_platform s) (is_replyCtx s) confirmed"

definition forget_state :: "string \<Rightarrow> turn_engine \<Rightarrow> turn_engine" where
  "forget_state key e = e\<lparr>te_interactiveStates := mdel key (te_interactiveStates e)\<rparr>"

text \<open>
  \<open>cleanupInteractiveState\<close>: with an expected state it does nothing when the map holds another one. The agent is
  taken out of the state first, queued messages are reported as dropped, and the entry goes last.
\<close>

definition cleanupInteractiveState :: "string \<Rightarrow> nat option \<Rightarrow> bool \<Rightarrow> turn_engine \<Rightarrow> turn_engine" where
  "cleanupInteractiveState key expected confirmed e =
     (case state_of key e of
        None \<Rightarrow> e
      | Some a \<Rightarrow>
          if expected \<noteq> None \<and> expected \<noteq> Some a then e
          else (let e1 = upd_state a (\<lambda>s. s\<lparr>is_agentSession := None\<rparr>) e;
                    e2 = markStopped a e1;
                    e3 = upd_state a (\<lambda>s. s\<lparr>is_pending := None\<rparr>) e2;
                    e4 = notifyDroppedQueuedMessages ErrorKindUnknown a e3;
                    e5 = close_state key (te_heap e a) confirmed e4
                in forget_state key e5))"

text \<open>
  The mutex of the map of states: a second \<open>Unlock\<close> is a fatal error of the runtime that no handler can recover,
  the value \<open>None\<close>.
\<close>

definition mu_lock :: "turn_engine \<Rightarrow> turn_engine" where
  "mu_lock e = e\<lparr>te_interactiveMu := True\<rparr>"

definition mu_unlock :: "turn_engine \<Rightarrow> turn_engine option" where
  "mu_unlock e = (if te_interactiveMu e then Some (e\<lparr>te_interactiveMu := False\<rparr>) else None)"

definition clear_queue :: "bool \<Rightarrow> nat \<Rightarrow> turn_engine \<Rightarrow> turn_engine" where
  "clear_queue notifyQueued a e =
     (if notifyQueued then notifyStoppedQueuedMessages a e else upd_state a (\<lambda>s. s\<lparr>is_pendingMessages := []\<rparr>) e)"

definition normal_cleanup :: "string \<Rightarrow> bool \<Rightarrow> interactive_state \<Rightarrow> bool \<Rightarrow> nat \<Rightarrow> turn_engine \<Rightarrow> turn_engine option" where
  "normal_cleanup key notifyQueued s confirmed a e =
     (case mu_unlock (forget_state key (markStopped a e)) of
        None \<Rightarrow> None
      | Some e' \<Rightarrow> Some (close_state key s confirmed (clear_queue notifyQueued a e')))"

text \<open>
  \<open>cancel n\<close> is \<open>None\<close> when the agent session \<open>n\<close> has no \<open>CancelTurn\<close>, else whether \<open>CancelTurn\<close> succeeds.
\<close>

definition stopInteractiveSessionWithOptions ::
    "(nat \<Rightarrow> bool option) \<Rightarrow> bool \<Rightarrow> string \<Rightarrow> bool \<Rightarrow> turn_engine \<Rightarrow> (turn_engine \<times> bool) option" where
  "stopInteractiveSessionWithOptions cancel confirmed key notifyQueued e0 =
     (let e = mu_lock e0 in
      case state_of key e of
        None \<Rightarrow> map_option (\<lambda>e'. (e', False)) (mu_unlock e)
      | Some a \<Rightarrow>
          let ag = is_agentSession (te_heap e a);
              e1 = upd_state a (\<lambda>s. s\<lparr>is_pending := None\<rparr>) e
          in (case (case ag of None \<Rightarrow> None | Some n \<Rightarrow> cancel n) of
                None \<Rightarrow> map_option (\<lambda>e'. (e', True)) (normal_cleanup key notifyQueued (te_heap e a) confirmed a e1)
              | Some ok \<Rightarrow>
                  (case mu_unlock e1 of
                     None \<Rightarrow> None
                   | Some e2 \<Rightarrow>
                       let e3 = upd_state a (\<lambda>s. s\<lparr>is_eventsNeedResync := True\<rparr>) (clear_queue notifyQueued a e2)
                       in if ok then Some (e3, True)
                          else map_option (\<lambda>e'. (e', True)) (normal_cleanup key notifyQueued (te_heap e a) confirmed a e3))))"

section \<open>Starting\<close>

definition set_active :: "string \<Rightarrow> session \<Rightarrow> turn_engine \<Rightarrow> turn_engine" where
  "set_active sk s e = e\<lparr>te_active := mput sk s (te_active e)\<rparr>"

definition upd_session :: "string \<Rightarrow> (session \<Rightarrow> session) \<Rightarrow> turn_engine \<Rightarrow> turn_engine" where
  "upd_session sk f e = e\<lparr>te_active := madj sk f (te_active e)\<rparr>"

text \<open>A state without an agent, which adopts the queue of the one it replaces.\<close>

definition install :: "string \<Rightarrow> interactive_state \<Rightarrow> turn_engine \<Rightarrow> turn_engine \<times> nat" where
  "install key s e =
     (let (e1, s1) = adoptPendingFromPlaceholder (state_of key e) s e in (put_state key s1 e1, te_fresh e1))"

text \<open>
  The surroundings of a start: whether a slot for a live session was reserved, whether an earlier teardown has
  settled, whether the engine is shutting down, whether a process closed on the way was confirmed dead, the agent's
  type, whether it accepts a saved session ID, and how starting with a session ID turns out.
\<close>

record start_env =
  se_slot :: bool
  se_closeSettled :: bool
  se_ctxDone :: bool
  se_confirmed :: bool
  se_atype :: string
  se_valid :: "string \<Rightarrow> bool"
  se_start :: "string \<Rightarrow> nat option"

text \<open>The session ID to resume: dropped when the agent rejects it or when its last process may still be alive.\<close>

definition resume_id :: "start_env \<Rightarrow> string \<Rightarrow> string \<Rightarrow> string \<Rightarrow> string \<Rightarrow> turn_engine \<Rightarrow> turn_engine \<times> string" where
  "resume_id env key p rctx sk e =
     (let wantID = (case mget (te_active e) sk of Some s \<Rightarrow> s_AgentSessionID s | None \<Rightarrow> []);
          drop_id = upd_session sk (SetAgentSessionID [] (se_atype env));
          (e2, id2) = (if wantID \<noteq> [] \<and> \<not> se_valid env wantID then (drop_id e, []) else (e, wantID));
          (e3, unsafe) = (if id2 = [] then (e2, False)
                          else if \<not> se_closeSettled env then (e2, True) else consumeUnsafeResume key e2)
      in if unsafe then (say p rctx SessionResumeUnsafe (drop_id e3), []) else (e3, id2))"

text \<open>Starting with that ID, and without one when resuming fails.\<close>

definition start_session :: "start_env \<Rightarrow> string \<Rightarrow> string \<Rightarrow> turn_engine \<Rightarrow> turn_engine \<times> nat option" where
  "start_session env sk sid e =
     (case se_start env sid of
        Some n \<Rightarrow> (e, Some n)
      | None \<Rightarrow> if sid = [] then (e, None)
                else (upd_session sk (SetAgentSessionID [] (se_atype env)) e, se_start env []))"

definition track_session_id :: "string \<Rightarrow> string \<Rightarrow> nat \<Rightarrow> turn_engine \<Rightarrow> turn_engine" where
  "track_session_id atype sk n e =
     (let newID = te_agentID e n
      in if newID = [] then e
         else upd_session sk (\<lambda>s. if s_AgentSessionID s \<noteq> newID then SetAgentSessionID newID atype s else s) e)"

definition spawn :: "start_env \<Rightarrow> time \<Rightarrow> string \<Rightarrow> string \<Rightarrow> string \<Rightarrow> string \<Rightarrow> turn_engine \<Rightarrow> turn_engine \<times> nat" where
  "spawn env now key p rctx sk e =
     (if se_ctxDone env then install key (new_state None p rctx 0) e
      else (let (e1, sid) = resume_id env key p rctx sk e;
                (e2, ag) = start_session env sk sid e1
            in case ag of
                 None \<Rightarrow> install key (new_state None p rctx 0) e2
               | Some n \<Rightarrow>
                   (let e3 = track_session_id (se_atype env) sk n e2
                    in install key (new_state (Some n) p rctx now) (e3\<lparr>te_alive := List.insert n (te_alive e3)\<rparr>))))"

text \<open>The running agent serves another agent session than the active one.\<close>

definition mismatch :: "string \<Rightarrow> nat \<Rightarrow> turn_engine \<Rightarrow> bool" where
  "mismatch sk n e =
     (let wantID = (case mget (te_active e) sk of Some s \<Rightarrow> s_AgentSessionID s | None \<Rightarrow> [])
      in te_agentID e n \<noteq> [] \<and> (wantID = [] \<or> wantID \<noteq> te_agentID e n))"

definition getOrCreateInteractiveStateWith ::
    "start_env \<Rightarrow> time \<Rightarrow> string \<Rightarrow> string \<Rightarrow> string \<Rightarrow> string \<Rightarrow> turn_engine \<Rightarrow> turn_engine \<times> nat" where
  "getOrCreateInteractiveStateWith env now key p rctx sk e0 =
     (let e = (if se_slot env then e0 else say p rctx SessionSlotUnavailable e0)
      in case state_of key e of
           Some a \<Rightarrow>
             (case is_agentSession (te_heap e a) of
                Some n \<Rightarrow>
                  if \<not> alive e (Some n) then
                    (if se_slot env then spawn env now key p rctx sk e else install key (new_state None p rctx 0) e)
                  else if \<not> se_slot env \<or> \<not> mismatch sk n e then (e, a)
                  else spawn env now key p rctx sk
                         (forget_state key (close_state key (te_heap e a) (se_confirmed env) (markStopped a e)))
              | None \<Rightarrow> if se_slot env then spawn env now key p rctx sk e else install key (new_state None p rctx 0) e)
         | None \<Rightarrow> if se_slot env then spawn env now key p rctx sk e else install key (new_state None p rctx 0) e)"

text \<open>
  Between two attempts of a turn that failed with a retriable error, the state is stopped, its agent closed and its
  entry removed, before the next one is created.
\<close>

definition recycle_for_retry :: "string \<Rightarrow> bool \<Rightarrow> nat \<Rightarrow> turn_engine \<Rightarrow> turn_engine" where
  "recycle_for_retry key confirmed a e =
     (if state_of key e = Some a then
        forget_state key (close_state key (te_heap e a) confirmed (markStopped a e))
      else e)"

text \<open>What a turn writes into its state when it starts (\<open>processInteractiveMessageWith\<close>).\<close>

definition begin_turn :: "string \<Rightarrow> message \<Rightarrow> interactive_state \<Rightarrow> interactive_state" where
  "begin_turn p m s = s\<lparr>is_platform := p, is_replyCtx := m_ReplyCtx m, is_currentMessageID := m_MessageID m,
     is_currentTurnUserMessageTimeMs := m_UserMessageTimeMs m, is_canonicalSessionKey := m_SessionKey m\<rparr>"

section \<open>Live sessions of an engine\<close>

definition beginStateTurn :: "time \<Rightarrow> interactive_state \<Rightarrow> interactive_state" where
  "beginStateTurn now s = s\<lparr>is_turnsInFlight := is_turnsInFlight s + 1, is_lastActivity := now\<rparr>"

definition endStateTurn :: "time \<Rightarrow> interactive_state \<Rightarrow> interactive_state" where
  "endStateTurn now s = s\<lparr>is_turnsInFlight := is_turnsInFlight s - 1, is_lastActivity := now\<rparr>"

definition stateIsLiveLocked :: "turn_engine \<Rightarrow> interactive_state \<Rightarrow> bool" where
  "stateIsLiveLocked e s \<longleftrightarrow> is_agentSession s \<noteq> None \<and> alive e (is_agentSession s) \<and> \<not> is_stopped s"

definition byKey :: "string \<Rightarrow> turn_engine \<Rightarrow> session option" where
  "byKey sk e = mget (te_active e) sk"

definition stateIsBusyLocked :: "turn_engine \<Rightarrow> interactive_state \<Rightarrow> bool" where
  "stateIsBusyLocked e s \<longleftrightarrow>
     (if 0 < is_turnsInFlight s \<or> is_eventsNeedResync s \<or> is_pending s \<noteq> None \<or> is_pendingMessages s \<noteq> [] then True
      else if is_canonicalSessionKey s \<noteq> []
           then (case byKey (is_canonicalSessionKey s) e of Some sess \<Rightarrow> Busy sess | None \<Rightarrow> False)
           else False)"

definition liveSessionCount :: "turn_engine \<Rightarrow> nat" where
  "liveSessionCount e = length (filter (\<lambda>(k, a). stateIsLiveLocked e (te_heap e a)) (te_interactiveStates e))"

definition isLiveSession :: "string \<Rightarrow> turn_engine \<Rightarrow> bool" where
  "isLiveSession key e = (case state_of key e of Some a \<Rightarrow> stateIsLiveLocked e (te_heap e a) | None \<Rightarrow> False)"

record eviction_candidate =
  ec_engine :: nat
  ec_key :: string
  ec_state :: nat
  ec_token :: nat
  ec_lastActivity :: time

definition idleEvictionCandidates :: "nat \<Rightarrow> string \<Rightarrow> turn_engine \<Rightarrow> eviction_candidate list" where
  "idleEvictionCandidates i skipKey e =
     map (\<lambda>(k, a). \<lparr>ec_engine = i, ec_key = k, ec_state = a, ec_token = is_agentSessionIdleToken (te_heap e a),
                    ec_lastActivity = is_lastActivity (te_heap e a)\<rparr>)
       (filter (\<lambda>(k, a). k \<noteq> skipKey \<and> stateIsLiveLocked e (te_heap e a) \<and> \<not> stateIsBusyLocked e (te_heap e a))
          (te_interactiveStates e))"

definition closeIdleInteractiveState :: "string \<Rightarrow> nat \<Rightarrow> nat \<Rightarrow> bool \<Rightarrow> turn_engine \<Rightarrow> turn_engine \<times> bool" where
  "closeIdleInteractiveState key expected token confirmed e =
     (case state_of key e of
        None \<Rightarrow> (e, False)
      | Some a \<Rightarrow>
          let s = te_heap e a in
          if a \<noteq> expected then (e, False)
          else if is_agentSessionIdleToken s \<noteq> token \<or> is_agentSession s = None \<or> \<not> alive e (is_agentSession s) \<or>
                  is_stopped s \<or> stateIsBusyLocked e s then (e, False)
          else (let e1 = upd_state a (\<lambda>s. s\<lparr>is_agentSession := None, is_agentSessionIdleToken := 0\<rparr>) e;
                    e2 = markStopped a e1;
                    e3 = upd_state a (\<lambda>s. s\<lparr>is_pending := None\<rparr>) e2;
                    e4 = notifyDroppedQueuedMessages ErrorKindUnknown a e3;
                    e5 = close_state key s confirmed e4
                in (if state_of key e5 = Some expected then forget_state key e5 else e5, True)))"

end
