(* ===== verification/TurnProtocol.thy ===== *)
theory TurnProtocol
  imports TurnLifecycle "HOL-Library.Multiset"
begin

text \<open>
  One conversation under concurrent messages: the handlers of incoming messages (the end of \<open>handleMessage\<close>), the
  one goroutine that holds the session's turn lock (\<open>processInteractiveMessageWith\<close>, the queue handling of
  \<open>processInteractiveEvents\<close>, \<open>drainPendingMessages\<close>, \<open>drainOrphanedQueue\<close>), the agent process, recalls and /stop. A
  step is one critical section of the code; a run is any interleaving of steps. \<open>K\<close> is the conversation (the
  interactive key) and \<open>U\<close> the user key of its session. Rendering, history files and telemetry are left out.
\<close>

text \<open>Where a handler stands that found the session busy, and where the holder of the turn lock stands.\<close>

datatype handler = Queueing string message | Retrying

datatype holder =
    Idle
  | Starting string message
  | Turn "(string \<times> message) option" nat   (* the message a retry repeats, if any; the state *)
  | Draining nat
  | Checking nat queued_message
  | Orphan
  | Leaving

text \<open>The logs are not part of the program: accepted into the queue, taken out for a turn, and given up.\<close>

record conf =
  tc_eng :: turn_engine
  tc_handlers :: "handler list"
  tc_holder :: holder
  tc_accepted :: "queued_message list"
  tc_taken :: "queued_message list"
  tc_gone :: "queued_message list"

datatype label =
    Arrive string message time
  | Enqueue nat
  | Relock nat
  | Start start_env time
  | Result time
  | Quit
  | Fail error_kind
  | Closed bool
  | Recycle bool start_env time
  | Drain time
  | Check time
  | Leave time
  | OrphanLook
  | Die nat
  | Recall string
  | Stop "nat \<Rightarrow> bool option" bool bool

definition try_lock :: "string \<Rightarrow> turn_engine \<Rightarrow> turn_engine \<times> bool" where
  "try_lock U e =
     (case mget (te_active e) U of
        None \<Rightarrow> (e, False)
      | Some s \<Rightarrow> (upd_session U (\<lambda>s. fst (TryLock s)) e, snd (TryLock s)))"

definition unlock_session :: "string \<Rightarrow> time \<Rightarrow> turn_engine \<Rightarrow> turn_engine" where
  "unlock_session U now = upd_session U (Unlock now)"

definition send_agent :: "nat \<Rightarrow> queued_message \<Rightarrow> turn_engine \<Rightarrow> turn_engine" where
  "send_agent a q e = (case is_agentSession (te_heap e a) of None \<Rightarrow> e | Some n \<Rightarrow> e\<lparr>te_sent := te_sent e @ [(n, q)]\<rparr>)"

definition user_history :: "string \<Rightarrow> time \<Rightarrow> string \<Rightarrow> turn_engine \<Rightarrow> turn_engine" where
  "user_history U now content = upd_session U (AddHistory now ''user'' content)"

definition queue_at :: "turn_engine \<Rightarrow> nat \<Rightarrow> queued_message list" where
  "queue_at e a = is_pendingMessages (te_heap e a)"

text \<open>The end of \<open>handleMessage\<close>, from the staleness check to the start of the processor.\<close>

definition arrive :: "string \<Rightarrow> string \<Rightarrow> string \<Rightarrow> message \<Rightarrow> time \<Rightarrow> conf \<Rightarrow> conf" where
  "arrive K U p m now c =
     (if discardStaleUserMessageIfNeeded K m (tc_eng c) then c
      else let (e, ok) = try_lock U (ensureInteractiveStateForQueueing K p (m_ReplyCtx m) (tc_eng c))
           in if ok
              then c\<lparr>tc_eng := noteUserMessageAccepted K (m_UserMessageTimeMs m)
                                 (ensureInteractiveStateForQueueing K p (m_ReplyCtx m) (upd_session U (TouchUserActivity now) e)),
                     tc_holder := Starting p m\<rparr>
              else c\<lparr>tc_eng := e, tc_handlers := tc_handlers c @ [Queueing p m]\<rparr>)"

definition enqueue :: "string \<Rightarrow> nat \<Rightarrow> string \<Rightarrow> message \<Rightarrow> conf \<Rightarrow> conf" where
  "enqueue K i p m c =
     (let (e, ok) = queueMessageForBusySession p m K (tc_eng c);
          grown = (case state_of K (tc_eng c) of None \<Rightarrow> False | Some a \<Rightarrow> length (queue_at (tc_eng c) a) < length (queue_at e a))
      in if ok then c\<lparr>tc_eng := e, tc_handlers := (tc_handlers c)[i := Retrying],
                      tc_accepted := tc_accepted c @ (if grown then [queued_of p m] else [])\<rparr>
         else c\<lparr>tc_eng := say p (m_ReplyCtx m) PreviousProcessing e,
                tc_handlers := take i (tc_handlers c) @ drop (Suc i) (tc_handlers c)\<rparr>)"

definition relock :: "string \<Rightarrow> nat \<Rightarrow> conf \<Rightarrow> conf" where
  "relock U i c =
     (let (e, ok) = try_lock U (tc_eng c);
          c' = c\<lparr>tc_eng := e, tc_handlers := take i (tc_handlers c) @ drop (Suc i) (tc_handlers c)\<rparr>
      in if ok then c'\<lparr>tc_holder := Orphan\<rparr> else c')"

text \<open>The state a turn runs on, once an attempt has (re)created it.\<close>

definition enter_turn :: "string \<Rightarrow> message \<Rightarrow> nat \<Rightarrow> turn_engine \<Rightarrow> conf \<Rightarrow> conf" where
  "enter_turn p m a e c =
     (if is_agentSession (te_heap e a) = None
      then c\<lparr>tc_eng := say p (m_ReplyCtx m) FailedToStartAgentSession e, tc_holder := Leaving\<rparr>
      else c\<lparr>tc_eng := send_agent a (queued_of p m) (upd_state a (\<lambda>s. s\<lparr>is_currentMessageID := m_MessageID m, is_fromVoice := m_FromVoice m\<rparr>) e),
             tc_holder := Turn (Some (p, m)) a\<rparr>)"

definition start_turn :: "string \<Rightarrow> string \<Rightarrow> start_env \<Rightarrow> time \<Rightarrow> string \<Rightarrow> message \<Rightarrow> conf \<Rightarrow> conf" where
  "start_turn K U env now p m c =
     (let (e, a) = getOrCreateInteractiveStateWith env now K p (m_ReplyCtx m) U (user_history U now (m_Content m) (tc_eng c))
      in enter_turn p m a (upd_state a (begin_turn p m) e) c)"

text \<open>A result of the agent: the turn is complete, and the next queued message goes to the same agent.\<close>

definition turn_result :: "string \<Rightarrow> time \<Rightarrow> (string \<times> message) option \<Rightarrow> nat \<Rightarrow> conf \<Rightarrow> conf" where
  "turn_result U now r a c =
     (let e0 = upd_state a (\<lambda>s. s\<lparr>is_eventsNeedResync := False\<rparr>) (noteUserTurnCompleted a (tc_eng c));
          stale = fst (drop_stale (te_heap e0 a));
          (e, nq) = take_next a e0
      in (case nq of
            None \<Rightarrow> c\<lparr>tc_eng := e, tc_holder := Draining a, tc_gone := tc_gone c @ stale\<rparr>
          | Some q \<Rightarrow> c\<lparr>tc_eng := user_history U now (qm_content q) (send_agent a q e), tc_holder := Turn r a,
                        tc_taken := tc_taken c @ [q], tc_gone := tc_gone c @ stale\<rparr>))"

text \<open>An error event: a dead agent's queue is given up.\<close>

definition turn_fail :: "error_kind \<Rightarrow> nat \<Rightarrow> conf \<Rightarrow> conf" where
  "turn_fail kind a c =
     (let e = upd_state a (\<lambda>s. s\<lparr>is_eventsNeedResync := True\<rparr>) (tc_eng c)
      in if alive e (is_agentSession (te_heap e a)) then c\<lparr>tc_eng := e, tc_holder := Draining a\<rparr>
         else c\<lparr>tc_eng := notifyDroppedQueuedMessages kind a e, tc_holder := Draining a, tc_gone := tc_gone c @ queue_at e a\<rparr>)"

text \<open>The agent's event channel is closed, or a timeout ends the turn: the queue is given up and the state cleaned up.\<close>

definition turn_closed :: "string \<Rightarrow> bool \<Rightarrow> nat \<Rightarrow> conf \<Rightarrow> conf" where
  "turn_closed K confirmed a c =
     (let e = upd_state a (\<lambda>s. s\<lparr>is_eventsNeedResync := True\<rparr>) (tc_eng c)
      in c\<lparr>tc_eng := cleanupInteractiveState K (Some a) confirmed (notifyDroppedQueuedMessages ErrorKindUnknown a e),
           tc_holder := Draining a, tc_gone := tc_gone c @ queue_at e a\<rparr>)"

text \<open>A retriable error: the agent is recycled and the prompt of the message the loop was entered with is sent again.\<close>

definition turn_recycle :: "string \<Rightarrow> string \<Rightarrow> bool \<Rightarrow> start_env \<Rightarrow> time \<Rightarrow> string \<Rightarrow> message \<Rightarrow> nat \<Rightarrow> conf \<Rightarrow> conf" where
  "turn_recycle K U confirmed env now p m a c =
     (let (e, a') = getOrCreateInteractiveStateWith env now K p (m_ReplyCtx m) U (recycle_for_retry K confirmed a (tc_eng c))
      in enter_turn p m a' e c)"

definition drain_step :: "string \<Rightarrow> time \<Rightarrow> nat \<Rightarrow> conf \<Rightarrow> conf" where
  "drain_step U now a c =
     (let stale = fst (drop_stale (te_heap (tc_eng c) a)); (e, nq) = take_next a (tc_eng c)
      in (case nq of
            None \<Rightarrow> c\<lparr>tc_eng := unlock_session U now e, tc_holder := Idle, tc_gone := tc_gone c @ stale\<rparr>
          | Some q \<Rightarrow> c\<lparr>tc_eng := e, tc_holder := Checking a q, tc_gone := tc_gone c @ stale\<rparr>))"

definition check_step :: "string \<Rightarrow> time \<Rightarrow> nat \<Rightarrow> queued_message \<Rightarrow> conf \<Rightarrow> conf" where
  "check_step U now a q c =
     (let e = tc_eng c
      in if alive e (is_agentSession (te_heap e a))
         then c\<lparr>tc_eng := send_agent a q (user_history U now (qm_content q) e), tc_holder := Turn None a,
                tc_taken := tc_taken c @ [q]\<rparr>
         else c\<lparr>tc_eng := notifyDroppedQueuedMessages ErrorKindUnknown a (say (qm_platform q) (qm_replyCtx q) QueuedMessageDropped e),
                tc_holder := Leaving, tc_gone := tc_gone c @ [q] @ queue_at e a\<rparr>)"

definition orphan_look :: "string \<Rightarrow> conf \<Rightarrow> conf" where
  "orphan_look K c =
     (let e = tc_eng c
      in case state_of K e of
           None \<Rightarrow> c\<lparr>tc_holder := Leaving\<rparr>
         | Some a \<Rightarrow>
             if alive e (is_agentSession (te_heap e a)) then c\<lparr>tc_holder := Draining a\<rparr>
             else c\<lparr>tc_eng := notifyDroppedQueuedMessages ErrorKindUnknown a e, tc_holder := Leaving, tc_gone := tc_gone c @ queue_at e a\<rparr>)"

definition recall_step :: "string \<Rightarrow> conf \<Rightarrow> conf" where
  "recall_step i c =
     (let (e, k) = removeQueuedMessageByID i (tc_eng c)
      in (case k of
            None \<Rightarrow> c
          | Some k \<Rightarrow> c\<lparr>tc_eng := e, tc_gone := tc_gone c @
              filter (\<lambda>q. qm_messageID q = i) (queue_at (tc_eng c) (the (state_of k (tc_eng c))))\<rparr>))"

definition stop_step :: "string \<Rightarrow> (nat \<Rightarrow> bool option) \<Rightarrow> bool \<Rightarrow> bool \<Rightarrow> conf \<Rightarrow> conf option" where
  "stop_step K cancel confirmed notify c =
     (case stopInteractiveSessionWithOptions cancel confirmed K notify (tc_eng c) of
        None \<Rightarrow> None
      | Some (e, _) \<Rightarrow> Some (c\<lparr>tc_eng := e, tc_gone := tc_gone c @
            (case state_of K (tc_eng c) of None \<Rightarrow> [] | Some a \<Rightarrow> queue_at (tc_eng c) a)\<rparr>))"

text \<open>A step: \<open>None\<close> when it is not enabled.\<close>

definition turn_step :: "string \<Rightarrow> string \<Rightarrow> label \<Rightarrow> conf \<Rightarrow> conf option" where
  "turn_step K U l c =
     (case l of
        Arrive p m now \<Rightarrow> Some (arrive K U p m now c)
      | Enqueue i \<Rightarrow> (if i < length (tc_handlers c) then
            (case tc_handlers c ! i of Queueing p m \<Rightarrow> Some (enqueue K i p m c) | Retrying \<Rightarrow> None) else None)
      | Relock i \<Rightarrow> (if i < length (tc_handlers c) then
            (case tc_handlers c ! i of Retrying \<Rightarrow> Some (relock U i c) | Queueing p m \<Rightarrow> None) else None)
      | Start env now \<Rightarrow> (case tc_holder c of Starting p m \<Rightarrow> Some (start_turn K U env now p m c) | _ \<Rightarrow> None)
      | Result now \<Rightarrow> (case tc_holder c of Turn r a \<Rightarrow> Some (turn_result U now r a c) | _ \<Rightarrow> None)
      | Quit \<Rightarrow> (case tc_holder c of Turn r a \<Rightarrow> Some (c\<lparr>tc_holder := Draining a\<rparr>) | _ \<Rightarrow> None)
      | Fail kind \<Rightarrow> (case tc_holder c of Turn r a \<Rightarrow> Some (turn_fail kind a c) | _ \<Rightarrow> None)
      | Closed confirmed \<Rightarrow> (case tc_holder c of Turn r a \<Rightarrow> Some (turn_closed K confirmed a c) | _ \<Rightarrow> None)
      | Recycle confirmed env now \<Rightarrow> (case tc_holder c of
            Turn (Some (p, m)) a \<Rightarrow> Some (turn_recycle K U confirmed env now p m a c) | _ \<Rightarrow> None)
      | Drain now \<Rightarrow> (case tc_holder c of Draining a \<Rightarrow> Some (drain_step U now a c) | _ \<Rightarrow> None)
      | Check now \<Rightarrow> (case tc_holder c of Checking a q \<Rightarrow> Some (check_step U now a q c) | _ \<Rightarrow> None)
      | Leave now \<Rightarrow> (case tc_holder c of Leaving \<Rightarrow> Some (c\<lparr>tc_eng := unlock_session U now (tc_eng c), tc_holder := Idle\<rparr>) | _ \<Rightarrow> None)
      | OrphanLook \<Rightarrow> (case tc_holder c of Orphan \<Rightarrow> Some (orphan_look K c) | _ \<Rightarrow> None)
      | Die n \<Rightarrow> Some (c\<lparr>tc_eng := kill (Some n) (tc_eng c)\<rparr>)
      | Recall i \<Rightarrow> Some (recall_step i c)
      | Stop cancel confirmed notify \<Rightarrow> stop_step K cancel confirmed notify c)"

text \<open>A conversation before its first message, and the configurations runs reach with steps that \<open>P\<close> allows.\<close>

definition init_conf :: "string \<Rightarrow> turn_engine \<Rightarrow> bool" where
  "init_conf U e \<longleftrightarrow> te_interactiveStates e = [] \<and> te_fresh e = 0 \<and> \<not> te_interactiveMu e \<and> 0 < te_maxQueuedMessages e
     \<and> (\<exists>s. mget (te_active e) U = Some s \<and> \<not> s_busy s)"

definition start_conf :: "turn_engine \<Rightarrow> conf" where
  "start_conf e = \<lparr>tc_eng = e, tc_handlers = [], tc_holder = Idle, tc_accepted = [], tc_taken = [], tc_gone = []\<rparr>"

inductive turn_reach :: "string \<Rightarrow> string \<Rightarrow> (label \<Rightarrow> conf \<Rightarrow> bool) \<Rightarrow> conf \<Rightarrow> bool" for K U P where
  init: "init_conf U e \<Longrightarrow> turn_reach K U P (start_conf e)"
| step: "turn_reach K U P c \<Longrightarrow> P l c \<Longrightarrow> turn_step K U l c = Some c' \<Longrightarrow> turn_reach K U P c'"

end
