(* ===== verification/TurnInvariant.thy ===== *)
theory TurnInvariant
  imports TurnProtocol
begin

text \<open>
  The invariant of the turn protocol: which addresses exist, who holds the turn lock, how long queues are, and where
  every accepted message is. One lemma per operation of the engine, then one per step.
\<close>

section \<open>What the invariant sees of an engine\<close>

definition queued :: "turn_engine \<Rightarrow> queued_message multiset" where
  "queued e = mset (concat (map (queue_at e) [0..<te_fresh e]))"

definition locked :: "string \<Rightarrow> turn_engine \<Rightarrow> bool option" where
  "locked U e = map_option s_busy (mget (te_active e) U)"

definition eng_ok :: "string \<Rightarrow> turn_engine \<Rightarrow> bool" where
  "eng_ok K e \<longleftrightarrow> (te_interactiveStates e = [] \<or> (\<exists>a < te_fresh e. te_interactiveStates e = [(K, a)]))
     \<and> 0 < te_maxQueuedMessages e \<and> (\<forall>a. int (length (queue_at e a)) \<le> te_maxQueuedMessages e \<or> te_fresh e \<le> a)
     \<and> \<not> te_interactiveMu e"

text \<open>The part of an engine the invariant sees; most operations leave it as it is.\<close>

definition view :: "string \<Rightarrow> turn_engine \<Rightarrow> (string, nat) gomap \<times> nat \<times> (nat \<Rightarrow> queued_message list) \<times> int \<times> bool \<times> bool option" where
  "view U e = (te_interactiveStates e, te_fresh e, queue_at e, te_maxQueuedMessages e, te_interactiveMu e, locked U e)"

lemma view_eq: "view U e' = view U e \<longleftrightarrow> te_interactiveStates e' = te_interactiveStates e \<and> te_fresh e' = te_fresh e
     \<and> queue_at e' = queue_at e \<and> te_maxQueuedMessages e' = te_maxQueuedMessages e
     \<and> te_interactiveMu e' = te_interactiveMu e \<and> locked U e' = locked U e"
  by (simp add: view_def)

lemma view_ok: "view U e' = view U e \<Longrightarrow> eng_ok K e' = eng_ok K e"
  by (simp add: view_def eng_ok_def)

lemma view_queued: "view U e' = view U e \<Longrightarrow> queued e' = queued e"
  by (simp add: view_def queued_def)

lemma view_state_of: "view U e' = view U e \<Longrightarrow> state_of k e' = state_of k e"
  by (simp add: view_def state_of_def)

lemma queue_at_upd: "queue_at (upd_state a f e) b = (if b = a then is_pendingMessages (f (te_heap e a)) else queue_at e b)"
  by (simp add: queue_at_def upd_state_def)

lemma view_upd: "is_pendingMessages (f (te_heap e a)) = is_pendingMessages (te_heap e a) \<Longrightarrow> view U (upd_state a f e) = view U e"
  by (auto simp: view_def queue_at_upd fun_eq_iff upd_state_def locked_def queue_at_def)

lemma view_say [simp]: "view U (say p r n e) = view U e"
  by (simp add: view_def say_def locked_def queue_at_def fun_eq_iff)

lemma view_kill [simp]: "view U (kill ag e) = view U e"
  by (simp add: view_def kill_def locked_def queue_at_def fun_eq_iff split: option.splits)

lemma view_alive [simp]: "view U (e\<lparr>te_alive := A\<rparr>) = view U e"
  by (simp add: view_def locked_def queue_at_def fun_eq_iff)

lemma view_send [simp]: "view U (send_agent a q e) = view U e"
  by (simp add: view_def send_agent_def locked_def queue_at_def fun_eq_iff split: option.splits)

lemma view_markUnsafe [simp]: "view U (markUnsafeResume key e) = view U e"
  by (simp add: view_def markUnsafeResume_def locked_def queue_at_def fun_eq_iff)

lemma view_session: "(\<And>s. s_busy (f s) = s_busy s) \<Longrightarrow> view U (upd_session V f e) = view U e"
  by (auto simp: view_def upd_session_def locked_def queue_at_def fun_eq_iff gomap map_option.compositionality comp_def)

lemma busy_SetAgentSessionID [simp]: "s_busy (SetAgentSessionID i t s) = s_busy s"
  by (simp add: SetAgentSessionID_def recordPastAgentSessionID_def Let_def)

lemma view_history [simp]: "view U (user_history V now content e) = view U e"
  unfolding user_history_def by (rule view_session) (simp add: AddHistory_def)

lemma view_touch [simp]: "view U (upd_session V (TouchUserActivity now) e) = view U e"
  by (rule view_session) (simp add: TouchUserActivity_def)

lemma view_setid [simp]: "view U (upd_session V (SetAgentSessionID i t) e) = view U e"
  by (rule view_session) simp

lemma view_track [simp]: "view U (track_session_id atype V n e) = view U e"
  using view_session [where f = "\<lambda>s. if s_AgentSessionID s \<noteq> te_agentID e n then SetAgentSessionID (te_agentID e n) atype s else s"]
  by (simp add: track_session_id_def Let_def)

lemma view_markStopped [simp]: "view U (markStopped a e) = view U e"
  unfolding markStopped_def by (rule view_upd) simp

lemma view_close [simp]: "view U (close_state key s confirmed e) = view U e"
  by (simp add: close_state_def closeAgentSession_def)

lemma view_note [simp]: "view U (noteUserMessageAccepted key t e) = view U e"
  unfolding noteUserMessageAccepted_def by (auto split: option.splits intro!: view_upd)

lemma view_completed [simp]: "view U (noteUserTurnCompleted a e) = view U e"
  unfolding noteUserTurnCompleted_def by (rule view_upd) (simp add: Let_def)

lemma view_begin [simp]: "view U (upd_state a (begin_turn p m) e) = view U e"
  by (rule view_upd) (simp add: begin_turn_def)

lemma view_fields [simp]:
  "view U (upd_state a (\<lambda>s. s\<lparr>is_eventsNeedResync := b\<rparr>) e) = view U e"
  "view U (upd_state a (\<lambda>s. s\<lparr>is_pending := x\<rparr>) e) = view U e"
  "view U (upd_state a (\<lambda>s. s\<lparr>is_agentSession := y\<rparr>) e) = view U e"
  "view U (upd_state a (\<lambda>s. s\<lparr>is_currentMessageID := z, is_fromVoice := b\<rparr>) e) = view U e"
  by (simp_all add: view_upd)

lemma view_consume [simp]: "view U (fst (consumeUnsafeResume key e)) = view U e"
  by (simp add: view_def consumeUnsafeResume_def locked_def queue_at_def fun_eq_iff)

lemma view_fold_say [simp]: "view U (fold (\<lambda>q. say (f q) (g q) (h q)) qs e) = view U e"
  by (induction qs arbitrary: e) simp_all

section \<open>Queues and addresses\<close>

lemma queued_upd:
  assumes "a < te_fresh e"
  shows "queued (upd_state a f e) + mset (queue_at e a) = queued e + mset (is_pendingMessages (f (te_heap e a)))"
proof -
  let ?q = "\<lambda>n. mset (concat (map (queue_at (upd_state a f e)) [0..<n]))"
  have "?q n + (if a < n then mset (queue_at e a) else {#}) =
      mset (concat (map (queue_at e) [0..<n])) + (if a < n then mset (is_pendingMessages (f (te_heap e a))) else {#})" for n
    by (induction n) (auto simp: queue_at_upd less_Suc_eq)
  from this [of "te_fresh e"] assms show ?thesis by (simp add: queued_def upd_state_def)
qed

lemma queued_cong: "te_fresh e' = te_fresh e \<Longrightarrow> (\<And>a. a < te_fresh e \<Longrightarrow> queue_at e' a = queue_at e a) \<Longrightarrow> queued e' = queued e"
  unfolding queued_def by (intro arg_cong [where f = mset] arg_cong [where f = concat] map_cong) auto

lemma queue_at_put: "queue_at (put_state key s e) a = (if a = te_fresh e then is_pendingMessages s else queue_at e a)"
  by (simp add: put_state_def queue_at_def)

lemma queued_put: "queued (put_state key s e) = queued e + mset (is_pendingMessages s)"
proof -
  have m: "map (queue_at (put_state key s e)) [0..<te_fresh e] = map (queue_at e) [0..<te_fresh e]"
    by (rule map_cong) (auto simp: queue_at_put)
  have f: "te_fresh (put_state key s e) = Suc (te_fresh e)" by (simp add: put_state_def)
  show ?thesis unfolding queued_def f by (simp add: m queue_at_put)
qed

lemma queue_at_forget [simp]: "queue_at (forget_state key e) = queue_at e"
  by (simp add: forget_state_def queue_at_def fun_eq_iff)

lemma ok_upd:
  assumes "eng_ok K e" and "int (length (is_pendingMessages (f (te_heap e a)))) \<le> te_maxQueuedMessages e"
  shows "eng_ok K (upd_state a f e)"
proof -
  have "te_interactiveStates (upd_state a f e) = te_interactiveStates e" "te_fresh (upd_state a f e) = te_fresh e"
    "te_maxQueuedMessages (upd_state a f e) = te_maxQueuedMessages e" "te_interactiveMu (upd_state a f e) = te_interactiveMu e"
    by (simp_all add: upd_state_def)
  then show ?thesis using assms unfolding eng_ok_def by (auto simp: queue_at_upd)
qed

lemma ok_put:
  assumes "eng_ok K e" and "int (length (is_pendingMessages s)) \<le> te_maxQueuedMessages e"
  shows "eng_ok K (put_state K s e)"
  using assms by (auto simp: eng_ok_def put_state_def queue_at_def)

lemma ok_forget: "eng_ok K e \<Longrightarrow> eng_ok K (forget_state K e)"
  by (auto simp: eng_ok_def forget_state_def queue_at_def)

lemma state_of_ok: "eng_ok K e \<Longrightarrow> state_of K e = Some a \<Longrightarrow> a < te_fresh e"
  by (auto simp: eng_ok_def state_of_def)

lemma state_of_key: "eng_ok K e \<Longrightarrow> state_of k e = Some a \<Longrightarrow> k = K"
  by (auto simp: eng_ok_def state_of_def split: if_splits)

lemma queue_bound: "eng_ok K e \<Longrightarrow> a < te_fresh e \<Longrightarrow> int (length (queue_at e a)) \<le> te_maxQueuedMessages e"
  using not_less by (auto simp: eng_ok_def)

text \<open>What every operation that keeps the queues keeps.\<close>

definition keeps :: "string \<Rightarrow> string \<Rightarrow> turn_engine \<Rightarrow> turn_engine \<Rightarrow> bool" where
  "keeps K U e e' \<longleftrightarrow> eng_ok K e' \<and> te_fresh e \<le> te_fresh e' \<and> queued e' = queued e \<and> locked U e' = locked U e
     \<and> te_maxQueuedMessages e' = te_maxQueuedMessages e"

lemma keeps_trans: "keeps K U e e' \<Longrightarrow> keeps K U e' e'' \<Longrightarrow> keeps K U e e''"
  by (simp add: keeps_def)

lemma keeps_view: "eng_ok K e \<Longrightarrow> view U e' = view U e \<Longrightarrow> keeps K U e e'"
  using view_ok [of U e' e K] view_queued [of U e' e] unfolding keeps_def view_eq by simp

lemma keeps_forget: "eng_ok K e \<Longrightarrow> keeps K U e (forget_state K e)"
  using queued_cong [of "forget_state K e" e] by (auto simp: keeps_def ok_forget) (simp_all add: forget_state_def locked_def)

lemma keeps_put: "eng_ok K e \<Longrightarrow> is_pendingMessages s = [] \<Longrightarrow> keeps K U e (put_state K s e)"
  using ok_put [of K e s] by (auto simp: keeps_def queued_put eng_ok_def) (simp_all add: put_state_def locked_def)

lemma install_keeps:
  assumes "eng_ok K e" and "is_pendingMessages s = []" and "install K s e = (e', a)"
  shows "keeps K U e e'" and "state_of K e' = Some a" and "a < te_fresh e'"
    and "is_agentSession (te_heap e' a) = is_agentSession s" and "te_alive e' = te_alive e"
    and "queue_at e' a = (case state_of K e of None \<Rightarrow> [] | Some b \<Rightarrow> queue_at e b)"
proof -
  obtain e1 s1 where as: "adoptPendingFromPlaceholder (state_of K e) s e = (e1, s1)" by force
  have e': "e' = put_state K s1 e1" "a = te_fresh e1" using assms(3) as by (auto simp: install_def)
  show "state_of K e' = Some a" "a < te_fresh e'" by (simp_all add: e' put_state_def state_of_def update_conv)
  have "keeps K U e e' \<and> is_agentSession s1 = is_agentSession s \<and> te_alive e1 = te_alive e
      \<and> is_pendingMessages s1 = (case state_of K e of None \<Rightarrow> [] | Some b \<Rightarrow> queue_at e b)"
  proof (cases "\<exists>b. state_of K e = Some b \<and> queue_at e b \<noteq> []")
    case False
    then have "e1 = e" "s1 = s" using as
      by (auto simp: adoptPendingFromPlaceholder_def queue_at_def split: option.splits if_splits)
    moreover have "(case state_of K e of None \<Rightarrow> [] | Some b \<Rightarrow> queue_at e b) = []" using False by (auto split: option.splits)
    ultimately show ?thesis using assms e' keeps_put by simp
  next
    case True
    then obtain b where b: "state_of K e = Some b" "queue_at e b \<noteq> []" by auto
    then have e1: "e1 = upd_state b (\<lambda>s. s\<lparr>is_pendingMessages := []\<rparr>) e" "s1 = s\<lparr>is_pendingMessages := queue_at e b\<rparr>"
      using as by (auto simp: adoptPendingFromPlaceholder_def queue_at_def)
    have bf: "b < te_fresh e" using state_of_ok assms(1) b(1) by blast
    have ok1: "eng_ok K e1" unfolding e1 using assms(1) by (intro ok_upd) (auto simp: eng_ok_def)
    have "te_maxQueuedMessages e1 = te_maxQueuedMessages e" by (simp add: e1 upd_state_def)
    then have "eng_ok K (put_state K s1 e1)" using queue_bound [OF assms(1) bf] by (intro ok_put ok1) (simp add: e1)
    moreover have "queued e1 + mset (queue_at e b) = queued e"
      unfolding e1 using queued_upd [OF bf, of "\<lambda>s. s\<lparr>is_pendingMessages := []\<rparr>"] by simp
    then have "queued e' = queued e" unfolding e' queued_put by (simp add: e1(2) add.commute)
    ultimately show ?thesis using b
      by (simp add: keeps_def e') (simp add: e1 put_state_def upd_state_def locked_def)
  qed
  then show "keeps K U e e'" "is_agentSession (te_heap e' a) = is_agentSession s" "te_alive e' = te_alive e"
    "queue_at e' a = (case state_of K e of None \<Rightarrow> [] | Some b \<Rightarrow> queue_at e b)"
    by (auto simp: e' put_state_def queue_at_def)
qed

section \<open>Starting an agent\<close>

lemma view_resume [simp]: "view U (fst (resume_id env key p rctx sk e)) = view U e"
  unfolding resume_id_def Let_def
  by (cases "consumeUnsafeResume key e";
      cases "consumeUnsafeResume key (upd_session sk (SetAgentSessionID [] (se_atype env)) e)")
    (use view_consume [of U key e] in \<open>auto split: prod.splits\<close>)

lemma view_start [simp]: "view U (fst (start_session env sk sid e)) = view U e"
  by (simp add: start_session_def split: option.splits)

text \<open>However it ends, a start installs one fresh state; what precedes it is invisible here.\<close>

lemma spawn_install:
  assumes "spawn env now K p rctx sk e = (e', a)"
  shows "\<exists>d s. install K s d = (e', a) \<and> view U d = view U e \<and> is_pendingMessages s = []"
proof -
  obtain e1 sid where r: "resume_id env K p rctx sk e = (e1, sid)" by force
  obtain e2 ag where st: "start_session env sk sid e1 = (e2, ag)" by force
  have v1: "view U e1 = view U e" using view_resume [of U env K p rctx sk e] r by simp
  have v2: "view U e2 = view U e" using view_start [of U env sk sid e1] st v1 by simp
  show ?thesis
  proof (cases "se_ctxDone env")
    case True
    then show ?thesis using assms by (intro exI [of _ e]) (auto simp: spawn_def new_state_def)
  next
    case False
    show ?thesis
    proof (cases ag)
      case None
      then show ?thesis using assms False r st v2
        by (intro exI [of _ e2] exI [of _ "new_state None p rctx 0"]) (simp add: spawn_def new_state_def)
    next
      case (Some n)
      let ?d = "track_session_id (se_atype env) sk n e2"
      show ?thesis using assms False r st v2 Some
        by (intro exI [of _ "?d\<lparr>te_alive := List.insert n (te_alive ?d)\<rparr>"] exI [of _ "new_state (Some n) p rctx now"])
          (simp add: spawn_def new_state_def Let_def)
    qed
  qed
qed

lemma spawn_keeps:
  assumes "eng_ok K e" and "spawn env now K p rctx sk e = (e', a)"
  shows "keeps K U e e' \<and> state_of K e' = Some a \<and> a < te_fresh e'
    \<and> queue_at e' a = (case state_of K e of None \<Rightarrow> [] | Some b \<Rightarrow> queue_at e b)"
proof -
  obtain d s where d: "install K s d = (e', a)" "view U d = view U e" "is_pendingMessages s = []"
    using spawn_install [OF assms(2), of U] by blast
  have ok: "eng_ok K d" using view_ok [OF d(2)] assms(1) by simp
  note i = install_keeps [OF ok d(3) d(1)]
  have "keeps K U e d" using keeps_view assms(1) d(2) by blast
  moreover have "queue_at d = queue_at e" "state_of K d = state_of K e" using d(2) by (simp_all add: view_eq state_of_def)
  ultimately show ?thesis using i(1) [where U = U] i(2,3,6) keeps_trans by metis
qed

lemma forget_close_keeps: "eng_ok K e \<Longrightarrow> keeps K U e (forget_state K (close_state K s confirmed (markStopped a e)))"
  using keeps_trans [OF keeps_view keeps_forget] view_ok [of U "close_state K s confirmed (markStopped a e)" e K] by simp

lemma install_new: "eng_ok K e \<Longrightarrow> install K (new_state ag p rctx t) e = (e', a) \<Longrightarrow>
    keeps K U e e' \<and> state_of K e' = Some a \<and> a < te_fresh e'"
  using install_keeps [of K e "new_state ag p rctx t" e' a] by (simp add: new_state_def)

lemma getOrCreate_keeps:
  assumes "eng_ok K e" and "getOrCreateInteractiveStateWith env now K p rctx sk e = (e', a)"
  shows "keeps K U e e' \<and> state_of K e' = Some a \<and> a < te_fresh e'"
proof -
  let ?e = "if se_slot env then e else say p rctx SessionSlotUnavailable e"
  have v: "view U ?e = view U e" by simp
  have k: "keeps K U e ?e" by (rule keeps_view [OF assms(1) v])
  have ok: "eng_ok K ?e" using view_ok [OF v] assms(1) by simp
  have sp: "spawn env now K p rctx sk d = (e', a) \<Longrightarrow> keeps K U ?e d \<Longrightarrow> keeps K U e e' \<and> state_of K e' = Some a \<and> a < te_fresh e'" for d
    using spawn_keeps [of K d env now p rctx sk e' a U] keeps_trans [OF k] keeps_trans by (metis keeps_def)
  have inst: "install K (new_state None p rctx 0) ?e = (e', a) \<Longrightarrow> keeps K U e e' \<and> state_of K e' = Some a \<and> a < te_fresh e'"
    using install_new [OF ok, of None p rctx 0 e' a U] keeps_trans [OF k] by blast
  have kk: "keeps K U ?e ?e" by (rule keeps_view [OF ok refl])
  show ?thesis
  proof (cases "state_of K ?e")
    case None
    then show ?thesis using assms(2) sp [of ?e] inst kk by (simp add: getOrCreateInteractiveStateWith_def Let_def split: if_splits)
  next
    case (Some b)
    show ?thesis
    proof (cases "is_agentSession (te_heap ?e b)")
      case None
      then show ?thesis using assms(2) sp [of ?e] inst kk Some
        by (simp add: getOrCreateInteractiveStateWith_def Let_def split: if_splits)
    next
      case (Some n)
      have g: "getOrCreateInteractiveStateWith env now K p rctx sk e =
          (if \<not> alive ?e (Some n) then
             (if se_slot env then spawn env now K p rctx sk ?e else install K (new_state None p rctx 0) ?e)
           else if \<not> se_slot env \<or> \<not> mismatch sk n ?e then (?e, b)
           else spawn env now K p rctx sk (forget_state K (close_state K (te_heap ?e b) (se_confirmed env) (markStopped b ?e))))"
        using \<open>state_of K ?e = Some b\<close> Some by (simp only: getOrCreateInteractiveStateWith_def Let_def option.case)
      consider "spawn env now K p rctx sk ?e = (e', a)" | "install K (new_state None p rctx 0) ?e = (e', a)"
        | "(?e, b) = (e', a)"
        | "spawn env now K p rctx sk (forget_state K (close_state K (te_heap ?e b) (se_confirmed env) (markStopped b ?e))) = (e', a)"
        using g assms(2) by (metis (no_types, lifting))
      then show ?thesis
      proof cases
        case 1
        then show ?thesis using sp kk by blast
      next
        case 2
        then show ?thesis by (rule inst)
      next
        case 3
        then show ?thesis using \<open>state_of K ?e = Some b\<close> state_of_ok [OF ok] k by auto
      next
        case 4
        then show ?thesis using sp forget_close_keeps [OF ok] by blast
      qed
    qed
  qed
qed

lemma recycle_keeps: "eng_ok K e \<Longrightarrow> keeps K U e (recycle_for_retry K confirmed a e)"
  unfolding recycle_for_retry_def using forget_close_keeps keeps_view by auto

section \<open>Giving a queue up\<close>

definition drops :: "string \<Rightarrow> string \<Rightarrow> nat \<Rightarrow> turn_engine \<Rightarrow> turn_engine \<Rightarrow> bool" where
  "drops K U a e e' \<longleftrightarrow> eng_ok K e' \<and> te_fresh e \<le> te_fresh e' \<and> queued e' + mset (queue_at e a) = queued e
     \<and> locked U e' = locked U e \<and> te_maxQueuedMessages e' = te_maxQueuedMessages e"

lemma drops_keeps: "drops K U a e e' \<Longrightarrow> keeps K U e' e'' \<Longrightarrow> drops K U a e e''"
  by (auto simp: drops_def keeps_def)

lemma view_drops: "view U e' = view U e \<Longrightarrow> drops K U a e' e'' \<Longrightarrow> drops K U a e e''"
  using view_queued [of U e' e] by (auto simp: drops_def view_eq)

lemma drops_ok: "drops K U a e e' \<Longrightarrow> eng_ok K e'"
  by (simp add: drops_def)

lemma drops_view: "drops K U a e e' \<Longrightarrow> view U e'' = view U e' \<Longrightarrow> drops K U a e e''"
  using drops_keeps keeps_view drops_ok by metis

lemma keeps_drops: "keeps K U e d \<Longrightarrow> queue_at d a = queue_at e a \<Longrightarrow> drops K U a d e' \<Longrightarrow> drops K U a e e'"
  by (simp add: keeps_def drops_def)

lemma keeps_ok: "keeps K U e e' \<Longrightarrow> eng_ok K e'"
  by (simp add: keeps_def)

lemma clear_drops:
  assumes "eng_ok K e" and "a < te_fresh e"
  shows "drops K U a e (upd_state a (\<lambda>s. s\<lparr>is_pendingMessages := []\<rparr>) e)"
proof -
  have "eng_ok K (upd_state a (\<lambda>s. s\<lparr>is_pendingMessages := []\<rparr>) e)"
    using assms(1) by (intro ok_upd) (auto simp: eng_ok_def)
  then show ?thesis using queued_upd [OF assms(2), of "\<lambda>s. s\<lparr>is_pendingMessages := []\<rparr>"]
    unfolding drops_def by (simp add: add.commute) (simp add: upd_state_def locked_def)
qed

lemma notify_view: "view U (notifyDroppedQueuedMessages kind a e) = view U (upd_state a (\<lambda>s. s\<lparr>is_pendingMessages := []\<rparr>) e)"
  "view U (notifyStoppedQueuedMessages a e) = view U (upd_state a (\<lambda>s. s\<lparr>is_pendingMessages := []\<rparr>) e)"
  by (simp_all add: notifyDroppedQueuedMessages_def notifyStoppedQueuedMessages_def)

lemma notify_drops:
  assumes "eng_ok K e" and "a < te_fresh e"
  shows "drops K U a e (notifyDroppedQueuedMessages kind a e)" and "drops K U a e (clear_queue notify a e)"
proof -
  note d = clear_drops [OF assms, of U]
  then have ok: "eng_ok K (upd_state a (\<lambda>s. s\<lparr>is_pendingMessages := []\<rparr>) e)" by (simp add: drops_def)
  show "drops K U a e (notifyDroppedQueuedMessages kind a e)"
    by (rule drops_keeps [OF d keeps_view [OF ok notify_view(1)]])
  show "drops K U a e (clear_queue notify a e)"
    using drops_keeps [OF d keeps_view [OF ok notify_view(2)]] d by (simp add: clear_queue_def)
qed

lemma queue_at_clear: "queue_at (notifyDroppedQueuedMessages kind a e) b = (if b = a then [] else queue_at e b)"
  using notify_view(1) [of undefined kind a e] by (simp add: view_eq queue_at_upd)

lemma cleanup_drops:
  assumes "eng_ok K e" and "a < te_fresh e" and "queue_at e a = []"
  shows "keeps K U e (cleanupInteractiveState K (Some a) confirmed e)"
proof (cases "state_of K e = Some a")
  case True
  let ?e1 = "upd_state a (\<lambda>s. s\<lparr>is_agentSession := None\<rparr>) e"
  let ?e3 = "upd_state a (\<lambda>s. s\<lparr>is_pending := None\<rparr>) (markStopped a ?e1)"
  have v: "view U ?e3 = view U e" by simp
  have ok: "eng_ok K ?e3" using view_ok [OF v] assms(1) by simp
  have f: "a < te_fresh ?e3" using assms(2) v unfolding view_eq by metis
  have d: "drops K U a e (notifyDroppedQueuedMessages ErrorKindUnknown a ?e3)"
    by (rule view_drops [OF v notify_drops(1) [OF ok f]])
  let ?e4 = "notifyDroppedQueuedMessages ErrorKindUnknown a ?e3"
  have d5: "drops K U a e (close_state K (te_heap e a) confirmed ?e4)" by (rule drops_view [OF d view_close])
  have "drops K U a e (forget_state K (close_state K (te_heap e a) confirmed ?e4))"
    by (rule drops_keeps [OF d5 keeps_forget [OF drops_ok [OF d5]]])
  then show ?thesis using True assms(3) by (simp add: cleanupInteractiveState_def Let_def drops_def keeps_def)
next
  case False
  then show ?thesis using keeps_view [OF assms(1) refl] by (auto simp: cleanupInteractiveState_def split: option.splits)
qed

text \<open>/stop: the mutex is held once, so unless cancelling the turn fails, it is released once.\<close>

lemma mu_steps [simp]: "te_interactiveMu (mu_lock e)" "te_interactiveMu (upd_state a f e) = te_interactiveMu e"
  "te_interactiveMu (forget_state k e) = te_interactiveMu e" "te_interactiveMu (markStopped a e) = te_interactiveMu e"
  by (simp_all add: mu_lock_def upd_state_def forget_state_def markStopped_def)

definition set_mu :: "bool \<Rightarrow> turn_engine \<Rightarrow> turn_engine" where
  "set_mu b e = e\<lparr>te_interactiveMu := b\<rparr>"

lemma mu_set: "mu_lock e = set_mu True e" "mu_unlock e = (if te_interactiveMu e then Some (set_mu False e) else None)"
  by (simp_all add: mu_lock_def mu_unlock_def set_mu_def)

lemma set_mu_comm [simp]:
  "set_mu b (upd_state a f e) = upd_state a f (set_mu b e)" "set_mu b (forget_state k e) = forget_state k (set_mu b e)"
  "set_mu b (set_mu d e) = set_mu b e" "te_heap (set_mu b e) = te_heap e" "state_of k (set_mu b e) = state_of k e"
  by (simp_all add: set_mu_def upd_state_def forget_state_def state_of_def)

lemma set_mu_False: "eng_ok K e \<Longrightarrow> set_mu False e = e"
  by (simp add: eng_ok_def set_mu_def)

lemma set_mu_markStopped [simp]: "set_mu b (markStopped a e) = markStopped a (set_mu b e)"
  by (simp add: markStopped_def)

lemma te_mu_set [simp]: "te_interactiveMu (set_mu b e) = b"
  by (simp add: set_mu_def)

lemma stop_result:
  assumes "eng_ok K e" and "state_of K e = Some a"
    and "stopInteractiveSessionWithOptions cancel confirmed K notify e = Some (e', ok)"
  shows "e' = (if (case is_agentSession (te_heap e a) of None \<Rightarrow> None | Some n \<Rightarrow> cancel n) = None
      then close_state K (te_heap e a) confirmed (clear_queue notify a (forget_state K (markStopped a
             (upd_state a (\<lambda>s. s\<lparr>is_pending := None\<rparr>) e))))
      else upd_state a (\<lambda>s. s\<lparr>is_eventsNeedResync := True\<rparr>) (clear_queue notify a (upd_state a (\<lambda>s. s\<lparr>is_pending := None\<rparr>) e)))"
proof -
  have m: "te_interactiveMu (clear_queue notify a d) = te_interactiveMu d" for d
    using notify_view(2) [of undefined a d] by (simp add: clear_queue_def view_eq)
  show ?thesis
    using assms(1-3) set_mu_False [OF assms(1)]
    by (auto simp: eng_ok_def stopInteractiveSessionWithOptions_def normal_cleanup_def mu_set Let_def m split: option.splits if_splits)
qed

lemma stop_drops:
  assumes "eng_ok K e" and "state_of K e = Some a"
    and "stopInteractiveSessionWithOptions cancel confirmed K notify e = Some (e', ok)"
  shows "drops K U a e e'"
proof -
  let ?e1 = "upd_state a (\<lambda>s. s\<lparr>is_pending := None\<rparr>) e"
  have f: "a < te_fresh e" by (rule state_of_ok [OF assms(1,2)])
  have v: "view U ?e1 = view U e" by simp
  have ok: "eng_ok K ?e1" using view_ok [OF v] assms(1) by simp
  have f1: "a < te_fresh ?e1" using f by (simp add: upd_state_def)
  have q1: "queue_at (forget_state K (markStopped a ?e1)) a = queue_at e a"
    by (simp add: markStopped_def queue_at_def upd_state_def)
  have k: "keeps K U e (forget_state K (markStopped a ?e1))"
    using keeps_trans [OF keeps_view [of K e U "markStopped a ?e1"] keeps_forget] assms(1) view_ok [of U "markStopped a ?e1" e K] by simp
  have "a < te_fresh (forget_state K (markStopped a ?e1))" using f k by (simp add: keeps_def)
  then have c: "drops K U a e (clear_queue notify a (forget_state K (markStopped a ?e1)))"
    by (rule keeps_drops [OF k q1 notify_drops(2) [OF keeps_ok [OF k]]])
  have d: "drops K U a e (clear_queue notify a ?e1)" by (rule view_drops [OF v notify_drops(2) [OF ok f1]])
  show ?thesis unfolding stop_result [OF assms]
    using drops_view [OF c view_close] drops_view [OF d view_fields(1)] by simp
qed

lemma stop_none: "state_of K e = None \<Longrightarrow> eng_ok K e \<Longrightarrow>
    stopInteractiveSessionWithOptions cancel confirmed K notify e = Some (e', ok) \<Longrightarrow> e' = e"
  using set_mu_False by (auto simp: stopInteractiveSessionWithOptions_def mu_set Let_def)

section \<open>The invariant of the protocol\<close>

definition holder_state :: "conf \<Rightarrow> nat option" where
  "holder_state c = (case tc_holder c of Turn r a \<Rightarrow> Some a | Draining a \<Rightarrow> Some a | Checking a q \<Rightarrow> Some a | _ \<Rightarrow> None)"

definition in_hand :: "conf \<Rightarrow> queued_message multiset" where
  "in_hand c = (case tc_holder c of Checking a q \<Rightarrow> {#q#} | _ \<Rightarrow> {#})"

definition turn_inv :: "string \<Rightarrow> string \<Rightarrow> conf \<Rightarrow> bool" where
  "turn_inv K U c \<longleftrightarrow> eng_ok K (tc_eng c) \<and> locked U (tc_eng c) = Some (tc_holder c \<noteq> Idle)
     \<and> (\<forall>a. holder_state c = Some a \<longrightarrow> a < te_fresh (tc_eng c))
     \<and> mset (tc_accepted c) = mset (tc_taken c) + mset (tc_gone c) + queued (tc_eng c) + in_hand c"

lemma turn_invD:
  assumes "turn_inv K U c"
  shows "eng_ok K (tc_eng c)" and "locked U (tc_eng c) = Some (tc_holder c \<noteq> Idle)"
    and "holder_state c = Some a \<Longrightarrow> a < te_fresh (tc_eng c)"
    and "mset (tc_accepted c) = mset (tc_taken c) + mset (tc_gone c) + queued (tc_eng c) + in_hand c"
  using assms by (simp_all add: turn_inv_def)

lemma map_upd_session: "locked U (upd_session U f e) = map_option (\<lambda>s. s_busy (f s)) (mget (te_active e) U)"
  by (simp add: locked_def upd_session_def gomap option.map_comp comp_def)

lemma session_parts: "te_interactiveStates (upd_session U f e) = te_interactiveStates e"
  "te_fresh (upd_session U f e) = te_fresh e" "queue_at (upd_session U f e) = queue_at e"
  "te_maxQueuedMessages (upd_session U f e) = te_maxQueuedMessages e" "te_interactiveMu (upd_session U f e) = te_interactiveMu e"
  "te_heap (upd_session U f e) = te_heap e" "te_alive (upd_session U f e) = te_alive e" "state_of k (upd_session U f e) = state_of k e"
  by (simp_all add: upd_session_def queue_at_def fun_eq_iff state_of_def)

lemma ok_session [simp]: "eng_ok K (upd_session U f e) = eng_ok K e" "queued (upd_session U f e) = queued e"
  by (simp_all add: eng_ok_def queued_def session_parts)

lemma try_lock_facts:
  assumes "locked U e = Some b" and "try_lock U e = (e', ok)"
  shows "ok \<longleftrightarrow> \<not> b" and "locked U e' = Some True" and "eng_ok K e' = eng_ok K e" and "queued e' = queued e"
    and "te_fresh e' = te_fresh e" and "state_of k e' = state_of k e" and "te_heap e' = te_heap e" and "te_alive e' = te_alive e"
    and "queue_at e' = queue_at e"
  using assms by (auto simp: locked_def try_lock_def TryLock_def map_upd_session session_parts split: option.splits if_splits)
    (auto simp: upd_session_def gomap)

lemma unlock_facts:
  assumes "locked U e = Some b"
  shows "locked U (unlock_session U now e) = Some False"
  using assms by (auto simp: locked_def unlock_session_def upd_session_def gomap Unlock_def unlock_def)

lemma ensure_keeps: "eng_ok K e \<Longrightarrow> keeps K U e (ensureInteractiveStateForQueueing K p rctx e)"
  unfolding ensureInteractiveStateForQueueing_def
  using keeps_put [of K e "new_state None p rctx 0"] keeps_view [of K e U e]
  by (auto simp: new_state_def split: option.splits)

lemma keeps_simps:
  assumes "keeps K U e e'"
  shows "eng_ok K e'" "te_fresh e \<le> te_fresh e'" "queued e' = queued e" "locked U e' = locked U e"
  using assms by (simp_all add: keeps_def)

lemma inv_keeps:
  assumes "turn_inv K U c" and "keeps K U (tc_eng c) e" and "tc_holder c \<noteq> Idle" and "h \<noteq> Idle"
    and "\<And>a. holder_state (c\<lparr>tc_holder := h\<rparr>) = Some a \<Longrightarrow> a < te_fresh e" and "in_hand (c\<lparr>tc_holder := h\<rparr>) = in_hand c"
  shows "turn_inv K U (c\<lparr>tc_eng := e, tc_holder := h\<rparr>)"
  using turn_invD [OF assms(1)] assms(2-) by (simp add: turn_inv_def keeps_def holder_state_def in_hand_def)

lemma inv_arrive:
  assumes "turn_inv K U c"
  shows "turn_inv K U (arrive K U p m now c)"
proof -
  note I = turn_invD [OF assms]
  let ?e0 = "ensureInteractiveStateForQueueing K p (m_ReplyCtx m) (tc_eng c)"
  obtain e ok where t: "try_lock U ?e0 = (e, ok)" by force
  have k0: "keeps K U (tc_eng c) ?e0" by (rule ensure_keeps [OF I(1)])
  note f = try_lock_facts [OF _ t, of "tc_holder c \<noteq> Idle"]
  have l: "locked U ?e0 = Some (tc_holder c \<noteq> Idle)" using k0 I(2) by (simp add: keeps_def)
  note f = f [OF l]
  have e: "eng_ok K e" "te_fresh (tc_eng c) \<le> te_fresh e" "queued e = queued (tc_eng c)" "locked U e = Some True"
    using k0 f by (simp_all add: keeps_def)
  have frame: "turn_inv K U (c\<lparr>tc_eng := e, tc_handlers := h\<rparr>)" if "\<not> ok" for h
    using e I that f(1) unfolding turn_inv_def holder_state_def in_hand_def by auto
  have lock: "turn_inv K U (c\<lparr>tc_eng := e', tc_holder := Starting p m\<rparr>)" if "ok" "keeps K U e e'" for e'
    using e I that f(1) unfolding turn_inv_def holder_state_def in_hand_def keeps_def by auto
  let ?e1 = "upd_session U (TouchUserActivity now) e"
  have k1: "keeps K U e ?e1" by (rule keeps_view [OF e(1) view_touch])
  have k2: "keeps K U e (ensureInteractiveStateForQueueing K p (m_ReplyCtx m) ?e1)"
    by (rule keeps_trans [OF k1 ensure_keeps [OF keeps_simps(1) [OF k1]]])
  have "keeps K U e (noteUserMessageAccepted K (m_UserMessageTimeMs m) (ensureInteractiveStateForQueueing K p (m_ReplyCtx m) ?e1))"
    by (rule keeps_trans [OF k2 keeps_view [OF keeps_simps(1) [OF k2] view_note]])
  then show ?thesis using assms frame lock t by (auto simp: arrive_def)
qed

lemma inv_relock:
  assumes "turn_inv K U c"
  shows "turn_inv K U (relock U i c)"
proof -
  note I = turn_invD [OF assms]
  obtain e ok where t: "try_lock U (tc_eng c) = (e, ok)" by force
  note f = try_lock_facts [OF I(2) t]
  show ?thesis using t f(1,2,4,5) f(3) [of K] I
    by (auto simp: relock_def turn_inv_def holder_state_def in_hand_def Let_def)
qed

lemma queue_message_cases:
  assumes "eng_ok K e" and "queueMessageForBusySession p m K e = (e', ok)"
  shows "view U e' = view U e \<or>
    (ok \<and> (\<exists>a. state_of K e = Some a \<and> int (length (queue_at e a)) < te_maxQueuedMessages e
      \<and> e' = say p (m_ReplyCtx m) MessageQueued (upd_state a (\<lambda>s. s\<lparr>is_pendingMessages := is_pendingMessages s @ [queued_of p m]\<rparr>) e)))"
  using assms(2) by (auto simp: queueMessageForBusySession_def Let_def queue_at_def split: option.splits if_splits)

lemma inv_enqueue:
  assumes "turn_inv K U c"
  shows "turn_inv K U (enqueue K i p m c)"
proof -
  note I = turn_invD [OF assms]
  let ?e = "tc_eng c"
  obtain e' ok where q: "queueMessageForBusySession p m K ?e = (e', ok)" by force
  consider (same) "view U e' = view U ?e"
    | (add) a where "ok" "state_of K ?e = Some a" "int (length (queue_at ?e a)) < te_maxQueuedMessages ?e"
      "e' = say p (m_ReplyCtx m) MessageQueued (upd_state a (\<lambda>s. s\<lparr>is_pendingMessages := is_pendingMessages s @ [queued_of p m]\<rparr>) ?e)"
    using queue_message_cases [OF I(1) q, of U] by blast
  then show ?thesis
  proof cases
    case same
    then have "keeps K U ?e e'" "queue_at e' = queue_at ?e" "te_fresh e' = te_fresh ?e"
      using keeps_view [OF I(1)] by (simp_all add: view_eq)
    moreover have "keeps K U ?e (say p (m_ReplyCtx m) PreviousProcessing e')" using same by (intro keeps_view [OF I(1)]) simp
    ultimately show ?thesis using q I
      by (auto simp: enqueue_def turn_inv_def keeps_def holder_state_def in_hand_def Let_def split: option.splits)
  next
    case add
    let ?f = "\<lambda>s. s\<lparr>is_pendingMessages := is_pendingMessages s @ [queued_of p m]\<rparr>"
    have a: "a < te_fresh ?e" by (rule state_of_ok [OF I(1) add(2)])
    have v: "view U e' = view U (upd_state a ?f ?e)" by (simp add: add(4))
    have "eng_ok K (upd_state a ?f ?e)" using add(3) by (intro ok_upd [OF I(1)]) (simp add: queue_at_def)
    then have ok': "eng_ok K e'" using view_ok [OF v] by simp
    have "queued (upd_state a ?f ?e) = queued ?e + {#queued_of p m#}"
      using queued_upd [OF a, of ?f] by (simp add: queue_at_def)
    then have qd: "queued e' = queued ?e + {#queued_of p m#}" using view_queued [OF v] by simp
    have "queue_at e' a = queue_at ?e a @ [queued_of p m]" by (simp add: add(4) queue_at_def say_def upd_state_def)
    moreover have "locked U e' = locked U ?e" "te_fresh e' = te_fresh ?e"
      by (simp_all add: add(4) say_def upd_state_def locked_def)
    ultimately show ?thesis using q add(1,2) ok' qd I
      by (auto simp: enqueue_def turn_inv_def holder_state_def in_hand_def Let_def)
  qed
qed

text \<open>Taking a message out of a queue splits the queue into what is stale, the message and the rest.\<close>

lemma take_next_split:
  assumes "eng_ok K e" and "a < te_fresh e" and "take_next a e = (e', nq)"
  shows "eng_ok K e'" and "te_fresh e' = te_fresh e" and "locked U e' = locked U e"
    and "mset (fst (drop_stale (te_heap e a))) + (case nq of Some q \<Rightarrow> {#q#} | None \<Rightarrow> {#}) + queued e' = queued e"
    and "state_of k e' = state_of k e" and "te_alive e' = te_alive e"
    and "is_agentSession (te_heap e' b) = is_agentSession (te_heap e b)"
    and "queue_at e a = fst (drop_stale (te_heap e a)) @ (case nq of Some q \<Rightarrow> [q] | None \<Rightarrow> []) @ queue_at e' a"
    and "queue_at e' b = (if b = a then queue_at e' a else queue_at e b)"
    and "nq = None \<Longrightarrow> queue_at e' a = []"
proof -
  let ?st = "fst (drop_stale (te_heap e a))" and ?re = "snd (drop_stale (te_heap e a))"
  have split: "queue_at e a = ?st @ ?re" by (simp add: drop_stale_def queue_at_def)
  have len: "int (length ?re) \<le> te_maxQueuedMessages e"
    using queue_bound [OF assms(1,2)] split by simp
  have pos: "0 < te_maxQueuedMessages e" using assms(1) by (simp add: eng_ok_def)
  obtain f where f: "e' = upd_state a f e" "?re = (case nq of Some q \<Rightarrow> [q] | None \<Rightarrow> []) @ is_pendingMessages (f (te_heap e a))"
    "\<And>s. is_agentSession (f s) = is_agentSession s" "nq = None \<Longrightarrow> is_pendingMessages (f (te_heap e a)) = []"
  proof (cases ?re)
    case Nil
    then show ?thesis using assms(3) that [of "\<lambda>s. s\<lparr>is_pendingMessages := []\<rparr>"] by (simp add: take_next_def)
  next
    case (Cons q rest)
    then show ?thesis using assms(3) that [of "begin_queued q rest"] by (auto simp: take_next_def begin_queued_def)
  qed
  have "int (length (is_pendingMessages (f (te_heap e a)))) \<le> te_maxQueuedMessages e"
    using len f(2) by (auto split: option.splits)
  then show "eng_ok K e'" unfolding f(1) by (rule ok_upd [OF assms(1)])
  show "te_fresh e' = te_fresh e" "locked U e' = locked U e" "state_of k e' = state_of k e" "te_alive e' = te_alive e"
    by (simp_all add: f(1) upd_state_def locked_def state_of_def)
  show "is_agentSession (te_heap e' b) = is_agentSession (te_heap e b)" by (simp add: f(1,3) upd_state_def)
  show "queue_at e a = ?st @ (case nq of Some q \<Rightarrow> [q] | None \<Rightarrow> []) @ queue_at e' a"
    using split f(2) by (simp add: f(1) queue_at_upd)
  show "queue_at e' b = (if b = a then queue_at e' a else queue_at e b)" by (simp add: f(1) queue_at_upd)
  show "nq = None \<Longrightarrow> queue_at e' a = []" using f(4) by (simp add: f(1) queue_at_upd)
  have "queued e' + mset (queue_at e a) = queued e + mset (is_pendingMessages (f (te_heap e a)))"
    unfolding f(1) by (rule queued_upd [OF assms(2)])
  moreover have "mset (queue_at e a) = mset ?st + (case nq of Some q \<Rightarrow> {#q#} | None \<Rightarrow> {#}) + mset (is_pendingMessages (f (te_heap e a)))"
    using split f(2) by (cases nq) simp_all
  ultimately show "mset ?st + (case nq of Some q \<Rightarrow> {#q#} | None \<Rightarrow> {#}) + queued e' = queued e"
    by (simp add: add.assoc add.commute add.left_commute)
qed

lemma inv_result:
  assumes "turn_inv K U c" and "tc_holder c = Turn r a"
  shows "turn_inv K U (turn_result U now r a c)"
proof -
  note I = turn_invD [OF assms(1)]
  let ?e0 = "upd_state a (\<lambda>s. s\<lparr>is_eventsNeedResync := False\<rparr>) (noteUserTurnCompleted a (tc_eng c))"
  have v: "view U ?e0 = view U (tc_eng c)" by simp
  have ok0: "eng_ok K ?e0" using view_ok [OF v] I(1) by simp
  have "a < te_fresh (tc_eng c)" using I(3) assms(2) by (simp add: holder_state_def)
  then have a: "a < te_fresh ?e0" using v unfolding view_eq by metis
  obtain e nq where t: "take_next a ?e0 = (e, nq)" by force
  note s = take_next_split [OF ok0 a t]
  have l: "locked U ?e0 = locked U (tc_eng c)" "queued ?e0 = queued (tc_eng c)" using v view_queued [OF v] unfolding view_eq by metis+
  have k: "keeps K U e (user_history U now x (send_agent a q e))" for x q by (intro keeps_view [OF s(1)]) simp
  have fr: "a < te_fresh (user_history U now x (send_agent a q e))" for x q
    using less_le_trans [OF _ keeps_simps(2) [OF k]] a s(2) by simp
  show ?thesis using t s(1,2,4) s(3) [of U] I(2,4) a l keeps_simps [OF k] fr assms(2)
    by (auto simp: turn_result_def Let_def turn_inv_def holder_state_def in_hand_def ac_simps split: option.splits)
qed

lemma inv_drain:
  assumes "turn_inv K U c" and "tc_holder c = Draining a"
  shows "turn_inv K U (drain_step U now a c)"
proof -
  note I = turn_invD [OF assms(1)]
  have a: "a < te_fresh (tc_eng c)" using I(3) assms(2) by (simp add: holder_state_def)
  obtain e nq where t: "take_next a (tc_eng c) = (e, nq)" by force
  note s = take_next_split [OF I(1) a t]
  have "locked U e = Some True" using s(3) [of U] I(2) assms(2) by simp
  then have "locked U (unlock_session U now e) = Some False" by (rule unlock_facts)
  moreover have "eng_ok K (unlock_session U now e)" "queued (unlock_session U now e) = queued e" using s(1) by (simp_all add: unlock_session_def)
  ultimately show ?thesis using t s(1,2,4) s(3) [of U] I(2,4) a assms(2)
    by (auto simp: drain_step_def Let_def turn_inv_def holder_state_def in_hand_def ac_simps split: option.splits)
qed

lemma inv_drops:
  assumes "turn_inv K U c" and "drops K U a (tc_eng c) e" and "tc_holder c \<noteq> Idle" and "h \<noteq> Idle"
    and "\<And>b. holder_state (c\<lparr>tc_holder := h\<rparr>) = Some b \<Longrightarrow> b < te_fresh e"
    and "in_hand (c\<lparr>tc_holder := h\<rparr>) + mset xs = in_hand c + mset (queue_at (tc_eng c) a)"
  shows "turn_inv K U (c\<lparr>tc_eng := e, tc_holder := h, tc_gone := tc_gone c @ xs\<rparr>)"
proof -
  note I = turn_invD [OF assms(1)]
  have "mset xs + in_hand (c\<lparr>tc_holder := h\<rparr>) + queued e = in_hand c + queued (tc_eng c)"
    using assms(2,6) by (simp add: drops_def ac_simps)
  then have "mset (tc_accepted c) = mset (tc_taken c) + mset (tc_gone c) + (mset xs + in_hand (c\<lparr>tc_holder := h\<rparr>) + queued e)"
    using I(4) by (simp add: ac_simps)
  then show ?thesis using I(1,2) assms(2-5)
    by (simp add: turn_inv_def drops_def holder_state_def in_hand_def ac_simps)
qed

lemma inv_check:
  assumes "turn_inv K U c" and "tc_holder c = Checking a q"
  shows "turn_inv K U (check_step U now a q c)"
proof -
  note I = turn_invD [OF assms(1)]
  have a: "a < te_fresh (tc_eng c)" using I(3) assms(2) by (simp add: holder_state_def)
  show ?thesis
  proof (cases "alive (tc_eng c) (is_agentSession (te_heap (tc_eng c) a))")
    case True
    have k: "keeps K U (tc_eng c) (send_agent a q (user_history U now (qm_content q) (tc_eng c)))"
      by (intro keeps_view [OF I(1)]) simp
    show ?thesis using True I(2,4) keeps_simps [OF k] a assms(2)
      by (auto simp: check_step_def Let_def turn_inv_def holder_state_def in_hand_def ac_simps)
  next
    case False
    let ?e = "say (qm_platform q) (qm_replyCtx q) QueuedMessageDropped (tc_eng c)"
    have v: "view U ?e = view U (tc_eng c)" by simp
    have "eng_ok K ?e" "a < te_fresh ?e" using view_ok [OF v] I(1) a by (simp_all add: say_def)
    then have d: "drops K U a (tc_eng c) (notifyDroppedQueuedMessages ErrorKindUnknown a ?e)"
      by (intro view_drops [OF v notify_drops(1)])
    show ?thesis using inv_drops [OF assms(1) d, of Leaving "q # queue_at (tc_eng c) a"] False assms(2)
      by (simp add: check_step_def Let_def holder_state_def in_hand_def)
  qed
qed

lemma inv_holder:
  assumes "turn_inv K U c" and "eng_ok K e" and "te_fresh (tc_eng c) \<le> te_fresh e" and "queued e = queued (tc_eng c)"
    and "locked U e = locked U (tc_eng c)" and "tc_holder c \<noteq> Idle" and "h \<noteq> Idle"
    and "\<And>b. holder_state (c\<lparr>tc_holder := h\<rparr>) = Some b \<Longrightarrow> b < te_fresh e"
    and "in_hand (c\<lparr>tc_holder := h\<rparr>) = in_hand c"
  shows "turn_inv K U (c\<lparr>tc_eng := e, tc_holder := h\<rparr>)"
  using turn_invD [OF assms(1)] assms(2-) by (simp add: turn_inv_def holder_state_def in_hand_def)

lemma inv_enter:
  assumes "turn_inv K U c" and "keeps K U (tc_eng c) e" and "a < te_fresh e" and "tc_holder c \<noteq> Idle" and "in_hand c = {#}"
  shows "turn_inv K U (enter_turn p m a e c)"
proof -
  have ok: "eng_ok K e" using assms(2) by (simp add: keeps_def)
  let ?e1 = "say p (m_ReplyCtx m) FailedToStartAgentSession e"
  let ?e2 = "send_agent a (queued_of p m) (upd_state a (\<lambda>s. s\<lparr>is_currentMessageID := m_MessageID m, is_fromVoice := m_FromVoice m\<rparr>) e)"
  have v: "view U ?e1 = view U e" "view U ?e2 = view U e" by simp_all
  have k: "keeps K U (tc_eng c) ?e1" "keeps K U (tc_eng c) ?e2"
    using keeps_trans [OF assms(2) keeps_view [OF ok v(1)]] keeps_trans [OF assms(2) keeps_view [OF ok v(2)]] by blast+
  have f: "a < te_fresh ?e2" using v(2) assms(3) unfolding view_eq by metis
  show ?thesis using inv_keeps [OF assms(1) k(1) assms(4), of Leaving] inv_keeps [OF assms(1) k(2) assms(4), of "Turn (Some (p, m)) a"]
      assms(5) f by (simp add: enter_turn_def holder_state_def in_hand_def)
qed

lemma inv_start:
  assumes "turn_inv K U c" and "tc_holder c = Starting p m"
  shows "turn_inv K U (start_turn K U env now p m c)"
proof -
  note I = turn_invD [OF assms(1)]
  let ?h = "user_history U now (m_Content m) (tc_eng c)"
  obtain e a where g: "getOrCreateInteractiveStateWith env now K p (m_ReplyCtx m) U ?h = (e, a)" by force
  have k1: "keeps K U (tc_eng c) ?h" by (rule keeps_view [OF I(1) view_history])
  have k2: "keeps K U ?h e" "a < te_fresh e" using getOrCreate_keeps [OF keeps_ok [OF k1] g] by simp_all
  have v: "view U (upd_state a (begin_turn p m) e) = view U e" by simp
  have "keeps K U (tc_eng c) (upd_state a (begin_turn p m) e)"
    by (rule keeps_trans [OF k1 keeps_trans [OF k2(1) keeps_view [OF keeps_ok [OF k2(1)] v]]])
  moreover have "a < te_fresh (upd_state a (begin_turn p m) e)" using k2(2) by (simp add: upd_state_def)
  ultimately have "turn_inv K U (enter_turn p m a (upd_state a (begin_turn p m) e) c)"
    by (rule inv_enter [OF assms(1)]) (simp_all add: assms(2) in_hand_def)
  then show ?thesis by (simp add: start_turn_def g)
qed

lemma inv_recycle:
  assumes "turn_inv K U c" and "tc_holder c = Turn (Some (p, m)) a"
  shows "turn_inv K U (turn_recycle K U confirmed env now p m a c)"
proof -
  note I = turn_invD [OF assms(1)]
  let ?r = "recycle_for_retry K confirmed a (tc_eng c)"
  obtain e b where g: "getOrCreateInteractiveStateWith env now K p (m_ReplyCtx m) U ?r = (e, b)" by force
  have k1: "keeps K U (tc_eng c) ?r" by (rule recycle_keeps [OF I(1)])
  have k2: "keeps K U ?r e" "b < te_fresh e" using getOrCreate_keeps [OF keeps_ok [OF k1] g] by simp_all
  have "turn_inv K U (enter_turn p m b e c)"
    by (rule inv_enter [OF assms(1) keeps_trans [OF k1 k2(1)] k2(2)]) (simp_all add: assms(2) in_hand_def)
  then show ?thesis by (simp add: turn_recycle_def g)
qed

lemma inv_fail:
  assumes "turn_inv K U c" and "tc_holder c = Turn r a"
  shows "turn_inv K U (turn_fail kind a c)"
proof -
  note I = turn_invD [OF assms(1)]
  let ?e = "upd_state a (\<lambda>s. s\<lparr>is_eventsNeedResync := True\<rparr>) (tc_eng c)"
  have a: "a < te_fresh (tc_eng c)" using I(3) assms(2) by (simp add: holder_state_def)
  have v: "view U ?e = view U (tc_eng c)" by simp
  have ok: "eng_ok K ?e" "a < te_fresh ?e" using view_ok [OF v] I(1) a by (simp_all add: upd_state_def)
  have q: "queue_at ?e a = queue_at (tc_eng c) a" by (simp add: queue_at_upd) (simp add: queue_at_def)
  have d: "drops K U a (tc_eng c) (notifyDroppedQueuedMessages kind a ?e)"
    by (rule view_drops [OF v notify_drops(1) [OF ok]])
  have "turn_inv K U (c\<lparr>tc_eng := notifyDroppedQueuedMessages kind a ?e, tc_holder := Draining a, tc_gone := tc_gone c @ queue_at (tc_eng c) a\<rparr>)"
    using d ok(2) a by (intro inv_drops [OF assms(1) d]) (auto simp: assms(2) holder_state_def in_hand_def drops_def)
  moreover have "turn_inv K U (c\<lparr>tc_eng := ?e, tc_holder := Draining a\<rparr>)"
    using ok(2) by (intro inv_keeps [OF assms(1) keeps_view [OF I(1) v]]) (auto simp: assms(2) holder_state_def in_hand_def)
  ultimately show ?thesis by (simp add: turn_fail_def Let_def q)
qed

lemma inv_closed:
  assumes "turn_inv K U c" and "tc_holder c = Turn r a"
  shows "turn_inv K U (turn_closed K confirmed a c)"
proof -
  note I = turn_invD [OF assms(1)]
  let ?e = "upd_state a (\<lambda>s. s\<lparr>is_eventsNeedResync := True\<rparr>) (tc_eng c)"
  let ?n = "notifyDroppedQueuedMessages ErrorKindUnknown a ?e"
  have a: "a < te_fresh (tc_eng c)" using I(3) assms(2) by (simp add: holder_state_def)
  have v: "view U ?e = view U (tc_eng c)" by simp
  have ok: "eng_ok K ?e" "a < te_fresh ?e" using view_ok [OF v] I(1) a by (simp_all add: upd_state_def)
  have q: "queue_at ?e a = queue_at (tc_eng c) a" by (simp add: queue_at_upd) (simp add: queue_at_def)
  have d: "drops K U a (tc_eng c) ?n" by (rule view_drops [OF v notify_drops(1) [OF ok]])
  have fn: "a < te_fresh ?n" using d a by (simp add: drops_def)
  have k: "keeps K U ?n (cleanupInteractiveState K (Some a) confirmed ?n)"
    by (rule cleanup_drops [OF drops_ok [OF d] fn]) (simp add: queue_at_clear)
  have "a < te_fresh (cleanupInteractiveState K (Some a) confirmed ?n)" using k fn by (simp add: keeps_def)
  then have "turn_inv K U (c\<lparr>tc_eng := cleanupInteractiveState K (Some a) confirmed ?n, tc_holder := Draining a,
      tc_gone := tc_gone c @ queue_at (tc_eng c) a\<rparr>)"
    by (intro inv_drops [OF assms(1) drops_keeps [OF d k]]) (auto simp: assms(2) holder_state_def in_hand_def)
  then show ?thesis by (simp add: turn_closed_def Let_def q)
qed

lemma inv_orphan:
  assumes "turn_inv K U c" and "tc_holder c = Orphan"
  shows "turn_inv K U (orphan_look K c)"
proof -
  note I = turn_invD [OF assms(1)]
  have n: "turn_inv K U (c\<lparr>tc_holder := Leaving\<rparr>)"
    using inv_keeps [OF assms(1) keeps_view [OF I(1) refl], of Leaving] assms(2) by (simp add: holder_state_def in_hand_def)
  show ?thesis
  proof (cases "state_of K (tc_eng c)")
    case None
    then show ?thesis using n by (simp add: orphan_look_def Let_def)
  next
    case (Some a)
    have a: "a < te_fresh (tc_eng c)" by (rule state_of_ok [OF I(1) Some])
    have "turn_inv K U (c\<lparr>tc_holder := Draining a\<rparr>)"
      using inv_keeps [OF assms(1) keeps_view [OF I(1) refl], of "Draining a"] assms(2) a by (simp add: holder_state_def in_hand_def)
    moreover have "turn_inv K U (c\<lparr>tc_eng := notifyDroppedQueuedMessages ErrorKindUnknown a (tc_eng c), tc_holder := Leaving,
        tc_gone := tc_gone c @ queue_at (tc_eng c) a\<rparr>)"
      by (rule inv_drops [OF assms(1) notify_drops(1) [OF I(1) a]]) (simp_all add: assms(2) holder_state_def in_hand_def)
    ultimately show ?thesis using Some by (simp add: orphan_look_def Let_def)
  qed
qed

text \<open>Steps that leave the holder where it is.\<close>

lemma inv_frame:
  assumes "turn_inv K U c" and "eng_ok K e" and "te_fresh (tc_eng c) \<le> te_fresh e" and "locked U e = locked U (tc_eng c)"
    and "mset xs + queued e = queued (tc_eng c)"
  shows "turn_inv K U (c\<lparr>tc_eng := e, tc_gone := tc_gone c @ xs\<rparr>)"
proof -
  have "holder_state (c\<lparr>tc_eng := e, tc_gone := tc_gone c @ xs\<rparr>) = holder_state c"
    "in_hand (c\<lparr>tc_eng := e, tc_gone := tc_gone c @ xs\<rparr>) = in_hand c" by (simp_all add: holder_state_def in_hand_def)
  moreover have "mset (tc_gone c @ xs) + queued e = mset (tc_gone c) + queued (tc_eng c)"
    using assms(5) by (simp add: add.assoc)
  ultimately show ?thesis using turn_invD [OF assms(1)] assms(2-4) less_le_trans
    unfolding turn_inv_def by (auto simp: ac_simps)
qed

lemma mset_filter_split: "mset (filter P xs) + mset (filter (\<lambda>x. \<not> P x) xs) = mset xs"
  by (induction xs) auto

lemma multiset_cancel: "x + q = y + b \<Longrightarrow> a + b = q \<Longrightarrow> a + x = (y :: 'a multiset)"
  by (metis add_right_cancel union_assoc union_commute)

lemma inv_recall:
  assumes "turn_inv K U c"
  shows "turn_inv K U (recall_step i c)"
proof -
  note I = turn_invD [OF assms]
  obtain e k where r: "removeQueuedMessageByID i (tc_eng c) = (e, k)" by force
  show ?thesis
  proof (cases k)
    case None
    then show ?thesis using r assms by (simp add: recall_step_def)
  next
    case (Some k')
    let ?f = "\<lambda>s. s\<lparr>is_pendingMessages := filter (\<lambda>q. qm_messageID q \<noteq> i) (is_pendingMessages s)\<rparr>"
    obtain a where a: "(k', a) \<in> set (te_interactiveStates (tc_eng c))" "e = upd_state a ?f (tc_eng c)"
      using r Some by (auto simp: removeQueuedMessageByID_def dest!: find_SomeD split: option.splits)
    then have k: "state_of k' (tc_eng c) = Some a" "a < te_fresh (tc_eng c)" using I(1) by (auto simp: eng_ok_def state_of_def)
    let ?q = "queue_at (tc_eng c) a"
    have "int (length (filter (\<lambda>q. qm_messageID q \<noteq> i) ?q)) \<le> te_maxQueuedMessages (tc_eng c)"
      using queue_bound [OF I(1) k(2)] length_filter_le [of "\<lambda>q. qm_messageID q \<noteq> i" ?q] by linarith
    then have "eng_ok K e" unfolding a(2) by (intro ok_upd [OF I(1)]) (simp add: queue_at_def)
    moreover have "mset (filter (\<lambda>q. qm_messageID q = i) ?q) + queued e = queued (tc_eng c)"
    proof (rule multiset_cancel [OF _ mset_filter_split])
      show "queued e + mset ?q = queued (tc_eng c) + mset (filter (\<lambda>q. qm_messageID q \<noteq> i) ?q)"
        unfolding a(2) using queued_upd [OF k(2), of ?f] by (simp add: queue_at_def)
    qed
    ultimately have "turn_inv K U (c\<lparr>tc_eng := e, tc_gone := tc_gone c @ filter (\<lambda>q. qm_messageID q = i) ?q\<rparr>)"
      by (intro inv_frame [OF assms]) (simp_all add: a(2) upd_state_def locked_def)
    then show ?thesis using r Some k(1) by (simp add: recall_step_def)
  qed
qed

lemma inv_stop:
  assumes "turn_inv K U c" and "stop_step K cancel confirmed notify c = Some c'"
  shows "turn_inv K U c'"
proof -
  note I = turn_invD [OF assms(1)]
  obtain e ok where s: "stopInteractiveSessionWithOptions cancel confirmed K notify (tc_eng c) = Some (e, ok)"
    using assms(2) by (auto simp: stop_step_def split: option.splits)
  show ?thesis
  proof (cases "state_of K (tc_eng c)")
    case None
    then have "e = tc_eng c" using stop_none [OF None I(1) s] by simp
    then show ?thesis using assms s None by (simp add: stop_step_def)
  next
    case (Some a)
    have d: "drops K U a (tc_eng c) e" by (rule stop_drops [OF I(1) Some s])
    then have "turn_inv K U (c\<lparr>tc_eng := e, tc_gone := tc_gone c @ queue_at (tc_eng c) a\<rparr>)"
      by (intro inv_frame [OF assms(1)]) (simp_all add: drops_def add.commute)
    then show ?thesis using assms(2) s Some by (simp add: stop_step_def)
  qed
qed

lemma inv_step:
  assumes "turn_inv K U c" and "turn_step K U l c = Some c'"
  shows "turn_inv K U c'"
proof (cases l)
  case (Leave now)
  then have h: "tc_holder c = Leaving" "c' = c\<lparr>tc_eng := unlock_session U now (tc_eng c), tc_holder := Idle\<rparr>"
    using assms(2) by (auto simp: turn_step_def split: holder.splits)
  have "locked U (unlock_session U now (tc_eng c)) = Some False"
    using unlock_facts turn_invD(2) [OF assms(1)] by blast
  then show ?thesis using h turn_invD [OF assms(1)]
    by (simp add: turn_inv_def holder_state_def in_hand_def unlock_session_def)
next
  case (Die n)
  have "turn_inv K U (c\<lparr>tc_eng := kill (Some n) (tc_eng c), tc_gone := tc_gone c @ []\<rparr>)"
    using keeps_view [OF turn_invD(1) [OF assms(1)] view_kill, of U "Some n"] by (intro inv_frame [OF assms(1)]) (simp_all add: keeps_def)
  then show ?thesis using assms(2) Die by (simp add: turn_step_def)
next
  case Quit
  then obtain r a where h: "tc_holder c = Turn r a" "c' = c\<lparr>tc_holder := Draining a\<rparr>"
    using assms(2) by (auto simp: turn_step_def split: holder.splits)
  have "turn_inv K U (c\<lparr>tc_eng := tc_eng c, tc_holder := Draining a\<rparr>)"
    using turn_invD(3) [OF assms(1), of a] h
    by (intro inv_keeps [OF assms(1) keeps_view [OF turn_invD(1) [OF assms(1)] refl]]) (auto simp: holder_state_def in_hand_def)
  then show ?thesis using h by simp
qed (use assms in \<open>auto simp: turn_step_def inv_arrive inv_enqueue inv_relock inv_start inv_result inv_fail inv_closed
      inv_recycle inv_drain inv_check inv_orphan inv_recall inv_stop split: holder.splits handler.splits if_splits option.splits\<close>)

lemma inv_reach: "turn_reach K U P c \<Longrightarrow> turn_inv K U c"
proof (induction rule: turn_reach.induct)
  case (init e)
  then show ?case
    by (auto simp: init_conf_def start_conf_def turn_inv_def eng_ok_def locked_def holder_state_def in_hand_def queued_def)
next
  case (step c l c')
  then show ?case using inv_step by blast
qed

end
