(* ===== verification/TurnQueueProofs.thy ===== *)
theory TurnQueueProofs
  imports TurnInvariant "HOL-Library.Sublist"
begin

text \<open>
  Runs in which the agent starts and no agent is recycled, torn down or stopped: the queue follows the conversation
  from state to state, its messages are taken in order, and it is never left without somebody who will look at it.
\<close>

definition cur_queue :: "string \<Rightarrow> turn_engine \<Rightarrow> queued_message list" where
  "cur_queue K e = (case state_of K e of Some a \<Rightarrow> queue_at e a | None \<Rightarrow> [])"

definition cur_agent :: "string \<Rightarrow> turn_engine \<Rightarrow> nat option" where
  "cur_agent K e = (case state_of K e of Some a \<Rightarrow> is_agentSession (te_heap e a) | None \<Rightarrow> None)"

definition hand_list :: "conf \<Rightarrow> queued_message list" where
  "hand_list c = (case tc_holder c of Checking a q \<Rightarrow> [q] | _ \<Rightarrow> [])"

text \<open>Steps of a healthy run.\<close>

definition healthy :: "string \<Rightarrow> string \<Rightarrow> label \<Rightarrow> conf \<Rightarrow> bool" where
  "healthy K U l c =
     (case l of
        Start env now \<Rightarrow>
          (case tc_holder c of
             Starting p m \<Rightarrow>
               tc_holder (start_turn K U env now p m c) \<noteq> Leaving
               \<and> (case cur_agent K (tc_eng c) of
                    Some n \<Rightarrow> \<not> (alive (tc_eng c) (Some n) \<and> mismatch U n (tc_eng c))
                  | None \<Rightarrow> True)
           | _ \<Rightarrow> True)
      | Closed confirmed \<Rightarrow> False
      | Recycle confirmed env now \<Rightarrow> False
      | Stop cancel confirmed notify \<Rightarrow> False
      | _ \<Rightarrow> True)"

definition queue_inv :: "string \<Rightarrow> string \<Rightarrow> conf \<Rightarrow> bool" where
  "queue_inv K U c \<longleftrightarrow> turn_inv K U c
     \<and> queued (tc_eng c) = mset (cur_queue K (tc_eng c))
     \<and> (\<forall>a. holder_state c = Some a \<longrightarrow> state_of K (tc_eng c) = Some a)
     \<and> (tc_holder c \<noteq> Idle \<or> tc_handlers c \<noteq> [] \<longrightarrow> state_of K (tc_eng c) \<noteq> None)
     \<and> ((\<forall>p m. tc_holder c \<noteq> Starting p m) \<and> state_of K (tc_eng c) \<noteq> None \<longrightarrow> cur_agent K (tc_eng c) \<noteq> None)
     \<and> (tc_holder c = Leaving \<longrightarrow> cur_queue K (tc_eng c) = [] \<and> \<not> alive (tc_eng c) (cur_agent K (tc_eng c)))
     \<and> (tc_holder c = Idle \<and> cur_queue K (tc_eng c) \<noteq> [] \<longrightarrow> Retrying \<in> set (tc_handlers c))
     \<and> subseq (tc_taken c @ hand_list c @ cur_queue K (tc_eng c)) (tc_accepted c)"

lemma queue_invD:
  assumes "queue_inv K U c"
  shows "turn_inv K U c" and "queued (tc_eng c) = mset (cur_queue K (tc_eng c))"
    and "holder_state c = Some a \<Longrightarrow> state_of K (tc_eng c) = Some a"
    and "tc_holder c \<noteq> Idle \<or> tc_handlers c \<noteq> [] \<Longrightarrow> state_of K (tc_eng c) \<noteq> None"
    and "(\<forall>p m. tc_holder c \<noteq> Starting p m) \<Longrightarrow> state_of K (tc_eng c) \<noteq> None \<Longrightarrow> cur_agent K (tc_eng c) \<noteq> None"
    and "tc_holder c = Leaving \<Longrightarrow> cur_queue K (tc_eng c) = [] \<and> \<not> alive (tc_eng c) (cur_agent K (tc_eng c))"
    and "tc_holder c = Idle \<Longrightarrow> cur_queue K (tc_eng c) \<noteq> [] \<Longrightarrow> Retrying \<in> set (tc_handlers c)"
    and "subseq (tc_taken c @ hand_list c @ cur_queue K (tc_eng c)) (tc_accepted c)"
  using assms by (simp_all add: queue_inv_def)

section \<open>What the operations do to the current queue and agent\<close>

text \<open>The part of an engine this invariant sees in addition.\<close>

definition agents :: "turn_engine \<Rightarrow> (nat \<Rightarrow> nat option) \<times> nat list" where
  "agents e = (\<lambda>a. is_agentSession (te_heap e a), te_alive e)"

lemma agents_eq: "agents e' = agents e \<longleftrightarrow> (\<forall>a. is_agentSession (te_heap e' a) = is_agentSession (te_heap e a)) \<and> te_alive e' = te_alive e"
  by (auto simp: agents_def fun_eq_iff)

lemma agents_upd: "(\<And>s. is_agentSession (f s) = is_agentSession s) \<Longrightarrow> agents (upd_state a f e) = agents e"
  by (simp add: agents_def upd_state_def fun_eq_iff)

lemma agents_simps [simp]:
  "agents (say p r n e) = agents e" "agents (upd_session V g e) = agents e" "agents (send_agent a q e) = agents e"
  "agents (upd_state a (\<lambda>s. s\<lparr>is_pendingMessages := qs\<rparr>) e) = agents e"
  "agents (upd_state a (\<lambda>s. s\<lparr>is_eventsNeedResync := b\<rparr>) e) = agents e"
  "agents (upd_state a (\<lambda>s. s\<lparr>is_currentMessageID := z, is_fromVoice := b\<rparr>) e) = agents e"
  "agents (upd_state a (begin_turn p m) e) = agents e"
  "agents (user_history V now content e) = agents e"
  "agents (noteUserTurnCompleted a e) = agents e"
  by (simp_all add: agents_upd begin_turn_def user_history_def noteUserTurnCompleted_def Let_def)
    (simp_all add: agents_def say_def upd_session_def send_agent_def fun_eq_iff split: option.splits)

lemma agents_note [simp]: "agents (noteUserMessageAccepted k t e) = agents e"
  by (auto simp: noteUserMessageAccepted_def intro!: agents_upd split: option.splits)

lemma agents_fold_say [simp]: "agents (fold (\<lambda>q. say (f q) (g q) (h q)) qs e) = agents e"
  by (induction qs arbitrary: e) simp_all

lemma agents_notify [simp]: "agents (notifyDroppedQueuedMessages kind a e) = agents e"
  by (simp add: notifyDroppedQueuedMessages_def)

lemma cur_view: "view U e' = view U e \<Longrightarrow> cur_queue K e' = cur_queue K e \<and> state_of K e' = state_of K e"
  using view_state_of [of U e' e K] unfolding view_eq cur_queue_def by (simp split: option.splits)

lemma cur_agent_eq: "agents e' = agents e \<Longrightarrow> state_of K e' = state_of K e \<Longrightarrow> cur_agent K e' = cur_agent K e \<and> te_alive e' = te_alive e"
  by (auto simp: cur_agent_def agents_eq split: option.splits)

lemma state_of_simps [simp]:
  "state_of K (upd_state a f e) = state_of K e" "state_of K (say p r n e) = state_of K e"
  "state_of K (upd_session V g e) = state_of K e"
  by (simp_all add: state_of_def upd_state_def say_def upd_session_def)

lemma state_of_fold_say [simp]: "state_of K (fold (\<lambda>q. say (f q) (g q) (h q)) qs e) = state_of K e"
  by (induction qs arbitrary: e) simp_all

lemma state_of_notify [simp]: "state_of K (notifyDroppedQueuedMessages kind a e) = state_of K e"
  by (simp add: notifyDroppedQueuedMessages_def)

definition seen :: "string \<Rightarrow> turn_engine \<Rightarrow> nat option \<times> queued_message list \<times> nat option \<times> nat list \<times> queued_message multiset" where
  "seen K e = (state_of K e, cur_queue K e, cur_agent K e, te_alive e, queued e)"

lemma seen_eq: "seen K e' = seen K e \<longleftrightarrow> state_of K e' = state_of K e \<and> cur_queue K e' = cur_queue K e
    \<and> cur_agent K e' = cur_agent K e \<and> te_alive e' = te_alive e \<and> queued e' = queued e"
  by (simp add: seen_def)

lemma seen_view: "view U e' = view U e \<Longrightarrow> agents e' = agents e \<Longrightarrow> seen K e' = seen K e"
  using cur_view [of U e' e K] cur_agent_eq [of e' e K] view_queued [of U e' e] by (auto simp: seen_eq)

lemma seen_session [simp]: "seen K (upd_session U f e) = seen K e"
  unfolding seen_eq cur_queue_def cur_agent_def by (simp add: session_parts split: option.splits)

lemma seen_unlock [simp]: "seen K (unlock_session U now e) = seen K e"
  by (simp add: unlock_session_def)

lemma seen_try_lock: "try_lock U e = (e', ok) \<Longrightarrow> seen K e' = seen K e"
  by (auto simp: try_lock_def split: option.splits)

lemma queue_inv_frame:
  assumes "queue_inv K U c" and "turn_inv K U c'"
    and "seen K (tc_eng c') = seen K (tc_eng c)"
    and "tc_taken c' = tc_taken c" and "tc_accepted c' = tc_accepted c" and "hand_list c' = hand_list c"
    and "\<And>a. holder_state c' = Some a \<Longrightarrow> state_of K (tc_eng c) = Some a"
    and "tc_holder c' \<noteq> Idle \<or> tc_handlers c' \<noteq> [] \<Longrightarrow> state_of K (tc_eng c) \<noteq> None"
    and "(\<forall>p m. tc_holder c' \<noteq> Starting p m) \<Longrightarrow> (\<forall>p m. tc_holder c \<noteq> Starting p m) \<or> cur_agent K (tc_eng c) \<noteq> None"
    and "tc_holder c' = Leaving \<Longrightarrow> cur_queue K (tc_eng c) = [] \<and> \<not> alive (tc_eng c) (cur_agent K (tc_eng c))"
    and "tc_holder c' = Idle \<Longrightarrow> cur_queue K (tc_eng c) \<noteq> [] \<Longrightarrow> Retrying \<in> set (tc_handlers c')"
  shows "queue_inv K U c'"
proof -
  note Q = queue_invD [OF assms(1)]
  have s: "state_of K (tc_eng c') = state_of K (tc_eng c)" "cur_queue K (tc_eng c') = cur_queue K (tc_eng c)"
    "cur_agent K (tc_eng c') = cur_agent K (tc_eng c)" "te_alive (tc_eng c') = te_alive (tc_eng c)" "queued (tc_eng c') = queued (tc_eng c)"
    using assms(3) by (simp_all add: seen_eq)
  have al: "alive (tc_eng c') x = alive (tc_eng c) x" for x using s(4) by (cases x) simp_all
  show ?thesis unfolding queue_inv_def s al assms(4-6)
    using assms(2,7-11) Q by auto
qed

section \<open>The steps\<close>

lemma queue_arrive:
  assumes "queue_inv K U c"
  shows "queue_inv K U (arrive K U p m now c)"
proof -
  note Q = queue_invD [OF assms] and I = turn_invD [OF queue_invD(1) [OF assms]]
  let ?e0 = "ensureInteractiveStateForQueueing K p (m_ReplyCtx m) (tc_eng c)"
  obtain e ok where t: "try_lock U ?e0 = (e, ok)" by force
  have k0: "keeps K U (tc_eng c) ?e0" by (rule ensure_keeps [OF I(1)])
  have l: "locked U ?e0 = Some (tc_holder c \<noteq> Idle)" using k0 I(2) by (simp add: keeps_def)
  note f = try_lock_facts [OF l t]
  have st: "state_of K ?e0 \<noteq> None"
    by (auto simp: ensureInteractiveStateForQueueing_def put_state_def state_of_def update_conv split: option.splits)
  have cq0: "cur_queue K ?e0 = cur_queue K (tc_eng c)"
    by (auto simp: ensureInteractiveStateForQueueing_def cur_queue_def queue_at_put new_state_def split: option.splits)
      (auto simp: put_state_def state_of_def update_conv)
  have cq: "cur_queue K e = cur_queue K (tc_eng c)" "state_of K e \<noteq> None"
    using cq0 st f(6) [of K] f(9) by (auto simp: cur_queue_def split: option.splits)
  show ?thesis
  proof (cases "ok")
    case False
    then have "tc_holder c \<noteq> Idle" using f(1) by simp
    then have "?e0 = tc_eng c" using Q(4) by (auto simp: ensureInteractiveStateForQueueing_def split: option.splits)
    then have st': "state_of K e = state_of K (tc_eng c)" and ag: "cur_agent K e = cur_agent K (tc_eng c)" "te_alive e = te_alive (tc_eng c)"
      using f(6) [of K] f(7,8) by (auto simp: cur_agent_def split: option.splits)
    have "queue_inv K U (c\<lparr>tc_eng := e, tc_handlers := tc_handlers c @ [Queueing p m]\<rparr>)"
      if "\<not> discardStaleUserMessageIfNeeded K m (tc_eng c)"
    proof -
      have "turn_inv K U (c\<lparr>tc_eng := e, tc_handlers := tc_handlers c @ [Queueing p m]\<rparr>)"
        using inv_arrive [OF Q(1), of p m now] that t False by (simp add: arrive_def)
      moreover have "queued e = queued (tc_eng c)" using f(4) k0 by (simp add: keeps_def)
      ultimately show ?thesis using Q(2-8) cq \<open>tc_holder c \<noteq> Idle\<close> st' ag unfolding queue_inv_def
        by (auto simp: hand_list_def holder_state_def)
    qed
    then show ?thesis using t False assms by (simp add: arrive_def)
  next
    case True
    then have idle: "tc_holder c = Idle" using f(1) by simp
    let ?e1 = "upd_session U (TouchUserActivity now) e"
    let ?e2 = "ensureInteractiveStateForQueueing K p (m_ReplyCtx m) ?e1"
    let ?e3 = "noteUserMessageAccepted K (m_UserMessageTimeMs m) ?e2"
    have e2: "?e2 = ?e1" using cq(2) by (auto simp: ensureInteractiveStateForQueueing_def split: option.splits)
    have v: "view U ?e3 = view U e" unfolding e2 by simp
    have cq3: "cur_queue K ?e3 = cur_queue K (tc_eng c)" "state_of K ?e3 \<noteq> None" "queued ?e3 = queued (tc_eng c)"
      using cur_view [OF v, of K] cq view_queued [OF v] f(4) k0 by (auto simp: keeps_def)
    have "queue_inv K U (c\<lparr>tc_eng := ?e3, tc_holder := Starting p m\<rparr>)" if "\<not> discardStaleUserMessageIfNeeded K m (tc_eng c)"
    proof -
      have "turn_inv K U (c\<lparr>tc_eng := ?e3, tc_holder := Starting p m\<rparr>)"
        using inv_arrive [OF Q(1), of p m now] that t True by (simp add: arrive_def)
      then show ?thesis using Q(2,8) cq3 idle unfolding queue_inv_def by (auto simp: hand_list_def holder_state_def)
    qed
    then show ?thesis using t True assms by (simp add: arrive_def)
  qed
qed

lemma set_list_update_new: "i < length xs \<Longrightarrow> x \<in> set (xs[i := x])"
  by (metis in_set_conv_nth length_list_update nth_list_update_eq)

lemma set_remove_other: "x \<in> set xs \<Longrightarrow> i < length xs \<Longrightarrow> xs ! i \<noteq> x \<Longrightarrow> x \<in> set (take i xs @ drop (Suc i) xs)"
  using id_take_nth_drop [of i xs] by (metis Un_iff set_ConsD set_append)

lemma queue_enqueue:
  assumes "queue_inv K U c" and "i < length (tc_handlers c)" and "tc_handlers c ! i = Queueing p m"
  shows "queue_inv K U (enqueue K i p m c)"
proof -
  note Q = queue_invD [OF assms(1)] and I = turn_invD [OF queue_invD(1) [OF assms(1)]]
  let ?e = "tc_eng c"
  have inv: "turn_inv K U (enqueue K i p m c)" by (rule inv_enqueue [OF Q(1)])
  obtain e' ok where q: "queueMessageForBusySession p m K ?e = (e', ok)" by force
  have "tc_handlers c \<noteq> []" using assms(2) by auto
  then obtain a where a: "state_of K ?e = Some a" using Q(4) by auto
  have ret: "Retrying \<in> set ((tc_handlers c)[i := Retrying])" by (rule set_list_update_new [OF assms(2)])
  have keep: "Retrying \<in> set (tc_handlers c) \<Longrightarrow> Retrying \<in> set (take i (tc_handlers c) @ drop (Suc i) (tc_handlers c))"
    using set_remove_other [OF _ assms(2)] assms(3) by simp
  let ?s = "te_heap ?e a"
  have cases: "(e' = ?e \<and> \<not> ok) \<or> (e' = ?e \<and> ok) \<or> (ok \<and> e' = say p (m_ReplyCtx m) (QueueFull (length (queue_at ?e a))) ?e)
    \<or> (ok \<and> (is_agentSession ?s = None \<or> alive ?e (is_agentSession ?s))
         \<and> e' = say p (m_ReplyCtx m) MessageQueued (upd_state a (\<lambda>s. s\<lparr>is_pendingMessages := is_pendingMessages s @ [queued_of p m]\<rparr>) ?e))"
    using q a by (auto simp: queueMessageForBusySession_def Let_def queue_at_def split: if_splits)
  let ?add = "say p (m_ReplyCtx m) MessageQueued (upd_state a (\<lambda>s. s\<lparr>is_pendingMessages := is_pendingMessages s @ [queued_of p m]\<rparr>) ?e)"
  show ?thesis
  proof (cases "e' = ?add \<and> ok \<and> (is_agentSession ?s = None \<or> alive ?e (is_agentSession ?s))")
    case True
    have st: "state_of K e' = Some a" using True a by simp
    have qa: "queue_at e' a = queue_at ?e a @ [queued_of p m]" using True by (simp add: queue_at_def say_def upd_state_def)
    have c': "enqueue K i p m c = c\<lparr>tc_eng := e', tc_handlers := (tc_handlers c)[i := Retrying], tc_accepted := tc_accepted c @ [queued_of p m]\<rparr>"
      using q True a qa by (simp add: enqueue_def Let_def)
    have cq: "cur_queue K e' = cur_queue K ?e @ [queued_of p m]" using st a qa by (simp add: cur_queue_def)
    have "agents e' = agents ?e"
      unfolding conjunct1 [OF True] agents_simps by (rule agents_upd) simp
    then have ag: "cur_agent K e' = cur_agent K ?e" "te_alive e' = te_alive ?e"
      using cur_agent_eq [of e' ?e K] st a by auto
    have "mset (tc_accepted c @ [queued_of p m]) = mset (tc_taken c) + mset (tc_gone c) + queued e' + in_hand c"
      using inv unfolding c' by (simp add: turn_inv_def in_hand_def)
    then have "queued e' = queued ?e + {#queued_of p m#}" using I(4) by (simp add: ac_simps)
    then have qd: "queued e' = mset (cur_queue K e')" using Q(2) cq by simp
    have "tc_holder c \<noteq> Leaving"
    proof
      assume h: "tc_holder c = Leaving"
      then have "cur_agent K ?e \<noteq> None" using Q(5) a by simp
      then show False using Q(6) [OF h] True a by (simp add: cur_agent_def)
    qed
    moreover have "subseq (tc_taken c @ hand_list c @ cur_queue K e') (tc_accepted c @ [queued_of p m])"
      using list_emb_append_mono [OF Q(8) subseq_order.refl, of "[queued_of p m]"] cq by simp
    ultimately show ?thesis using inv Q(3-7) qd cq ag st a ret unfolding c' queue_inv_def
      by (auto simp: hand_list_def holder_state_def)
  next
    case False
    then have v: "view U e' = view U ?e" "agents e' = agents ?e" using cases by auto
    have v': "view U (say p (m_ReplyCtx m) PreviousProcessing e') = view U ?e" "agents (say p (m_ReplyCtx m) PreviousProcessing e') = agents ?e"
      using v by simp_all
    have nogrow: "queue_at e' a = queue_at ?e a" using v(1) unfolding view_eq by simp
    have c': "enqueue K i p m c = (if ok then c\<lparr>tc_eng := e', tc_handlers := (tc_handlers c)[i := Retrying]\<rparr>
        else c\<lparr>tc_eng := say p (m_ReplyCtx m) PreviousProcessing e', tc_handlers := take i (tc_handlers c) @ drop (Suc i) (tc_handlers c)\<rparr>)"
      using q a nogrow by (simp add: enqueue_def Let_def)
    show ?thesis
      by (rule queue_inv_frame [OF assms(1) inv]) (use c' seen_view [OF v, of K] seen_view [OF v', of K] Q a ret keep in \<open>auto simp: hand_list_def holder_state_def split: if_splits\<close>)
  qed
qed


lemma queue_relock:
  assumes "queue_inv K U c" and "i < length (tc_handlers c)"
  shows "queue_inv K U (relock U i c)"
proof -
  note Q = queue_invD [OF assms(1)]
  obtain e ok where t: "try_lock U (tc_eng c) = (e, ok)" by force
  have ok: "ok \<longleftrightarrow> tc_holder c = Idle" using try_lock_facts(1) [OF turn_invD(2) [OF Q(1)] t] by simp
  have "tc_handlers c \<noteq> []" using assms(2) by auto
  then have st: "state_of K (tc_eng c) \<noteq> None" using Q(4) by blast
  show ?thesis
    by (rule queue_inv_frame [OF assms(1) inv_relock [OF Q(1)]])
      (use t ok Q st seen_try_lock [OF t] in \<open>auto simp: relock_def Let_def hand_list_def holder_state_def\<close>)
qed

lemma getOrCreate_queue:
  assumes "eng_ok K e" and "getOrCreateInteractiveStateWith env now K p rctx sk e = (e', a)"
    and "is_agentSession (te_heap e' a) \<noteq> None"
    and "\<And>n. cur_agent K e = Some n \<Longrightarrow> alive e (Some n) \<Longrightarrow> \<not> mismatch sk n e"
  shows "queue_at e' a = cur_queue K e"
proof -
  let ?e = "if se_slot env then e else say p rctx SessionSlotUnavailable e"
  have v: "view U ?e = view U e" for U by simp
  have ag: "agents ?e = agents e" by simp
  have ok: "eng_ok K ?e" using view_ok [OF v] assms(1) by simp
  have cq: "cur_queue K ?e = cur_queue K e" "state_of K ?e = state_of K e" using cur_view [OF v] by blast+
  have ca: "cur_agent K ?e = cur_agent K e" "te_alive ?e = te_alive e" using cur_agent_eq [OF ag cq(2)] by blast+
  have mm: "mismatch sk n ?e = mismatch sk n e" for n by (simp add: mismatch_def say_def)
  have sp: "queue_at e' a = cur_queue K e" if "spawn env now K p rctx sk ?e = (e', a)"
    using spawn_keeps [OF ok that] cq by (simp add: cur_queue_def)
  have inst: False if "install K (new_state None p rctx 0) ?e = (e', a)"
    using install_keeps(4) [OF ok _ that] assms(3) by (simp add: new_state_def)
  show ?thesis
  proof (cases "cur_agent K ?e")
    case None
    then have "(if se_slot env then spawn env now K p rctx sk ?e else install K (new_state None p rctx 0) ?e) = (e', a)"
      using assms(2) by (auto simp: getOrCreateInteractiveStateWith_def Let_def cur_agent_def split: option.splits if_splits)
    then show ?thesis using sp inst by (auto split: if_splits)
  next
    case (Some n)
    then obtain b where b: "state_of K ?e = Some b" "is_agentSession (te_heap ?e b) = Some n"
      by (auto simp: cur_agent_def split: option.splits)
    have g: "getOrCreateInteractiveStateWith env now K p rctx sk e =
          (if \<not> alive ?e (Some n) then
             (if se_slot env then spawn env now K p rctx sk ?e else install K (new_state None p rctx 0) ?e)
           else if \<not> se_slot env \<or> \<not> mismatch sk n ?e then (?e, b)
           else spawn env now K p rctx sk (forget_state K (close_state K (te_heap ?e b) (se_confirmed env) (markStopped b ?e))))"
      using b by (simp only: getOrCreateInteractiveStateWith_def Let_def option.case)
    show ?thesis
    proof (cases "alive ?e (Some n)")
      case True
      then have "\<not> mismatch sk n ?e" using assms(4) [of n] Some ca mm by simp
      then have "(?e, b) = (e', a)" using g True assms(2) by simp
      then show ?thesis using b cq by (auto simp: cur_queue_def)
    next
      case False
      then have "(if se_slot env then spawn env now K p rctx sk ?e else install K (new_state None p rctx 0) ?e) = (e', a)"
        using g assms(2) by simp
      then show ?thesis using sp inst by (auto split: if_splits)
    qed
  qed
qed

lemma queue_start:
  assumes "queue_inv K U c" and "tc_holder c = Starting p m" and "healthy K U (Start env now) c"
  shows "queue_inv K U (start_turn K U env now p m c)"
proof -
  note Q = queue_invD [OF assms(1)] and I = turn_invD [OF queue_invD(1) [OF assms(1)]]
  let ?h = "user_history U now (m_Content m) (tc_eng c)"
  obtain e a where g: "getOrCreateInteractiveStateWith env now K p (m_ReplyCtx m) U ?h = (e, a)" by force
  have v: "view U ?h = view U (tc_eng c)" by simp
  have k1: "keeps K U (tc_eng c) ?h" by (rule keeps_view [OF I(1) v])
  have k2: "keeps K U ?h e" "state_of K e = Some a" using getOrCreate_keeps [OF keeps_ok [OF k1] g] by simp_all
  let ?d = "upd_state a (begin_turn p m) e"
  have st: "start_turn K U env now p m c = enter_turn p m a ?d c" by (simp add: start_turn_def g)
  have nl: "tc_holder (enter_turn p m a ?d c) \<noteq> Leaving" using assms(2,3) st by (simp add: healthy_def)
  then have agd: "is_agentSession (te_heap ?d a) \<noteq> None" by (simp add: enter_turn_def split: if_splits)
  then have ag: "is_agentSession (te_heap e a) \<noteq> None" by (simp add: upd_state_def begin_turn_def)
  have sv: "seen K ?h = seen K (tc_eng c)" by (rule seen_view [OF v]) simp
  have mm: "mismatch U n ?h = mismatch U n (tc_eng c)" for n
    by (auto simp: mismatch_def user_history_def upd_session_def gomap AddHistory_def split: option.splits)
  have "queue_at e a = cur_queue K ?h"
  proof (rule getOrCreate_queue [OF keeps_ok [OF k1] g ag])
    fix n assume n: "cur_agent K ?h = Some n" "alive ?h (Some n)"
    have "cur_agent K (tc_eng c) = Some n" "te_alive ?h = te_alive (tc_eng c)" using n(1) sv unfolding seen_eq by metis+
    then show "\<not> mismatch U n ?h" using assms(2,3) n(2) by (simp add: healthy_def mm)
  qed
  then have qa: "queue_at e a = cur_queue K (tc_eng c)" using sv by (simp add: seen_eq)
  let ?f = "send_agent a (queued_of p m) (upd_state a (\<lambda>s. s\<lparr>is_currentMessageID := m_MessageID m, is_fromVoice := m_FromVoice m\<rparr>) ?d)"
  have vf: "view U ?f = view U e" "agents ?f = agents e" by simp_all
  have c': "start_turn K U env now p m c = c\<lparr>tc_eng := ?f, tc_holder := Turn (Some (p, m)) a\<rparr>"
    using st agd by (simp add: enter_turn_def)
  have sf: "seen K ?f = seen K e" by (rule seen_view [OF vf])
  have "queued e = queued (tc_eng c)" using k1 k2 by (simp add: keeps_def)
  then have "state_of K ?f = Some a" "cur_queue K ?f = cur_queue K (tc_eng c)" "queued ?f = queued (tc_eng c)" "cur_agent K ?f \<noteq> None"
    using sf k2(2) qa ag by (auto simp: seen_eq) (auto simp: cur_queue_def cur_agent_def)
  then show ?thesis using inv_start [OF Q(1) assms(2), of env now] Q(2,8) assms(2) unfolding c' queue_inv_def
    by (auto simp: hand_list_def holder_state_def)
qed

lemma subseq_skip: "subseq (xs @ ys @ zs) ws \<Longrightarrow> subseq (xs @ zs) ws"
  by (rule subseq_order.trans [OF list_emb_append_mono [OF subseq_order.refl list_emb_append2 [OF subseq_order.refl]]])

lemma take_next_cur:
  assumes "eng_ok K e" and "state_of K e = Some a" and "queued e = mset (cur_queue K e)" and "take_next a e = (e', nq)"
  shows "state_of K e' = Some a" and "cur_agent K e' = cur_agent K e" and "te_alive e' = te_alive e"
    and "cur_queue K e = fst (drop_stale (te_heap e a)) @ (case nq of Some q \<Rightarrow> [q] | None \<Rightarrow> []) @ cur_queue K e'"
    and "queued e' = mset (cur_queue K e')" and "nq = None \<Longrightarrow> cur_queue K e' = []"
proof -
  note ts = take_next_split [OF assms(1) state_of_ok [OF assms(1,2)] assms(4)]
  show st: "state_of K e' = Some a" using ts(5) assms(2) by simp
  show "cur_agent K e' = cur_agent K e" "te_alive e' = te_alive e" using ts(6,7) st assms(2) by (simp_all add: cur_agent_def)
  show cq: "cur_queue K e = fst (drop_stale (te_heap e a)) @ (case nq of Some q \<Rightarrow> [q] | None \<Rightarrow> []) @ cur_queue K e'"
    using ts(8) st assms(2) by (simp add: cur_queue_def)
  show "nq = None \<Longrightarrow> cur_queue K e' = []" using ts(10) st by (simp add: cur_queue_def)
  have "mset (fst (drop_stale (te_heap e a))) + mset (case nq of Some q \<Rightarrow> [q] | None \<Rightarrow> []) + queued e' =
      mset (fst (drop_stale (te_heap e a))) + mset (case nq of Some q \<Rightarrow> [q] | None \<Rightarrow> []) + mset (cur_queue K e')"
    using ts(4) assms(3) unfolding cq by (cases nq) simp_all
  then show "queued e' = mset (cur_queue K e')" by simp
qed

lemma clear_cur:
  assumes "eng_ok K e" and "state_of K e = Some a" and "queued e = mset (cur_queue K e)"
  shows "cur_queue K (notifyDroppedQueuedMessages kind a e) = []" and "queued (notifyDroppedQueuedMessages kind a e) = {#}"
    and "cur_agent K (notifyDroppedQueuedMessages kind a e) = cur_agent K e"
    and "te_alive (notifyDroppedQueuedMessages kind a e) = te_alive e"
proof -
  have st: "state_of K (notifyDroppedQueuedMessages kind a e) = Some a" using assms(2) by simp
  show "cur_queue K (notifyDroppedQueuedMessages kind a e) = []" using st by (simp add: cur_queue_def queue_at_clear)
  have "drops K U a e (notifyDroppedQueuedMessages kind a e)" for U
    by (rule notify_drops(1) [OF assms(1) state_of_ok [OF assms(1,2)]])
  then show "queued (notifyDroppedQueuedMessages kind a e) = {#}" using assms(2,3) by (simp add: drops_def cur_queue_def)
  show "cur_agent K (notifyDroppedQueuedMessages kind a e) = cur_agent K e"
    "te_alive (notifyDroppedQueuedMessages kind a e) = te_alive e"
    using cur_agent_eq [OF agents_notify [of kind a e]] assms(2) by auto
qed

lemma subseq_drop_end: "subseq (xs @ ys) ws \<Longrightarrow> subseq xs ws"
  using subseq_skip [of xs ys "[]" ws] by simp

lemma queue_result:
  assumes "queue_inv K U c" and "tc_holder c = Turn r a"
  shows "queue_inv K U (turn_result U now r a c)"
proof -
  note Q = queue_invD [OF assms(1)] and I = turn_invD [OF queue_invD(1) [OF assms(1)]]
  let ?e0 = "upd_state a (\<lambda>s. s\<lparr>is_eventsNeedResync := False\<rparr>) (noteUserTurnCompleted a (tc_eng c))"
  have v0: "view U ?e0 = view U (tc_eng c)" "agents ?e0 = agents (tc_eng c)" by simp_all
  note s0 = seen_view [OF v0, of K]
  have ok0: "eng_ok K ?e0" using view_ok [OF v0(1)] I(1) by simp
  have a: "state_of K (tc_eng c) = Some a" using Q(3) assms(2) by (simp add: holder_state_def)
  obtain e nq where t: "take_next a ?e0 = (e, nq)" by force
  have st0: "state_of K ?e0 = Some a" and q0: "queued ?e0 = mset (cur_queue K ?e0)" using s0 a Q(2) by (simp_all add: seen_eq)
  note tc = take_next_cur [OF ok0 st0 q0 t]
  have ag: "cur_agent K e \<noteq> None" using tc(2) s0 Q(5) assms(2) a by (simp add: seen_eq)
  have sub: "subseq (tc_taken c @ fst (drop_stale (te_heap ?e0 a)) @ (case nq of Some q \<Rightarrow> [q] | None \<Rightarrow> []) @ cur_queue K e) (tc_accepted c)"
    using Q(8) s0 tc(4) assms(2) by (simp add: hand_list_def seen_eq)
  note sub' = subseq_skip [OF sub]
  note inv = inv_result [OF Q(1) assms(2), of now]
  show ?thesis
  proof (cases nq)
    case None
    have "turn_result U now r a c = c\<lparr>tc_eng := e, tc_holder := Draining a, tc_gone := tc_gone c @ fst (drop_stale (te_heap ?e0 a))\<rparr>"
      using t None by (simp add: turn_result_def Let_def)
    then show ?thesis using inv tc(1,5) ag sub' None unfolding queue_inv_def by (auto simp: hand_list_def holder_state_def)
  next
    case (Some q)
    let ?f = "user_history U now (qm_content q) (send_agent a q e)"
    have c': "turn_result U now r a c = c\<lparr>tc_eng := ?f, tc_holder := Turn r a, tc_taken := tc_taken c @ [q],
        tc_gone := tc_gone c @ fst (drop_stale (te_heap ?e0 a))\<rparr>"
      using t Some by (simp add: turn_result_def Let_def)
    have "view U ?f = view U e" "agents ?f = agents e" by simp_all
    note sf = seen_view [OF this, of K]
    then show ?thesis using inv tc(1,5) ag sub' Some unfolding c' queue_inv_def
      by (auto simp: hand_list_def holder_state_def seen_eq)
  qed
qed

lemma queue_drain:
  assumes "queue_inv K U c" and "tc_holder c = Draining a"
  shows "queue_inv K U (drain_step U now a c)"
proof -
  note Q = queue_invD [OF assms(1)] and I = turn_invD [OF queue_invD(1) [OF assms(1)]]
  let ?e = "tc_eng c"
  have a: "state_of K ?e = Some a" using Q(3) assms(2) by (simp add: holder_state_def)
  obtain e nq where t: "take_next a ?e = (e, nq)" by force
  note tc = take_next_cur [OF I(1) a Q(2) t]
  have ag: "cur_agent K e \<noteq> None" using tc(2) Q(5) assms(2) a by simp
  have sub: "subseq (tc_taken c @ fst (drop_stale (te_heap ?e a)) @ (case nq of Some q \<Rightarrow> [q] | None \<Rightarrow> []) @ cur_queue K e) (tc_accepted c)"
    using Q(8) tc(4) assms(2) by (simp add: hand_list_def)
  note sub' = subseq_skip [OF sub]
  note inv = inv_drain [OF Q(1) assms(2), of now]
  show ?thesis
  proof (cases nq)
    case None
    have c': "drain_step U now a c = c\<lparr>tc_eng := unlock_session U now e, tc_holder := Idle, tc_gone := tc_gone c @ fst (drop_stale (te_heap ?e a))\<rparr>"
      using t None by (simp add: drain_step_def Let_def)
    note su = seen_unlock [of K U now e, unfolded seen_eq]
    show ?thesis using inv tc(1,5,6) ag sub' None su unfolding c' queue_inv_def
      by (auto simp: hand_list_def holder_state_def seen_eq)
  next
    case (Some q)
    have "drain_step U now a c = c\<lparr>tc_eng := e, tc_holder := Checking a q, tc_gone := tc_gone c @ fst (drop_stale (te_heap ?e a))\<rparr>"
      using t Some by (simp add: drain_step_def Let_def)
    then show ?thesis using inv tc(1,5) ag sub' Some unfolding queue_inv_def by (auto simp: hand_list_def holder_state_def)
  qed
qed

lemma queue_check:
  assumes "queue_inv K U c" and "tc_holder c = Checking a q"
  shows "queue_inv K U (check_step U now a q c)"
proof -
  note Q = queue_invD [OF assms(1)] and I = turn_invD [OF queue_invD(1) [OF assms(1)]]
  have a: "state_of K (tc_eng c) = Some a" using Q(3) assms(2) by (simp add: holder_state_def)
  have ag: "cur_agent K (tc_eng c) = is_agentSession (te_heap (tc_eng c) a)" using a by (simp add: cur_agent_def)
  have ne: "cur_agent K (tc_eng c) \<noteq> None" using Q(5) assms(2) a by simp
  note inv = inv_check [OF Q(1) assms(2), of now]
  show ?thesis
  proof (cases "alive (tc_eng c) (is_agentSession (te_heap (tc_eng c) a))")
    case True
    let ?f = "send_agent a q (user_history U now (qm_content q) (tc_eng c))"
    have "view U ?f = view U (tc_eng c)" "agents ?f = agents (tc_eng c)" by simp_all
    note sf = seen_view [OF this, of K]
    have c': "check_step U now a q c = c\<lparr>tc_eng := ?f, tc_holder := Turn None a, tc_taken := tc_taken c @ [q]\<rparr>"
      using True by (simp add: check_step_def Let_def)
    show ?thesis using inv Q(2,8) a ne sf assms(2) unfolding c' queue_inv_def
      by (auto simp: hand_list_def holder_state_def seen_eq)
  next
    case False
    let ?e = "say (qm_platform q) (qm_replyCtx q) QueuedMessageDropped (tc_eng c)"
    have v: "view U ?e = view U (tc_eng c)" "agents ?e = agents (tc_eng c)" by simp_all
    note s = seen_view [OF v, of K]
    have ok: "eng_ok K ?e" using view_ok [OF v(1)] I(1) by simp
    have st: "state_of K ?e = Some a" and qd: "queued ?e = mset (cur_queue K ?e)" using s a Q(2) by (simp_all add: seen_eq)
    note cl = clear_cur [OF ok st qd, of ErrorKindUnknown]
    have ca: "cur_agent K ?e = cur_agent K (tc_eng c)" "te_alive ?e = te_alive (tc_eng c)" using s by (simp_all add: seen_eq)
    have c': "check_step U now a q c = c\<lparr>tc_eng := notifyDroppedQueuedMessages ErrorKindUnknown a ?e,
        tc_holder := Leaving, tc_gone := tc_gone c @ [q] @ queue_at (tc_eng c) a\<rparr>"
      using False by (simp add: check_step_def Let_def)
    have sub: "subseq (tc_taken c) (tc_accepted c)" using subseq_drop_end Q(8) by blast
    show ?thesis using inv cl ca ne st a sub False ag unfolding c' queue_inv_def
      by (auto simp: hand_list_def holder_state_def)
  qed
qed

lemma queue_orphan:
  assumes "queue_inv K U c" and "tc_holder c = Orphan"
  shows "queue_inv K U (orphan_look K c)"
proof -
  note Q = queue_invD [OF assms(1)] and I = turn_invD [OF queue_invD(1) [OF assms(1)]]
  obtain a where a: "state_of K (tc_eng c) = Some a" using Q(4) assms(2) by auto
  have ag: "cur_agent K (tc_eng c) = is_agentSession (te_heap (tc_eng c) a)" using a by (simp add: cur_agent_def)
  have ne: "cur_agent K (tc_eng c) \<noteq> None" using Q(5) assms(2) a by simp
  note inv = inv_orphan [OF Q(1) assms(2)]
  note cl = clear_cur [OF I(1) a Q(2), of ErrorKindUnknown]
  show ?thesis
  proof (cases "alive (tc_eng c) (is_agentSession (te_heap (tc_eng c) a))")
    case True
    then have c': "orphan_look K c = c\<lparr>tc_holder := Draining a\<rparr>" using a by (simp add: orphan_look_def Let_def)
    show ?thesis using inv Q(2,8) a ne assms(2) unfolding c' queue_inv_def by (auto simp: hand_list_def holder_state_def)
  next
    case False
    have c': "orphan_look K c = c\<lparr>tc_eng := notifyDroppedQueuedMessages ErrorKindUnknown a (tc_eng c), tc_holder := Leaving,
        tc_gone := tc_gone c @ queue_at (tc_eng c) a\<rparr>"
      using a False by (simp add: orphan_look_def Let_def)
    have sub: "subseq (tc_taken c) (tc_accepted c)" using subseq_drop_end Q(8) by blast
    show ?thesis using inv cl ne a sub False ag unfolding c' queue_inv_def by (auto simp: hand_list_def holder_state_def)
  qed
qed

lemma queue_fail:
  assumes "queue_inv K U c" and "tc_holder c = Turn r a"
  shows "queue_inv K U (turn_fail kind a c)"
proof -
  note Q = queue_invD [OF assms(1)] and I = turn_invD [OF queue_invD(1) [OF assms(1)]]
  let ?e = "upd_state a (\<lambda>s. s\<lparr>is_eventsNeedResync := True\<rparr>) (tc_eng c)"
  have a: "state_of K (tc_eng c) = Some a" using Q(3) assms(2) by (simp add: holder_state_def)
  have v: "view U ?e = view U (tc_eng c)" "agents ?e = agents (tc_eng c)" by simp_all
  note s = seen_view [OF v, of K]
  have ok: "eng_ok K ?e" using view_ok [OF v(1)] I(1) by simp
  have st: "state_of K ?e = Some a" and qd: "queued ?e = mset (cur_queue K ?e)" using s a Q(2) by (simp_all add: seen_eq)
  note cl = clear_cur [OF ok st qd, of kind]
  have ne: "cur_agent K ?e \<noteq> None" using Q(5) assms(2) a s by (simp add: seen_eq)
  note inv = inv_fail [OF Q(1) assms(2), of kind]
  show ?thesis
  proof (cases "alive ?e (is_agentSession (te_heap ?e a))")
    case True
    then have c': "turn_fail kind a c = c\<lparr>tc_eng := ?e, tc_holder := Draining a\<rparr>" by (simp add: turn_fail_def Let_def)
    show ?thesis
      by (rule queue_inv_frame [OF assms(1) inv]) (use c' s a assms(2) in \<open>auto simp: hand_list_def holder_state_def\<close>)
  next
    case False
    then have c': "turn_fail kind a c = c\<lparr>tc_eng := notifyDroppedQueuedMessages kind a ?e, tc_holder := Draining a,
        tc_gone := tc_gone c @ queue_at ?e a\<rparr>" by (simp add: turn_fail_def Let_def)
    have sub: "subseq (tc_taken c) (tc_accepted c)" using subseq_drop_end Q(8) by blast
    show ?thesis using inv cl ne st a sub unfolding c' queue_inv_def by (auto simp: hand_list_def holder_state_def)
  qed
qed

lemma subseq_filter: "subseq (filter P xs) xs"
  by (induction xs) auto

lemma queue_recall:
  assumes "queue_inv K U c"
  shows "queue_inv K U (recall_step i c)"
proof -
  note Q = queue_invD [OF assms(1)] and I = turn_invD [OF queue_invD(1) [OF assms(1)]]
  note inv = inv_recall [OF Q(1), of i]
  obtain e k where r: "removeQueuedMessageByID i (tc_eng c) = (e, k)" by force
  show ?thesis
  proof (cases k)
    case None
    then show ?thesis using r assms by (simp add: recall_step_def)
  next
    case (Some k')
    let ?f = "\<lambda>s. s\<lparr>is_pendingMessages := filter (\<lambda>q. qm_messageID q \<noteq> i) (is_pendingMessages s)\<rparr>"
    obtain a where a: "(k', a) \<in> set (te_interactiveStates (tc_eng c))" "e = upd_state a ?f (tc_eng c)"
      using r Some by (auto simp: removeQueuedMessageByID_def dest!: find_SomeD split: option.splits)
    then have st: "k' = K" "state_of K (tc_eng c) = Some a" "a < te_fresh (tc_eng c)"
      using I(1) by (auto simp: eng_ok_def state_of_def)
    let ?q = "cur_queue K (tc_eng c)"
    have se: "state_of K e = Some a" using st a(2) by simp
    have cq: "cur_queue K e = filter (\<lambda>q. qm_messageID q \<noteq> i) ?q"
      using st se by (simp add: cur_queue_def a(2) queue_at_upd) (simp add: queue_at_def)
    have "agents e = agents (tc_eng c)" unfolding a(2) by (rule agents_upd) simp
    then have ca: "cur_agent K e = cur_agent K (tc_eng c)" "te_alive e = te_alive (tc_eng c)"
      using cur_agent_eq [of e "tc_eng c" K] st se by auto
    have "queued e + mset (queue_at (tc_eng c) a) = queued (tc_eng c) + mset (is_pendingMessages (?f (te_heap (tc_eng c) a)))"
      unfolding a(2) by (rule queued_upd [OF st(3)])
    then have qd: "queued e = mset (cur_queue K e)" using Q(2) st cq by (simp add: cur_queue_def queue_at_def)
    have sub: "subseq (tc_taken c @ hand_list c @ cur_queue K e) (tc_accepted c)"
      unfolding cq by (rule subseq_order.trans [OF _ Q(8)])
        (intro list_emb_append_mono subseq_order.refl subseq_filter)
    have c': "recall_step i c = c\<lparr>tc_eng := e, tc_gone := tc_gone c @ filter (\<lambda>q. qm_messageID q = i) (queue_at (tc_eng c) a)\<rparr>"
      using r Some st by (simp add: recall_step_def)
    have nz: "?q = [] \<Longrightarrow> cur_queue K e = []" using cq by simp
    show ?thesis using inv Q(3-7) qd sub ca st se nz unfolding c' queue_inv_def
      by (auto simp: hand_list_def holder_state_def)
  qed
qed

lemma queue_die:
  assumes "queue_inv K U c"
  shows "queue_inv K U (c\<lparr>tc_eng := kill (Some n) (tc_eng c)\<rparr>)"
proof -
  note Q = queue_invD [OF assms]
  let ?e = "kill (Some n) (tc_eng c)"
  have inv: "turn_inv K U (c\<lparr>tc_eng := ?e\<rparr>)" by (rule inv_step [OF Q(1), of "Die n"]) (simp add: turn_step_def)
  have v: "view undefined ?e = view undefined (tc_eng c)" by simp
  have cq: "cur_queue K ?e = cur_queue K (tc_eng c)" "state_of K ?e = state_of K (tc_eng c)" using cur_view [OF v] by blast+
  have ca: "cur_agent K ?e = cur_agent K (tc_eng c)" unfolding cur_agent_def cq(2) by (simp add: kill_def split: option.splits)
  have al: "x \<in> set (te_alive ?e) \<Longrightarrow> x \<in> set (te_alive (tc_eng c))" for x by (simp add: kill_def)
  show ?thesis using Q(2-8) inv al view_queued [OF v] unfolding queue_inv_def
    by (auto simp: hand_list_def holder_state_def cq ca)
qed

lemma queue_quit:
  assumes "queue_inv K U c" and "tc_holder c = Turn r a"
  shows "queue_inv K U (c\<lparr>tc_holder := Draining a\<rparr>)"
proof -
  note Q = queue_invD [OF assms(1)]
  have inv: "turn_inv K U (c\<lparr>tc_holder := Draining a\<rparr>)"
    by (rule inv_step [OF Q(1), of Quit]) (simp add: turn_step_def assms(2))
  have a: "state_of K (tc_eng c) = Some a" using Q(3) assms(2) by (simp add: holder_state_def)
  show ?thesis by (rule queue_inv_frame [OF assms(1) inv]) (use a assms(2) in \<open>auto simp: hand_list_def holder_state_def\<close>)
qed

lemma queue_leave:
  assumes "queue_inv K U c" and "tc_holder c = Leaving"
  shows "queue_inv K U (c\<lparr>tc_eng := unlock_session U now (tc_eng c), tc_holder := Idle\<rparr>)"
proof -
  note Q = queue_invD [OF assms(1)]
  have inv: "turn_inv K U (c\<lparr>tc_eng := unlock_session U now (tc_eng c), tc_holder := Idle\<rparr>)"
    by (rule inv_step [OF Q(1), of "Leave now"]) (simp add: turn_step_def assms(2))
  show ?thesis by (rule queue_inv_frame [OF assms(1) inv]) (use Q(4,6) assms(2) in \<open>auto simp: hand_list_def holder_state_def\<close>)
qed

lemma queue_step:
  assumes "queue_inv K U c" and "healthy K U l c" and "turn_step K U l c = Some c'"
  shows "queue_inv K U c'"
proof (cases l)
  case (Start env now)
  then obtain p m where "tc_holder c = Starting p m" "c' = start_turn K U env now p m c"
    using assms(3) by (auto simp: turn_step_def split: holder.splits)
  then show ?thesis using queue_start assms(1,2) Start by simp
qed (use assms in \<open>auto simp: turn_step_def healthy_def queue_arrive queue_enqueue queue_relock queue_result queue_fail
      queue_drain queue_check queue_orphan queue_recall queue_die queue_quit queue_leave
      split: holder.splits handler.splits if_splits\<close>)

lemma queue_reach: "turn_reach K U (healthy K U) c \<Longrightarrow> queue_inv K U c"
proof (induction rule: turn_reach.induct)
  case (init e)
  have "turn_reach K U (healthy K U) (start_conf e)" by (rule turn_reach.init [OF init])
  then have "turn_inv K U (start_conf e)" by (rule inv_reach)
  then show ?case using init
    by (auto simp: queue_inv_def init_conf_def start_conf_def holder_state_def hand_list_def cur_queue_def state_of_def queued_def)
next
  case (step c l c')
  then show ?case using queue_step by blast
qed

end
