(* ===== verification/TurnProperties.thy ===== *)
theory TurnProperties
  imports TurnQueueProofs
begin

text \<open>
  The properties of the turn protocol: where accepted messages go in every run, what a run without restarts promises,
  and the two ways a failing agent makes the code lose sight of a queue. A concrete conversation serves as witness.
\<close>

section \<open>Runs as lists of labels\<close>

fun run_turns :: "string \<Rightarrow> string \<Rightarrow> label list \<Rightarrow> conf \<Rightarrow> conf option" where
  "run_turns K U [] c = Some c"
| "run_turns K U (l # ls) c = (case turn_step K U l c of None \<Rightarrow> None | Some c' \<Rightarrow> run_turns K U ls c')"

fun healthy_run :: "string \<Rightarrow> string \<Rightarrow> label list \<Rightarrow> conf \<Rightarrow> bool" where
  "healthy_run K U [] c = True"
| "healthy_run K U (l # ls) c =
     (healthy K U l c \<and> (case turn_step K U l c of None \<Rightarrow> True | Some c' \<Rightarrow> healthy_run K U ls c'))"

lemma run_reach: "turn_reach K U (\<lambda>_ _. True) c \<Longrightarrow> run_turns K U ls c = Some c' \<Longrightarrow> turn_reach K U (\<lambda>_ _. True) c'"
  by (induction K U ls c rule: run_turns.induct) (auto split: option.splits intro: turn_reach.step)

lemma healthy_run_reach:
  "turn_reach K U (healthy K U) c \<Longrightarrow> healthy_run K U ls c \<Longrightarrow> run_turns K U ls c = Some c' \<Longrightarrow> turn_reach K U (healthy K U) c'"
  by (induction K U ls c rule: run_turns.induct) (auto split: option.splits intro: turn_reach.step)

text \<open>A conversation \<open>k\<close> of the user \<open>u\<close>, its messages, and an agent that starts, or does not.\<close>

definition demo_message :: "string \<Rightarrow> message" where
  "demo_message i = \<lparr>m_SessionKey = ''k'', m_Platform = ''p'', m_MessageID = i, m_UserID = ''u'', m_UserName = [],
     m_ChatName = [], m_Content = i, m_Images = [], m_Files = [], m_ChannelKey = [], m_ReplyCtx = [], m_FromVoice = False,
     m_UserMessageTimeMs = 0\<rparr>"

definition demo_engine :: turn_engine where
  "demo_engine = \<lparr>te_interactiveStates = [], te_heap = (\<lambda>_. new_state None [] [] 0), te_fresh = 0, te_interactiveMu = False,
     te_alive = [], te_agentID = (\<lambda>_. []), te_active = [(''u'', new_session ''s'' [] 0)], te_unsafeResume = [],
     te_maxQueuedMessages = 5, te_out = [], te_sent = []\<rparr>"

definition demo_env :: "nat option \<Rightarrow> start_env" where
  "demo_env n = \<lparr>se_slot = True, se_closeSettled = True, se_ctxDone = False, se_confirmed = True, se_atype = [],
     se_valid = (\<lambda>_. True), se_start = (\<lambda>_. n)\<rparr>"

lemmas demo_eval = turn_step_def arrive_def enqueue_def relock_def start_turn_def enter_turn_def try_lock_def
  discardStaleUserMessageIfNeeded_def ensureInteractiveStateForQueueing_def noteUserMessageAccepted_def
  queueMessageForBusySession_def isStaleUserMessageLocked_def getOrCreateInteractiveStateWith_def spawn_def resume_id_def
  start_session_def track_session_id_def install_def adoptPendingFromPlaceholder_def begin_turn_def send_agent_def
  user_history_def upd_session_def unlock_session_def upd_state_def put_state_def say_def state_of_def queue_at_def
  new_state_def demo_message_def demo_engine_def demo_env_def start_conf_def queued_of_def TryLock_def

lemma demo_init: "init_conf ''u'' demo_engine"
  by (simp add: init_conf_def demo_engine_def new_session_def)

definition demo_wait :: "label list" where
  "demo_wait = [Arrive ''p'' (demo_message ''a'') 0, Arrive ''p'' (demo_message ''b'') 0, Enqueue 0, Relock 0]"

definition waiting :: "string list \<Rightarrow> conf \<Rightarrow> bool" where
  "waiting ids c \<longleftrightarrow> map qm_messageID (queue_at (tc_eng c) 0 @ queue_at (tc_eng c) 1) = ids \<and> tc_handlers c = []"

section \<open>Every run\<close>

lemma lock_and_queues:
  assumes "turn_reach K U P c"
  shows "locked U (tc_eng c) = Some (tc_holder c \<noteq> Idle)"
    and "a < te_fresh (tc_eng c) \<Longrightarrow> int (length (queue_at (tc_eng c) a)) \<le> te_maxQueuedMessages (tc_eng c)"
  using turn_invD(2) [OF inv_reach [OF assms]] queue_bound [OF turn_invD(1) [OF inv_reach [OF assms]]] by auto

text \<open>
  C3. Whatever messages arrive, whenever agents start, fail, die, are recycled or stopped, and whatever is recalled:
  every message that was accepted into the queue of a conversation is, as often as it was accepted, either taken for a
  turn, given up (with a notice or by a recall or stop), waiting in a queue, or in the hand of the goroutine that
  checks the agent; the session is busy exactly while one goroutine holds it, and no queue exceeds its bound.
\<close>

theorem queued_messages_accounted_for:
  assumes "turn_reach K U P c"
  shows "mset (tc_accepted c) = mset (tc_taken c) + mset (tc_gone c) + queued (tc_eng c) + in_hand c
    \<and> locked U (tc_eng c) = Some (tc_holder c \<noteq> Idle)
    \<and> (\<forall>a. a < te_fresh (tc_eng c) \<longrightarrow> int (length (queue_at (tc_eng c) a)) \<le> te_maxQueuedMessages (tc_eng c))"
  using turn_invD(4) [OF inv_reach [OF assms]] lock_and_queues [OF assms] by blast

lemma queued_messages_accounted_for_witness:
  "\<exists>c. run_turns ''k'' ''u'' demo_wait (start_conf demo_engine) = Some c \<and> waiting [''b''] c
     \<and> mset (tc_accepted c) = mset (tc_taken c) + mset (tc_gone c) + queued (tc_eng c) + in_hand c"
proof -
  have "case run_turns ''k'' ''u'' demo_wait (start_conf demo_engine) of None \<Rightarrow> False | Some c \<Rightarrow> waiting [''b''] c" by code_simp
  then obtain c where c: "run_turns ''k'' ''u'' demo_wait (start_conf demo_engine) = Some c" "waiting [''b''] c"
    by (auto split: option.splits)
  have r: "turn_reach ''k'' ''u'' (\<lambda>_ _. True) c" by (rule run_reach [OF turn_reach.init [OF demo_init] c(1)])
  show ?thesis by (intro exI [of _ c] conjI c conjunct1 [OF queued_messages_accounted_for [OF r]])
qed

section \<open>Runs without restarts\<close>


definition demo_serve :: "label list" where
  "demo_serve = [Arrive ''p'' (demo_message ''a'') 0, Arrive ''p'' (demo_message ''b'') 0, Enqueue 0,
     Start (demo_env (Some 1)) 0, Arrive ''p'' (demo_message ''c'') 0, Enqueue 1, Result 0, Result 0]"


section \<open>What a failing agent does to the queue\<close>

lemma enter_leaving:
  assumes "tc_holder (enter_turn p m a e c) = Leaving"
  shows "enter_turn p m a e c = c\<lparr>tc_eng := say p (m_ReplyCtx m) FailedToStartAgentSession e, tc_holder := Leaving\<rparr>"
  using assms by (auto simp: enter_turn_def)



lemma install_none: "state_of K e = None \<Longrightarrow> is_pendingMessages s = [] \<Longrightarrow> install K s e = (e', a) \<Longrightarrow>
    a = te_fresh e \<and> queue_at e' a = [] \<and> state_of K e' = Some a \<and> (\<forall>b. b < te_fresh e \<longrightarrow> queue_at e' b = queue_at e b)"
  by (auto simp: install_def adoptPendingFromPlaceholder_def queue_at_put) (simp add: put_state_def state_of_def update_conv)

lemma fresh_start:
  assumes "state_of K e = None" and "getOrCreateInteractiveStateWith env now K p rctx sk e = (e', a)"
  shows "a = te_fresh e \<and> queue_at e' a = [] \<and> state_of K e' = Some a \<and> (\<forall>b. b < te_fresh e \<longrightarrow> queue_at e' b = queue_at e b)"
proof -
  let ?e = "if se_slot env then e else say p rctx SessionSlotUnavailable e"
  have v: "view undefined ?e = view undefined e" by simp
  have "\<exists>d s. install K s d = (e', a) \<and> view undefined d = view undefined ?e \<and> is_pendingMessages s = []"
  proof (cases "se_slot env")
    case True
    then show ?thesis using assms spawn_install [of env now K p rctx sk ?e e' a undefined]
      by (simp add: getOrCreateInteractiveStateWith_def)
  next
    case False
    then have "install K (new_state None p rctx 0) ?e = (e', a)" using assms(2) assms(1)
      by (simp add: getOrCreateInteractiveStateWith_def Let_def)
    then show ?thesis by (intro exI [of _ ?e] exI [of _ "new_state None p rctx 0"]) (simp add: new_state_def)
  qed
  then obtain d s where d: "install K s d = (e', a)" "view undefined d = view undefined e" "is_pendingMessages s = []"
    using v by metis
  then have "state_of K d = None" "te_fresh d = te_fresh e" "queue_at d = queue_at e"
    using assms(1) unfolding view_eq state_of_def by simp_all
  then show ?thesis using install_none [OF _ d(3,1)] by auto
qed



section \<open>/stop\<close>

text \<open>
  Stopping a conversation ends the process exactly when the agent can cancel a turn and cancelling fails: the map's
  mutex, released before \<open>CancelTurn\<close>, is released again on the common way out. In every other case the call returns,
  with the mutex free.
\<close>

theorem stop_crashes_iff_cancel_fails:
  assumes "eng_ok K e" and "state_of K e = Some a"
  shows "(stopInteractiveSessionWithOptions cancel confirmed K notify e = None
      \<longleftrightarrow> (\<exists>n. is_agentSession (te_heap e a) = Some n \<and> cancel n = Some False))
    \<and> (\<forall>e' ok. stopInteractiveSessionWithOptions cancel confirmed K notify e = Some (e', ok) \<longrightarrow> \<not> te_interactiveMu e')"
proof -
  have m: "te_interactiveMu (clear_queue notify a d) = te_interactiveMu d" for d
    using notify_view(2) [of undefined a d] by (simp add: clear_queue_def view_eq)
  have "stopInteractiveSessionWithOptions cancel confirmed K notify e = None
      \<longleftrightarrow> (\<exists>n. is_agentSession (te_heap e a) = Some n \<and> cancel n = Some False)"
    using assms by (auto simp: stopInteractiveSessionWithOptions_def normal_cleanup_def mu_set Let_def m split: option.splits if_splits)
  moreover have "\<not> te_interactiveMu e'" if "stopInteractiveSessionWithOptions cancel confirmed K notify e = Some (e', ok)" for e' ok
    using drops_ok [OF stop_drops [OF assms that]] by (simp add: eng_ok_def)
  ultimately show ?thesis by blast
qed

lemma stop_crashes_iff_cancel_fails_witness:
  "stopInteractiveSessionWithOptions (\<lambda>n. Some (n \<noteq> 1)) True ''k'' True (put_state ''k'' (new_state (Some 1) [] [] 0) demo_engine) = None"
proof -
  let ?e = "put_state ''k'' (new_state (Some 1) [] [] 0) demo_engine"
  have "eng_ok ''k'' demo_engine" by (simp add: eng_ok_def demo_engine_def)
  then have ok: "eng_ok ''k'' ?e" by (rule ok_put) (simp add: new_state_def demo_engine_def)
  have st: "state_of ''k'' ?e = Some 0" by (simp add: state_of_def put_state_def demo_engine_def update_conv)
  have "is_agentSession (te_heap ?e 0) = Some 1" by (simp add: put_state_def demo_engine_def new_state_def)
  then show ?thesis using stop_crashes_iff_cancel_fails [OF ok st, of "\<lambda>n. Some (n \<noteq> 1)"] by simp
qed

end
