(* ===== verification/LiveSessions.thy ===== *)
theory LiveSessions
  imports TurnLifecycle
begin

text \<open>
  The cap on live agent processes (\<open>src/core/live_sessions.go\<close>): the engines of one process and their caps, the
  limiter they share, eviction of the session that was idle longest, and the wait for a slot. Engines are numbered by
  their position. \<open>confirmed n\<close> tells whether the agent process \<open>n\<close> is confirmed dead when it is closed.
\<close>

section \<open>The limiter and the engines\<close>

record live_limiter =
  ll_max :: int
  ll_engines :: "nat list"

record live_world =
  lw_engines :: "turn_engine list"
  lw_maxLive :: "int list"
  lw_limiter :: live_limiter
  lw_attached :: "nat list"   (* the engines whose liveLimiter is set *)

definition ll_SetMax :: "int \<Rightarrow> live_limiter \<Rightarrow> live_limiter" where
  "ll_SetMax m l = l\<lparr>ll_max := (if m < 0 then 0 else m)\<rparr>"

definition NewLiveSessionLimiter :: "int \<Rightarrow> live_limiter" where
  "NewLiveSessionLimiter m = ll_SetMax m \<lparr>ll_max = 0, ll_engines = []\<rparr>"

definition ll_attach :: "nat \<Rightarrow> live_limiter \<Rightarrow> live_limiter" where
  "ll_attach i l = (if List.member (ll_engines l) i then l else l\<lparr>ll_engines := ll_engines l @ [i]\<rparr>)"

definition SetLiveSessionLimiter :: "nat \<Rightarrow> live_world \<Rightarrow> live_world" where
  "SetLiveSessionLimiter i w = w\<lparr>lw_limiter := ll_attach i (lw_limiter w), lw_attached := List.insert i (lw_attached w)\<rparr>"

definition SetMaxLiveAgentSessions :: "nat \<Rightarrow> int \<Rightarrow> live_world \<Rightarrow> live_world" where
  "SetMaxLiveAgentSessions i n w = w\<lparr>lw_maxLive := (lw_maxLive w)[i := (if n < 0 then 0 else n)]\<rparr>"

definition ll_liveCount :: "live_world \<Rightarrow> int" where
  "ll_liveCount w = fold (\<lambda>i n. n + int (liveSessionCount (lw_engines w ! i))) (ll_engines (lw_limiter w)) 0"

section \<open>Eviction\<close>

definition evictSession :: "(nat \<Rightarrow> bool) \<Rightarrow> eviction_candidate \<Rightarrow> live_world \<Rightarrow> live_world \<times> bool" where
  "evictSession confirmed c w =
     (let e = lw_engines w ! ec_engine c;
          conf = (case is_agentSession (te_heap e (ec_state c)) of None \<Rightarrow> True | Some n \<Rightarrow> confirmed n);
          (e', ok) = closeIdleInteractiveState (ec_key c) (ec_state c) (ec_token c) conf e
      in (w\<lparr>lw_engines := (lw_engines w)[ec_engine c := e']\<rparr>, ok))"

text \<open>The index of the first candidate with the earliest activity: \<open>best\<close> at \<open>b\<close> so far, \<open>i\<close> the next index.\<close>

fun oldest_scan :: "eviction_candidate \<Rightarrow> nat \<Rightarrow> nat \<Rightarrow> eviction_candidate list \<Rightarrow> nat" where
  "oldest_scan best b i [] = b"
| "oldest_scan best b i (c # cs) =
     (if ec_lastActivity c < ec_lastActivity best then oldest_scan c i (Suc i) cs else oldest_scan best b (Suc i) cs)"

definition oldest_index :: "eviction_candidate list \<Rightarrow> nat" where
  "oldest_index cs = oldest_scan (hd cs) 0 0 cs"

lemma oldest_scan_split:
  assumes "b = length pre" and "i = Suc (length pre + length mid)"
    and "\<forall>x \<in> set pre. ec_lastActivity best < ec_lastActivity x" and "\<forall>x \<in> set mid. ec_lastActivity best \<le> ec_lastActivity x"
  shows "\<exists>xs x ys. pre @ best # mid @ cs = xs @ x # ys \<and> oldest_scan best b i cs = length xs
    \<and> (\<forall>y \<in> set xs. ec_lastActivity x < ec_lastActivity y) \<and> (\<forall>y \<in> set ys. ec_lastActivity x \<le> ec_lastActivity y)"
  using assms
proof (induction cs arbitrary: best b i pre mid)
  case Nil
  then show ?case by fastforce
next
  case (Cons c cs)
  show ?case
  proof (cases "ec_lastActivity c < ec_lastActivity best")
    case True
    have "\<exists>xs x ys. (pre @ best # mid) @ c # [] @ cs = xs @ x # ys \<and> oldest_scan c i (Suc i) cs = length xs
        \<and> (\<forall>y \<in> set xs. ec_lastActivity x < ec_lastActivity y) \<and> (\<forall>y \<in> set ys. ec_lastActivity x \<le> ec_lastActivity y)"
      by (rule Cons.IH) (use Cons.prems True in force)+
    then show ?thesis using True by simp
  next
    case False
    have "\<exists>xs x ys. pre @ best # (mid @ [c]) @ cs = xs @ x # ys \<and> oldest_scan best b (Suc i) cs = length xs
        \<and> (\<forall>y \<in> set xs. ec_lastActivity x < ec_lastActivity y) \<and> (\<forall>y \<in> set ys. ec_lastActivity x \<le> ec_lastActivity y)"
      by (rule Cons.IH) (use Cons.prems False in force)+
    then show ?thesis using False by simp
  qed
qed

lemma oldest_index_split:
  assumes "cs \<noteq> []"
  shows "\<exists>xs x ys. cs = xs @ x # ys \<and> oldest_index cs = length xs
    \<and> (\<forall>y \<in> set xs. ec_lastActivity x < ec_lastActivity y) \<and> (\<forall>y \<in> set ys. ec_lastActivity x \<le> ec_lastActivity y)"
  using oldest_scan_split [of 0 "[]" 1 "[]" "hd cs" "tl cs"] assms by (cases cs) (simp_all add: oldest_index_def)

lemma oldest_index_less: "cs \<noteq> [] \<Longrightarrow> oldest_index cs < length cs"
  using oldest_index_split by fastforce

text \<open>The candidates from the least to the most recently active one, until one of them can be closed.\<close>

function evictOldest :: "(nat \<Rightarrow> bool) \<Rightarrow> eviction_candidate list \<Rightarrow> live_world \<Rightarrow> live_world \<times> bool" where
  "evictOldest confirmed cs w =
     (if cs = [] then (w, False)
      else let k = oldest_index cs; (w', ok) = evictSession confirmed (cs ! k) w
           in if ok then (w', True) else evictOldest confirmed (take k cs @ drop (Suc k) cs) w')"
  by pat_completeness auto
termination
  by (relation "measure (\<lambda>(_, cs, _). length cs)") (use oldest_index_less in \<open>fastforce+\<close>)

declare evictOldest.simps [simp del]

definition evictLocalLRU :: "(nat \<Rightarrow> bool) \<Rightarrow> nat \<Rightarrow> string \<Rightarrow> live_world \<Rightarrow> live_world \<times> bool" where
  "evictLocalLRU confirmed i excludeKey w = evictOldest confirmed (idleEvictionCandidates i excludeKey (lw_engines w ! i)) w"

definition limiter_candidates :: "nat \<Rightarrow> string \<Rightarrow> live_world \<Rightarrow> eviction_candidate list" where
  "limiter_candidates exclude excludeKey w =
     concat (map (\<lambda>i. idleEvictionCandidates i (if i = exclude then excludeKey else []) (lw_engines w ! i)) (ll_engines (lw_limiter w)))"

definition ll_evictLRU :: "(nat \<Rightarrow> bool) \<Rightarrow> nat \<Rightarrow> string \<Rightarrow> live_world \<Rightarrow> live_world \<times> bool" where
  "ll_evictLRU confirmed exclude excludeKey w = evictOldest confirmed (limiter_candidates exclude excludeKey w) w"

section \<open>Slots\<close>

text \<open>The loop of \<open>liveSlotAvailable\<close>, with the attempts that are left.\<close>

fun slot_attempts :: "nat \<Rightarrow> (nat \<Rightarrow> bool) \<Rightarrow> nat \<Rightarrow> string \<Rightarrow> live_world \<Rightarrow> live_world \<times> bool" where
  "slot_attempts 0 confirmed i key w = (w, False)"
| "slot_attempts (Suc n) confirmed i key w =
     (let localMax = lw_maxLive w ! i
      in if 0 < localMax \<and> localMax \<le> int (liveSessionCount (lw_engines w ! i))
         then (case evictLocalLRU confirmed i key w of
                 (w', False) \<Rightarrow> (w', False)
               | (w', True) \<Rightarrow> slot_attempts n confirmed i key w')
         else if List.member (lw_attached w) i \<and> 0 < ll_max (lw_limiter w) \<and> ll_max (lw_limiter w) \<le> ll_liveCount w
         then (case ll_evictLRU confirmed i key w of
                 (w', False) \<Rightarrow> (w', False)
               | (w', True) \<Rightarrow> slot_attempts n confirmed i key w')
         else (w, True))"

definition liveSlotAvailable :: "(nat \<Rightarrow> bool) \<Rightarrow> nat \<Rightarrow> string \<Rightarrow> live_world \<Rightarrow> live_world \<times> bool" where
  "liveSlotAvailable = slot_attempts 64"

text \<open>While a spawn waits: the engine stops, the wait ends, or a poll, before which \<open>f\<close> happened elsewhere.\<close>

datatype wait_event = CtxDone | Deadline | Tick "live_world \<Rightarrow> live_world"

fun wait_slot :: "(nat \<Rightarrow> bool) \<Rightarrow> nat \<Rightarrow> string \<Rightarrow> wait_event list \<Rightarrow> live_world \<Rightarrow> (live_world \<times> bool) option" where
  "wait_slot confirmed i key [] w = None"
| "wait_slot confirmed i key (CtxDone # es) w = Some (w, False)"
| "wait_slot confirmed i key (Deadline # es) w = Some (w, False)"
| "wait_slot confirmed i key (Tick f # es) w =
     (if isLiveSession key (lw_engines (f w) ! i) then Some (f w, True)
      else (case liveSlotAvailable confirmed i key (f w) of
              (w', True) \<Rightarrow> Some (w', True)
            | (w', False) \<Rightarrow> wait_slot confirmed i key es w'))"

definition reserveLiveSessionSlot ::
    "(nat \<Rightarrow> bool) \<Rightarrow> nat \<Rightarrow> string \<Rightarrow> string \<Rightarrow> string \<Rightarrow> wait_event list \<Rightarrow> live_world \<Rightarrow> (live_world \<times> bool) option" where
  "reserveLiveSessionSlot confirmed i key p rctx events w =
     (let localMax = lw_maxLive w ! i;
          globalMax = (if List.member (lw_attached w) i then ll_max (lw_limiter w) else 0)
      in if localMax \<le> 0 \<and> globalMax \<le> 0 then Some (w, True)
         else if isLiveSession key (lw_engines w ! i) then Some (w, True)
         else (case liveSlotAvailable confirmed i key w of
                 (w', True) \<Rightarrow> Some (w', True)
               | (w', False) \<Rightarrow>
                   wait_slot confirmed i key events
                     (w'\<lparr>lw_engines := (lw_engines w')[i := say p rctx SessionWaitingForSlot (lw_engines w' ! i)]\<rparr>)))"

section \<open>Eviction goes by the time of the last activity\<close>

fun try_in_order :: "(nat \<Rightarrow> bool) \<Rightarrow> eviction_candidate list \<Rightarrow> live_world \<Rightarrow> live_world \<times> bool" where
  "try_in_order confirmed [] w = (w, False)"
| "try_in_order confirmed (c # cs) w =
     (let (w', ok) = evictSession confirmed c w in if ok then (w', True) else try_in_order confirmed cs w')"

lemma sort_key_first:
  assumes "\<forall>y \<in> set xs. f x < f y" and "\<forall>y \<in> set ys. f x \<le> f y"
  shows "sort_key f (xs @ x # ys) = x # sort_key f (xs @ ys)"
  using assms(1)
proof (induction xs)
  case Nil
  then show ?case using assms(2) by (simp add: insort_is_Cons)
next
  case (Cons a xs)
  then show ?case by (auto simp: not_le)
qed

lemma evict_oldest_sorted: "evictOldest confirmed cs w = try_in_order confirmed (sort_key ec_lastActivity cs) w"
proof (induction confirmed cs w rule: evictOldest.induct)
  case (1 confirmed cs w)
  show ?case
  proof (cases "cs = []")
    case True
    then show ?thesis by (simp add: evictOldest.simps)
  next
    case False
    then obtain xs x ys where split: "cs = xs @ x # ys" "oldest_index cs = length xs"
        "\<forall>y \<in> set xs. ec_lastActivity x < ec_lastActivity y" "\<forall>y \<in> set ys. ec_lastActivity x \<le> ec_lastActivity y"
      using oldest_index_split by blast
    obtain w' ok where ev: "evictSession confirmed x w = (w', ok)" by force
    have nth: "cs ! length xs = x" "take (length xs) cs @ drop (Suc (length xs)) cs = xs @ ys" using split(1) by simp_all
    have ih: "\<not> ok \<Longrightarrow> evictOldest confirmed (xs @ ys) w' = try_in_order confirmed (sort_key ec_lastActivity (xs @ ys)) w'"
      using "1.IH" [OF False, of "length xs" "(w', ok)" w' ok] split(2) ev nth by simp
    have "evictOldest confirmed cs w = (if ok then (w', True) else evictOldest confirmed (xs @ ys) w')"
      using False split(2) ev nth by (subst evictOldest.simps) (simp add: Let_def)
    then show ?thesis using ih ev sort_key_first [OF split(3,4)] split(1) by simp
  qed
qed

section \<open>What eviction leaves alone\<close>

definition spared :: "turn_engine \<Rightarrow> interactive_state \<Rightarrow> bool" where
  "spared e s \<longleftrightarrow> stateIsBusyLocked e s \<or> \<not> stateIsLiveLocked e s"

definition frame :: "nat \<Rightarrow> turn_engine \<Rightarrow> turn_engine \<Rightarrow> bool" where
  "frame a0 e e' \<longleftrightarrow> te_active e' = te_active e \<and> set (te_alive e') \<subseteq> set (te_alive e)
     \<and> (\<forall>a. a \<noteq> a0 \<longrightarrow> te_heap e' a = te_heap e a) \<and> te_interactiveStates e' = te_interactiveStates e"

lemma frame_trans: "frame a e e' \<Longrightarrow> frame a e' e'' \<Longrightarrow> frame a e e''"
  by (auto simp: frame_def)

lemma frame_intros [intro]:
  "frame a e (upd_state a f e)" "frame a e (say p r n e)" "frame a e (kill ag e)" "frame a e (markUnsafeResume key e)" "frame a e e"
  by (auto simp: frame_def upd_state_def say_def kill_def markUnsafeResume_def split: option.splits)

lemma frame_fold_say [intro]: "frame a e (fold (\<lambda>q. say (f q) (g q) (h q)) qs e)"
proof (induction qs arbitrary: e)
  case (Cons q qs)
  have "frame a e (say (f q) (g q) (h q) e)" by (rule frame_intros(2))
  from frame_trans [OF this Cons.IH] show ?case by simp
qed (simp add: frame_intros)

lemma frame_notify [intro]: "frame a e (notifyDroppedQueuedMessages kind a e)"
  unfolding notifyDroppedQueuedMessages_def Let_def by (rule frame_trans [OF frame_intros(1) frame_fold_say])

lemma frame_close [intro]: "frame a e (close_state key s confirmed e)"
  using frame_trans [OF frame_intros(4) frame_intros(2)] by (auto simp: close_state_def closeAgentSession_def)

lemma frame_spared: "frame a0 e e' \<Longrightarrow> spared e s \<Longrightarrow> spared e' s"
  by (auto simp: spared_def frame_def stateIsBusyLocked_def stateIsLiveLocked_def byKey_def split: option.splits)

text \<open>What one successful close does: one live, idle state is gone, everything else is at most less alive.\<close>

lemma close_idle_cases:
  assumes "closeIdleInteractiveState key expected token confirmed e = (e', ok)"
  shows "\<not> ok \<and> e' = e \<or>
    ok \<and> state_of key e = Some expected \<and> \<not> spared e (te_heap e expected)
      \<and> (\<exists>d. frame expected e d \<and> e' = forget_state key d)"
proof (cases "ok")
  case False
  then show ?thesis using assms by (auto simp: closeIdleInteractiveState_def Let_def split: option.splits if_splits)
next
  case True
  let ?e1 = "upd_state expected (\<lambda>s. s\<lparr>is_agentSession := None, is_agentSessionIdleToken := 0\<rparr>) e"
  let ?e3 = "upd_state expected (\<lambda>s. s\<lparr>is_pending := None\<rparr>) (markStopped expected ?e1)"
  let ?d = "close_state key (te_heap e expected) confirmed (notifyDroppedQueuedMessages ErrorKindUnknown expected ?e3)"
  have st: "state_of key e = Some expected" "\<not> spared e (te_heap e expected)"
    using assms True by (auto simp: closeIdleInteractiveState_def Let_def spared_def stateIsLiveLocked_def split: option.splits if_splits)
  have e': "e' = (if state_of key ?d = Some expected then forget_state key ?d else ?d)"
    using assms True st(1) by (auto simp: closeIdleInteractiveState_def Let_def split: if_splits)
  have "frame expected e (markStopped expected ?e1)"
    unfolding markStopped_def by (rule frame_trans [OF frame_intros(1) frame_intros(1)])
  from frame_trans [OF this frame_intros(1)] have "frame expected e ?e3" .
  from frame_trans [OF frame_trans [OF this frame_notify] frame_close] have f: "frame expected e ?d" .
  then have "state_of key ?d = Some expected" using st(1) by (simp add: frame_def state_of_def)
  then show ?thesis using True st f e' by auto
qed

lemma close_idle_spares:
  assumes "closeIdleInteractiveState key expected token confirmed e = (e', ok)"
    and "state_of k e = Some a" and "spared e (te_heap e a)"
  shows "state_of k e' = Some a \<and> te_heap e' a = te_heap e a \<and> spared e' (te_heap e' a)"
proof -
  consider "e' = e" | d where "state_of key e = Some expected" "\<not> spared e (te_heap e expected)" "frame expected e d" "e' = forget_state key d"
    using close_idle_cases [OF assms(1)] by blast
  then show ?thesis
  proof cases
    case 1
    then show ?thesis using assms by simp
  next
    case 2
    then have ne: "a \<noteq> expected" "k \<noteq> key" using assms(2,3) by auto
    have "te_heap e' a = te_heap e a" using 2 ne by (simp add: frame_def forget_state_def)
    moreover have "state_of k e' = Some a"
      using 2(3,4) ne assms(2) by (simp add: state_of_def forget_state_def gomap frame_def)
    moreover have "spared e' s = spared d s" for s
      using 2(4) by (cases "is_agentSession s") (simp_all add: spared_def stateIsBusyLocked_def stateIsLiveLocked_def byKey_def forget_state_def)
    ultimately show ?thesis using frame_spared [OF 2(3) assms(3)] by simp
  qed
qed

definition spared_at :: "nat \<Rightarrow> string \<Rightarrow> nat \<Rightarrow> interactive_state \<Rightarrow> live_world \<Rightarrow> bool" where
  "spared_at j k a s w \<longleftrightarrow> state_of k (lw_engines w ! j) = Some a \<and> te_heap (lw_engines w ! j) a = s \<and> spared (lw_engines w ! j) s"

lemma evict_spares:
  assumes "evictSession confirmed c w = (w', ok)" and "spared_at j k a s w"
  shows "spared_at j k a s w'"
proof -
  let ?i = "ec_engine c"
  obtain conf e' where cl: "closeIdleInteractiveState (ec_key c) (ec_state c) (ec_token c) conf (lw_engines w ! ?i) = (e', ok)"
      and w': "w' = w\<lparr>lw_engines := (lw_engines w)[?i := e']\<rparr>"
    using assms(1) by (auto simp: evictSession_def Let_def split: prod.splits)
  show ?thesis
  proof (cases "j = ?i \<and> ?i < length (lw_engines w)")
    case True
    then show ?thesis using close_idle_spares [OF cl, of k a] assms(2) w' by (auto simp: spared_at_def)
  next
    case False
    then have "lw_engines w' ! j = lw_engines w ! j" using w' by (cases "j = ?i") (simp_all add: list_update_beyond)
    then show ?thesis using assms(2) by (simp add: spared_at_def)
  qed
qed

lemma try_spares: "try_in_order confirmed cs w = (w', ok) \<Longrightarrow> spared_at j k a s w \<Longrightarrow> spared_at j k a s w'"
proof (induction cs arbitrary: w)
  case (Cons c cs)
  obtain v b where "evictSession confirmed c w = (v, b)" by force
  then show ?case using Cons evict_spares by (auto split: if_splits)
qed simp

lemma slot_spares: "slot_attempts n confirmed i key w = (w', ok) \<Longrightarrow> spared_at j k a s w \<Longrightarrow> spared_at j k a s w'"
proof (induction n arbitrary: w)
  case (Suc n)
  show ?case
  proof (cases "0 < lw_maxLive w ! i \<and> lw_maxLive w ! i \<le> int (liveSessionCount (lw_engines w ! i))")
    case True
    obtain v b where v: "evictLocalLRU confirmed i key w = (v, b)" by force
    then have "spared_at j k a s v" using try_spares Suc.prems(2) unfolding evictLocalLRU_def evict_oldest_sorted by blast
    then show ?thesis using Suc True v by (auto simp: Let_def split: bool.splits)
  next
    case False
    obtain v b where v: "ll_evictLRU confirmed i key w = (v, b)" by force
    then have "spared_at j k a s v" using try_spares Suc.prems(2) unfolding ll_evictLRU_def evict_oldest_sorted by blast
    then show ?thesis using Suc False v by (auto simp: Let_def split: bool.splits if_splits)
  qed
qed simp

section \<open>Progress\<close>

definition total_live :: "live_world \<Rightarrow> nat" where
  "total_live w = sum_list (map liveSessionCount (lw_engines w))"

definition engine_frame :: "turn_engine \<Rightarrow> turn_engine \<Rightarrow> bool" where
  "engine_frame e e' \<longleftrightarrow> (\<forall>s. stateIsLiveLocked e' s \<longrightarrow> stateIsLiveLocked e s)"

lemma filter_less:
  assumes "x \<in> set xs" and "P x" and "\<not> Q x" and "\<And>y. y \<in> set xs \<Longrightarrow> Q y \<Longrightarrow> P y"
  shows "length (filter Q xs) < length (filter P xs)"
proof -
  obtain ys zs where xs: "xs = ys @ x # zs" using assms(1) by (meson split_list)
  have "length (filter Q l) \<le> length (filter P l)" if "\<And>y. y \<in> set l \<Longrightarrow> Q y \<Longrightarrow> P y" for l
    using that by (induction l) auto
  from this [of ys] this [of zs] show ?thesis using assms(2-4) xs by fastforce
qed

lemma live_frame: "frame a e d \<Longrightarrow> stateIsLiveLocked d s \<Longrightarrow> stateIsLiveLocked e s"
  by (auto simp: frame_def stateIsLiveLocked_def split: option.splits)

lemma live_forget: "stateIsLiveLocked (forget_state key d) s = stateIsLiveLocked d s"
  by (cases "is_agentSession s") (simp_all add: stateIsLiveLocked_def forget_state_def)

lemma close_idle_fewer:
  assumes "closeIdleInteractiveState key expected token confirmed e = (e', True)"
  shows "liveSessionCount e' < liveSessionCount e"
proof -
  obtain d where d: "state_of key e = Some expected" "\<not> spared e (te_heap e expected)" "frame expected e d" "e' = forget_state key d"
    using close_idle_cases [OF assms] by auto
  let ?P = "\<lambda>(k, a). stateIsLiveLocked e (te_heap e a)"
  let ?Q = "\<lambda>(k, a). k \<noteq> key \<and> stateIsLiveLocked d (te_heap d a)"
  have heap: "te_heap d a = te_heap e a" if "a \<noteq> expected" for a using d(3) that by (simp add: frame_def)
  have exp: "stateIsLiveLocked e (te_heap e expected)" using d(2) by (simp add: spared_def)
  have mem: "(key, expected) \<in> set (te_interactiveStates e)" using d(1) map_of_SomeD by (simp add: state_of_def)
  have "te_interactiveStates e' = filter (\<lambda>(k, a). k \<noteq> key) (te_interactiveStates e)"
    using d(3,4) by (auto simp: forget_state_def frame_def AList.delete_eq case_prod_beta' intro: filter_cong)
  then have "liveSessionCount e' = length (filter ?Q (te_interactiveStates e))"
    using d(4) by (simp add: liveSessionCount_def live_forget) (simp add: forget_state_def case_prod_beta' conj_commute)
  also have "\<dots> < length (filter ?P (te_interactiveStates e))"
  proof (rule filter_less [OF mem])
    show "?P y" if "y \<in> set (te_interactiveStates e)" "?Q y" for y
      using that heap exp live_frame [OF d(3)] by (cases y; cases "snd y = expected") auto
  qed (use exp in auto)
  finally show ?thesis by (simp add: liveSessionCount_def)
qed

lemma evict_fewer:
  assumes "evictSession confirmed c w = (w', True)" and "ec_engine c < length (lw_engines w)"
  shows "total_live w' < total_live w"
proof -
  let ?i = "ec_engine c"
  obtain conf e' where cl: "closeIdleInteractiveState (ec_key c) (ec_state c) (ec_token c) conf (lw_engines w ! ?i) = (e', True)"
      and w': "w' = w\<lparr>lw_engines := (lw_engines w)[?i := e']\<rparr>"
    using assms(1) by (auto simp: evictSession_def Let_def split: prod.splits)
  have up: "map liveSessionCount ((lw_engines w)[?i := e']) = (map liveSessionCount (lw_engines w))[?i := liveSessionCount e']"
    by (simp add: map_update)
  have "liveSessionCount (lw_engines w ! ?i) \<le> sum_list (map liveSessionCount (lw_engines w))"
    using elem_le_sum_list [of ?i "map liveSessionCount (lw_engines w)"] assms(2) by simp
  then have "total_live w' + liveSessionCount (lw_engines w ! ?i) = total_live w + liveSessionCount e'"
    using assms(2) w' sum_list_update [of ?i "map liveSessionCount (lw_engines w)" "liveSessionCount e'"]
    by (simp add: total_live_def up)
  then show ?thesis using close_idle_fewer [OF cl] by linarith
qed

lemma evict_keeps_shape: "evictSession confirmed c w = (w', ok) \<Longrightarrow> length (lw_engines w') = length (lw_engines w)
    \<and> lw_limiter w' = lw_limiter w \<and> lw_attached w' = lw_attached w \<and> lw_maxLive w' = lw_maxLive w"
  by (auto simp: evictSession_def Let_def split: prod.splits)

text \<open>A candidate of the present engine can be closed, so a fresh list of candidates always yields a victim.\<close>

lemma fresh_candidate:
  assumes "c \<in> set (idleEvictionCandidates i skip (lw_engines w ! i))" and "wf_map (te_interactiveStates (lw_engines w ! i))"
  shows "ec_engine c = i \<and> (\<exists>w'. evictSession confirmed c w = (w', True))"
proof -
  let ?e = "lw_engines w ! i"
  obtain k a where c: "(k, a) \<in> set (te_interactiveStates ?e)" "stateIsLiveLocked ?e (te_heap ?e a)" "\<not> stateIsBusyLocked ?e (te_heap ?e a)"
      "ec_key c = k" "ec_state c = a" "ec_token c = is_agentSessionIdleToken (te_heap ?e a)" "ec_engine c = i"
    using assms(1) by (auto simp: idleEvictionCandidates_def)
  have "state_of k ?e = Some a" using c(1) assms(2) by (simp add: state_of_def wf_map_def)
  then show ?thesis using c
    by (auto simp: evictSession_def closeIdleInteractiveState_def stateIsLiveLocked_def Let_def split: prod.splits)
qed

lemma try_fresh:
  assumes "cs \<noteq> []" and "\<And>c. c \<in> set cs \<Longrightarrow> ec_engine c < length (lw_engines w) \<and> (\<exists>v. evictSession confirmed c w = (v, True))"
    and "evictOldest confirmed cs w = (w', ok)"
  shows "ok \<and> total_live w' < total_live w \<and> length (lw_engines w') = length (lw_engines w)
    \<and> lw_limiter w' = lw_limiter w \<and> lw_attached w' = lw_attached w \<and> lw_maxLive w' = lw_maxLive w"
proof -
  obtain c rest where s: "sort_key ec_lastActivity cs = c # rest" using assms(1) by (cases "sort_key ec_lastActivity cs") (metis set_empty set_sort, auto)
  have mem: "c \<in> set cs" using s by (metis list.set_intros(1) set_sort)
  then obtain v where v: "evictSession confirmed c w = (v, True)" "ec_engine c < length (lw_engines w)" using assms(2) by blast
  have "(w', ok) = (v, True)" using assms(3) v(1) by (simp add: evict_oldest_sorted s)
  then show ?thesis using evict_fewer [OF v] evict_keeps_shape [OF v(1)] by simp
qed

definition world_ok :: "live_world \<Rightarrow> bool" where
  "world_ok w \<longleftrightarrow> (\<forall>e \<in> set (lw_engines w). wf_map (te_interactiveStates e))
     \<and> (\<forall>j \<in> set (ll_engines (lw_limiter w)). j < length (lw_engines w))"

lemma close_idle_wf:
  assumes "closeIdleInteractiveState key expected token confirmed e = (e', ok)" and "wf_map (te_interactiveStates e)"
  shows "wf_map (te_interactiveStates e')"
  using close_idle_cases [OF assms(1)] assms(2) by (auto simp: frame_def forget_state_def wfm)

lemma evict_world_ok: "evictSession confirmed c w = (w', ok) \<Longrightarrow> world_ok w \<Longrightarrow> world_ok w'"
proof -
  assume a: "evictSession confirmed c w = (w', ok)" "world_ok w"
  let ?i = "ec_engine c"
  obtain conf e' where cl: "closeIdleInteractiveState (ec_key c) (ec_state c) (ec_token c) conf (lw_engines w ! ?i) = (e', ok)"
      and w': "w' = w\<lparr>lw_engines := (lw_engines w)[?i := e']\<rparr>"
    using a(1) by (auto simp: evictSession_def Let_def split: prod.splits)
  show "world_ok w'"
  proof (cases "?i < length (lw_engines w)")
    case True
    then have "wf_map (te_interactiveStates e')" using close_idle_wf [OF cl] a(2) by (simp add: world_ok_def)
    then show ?thesis using a(2) w' set_update_subset_insert [of "lw_engines w" ?i e'] by (auto simp: world_ok_def)
  next
    case False
    then show ?thesis using a(2) w' by (simp add: world_ok_def list_update_beyond)
  qed
qed

lemma try_world_ok: "try_in_order confirmed cs w = (w', ok) \<Longrightarrow> world_ok w \<Longrightarrow> world_ok w'"
proof (induction cs arbitrary: w)
  case (Cons c cs)
  obtain v b where "evictSession confirmed c w = (v, b)" by force
  then show ?case using Cons evict_world_ok by (auto split: if_splits)
qed simp

definition local_full :: "nat \<Rightarrow> live_world \<Rightarrow> bool" where
  "local_full i w \<longleftrightarrow> 0 < lw_maxLive w ! i \<and> lw_maxLive w ! i \<le> int (liveSessionCount (lw_engines w ! i))"

definition global_full :: "nat \<Rightarrow> live_world \<Rightarrow> bool" where
  "global_full i w \<longleftrightarrow> List.member (lw_attached w) i \<and> 0 < ll_max (lw_limiter w) \<and> ll_max (lw_limiter w) \<le> ll_liveCount w"

lemma local_evict:
  assumes "world_ok w" and "i < length (lw_engines w)" and "evictLocalLRU confirmed i key w = (w', ok)"
    and "idleEvictionCandidates i key (lw_engines w ! i) \<noteq> []"
  shows "ok \<and> total_live w' < total_live w \<and> world_ok w' \<and> length (lw_engines w') = length (lw_engines w)"
proof -
  have wf: "wf_map (te_interactiveStates (lw_engines w ! i))" using assms(1,2) by (simp add: world_ok_def)
  have "ec_engine c < length (lw_engines w) \<and> (\<exists>v. evictSession confirmed c w = (v, True))"
    if "c \<in> set (idleEvictionCandidates i key (lw_engines w ! i))" for c
    using fresh_candidate [OF that wf] assms(2) by auto
  note t = try_fresh [OF assms(4) this assms(3) [unfolded evictLocalLRU_def]]
  then show ?thesis using try_world_ok assms(1,3) unfolding evictLocalLRU_def evict_oldest_sorted by auto
qed

lemma global_evict:
  assumes "world_ok w" and "ll_evictLRU confirmed i key w = (w', ok)" and "limiter_candidates i key w \<noteq> []"
  shows "ok \<and> total_live w' < total_live w \<and> world_ok w' \<and> length (lw_engines w') = length (lw_engines w)"
proof -
  have "ec_engine c < length (lw_engines w) \<and> (\<exists>v. evictSession confirmed c w = (v, True))"
    if "c \<in> set (limiter_candidates i key w)" for c
  proof -
    obtain j skip where j: "j \<in> set (ll_engines (lw_limiter w))" "c \<in> set (idleEvictionCandidates j skip (lw_engines w ! j))"
      using \<open>c \<in> set (limiter_candidates i key w)\<close> by (auto simp: limiter_candidates_def)
    then have "j < length (lw_engines w)" "wf_map (te_interactiveStates (lw_engines w ! j))" using assms(1) by (auto simp: world_ok_def)
    then show ?thesis using fresh_candidate [OF j(2), of confirmed] by auto
  qed
  note t = try_fresh [OF assms(3) this assms(2) [unfolded ll_evictLRU_def]]
  then show ?thesis using try_world_ok assms(1,2) unfolding ll_evictLRU_def evict_oldest_sorted by auto
qed

lemma no_candidates:
  "idleEvictionCandidates i key (lw_engines w ! i) = [] \<Longrightarrow> evictLocalLRU confirmed i key w = (w, False)"
  "limiter_candidates i key w = [] \<Longrightarrow> ll_evictLRU confirmed i key w = (w, False)"
  by (simp_all add: evictLocalLRU_def ll_evictLRU_def evictOldest.simps)

lemma slot_granted: "slot_attempts n confirmed i key w = (w', True) \<Longrightarrow> \<not> local_full i w' \<and> \<not> global_full i w'"
  by (induction n confirmed i key w rule: slot_attempts.induct)
    (auto simp: Let_def local_full_def global_full_def split: if_splits prod.splits bool.splits)

lemma slot_refused:
  assumes "world_ok w" and "i < length (lw_engines w)" and "slot_attempts n confirmed i key w = (w', False)"
  shows "local_full i w' \<and> idleEvictionCandidates i key (lw_engines w' ! i) = []
    \<or> global_full i w' \<and> limiter_candidates i key w' = [] \<or> total_live w' + n \<le> total_live w"
  using assms
proof (induction n arbitrary: w)
  case 0
  then show ?case by simp
next
  case (Suc n)
  show ?case
  proof (cases "local_full i w")
    case True
    obtain v b where v: "evictLocalLRU confirmed i key w = (v, b)" by force
    have step: "slot_attempts (Suc n) confirmed i key w = (if b then slot_attempts n confirmed i key v else (v, False))"
      using True v by (simp add: local_full_def)
    show ?thesis
    proof (cases "idleEvictionCandidates i key (lw_engines w ! i) = []")
      case True
      then show ?thesis using v step Suc.prems(3) \<open>local_full i w\<close> no_candidates(1) [OF True, of confirmed] by auto
    next
      case False
      note l = local_evict [OF Suc.prems(1,2) v False]
      then have "slot_attempts n confirmed i key v = (w', False)" using step Suc.prems(3) by simp
      then show ?thesis using Suc.IH [of v] l Suc.prems(2) by auto
    qed
  next
    case nl: False
    show ?thesis
    proof (cases "global_full i w")
      case True
      obtain v b where v: "ll_evictLRU confirmed i key w = (v, b)" by force
      have step: "slot_attempts (Suc n) confirmed i key w = (if b then slot_attempts n confirmed i key v else (v, False))"
        using True nl v by (auto simp: local_full_def global_full_def)
      show ?thesis
      proof (cases "limiter_candidates i key w = []")
        case True
        then show ?thesis using v step Suc.prems(3) \<open>global_full i w\<close> no_candidates(2) [OF True, of confirmed] by auto
      next
        case False
        note g = global_evict [OF Suc.prems(1) v False]
        then have "slot_attempts n confirmed i key v = (w', False)" using step Suc.prems(3) by simp
        then show ?thesis using Suc.IH [of v] g Suc.prems(2) by auto
      qed
    next
      case False
      then show ?thesis using Suc.prems(3) nl by (auto simp: local_full_def global_full_def)
    qed
  qed
qed

section \<open>Properties\<close>

text \<open>
  C24. Eviction tries the candidates in the order of their last activity, equally old ones in the order in which they
  were collected, and stops at the first that can be closed: the loop that removes a minimum in each round is the
  stable sort by that time.
\<close>

theorem eviction_is_least_recently_used:
  "evictOldest confirmed cs w = try_in_order confirmed (sort_key ec_lastActivity cs) w"
  by (rule evict_oldest_sorted)

text \<open>
  C23. Making room for a new agent process never touches a session that is in use: a state with a turn running, a
  permission prompt open, messages queued, events to be drained or a locked session stays the state of its
  conversation, unchanged, in every engine, whether a slot is found or not.
\<close>

theorem busy_session_never_evicted:
  assumes "liveSlotAvailable confirmed i key w = (w', ok)" and "state_of k (lw_engines w ! j) = Some a"
    and "stateIsBusyLocked (lw_engines w ! j) (te_heap (lw_engines w ! j) a)"
  shows "state_of k (lw_engines w' ! j) = Some a \<and> te_heap (lw_engines w' ! j) a = te_heap (lw_engines w ! j) a"
  using slot_spares [OF assms(1) [unfolded liveSlotAvailable_def], of j k a "te_heap (lw_engines w ! j) a"] assms(2,3)
  by (simp add: spared_at_def spared_def)

text \<open>
  A slot is granted only when, at that moment, another process stays within both caps. It is refused only when a
  cap is reached and no other session in its scope is live and idle, or when 64 sessions were closed in vain.
\<close>

theorem live_slot_decision:
  assumes "world_ok w" and "i < length (lw_engines w)" and "liveSlotAvailable confirmed i key w = (w', ok)"
  shows "(ok \<longrightarrow> \<not> local_full i w' \<and> \<not> global_full i w')
    \<and> (\<not> ok \<longrightarrow> local_full i w' \<and> idleEvictionCandidates i key (lw_engines w' ! i) = []
          \<or> global_full i w' \<and> limiter_candidates i key w' = [] \<or> total_live w' + 64 \<le> total_live w)"
  using slot_granted [of 64 confirmed i key w w'] slot_refused [OF assms(1,2), of 64 confirmed key w'] assms(3)
  by (cases ok) (simp_all add: liveSlotAvailable_def)

text \<open>An engine with an idle session and one whose events must be drained, and a cap of one process.\<close>

definition demo_live :: live_world where
  "demo_live =
     \<lparr>lw_engines = [\<lparr>te_interactiveStates = [(''a'', 0), (''b'', 1)],
        te_heap = (\<lambda>n. if n = 0 then (new_state (Some 1) [] [] 5)\<lparr>is_eventsNeedResync := False\<rparr> else new_state (Some 2) [] [] 0),
        te_fresh = 2, te_interactiveMu = False, te_alive = [1, 2], te_agentID = (\<lambda>_. []), te_active = [],
        te_unsafeResume = [], te_maxQueuedMessages = 5, te_out = [], te_sent = []\<rparr>],
      lw_maxLive = [1], lw_limiter = NewLiveSessionLimiter 0, lw_attached = []\<rparr>"

lemma demo_live_refused:
  "snd (liveSlotAvailable (\<lambda>_. True) 0 ''c'' demo_live) = False"
  "map (\<lambda>e. (map fst (te_interactiveStates e), te_alive e)) (lw_engines (fst (liveSlotAvailable (\<lambda>_. True) 0 ''c'' demo_live))) = [([''b''], [2])]"
  by code_simp+

lemma busy_session_never_evicted_witness:
  "\<exists>w'. liveSlotAvailable (\<lambda>_. True) 0 ''c'' demo_live = (w', False) \<and> map te_alive (lw_engines w') = [[2]]
     \<and> state_of ''b'' (lw_engines w' ! 0) = Some 1"
proof -
  obtain w' ok where s: "liveSlotAvailable (\<lambda>_. True) 0 ''c'' demo_live = (w', ok)" by force
  have "state_of ''b'' (lw_engines demo_live ! 0) = Some 1"
    "stateIsBusyLocked (lw_engines demo_live ! 0) (te_heap (lw_engines demo_live ! 0) 1)" by code_simp+
  from busy_session_never_evicted [OF s this] show ?thesis using s demo_live_refused by auto
qed

lemma live_slot_decision_witness:
  "\<exists>w'. liveSlotAvailable (\<lambda>_. True) 0 ''c'' demo_live = (w', False)
     \<and> (local_full 0 w' \<and> idleEvictionCandidates 0 ''c'' (lw_engines w' ! 0) = []
        \<or> global_full 0 w' \<and> limiter_candidates 0 ''c'' w' = [] \<or> total_live w' + 64 \<le> total_live demo_live)"
proof -
  obtain w' ok where s: "liveSlotAvailable (\<lambda>_. True) 0 ''c'' demo_live = (w', ok)" by force
  have "world_ok demo_live" by (simp add: world_ok_def demo_live_def NewLiveSessionLimiter_def ll_SetMax_def wf_map_def)
  moreover have "0 < length (lw_engines demo_live)" by (simp add: demo_live_def)
  ultimately show ?thesis using live_slot_decision [OF _ _ s] s demo_live_refused by auto
qed

text \<open>
  Nothing is reserved: two conversations that ask while one slot is free are both granted it, and both start a process.
\<close>

lemma two_grants_for_one_slot:
  assumes "lw_maxLive w ! i = int (liveSessionCount (lw_engines w ! i)) + 1" and "\<not> List.member (lw_attached w) i"
  shows "liveSlotAvailable confirmed i key1 w = (w, True) \<and> liveSlotAvailable confirmed i key2 w = (w, True)"
proof -
  have "slot_attempts (Suc n) confirmed i key w = (w, True)" for n key using assms by simp
  from this [of 63] show ?thesis by (simp add: liveSlotAvailable_def del: slot_attempts.simps)
qed

end
