(* ===== verification/MessageSplit.thy ===== *)
theory MessageSplit
  imports GoStrings "HOL-Library.Sublist"
begin

text \<open>
  Splitting a long answer into chat messages (\<open>SplitMessageCodeFenceAware\<close> in \<open>src/core/markdown_html.go\<close>): line by
  line, closing an open code fence at the end of a chunk and opening it again in the next. Lengths are in runes. A
  slice with a negative bound panics, which is the value \<open>Inl ()\<close>; the inner loop may run for ever, which is \<open>None\<close>.
\<close>

section \<open>The splitter\<close>

definition rune_count :: "string \<Rightarrow> int" where
  "rune_count s = int (length (runes s))"

definition fence :: string where
  "fence = ''```''"

definition closing_fence :: string where
  "closing_fence = newline # fence"

definition is_fence :: "string \<Rightarrow> bool" where
  "is_fence line \<longleftrightarrow> has_prefix (trim_space line) fence"

record split_state =
  ss_chunks :: "string list"
  ss_current :: "string list"
  ss_currentLen :: int
  ss_openFence :: string

definition effectiveLimit :: "int \<Rightarrow> split_state \<Rightarrow> int" where
  "effectiveLimit maxLen s = (if ss_openFence s \<noteq> [] then maxLen - 4 else maxLen)"

definition close_chunk :: "split_state \<Rightarrow> string" where
  "close_chunk s = join [newline] (ss_current s) @ (if ss_openFence s \<noteq> [] then closing_fence else [])"

definition split_flush :: "split_state \<Rightarrow> split_state" where
  "split_flush s =
     (if ss_current s = [] then s
      else let s1 = s\<lparr>ss_chunks := ss_chunks s @ [close_chunk s]\<rparr>
           in if ss_openFence s \<noteq> []
              then s1\<lparr>ss_current := [ss_openFence s], ss_currentLen := rune_count (ss_openFence s) + 1\<rparr>
              else s1\<lparr>ss_current := [], ss_currentLen := 0\<rparr>)"

definition split_add :: "string \<Rightarrow> int \<Rightarrow> split_state \<Rightarrow> split_state" where
  "split_add part n s = s\<lparr>ss_current := ss_current s @ [part], ss_currentLen := ss_currentLen s + n + 1\<rparr>"

definition split_fits :: "int \<Rightarrow> int \<Rightarrow> split_state \<Rightarrow> bool" where
  "split_fits maxLen n s \<longleftrightarrow> ss_currentLen s + n + 1 \<le> effectiveLimit maxLen s"

text \<open>The inner loop over the runes of a line that does not fit: what happens before a part is cut off.\<close>

definition split_room :: "int \<Rightarrow> split_state \<Rightarrow> split_state" where
  "split_room maxLen s = (if effectiveLimit maxLen s - ss_currentLen s \<le> 0 then split_flush s else s)"

partial_function (option) split_line :: "int \<Rightarrow> nat list \<Rightarrow> split_state \<Rightarrow> (unit + split_state) option" where
  "split_line maxLen remaining s =
     (if remaining = [] then Some (Inr s)
      else let s1 = split_room maxLen s;
               room = effectiveLimit maxLen s1 - ss_currentLen s1;
               avail = (if int (length remaining) < room then int (length remaining) else room)
           in if avail < 0 then Some (Inl ())
              else let s2 = split_add (of_runes (take (nat avail) remaining)) avail s1;
                       rest = drop (nat avail) remaining
                   in split_line maxLen rest (if rest \<noteq> [] then split_flush s2 else s2))"

definition track_fence :: "string \<Rightarrow> split_state \<Rightarrow> split_state" where
  "track_fence line s =
     (if is_fence line then s\<lparr>ss_openFence := (if ss_openFence s \<noteq> [] then [] else trim_space line)\<rparr> else s)"

definition split_place :: "int \<Rightarrow> string \<Rightarrow> split_state \<Rightarrow> (unit + split_state) option" where
  "split_place maxLen line s =
     (if split_fits maxLen (rune_count line) s then Some (Inr (split_add line (rune_count line) s))
      else let s1 = split_flush s
           in if split_fits maxLen (rune_count line) s1 then Some (Inr (split_add line (rune_count line) s1))
              else split_line maxLen (runes line) s1)"

fun split_lines :: "int \<Rightarrow> string list \<Rightarrow> split_state \<Rightarrow> (unit + split_state) option" where
  "split_lines maxLen [] s = Some (Inr s)"
| "split_lines maxLen (line # rest) s =
     (case split_place maxLen line s of
        Some (Inr s') \<Rightarrow> split_lines maxLen rest (track_fence line s')
      | r \<Rightarrow> r)"

definition split_init :: split_state where
  "split_init = \<lparr>ss_chunks = [], ss_current = [], ss_currentLen = 0, ss_openFence = []\<rparr>"

definition split_end :: "split_state \<Rightarrow> string list" where
  "split_end s = ss_chunks s @ (if ss_current s \<noteq> [] then [close_chunk s] else [])"

definition SplitMessageCodeFenceAware :: "string \<Rightarrow> int \<Rightarrow> (unit + string list) option" where
  "SplitMessageCodeFenceAware body maxLen =
     (if rune_count body \<le> maxLen then Some (Inr [body])
      else map_option (map_sum id split_end) (split_lines maxLen (split_all newline body) split_init))"

section \<open>Runes and lines\<close>

lemma decode_rune_newline: "bs \<noteq> [] \<Longrightarrow> decode_rune (take 4 (bs @ 10 # rest)) = decode_rune (take 4 bs)"
  by (cases bs; cases "tl bs"; cases "tl (tl bs)"; cases "tl (tl (tl bs))")
    (auto simp: cont_def second_ok_def split: if_splits list.splits)

lemma decode_width: "snd (decode_rune bs) \<le> length bs"
  by (cases bs) (auto split: list.splits)

lemma segs_newline: "segs (s @ newline # t) = segs s @ segs (newline # t)"
proof (induction s rule: segs.induct)
  case (1 s)
  show ?case
  proof (cases "s = []")
    case False
    obtain r w where rw: "decode_rune (map byte (take 4 s)) = (r, w)" by fastforce
    have nl: "byte newline = 10" by (simp add: byte_def)
    have "map byte (take 4 (s @ newline # t)) = take 4 (map byte s @ 10 # map byte t)"
      unfolding take_map [symmetric] map_append list.map nl by (rule refl)
    moreover have "map byte s \<noteq> []" using False by simp
    ultimately have rw': "decode_rune (map byte (take 4 (s @ newline # t))) = (r, w)"
      using decode_rune_newline [of "map byte s" "map byte t"] rw by (simp add: take_map)
    have "w \<le> length s" using decode_width [of "map byte (take 4 s)"] rw by simp
    then have k: "max 1 w \<le> length s" using False by (cases s) simp_all
    have "segs (drop (max 1 w) s @ newline # t) = segs (drop (max 1 w) s) @ segs (newline # t)"
      using "1" False rw by (metis (no_types))
    then show ?thesis using False rw rw' k
      by (subst (1 2) segs.simps) (simp add: Let_def)
  qed simp
qed

lemma runes_newline: "runes (s @ newline # t) = runes s @ 10 # runes t"
  by (simp add: runes_def segs_newline segs_ascii byte_def)

lemma join_snoc: "xs \<noteq> [] \<Longrightarrow> join sep (xs @ [x]) = join sep xs @ sep @ x"
  by (induction sep xs rule: join.induct) auto

text \<open>The length of the joined lines, as the code counts it.\<close>

definition lines_len :: "string list \<Rightarrow> int" where
  "lines_len xs = (\<Sum>x \<leftarrow> xs. rune_count x + 1)"

lemma lines_len_simps [simp]: "lines_len [] = 0" "lines_len (xs @ ys) = lines_len xs + lines_len ys" "lines_len [x] = rune_count x + 1"
  by (simp_all add: lines_len_def)

lemma rune_count_join: "xs \<noteq> [] \<Longrightarrow> rune_count (join [newline] xs) = lines_len xs - 1"
proof (induction xs rule: rev_induct)
  case (snoc x xs)
  show ?case
  proof (cases "xs = []")
    case False
    then show ?thesis using snoc by (simp add: join_snoc rune_count_def runes_newline)
  qed simp
qed simp

lemma rune_count_closing: "rune_count (s @ closing_fence) = rune_count s + 4"
  by (simp add: rune_count_def closing_fence_def runes_newline) (simp add: fence_def runes_ascii byte_def)

lemma rune_count_nonneg: "0 \<le> rune_count s"
  by (simp add: rune_count_def)

lemma rune_count_of_runes: "\<forall>r \<in> set rs. valid_rune r \<Longrightarrow> rune_count (of_runes rs) = int (length rs)"
  by (simp add: rune_count_def runes_of_runes)

section \<open>The invariant between lines\<close>

definition split_inv :: "int \<Rightarrow> int \<Rightarrow> split_state \<Rightarrow> bool" where
  "split_inv maxLen slack s \<longleftrightarrow> ss_currentLen s = lines_len (ss_current s)
     \<and> (\<forall>c \<in> set (ss_chunks s). rune_count c \<le> maxLen + slack)
     \<and> 0 \<le> slack \<and> (ss_openFence s \<noteq> [] \<longrightarrow> rune_count (ss_openFence s) + 6 \<le> maxLen \<and> 3 \<le> slack)
     \<and> ss_currentLen s \<le> (if ss_openFence s = [] then maxLen + 1 else maxLen)"

lemma close_chunk_len:
  assumes "ss_current s \<noteq> []" and "ss_currentLen s = lines_len (ss_current s)"
  shows "rune_count (close_chunk s) = ss_currentLen s - 1 + (if ss_openFence s \<noteq> [] then 4 else 0)"
  using assms by (simp add: close_chunk_def rune_count_closing rune_count_join)

lemma close_chunk_bound: "split_inv maxLen k s \<Longrightarrow> ss_current s \<noteq> [] \<Longrightarrow> rune_count (close_chunk s) \<le> maxLen + k"
  using close_chunk_len [of s] by (auto simp: split_inv_def split: if_splits)

lemma flush_inv:
  assumes "split_inv maxLen k s" and "0 < maxLen"
  shows "split_inv maxLen k (split_flush s)" and "ss_openFence (split_flush s) = ss_openFence s"
    and "0 < effectiveLimit maxLen (split_flush s) - ss_currentLen (split_flush s)"
    and "ss_openFence s = [] \<Longrightarrow> ss_currentLen (split_flush s) = 0"
proof -
  show "split_inv maxLen k (split_flush s)"
    using assms close_chunk_bound [OF assms(1)] by (auto simp: split_flush_def split_inv_def Let_def)
  show "ss_openFence (split_flush s) = ss_openFence s" by (simp add: split_flush_def Let_def)
  show "0 < effectiveLimit maxLen (split_flush s) - ss_currentLen (split_flush s)"
    using assms rune_count_nonneg [of "ss_openFence s"]
    by (auto simp: split_flush_def split_inv_def effectiveLimit_def Let_def)
  show "ss_openFence s = [] \<Longrightarrow> ss_currentLen (split_flush s) = 0"
    using assms by (simp add: split_flush_def split_inv_def Let_def)
qed

lemma room_positive:
  assumes "split_inv maxLen k s" and "0 < maxLen"
  shows "split_inv maxLen k (split_room maxLen s)" and "ss_openFence (split_room maxLen s) = ss_openFence s"
    and "0 < effectiveLimit maxLen (split_room maxLen s) - ss_currentLen (split_room maxLen s)"
  using flush_inv(1-3) [OF assms] assms by (simp_all add: split_room_def)

text \<open>With room in every fresh chunk, the inner loop returns and keeps the invariant.\<close>

lemma split_line_returns:
  assumes "split_inv maxLen k s" and "0 < maxLen" and "\<forall>r \<in> set remaining. valid_rune r"
  shows "\<exists>s'. split_line maxLen remaining s = Some (Inr s') \<and> split_inv maxLen k s' \<and> ss_openFence s' = ss_openFence s"
  using assms(1,3)
proof (induction "length remaining" arbitrary: remaining s rule: less_induct)
  case less
  show ?case
  proof (cases "remaining = []")
    case True
    then show ?thesis using less.prems by (simp add: split_line.simps)
  next
    case False
    let ?s1 = "split_room maxLen s"
    let ?room = "effectiveLimit maxLen ?s1 - ss_currentLen ?s1"
    let ?avail = "if int (length remaining) < ?room then int (length remaining) else ?room"
    let ?s2 = "split_add (of_runes (take (nat ?avail) remaining)) ?avail ?s1"
    let ?rest = "drop (nat ?avail) remaining"
    note R = room_positive [OF less.prems(1) assms(2)]
    have av: "0 < ?avail" "?avail \<le> int (length remaining)" "?avail \<le> ?room" using R(3) False by auto
    have len: "rune_count (of_runes (take (nat ?avail) remaining)) = ?avail"
      using less.prems(2) av by (subst rune_count_of_runes) (auto dest: in_set_takeD)
    have lim: "effectiveLimit maxLen ?s1 \<le> (if ss_openFence ?s1 = [] then maxLen else maxLen - 4)"
      by (simp add: effectiveLimit_def)
    have i2: "split_inv maxLen k ?s2" using R(1) len av lim
      by (auto simp: split_inv_def split_add_def split: if_splits)
    have f2: "ss_openFence ?s2 = ss_openFence s" using R(2) by (simp add: split_add_def)
    have step: "split_line maxLen remaining s = split_line maxLen ?rest (if ?rest \<noteq> [] then split_flush ?s2 else ?s2)"
      using False av by (subst split_line.simps) (simp add: Let_def)
    show ?thesis
    proof (cases "?rest = []")
      case True
      then have "split_line maxLen remaining s = Some (Inr ?s2)" using step by (simp add: split_line.simps)
      then show ?thesis using i2 f2 by blast
    next
      case nr: False
      have "length ?rest < length remaining" using av False by simp
      moreover have "\<forall>r \<in> set ?rest. valid_rune r" using less.prems(2) by (auto dest: in_set_dropD)
      moreover note flush_inv(1,2) [OF i2 assms(2)]
      ultimately obtain s' where "split_line maxLen ?rest (split_flush ?s2) = Some (Inr s')" "split_inv maxLen k s'"
          "ss_openFence s' = ss_openFence s"
        using less.hyps [of ?rest "split_flush ?s2"] f2 by metis
      then show ?thesis unfolding step using nr by auto
    qed
  qed
qed

text \<open>A fence line that leaves room for the fence to be repeated and closed, and for some text.\<close>

definition fence_short :: "int \<Rightarrow> string \<Rightarrow> bool" where
  "fence_short maxLen line \<longleftrightarrow> is_fence line \<longrightarrow> rune_count line + 6 \<le> maxLen \<and> rune_count (trim_space line) + 6 \<le> maxLen"

lemma add_inv: "split_inv maxLen k s \<Longrightarrow> split_fits maxLen (rune_count line) s \<Longrightarrow>
    split_inv maxLen k (split_add line (rune_count line) s) \<and> ss_currentLen (split_add line (rune_count line) s) \<le> maxLen"
  by (auto simp: split_inv_def split_add_def split_fits_def effectiveLimit_def split: if_splits)

lemma split_place_returns:
  assumes "split_inv maxLen k s" and "0 < maxLen"
  shows "\<exists>s'. split_place maxLen line s = Some (Inr s') \<and> split_inv maxLen k s' \<and> ss_openFence s' = ss_openFence s
    \<and> (ss_openFence s = [] \<and> rune_count line + 6 \<le> maxLen \<longrightarrow> ss_currentLen s' \<le> maxLen)"
proof -
  note F = flush_inv [OF assms]
  consider (fits) "split_fits maxLen (rune_count line) s"
    | (later) "\<not> split_fits maxLen (rune_count line) s" "split_fits maxLen (rune_count line) (split_flush s)"
    | (long) "\<not> split_fits maxLen (rune_count line) s" "\<not> split_fits maxLen (rune_count line) (split_flush s)" by blast
  then show ?thesis
  proof cases
    case fits
    then show ?thesis using add_inv [OF assms(1)] by (simp add: split_place_def) (simp add: split_add_def)
  next
    case later
    then show ?thesis using add_inv [OF F(1)] F(2) by (simp add: split_place_def) (simp add: split_add_def)
  next
    case long
    then have "\<not> (ss_openFence s = [] \<and> rune_count line + 6 \<le> maxLen)"
      using F(2,4) by (auto simp: split_fits_def effectiveLimit_def)
    moreover obtain s' where "split_line maxLen (runes line) (split_flush s) = Some (Inr s')" "split_inv maxLen k s'"
        "ss_openFence s' = ss_openFence s"
      using split_line_returns [OF F(1) assms(2) runes_valid [of line]] F(2) by auto
    ultimately show ?thesis using long by (auto simp: split_place_def)
  qed
qed

lemma split_lines_returns:
  assumes "split_inv maxLen k s" and "0 < maxLen" and "\<forall>line \<in> set lines. fence_short maxLen line \<and> (is_fence line \<longrightarrow> 3 \<le> k)"
  shows "\<exists>s'. split_lines maxLen lines s = Some (Inr s') \<and> split_inv maxLen k s'"
  using assms(1,3)
proof (induction lines arbitrary: s)
  case (Cons line rest)
  obtain s' where s': "split_place maxLen line s = Some (Inr s')" "split_inv maxLen k s'" "ss_openFence s' = ss_openFence s"
      "ss_openFence s = [] \<and> rune_count line + 6 \<le> maxLen \<longrightarrow> ss_currentLen s' \<le> maxLen"
    using split_place_returns [OF Cons.prems(1) assms(2), of line] by blast
  have "split_inv maxLen k (track_fence line s')"
    using s' Cons.prems(2) by (auto simp: track_fence_def split_inv_def fence_short_def)
  moreover have "\<forall>line \<in> set rest. fence_short maxLen line \<and> (is_fence line \<longrightarrow> 3 \<le> k)" using Cons.prems(2) by simp
  ultimately obtain t where "split_lines maxLen rest (track_fence line s') = Some (Inr t)" "split_inv maxLen k t"
    using Cons.IH by blast
  then show ?case using s'(1) by simp
qed simp

lemma split_init_inv: "0 < maxLen \<Longrightarrow> 0 \<le> k \<Longrightarrow> split_inv maxLen k split_init"
  by (simp add: split_inv_def split_init_def)

lemma split_end_bound: "split_inv maxLen k s \<Longrightarrow> c \<in> set (split_end s) \<Longrightarrow> rune_count c \<le> maxLen + k"
  using close_chunk_bound [of maxLen k s] by (auto simp: split_end_def split_inv_def split: if_splits)

section \<open>No text is lost\<close>

definition text_runes :: "string \<Rightarrow> nat list" where
  "text_runes s = filter (\<lambda>r. r \<noteq> 10) (runes s)"

definition out_runes :: "split_state \<Rightarrow> nat list" where
  "out_runes s = concat (map text_runes (ss_chunks s)) @ concat (map text_runes (ss_current s))"

lemma text_runes_newline [simp]: "text_runes (s @ newline # t) = text_runes s @ text_runes t"
  by (simp add: text_runes_def runes_newline)

lemma text_runes_Nil [simp]: "text_runes [] = []"
  by (simp add: text_runes_def)

lemma text_runes_join: "text_runes (join [newline] xs) = concat (map text_runes xs)"
proof (induction xs rule: rev_induct)
  case (snoc x xs)
  then show ?case by (cases "xs = []") (simp_all add: join_snoc)
qed simp

lemma text_runes_of_runes: "\<forall>r \<in> set rs. valid_rune r \<Longrightarrow> text_runes (of_runes rs) = filter (\<lambda>r. r \<noteq> 10) rs"
  by (simp add: text_runes_def runes_of_runes)

lemma subseq_prefix: "subseq xs (xs @ ys)"
  using list_emb_append2 [OF subseq_order.refl] subseq_rev_drop_many by (metis append_Nil2 list_emb_append_mono list_emb_Nil subseq_order.refl)

lemma out_flush: "subseq (out_runes s) (out_runes (split_flush s))"
proof (cases "ss_current s = []")
  case False
  have "out_runes (split_flush s) = concat (map text_runes (ss_chunks s)) @ concat (map text_runes (ss_current s))
      @ (if ss_openFence s \<noteq> [] then text_runes fence @ text_runes (ss_openFence s) else [])"
    using False by (simp add: split_flush_def out_runes_def close_chunk_def closing_fence_def text_runes_join Let_def)
  then show ?thesis unfolding out_runes_def by (metis append_assoc subseq_prefix)
qed (simp add: split_flush_def)

lemma out_room: "subseq (out_runes s) (out_runes (split_room maxLen s))"
  using out_flush by (simp add: split_room_def)

lemma out_add: "out_runes (split_add part n s) = out_runes s @ text_runes part"
  by (simp add: out_runes_def split_add_def)

lemma out_track [simp]: "out_runes (track_fence line s) = out_runes s"
  by (simp add: out_runes_def track_fence_def)

lemma out_line:
  assumes ret: "split_line maxLen remaining s = Some res" and "res = Inr s'" and "\<forall>r \<in> set remaining. valid_rune r"
  shows "subseq (out_runes s @ filter (\<lambda>r. r \<noteq> 10) remaining) (out_runes s')"
proof -
  have "\<forall>s'. res = Inr s' \<longrightarrow> (\<forall>r \<in> set remaining. valid_rune r)
      \<longrightarrow> subseq (out_runes s @ filter (\<lambda>r. r \<noteq> 10) remaining) (out_runes s')"
  proof (rule split_line.raw_induct [where P = "\<lambda>maxLen remaining s res. \<forall>s'. res = Inr s' \<longrightarrow> (\<forall>r \<in> set remaining. valid_rune r)
      \<longrightarrow> subseq (out_runes s @ filter (\<lambda>r. r \<noteq> 10) remaining) (out_runes s')", OF _ ret], intro allI impI)
    fix f maxLen remaining s res s'
    assume IH: "\<And>maxLen remaining s res. f maxLen remaining s = Some res \<Longrightarrow>
        \<forall>s'. res = Inr s' \<longrightarrow> (\<forall>r \<in> set remaining. valid_rune r)
          \<longrightarrow> subseq (out_runes s @ filter (\<lambda>r. r \<noteq> 10) remaining) (out_runes s')"
      and eq: "(if remaining = [] then Some (Inr s)
          else let s1 = split_room maxLen s; room = effectiveLimit maxLen s1 - ss_currentLen s1;
                   avail = (if int (length remaining) < room then int (length remaining) else room)
               in if avail < 0 then Some (Inl ())
                  else let s2 = split_add (of_runes (take (nat avail) remaining)) avail s1; rest = drop (nat avail) remaining
                       in f maxLen rest (if rest \<noteq> [] then split_flush s2 else s2)) = Some res"
      and res: "res = Inr s'" and valid: "\<forall>r \<in> set remaining. valid_rune r"
    show "subseq (out_runes s @ filter (\<lambda>r. r \<noteq> 10) remaining) (out_runes s')"
    proof (cases "remaining = []")
      case True
      then show ?thesis using eq res by simp
    next
      case False
      let ?s1 = "split_room maxLen s"
      let ?room = "effectiveLimit maxLen ?s1 - ss_currentLen ?s1"
      let ?avail = "if int (length remaining) < ?room then int (length remaining) else ?room"
      let ?part = "take (nat ?avail) remaining" and ?rest = "drop (nat ?avail) remaining"
      let ?s2 = "split_add (of_runes ?part) ?avail ?s1"
      let ?s3 = "if ?rest \<noteq> [] then split_flush ?s2 else ?s2"
      let ?t = "filter (\<lambda>r. r \<noteq> 10)"
      have "f maxLen ?rest ?s3 = Some (Inr s')" using eq False res by (simp add: Let_def split: if_splits)
      from IH [OF this] have ih: "subseq (out_runes ?s3 @ ?t ?rest) (out_runes s')"
        using valid by (auto dest: in_set_dropD)
      have part: "text_runes (of_runes ?part) = ?t ?part" using valid by (intro text_runes_of_runes) (auto dest: in_set_takeD)
      have split: "?t remaining = ?t ?part @ ?t ?rest" by (metis append_take_drop_id filter_append)
      have "subseq (out_runes s @ ?t ?part) (out_runes ?s2)"
        using list_emb_append_mono [OF out_room subseq_order.refl] part by (simp only: out_add)
      moreover have "subseq (out_runes ?s2) (out_runes ?s3)" using out_flush by simp
      ultimately have "subseq (out_runes s @ ?t ?part) (out_runes ?s3)" by (rule subseq_order.trans)
      then have "subseq ((out_runes s @ ?t ?part) @ ?t ?rest) (out_runes ?s3 @ ?t ?rest)"
        by (rule list_emb_append_mono [OF _ subseq_order.refl])
      then show ?thesis using ih unfolding split append_assoc by (rule subseq_order.trans)
    qed
  qed
  then show ?thesis using assms(2,3) by blast
qed

lemma out_place:
  assumes "split_place maxLen line s = Some (Inr s')"
  shows "subseq (out_runes s @ text_runes line) (out_runes s')"
proof -
  have fl: "subseq (out_runes s @ xs) (out_runes (split_flush s) @ xs)" for xs
    by (rule list_emb_append_mono [OF out_flush subseq_order.refl])
  show ?thesis
  proof (cases "split_fits maxLen (rune_count line) s \<or> split_fits maxLen (rune_count line) (split_flush s)")
    case True
    then show ?thesis using assms fl by (auto simp: split_place_def out_add Let_def split: if_splits)
  next
    case False
    then have "split_line maxLen (runes line) (split_flush s) = Some (Inr s')" using assms by (simp add: split_place_def)
    from out_line [OF this refl runes_valid] show ?thesis using fl [of "text_runes line"]
      unfolding text_runes_def by (rule subseq_order.trans [rotated])
  qed
qed

lemma out_lines: "split_lines maxLen lines s = Some (Inr s') \<Longrightarrow> subseq (out_runes s @ concat (map text_runes lines)) (out_runes s')"
proof (induction lines arbitrary: s)
  case (Cons line rest)
  obtain s1 where s1: "split_place maxLen line s = Some (Inr s1)" "split_lines maxLen rest (track_fence line s1) = Some (Inr s')"
    using Cons.prems by (auto split: option.splits sum.splits)
  have "subseq ((out_runes s @ text_runes line) @ concat (map text_runes rest)) (out_runes s1 @ concat (map text_runes rest))"
    by (rule list_emb_append_mono [OF out_place [OF s1(1)] subseq_order.refl])
  also have "subseq \<dots> (out_runes s')" using Cons.IH [OF s1(2)] by simp
  finally show ?case by simp
qed simp

lemma out_end: "subseq (out_runes s) (concat (map text_runes (split_end s)))"
proof (cases "ss_current s = []")
  case True
  then show ?thesis by (simp add: out_runes_def split_end_def)
next
  case False
  have "concat (map text_runes (split_end s)) = out_runes s @ (if ss_openFence s \<noteq> [] then text_runes fence else [])"
    using False by (simp add: split_end_def out_runes_def close_chunk_def closing_fence_def text_runes_join)
  then show ?thesis by (metis subseq_prefix)
qed

lemma split_all_text: "concat (map text_runes (split_all newline body)) = text_runes body"
  using text_runes_join [of "split_all newline body"] join_split_n [of "Suc (length body)" newline body] by (simp add: split_all_def)

section \<open>Properties\<close>

text \<open>
  C25. When every line that opens or closes a code fence leaves six runes of the limit free, the splitter returns: the
  loop over an overlong line ends, no slice bound is negative, and no chunk is longer than the limit by more than the
  three runes that closing a fence can add. Without fences every chunk keeps the limit.
\<close>

theorem split_returns_bounded:
  assumes "0 < maxLen" and "\<forall>line \<in> set (split_all newline body). fence_short maxLen line"
  shows "\<exists>cs. SplitMessageCodeFenceAware body maxLen = Some (Inr cs)
    \<and> (\<forall>c \<in> set cs. rune_count c \<le> maxLen + (if \<exists>line \<in> set (split_all newline body). is_fence line then 3 else 0))"
proof (cases "rune_count body \<le> maxLen")
  case True
  then show ?thesis by (simp add: SplitMessageCodeFenceAware_def)
next
  case False
  let ?k = "if \<exists>line \<in> set (split_all newline body). is_fence line then 3 else (0::int)"
  have "split_inv maxLen ?k split_init" by (rule split_init_inv [OF assms(1)]) simp
  moreover have "\<forall>line \<in> set (split_all newline body). fence_short maxLen line \<and> (is_fence line \<longrightarrow> 3 \<le> ?k)"
    using assms(2) by auto
  ultimately obtain s' where s': "split_lines maxLen (split_all newline body) split_init = Some (Inr s')" "split_inv maxLen ?k s'"
    using split_lines_returns [OF _ assms(1)] by blast
  show ?thesis using False s'(1) split_end_bound [OF s'(2)] by (auto simp: SplitMessageCodeFenceAware_def)
qed

text \<open>
  C26. Whatever the text and the limit: if the splitter returns, no rune of the text is lost or reordered. All runes
  but line ends occur in the chunks, in order; what the chunks hold in addition are fences.
\<close>

theorem split_loses_no_text:
  assumes "SplitMessageCodeFenceAware body maxLen = Some (Inr cs)"
  shows "subseq (text_runes body) (concat (map text_runes cs))"
proof (cases "rune_count body \<le> maxLen")
  case True
  then show ?thesis using assms by (auto simp: SplitMessageCodeFenceAware_def)
next
  case False
  then obtain r where r: "split_lines maxLen (split_all newline body) split_init = Some r" "map_sum id split_end r = Inr cs"
    using assms by (auto simp: SplitMessageCodeFenceAware_def)
  then obtain s' where s': "split_lines maxLen (split_all newline body) split_init = Some (Inr s')" "cs = split_end s'"
    by (cases r) auto
  have "subseq (text_runes body) (out_runes s')"
    using out_lines [OF s'(1)] by (simp add: split_all_text out_runes_def split_init_def)
  then show ?thesis using out_end [of s'] s'(2) subseq_order.trans by blast
qed

lemma split_all_two: "newline \<notin> set a \<Longrightarrow> newline \<notin> set b \<Longrightarrow> split_all newline (a @ newline # b) = [a, b]"
  using cut_append [of newline a b] cut_absent [of newline b]
  by (cases "length a + length b") (simp_all add: split_all_def)

text \<open>A chunk that is full with the repeated fence alone: no rune of the line ever fits.\<close>

lemma split_line_stuck:
  assumes "ss_openFence s \<noteq> []" and "ss_current s = [ss_openFence s]" and "ss_currentLen s = rune_count (ss_openFence s) + 1"
    and "maxLen - 4 = rune_count (ss_openFence s) + 1" and "remaining \<noteq> []"
  shows "split_line maxLen remaining s = None"
proof (rule ccontr)
  assume "split_line maxLen remaining s \<noteq> None"
  then obtain r where ret: "split_line maxLen remaining s = Some r" by blast
  define stuck where "stuck = (\<lambda>maxLen s. ss_openFence s \<noteq> [] \<and> ss_current s \<noteq> []
    \<and> (ss_current s = [ss_openFence s] \<longrightarrow> ss_currentLen s = rune_count (ss_openFence s) + 1)
    \<and> effectiveLimit maxLen s - ss_currentLen s \<le> 0 \<and> maxLen - 4 = rune_count (ss_openFence s) + 1)"
  have "\<not> (remaining \<noteq> [] \<and> stuck maxLen s)"
  proof (rule split_line.raw_induct [where P = "\<lambda>maxLen remaining s res. \<not> (remaining \<noteq> [] \<and> stuck maxLen s)", OF _ ret], rule notI)
    fix f maxLen remaining s res
    assume IH: "\<And>maxLen remaining s res. f maxLen remaining s = Some res \<Longrightarrow> \<not> (remaining \<noteq> [] \<and> stuck maxLen s)"
      and eq: "(if remaining = [] then Some (Inr s)
          else let s1 = split_room maxLen s; room = effectiveLimit maxLen s1 - ss_currentLen s1;
                   avail = (if int (length remaining) < room then int (length remaining) else room)
               in if avail < 0 then Some (Inl ())
                  else let s2 = split_add (of_runes (take (nat avail) remaining)) avail s1; rest = drop (nat avail) remaining
                       in f maxLen rest (if rest \<noteq> [] then split_flush s2 else s2)) = Some res"
      and st: "remaining \<noteq> [] \<and> stuck maxLen s"
    let ?s1 = "split_flush s" and ?s2 = "split_flush (split_add [] 0 (split_flush s))"
    have s1: "split_room maxLen s = ?s1" "effectiveLimit maxLen ?s1 - ss_currentLen ?s1 = 0"
      using st by (auto simp: stuck_def split_room_def split_flush_def effectiveLimit_def Let_def)
    have "f maxLen remaining ?s2 = Some res" using eq st s1 by (simp add: of_runes_def)
    moreover have "stuck maxLen ?s2" using st
      by (simp add: stuck_def split_flush_def split_add_def effectiveLimit_def Let_def)
    ultimately show False using IH st by blast
  qed
  then show False using assms by (simp add: stuck_def effectiveLimit_def)
qed

text \<open>
  C27. A line that starts with a code fence and leaves less than six runes of the limit free, such as minified code
  between fences on one line, is taken for an open fence that every later chunk must repeat. When another line follows
  that does not fit, the splitter does not return a result: it slices with a negative bound, which ends the process,
  or, at one length, emits empty chunks for ever.
\<close>

theorem long_fence_line_breaks_split:
  assumes "is_fence f" and "trim_space f = f" and "newline \<notin> set f" and "newline \<notin> set x"
    and "maxLen - 5 \<le> rune_count f" and "rune_count f < maxLen" and "5 \<le> rune_count x"
  shows "SplitMessageCodeFenceAware (f @ newline # x) maxLen = (if rune_count f = maxLen - 5 then None else Some (Inl ()))"
proof -
  have f: "f \<noteq> []" using assms(1,2) by (auto simp: is_fence_def has_prefix_def fence_def)
  have x: "runes x \<noteq> []" using assms(7) by (auto simp: rune_count_def)
  let ?s1 = "track_fence f (split_add f (rune_count f) split_init)"
  let ?s2 = "split_flush ?s1"
  have s1: "?s1 = \<lparr>ss_chunks = [], ss_current = [f], ss_currentLen = rune_count f + 1, ss_openFence = f\<rparr>"
    using assms(1,2) by (simp add: track_fence_def split_add_def split_init_def)
  have s2: "ss_current ?s2 = [f]" "ss_currentLen ?s2 = rune_count f + 1" "ss_openFence ?s2 = f"
    unfolding s1 using f by (simp_all add: split_flush_def Let_def)
  have first: "split_place maxLen f split_init = Some (Inr (split_add f (rune_count f) split_init))"
    using assms(6) by (simp add: split_place_def split_fits_def split_init_def effectiveLimit_def)
  have "\<not> split_fits maxLen (rune_count x) ?s1"
    using assms(5,7) f by (simp add: s1 split_fits_def effectiveLimit_def)
  moreover have "\<not> split_fits maxLen (rune_count x) ?s2" using assms(5,7) f s2 by (simp add: split_fits_def effectiveLimit_def)
  ultimately have second: "split_place maxLen x ?s1 = split_line maxLen (runes x) ?s2" by (simp add: split_place_def)
  have line: "split_line maxLen (runes x) ?s2 = (if rune_count f = maxLen - 5 then None else Some (Inl ()))"
  proof (cases "rune_count f = maxLen - 5")
    case True
    then show ?thesis using split_line_stuck [of ?s2 maxLen "runes x"] s2 f x by simp
  next
    case False
    have "split_room maxLen ?s2 = split_flush ?s2" using assms(5) s2 f by (simp add: split_room_def effectiveLimit_def)
    moreover have "effectiveLimit maxLen (split_flush ?s2) - ss_currentLen (split_flush ?s2) = maxLen - 4 - (rune_count f + 1)"
      using s2 f by (simp add: split_flush_def effectiveLimit_def Let_def)
    ultimately show ?thesis using x False assms(5) by (subst split_line.simps) (simp add: Let_def)
  qed
  have "rune_count (f @ newline # x) = rune_count f + rune_count x + 1" by (simp add: rune_count_def runes_newline)
  then have "\<not> rune_count (f @ newline # x) \<le> maxLen" using assms(5,7) by simp
  then show ?thesis using first second line by (simp add: SplitMessageCodeFenceAware_def split_all_two assms(3,4))
qed

section \<open>Examples\<close>

lemma rune_count_ascii: "\<forall>c \<in> set s. byte c < 128 \<Longrightarrow> rune_count s = int (length s)"
  by (simp add: rune_count_def runes_ascii)

text \<open>A text whose fence is opened at the end of a full chunk: with a limit of 10 runes the first chunk has 13.\<close>

definition demo_body :: string where
  "demo_body = ''aaaaa'' @ newline # fence @ newline # ''bb''"

lemma demo_lines: "split_all newline demo_body = [''aaaaa'', fence, ''bb'']"
  by (simp add: split_all_def demo_body_def fence_def numeral_eq_Suc)

lemma demo_words: "trim_space ''aaaaa'' = ''aaaaa''" "trim_space ''bb'' = ''bb''" "trim_space fence = fence"
  "trim_space (fence @ ''abc'') = fence @ ''abc''"
  by (simp_all add: trim_space_word ascii_word_def fence_def byte_def)

lemma demo_fences: "is_fence fence" "\<not> is_fence ''aaaaa''" "\<not> is_fence ''bb''" "is_fence (fence @ ''abc'')"
  by (simp_all add: is_fence_def demo_words has_prefix_def) (simp_all add: fence_def)

lemma demo_counts: "rune_count ''aaaaa'' = 5" "rune_count ''bb'' = 2" "rune_count fence = 3" "rune_count (fence @ ''abc'') = 6"
  "rune_count ''12345'' = 5" "rune_count demo_body = 12"
  by (simp_all add: rune_count_ascii byte_def fence_def demo_body_def)

lemma demo_line: "split_line 10 (runes ''bb'') \<lparr>ss_chunks = cs, ss_current = [fence], ss_currentLen = 4, ss_openFence = fence\<rparr>
    = Some (Inr \<lparr>ss_chunks = cs, ss_current = [fence, ''bb''], ss_currentLen = 7, ss_openFence = fence\<rparr>)"
proof -
  have r: "runes ''bb'' = [98, 98]" "of_runes [98, 98] = ''bb''"
    by (simp_all add: runes_ascii byte_def of_runes_def encode_rune_def valid_rune_def encode_valid_def char_of_def bit_0)
  have f: "fence \<noteq> []" by (simp add: fence_def)
  show ?thesis by (simp add: split_line.simps r f split_room_def effectiveLimit_def split_add_def Let_def)
qed

lemma chunk_exceeds_limit:
  "SplitMessageCodeFenceAware demo_body 10 = Some (Inr [''aaaaa'' @ newline # fence @ closing_fence, fence @ newline # ''bb'' @ closing_fence])"
  "rune_count (''aaaaa'' @ newline # fence @ closing_fence) = 13"
proof -
  have f: "fence \<noteq> []" by (simp add: fence_def)
  show "SplitMessageCodeFenceAware demo_body 10 = Some (Inr [''aaaaa'' @ newline # fence @ closing_fence, fence @ newline # ''bb'' @ closing_fence])"
    by (simp add: SplitMessageCodeFenceAware_def demo_lines demo_counts demo_words demo_fences f demo_line split_place_def
        split_fits_def split_init_def effectiveLimit_def split_add_def split_flush_def track_fence_def close_chunk_def split_end_def Let_def)
  show "rune_count (''aaaaa'' @ newline # fence @ closing_fence) = 13"
    by (simp add: rune_count_ascii byte_def fence_def closing_fence_def)
qed

lemma split_returns_bounded_witness:
  "(\<exists>line \<in> set (split_all newline demo_body). is_fence line)
    \<and> (\<exists>cs. SplitMessageCodeFenceAware demo_body 10 = Some (Inr cs) \<and> (\<forall>c \<in> set cs. rune_count c \<le> 13))"
proof -
  have "\<forall>line \<in> set (split_all newline demo_body). fence_short 10 line"
    by (simp add: demo_lines fence_short_def demo_fences demo_counts demo_words)
  then obtain cs where "SplitMessageCodeFenceAware demo_body 10 = Some (Inr cs)"
      "\<forall>c \<in> set cs. rune_count c \<le> 10 + (if \<exists>line \<in> set (split_all newline demo_body). is_fence line then 3 else 0)"
    using split_returns_bounded [of 10 demo_body] by auto
  then show ?thesis by (simp add: demo_lines demo_fences)
qed

lemma split_loses_no_text_witness:
  "length (text_runes demo_body) = 10 \<and> subseq (text_runes demo_body) (concat (map text_runes
     [''aaaaa'' @ newline # fence @ closing_fence, fence @ newline # ''bb'' @ closing_fence]))"
proof
  show "length (text_runes demo_body) = 10"
    by (simp add: text_runes_def runes_ascii demo_body_def fence_def byte_def)
qed (rule split_loses_no_text [OF chunk_exceeds_limit(1)])

lemma long_fence_line_breaks_split_witness:
  "SplitMessageCodeFenceAware ((fence @ ''abc'') @ newline # ''12345'') 10 = Some (Inl ())"
  using long_fence_line_breaks_split [of "fence @ ''abc''" "''12345''" 10]
  by (simp add: demo_fences demo_words demo_counts) (simp add: fence_def)

end
