(* ===== verification/CommandArgs.thy ===== *)
theory CommandArgs
  imports RateLimit
begin

text \<open>
  The texts of commands: splitting a command line into arguments (\<open>splitCommandArgs\<close>), the templates of
  custom commands (\<open>ExpandPrompt\<close> of \<open>src/core/command.go\<close>), the shell command line of \<open>/shell\<close> with its
  time-out (\<open>cmdShell\<close>), and the shortcuts without a slash (\<open>isInjectPrefix\<close> and its kin).
\<close>

abbreviation single_quote :: char where "single_quote \<equiv> CHR 0x27"
abbreviation double_quote :: char where "double_quote \<equiv> CHR 0x22"

section \<open>Arguments\<close>

text \<open>The loop over the bytes: inside single or double quotes, the token under construction, the tokens so far.\<close>

definition end_token :: "string \<Rightarrow> string list \<Rightarrow> string list" where
  "end_token cur tokens = (if cur \<noteq> [] then tokens @ [cur] else tokens)"

fun split_tokens :: "bool \<Rightarrow> bool \<Rightarrow> string \<Rightarrow> string list \<Rightarrow> string \<Rightarrow> string list" where
  "split_tokens inSingle inDouble cur tokens [] = end_token cur tokens"
| "split_tokens inSingle inDouble cur tokens (c # s) =
     (if c = single_quote \<and> \<not> inDouble then split_tokens (\<not> inSingle) inDouble cur tokens s
      else if c = double_quote \<and> \<not> inSingle then split_tokens inSingle (\<not> inDouble) cur tokens s
      else if (c = CHR '' '' \<or> c = tab) \<and> \<not> inSingle \<and> \<not> inDouble
           then split_tokens inSingle inDouble [] (end_token cur tokens) s
      else split_tokens inSingle inDouble (cur @ [c]) tokens s)"

definition splitCommandArgs :: "string \<Rightarrow> string list" where
  "splitCommandArgs s = split_tokens False False [] [] s"

section \<open>Templates\<close>

text \<open>
  The regular expression \<open>\{\{(\d+\*?|args)(:[^}]*)?\}\}\<close> at the start of a text. Each of its parts is
  followed by a character it cannot contain, so the greedy match is the only one. The result is what stands
  between the braces, and the text after them.
\<close>

definition placeholder_key :: "string \<Rightarrow> (string \<times> string) option" where
  "placeholder_key s =
     (let ds = takeWhile is_digit s; r = dropWhile is_digit s
      in if ds \<noteq> [] then (if has_prefix r ''*'' then Some (ds @ ''*'', drop 1 r) else Some (ds, r))
         else if has_prefix s ''args'' then Some (''args'', drop 4 s) else None)"

definition placeholder_default :: "string \<Rightarrow> string" where
  "placeholder_default r = (if has_prefix r '':'' then takeWhile (\<lambda>c. c \<noteq> CHR ''}'') r else [])"

definition placeholder_at :: "string \<Rightarrow> (string \<times> string) option" where
  "placeholder_at s =
     (if has_prefix s ''{{'' then
        (case placeholder_key (drop 2 s) of
           None \<Rightarrow> None
         | Some (k, r) \<Rightarrow>
             let d = placeholder_default r; r' = drop (length d) r
             in if has_prefix r' ''}}'' then Some (k @ d, drop 2 r') else None)
      else None)"

fun has_placeholder :: "string \<Rightarrow> bool" where
  "has_placeholder [] = False"
| "has_placeholder (c # s) = (placeholder_at (c # s) \<noteq> None \<or> has_placeholder s)"

text \<open>
  \<open>fmt.Sscanf\<close> with \<open>%d\<close> on a key that begins with digits: a number outside the range of \<open>int\<close> is an
  error, which leaves the variable at 0.
\<close>

definition scan_index :: "string \<Rightarrow> nat" where
  "scan_index key = (let v = digits_value (takeWhile is_digit key) in if v < 2 ^ 63 then v else 0)"

definition placeholder_value :: "string list \<Rightarrow> string \<Rightarrow> string" where
  "placeholder_value args inner =
     (let (key, dflt) = cut (CHR '':'') inner;
          otherwise = (case dflt of Some d \<Rightarrow> d | None \<Rightarrow> []);
          idx = scan_index key
      in if key = ''args'' then (if args \<noteq> [] then join '' '' args else otherwise)
         else if has_suffix key ''*'' then
           (if 1 \<le> idx \<and> idx - 1 < length args then join '' '' (drop (idx - 1) args) else otherwise)
         else if 1 \<le> idx \<and> idx - 1 < length args then args ! (idx - 1) else otherwise)"

lemma placeholder_at_shorter: "placeholder_at s = Some (inner, rest) \<Longrightarrow> length rest < length s"
proof -
  assume a: "placeholder_at s = Some (inner, rest)"
  then have p: "has_prefix s ''{{''" by (auto simp: placeholder_at_def split: if_splits)
  then have len: "2 \<le> length s" by (cases s; cases "tl s") (auto simp: has_prefix_def)
  obtain k r where kr: "placeholder_key (drop 2 s) = Some (k, r)" using a p by (auto simp: placeholder_at_def split: option.splits)
  have "length (dropWhile is_digit (drop 2 s)) \<le> length s" by (metis length_dropWhile_le length_drop diff_le_self le_trans)
  then have "length r \<le> length s" using kr by (auto simp: placeholder_key_def Let_def split: if_splits)
  moreover have "rest = drop 2 (drop (length (placeholder_default r)) r)"
    using a p kr by (auto simp: placeholder_at_def Let_def split: if_splits)
  ultimately show ?thesis using len by (auto intro: le_less_trans)
qed

function expand_with :: "(string \<Rightarrow> string) \<Rightarrow> string \<Rightarrow> string" where
  "expand_with f [] = []"
| "expand_with f (c # s) =
     (case placeholder_at (c # s) of
        Some (inner, rest) \<Rightarrow> f inner @ expand_with f rest
      | None \<Rightarrow> c # expand_with f s)"
  by pat_completeness auto
termination
  by (relation "measure (\<lambda>(f, s). length s)") (auto dest: placeholder_at_shorter)

definition ExpandPrompt :: "string \<Rightarrow> string list \<Rightarrow> string" where
  "ExpandPrompt template args =
     (if \<not> has_placeholder template
      then (if args \<noteq> [] then template @ [newline, newline] @ join '' '' args else template)
      else expand_with (placeholder_value args) template)"

section \<open>Shell command lines\<close>

definition shell_prefixes :: "string list" where
  "shell_prefixes = [''/shell '', ''/sh '', ''/exec '', ''/run '']"

definition shell_text :: "string \<Rightarrow> string" where
  "shell_text raw =
     trim_space (case find (\<lambda>p. has_prefix (to_lower raw) p) shell_prefixes of
                   Some p \<Rightarrow> drop (length p) raw | None \<Rightarrow> raw)"

text \<open>The optional \<open>--timeout\<close> in front; the number of nanoseconds is a 64-bit product.\<close>

definition shell_timeout :: "string \<Rightarrow> string \<times> duration" where
  "shell_timeout cmd =
     (if has_prefix cmd ''--timeout '' then
        (let rest = drop 10 cmd
         in case index_byte (CHR '' '') rest of
              None \<Rightarrow> (cmd, 60 * second)
            | Some i \<Rightarrow>
                if i = 0 then (cmd, 60 * second)
                else (case atoi (take i rest) of
                        None \<Rightarrow> (cmd, 60 * second)
                      | Some secs \<Rightarrow> if secs > 0 then (trim_space (drop i rest), wrap64 (secs * second))
                                     else (cmd, 60 * second)))
      else (cmd, 60 * second))"

text \<open>The command and its time-out, or \<open>None\<close> for the reply that shows the usage.\<close>

definition cmdShell :: "string \<Rightarrow> (string \<times> duration) option" where
  "cmdShell raw = (if shell_text raw = [] then None else Some (shell_timeout (shell_text raw)))"

section \<open>Shortcuts\<close>

definition isInjectPrefix :: "string \<Rightarrow> bool" where
  "isInjectPrefix content = has_prefix (to_lower (trim_space content)) ''inject:''"

definition extractInjectText :: "string \<Rightarrow> string" where
  "extractInjectText content = trim_space (drop 7 (trim_space content))"

definition isPsPrefix :: "string \<Rightarrow> bool" where
  "isPsPrefix content = has_prefix (to_lower (trim_space content)) ''ps:''"

definition extractPsText :: "string \<Rightarrow> string" where
  "extractPsText content = trim_space (drop 3 (trim_space content))"

section \<open>Quoting\<close>

lemma split_tokens_keeps: "\<exists>ts. split_tokens sq dq cur tokens s = tokens @ ts"
  by (induction sq dq cur tokens s rule: split_tokens.induct) (auto simp: end_token_def)

lemma split_tokens_current:
  "cur \<noteq> [] \<Longrightarrow> \<exists>x ts. split_tokens sq dq cur tokens s = tokens @ (cur @ x) # ts"
proof (induction sq dq cur tokens s rule: split_tokens.induct)
  case (2 sq dq cur tokens c s)
  show ?case
  proof (cases "(c = CHR '' '' \<or> c = tab) \<and> \<not> sq \<and> \<not> dq")
    case True
    then show ?thesis using 2 split_tokens_keeps [of sq dq "[]" "end_token cur tokens" s] by (auto simp: end_token_def)
  next
    case False
    then show ?thesis using 2 by (auto split: if_splits)
  qed
qed (simp add: end_token_def)

lemma split_tokens_nonempty: "[] \<notin> set tokens \<Longrightarrow> [] \<notin> set (split_tokens sq dq cur tokens s)"
  by (induction sq dq cur tokens s rule: split_tokens.induct) (auto simp: end_token_def)

text \<open>A text that begins with a slash has a first token, which begins with the slash: \<open>parts[0]\<close> is in range.\<close>

lemma split_command_head: "\<exists>x args. splitCommandArgs (CHR ''/'' # s) = (CHR ''/'' # x) # args"
  using split_tokens_current [of "''/''" False False "[]" s] by (auto simp: splitCommandArgs_def)

lemma split_double: "double_quote \<notin> set t \<Longrightarrow>
    split_tokens False True cur tokens (t @ double_quote # s) = split_tokens False False (cur @ t) tokens s"
  by (induction t arbitrary: cur) auto

lemma split_single: "single_quote \<notin> set t \<Longrightarrow>
    split_tokens True False cur tokens (t @ single_quote # s) = split_tokens False False (cur @ t) tokens s"
  by (induction t arbitrary: cur) auto

definition quote_arg :: "string \<Rightarrow> string" where
  "quote_arg t = (if double_quote \<notin> set t then double_quote # t @ [double_quote] else single_quote # t @ [single_quote])"

definition quotable :: "string \<Rightarrow> bool" where
  "quotable t \<longleftrightarrow> t \<noteq> [] \<and> (double_quote \<notin> set t \<or> single_quote \<notin> set t)"

lemma split_quote_arg: "quotable t \<Longrightarrow>
    split_tokens False False [] tokens (quote_arg t @ s) = split_tokens False False t tokens s"
  using split_double [of t "[]" tokens s] split_single [of t "[]" tokens s]
  by (auto simp: quote_arg_def quotable_def)

lemma split_join_quoted:
  "list_all quotable ts \<Longrightarrow> split_tokens False False [] tokens (join '' '' (map quote_arg ts)) = tokens @ ts"
proof (induction ts arbitrary: tokens)
  case (Cons t ts)
  then have q: "quotable t" and ne: "t \<noteq> []" by (simp_all add: quotable_def)
  show ?case
  proof (cases ts)
    case Nil
    then show ?thesis using split_quote_arg [OF q, of tokens "[]"] ne by (simp add: end_token_def)
  next
    case (Cons u us)
    have "split_tokens False False [] tokens (quote_arg t @ '' '' @ join '' '' (map quote_arg ts)) =
        split_tokens False False [] (tokens @ [t]) (join '' '' (map quote_arg ts))"
      using split_quote_arg [OF q, of tokens] ne by (simp add: end_token_def)
    then show ?thesis using Cons.IH [of "tokens @ [t]"] Cons.prems \<open>ts = u # us\<close> by simp
  qed
qed (simp add: end_token_def)

text \<open>Words without quotes and blanks need no quotes.\<close>

definition plain_char :: "char \<Rightarrow> bool" where
  "plain_char c \<longleftrightarrow> c \<noteq> single_quote \<and> c \<noteq> double_quote \<and> c \<noteq> CHR '' '' \<and> c \<noteq> tab"

lemma split_plain: "list_all plain_char w \<Longrightarrow>
    split_tokens False False cur tokens (w @ s) = split_tokens False False (cur @ w) tokens s"
  by (induction w arbitrary: cur) (auto simp: plain_char_def)

lemma split_word_then_blank: "w \<noteq> [] \<Longrightarrow> list_all plain_char w \<Longrightarrow>
    split_tokens False False [] tokens (w @ CHR '' '' # s) = split_tokens False False [] (tokens @ [w]) s"
  using split_plain [of w "[]" tokens "CHR '' '' # s"] by (simp add: end_token_def)

section \<open>Templates as sequences of pieces\<close>

datatype hole = ArgAt nat | ArgsFrom nat | AllArgs

datatype piece = Literal string | Hole hole "string option"

fun hole_key :: "hole \<Rightarrow> string" where
  "hole_key (ArgAt n) = dec_nat n"
| "hole_key (ArgsFrom n) = dec_nat n @ ''*''"
| "hole_key AllArgs = ''args''"

definition hole_inner :: "hole \<Rightarrow> string option \<Rightarrow> string" where
  "hole_inner h d = hole_key h @ (case d of None \<Rightarrow> [] | Some x \<Rightarrow> CHR '':'' # x)"

fun render :: "piece \<Rightarrow> string" where
  "render (Literal l) = l"
| "render (Hole h d) = ''{{'' @ hole_inner h d @ ''}}''"

text \<open>What each piece stands for, and the pieces whose text is read back as they were meant.\<close>

fun hole_value :: "string list \<Rightarrow> hole \<Rightarrow> string option" where
  "hole_value args (ArgAt n) = (if 1 \<le> n \<and> n \<le> length args then Some (args ! (n - 1)) else None)"
| "hole_value args (ArgsFrom n) = (if 1 \<le> n \<and> n \<le> length args then Some (join '' '' (drop (n - 1) args)) else None)"
| "hole_value args AllArgs = (if args \<noteq> [] then Some (join '' '' args) else None)"

fun piece_value :: "string list \<Rightarrow> piece \<Rightarrow> string" where
  "piece_value args (Literal l) = l"
| "piece_value args (Hole h d) =
     (case hole_value args h of Some v \<Rightarrow> v | None \<Rightarrow> (case d of Some x \<Rightarrow> x | None \<Rightarrow> []))"

fun index_ok :: "hole \<Rightarrow> bool" where
  "index_ok (ArgAt n) = (n < 2 ^ 63)"
| "index_ok (ArgsFrom n) = (n < 2 ^ 63)"
| "index_ok AllArgs = True"

fun piece_ok :: "piece \<Rightarrow> bool" where
  "piece_ok (Literal l) = (\<not> contains l ''{{'' \<and> \<not> has_suffix l ''{'')"
| "piece_ok (Hole h d) = (index_ok h \<and> (case d of None \<Rightarrow> True | Some x \<Rightarrow> CHR ''}'' \<notin> set x))"

fun is_hole :: "piece \<Rightarrow> bool" where
  "is_hole (Literal l) = False"
| "is_hole (Hole h d) = True"

lemma digit_facts [simp]: "\<not> is_digit (CHR ''*'')" "\<not> is_digit (CHR '':'')" "\<not> is_digit (CHR ''}'')" "\<not> is_digit (CHR ''a'')"
  by (simp_all add: is_digit_def byte_def)

lemma dec_nat_all_digits: "c \<in> set (dec_nat n) \<Longrightarrow> is_digit c"
  using dec_nat_digits [of n] by (simp add: list_all_iff)

lemma digits_then: "(r = [] \<or> \<not> is_digit (hd r)) \<Longrightarrow>
    takeWhile is_digit (dec_nat n @ r) = dec_nat n \<and> dropWhile is_digit (dec_nat n @ r) = r"
  using dec_nat_all_digits by (cases r) (auto simp: takeWhile_append2 dropWhile_append2)

lemma key_read: "r \<noteq> [] \<Longrightarrow> hd r = CHR '':'' \<or> hd r = CHR ''}'' \<Longrightarrow> placeholder_key (hole_key h @ r) = Some (hole_key h, r)"
proof (cases h)
  case (ArgAt n)
  assume r: "r \<noteq> []" "hd r = CHR '':'' \<or> hd r = CHR ''}''"
  then have "\<not> is_digit (hd r)" "\<not> has_prefix r ''*''" by (cases r; auto simp: has_prefix_def)+
  then show ?thesis using ArgAt digits_then [of r n] dec_nat_digits [of n] by (simp add: placeholder_key_def Let_def)
next
  case (ArgsFrom n)
  show ?thesis using ArgsFrom digits_then [of "CHR ''*'' # r" n] dec_nat_digits [of n]
    by (simp add: placeholder_key_def Let_def has_prefix_def)
next
  case AllArgs
  then show ?thesis by (simp add: placeholder_key_def has_prefix_def)
qed

lemma take_default: "CHR ''}'' \<notin> set x \<Longrightarrow> takeWhile (\<lambda>c. c \<noteq> CHR ''}'') (x @ CHR ''}'' # s) = x"
  by (induction x) auto

lemma placeholder_read:
  assumes "piece_ok (Hole h d)"
  shows "placeholder_at (render (Hole h d) @ s) = Some (hole_inner h d, s)"
proof -
  let ?r = "(case d of None \<Rightarrow> [] | Some x \<Rightarrow> CHR '':'' # x) @ ''}}'' @ s"
  have key: "placeholder_key (hole_key h @ ?r) = Some (hole_key h, ?r)"
    by (rule key_read) (auto split: option.splits)
  have dflt: "placeholder_default ?r = (case d of None \<Rightarrow> [] | Some x \<Rightarrow> CHR '':'' # x)"
    using assms by (auto simp: placeholder_default_def has_prefix_def take_default split: option.splits)
  have "has_prefix (render (Hole h d) @ s) ''{{''" by (simp add: has_prefix_def)
  moreover have "drop 2 (render (Hole h d) @ s) = hole_key h @ ?r" by (simp add: hole_inner_def)
  ultimately show ?thesis using key dflt
    by (simp add: placeholder_at_def Let_def hole_inner_def has_prefix_def)
qed

lemma not_placeholder: "placeholder_at s = None" if "\<not> has_prefix s ''{{''"
  using that by (simp add: placeholder_at_def)

lemma literal_steps:
  assumes "\<not> contains (c # l) ''{{''" "\<not> has_suffix (c # l) ''{''"
  shows "placeholder_at (c # l @ s) = None" "\<not> contains l ''{{''" "l = [] \<or> \<not> has_suffix l ''{''"
proof -
  have "\<not> has_prefix (c # l @ s) ''{{''"
    using assms by (cases l) (auto simp: has_prefix_def has_suffix_def)
  then show "placeholder_at (c # l @ s) = None" by (rule not_placeholder)
  show "\<not> contains l ''{{''" using assms(1) by simp
  show "l = [] \<or> \<not> has_suffix l ''{''" using assms(2) by (cases l) (auto simp: has_suffix_def Suc_diff_le)
qed

lemma literal_kept: "\<not> contains l ''{{'' \<Longrightarrow> \<not> has_suffix l ''{'' \<Longrightarrow>
    expand_with f (l @ s) = l @ expand_with f s \<and> has_placeholder (l @ s) = has_placeholder s"
proof (induction l)
  case (Cons c l)
  note st = literal_steps [OF Cons.prems]
  show ?case
  proof (cases "l = []")
    case True
    then show ?thesis using st(1) [of s] by simp
  next
    case False
    then show ?thesis using st(1) [of s] st(2,3) Cons.IH by simp
  qed
qed simp

lemma hole_value_read:
  assumes "index_ok h"
  shows "placeholder_value args (hole_inner h d) = piece_value args (Hole h d)"
proof -
  have nocolon: "CHR '':'' \<notin> set (hole_key h)" by (cases h) (auto dest: dec_nat_all_digits)
  have c: "cut (CHR '':'') (hole_inner h d) = (hole_key h, d)"
    using nocolon by (cases d) (simp_all add: hole_inner_def cut_append cut_absent)
  have num: "dec_nat n \<noteq> ''args''" "dec_nat n @ ''*'' \<noteq> ''args''" for n
    using dec_nat_all_digits [of "CHR ''a''" n] by (auto simp: append_eq_Cons_conv)
  have star: "has_suffix (dec_nat n @ ''*'') ''*''" for n by (simp add: has_suffix_def)
  have nostar: "\<not> has_suffix (dec_nat n) ''*''" for n
  proof
    assume "has_suffix (dec_nat n) ''*''"
    then have "''*'' = drop (length (dec_nat n) - 1) (dec_nat n)" by (simp add: has_suffix_def)
    then have "CHR ''*'' \<in> set (dec_nat n)" by (metis in_set_dropD list.set_intros(1))
    then show False using dec_nat_all_digits by fastforce
  qed
  have idx: "scan_index (dec_nat n) = n" "scan_index (dec_nat n @ ''*'') = n" if "n < 2 ^ 63" for n
  proof -
    have all: "takeWhile is_digit (dec_nat n) = dec_nat n" using dec_nat_all_digits by (auto simp: takeWhile_eq_all_conv)
    show "scan_index (dec_nat n) = n" unfolding scan_index_def Let_def all digits_value_dec_nat using that by simp
    show "scan_index (dec_nat n @ ''*'') = n"
      using that digits_then [of "''*''" n] by (simp add: scan_index_def digits_value_dec_nat)
  qed
  show ?thesis
    unfolding placeholder_value_def c
    using assms num star nostar idx by (cases h) (auto simp: Let_def split: option.splits)
qed

lemma expand_pieces:
  "list_all piece_ok ps \<Longrightarrow> expand_with (placeholder_value args) (concat (map render ps)) = concat (map (piece_value args) ps)"
proof (induction ps)
  case (Cons p ps)
  show ?case
  proof (cases p)
    case (Literal l)
    then show ?thesis using Cons literal_kept [of l "placeholder_value args" "concat (map render ps)"] by simp
  next
    case (Hole h d)
    then have ok: "piece_ok (Hole h d)" using Cons.prems by simp
    have "expand_with f (render (Hole h d) @ s) = f (hole_inner h d) @ expand_with f s" for f s
      using placeholder_read [OF ok, of s] by (simp add: expand_with.simps(2))
    then show ?thesis using Hole Cons hole_value_read [of h args d] ok by simp
  qed
qed simp

lemma has_placeholder_pieces: "list_all piece_ok ps \<Longrightarrow> has_placeholder (concat (map render ps)) \<longleftrightarrow> list_ex is_hole ps"
proof (induction ps)
  case (Cons p ps)
  show ?case
  proof (cases p)
    case (Literal l)
    then show ?thesis using Cons literal_kept [of l "\<lambda>_. []" "concat (map render ps)"] by simp
  next
    case (Hole h d)
    then have ok: "piece_ok (Hole h d)" using Cons.prems by simp
    have "has_placeholder (render (Hole h d) @ s)" for s using placeholder_read [OF ok, of s] by simp
    then show ?thesis using Hole by simp
  qed
qed simp

end
