(* ===== verification/CustomCommands.thy ===== *)
theory CustomCommands
  imports CommandArgs
begin

text \<open>
  Custom commands (\<open>CommandRegistry\<close> in \<open>src/core/command.go\<close>). The
  directories they are looked up in belong to the file system, which is an argument: \<open>read_file\<close> answers
  \<open>os.ReadFile\<close>, \<open>read_dir\<close> answers \<open>os.ReadDir\<close>, and \<open>cwd\<close> is the working directory, when it is known.
\<close>

section \<open>Paths\<close>

definition path_join :: "string \<Rightarrow> string \<Rightarrow> string" where
  "path_join a b = (if a = [] then (if b = [] then [] else path_clean b) else path_clean (a @ CHR ''/'' # b))"

definition filepath_Abs :: "string option \<Rightarrow> string \<Rightarrow> string option" where
  "filepath_Abs cwd p =
     (if has_prefix p ''/'' then Some (path_clean p) else map_option (\<lambda>wd. path_join wd p) cwd)"

datatype entry_kind = PlainEntry | DirEntry | LinkEntry bool    (* a link, and whether it leads to a directory *)

record dir_entry =
  de_Name :: string
  de_kind :: entry_kind

record file_system =
  fs_read_file :: "string \<Rightarrow> string option"
  fs_read_dir :: "string \<Rightarrow> dir_entry list option"
  fs_cwd :: "string option"

section \<open>The registry of custom commands\<close>

record custom_command =
  cc_Name :: string
  cc_Description :: string
  cc_Prompt :: string
  cc_Exec :: string
  cc_WorkDir :: string
  cc_Source :: string

record command_registry =
  cr_commands :: "(string, custom_command) gomap"
  cr_agentDirs :: "string list"

definition NewCommandRegistry :: command_registry where
  "NewCommandRegistry = \<lparr>cr_commands = [], cr_agentDirs = []\<rparr>"

definition cr_Add :: "string \<Rightarrow> string \<Rightarrow> string \<Rightarrow> string \<Rightarrow> string \<Rightarrow> string \<Rightarrow> command_registry \<Rightarrow> command_registry" where
  "cr_Add name description prompt exec workDir source r =
     r\<lparr>cr_commands := mput (to_lower name)
         \<lparr>cc_Name = name, cc_Description = description, cc_Prompt = prompt, cc_Exec = exec,
          cc_WorkDir = workDir, cc_Source = source\<rparr> (cr_commands r)\<rparr>"

definition cr_ClearSource :: "string \<Rightarrow> command_registry \<Rightarrow> command_registry" where
  "cr_ClearSource source r = r\<lparr>cr_commands := filter (\<lambda>(k, c). cc_Source c \<noteq> source) (cr_commands r)\<rparr>"

definition cr_Remove :: "string \<Rightarrow> command_registry \<Rightarrow> command_registry \<times> bool" where
  "cr_Remove name r =
     (let lower = to_lower name
      in if mget (cr_commands r) lower \<noteq> None then (r\<lparr>cr_commands := mdel lower (cr_commands r)\<rparr>, True) else (r, False))"

definition cr_SetAgentDirs :: "string list \<Rightarrow> command_registry \<Rightarrow> command_registry" where
  "cr_SetAgentDirs dirs r = r\<lparr>cr_agentDirs := dirs\<rparr>"

definition normalizeCommandName :: "string \<Rightarrow> string" where
  "normalizeCommandName s = to_lower (replace_byte (CHR ''-'') (CHR ''_'') s)"

text \<open>The scan of the agent's command directories: each directory, and in it each spelling of the name.\<close>

definition agent_command :: "file_system \<Rightarrow> string \<Rightarrow> string \<Rightarrow> string \<Rightarrow> custom_command option" where
  "agent_command fs dir absDir candidate =
     (let mdPath = path_join dir (candidate @ ''.md'')
      in case filepath_Abs (fs_cwd fs) mdPath of
           None \<Rightarrow> None
         | Some absPath \<Rightarrow>
             if \<not> has_prefix absPath (absDir @ ''/'') then None
             else (case fs_read_file fs mdPath of
                     None \<Rightarrow> None
                   | Some data \<Rightarrow>
                       if trim_space data = [] then None
                       else Some \<lparr>cc_Name = candidate, cc_Description = [], cc_Prompt = trim_space data, cc_Exec = [],
                                  cc_WorkDir = [], cc_Source = ''agent''\<rparr>))"

fun first_candidate :: "file_system \<Rightarrow> string \<Rightarrow> string \<Rightarrow> string list \<Rightarrow> custom_command option" where
  "first_candidate fs dir absDir [] = None"
| "first_candidate fs dir absDir (c # cs) =
     (case agent_command fs dir absDir c of Some cmd \<Rightarrow> Some cmd | None \<Rightarrow> first_candidate fs dir absDir cs)"

fun scan_command_dirs :: "file_system \<Rightarrow> string list \<Rightarrow> string list \<Rightarrow> custom_command option" where
  "scan_command_dirs fs candidates [] = None"
| "scan_command_dirs fs candidates (dir # dirs) =
     (case filepath_Abs (fs_cwd fs) dir of
        None \<Rightarrow> scan_command_dirs fs candidates dirs
      | Some absDir \<Rightarrow>
          (case first_candidate fs dir absDir candidates of
             Some cmd \<Rightarrow> Some cmd | None \<Rightarrow> scan_command_dirs fs candidates dirs))"

definition command_candidates :: "string \<Rightarrow> string list" where
  "command_candidates name =
     (let alt = replace_byte (CHR ''_'') (CHR ''-'') name in if alt \<noteq> name then [name, alt] else [name])"

definition cr_Resolve :: "file_system \<Rightarrow> string \<Rightarrow> command_registry \<Rightarrow> custom_command option" where
  "cr_Resolve fs name r =
     (case mget (cr_commands r) (to_lower name) of
        Some c \<Rightarrow> Some c
      | None \<Rightarrow>
          (case find (\<lambda>(key, c). normalizeCommandName key = normalizeCommandName name) (cr_commands r) of
             Some (key, c) \<Rightarrow> Some c
           | None \<Rightarrow> scan_command_dirs fs (command_candidates name) (cr_agentDirs r)))"

text \<open>\<open>ListAll\<close>: the registered commands, then the files of each directory whose name was not seen yet.\<close>

definition first_line :: "nat \<Rightarrow> string \<Rightarrow> string" where
  "first_line n s = (if n < length (runes s) then rune_prefix n s @ ''...'' else s)"

definition file_description :: "string option \<Rightarrow> string" where
  "file_description data =
     (case data of None \<Rightarrow> [] | Some d \<Rightarrow> first_line 60 (fst (cut newline (trim_space d))))"

fun list_entries :: "file_system \<Rightarrow> string \<Rightarrow> dir_entry list \<Rightarrow> string list \<Rightarrow> custom_command list \<times> string list" where
  "list_entries fs dir [] seen = ([], seen)"
| "list_entries fs dir (e # es) seen =
     (let name = trim_suffix (de_Name e) ''.md''
      in if de_kind e = DirEntry \<or> \<not> has_suffix (de_Name e) ''.md'' \<or> to_lower name \<in> set seen
         then list_entries fs dir es seen
         else (let c = \<lparr>cc_Name = name, cc_Description = file_description (fs_read_file fs (path_join dir (de_Name e))),
                        cc_Prompt = [], cc_Exec = [], cc_WorkDir = [], cc_Source = ''agent''\<rparr>;
                   (cs, seen') = list_entries fs dir es (to_lower name # seen)
               in (c # cs, seen')))"

fun list_dirs :: "file_system \<Rightarrow> string list \<Rightarrow> string list \<Rightarrow> custom_command list" where
  "list_dirs fs [] seen = []"
| "list_dirs fs (dir # dirs) seen =
     (case fs_read_dir fs dir of
        None \<Rightarrow> list_dirs fs dirs seen
      | Some es \<Rightarrow> let (cs, seen') = list_entries fs dir es seen in cs @ list_dirs fs dirs seen')"

definition cr_ListAll :: "file_system \<Rightarrow> command_registry \<Rightarrow> custom_command list" where
  "cr_ListAll fs r =
     (let own = map snd (cr_commands r)
      in own @ list_dirs fs (cr_agentDirs r) (map (\<lambda>c. to_lower (cc_Name c)) own))"

section \<open>Resolving a registered command\<close>

definition registry_ok :: "command_registry \<Rightarrow> bool" where
  "registry_ok r \<longleftrightarrow> wf_map (cr_commands r) \<and> (\<forall>(k, c) \<in> set (cr_commands r). k = to_lower (cc_Name c))"

lemma registry_ok_new: "registry_ok NewCommandRegistry"
  by (simp add: registry_ok_def NewCommandRegistry_def)

lemma registry_ok_Add: "registry_ok r \<Longrightarrow> registry_ok (cr_Add n d p e w s r)"
  by (auto simp: registry_ok_def cr_Add_def wfm set_put)

lemma registry_ok_ClearSource: "registry_ok r \<Longrightarrow> registry_ok (cr_ClearSource s r)"
  by (auto simp: registry_ok_def cr_ClearSource_def wfm)

lemma registry_ok_Remove: "registry_ok r \<Longrightarrow> registry_ok (fst (cr_Remove n r))"
  by (auto simp: registry_ok_def cr_Remove_def Let_def wfm set_del)

lemma lower_underscore [simp]: "lower_byte (CHR ''_'') = CHR ''_''" "lower_byte (CHR ''-'') = CHR ''-''"
  by (simp_all add: lower_byte_def byte_def)

lemma lower_byte_hyphen: "lower_byte c = CHR ''-'' \<longleftrightarrow> c = CHR ''-''"
  using lower_byte_other [of c "CHR ''-''"] by (auto simp: byte_def)

lemma normalize_lower [simp]: "normalizeCommandName (to_lower n) = normalizeCommandName n"
proof -
  have "lower_byte (if lower_byte c = CHR ''-'' then CHR ''_'' else lower_byte c) =
      lower_byte (if c = CHR ''-'' then CHR ''_'' else c)" for c
    by (cases "c = CHR ''-''") (simp_all add: lower_byte_hyphen)
  then show ?thesis
    unfolding normalizeCommandName_def replace_byte_def to_lower_def map_map by (intro map_cong refl) (simp only: comp_def)
qed

lemma find_only_match: "x \<in> set xs \<Longrightarrow> P x \<Longrightarrow> (\<And>y. y \<in> set xs \<Longrightarrow> P y \<Longrightarrow> y = x) \<Longrightarrow> find P xs = Some x"
proof (induction xs)
  case (Cons a xs)
  show ?case
  proof (cases "P a")
    case True
    then have "a = x" using Cons.prems(3) by (meson list.set_intros(1))
    then show ?thesis using True by simp
  next
    case False
    then have "x \<in> set xs" using Cons.prems(1,2) by auto
    then have "find P xs = Some x" by (rule Cons.IH) (use Cons.prems in \<open>meson list.set_intros(2)\<close>)+
    then show ?thesis using False by simp
  qed
qed simp

text \<open>
  With no second command that differs only in hyphens and underscores, every spelling of a name resolves to
  the command, whatever its case and wherever it writes an underscore for a hyphen.
\<close>

lemma resolve_any_spelling:
  assumes "wf_map (cr_commands r)" "mget (cr_commands r) k = Some c"
    and "\<And>k'. k' \<in> mkeys (cr_commands r) \<Longrightarrow> normalizeCommandName k' = normalizeCommandName n \<longleftrightarrow> k' = k"
  shows "cr_Resolve fs n r = Some c"
proof (cases "mget (cr_commands r) (to_lower n)")
  case None
  have mem: "(k, c) \<in> set (cr_commands r)" using assms(1,2) mget_in_set by metis
  have only: "y = (k, c)"
    if y: "y \<in> set (cr_commands r)" "(\<lambda>(key, c). normalizeCommandName key = normalizeCommandName n) y" for y
  proof -
    obtain k' d where d: "y = (k', d)" by fastforce
    then have "k' \<in> mkeys (cr_commands r)" using y(1) in_mkeys by metis
    then have "k' = k" using y(2) d assms(3) [of k'] by simp
    moreover have "mget (cr_commands r) k' = Some d" using y(1) d mget_in_set [OF assms(1)] by simp
    ultimately show ?thesis using d assms(2) by simp
  qed
  have "normalizeCommandName k = normalizeCommandName n" using assms(2,3) mget_in_keys by metis
  then have "find (\<lambda>(key, c). normalizeCommandName key = normalizeCommandName n) (cr_commands r) = Some (k, c)"
    by (intro find_only_match [OF mem _ only]) (simp, assumption+)
  with None show ?thesis by (simp add: cr_Resolve_def)
next
  case (Some d)
  then have "to_lower n \<in> mkeys (cr_commands r)" by (rule mget_in_keys)
  then have "to_lower n = k" using assms(3) [of "to_lower n"] by simp
  with Some assms(2) show ?thesis by (simp add: cr_Resolve_def)
qed

text \<open>A command that was added is found under every spelling, and one that was removed is not.\<close>

lemma resolve_added:
  assumes "wf_map (cr_commands r)" "normalizeCommandName n = normalizeCommandName name"
    and "\<And>k. k \<in> mkeys (cr_commands r) \<Longrightarrow> normalizeCommandName k = normalizeCommandName name \<Longrightarrow> k = to_lower name"
  shows "cr_Resolve fs n (cr_Add name d p e w s r) =
           Some \<lparr>cc_Name = name, cc_Description = d, cc_Prompt = p, cc_Exec = e, cc_WorkDir = w, cc_Source = s\<rparr>"
proof (rule resolve_any_spelling)
  show "mget (cr_commands (cr_Add name d p e w s r)) (to_lower name) =
      Some \<lparr>cc_Name = name, cc_Description = d, cc_Prompt = p, cc_Exec = e, cc_WorkDir = w, cc_Source = s\<rparr>"
    by (simp add: cr_Add_def gomap)
  show "wf_map (cr_commands (cr_Add name d p e w s r))" using assms(1) by (simp add: cr_Add_def wfm)
  show "normalizeCommandName k' = normalizeCommandName n \<longleftrightarrow> k' = to_lower name"
    if "k' \<in> mkeys (cr_commands (cr_Add name d p e w s r))" for k'
    using that assms(2) assms(3) [of k'] normalize_lower [of name] by (auto simp: cr_Add_def mkeys_put)
qed

section \<open>Cleaned paths stay below their root\<close>

definition plain_part :: "string \<Rightarrow> bool" where
  "plain_part p \<longleftrightarrow> p \<noteq> [] \<and> p \<noteq> ''.'' \<and> p \<noteq> ''..'' \<and> CHR ''/'' \<notin> set p"

lemma clean_parts_plain: "\<forall>p \<in> set cs. CHR ''/'' \<notin> set p \<Longrightarrow> \<forall>p \<in> set stack. plain_part p \<Longrightarrow>
    p \<in> set (clean_parts True cs stack) \<Longrightarrow> plain_part p"
proof (induction cs arbitrary: stack)
  case (Cons c cs)
  show ?case
  proof (cases "c = [] \<or> c = ''.''")
    case True
    then show ?thesis using Cons by auto
  next
    case False
    show ?thesis
    proof (cases "c = ''..''")
      case True
      then show ?thesis
      proof (cases stack)
        case Nil
        then have "p \<in> set (clean_parts True cs [])" using True Cons.prems(3) by simp
        then show ?thesis using Cons.IH [of "[]"] Cons.prems(1) by simp
      next
        case st: (Cons d ds)
        then have "d \<noteq> ''..''" "\<forall>p \<in> set ds. plain_part p" using Cons.prems(2) by (simp_all add: plain_part_def)
        moreover have "p \<in> set (clean_parts True cs ds)" using True Cons.prems(3) st \<open>d \<noteq> ''..''\<close> by simp
        ultimately show ?thesis using Cons.IH [of ds] Cons.prems(1) by simp
      qed
    next
      case neq: False
      then have "plain_part c" using False Cons.prems by (simp add: plain_part_def)
      moreover have "p \<in> set (clean_parts True cs (c # stack))" using False neq Cons.prems(3) by simp
      ultimately show ?thesis using Cons.IH [of "c # stack"] Cons.prems(1,2) by simp
    qed
  qed
qed auto

lemma path_clean_rooted:
  assumes "has_prefix s ''/''"
  obtains ps where "path_clean s = CHR ''/'' # join ''/'' ps" "\<forall>p \<in> set ps. plain_part p"
proof
  have r: "s \<noteq> [] \<and> hd s = CHR ''/''" using assms by (cases s) (auto simp: has_prefix_def)
  then show "path_clean s = CHR ''/'' # join ''/'' (clean_parts True (split_all (CHR ''/'') s) [])"
    by (simp add: path_clean_def)
  show "\<forall>p \<in> set (clean_parts True (split_all (CHR ''/'') s) []). plain_part p"
    using clean_parts_plain [of "split_all (CHR ''/'') s" "[]"] split_all_parts by force
qed

text \<open>What follows a prefix that ends with a slash has no part that leads upwards.\<close>

lemma clean_path_below:
  assumes "has_prefix s ''/''" "path_clean s = dir @ ''/'' @ x"
  shows "''..'' \<notin> set (split_all (CHR ''/'') x)"
proof -
  obtain ps where ps: "path_clean s = CHR ''/'' # join ''/'' ps" "\<forall>p \<in> set ps. plain_part p"
    using path_clean_rooted [OF assms(1)] by blast
  have "split_all (CHR ''/'') (path_clean s) = [] # split_all (CHR ''/'') (join ''/'' ps)"
    using split_all_append [of "CHR ''/''" "[]" "join ''/'' ps"] ps(1) by (simp add: split_all_absent)
  moreover have "split_all (CHR ''/'') (join ''/'' ps) = (if ps = [] then [[]] else ps)"
    using split_all_join [of ps "CHR ''/''"] ps(2) by (auto simp: plain_part_def split_all_absent)
  ultimately have "''..'' \<notin> set (split_all (CHR ''/'') (path_clean s))"
    using ps(2) by (auto simp: plain_part_def split: if_splits)
  then show ?thesis using assms(2) split_all_append [of "CHR ''/''" dir x] by simp
qed

lemma Abs_rooted:
  assumes "filepath_Abs cwd p = Some q" "\<And>wd. cwd = Some wd \<Longrightarrow> has_prefix wd ''/''"
  shows "\<exists>s. has_prefix s ''/'' \<and> q = path_clean s"
proof (cases "has_prefix p ''/''")
  case True
  then show ?thesis using assms(1) by (auto simp: filepath_Abs_def)
next
  case False
  then obtain wd where wd: "cwd = Some wd" "q = path_join wd p" using assms(1) by (auto simp: filepath_Abs_def)
  then have "wd \<noteq> []" "has_prefix (wd @ CHR ''/'' # p) ''/''" using assms(2) by (auto simp: has_prefix_def) (cases wd; auto)
  then show ?thesis using wd by (auto simp: path_join_def)
qed

section \<open>Commands in files\<close>

text \<open>A file is read below a directory when its absolute path is that of the directory and a path without \<open>..\<close>.\<close>

definition below :: "string option \<Rightarrow> string \<Rightarrow> string \<Rightarrow> bool" where
  "below cwd dir p \<longleftrightarrow> (\<exists>d x. filepath_Abs cwd dir = Some d \<and> filepath_Abs cwd p = Some (d @ ''/'' @ x) \<and>
     ''..'' \<notin> set (split_all (CHR ''/'') x))"

lemma agent_command_below:
  assumes "agent_command fs dir d cand = Some c" "filepath_Abs (fs_cwd fs) dir = Some d"
    and "\<And>wd. fs_cwd fs = Some wd \<Longrightarrow> has_prefix wd ''/''"
  shows "\<exists>p data. below (fs_cwd fs) dir p \<and> fs_read_file fs p = Some data \<and> cc_Prompt c = trim_space data \<and>
           cc_Name c = cand \<and> cc_Exec c = []"
proof -
  let ?p = "path_join dir (cand @ ''.md'')"
  obtain q where q: "filepath_Abs (fs_cwd fs) ?p = Some q" and pre: "has_prefix q (d @ ''/'')"
    using assms(1) by (auto simp: agent_command_def Let_def split: option.splits if_splits)
  obtain data where data: "fs_read_file fs ?p = Some data" "cc_Prompt c = trim_space data" "cc_Name c = cand" "cc_Exec c = []"
    using assms(1) by (auto simp: agent_command_def Let_def split: option.splits if_splits)
  have "q = take (Suc (length d)) q @ drop (Suc (length d)) q" by simp
  then obtain x where x: "q = d @ ''/'' @ x" using pre unfolding has_prefix_def by (metis append.assoc length_append_singleton)
  obtain s where "has_prefix s ''/''" "q = path_clean s" using Abs_rooted [OF q] assms(3) by blast
  then have "''..'' \<notin> set (split_all (CHR ''/'') x)" using clean_path_below x by metis
  then show ?thesis using q x assms(2) data by (auto simp: below_def)
qed

lemma first_candidate_some: "first_candidate fs dir d cs = Some c \<Longrightarrow> \<exists>cand \<in> set cs. agent_command fs dir d cand = Some c"
  by (induction cs) (auto split: option.splits)

lemma scan_dirs_some: "scan_command_dirs fs cands dirs = Some c \<Longrightarrow>
    \<exists>dir \<in> set dirs. \<exists>d. filepath_Abs (fs_cwd fs) dir = Some d \<and> (\<exists>cand \<in> set cands. agent_command fs dir d cand = Some c)"
  by (induction dirs) (auto split: option.splits dest: first_candidate_some)

lemma resolve_cases:
  assumes "cr_Resolve fs n r = Some c"
  shows "(\<exists>k. (k, c) \<in> set (cr_commands r)) \<or>
     (\<exists>dir \<in> set (cr_agentDirs r). \<exists>d. filepath_Abs (fs_cwd fs) dir = Some d \<and>
        (\<exists>cand \<in> set (command_candidates n). agent_command fs dir d cand = Some c))"
proof (cases "mget (cr_commands r) (to_lower n)")
  case (Some d)
  then show ?thesis using assms map_of_SomeD by (fastforce simp: cr_Resolve_def)
next
  case None
  show ?thesis
  proof (cases "find (\<lambda>(key, c). normalizeCommandName key = normalizeCommandName n) (cr_commands r)")
    case (Some kd)
    then have "kd \<in> set (cr_commands r)" by (metis find_Some_iff nth_mem)
    moreover have "kd = (fst kd, c)" using Some None assms by (cases kd) (simp add: cr_Resolve_def)
    ultimately show ?thesis by metis
  next
    case no: None
    then show ?thesis using None assms scan_dirs_some by (simp add: cr_Resolve_def)
  qed
qed

text \<open>
  Whatever a user types as the name of a command, the file that is read for it lies below one of the command
  directories, and such a command never runs a shell.
\<close>

lemma file_command_below:
  assumes "cr_Resolve fs n r = Some c" "\<And>wd. fs_cwd fs = Some wd \<Longrightarrow> has_prefix wd ''/''"
    and "\<And>k. (k, c) \<notin> set (cr_commands r)"
  shows "\<exists>dir \<in> set (cr_agentDirs r). \<exists>p data. below (fs_cwd fs) dir p \<and> fs_read_file fs p = Some data \<and>
           cc_Prompt c = trim_space data \<and> cc_Exec c = []"
  using resolve_cases [OF assms(1)] agent_command_below assms(2,3) by meson

end
