(* ===== verification/Skills.thy ===== *)
theory Skills
  imports CustomCommands
begin

text \<open>
  Skills of \<open>src/core/skill.go\<close>: the directories with a \<open>SKILL.md\<close>, their front matter, the cache of the
  registry, and the prompt a skill is invoked with.
\<close>

record skill =
  sk_Name :: string
  sk_DisplayName :: string
  sk_Description :: string
  sk_Prompt :: string
  sk_Source :: string

section \<open>The file format\<close>

fun index_of :: "string \<Rightarrow> string \<Rightarrow> nat option" where
  "index_of [] p = (if p = [] then Some 0 else None)"
| "index_of (c # s) p = (if has_prefix (c # s) p then Some 0 else map_option Suc (index_of s p))"

definition is_quote :: "char \<Rightarrow> bool" where
  "is_quote c \<longleftrightarrow> c = double_quote \<or> c = single_quote"

definition trim_quotes :: "string \<Rightarrow> string" where
  "trim_quotes s = rev (dropWhile is_quote (rev (dropWhile is_quote s)))"

definition indented :: "string \<Rightarrow> bool" where
  "indented l \<longleftrightarrow> l \<noteq> [] \<and> (hd l = CHR '' '' \<or> hd l = tab)"

definition block_marks :: "string list" where
  "block_marks = [''>-'', ''|-'', ''>'', ''|'']"

text \<open>The loop over the lines; the lines of a block scalar are consumed with their key.\<close>

function front_lines :: "string list \<Rightarrow> (string, string) gomap \<Rightarrow> (string, string) gomap" where
  "front_lines [] m = m"
| "front_lines (l # ls) m =
     (let line = trim_space l
      in if line = [] \<or> has_prefix line ''#'' then front_lines ls m
         else (case cut (CHR '':'') line of
                 (_, None) \<Rightarrow> front_lines ls m
               | (k, Some v) \<Rightarrow>
                   let key = trim_space k; val = trim_space v;
                       block = val \<in> set block_marks;
                       val' = trim_quotes (if block then join '' '' (map trim_space (takeWhile indented ls)) else val);
                       ls' = (if block then dropWhile indented ls else ls)
                   in front_lines ls' (if key \<noteq> [] then mput (to_lower key) val' m else m)))"
  by pat_completeness auto
termination
  by (relation "measure (\<lambda>(ls, m). length ls)") (auto simp: le_imp_less_Suc length_dropWhile_le split: if_splits)

definition parseFrontmatter :: "string \<Rightarrow> (string, string) gomap" where
  "parseFrontmatter block = front_lines (split_all newline block) []"

definition parseSkillMD :: "string \<Rightarrow> string \<Rightarrow> string \<Rightarrow> skill option" where
  "parseSkillMD skillName raw sourceDir =
     (let content = trim_space raw;
          fence = (if has_prefix content ''---'' then index_of (drop 3 content) (newline # ''---'') else None);
          front = (case fence of Some i \<Rightarrow> parseFrontmatter (take i (drop 3 content)) | None \<Rightarrow> []);
          body = (case fence of Some i \<Rightarrow> trim_space (drop (i + 4) (drop 3 content)) | None \<Rightarrow> content);
          description = mget_or [] front ''description''
      in if content = [] \<or> body = [] then None
         else Some \<lparr>sk_Name = skillName, sk_DisplayName = mget_or [] front ''name'',
                    sk_Description = (if description = [] then first_line 80 (trim_space (fst (cut newline body))) else description),
                    sk_Prompt = body, sk_Source = sourceDir\<rparr>)"

section \<open>Discovery and the registry\<close>

definition isDiscoverableSubdir :: "dir_entry \<Rightarrow> bool" where
  "isDiscoverableSubdir e = (case de_kind e of DirEntry \<Rightarrow> True | LinkEntry isdir \<Rightarrow> isdir | PlainEntry \<Rightarrow> False)"

definition read_skill :: "file_system \<Rightarrow> string \<Rightarrow> string \<Rightarrow> skill option" where
  "read_skill fs scanRoot name =
     (let skillDir = path_join scanRoot name
      in case fs_read_file fs (path_join skillDir ''SKILL.md'') of
           None \<Rightarrow> None | Some data \<Rightarrow> parseSkillMD name data skillDir)"

fun discover_entries :: "file_system \<Rightarrow> string \<Rightarrow> dir_entry list \<Rightarrow> string list \<Rightarrow> skill list \<times> string list" where
  "discover_entries fs root [] seen = ([], seen)"
| "discover_entries fs root (e # es) seen =
     (if \<not> isDiscoverableSubdir e \<or> to_lower (de_Name e) \<in> set seen then discover_entries fs root es seen
      else (case read_skill fs root (de_Name e) of
              None \<Rightarrow> discover_entries fs root es seen
            | Some sk \<Rightarrow> let (sks, seen') = discover_entries fs root es (to_lower (de_Name e) # seen) in (sk # sks, seen')))"

definition discoverSkillsInDir :: "file_system \<Rightarrow> string \<Rightarrow> string list \<Rightarrow> skill list \<times> string list" where
  "discoverSkillsInDir fs root seen =
     (case fs_read_dir fs root of None \<Rightarrow> ([], seen) | Some es \<Rightarrow> discover_entries fs root es seen)"

fun discover_dirs :: "file_system \<Rightarrow> string list \<Rightarrow> string list \<Rightarrow> skill list" where
  "discover_dirs fs [] seen = []"
| "discover_dirs fs (d # ds) seen = (let (sks, seen') = discoverSkillsInDir fs d seen in sks @ discover_dirs fs ds seen')"

text \<open>A cache that is nil is \<open>None\<close>; a scan without a skill leaves the slice, and with it the cache, nil.\<close>

record skill_registry =
  sr_dirs :: "string list"
  sr_cache :: "skill list option"

definition NewSkillRegistry :: skill_registry where
  "NewSkillRegistry = \<lparr>sr_dirs = [], sr_cache = None\<rparr>"

definition sr_SetDirs :: "string list \<Rightarrow> skill_registry \<Rightarrow> skill_registry" where
  "sr_SetDirs dirs r = r\<lparr>sr_dirs := dirs, sr_cache := None\<rparr>"

definition sr_Invalidate :: "skill_registry \<Rightarrow> skill_registry" where
  "sr_Invalidate r = r\<lparr>sr_cache := None\<rparr>"

definition sr_ListAll :: "file_system \<Rightarrow> skill_registry \<Rightarrow> skill_registry \<times> skill list" where
  "sr_ListAll fs r =
     (case sr_cache r of
        Some sks \<Rightarrow> (r, sks)
      | None \<Rightarrow> let sks = discover_dirs fs (sr_dirs r) []
                in (r\<lparr>sr_cache := (if sks = [] then None else Some sks)\<rparr>, sks))"

definition sr_Resolve :: "file_system \<Rightarrow> string \<Rightarrow> skill_registry \<Rightarrow> skill_registry \<times> skill option" where
  "sr_Resolve fs name r =
     (let (r', sks) = sr_ListAll fs r
      in (r', find (\<lambda>s. normalizeCommandName (sk_Name s) = normalizeCommandName name) sks))"

section \<open>Invocation\<close>

definition BuildSkillInvocationPrompt :: "skill \<Rightarrow> string list \<Rightarrow> string" where
  "BuildSkillInvocationPrompt sk args =
     ''The user is asking you to execute the following skill.'' @ [newline, newline] @
     ''## Skill: '' @ (if sk_DisplayName sk = [] then sk_Name sk else sk_DisplayName sk) @ [newline] @
     (if sk_Description sk \<noteq> [] then ''## Description: '' @ sk_Description sk @ [newline] else []) @
     [newline] @ ''## Skill Instructions:'' @ [newline] @ sk_Prompt sk @
     (if args \<noteq> [] then [newline, newline] @ ''## User Arguments:'' @ [newline] @ join '' '' args else []) @
     [newline, newline] @ ''Please follow the skill instructions above to complete the task.''"

section \<open>What a scan finds\<close>

text \<open>
  The reference: every directory entry that holds a readable skill, in the order of the directories, and of
  those the first of each name, up to case.
\<close>

definition skills_of :: "file_system \<Rightarrow> string \<Rightarrow> skill list" where
  "skills_of fs root =
     (case fs_read_dir fs root of
        None \<Rightarrow> []
      | Some es \<Rightarrow> List.map_filter (\<lambda>e. read_skill fs root (de_Name e)) (filter isDiscoverableSubdir es))"

fun first_of_each :: "string list \<Rightarrow> skill list \<Rightarrow> skill list" where
  "first_of_each seen [] = []"
| "first_of_each seen (s # ss) =
     (if to_lower (sk_Name s) \<in> set seen then first_of_each seen ss else s # first_of_each (to_lower (sk_Name s) # seen) ss)"

fun names_after :: "string list \<Rightarrow> skill list \<Rightarrow> string list" where
  "names_after seen [] = seen"
| "names_after seen (s # ss) = names_after (if to_lower (sk_Name s) \<in> set seen then seen else to_lower (sk_Name s) # seen) ss"

lemma read_skill_name: "read_skill fs root n = Some sk \<Longrightarrow> sk_Name sk = n"
  by (auto simp: read_skill_def parseSkillMD_def Let_def split: option.splits if_splits)

lemma discover_entries_reference:
  "discover_entries fs root es seen =
     (first_of_each seen (List.map_filter (\<lambda>e. read_skill fs root (de_Name e)) (filter isDiscoverableSubdir es)),
      names_after seen (List.map_filter (\<lambda>e. read_skill fs root (de_Name e)) (filter isDiscoverableSubdir es)))"
proof (induction es arbitrary: seen)
  case (Cons e es)
  show ?case
  proof (cases "read_skill fs root (de_Name e)")
    case None
    then show ?thesis using Cons by (simp add: map_filter_simps)
  next
    case (Some sk)
    then show ?thesis using Cons read_skill_name [OF Some] by (simp add: map_filter_simps)
  qed
qed (simp add: map_filter_simps)

lemma first_of_each_append:
  "first_of_each seen (xs @ ys) = first_of_each seen xs @ first_of_each (names_after seen xs) ys"
  by (induction xs arbitrary: seen) auto

text \<open>The scan with the shared set of seen names computes the reference.\<close>

lemma discover_dirs_reference:
  "discover_dirs fs dirs seen = first_of_each seen (concat (map (skills_of fs) dirs))"
proof (induction dirs arbitrary: seen)
  case (Cons d ds)
  have "discoverSkillsInDir fs d seen = (first_of_each seen (skills_of fs d), names_after seen (skills_of fs d))"
    by (cases "fs_read_dir fs d") (simp_all add: discoverSkillsInDir_def skills_of_def discover_entries_reference)
  then show ?case using Cons by (simp add: first_of_each_append)
qed simp

lemma first_of_each_distinct:
  "distinct (map (to_lower \<circ> sk_Name) (first_of_each seen xs)) \<and>
   set (map (to_lower \<circ> sk_Name) (first_of_each seen xs)) = set (map (to_lower \<circ> sk_Name) xs) - set seen"
  by (induction xs arbitrary: seen) auto

lemma first_of_each_first:
  "n \<notin> set seen \<Longrightarrow> find (\<lambda>s. to_lower (sk_Name s) = n) (first_of_each seen xs) = find (\<lambda>s. to_lower (sk_Name s) = n) xs"
  by (induction xs arbitrary: seen) auto

text \<open>Once skills were found, later scans answer the same whatever happens on the disk, until the cache is dropped.\<close>

lemma list_is_stable:
  assumes "sr_ListAll fs r = (r', sks)" "sks \<noteq> []"
  shows "sr_ListAll fs' r' = (r', sks)"
  using assms by (auto simp: sr_ListAll_def Let_def split: option.splits)

text \<open>An empty result is not kept: the directories are read again on the next call.\<close>

lemma empty_list_not_cached: "sr_cache r = None \<Longrightarrow> sr_ListAll fs r = (r', []) \<Longrightarrow>
    sr_ListAll fs' r' = sr_ListAll fs' r"
  by (auto simp: sr_ListAll_def Let_def split: if_splits)

text \<open>
  A skill is found under every spelling of its name, unless an earlier one differs from it only in hyphens
  and underscores: such a skill is listed and can never be invoked.
\<close>

lemma resolve_skill:
  assumes "sr_ListAll fs r = (r', xs @ sk # ys)"
    and "\<And>s. s \<in> set xs \<Longrightarrow> normalizeCommandName (sk_Name s) \<noteq> normalizeCommandName (sk_Name sk)"
    and "normalizeCommandName n = normalizeCommandName (sk_Name sk)"
  shows "sr_Resolve fs n r = (r', Some sk)"
proof -
  have "find (\<lambda>s. normalizeCommandName (sk_Name s) = normalizeCommandName n) (xs @ sk # ys) = Some sk"
    using assms(2,3) by (induction xs) auto
  then show ?thesis using assms(1) by (simp add: sr_Resolve_def)
qed

lemma skill_shadowed:
  assumes "sr_ListAll fs r = (r', xs)" "sk \<in> set xs"
    and "find (\<lambda>s. normalizeCommandName (sk_Name s) = normalizeCommandName (sk_Name sk)) xs = Some other" "other \<noteq> sk"
  shows "snd (sr_Resolve fs n r) \<noteq> Some sk"
proof
  assume a: "snd (sr_Resolve fs n r) = Some sk"
  then have f: "find (\<lambda>s. normalizeCommandName (sk_Name s) = normalizeCommandName n) xs = Some sk"
    using assms(1) by (simp add: sr_Resolve_def)
  then have "normalizeCommandName (sk_Name sk) = normalizeCommandName n" by (auto simp: find_Some_iff)
  then show False using f assms(3,4) by simp
qed

end
