(* ===== verification/Admission.thy ===== *)
theory Admission
  imports Skills UserRoles CronStore InteractiveState PermissionReply
begin

text \<open>
  What happens to a message before it becomes work of an agent (\<open>handleMessage\<close>, \<open>handleCommand\<close> and the
  policies they ask, \<open>src/core/engine.go\<close>): aliases, rate limits, banned words, shortcuts, commands with their
  disabled and privileged ones, permission answers, the \<open>!\<close> shell and the card-driven provider form. The state
  holds the settings and registries these decisions read; the effects of a handler are a list of actions. The
  results of workspace resolution are inputs, and so is the file system.
\<close>

section \<open>State\<close>

record provider =
  pv_Name :: string
  pv_APIKey :: string
  pv_BaseURL :: string
  pv_Model :: string
  pv_CodexWireAPI :: string
  pv_CodexHTTPHeaders :: "(string, string) gomap"

record provider_add =
  pa_phase :: string
  pa_name :: string
  pa_baseURL :: string
  pa_model :: string
  pa_inviteURL :: string
  pa_codexWireAPI :: string
  pa_codexHTTPHeaders :: "(string, string) gomap"

text \<open>
  An agent that offers no presets, or no providers, is \<open>None\<close>, and so are a rate limiter, roles and a cron
  scheduler that are not set. The pending provider forms are those of the interactive states, by key.
\<close>

record 'j admission =
  ad_aliases :: "(string, string) gomap"
  ad_bannedWords :: "string list"
  ad_disabledCmds :: "(string, bool) gomap"
  ad_userRoles :: "role_manager option"
  ad_adminFrom :: string
  ad_rateLimiter :: "rate_limiter option"
  ad_commands :: command_registry
  ad_skills :: skill_registry
  ad_presets :: "string list option"
  ad_multiWorkspace :: bool
  ad_cron :: "cron_store option"
  ad_timer :: bool
  ad_providers :: "provider list option"
  ad_pendingAdd :: "(string, provider_add) gomap"
  ad_perm :: "'j perm_engine"

datatype answer =
    CommandDisabled string | AdminRequired string | UnknownCommand string | WsNotEnabled | WsFailed
  | ShellUsage | CommandsUsage string | CommandExists string | CommandAdded string | CommandNotFound string
  | CommandDeleted string | AliasUsage | AliasAdded string string | AliasNotFound string | AliasDeleted string
  | CronNotAvailable | CronUsage string | CronNotFound string | TimerNotAvailable | TimerUsage string
  | RateLimited | BannedWordBlocked | VoiceNotEnabled | VoiceRecognised string
  | ProviderUsage | ProviderExists string | ProviderAdded string

datatype action =
    Answer answer
  | RunShell string duration              (* a shell command and its time-out *)
  | RunBuiltin string "string list"       (* the handler of another built-in command *)
  | PromptAgent string "string option"    (* a turn with this prompt, and the skill it came from *)
  | ShowList string
  | SaveCommand custom_command | DropCommand string
  | SaveAlias string string | DropAlias string
  | AddCron string string string          (* expression, prompt, shell command *)
  | RunCron string | CronOp string "string list"
  | AddTimer string string string         (* delay, prompt, shell command *)
  | TimerOp string "string list"
  | SaveProvider provider

section \<open>Settings\<close>

definition AddAlias :: "string \<Rightarrow> string \<Rightarrow> 'j admission \<Rightarrow> 'j admission" where
  "AddAlias name command st = st\<lparr>ad_aliases := mput name command (ad_aliases st)\<rparr>"

definition ClearAliases :: "'j admission \<Rightarrow> 'j admission" where
  "ClearAliases st = st\<lparr>ad_aliases := []\<rparr>"

definition SetDisabledCommands :: "string list \<Rightarrow> 'j admission \<Rightarrow> 'j admission" where
  "SetDisabledCommands cmds st = st\<lparr>ad_disabledCmds := resolveDisabledCmds cmds\<rparr>"

definition SetUserRoles :: "role_manager option \<Rightarrow> 'j admission \<Rightarrow> 'j admission" where
  "SetUserRoles urm st = st\<lparr>ad_userRoles := urm\<rparr>"

definition SetAdminFrom :: "string \<Rightarrow> 'j admission \<Rightarrow> 'j admission" where
  "SetAdminFrom adminFrom st = st\<lparr>ad_adminFrom := trim_space adminFrom\<rparr>"

definition SetBannedWords :: "string list \<Rightarrow> 'j admission \<Rightarrow> 'j admission" where
  "SetBannedWords ws st = st\<lparr>ad_bannedWords := map to_lower ws\<rparr>"

definition SetRateLimitCfg :: "rate_limit_cfg \<Rightarrow> 'j admission \<Rightarrow> 'j admission" where
  "SetRateLimitCfg cfg st = st\<lparr>ad_rateLimiter := Some (NewRateLimiter (rlc_MaxMessages cfg) (rlc_Window cfg))\<rparr>"

section \<open>Policies\<close>

text \<open>\<open>None\<close> is the empty result: no banned word, or one that is empty.\<close>

definition matchBannedWord :: "string \<Rightarrow> 'j admission \<Rightarrow> string option" where
  "matchBannedWord content st =
     (case find (contains (to_lower content)) (ad_bannedWords st) of
        None \<Rightarrow> None | Some w \<Rightarrow> if w = [] then None else Some w)"

definition resolveAlias :: "string \<Rightarrow> 'j admission \<Rightarrow> string" where
  "resolveAlias content st =
     (case mget (ad_aliases st) content of
        Some cmd \<Rightarrow> cmd
      | None \<Rightarrow>
          (case split_n (CHR '' '') 2 content of
             word # rest \<Rightarrow>
               (case mget (ad_aliases st) word of
                  Some cmd \<Rightarrow> (case rest of r # _ \<Rightarrow> cmd @ CHR '' '' # r | [] \<Rightarrow> cmd)
                | None \<Rightarrow> content)
           | [] \<Rightarrow> content))"

definition isAdmin :: "string \<Rightarrow> 'j admission \<Rightarrow> bool" where
  "isAdmin userID st =
     (ad_adminFrom st \<noteq> [] \<and>
      (ad_adminFrom st = ''*'' \<or> list_ex (\<lambda>i. equal_fold (trim_space i) userID) (split_all (CHR '','') (ad_adminFrom st))))"

definition privilegedCommands :: "string list" where
  "privilegedCommands = [''shell'', ''show'', ''dir'', ''restart'', ''upgrade'', ''web'', ''diff'']"

definition commands_gate :: "string list" where
  "commands_gate = [''list'', ''add'', ''addexec'', ''del'', ''delete'', ''rm'', ''remove'']"

definition cron_gate :: "string list" where
  "cron_gate = [''add'', ''addexec'', ''list'', ''del'', ''delete'', ''rm'', ''remove'', ''enable'', ''disable'', ''mute'', ''unmute'', ''setup'']"

definition isPrivilegedCommandInvocation :: "string \<Rightarrow> string list \<Rightarrow> bool" where
  "isPrivilegedCommandInvocation cmdID args =
     (cmdID \<in> set privilegedCommands \<or>
      (case args of
         [] \<Rightarrow> False
       | a # _ \<Rightarrow>
           if cmdID = ''commands'' then matchSubCommand (to_lower a) commands_gate = ''addexec''
           else if cmdID = ''cron'' then matchSubCommand (to_lower a) cron_gate = ''addexec''
           else False))"

text \<open>The limits: first the limiter of the user's role, then the one of the project. Times are milliseconds.\<close>

definition checkRateLimit :: "int \<Rightarrow> string \<Rightarrow> string \<Rightarrow> 'j admission \<Rightarrow> 'j admission \<times> bool" where
  "checkRateLimit now userID sessionKey st =
     (let rateKey = (if userID = [] then sessionKey else userID);
          (urm, allowed, handled) = (if ad_userRoles st \<noteq> None then AllowRate now rateKey (ad_userRoles st) else (None, True, False));
          st1 = st\<lparr>ad_userRoles := urm\<rparr>
      in if handled then (st1, allowed)
         else (case ad_rateLimiter st of
                 None \<Rightarrow> (st1, True)
               | Some rl \<Rightarrow>
                   let (rl', ok) = RateLimit.Allow now (if ad_userRoles st \<noteq> None \<and> userID \<noteq> [] then userID else sessionKey) rl
                   in (st1\<lparr>ad_rateLimiter := Some rl'\<rparr>, ok)))"

text \<open>The commands that are disabled for a user: those of the role, when there is one, else those of the project.\<close>

definition disabled_for :: "string \<Rightarrow> 'j admission \<Rightarrow> (string, bool) gomap" where
  "disabled_for userID st =
     (case ResolveRole userID (ad_userRoles st) of Some role \<Rightarrow> ur_DisabledCmds role | None \<Rightarrow> ad_disabledCmds st)"

abbreviation is_disabled :: "string \<Rightarrow> string \<Rightarrow> 'j admission \<Rightarrow> bool" where
  "is_disabled userID c st \<equiv> mget_or False (disabled_for userID st) c"

end
