(* ===== verification/CommandDispatch.thy ===== *)
theory CommandDispatch
  imports Admission
begin

text \<open>
  The dispatch of slash commands (\<open>handleCommand\<close> in \<open>src/core/engine.go\<close>) with the handlers that change the
  registries or start shell commands: \<open>/commands\<close>, \<open>/alias\<close>, \<open>/cron\<close>, \<open>/timer\<close>, \<open>/shell\<close>, custom commands and
  skills. Each handler returns the new state and its actions; the handlers of the other built-in commands are
  the action \<open>RunBuiltin\<close>.
\<close>

section \<open>/commands\<close>

definition cmdCommandsAdd :: "file_system \<Rightarrow> string list \<Rightarrow> 'j admission \<Rightarrow> 'j admission \<times> action list" where
  "cmdCommandsAdd fs args st =
     (if length args < 2 then (st, [Answer (CommandsUsage ''add'')])
      else let name = to_lower (args ! 0); prompt = join '' '' (drop 1 args)
           in if cr_Resolve fs name (ad_commands st) \<noteq> None then (st, [Answer (CommandExists name)])
              else (st\<lparr>ad_commands := cr_Add name [] prompt [] [] ''config'' (ad_commands st)\<rparr>,
                    [SaveCommand \<lparr>cc_Name = name, cc_Description = [], cc_Prompt = prompt, cc_Exec = [], cc_WorkDir = [], cc_Source = ''config''\<rparr>,
                     Answer (CommandAdded name)]))"

definition cmdCommandsAddExec :: "file_system \<Rightarrow> string \<Rightarrow> string list \<Rightarrow> 'j admission \<Rightarrow> 'j admission \<times> action list" where
  "cmdCommandsAddExec fs userID args st =
     (if \<not> isAdmin userID st then (st, [Answer (AdminRequired ''/commands addexec'')])
      else if length args < 2 then (st, [Answer (CommandsUsage ''addexec'')])
      else let flag = (args ! 0 = ''--work-dir'' \<and> 3 \<le> length args);
               workDir = (if flag then args ! 1 else []);
               i = (if flag then 2 else 0);
               name = to_lower (args ! i);
               execCmd = join '' '' (drop (i + 1) args)
           in if execCmd = [] then (st, [Answer (CommandsUsage ''addexec'')])
              else if cr_Resolve fs name (ad_commands st) \<noteq> None then (st, [Answer (CommandExists name)])
              else (st\<lparr>ad_commands := cr_Add name [] [] execCmd workDir ''config'' (ad_commands st)\<rparr>,
                    [SaveCommand \<lparr>cc_Name = name, cc_Description = [], cc_Prompt = [], cc_Exec = execCmd, cc_WorkDir = workDir, cc_Source = ''config''\<rparr>,
                     Answer (CommandAdded name)]))"

definition cmdCommandsDel :: "string list \<Rightarrow> 'j admission \<Rightarrow> 'j admission \<times> action list" where
  "cmdCommandsDel args st =
     (case args of
        [] \<Rightarrow> (st, [Answer (CommandsUsage ''del'')])
      | a # _ \<Rightarrow>
          let name = to_lower a; (r, found) = cr_Remove name (ad_commands st)
          in if found then (st\<lparr>ad_commands := r\<rparr>, [DropCommand name, Answer (CommandDeleted name)])
             else (st, [Answer (CommandNotFound name)]))"

definition cmdCommands :: "file_system \<Rightarrow> string \<Rightarrow> string list \<Rightarrow> 'j admission \<Rightarrow> 'j admission \<times> action list" where
  "cmdCommands fs userID args st =
     (case args of
        [] \<Rightarrow> (st, [ShowList ''commands''])
      | a # rest \<Rightarrow>
          let sub = matchSubCommand (to_lower a) commands_gate
          in if sub = ''list'' then (st, [ShowList ''commands''])
             else if sub = ''add'' then cmdCommandsAdd fs rest st
             else if sub = ''addexec'' then cmdCommandsAddExec fs userID rest st
             else if sub \<in> set [''del'', ''delete'', ''rm'', ''remove''] then cmdCommandsDel rest st
             else (st, [Answer (CommandsUsage [])]))"

section \<open>/alias\<close>

definition cmdAliasAdd :: "string list \<Rightarrow> 'j admission \<Rightarrow> 'j admission \<times> action list" where
  "cmdAliasAdd args st =
     (if length args < 2 then (st, [Answer AliasUsage])
      else let name = args ! 0; c = join '' '' (drop 1 args);
               command = (if has_prefix c ''/'' then c else CHR ''/'' # c)
           in (AddAlias name command st, [SaveAlias name command, Answer (AliasAdded name command)]))"

definition cmdAliasDel :: "string list \<Rightarrow> 'j admission \<Rightarrow> 'j admission \<times> action list" where
  "cmdAliasDel args st =
     (case args of
        [] \<Rightarrow> (st, [Answer AliasUsage])
      | name # _ \<Rightarrow>
          if mget (ad_aliases st) name \<noteq> None
          then (st\<lparr>ad_aliases := mdel name (ad_aliases st)\<rparr>, [DropAlias name, Answer (AliasDeleted name)])
          else (st, [Answer (AliasNotFound name)]))"

definition cmdAlias :: "string list \<Rightarrow> 'j admission \<Rightarrow> 'j admission \<times> action list" where
  "cmdAlias args st =
     (case args of
        [] \<Rightarrow> (st, [ShowList ''alias''])
      | a # rest \<Rightarrow>
          let sub = matchSubCommand (to_lower a) [''list'', ''add'', ''del'', ''delete'', ''remove'']
          in if sub = ''list'' then (st, [ShowList ''alias''])
             else if sub = ''add'' then cmdAliasAdd rest st
             else if sub \<in> set [''del'', ''delete'', ''remove''] then cmdAliasDel rest st
             else (st, [Answer AliasUsage]))"

section \<open>/cron and /timer\<close>

definition cron_subs :: "string list" where
  "cron_subs = [''add'', ''addexec'', ''list'', ''exec'', ''run'', ''trigger'', ''del'', ''delete'', ''rm'', ''remove'',
                ''enable'', ''disable'', ''mute'', ''unmute'', ''setup'']"

definition cmdCronAdd :: "string list \<Rightarrow> action list" where
  "cmdCronAdd args =
     (if length args < 6 then [Answer (CronUsage ''add'')]
      else [AddCron (join '' '' (take 5 args)) (join '' '' (drop 5 args)) []])"

definition cmdCronAddExec :: "string \<Rightarrow> string list \<Rightarrow> 'j admission \<Rightarrow> action list" where
  "cmdCronAddExec userID args st =
     (if \<not> isAdmin userID st then [Answer (AdminRequired ''/cron addexec'')]
      else if length args < 6 then [Answer (CronUsage ''addexec'')]
      else [AddCron (join '' '' (take 5 args)) [] (join '' '' (drop 5 args))])"

definition cmdCronExec :: "string \<Rightarrow> string list \<Rightarrow> cron_store \<Rightarrow> 'j admission \<Rightarrow> action list" where
  "cmdCronExec userID args store st =
     (case args of
        [] \<Rightarrow> [Answer (CronUsage ''exec'')]
      | i # _ \<Rightarrow>
          (case cst_Get i store of
             None \<Rightarrow> [Answer (CronNotFound i)]
           | Some job \<Rightarrow> if cron_IsShellJob job \<and> \<not> isAdmin userID st then [Answer (AdminRequired ''/cron exec'')]
                         else [RunCron i]))"

definition cmdCron :: "string \<Rightarrow> string list \<Rightarrow> 'j admission \<Rightarrow> action list" where
  "cmdCron userID args st =
     (case ad_cron st of
        None \<Rightarrow> [Answer CronNotAvailable]
      | Some store \<Rightarrow>
          (case args of
             [] \<Rightarrow> [ShowList ''cron'']
           | a # rest \<Rightarrow>
               let sub = matchSubCommand (to_lower a) cron_subs
               in if sub = ''add'' then cmdCronAdd rest
                  else if sub = ''addexec'' then cmdCronAddExec userID rest st
                  else if sub = ''list'' then [ShowList ''cron'']
                  else if sub \<in> set [''exec'', ''run'', ''trigger''] then cmdCronExec userID rest store st
                  else if sub \<in> set [''del'', ''delete'', ''rm'', ''remove''] then [CronOp ''del'' rest]
                  else if sub \<in> set [''enable'', ''disable'', ''mute'', ''unmute'', ''setup''] then [CronOp sub rest]
                  else [Answer (CronUsage [])]))"

definition cmdTimerAdd :: "string list \<Rightarrow> action list" where
  "cmdTimerAdd args =
     (if length args < 2 then [Answer (TimerUsage ''add'')] else [AddTimer (args ! 0) (join '' '' (drop 1 args)) []])"

definition cmdTimerAddExec :: "string \<Rightarrow> string list \<Rightarrow> 'j admission \<Rightarrow> action list" where
  "cmdTimerAddExec userID args st =
     (if \<not> isAdmin userID st then [Answer (AdminRequired ''/timer addexec'')]
      else if length args < 2 then [Answer (TimerUsage ''addexec'')] else [AddTimer (args ! 0) [] (join '' '' (drop 1 args))])"

definition cmdTimer :: "string \<Rightarrow> string list \<Rightarrow> 'j admission \<Rightarrow> action list" where
  "cmdTimer userID args st =
     (if \<not> ad_timer st then [Answer TimerNotAvailable]
      else (case args of
             [] \<Rightarrow> [ShowList ''timer'']
           | a # rest \<Rightarrow>
               let sub = matchSubCommand (to_lower a)
                     [''add'', ''addexec'', ''list'', ''del'', ''delete'', ''rm'', ''remove'', ''mute'', ''unmute'']
               in if sub = ''add'' then cmdTimerAdd rest
                  else if sub = ''addexec'' then cmdTimerAddExec userID rest st
                  else if sub = ''list'' then [ShowList ''timer'']
                  else if sub \<in> set [''del'', ''delete'', ''rm'', ''remove''] then [TimerOp ''del'' rest]
                  else if sub \<in> set [''mute'', ''unmute''] then [TimerOp sub rest]
                  else [Answer (TimerUsage [])]))"

section \<open>Custom commands, skills, and the dispatch\<close>

definition executeCustomCommand :: "string \<Rightarrow> custom_command \<Rightarrow> string list \<Rightarrow> 'j admission \<Rightarrow> action list" where
  "executeCustomCommand userID cmd args st =
     (if cc_Exec cmd \<noteq> [] \<and> \<not> isAdmin userID st then [Answer (AdminRequired (CHR ''/'' # cc_Name cmd))]
      else if cc_Exec cmd \<noteq> [] then [RunShell (ExpandPrompt (cc_Exec cmd) args) (60 * second)]
      else [PromptAgent (ExpandPrompt (cc_Prompt cmd) args) None])"

definition executeSkill :: "skill \<Rightarrow> string list \<Rightarrow> action list" where
  "executeSkill sk args = [PromptAgent (BuildSkillInvocationPrompt sk args) (Some (sk_Name sk))]"

definition shell_action :: "string \<Rightarrow> action" where
  "shell_action raw = (case cmdShell raw of None \<Rightarrow> Answer ShellUsage | Some (c, t) \<Rightarrow> RunShell c t)"

text \<open>The handler of a built-in command.\<close>

definition run_builtin :: "file_system \<Rightarrow> string \<Rightarrow> string \<Rightarrow> string \<Rightarrow> string list \<Rightarrow> 'j admission \<Rightarrow> 'j admission \<times> action list" where
  "run_builtin fs userID raw cmdID args st =
     (if cmdID = ''commands'' then cmdCommands fs userID args st
      else if cmdID = ''alias'' then cmdAlias args st
      else if cmdID = ''cron'' then (st, cmdCron userID args st)
      else if cmdID = ''timer'' then (st, cmdTimer userID args st)
      else if cmdID = ''shell'' then (st, [shell_action raw])
      else if cmdID = ''workspace'' \<and> \<not> ad_multiWorkspace st then (st, [Answer WsNotEnabled])
      else (st, [RunBuiltin cmdID args]))"

text \<open>What is no built-in command: a custom command, a skill, or nothing the program knows.\<close>

definition run_extension :: "file_system \<Rightarrow> string \<Rightarrow> string \<Rightarrow> string list \<Rightarrow> 'j admission \<Rightarrow> 'j admission \<times> action list \<times> bool" where
  "run_extension fs userID cmd args st =
     (case cr_Resolve fs cmd (ad_commands st) of
        Some custom \<Rightarrow>
          (st, if is_disabled userID (to_lower (cc_Name custom)) st then [Answer (CommandDisabled (CHR ''/'' # cc_Name custom))]
               else executeCustomCommand userID custom args st, True)
      | None \<Rightarrow>
          let (r, found) = sr_Resolve fs cmd (ad_skills st); st' = st\<lparr>ad_skills := r\<rparr>
          in (case found of
                Some sk \<Rightarrow>
                  (st', if is_disabled userID (to_lower (sk_Name sk)) st then [Answer (CommandDisabled (CHR ''/'' # sk_Name sk))]
                        else executeSkill sk args, True)
              | None \<Rightarrow> (st', [Answer (UnknownCommand (CHR ''/'' # cmd))], False)))"

text \<open>The result tells whether the message was consumed; \<open>None\<close> is a panic on \<open>parts[0]\<close>.\<close>

definition handleCommand :: "file_system \<Rightarrow> string \<Rightarrow> string \<Rightarrow> 'j admission \<Rightarrow> ('j admission \<times> action list \<times> bool) option" where
  "handleCommand fs userID raw st =
     (case splitCommandArgs raw of
        [] \<Rightarrow> None
      | p # args \<Rightarrow>
          Some (let cmd = to_lower (trim_prefix p ''/''); cmdID = matchPrefix cmd builtinCommands
                in if cmdID \<noteq> [] \<and> is_disabled userID cmdID st then (st, [Answer (CommandDisabled (CHR ''/'' # cmdID))], True)
                   else if cmdID \<noteq> [] \<and> isPrivilegedCommandInvocation cmdID args \<and> \<not> isAdmin userID st
                   then (st, [Answer (AdminRequired (CHR ''/'' # cmdID))], True)
                   else if cmdID \<noteq> [] then (let (st', acts) = run_builtin fs userID raw cmdID args st in (st', acts, True))
                   else run_extension fs userID cmd args st))"

end
