(* ===== verification/MessageAdmission.thy ===== *)
theory MessageAdmission
  imports CommandDispatch
begin

text \<open>
  \<open>handleMessage\<close> of \<open>src/core/engine.go\<close> from the arrival of a message to the point where it is handed to a
  session (from there on, see \<open>TurnProtocol\<close>). A message the platform sends is a message with the fields that
  matter only here.
\<close>

record incoming = message +
  in_Recalled :: bool
  in_Audio :: bool
  in_ExtraContent :: string
  in_Location :: bool
  in_IsPermissionResponse :: bool

text \<open>
  What the calls around the handler answer: whether speech-to-text is set up, whether the agent accepts an
  answer to its request, and the steps of workspace resolution: the forced work directory of the session (and
  whether its agent can be made), the workspace of the channel (\<open>None\<close> is an error, empty is unbound), whether the
  init flow takes the message, and the effective workspace (\<open>None\<close> is an error).
\<close>

record surroundings =
  en_fs :: file_system
  en_speech :: bool
  en_agent_ok :: bool
  en_forcedWorkDir :: string
  en_forced_ok :: bool
  en_workspace :: "string option"
  en_init_takes :: bool
  en_effective :: "string option"

datatype destination = Done | ToRecall | ToSpeech | ToSession string message

section \<open>The steps\<close>

definition capitalized :: "string \<Rightarrow> string" where
  "capitalized s = (case runes s of [] \<Rightarrow> [] | r # rs \<Rightarrow> of_runes (hd (runes (to_upper (of_runes [r]))) # rs))"

text \<open>The message with the resolved content and the content that is looked at; \<open>None\<close> for an empty message.\<close>

definition message_empty :: "string \<Rightarrow> incoming \<Rightarrow> bool" where
  "message_empty content m \<longleftrightarrow>
     content = [] \<and> in_ExtraContent m = [] \<and> m_Images m = [] \<and> m_Files m = [] \<and> \<not> in_Location m"

definition merged_content :: "string \<Rightarrow> incoming \<Rightarrow> string" where
  "merged_content content m =
     (if in_ExtraContent m \<noteq> [] then (if content = [] then in_ExtraContent m else in_ExtraContent m @ newline # content)
      else content)"

definition resolve_workspace :: "surroundings \<Rightarrow> string \<Rightarrow> 'j admission \<Rightarrow> action list + string" where
  "resolve_workspace en content st =
     (if en_forcedWorkDir en \<noteq> [] then (if en_forced_ok en then Inr (en_forcedWorkDir en) else Inl [Answer WsFailed])
      else if ad_multiWorkspace st then
        (case en_workspace en of
           None \<Rightarrow> Inl [Answer WsFailed]
         | Some w \<Rightarrow>
             if w = [] then
               (if \<not> has_prefix content ''/workspace'' \<and> \<not> has_prefix content ''/ws '' \<and> en_init_takes en then Inl []
                else if \<not> has_prefix content ''/'' then Inl [] else Inr [])
             else (case en_effective en of None \<Rightarrow> Inl [Answer WsFailed] | Some eff \<Rightarrow> Inr eff))
      else Inr [])"

definition matchesPresetName :: "string \<Rightarrow> 'j admission \<Rightarrow> bool" where
  "matchesPresetName content st =
     (case ad_presets st of
        None \<Rightarrow> False
      | Some ps \<Rightarrow> trim_space content \<noteq> [] \<and> list_ex (\<lambda>p. equal_fold p (trim_space content)) ps)"

definition shortcut :: "string \<Rightarrow> 'j admission \<Rightarrow> string option" where
  "shortcut content st =
     (if equal_fold content ''stop'' then Some ''/stop''
      else if equal_fold content ''new session'' then Some ''/new''
      else if isInjectPrefix content then Some (''/inject '' @ extractInjectText content)
      else if isPsPrefix content then Some (''/ps '' @ extractPsText content)
      else if equal_fold content ''preset'' \<or> equal_fold content ''presets'' then Some ''/preset''
      else if matchesPresetName content st then Some (''/preset '' @ trim_space content)
      else None)"

text \<open>The \<open>!\<close> shell; \<open>None\<close> when there is no command after it.\<close>

definition bang_shell :: "string \<Rightarrow> string \<Rightarrow> 'j admission \<Rightarrow> action list option" where
  "bang_shell userID content st =
     (let shellCmd = trim_space (drop 1 content)
      in if shellCmd = [] then None
         else if is_disabled userID ''shell'' st then Some [Answer (CommandDisabled ''!'')]
         else if \<not> isAdmin userID st then Some [Answer (AdminRequired ''!'')]
         else Some [shell_action (''/shell '' @ shellCmd)])"

text \<open>The provider form: the new state, the actions, and whether the message was taken.\<close>

definition provider_of_form :: "provider_add \<Rightarrow> string \<Rightarrow> provider option option" where
  "provider_of_form pa content =
     (if pa_phase pa = ''preset'' then
        Some (if trim_space content = [] then None
              else Some \<lparr>pv_Name = pa_name pa, pv_APIKey = trim_space content, pv_BaseURL = pa_baseURL pa, pv_Model = pa_model pa,
                         pv_CodexWireAPI = pa_codexWireAPI pa, pv_CodexHTTPHeaders = pa_codexHTTPHeaders pa\<rparr>)
      else if pa_phase pa = ''other'' then
        Some (case GoStrings.fields content of
                n # k # rest \<Rightarrow> Some \<lparr>pv_Name = n, pv_APIKey = k, pv_BaseURL = (case rest of u # _ \<Rightarrow> u | [] \<Rightarrow> []),
                                      pv_Model = (case rest of u # m # _ \<Rightarrow> m | _ \<Rightarrow> []), pv_CodexWireAPI = [], pv_CodexHTTPHeaders = []\<rparr>
              | _ \<Rightarrow> None)
      else None)"

definition handlePendingProviderAdd :: "string \<Rightarrow> string \<Rightarrow> 'j admission \<Rightarrow> 'j admission \<times> action list \<times> bool" where
  "handlePendingProviderAdd content key st =
     (if has_prefix content ''/'' then (st, [], False)
      else (case mget (ad_pendingAdd st) key of
              None \<Rightarrow> (st, [], False)
            | Some pa \<Rightarrow>
                let st' = st\<lparr>ad_pendingAdd := mdel key (ad_pendingAdd st)\<rparr>
                in (case ad_providers st of
                      None \<Rightarrow> (st', [], False)
                    | Some ps \<Rightarrow>
                        (case provider_of_form pa content of
                           None \<Rightarrow> (st', [], False)
                         | Some None \<Rightarrow> (st', [Answer ProviderUsage], True)
                         | Some (Some prov) \<Rightarrow>
                             if list_ex (\<lambda>q. pv_Name q = pv_Name prov) ps then (st', [Answer (ProviderExists (pv_Name prov))], True)
                             else (st'\<lparr>ad_providers := Some (ps @ [prov])\<rparr>,
                                   [SaveProvider prov, Answer (ProviderAdded (pv_Name prov))], True)))))"

section \<open>The handler\<close>

text \<open>From the permission answer on: \<open>content\<close> is what is looked at, the message carries what an agent would get.\<close>

definition after_commands :: "surroundings \<Rightarrow> string \<Rightarrow> string \<Rightarrow> incoming \<Rightarrow> action list \<Rightarrow> 'j admission \<Rightarrow> ('j admission \<times> action list \<times> destination) option" where
  "after_commands en key content m acts st =
     (case handlePendingPermission (en_agent_ok en) (in_IsPermissionResponse m) content key (ad_perm st) of
        None \<Rightarrow> None
      | Some (perm, True) \<Rightarrow> Some (st\<lparr>ad_perm := perm\<rparr>, acts, Done)
      | Some (perm, False) \<Rightarrow>
          Some (let st1 = st\<lparr>ad_perm := perm\<rparr>;
                    bang = (if m_Images m = [] \<and> has_prefix content ''!'' then bang_shell (m_UserID m) content st1 else None)
                in case bang of
                     Some as \<Rightarrow> (st1, acts @ as, Done)
                   | None \<Rightarrow>
                       let (st2, as, taken) = handlePendingProviderAdd content key st1
                       in (st2, acts @ as, if taken then Done else ToSession key (message.truncate m))))"

definition with_workspace :: "surroundings \<Rightarrow> string \<Rightarrow> string \<Rightarrow> incoming \<Rightarrow> action list \<Rightarrow> 'j admission \<Rightarrow> ('j admission \<times> action list \<times> destination) option" where
  "with_workspace en workspace content0 m0 acts st =
     (let sc = (if m_Images m0 = [] then shortcut content0 st else None);
          content = (case sc of Some c \<Rightarrow> c | None \<Rightarrow> content0);
          m = (case sc of Some c \<Rightarrow> m0\<lparr>m_Content := c\<rparr> | None \<Rightarrow> m0);
          key = (if workspace \<noteq> [] then workspace @ CHR '':'' # m_SessionKey m else m_SessionKey m)
      in if m_Images m = [] \<and> has_prefix content ''/'' then
           (case handleCommand (en_fs en) (m_UserID m) content st of
              None \<Rightarrow> None
            | Some (st', as, True) \<Rightarrow> Some (st', acts @ as, Done)
            | Some (st', as, False) \<Rightarrow> after_commands en key content m (acts @ as) st')
         else after_commands en key content m acts st)"

definition handleMessage :: "int \<Rightarrow> surroundings \<Rightarrow> incoming \<Rightarrow> 'j admission \<Rightarrow> ('j admission \<times> action list \<times> destination) option" where
  "handleMessage now en m0 st0 =
     (if in_Recalled m0 then Some (st0, [], ToRecall)
      else if in_Audio m0 \<and> en_speech en then Some (st0, [], ToSpeech)
      else if in_Audio m0 \<and> m_Content m0 = [] then Some (st0, [Answer VoiceNotEnabled], Done)
      else
        let acts = (if in_Audio m0 \<and> m_FromVoice m0 \<and> m_Platform m0 \<noteq> [] then [Answer (VoiceRecognised (capitalized (m_Platform m0)))] else []);
            content0 = trim_space (m_Content m0)
        in if message_empty content0 m0 then Some (st0, acts, Done)
           else
             let content = resolveAlias content0 st0;
                 m = m0\<lparr>m_Content := merged_content content m0\<rparr>;
                 (st, ok) = checkRateLimit now (m_UserID m) (m_SessionKey m) st0
             in if \<not> ok then Some (st, acts @ [Answer RateLimited], Done)
                else if \<not> has_prefix content ''/'' \<and> \<not> has_prefix content ''!'' \<and> matchBannedWord content st \<noteq> None
                then Some (st, acts @ [Answer BannedWordBlocked], Done)
                else (case resolve_workspace en content st of
                        Inl as \<Rightarrow> Some (st, acts @ as, Done)
                      | Inr workspace \<Rightarrow> with_workspace en workspace content m acts st))"

end
