(* ===== verification/AdmissionSafety.thy ===== *)
theory AdmissionSafety
  imports MessageAdmission
begin

text \<open>
  What the admission of messages guarantees: who may start a shell, what a disabled command does, and which
  texts reach an agent. The proofs follow the handlers from the bottom: which part of the state each of them
  may change, and which actions it may take.
\<close>

section \<open>What the policies read\<close>

text \<open>Two states that agree on everything the policies of a user depend on.\<close>

definition same_rules :: "'j admission \<Rightarrow> 'j admission \<Rightarrow> bool" where
  "same_rules st st' \<longleftrightarrow> ad_adminFrom st' = ad_adminFrom st \<and> ad_disabledCmds st' = ad_disabledCmds st \<and>
     (\<forall>u. ResolveRole u (ad_userRoles st') = ResolveRole u (ad_userRoles st)) \<and>
     ad_cron st' = ad_cron st \<and> ad_bannedWords st' = ad_bannedWords st"

lemma same_rules_refl [simp]: "same_rules st st"
  by (simp add: same_rules_def)

lemma same_rules_trans: "same_rules a b \<Longrightarrow> same_rules b c \<Longrightarrow> same_rules a c"
  by (simp add: same_rules_def)

lemma same_rules_admin: "same_rules st st' \<Longrightarrow> isAdmin u st' = isAdmin u st"
  by (simp add: same_rules_def isAdmin_def)

lemma same_rules_disabled: "same_rules st st' \<Longrightarrow> disabled_for u st' = disabled_for u st"
  by (simp add: same_rules_def disabled_for_def split: option.splits)

lemma same_rules_banned: "same_rules st st' \<Longrightarrow> matchBannedWord c st' = matchBannedWord c st"
  by (simp add: same_rules_def matchBannedWord_def)

lemma checkRateLimit_rules:
  assumes "checkRateLimit now u k st = (st', ok)"
  shows "same_rules st st'" "ad_commands st' = ad_commands st" "ad_aliases st' = ad_aliases st" "ad_perm st' = ad_perm st"
    "ad_pendingAdd st' = ad_pendingAdd st" "ad_multiWorkspace st' = ad_multiWorkspace st"
proof -
  obtain m a h where r: "(if ad_userRoles st \<noteq> None then AllowRate now (if u = [] then k else u) (ad_userRoles st)
      else (None, True, False)) = (m, a, h)" by (metis prod_cases3)
  have m: "ResolveRole v m = ResolveRole v (ad_userRoles st)" for v
  proof (cases "ad_userRoles st")
    case None
    then show ?thesis using r by simp
  next
    case (Some mgr)
    then obtain m1 where "m = Some m1" "same_policy mgr m1" using r AllowRate_policy by (metis option.distinct(1))
    then show ?thesis using Some same_policy_resolve by simp
  qed
  have "same_rules st st' \<and> ad_commands st' = ad_commands st \<and> ad_aliases st' = ad_aliases st \<and> ad_perm st' = ad_perm st \<and>
      ad_pendingAdd st' = ad_pendingAdd st \<and> ad_multiWorkspace st' = ad_multiWorkspace st"
    using assms m unfolding checkRateLimit_def Let_def r
    by (auto simp: same_rules_def split: if_splits option.splits prod.splits)
  then show "same_rules st st'" "ad_commands st' = ad_commands st" "ad_aliases st' = ad_aliases st" "ad_perm st' = ad_perm st"
    "ad_pendingAdd st' = ad_pendingAdd st" "ad_multiWorkspace st' = ad_multiWorkspace st"
    by simp_all
qed

section \<open>Actions that need an administrator\<close>

definition harmless :: "'j admission \<Rightarrow> action \<Rightarrow> bool" where
  "harmless st a =
     (case a of
        RunShell c t \<Rightarrow> False
      | RunBuiltin i args \<Rightarrow> i \<notin> set privilegedCommands
      | SaveCommand c \<Rightarrow> cc_Exec c = []
      | AddCron e p x \<Rightarrow> x = []
      | AddTimer d p x \<Rightarrow> x = []
      | RunCron i \<Rightarrow> (\<forall>s j. ad_cron st = Some s \<and> cst_Get i s = Some j \<longrightarrow> \<not> cron_IsShellJob j)
      | _ \<Rightarrow> True)"

lemma harmless_same: "same_rules st st' \<Longrightarrow> harmless st' a = harmless st a"
  by (cases a) (simp_all add: harmless_def same_rules_def)

text \<open>No command that runs a shell is registered anew.\<close>

definition no_new_exec :: "'j admission \<Rightarrow> 'j admission \<Rightarrow> bool" where
  "no_new_exec st st' \<longleftrightarrow> (\<forall>k c. mget (cr_commands (ad_commands st')) k = Some c \<and> cc_Exec c \<noteq> [] \<longrightarrow>
     mget (cr_commands (ad_commands st)) k = Some c)"

lemma no_new_exec_same: "ad_commands st' = ad_commands st \<Longrightarrow> no_new_exec st st'"
  by (simp add: no_new_exec_def)

lemma no_new_exec_trans: "no_new_exec a b \<Longrightarrow> no_new_exec b c \<Longrightarrow> no_new_exec a c"
  by (simp add: no_new_exec_def)

definition stays_harmless :: "'j admission \<Rightarrow> 'j admission \<times> action list \<Rightarrow> bool" where
  "stays_harmless st r \<longleftrightarrow> same_rules st (fst r) \<and> no_new_exec st (fst r) \<and> list_all (harmless st) (snd r)"

lemmas harmless_defs = stays_harmless_def harmless_def no_new_exec_same same_rules_def

lemma commands_harmless: "\<not> isAdmin u st \<Longrightarrow> stays_harmless st (cmdCommands fs u args st)"
proof -
  assume na: "\<not> isAdmin u st"
  have add: "stays_harmless st (cmdCommandsAdd fs rest st)" for rest
    by (auto simp: cmdCommandsAdd_def Let_def harmless_defs no_new_exec_def cr_Add_def gomap split: if_splits)
  have addexec: "stays_harmless st (cmdCommandsAddExec fs u rest st)" for rest
    using na by (simp add: cmdCommandsAddExec_def harmless_defs)
  have del: "stays_harmless st (cmdCommandsDel rest st)" for rest
    by (cases rest) (auto simp: cmdCommandsDel_def cr_Remove_def Let_def harmless_defs no_new_exec_def gomap split: if_splits)
  show ?thesis
    using add addexec del by (cases args) (simp_all add: cmdCommands_def Let_def, simp_all add: harmless_defs)
qed

lemma alias_harmless: "stays_harmless st (cmdAlias args st)"
  by (auto simp: cmdAlias_def cmdAliasAdd_def cmdAliasDel_def AddAlias_def Let_def harmless_defs split: list.splits)

lemma cron_harmless: "\<not> isAdmin u st \<Longrightarrow> list_all (harmless st) (cmdCron u args st)"
  by (auto simp: cmdCron_def cmdCronAdd_def cmdCronAddExec_def cmdCronExec_def Let_def harmless_def split: option.splits list.splits)

lemma timer_harmless: "\<not> isAdmin u st \<Longrightarrow> list_all (harmless st) (cmdTimer u args st)"
  by (auto simp: cmdTimer_def cmdTimerAdd_def cmdTimerAddExec_def Let_def harmless_def split: list.splits)

lemma builtin_harmless:
  assumes "\<not> isAdmin u st" "i \<notin> set privilegedCommands"
  shows "stays_harmless st (run_builtin fs u raw i args st)"
proof -
  have "i \<noteq> ''shell''" using assms(2) by (auto simp: privilegedCommands_def)
  then show ?thesis
    using assms commands_harmless [OF assms(1), of fs args] alias_harmless [of st args]
      cron_harmless [OF assms(1), of args] timer_harmless [OF assms(1), of args]
    by (simp add: run_builtin_def) (simp add: harmless_defs)
qed

lemma extension_harmless:
  assumes "\<not> isAdmin u st" "run_extension fs u cmd args st = (st', acts, b)"
  shows "stays_harmless st (st', acts)"
  using assms
  by (auto simp: run_extension_def executeCustomCommand_def executeSkill_def Let_def harmless_defs
      split: option.splits if_splits prod.splits)

lemma command_harmless:
  assumes "\<not> isAdmin u st" "handleCommand fs u raw st = Some (st', acts, b)"
  shows "stays_harmless st (st', acts)"
proof -
  obtain p args where s: "splitCommandArgs raw = p # args" using assms(2) by (auto simp: handleCommand_def split: list.splits)
  let ?cmd = "to_lower (trim_prefix p ''/'')"
  let ?i = "matchPrefix ?cmd builtinCommands"
  consider (answered) "st' = st" "\<exists>x. acts = [Answer x]"
    | (builtin) "?i \<notin> set privilegedCommands" "run_builtin fs u raw ?i args st = (st', acts)"
    | (other) "run_extension fs u ?cmd args st = (st', acts, b)"
    using assms s by (auto simp: handleCommand_def Let_def isPrivilegedCommandInvocation_def split: if_splits prod.splits)
  then show ?thesis
  proof cases
    case answered
    then show ?thesis by (auto simp: harmless_defs)
  next
    case builtin
    then show ?thesis using builtin_harmless [OF assms(1) builtin(1), of fs raw args] by simp
  next
    case other
    then show ?thesis using extension_harmless assms(1) by metis
  qed
qed

section \<open>The shape of a run of the handler\<close>

text \<open>Actions without an owner and without consequences, and states that differ only in what needs no right.\<close>

definition mild :: "action \<Rightarrow> bool" where
  "mild a = (case a of Answer x \<Rightarrow> True | SaveProvider p \<Rightarrow> True | _ \<Rightarrow> False)"

definition same_front :: "'j admission \<Rightarrow> 'j admission \<Rightarrow> bool" where
  "same_front st st' \<longleftrightarrow> same_rules st st' \<and> ad_commands st' = ad_commands st \<and> ad_aliases st' = ad_aliases st"

lemma same_front_rules: "same_front st st' \<Longrightarrow> same_rules st st'"
  by (simp add: same_front_def)

lemma same_front_exec: "same_front st st' \<Longrightarrow> no_new_exec st st'"
  by (simp add: same_front_def no_new_exec_same)

lemma provider_form_shape:
  assumes "handlePendingProviderAdd content key st = (st', as, taken)"
  shows "same_front st st' \<and> list_all mild as"
  using assms by (auto simp: handlePendingProviderAdd_def Let_def same_front_def same_rules_def mild_def split: if_splits option.splits)

lemma bang_shape:
  assumes "bang_shell u content st = Some as"
  shows "list_all mild as \<or> (isAdmin u st \<and> \<not> is_disabled u ''shell'' st \<and> (\<exists>c. as = [shell_action c]))"
  using assms by (auto simp: bang_shell_def Let_def mild_def split: if_splits)

lemma after_commands_shape:
  assumes "after_commands en key content m acts st = Some (st', acts', dest)"
  shows "\<exists>as. acts' = acts @ as \<and> same_front st st' \<and>
     (list_all mild as \<or> (isAdmin (m_UserID m) st \<and> \<not> is_disabled (m_UserID m) ''shell'' st \<and> (\<exists>c. as = [shell_action c]))) \<and>
     (dest = Done \<or> dest = ToSession key (message.truncate m))"
proof -
  obtain perm b where pb: "handlePendingPermission (en_agent_ok en) (in_IsPermissionResponse m) content key (ad_perm st) = Some (perm, b)"
    using assms by (auto simp: after_commands_def split: option.splits)
  let ?st = "st\<lparr>ad_perm := perm\<rparr>"
  have r: "same_front st ?st" by (simp add: same_front_def same_rules_def)
  note sr = same_front_rules [OF r]
  show ?thesis
  proof (cases b)
    case True
    then show ?thesis using assms pb r by (simp add: after_commands_def)
  next
    case False
    let ?bang = "if m_Images m = [] \<and> has_prefix content ''!'' then bang_shell (m_UserID m) content ?st else None"
    show ?thesis
    proof (cases ?bang)
      case (Some as)
      then have "bang_shell (m_UserID m) content ?st = Some as" by (simp split: if_splits)
      note sh = bang_shape [OF this]
      have "acts' = acts @ as" "st' = ?st" "dest = Done"
        using assms pb False Some by (simp_all add: after_commands_def Let_def)
      then show ?thesis using sh r by (simp add: same_rules_admin [OF sr] same_rules_disabled [OF sr])
    next
      case None
      obtain st2 as taken where f: "handlePendingProviderAdd content key ?st = (st2, as, taken)" by (metis prod_cases3)
      have "acts' = acts @ as" "st' = st2" "dest = Done \<or> dest = ToSession key (message.truncate m)"
        using assms pb False None f by (cases taken; auto simp: after_commands_def Let_def)+
      then show ?thesis using provider_form_shape [OF f] r by (auto simp: same_front_def same_rules_def)
    qed
  qed
qed

text \<open>The state after the shortcut and the slash command, and the actions of the command.\<close>

definition command_part :: "surroundings \<Rightarrow> string \<Rightarrow> 'j admission \<Rightarrow> 'j admission \<Rightarrow> action list \<Rightarrow> bool" where
  "command_part en u st st1 as \<longleftrightarrow> (st1 = st \<and> as = []) \<or> (\<exists>raw b. handleCommand (en_fs en) u raw st = Some (st1, as, b))"

lemma with_workspace_shape:
  assumes "with_workspace en ws content m acts st = Some (st', acts', dest)"
  shows "\<exists>st1 as1 as2. acts' = acts @ as1 @ as2 \<and> command_part en (m_UserID m) st st1 as1 \<and> same_front st1 st' \<and>
     (list_all mild as2 \<or> (isAdmin (m_UserID m) st1 \<and> \<not> is_disabled (m_UserID m) ''shell'' st1 \<and> (\<exists>c. as2 = [shell_action c])))"
proof -
  define sc where "sc = (if m_Images m = [] then shortcut content st else None)"
  define c where "c = (case sc of Some c \<Rightarrow> c | None \<Rightarrow> content)"
  define m' where "m' = (case sc of Some c \<Rightarrow> m\<lparr>m_Content := c\<rparr> | None \<Rightarrow> m)"
  define key where "key = (if ws \<noteq> [] then ws @ CHR '':'' # m_SessionKey m' else m_SessionKey m')"
  have u: "m_UserID m' = m_UserID m" by (simp add: m'_def split: option.splits)
  have eq: "with_workspace en ws content m acts st =
      (if m_Images m' = [] \<and> has_prefix c ''/'' then
         (case handleCommand (en_fs en) (m_UserID m') c st of None \<Rightarrow> None
          | Some (st', as, True) \<Rightarrow> Some (st', acts @ as, Done)
          | Some (st', as, False) \<Rightarrow> after_commands en key c m' (acts @ as) st')
       else after_commands en key c m' acts st)"
    unfolding with_workspace_def Let_def sc_def [symmetric] c_def [symmetric] m'_def [symmetric] key_def [symmetric] ..
  show ?thesis
  proof (cases "m_Images m' = [] \<and> has_prefix c ''/''")
    case False
    have "after_commands en key c m' acts st = Some (st', acts', dest)" using assms unfolding eq if_not_P [OF False] .
    from after_commands_shape [OF this] obtain as where as: "acts' = acts @ as" "same_front st st'"
        "list_all mild as \<or> (isAdmin (m_UserID m) st \<and> \<not> is_disabled (m_UserID m) ''shell'' st \<and> (\<exists>c. as = [shell_action c]))"
      unfolding u by blast
    show ?thesis by (intro exI [of _ st] exI [of _ "[]"] exI [of _ as] conjI) (use as in \<open>simp_all add: command_part_def\<close>)
  next
    case True
    have eq': "with_workspace en ws content m acts st =
         (case handleCommand (en_fs en) (m_UserID m) c st of None \<Rightarrow> None
          | Some (st', as, True) \<Rightarrow> Some (st', acts @ as, Done)
          | Some (st', as, False) \<Rightarrow> after_commands en key c m' (acts @ as) st')"
      unfolding eq if_P [OF True] u ..
    then obtain st1 as b where hc: "handleCommand (en_fs en) (m_UserID m) c st = Some (st1, as, b)"
      using assms by (auto split: option.splits)
    then have cp: "command_part en (m_UserID m) st st1 as" by (auto simp: command_part_def)
    show ?thesis
    proof (cases b)
      case True
      then have "st' = st1" "acts' = acts @ as" using assms eq' hc by simp_all
      then show ?thesis using cp by (intro exI [of _ st1] exI [of _ as] exI [of _ "[]"]) (simp add: same_front_def)
    next
      case False
      then have "after_commands en key c m' (acts @ as) st1 = Some (st', acts', dest)"
        using assms eq' hc by simp
      from after_commands_shape [OF this] obtain as2 where as2: "acts' = (acts @ as) @ as2" "same_front st1 st'"
          "list_all mild as2 \<or> (isAdmin (m_UserID m) st1 \<and> \<not> is_disabled (m_UserID m) ''shell'' st1 \<and> (\<exists>c. as2 = [shell_action c]))"
        unfolding u by blast
      show ?thesis by (intro exI [of _ st1] exI [of _ as] exI [of _ as2] conjI) (use as2 cp in simp_all)
    qed
  qed
qed

lemma handleMessage_shape:
  assumes "handleMessage now en m st = Some (st', acts, dest)"
  obtains (early) "same_front st st'" "list_all mild acts" "\<And>k x. dest \<noteq> ToSession k x"
  | (passed) content st1 ws acts0 where
      "content = resolveAlias (trim_space (m_Content m)) st" "same_front st st1" "list_all mild acts0"
      "has_prefix content ''/'' \<or> has_prefix content ''!'' \<or> matchBannedWord content st = None"
      "with_workspace en ws content (m\<lparr>m_Content := merged_content content m\<rparr>) acts0 st1 = Some (st', acts, dest)"
proof -
  define acts0 where "acts0 = (if in_Audio m \<and> m_FromVoice m \<and> m_Platform m \<noteq> [] then [Answer (VoiceRecognised (capitalized (m_Platform m)))] else [])"
  define content where "content = resolveAlias (trim_space (m_Content m)) st"
  obtain st1 ok where rl: "checkRateLimit now (m_UserID m) (m_SessionKey m) st = (st1, ok)" by fastforce
  note rules = checkRateLimit_rules [OF rl]
  have front: "same_front st st1" using rules by (simp add: same_front_def)
  have mild0: "list_all mild acts0" by (simp add: acts0_def mild_def)
  note banned = same_rules_banned [OF rules(1)]
  have ws_mild: "list_all mild as" if "resolve_workspace en content st1 = Inl as" for as
    using that by (auto simp: resolve_workspace_def mild_def split: if_splits option.splits)
  have eq: "handleMessage now en m st =
     (if in_Recalled m then Some (st, [], ToRecall)
      else if in_Audio m \<and> en_speech en then Some (st, [], ToSpeech)
      else if in_Audio m \<and> m_Content m = [] then Some (st, [Answer VoiceNotEnabled], Done)
      else if message_empty (trim_space (m_Content m)) m then Some (st, acts0, Done)
      else if \<not> ok then Some (st1, acts0 @ [Answer RateLimited], Done)
      else if \<not> has_prefix content ''/'' \<and> \<not> has_prefix content ''!'' \<and> matchBannedWord content st1 \<noteq> None
           then Some (st1, acts0 @ [Answer BannedWordBlocked], Done)
      else (case resolve_workspace en content st1 of
              Inl as \<Rightarrow> Some (st1, acts0 @ as, Done)
            | Inr ws \<Rightarrow> with_workspace en ws content (m\<lparr>m_Content := merged_content content m\<rparr>) acts0 st1))"
    unfolding handleMessage_def Let_def acts0_def [symmetric] content_def [symmetric] by (simp add: rl)
  show ?thesis
  proof (cases "in_Recalled m \<or> (in_Audio m \<and> (en_speech en \<or> m_Content m = [])) \<or> message_empty (trim_space (m_Content m)) m
      \<or> \<not> ok \<or> (\<not> has_prefix content ''/'' \<and> \<not> has_prefix content ''!'' \<and> matchBannedWord content st1 \<noteq> None)
      \<or> (\<exists>as. resolve_workspace en content st1 = Inl as)")
    case True
    then show ?thesis using assms eq front mild0 ws_mild
      by (intro early) (auto simp: mild_def same_front_def split: if_splits)
  next
    case False
    then obtain ws where ws: "resolve_workspace en content st1 = Inr ws" by (cases "resolve_workspace en content st1") auto
    then have "with_workspace en ws content (m\<lparr>m_Content := merged_content content m\<rparr>) acts0 st1 = Some (st', acts, dest)"
      using assms eq False by (auto split: if_splits)
    then show ?thesis using False front mild0 banned by (intro passed [of content]) (auto simp: content_def)
  qed
qed

section \<open>The command an action belongs to\<close>

definition owner :: "action \<Rightarrow> string option" where
  "owner a =
     (case a of
        RunBuiltin i args \<Rightarrow> Some i
      | ShowList i \<Rightarrow> Some i
      | SaveCommand c \<Rightarrow> Some ''commands'' | DropCommand n \<Rightarrow> Some ''commands''
      | SaveAlias n c \<Rightarrow> Some ''alias'' | DropAlias n \<Rightarrow> Some ''alias''
      | AddCron e p x \<Rightarrow> Some ''cron'' | RunCron i \<Rightarrow> Some ''cron'' | CronOp i args \<Rightarrow> Some ''cron''
      | AddTimer d p x \<Rightarrow> Some ''timer'' | TimerOp i args \<Rightarrow> Some ''timer''
      | _ \<Rightarrow> None)"

definition owned_by :: "string \<Rightarrow> action list \<Rightarrow> bool" where
  "owned_by i acts \<longleftrightarrow> list_all (\<lambda>a. owner a = None \<or> owner a = Some i) acts"

lemmas owner_defs = owned_by_def owner_def

lemma commands_owned: "owned_by ''commands'' (snd (cmdCommands fs u args st))"
  by (auto simp: cmdCommands_def cmdCommandsAdd_def cmdCommandsAddExec_def cmdCommandsDel_def Let_def owner_defs
      split: list.splits prod.splits)

lemma alias_owned: "owned_by ''alias'' (snd (cmdAlias args st))"
  by (auto simp: cmdAlias_def cmdAliasAdd_def cmdAliasDel_def Let_def owner_defs split: list.splits)

lemma cron_owned: "owned_by ''cron'' (cmdCron u args st)"
  by (auto simp: cmdCron_def cmdCronAdd_def cmdCronAddExec_def cmdCronExec_def Let_def owner_defs split: option.splits list.splits)

lemma timer_owned: "owned_by ''timer'' (cmdTimer u args st)"
  by (auto simp: cmdTimer_def cmdTimerAdd_def cmdTimerAddExec_def Let_def owner_defs split: list.splits)

lemma builtin_owned: "owned_by i (snd (run_builtin fs u raw i args st))"
  using commands_owned [of fs u args st] alias_owned [of args st] cron_owned [of u args st] timer_owned [of u args st]
  by (simp add: run_builtin_def) (simp add: owner_defs shell_action_def split: option.splits)

lemma extension_owned:
  assumes "run_extension fs u cmd args st = (st', acts, b)"
  shows "list_all (\<lambda>a. owner a = None) acts"
  using assms
  by (auto simp: run_extension_def executeCustomCommand_def executeSkill_def Let_def owner_def
      split: option.splits if_splits prod.splits)

lemma command_owned:
  assumes "handleCommand fs u raw st = Some (st', acts, b)" "a \<in> set acts" "owner a = Some i"
  shows "\<not> is_disabled u i st"
proof -
  obtain p args where s: "splitCommandArgs raw = p # args" using assms(1) by (auto simp: handleCommand_def split: list.splits)
  let ?cmd = "to_lower (trim_prefix p ''/'')"
  let ?i = "matchPrefix ?cmd builtinCommands"
  consider (answered) "\<exists>x. acts = [Answer x]"
    | (builtin) "\<not> is_disabled u ?i st" "run_builtin fs u raw ?i args st = (st', acts)"
    | (other) "run_extension fs u ?cmd args st = (st', acts, b)"
    using assms(1) s by (auto simp: handleCommand_def Let_def split: if_splits prod.splits)
  then show ?thesis
  proof cases
    case answered
    then show ?thesis using assms(2,3) by (auto simp: owner_def)
  next
    case builtin
    then have "owned_by ?i acts" using builtin_owned [of ?i fs u raw args st] by simp
    then have "i = ?i" using assms(2,3) by (auto simp: owned_by_def list_all_iff)
    then show ?thesis using builtin(1) by simp
  next
    case other
    then show ?thesis using extension_owned [OF other] assms(2,3) by (auto simp: list_all_iff)
  qed
qed

lemma command_part_harmless:
  assumes "\<not> isAdmin u st" "command_part en u st st1 as"
  shows "stays_harmless st (st1, as)"
proof (cases "st1 = st \<and> as = []")
  case True
  then show ?thesis by (simp add: stays_harmless_def no_new_exec_same)
next
  case False
  then obtain raw b where "handleCommand (en_fs en) u raw st = Some (st1, as, b)" using assms(2) by (auto simp: command_part_def)
  with assms(1) show ?thesis by (rule command_harmless)
qed

lemma command_part_owned:
  assumes "command_part en u st st1 as" "a \<in> set as" "owner a = Some c"
  shows "\<not> is_disabled u c st"
proof -
  obtain raw b where "handleCommand (en_fs en) u raw st = Some (st1, as, b)" using assms(1,2) by (auto simp: command_part_def)
  then show ?thesis using assms(2,3) by (rule command_owned)
qed

lemma mild_harmless: "mild a \<Longrightarrow> harmless st a"
  by (cases a) (simp_all add: mild_def harmless_def)

lemma mild_owner: "mild a \<Longrightarrow> owner a = None"
  by (cases a) (simp_all add: mild_def owner_def)

lemma owner_shell_action [simp]: "owner (shell_action c) = None"
  by (simp add: shell_action_def owner_def split: option.splits)

text \<open>A built-in command that is neither disabled nor refused runs its handler.\<close>

lemma handle_builtin:
  assumes "splitCommandArgs raw = p # args" "matchPrefix (to_lower (trim_prefix p ''/'')) builtinCommands = i" "i \<noteq> []"
    and "\<not> is_disabled u i st" "\<not> isPrivilegedCommandInvocation i args \<or> isAdmin u st"
    and "run_builtin fs u raw i args st = (st', acts)"
  shows "handleCommand fs u raw st = Some (st', acts, True)"
  using assms by (auto simp: handleCommand_def Let_def)

section \<open>A state and a message to try the theorems on\<close>

definition no_files :: file_system where
  "no_files = \<lparr>fs_read_file = (\<lambda>_. None), fs_read_dir = (\<lambda>_. None), fs_cwd = Some ''/srv''\<rparr>"

definition plain_surroundings :: surroundings where
  "plain_surroundings =
     \<lparr>en_fs = no_files, en_speech = False, en_agent_ok = True, en_forcedWorkDir = [], en_forced_ok = True,
      en_workspace = Some [], en_init_takes = False, en_effective = Some []\<rparr>"

definition sample_state :: "unit admission" where
  "sample_state =
     \<lparr>ad_aliases = [], ad_bannedWords = [''secret''], ad_disabledCmds = [(''cron'', True)], ad_userRoles = None,
      ad_adminFrom = ''boss'', ad_rateLimiter = None, ad_commands = NewCommandRegistry, ad_skills = NewSkillRegistry,
      ad_presets = None, ad_multiWorkspace = False, ad_cron = None, ad_timer = False, ad_providers = None,
      ad_pendingAdd = [], ad_perm = \<lparr>pe_states = [], pe_perms = [], pe_out = []\<rparr>\<rparr>"

definition sample_message :: "string \<Rightarrow> string \<Rightarrow> incoming" where
  "sample_message user content =
     \<lparr>m_SessionKey = ''tg:1'', m_Platform = ''telegram'', m_MessageID = ''m1'', m_UserID = user, m_UserName = user,
      m_ChatName = [], m_Content = content, m_Images = [], m_Files = [], m_ChannelKey = [], m_ReplyCtx = [],
      m_FromVoice = False, m_UserMessageTimeMs = 0, in_Recalled = False, in_Audio = False, in_ExtraContent = [],
      in_Location = False, in_IsPermissionResponse = False\<rparr>"

lemma sample_alias [simp]: "resolveAlias w sample_state = w"
  by (simp add: resolveAlias_def sample_state_def split: list.splits)

lemma sample_run:
  assumes "ascii_word w"
  shows "handleMessage 0 plain_surroundings (sample_message u w) sample_state =
    (if \<not> has_prefix w ''/'' \<and> \<not> has_prefix w ''!'' \<and> contains (to_lower w) ''secret''
     then Some (sample_state, [Answer BannedWordBlocked], Done)
     else with_workspace plain_surroundings [] w (sample_message u w) [] sample_state)"
proof -
  have ne: "w \<noteq> []" using assms by (simp add: ascii_word_def)
  have rl: "checkRateLimit 0 u ''tg:1'' sample_state = (sample_state, True)"
    by (simp add: checkRateLimit_def sample_state_def Let_def)
  have bw: "matchBannedWord w sample_state \<noteq> None \<longleftrightarrow> contains (to_lower w) ''secret''"
    by (simp add: matchBannedWord_def sample_state_def)
  have rw: "resolve_workspace plain_surroundings w sample_state = Inr []"
    by (simp add: resolve_workspace_def plain_surroundings_def sample_state_def)
  have mc: "(sample_message u w)\<lparr>m_Content := merged_content w (sample_message u w)\<rparr> = sample_message u w"
    by (simp add: merged_content_def sample_message_def)
  have flags: "\<not> in_Recalled (sample_message u w)" "\<not> in_Audio (sample_message u w)" "m_Content (sample_message u w) = w"
    "m_UserID (sample_message u w) = u" "m_SessionKey (sample_message u w) = ''tg:1''" "\<not> message_empty w (sample_message u w)"
    using ne by (simp_all add: sample_message_def message_empty_def)
  show ?thesis
    unfolding handleMessage_def Let_def
    by (simp only: flags trim_space_word [OF assms] sample_alias mc rl bw prod.case rw sum.case append_Nil not_True_eq_False if_False simp_thms split: if_split)
qed

lemma sample_shortcut:
  assumes "ascii_word w" "to_lower w \<notin> set [''stop'', ''preset'', ''presets'']" "CHR '':'' \<notin> set w"
  shows "shortcut w sample_state = None"
proof -
  have low_mem: "d \<in> set w" if "d \<in> set (to_lower w)" "\<not> (97 \<le> byte d \<and> byte d \<le> 122)" for d
    using that lower_byte_other by (fastforce simp: to_lower_def)
  have "CHR '':'' \<notin> set (to_lower w)" using low_mem [of "CHR '':''"] assms(3) by (auto simp: byte_def)
  then have p: "\<not> has_prefix (to_lower w) ''inject:''" "\<not> has_prefix (to_lower w) ''ps:''"
    unfolding has_prefix_def by (metis in_set_takeD list.set_intros)+
  have "CHR '' '' \<notin> set w" using assms(1) by (auto simp: ascii_word_def list_all_iff byte_def)
  then have "CHR '' '' \<notin> set (to_lower w)" using low_mem [of "CHR '' ''"] by (auto simp: byte_def)
  then have q: "to_lower w \<noteq> ''new session''" by auto
  have low: "to_lower ''stop'' = ''stop''" "to_lower ''new session'' = ''new session''" "to_lower ''preset'' = ''preset''" "to_lower ''presets'' = ''presets''"
    by code_simp+
  show ?thesis
    using assms(2) p q
    by (simp add: shortcut_def equal_fold_def low isInjectPrefix_def isPsPrefix_def trim_space_word [OF assms(1)] matchesPresetName_def)
      (simp add: sample_state_def)
qed

lemma sample_permission: "handlePendingPermission ok False c k (ad_perm sample_state) = Some (ad_perm sample_state, False)"
  by (simp add: handlePendingPermission_def sample_state_def pending_key_def lookupPending_def)

lemma sample_rest:
  assumes "shortcut w sample_state = None" "\<not> has_prefix w ''/''"
  shows "with_workspace plain_surroundings [] w (sample_message u w) [] sample_state =
    Some (case (if has_prefix w ''!'' then bang_shell u w sample_state else None) of
            Some as \<Rightarrow> (sample_state, as, Done)
          | None \<Rightarrow> (sample_state, [], ToSession ''tg:1'' (message.truncate (sample_message u w))))"
proof -
  have f: "m_Images (sample_message u w) = []" "m_UserID (sample_message u w) = u" "m_SessionKey (sample_message u w) = ''tg:1''"
    "in_IsPermissionResponse (sample_message u w) = False"
    by (simp_all add: sample_message_def)
  have form: "handlePendingProviderAdd w k sample_state = (sample_state, [], False)" for k
    using assms(2) by (simp add: handlePendingProviderAdd_def) (simp add: sample_state_def)
  have same: "sample_state\<lparr>ad_perm := ad_perm sample_state\<rparr> = sample_state" by simp
  show ?thesis
    using assms f
    by (simp add: with_workspace_def after_commands_def sample_permission same form Let_def split: option.splits)
qed

end
