(* ===== verification/AdmissionProperties.thy ===== *)
theory AdmissionProperties
  imports AdmissionSafety
begin

text \<open>The properties of the admission of messages.\<close>

section \<open>What is guaranteed\<close>


lemma bang_refused:
  "handleMessage 0 plain_surroundings (sample_message ''eve'' ''!ls'') sample_state = Some (sample_state, [Answer (AdminRequired ''!'')], Done)"
proof -
  have w: "ascii_word ''!ls''" "ascii_word ''ls''" by (simp_all add: ascii_word_def byte_def)
  have na: "\<not> isAdmin ''eve'' sample_state"
    using trim_space_word [of "''boss''"]
    by (simp add: isAdmin_def sample_state_def equal_fold_def split_all_def ascii_word_def to_lower_def lower_byte_def byte_def)
  have "bang_shell ''eve'' ''!ls'' sample_state = Some [Answer (AdminRequired ''!'')]"
    using na trim_space_word [OF w(2)]
    by (simp add: bang_shell_def disabled_for_def ResolveRole_def mget_or_def sample_state_def)
  moreover have "shortcut ''!ls'' sample_state = None"
    by (rule sample_shortcut [OF w(1)]) (simp_all add: to_lower_def lower_byte_def byte_def)
  ultimately show ?thesis
    unfolding sample_run [OF w(1)] using sample_rest [of "''!ls''" "''eve''"] by (simp add: has_prefix_def)
qed



lemma alias_listed:
  "handleMessage 0 plain_surroundings (sample_message ''eve'' ''/alias'') sample_state = Some (sample_state, [ShowList ''alias''], Done)"
proof -
  have w: "ascii_word ''/alias''" by (simp add: ascii_word_def byte_def)
  have "matchPrefix (to_lower (trim_prefix ''/alias'' ''/'')) builtinCommands = ''alias''" by code_simp
  moreover have split: "splitCommandArgs ''/alias'' = [''/alias'']" by code_simp
  ultimately have "handleCommand no_files ''eve'' ''/alias'' sample_state = Some (sample_state, [ShowList ''alias''], True)"
    by (intro handle_builtin [OF split, where i = "''alias''"])
      (simp_all add: isPrivilegedCommandInvocation_def privilegedCommands_def run_builtin_def cmdAlias_def disabled_for_def
        ResolveRole_def mget_or_def sample_state_def)
  moreover have "shortcut ''/alias'' sample_state = None"
    by (rule sample_shortcut [OF w]) (simp_all add: to_lower_def lower_byte_def byte_def)
  ultimately show ?thesis
    unfolding sample_run [OF w]
    by (simp add: with_workspace_def has_prefix_def Let_def plain_surroundings_def sample_message_def)
qed


text \<open>
  C7. A text that is neither a slash command nor a \<open>!\<close> line reaches an agent only when it contains none of the
  banned words, provided that no banned word is empty.
\<close>

theorem banned_text_never_reaches_agent:
  assumes "handleMessage now en m st = Some (st', acts, ToSession key x)"
    and "content = resolveAlias (trim_space (m_Content m)) st" "\<not> has_prefix content ''/''" "\<not> has_prefix content ''!''"
    and "[] \<notin> set (ad_bannedWords st)" "w \<in> set (ad_bannedWords st)"
  shows "\<not> contains (to_lower content) w"
  using assms(1)
proof (cases rule: handleMessage_shape)
  case early
  then show ?thesis by blast
next
  case (passed content' st1 ws acts0)
  then have "matchBannedWord content st = None" using assms(2-4) by auto
  moreover have "False" if "find (contains (to_lower content)) (ad_bannedWords st) = Some v" for v
  proof -
    have "v \<in> set (ad_bannedWords st)" using that by (metis find_Some_iff nth_mem)
    then have "v \<noteq> []" using assms(5) by blast
    then show False using calculation that by (simp add: matchBannedWord_def)
  qed
  ultimately have "find (contains (to_lower content)) (ad_bannedWords st) = None" by (metis option.exhaust)
  then show ?thesis using assms(6) unfolding find_None_iff by blast
qed

theorem banned_text_never_reaches_agent_witness:
  "\<exists>x. handleMessage 0 plain_surroundings (sample_message ''eve'' ''hello'') sample_state = Some (sample_state, [], ToSession ''tg:1'' x)
   \<and> \<not> contains (to_lower ''hello'') ''secret''"
proof -
  have w: "ascii_word ''hello''" by (simp add: ascii_word_def byte_def)
  have "shortcut ''hello'' sample_state = None"
    by (rule sample_shortcut [OF w]) (simp_all add: to_lower_def lower_byte_def byte_def)
  moreover have "\<not> contains (to_lower ''hello'') ''secret''" by (simp add: to_lower_def lower_byte_def byte_def has_prefix_def)
  ultimately obtain x where x: "handleMessage 0 plain_surroundings (sample_message ''eve'' ''hello'') sample_state =
      Some (sample_state, [], ToSession ''tg:1'' x)"
    unfolding sample_run [OF w] using sample_rest [of "''hello''" "''eve''"] by (simp add: has_prefix_def)
  have "\<not> contains (to_lower ''hello'') ''secret''"
    by (rule banned_text_never_reaches_agent [OF x])
      (simp_all add: sample_message_def trim_space_word [OF w] has_prefix_def, simp_all add: sample_state_def)
  then show ?thesis using x by blast
qed

section \<open>What is not guaranteed\<close>

text \<open>
  A message with an image whose text begins with a slash or an exclamation mark is neither a command nor checked
  for banned words: it reaches the agent whatever words are banned.
\<close>

theorem image_skips_banned_words:
  assumes "\<not> in_Recalled m" "\<not> in_Audio m" "m_Images m \<noteq> []"
    and "content = resolveAlias (trim_space (m_Content m)) st" "has_prefix content ''/'' \<or> has_prefix content ''!''"
    and "checkRateLimit now (m_UserID m) (m_SessionKey m) st = (st1, True)"
    and "\<not> ad_multiWorkspace st" "en_forcedWorkDir en = []" "\<not> in_IsPermissionResponse m"
    and "pending_key (m_SessionKey m) (ad_perm st) = None" "mget (ad_pendingAdd st) (m_SessionKey m) = None"
  shows "handleMessage now en m st =
    Some (st1, [], ToSession (m_SessionKey m) (message.truncate (m\<lparr>m_Content := merged_content content m\<rparr>)))"
proof -
  note rules = checkRateLimit_rules [OF assms(6)]
  have same: "st1\<lparr>ad_perm := ad_perm st\<rparr> = st1" unfolding rules(4) [symmetric] by simp
  have "\<not> message_empty (trim_space (m_Content m)) m" using assms(3) by (simp add: message_empty_def)
  moreover have "resolve_workspace en content st1 = Inr []" using assms(7,8) rules by (simp add: resolve_workspace_def)
  moreover have "with_workspace en [] content (m\<lparr>m_Content := merged_content content m\<rparr>) [] st1 =
      Some (st1, [], ToSession (m_SessionKey m) (message.truncate (m\<lparr>m_Content := merged_content content m\<rparr>)))"
    using assms(3,9-11) rules same
    by (simp add: with_workspace_def after_commands_def handlePendingPermission_def handlePendingProviderAdd_def Let_def)
  ultimately show ?thesis using assms(1-6) by (auto simp: handleMessage_def Let_def)
qed

theorem image_skips_banned_words_witness:
  "\<exists>x. m_Content x = ''/secret'' \<and> matchBannedWord ''/secret'' sample_state = Some ''secret'' \<and>
     handleMessage 0 plain_surroundings ((sample_message ''eve'' ''/secret'')\<lparr>m_Images := [''photo'']\<rparr>) sample_state =
       Some (sample_state, [], ToSession ''tg:1'' x)"
proof -
  let ?m = "(sample_message ''eve'' ''/secret'')\<lparr>m_Images := [''photo'']\<rparr>"
  let ?x = "message.truncate (?m\<lparr>m_Content := merged_content ''/secret'' ?m\<rparr>)"
  have w: "ascii_word ''/secret''" by (simp add: ascii_word_def byte_def)
  have "handleMessage 0 plain_surroundings ?m sample_state = Some (sample_state, [], ToSession (m_SessionKey ?m) ?x)"
  proof (rule image_skips_banned_words)
    show "''/secret'' = resolveAlias (trim_space (m_Content ?m)) sample_state"
      by (simp add: sample_message_def trim_space_word [OF w])
    show "checkRateLimit 0 (m_UserID ?m) (m_SessionKey ?m) sample_state = (sample_state, True)"
      by (simp add: checkRateLimit_def sample_state_def Let_def)
    show "pending_key (m_SessionKey ?m) (ad_perm sample_state) = None"
      by (simp add: sample_state_def pending_key_def lookupPending_def)
  qed (simp_all add: sample_message_def plain_surroundings_def has_prefix_def, simp_all add: sample_state_def)
  moreover have "m_SessionKey ?m = ''tg:1''" "m_Content ?x = ''/secret''"
    by (simp_all add: sample_message_def merged_content_def message.truncate_def)
  moreover have "contains (to_lower ''/secret'') ''secret''" by (simp add: to_lower_def lower_byte_def byte_def has_prefix_def)
  then have "matchBannedWord ''/secret'' sample_state = Some ''secret''" by (simp add: matchBannedWord_def sample_state_def)
  ultimately show ?thesis by (intro exI [of _ ?x]) simp
qed

lemma split_word_list:
  assumes "list_all (\<lambda>w. w \<noteq> [] \<and> list_all plain_char w) ws" "w \<noteq> []" "list_all plain_char w"
  shows "split_tokens False False [] ts (concat (map (\<lambda>v. v @ '' '') ws) @ w) = ts @ ws @ [w]"
  using assms(1)
proof (induction ws arbitrary: ts)
  case Nil
  then show ?case using split_plain [of w "[]" ts "[]"] assms(2,3) by (simp add: end_token_def)
next
  case (Cons v ws)
  then show ?case using split_word_then_blank [of v ts] by simp
qed

lemma alias_command_adds:
  assumes "\<not> is_disabled u ''alias'' st" "n \<noteq> []" "list_all plain_char n" "c \<noteq> []" "list_all plain_char c"
  shows "handleCommand fs u (''/alias add '' @ n @ '' shell '' @ c) st =
    Some (AddAlias n (''/shell '' @ c) st, [SaveAlias n (''/shell '' @ c), Answer (AliasAdded n (''/shell '' @ c))], True)"
proof (rule handle_builtin)
  show "splitCommandArgs (''/alias add '' @ n @ '' shell '' @ c) = ''/alias'' # [''add'', n, ''shell'', c]"
    using split_word_list [of "[''/alias'', ''add'', n, ''shell'']" c "[]"] assms
    by (simp add: splitCommandArgs_def plain_char_def)
  have "to_lower (trim_prefix ''/alias'' ''/'') = ''alias''" "matchPrefix ''alias'' builtinCommands = ''alias''" by code_simp+
  then show "matchPrefix (to_lower (trim_prefix ''/alias'' ''/'')) builtinCommands = ''alias''" by simp
  have "to_lower ''add'' = ''add''" "matchSubCommand ''add'' [''list'', ''add'', ''del'', ''delete'', ''remove''] = ''add''" by code_simp+
  then show "run_builtin fs u (''/alias add '' @ n @ '' shell '' @ c) ''alias'' [''add'', n, ''shell'', c] st =
      (AddAlias n (''/shell '' @ c) st, [SaveAlias n (''/shell '' @ c), Answer (AliasAdded n (''/shell '' @ c))])"
    by (simp add: run_builtin_def cmdAlias_def cmdAliasAdd_def has_prefix_def Let_def)
qed (use assms(1) in \<open>simp_all add: isPrivilegedCommandInvocation_def privilegedCommands_def\<close>)

lemma shell_command_runs:
  assumes "isAdmin a st" "\<not> is_disabled a ''shell'' st" "ascii_word c" "list_all plain_char c" "\<not> has_prefix c ''-''"
  shows "handleCommand fs a (''/shell '' @ c) st = Some (st, [RunShell c (60 * second)], True)"
proof (rule handle_builtin)
  have ne: "c \<noteq> []" using assms(3) by (simp add: ascii_word_def)
  then show "splitCommandArgs (''/shell '' @ c) = ''/shell'' # [c]"
    using split_word_list [of "[''/shell'']" c "[]"] assms(4) by (simp add: splitCommandArgs_def plain_char_def)
  have "to_lower (trim_prefix ''/shell'' ''/'') = ''shell''" "matchPrefix ''shell'' builtinCommands = ''shell''" by code_simp+
  then show "matchPrefix (to_lower (trim_prefix ''/shell'' ''/'')) builtinCommands = ''shell''" by simp
  have "has_prefix (to_lower (''/shell '' @ c)) ''/shell ''" by (simp add: to_lower_def has_prefix_def lower_byte_def byte_def)
  then have "shell_text (''/shell '' @ c) = c" by (simp add: shell_text_def shell_prefixes_def trim_space_word [OF assms(3)])
  moreover have "\<not> has_prefix c ''--timeout ''" using assms(5) by (cases c) (auto simp: has_prefix_def)
  ultimately have "shell_action (''/shell '' @ c) = RunShell c (60 * second)"
    using ne by (simp add: shell_action_def cmdShell_def shell_timeout_def)
  then show "run_builtin fs a (''/shell '' @ c) ''shell'' [c] st = (st, [RunShell c (60 * second)])"
    by (simp add: run_builtin_def)
qed (use assms(1,2) in simp_all)

text \<open>
  C35. An alias that a user who is no administrator defines runs with the rights of whoever types it: after one
  command of that user, the plain word of an administrator starts the shell command the user chose.
\<close>

theorem alias_runs_with_reader_rights:
  assumes "isAdmin a st" "\<not> is_disabled a ''shell'' st" "\<not> is_disabled u ''alias'' st"
    and "ascii_word n" "list_all plain_char n" "\<not> has_prefix n ''/''" "ascii_word c" "list_all plain_char c" "\<not> has_prefix c ''-''"
  shows "\<exists>st' acts. handleCommand fs u (''/alias add '' @ n @ '' shell '' @ c) st = Some (st', acts, True)
    \<and> resolveAlias n st' = ''/shell '' @ c
    \<and> handleCommand fs a (''/shell '' @ c) st' = Some (st', [RunShell c (60 * second)], True)"
proof -
  let ?st = "AddAlias n (''/shell '' @ c) st"
  have rules: "same_rules st ?st" by (simp add: AddAlias_def same_rules_def)
  have "handleCommand fs u (''/alias add '' @ n @ '' shell '' @ c) st =
      Some (?st, [SaveAlias n (''/shell '' @ c), Answer (AliasAdded n (''/shell '' @ c))], True)"
    using assms(4,7) by (intro alias_command_adds assms(3,5,8)) (simp_all add: ascii_word_def)
  moreover have "resolveAlias n ?st = ''/shell '' @ c" by (simp add: resolveAlias_def AddAlias_def gomap)
  moreover have "handleCommand fs a (''/shell '' @ c) ?st = Some (?st, [RunShell c (60 * second)], True)"
    using assms(1,2,7-9) same_rules_admin [OF rules] same_rules_disabled [OF rules] by (intro shell_command_runs) simp_all
  ultimately show ?thesis by blast
qed

theorem alias_runs_with_reader_rights_witness:
  "\<exists>st' acts. handleCommand no_files ''eve'' ''/alias add ok shell reboot'' sample_state = Some (st', acts, True)
    \<and> handleCommand no_files ''boss'' (resolveAlias ''ok'' st') st' = Some (st', [RunShell ''reboot'' (60 * second)], True)"
proof -
  have w: "ascii_word ''ok''" "ascii_word ''reboot''" "list_all plain_char ''ok''" "list_all plain_char ''reboot''"
    by (simp_all add: ascii_word_def byte_def plain_char_def)
  have admin: "isAdmin ''boss'' sample_state"
    using trim_space_word [of "''boss''"]
    by (simp add: isAdmin_def sample_state_def equal_fold_def split_all_def ascii_word_def byte_def)
  have free: "\<not> is_disabled ''boss'' ''shell'' sample_state" "\<not> is_disabled ''eve'' ''alias'' sample_state"
    by (simp_all add: sample_state_def disabled_for_def ResolveRole_def mget_or_def)
  have no: "\<not> has_prefix ''ok'' ''/''" "\<not> has_prefix ''reboot'' ''-''" by (simp_all add: has_prefix_def)
  obtain st' acts where "handleCommand no_files ''eve'' (''/alias add '' @ ''ok'' @ '' shell '' @ ''reboot'') sample_state = Some (st', acts, True)"
    "resolveAlias ''ok'' st' = ''/shell '' @ ''reboot''"
    "handleCommand no_files ''boss'' (''/shell '' @ ''reboot'') st' = Some (st', [RunShell ''reboot'' (60 * second)], True)"
    using alias_runs_with_reader_rights [OF admin free w(1,3) no(1) w(2,4) no(2), of no_files] by blast
  then show ?thesis by (intro exI [of _ st'] exI [of _ acts]) simp
qed

text \<open>
  An empty banned word at the front of the list is contained in every text and is taken for "no match": the list
  is switched off.
\<close>

lemma empty_banned_word_disables_filter:
  "ad_bannedWords st = [] # ws \<Longrightarrow> matchBannedWord content st = None"
  by (cases "to_lower content") (simp_all add: matchBannedWord_def has_prefix_def)

text \<open>A trailing comma in the list of administrators makes everyone without a user ID an administrator.\<close>

lemma nameless_user_is_admin:
  "isAdmin [] (SetAdminFrom ''boss,'' st)"
proof -
  have "trim_space ''boss,'' = ''boss,''" by (rule trim_space_word) (simp add: ascii_word_def byte_def)
  moreover have "split_all (CHR '','') ''boss,'' = [''boss'', []]" by (simp add: split_all_def)
  ultimately show ?thesis by (simp add: isAdmin_def SetAdminFrom_def equal_fold_def to_lower_def)
qed

section \<open>Subcommands\<close>

lemma sub_prefix: "prefix_sub p matched cs = r \<Longrightarrow> r = p \<or> r = matched \<or> (r \<in> set cs \<and> has_prefix r p)"
  by (induction p matched cs rule: prefix_sub.induct) (auto split: if_splits)

lemma sub_has_prefix: "matchSubCommand p cs = r \<Longrightarrow> r \<noteq> [] \<Longrightarrow> has_prefix r p"
  using sub_prefix [of p "[]" cs r] by (auto simp: matchSubCommand_def has_prefix_def split: if_splits)

lemma prefixes_of_addexec: "has_prefix ''addexec'' p \<Longrightarrow>
    p \<in> set [[], ''a'', ''ad'', ''add'', ''adde'', ''addex'', ''addexe'', ''addexec'']"
proof -
  assume "has_prefix ''addexec'' p"
  then have "take (length p) ''addexec'' = p" by (simp only: has_prefix_def)
  moreover have "length (take (length p) ''addexec'') \<le> 7" by simp
  ultimately obtain n where n: "p = take n ''addexec''" "n \<le> 7" by metis
  then have "n = 0 \<or> n = 1 \<or> n = 2 \<or> n = 3 \<or> n = 4 \<or> n = 5 \<or> n = 6 \<or> n = 7" by linarith
  then show ?thesis using n(1) by (elim disjE) simp_all
qed

text \<open>
  The list of subcommands the administrator check of \<open>/cron\<close> uses lacks three of those the command knows. They
  still agree on \<open>addexec\<close>: whatever is typed, it is refused as privileged if and only if the handler would schedule
  a shell command.
\<close>

theorem cron_gate_agrees:
  "isPrivilegedCommandInvocation ''cron'' (a # args) \<longleftrightarrow> matchSubCommand (to_lower a) cron_subs = ''addexec''"
proof -
  have small: "list_all (\<lambda>p. (matchSubCommand p cron_gate = ''addexec'') = (matchSubCommand p cron_subs = ''addexec''))
      [[], ''a'', ''ad'', ''add'', ''adde'', ''addex'', ''addexe'', ''addexec'']"
    by code_simp
  have "matchSubCommand p cron_gate = ''addexec'' \<longleftrightarrow> matchSubCommand p cron_subs = ''addexec''" for p
  proof (cases "has_prefix ''addexec'' p")
    case True
    then show ?thesis using small prefixes_of_addexec unfolding list_all_iff by blast
  next
    case False
    then show ?thesis using sub_has_prefix by blast
  qed
  then show ?thesis by (simp add: isPrivilegedCommandInvocation_def privilegedCommands_def)
qed

end
