(* ===== verification/CommandProperties.thy ===== *)
theory CommandProperties
  imports AdmissionSafety
begin

text \<open>The properties of command lines, templates, command files and skills.\<close>

section \<open>Reading what was written\<close>

text \<open>
  C36. Arguments that are quoted come back as they were: splitting the quoted tokens joined by blanks gives the tokens,
  for tokens that are not empty and do not contain both kinds of quotes.
\<close>

theorem quoted_arguments_come_back:
  "list_all quotable ts \<Longrightarrow> splitCommandArgs (join '' '' (map quote_arg ts)) = ts"
  using split_join_quoted [of ts "[]"] by (simp add: splitCommandArgs_def)

theorem quoted_arguments_come_back_witness:
  "splitCommandArgs (join '' '' (map quote_arg [''/ws'', ''my path'', [double_quote]])) = [''/ws'', ''my path'', [double_quote]]"
  by (rule quoted_arguments_come_back) (simp add: quotable_def)

text \<open>
  A template means what its pieces mean: the text of literals and placeholders expands to the literals and the
  values of the placeholders, a default where an argument is missing; without a placeholder the arguments follow the
  text.
\<close>

theorem template_expands_piecewise:
  assumes "list_all piece_ok ps"
  shows "ExpandPrompt (concat (map render ps)) args =
    (if list_ex is_hole ps then concat (map (piece_value args) ps)
     else concat (map render ps) @ (if args = [] then [] else [newline, newline] @ join '' '' args))"
  using expand_pieces [OF assms] has_placeholder_pieces [OF assms] by (simp add: ExpandPrompt_def)

theorem template_expands_piecewise_witness:
  "ExpandPrompt (concat (map render [Literal ''fix '', Hole (ArgAt 1) (Some ''it''), Literal '' in '', Hole (ArgsFrom 2) None])) [''bug'', ''a'', ''b''] =
   ''fix bug in a b''"
proof -
  have "list_all piece_ok [Literal ''fix '', Hole (ArgAt 1) (Some ''it''), Literal '' in '', Hole (ArgsFrom 2) None]"
    by (simp add: has_prefix_def has_suffix_def)
  from template_expands_piecewise [OF this] show ?thesis by simp
qed

section \<open>Command files\<close>

lemma resolve_first_file:
  assumes "cr_commands r = []" "cr_agentDirs r = dir # ds" "filepath_Abs (fs_cwd fs) dir = Some d"
    and "filepath_Abs (fs_cwd fs) (path_join dir (n @ ''.md'')) = Some (d @ ''/'' @ x)"
    and "fs_read_file fs (path_join dir (n @ ''.md'')) = Some data" "trim_space data \<noteq> []"
  shows "cr_Resolve fs n r = Some \<lparr>cc_Name = n, cc_Description = [], cc_Prompt = trim_space data, cc_Exec = [],
                                   cc_WorkDir = [], cc_Source = ''agent''\<rparr>"
proof -
  have "has_prefix (d @ ''/'' @ x) (d @ ''/'')" by (simp add: has_prefix_def)
  then have "agent_command fs dir d n = Some \<lparr>cc_Name = n, cc_Description = [], cc_Prompt = trim_space data, cc_Exec = [],
      cc_WorkDir = [], cc_Source = ''agent''\<rparr>"
    using assms by (simp add: agent_command_def Let_def)
  then show ?thesis using assms by (simp add: cr_Resolve_def command_candidates_def Let_def)
qed

text \<open>A directory with one command file.\<close>

definition zap_files :: file_system where
  "zap_files = no_files\<lparr>fs_read_file := (\<lambda>p. if p = ''/c/zap.md'' then Some ''boom'' else None)\<rparr>"

definition zap_commands :: command_registry where
  "zap_commands = \<lparr>cr_commands = [], cr_agentDirs = [''/c'']\<rparr>"

definition zap_state :: "unit admission" where
  "zap_state = sample_state\<lparr>ad_commands := zap_commands, ad_disabledCmds := [(''zap'', True)]\<rparr>"

lemma zap_paths: "filepath_Abs (fs_cwd zap_files) ''/c'' = Some ''/c''" "path_join ''/c'' ''zap.md'' = ''/c/zap.md''"
  "filepath_Abs (fs_cwd zap_files) ''/c/zap.md'' = Some (''/c'' @ ''/'' @ ''zap.md'')"
  by (simp_all add: filepath_Abs_def path_join_def path_clean_def has_prefix_def split_all_def)

lemma zap_text: "trim_space ''boom'' = ''boom''"
  by (rule trim_space_word) (simp add: ascii_word_def byte_def)

lemma zap_read: "fs_read_file zap_files (path_join ''/c'' (''zap'' @ ''.md'')) = Some ''boom''"
  using zap_paths by (simp add: zap_files_def)

text \<open>
  Whatever is typed as the name of a command, a file that is read for it lies below one of the command
  directories, and such a command is a prompt, never a shell command.
\<close>

theorem command_files_stay_below:
  assumes "cr_Resolve fs n r = Some c" "\<And>wd. fs_cwd fs = Some wd \<Longrightarrow> has_prefix wd ''/''"
    and "\<And>k. (k, c) \<notin> set (cr_commands r)"
  shows "\<exists>dir \<in> set (cr_agentDirs r). \<exists>p data. below (fs_cwd fs) dir p \<and> fs_read_file fs p = Some data \<and>
           cc_Prompt c = trim_space data \<and> cc_Exec c = []"
  using file_command_below [OF assms] .

theorem command_files_stay_below_witness:
  "cr_Resolve zap_files ''zap'' zap_commands \<noteq> None \<and>
   (\<exists>dir \<in> set (cr_agentDirs zap_commands). \<exists>p data. below (fs_cwd zap_files) dir p \<and> fs_read_file zap_files p = Some data)"
proof -
  obtain c where c: "cr_Resolve zap_files ''zap'' zap_commands = Some c"
    using resolve_first_file [of zap_commands "''/c''" "[]" zap_files "''/c''" "''zap''" "''zap.md''" "''boom''"] zap_paths zap_read zap_text
    by (simp add: zap_commands_def)
  have "\<exists>dir \<in> set (cr_agentDirs zap_commands). \<exists>p data. below (fs_cwd zap_files) dir p \<and> fs_read_file zap_files p = Some data \<and>
      cc_Prompt c = trim_space data \<and> cc_Exec c = []"
    using c by (rule command_files_stay_below) (simp_all add: zap_files_def no_files_def zap_commands_def has_prefix_def)
  then show ?thesis using c by blast
qed

text \<open>Directories that are joined with a dot: the file is the same, the name is not.\<close>

lemma clean_parts_dot: "clean_parts r (xs @ ''.'' # ys) st = clean_parts r (xs @ ys) st"
  by (induction r xs st rule: clean_parts.induct) (auto split: list.splits)

lemma path_join_dot:
  assumes "dir \<noteq> []"
  shows "path_join dir (''./'' @ f) = path_join dir f"
proof -
  have "split_all (CHR ''/'') (dir @ CHR ''/'' # ''./'' @ f) = split_all (CHR ''/'') dir @ ''.'' # split_all (CHR ''/'') f"
    using split_all_append [of "CHR ''/''" dir "''./'' @ f"] split_all_append [of "CHR ''/''" "''.''" f]
    by (simp add: split_all_absent)
  moreover have "split_all (CHR ''/'') (dir @ CHR ''/'' # f) = split_all (CHR ''/'') dir @ split_all (CHR ''/'') f"
    by (rule split_all_append)
  ultimately show ?thesis
    using assms by (simp add: path_join_def path_clean_def clean_parts_dot)
qed

lemma dot_is_no_builtin: "matchPrefix (CHR ''.'' # s) builtinCommands = []"
  by (simp add: matchPrefix_def builtinCommands_def has_prefix_def)

text \<open>
  A command file that is disabled for a user still runs when its name is typed with a dot in front: \<open>/name\<close> is
  refused and \<open>/./name\<close> sends the prompt of the same file to the agent.
\<close>

theorem dotted_name_escapes_disabled:
  assumes "cr_commands (ad_commands st) = []" "cr_agentDirs (ad_commands st) = dir # ds" "dir \<noteq> []"
    and "filepath_Abs (fs_cwd fs) dir = Some d" "filepath_Abs (fs_cwd fs) (path_join dir (n @ ''.md'')) = Some (d @ ''/'' @ x)"
    and "fs_read_file fs (path_join dir (n @ ''.md'')) = Some data" "trim_space data \<noteq> []"
    and "n \<noteq> []" "list_all plain_char n" "to_lower n = n" "matchPrefix n builtinCommands = []"
    and "is_disabled u n st" "\<not> is_disabled u (''./'' @ n) st"
  shows "handleCommand fs u (''/'' @ n) st = Some (st, [Answer (CommandDisabled (''/'' @ n))], True)
    \<and> handleCommand fs u (''/./'' @ n) st = Some (st, [PromptAgent (ExpandPrompt (trim_space data) []) None], True)"
proof
  have split: "splitCommandArgs w = [w]" if "w \<noteq> []" "list_all plain_char w" for w
    using split_plain [of w "[]" "[]" "[]"] that by (simp add: splitCommandArgs_def end_token_def)
  have trim: "trim_prefix (CHR ''/'' # w) ''/'' = w" for w by (simp add: trim_prefix_def has_prefix_def)
  have low: "to_lower (''./'' @ n) = ''./'' @ n" using assms(10) by (simp add: to_lower_def lower_byte_def byte_def)
  have "splitCommandArgs (CHR ''/'' # n) = [CHR ''/'' # n]" using split [of "CHR ''/'' # n"] assms(9) by (simp add: plain_char_def)
  then show "handleCommand fs u (''/'' @ n) st = Some (st, [Answer (CommandDisabled (''/'' @ n))], True)"
    using resolve_first_file [OF assms(1,2,4-7)] assms(8-12)
    by (simp add: handleCommand_def trim run_extension_def)
  have "path_join dir ((''./'' @ n) @ ''.md'') = path_join dir (n @ ''.md'')"
    using path_join_dot [OF assms(3), of "n @ ''.md''"] by simp
  then have r: "cr_Resolve fs (''./'' @ n) (ad_commands st) = Some \<lparr>cc_Name = ''./'' @ n, cc_Description = [],
      cc_Prompt = trim_space data, cc_Exec = [], cc_WorkDir = [], cc_Source = ''agent''\<rparr>"
    using assms(5,6) by (intro resolve_first_file [OF assms(1,2,4) _ _ assms(7)]) simp_all
  have "splitCommandArgs (''/./'' @ n) = [''/./'' @ n]" using split [of "''/./'' @ n"] assms(9) by (simp add: plain_char_def)
  then show "handleCommand fs u (''/./'' @ n) st = Some (st, [PromptAgent (ExpandPrompt (trim_space data) []) None], True)"
    using r assms(13) low dot_is_no_builtin [of "CHR ''/'' # n"]
    by (simp add: handleCommand_def trim run_extension_def executeCustomCommand_def)
qed

theorem dotted_name_escapes_disabled_witness:
  "handleCommand zap_files ''eve'' ''/zap'' zap_state = Some (zap_state, [Answer (CommandDisabled ''/zap'')], True)
   \<and> handleCommand zap_files ''eve'' ''/./zap'' zap_state = Some (zap_state, [PromptAgent (ExpandPrompt ''boom'' []) None], True)"
proof -
  have "matchPrefix ''zap'' builtinCommands = []" by code_simp
  then have "handleCommand zap_files ''eve'' (''/'' @ ''zap'') zap_state = Some (zap_state, [Answer (CommandDisabled (''/'' @ ''zap''))], True)
    \<and> handleCommand zap_files ''eve'' (''/./'' @ ''zap'') zap_state = Some (zap_state, [PromptAgent (ExpandPrompt (trim_space ''boom'') []) None], True)"
    using zap_paths zap_read zap_text
    by (intro dotted_name_escapes_disabled [of _ "''/c''" "[]" _ "''/c''" _ "''zap.md''"])
      (simp_all add: zap_state_def zap_commands_def sample_state_def plain_char_def to_lower_def lower_byte_def byte_def
        disabled_for_def mget_or_def ResolveRole_def)
  then show ?thesis by (simp add: zap_text)
qed

section \<open>Shell commands\<close>

text \<open>
  The name of \<open>/shell\<close> and of its aliases may be abbreviated, but only the full names are stripped: an
  abbreviated command runs its whole line, the slash and the name included, as the shell command.
\<close>

theorem abbreviated_shell_runs_whole_line:
  assumes "isAdmin u st" "\<not> is_disabled u ''shell'' st" "n \<in> set [''she'', ''shel'', ''ex'', ''exe'', ''ru'']"
    and "ascii_word c" "list_all plain_char c"
  shows "handleCommand fs u (''/'' @ n @ '' '' @ c) st = Some (st, [RunShell (''/'' @ n @ '' '' @ c) (60 * second)], True)"
proof -
  have ne: "c \<noteq> []" using assms(4) by (simp add: ascii_word_def)
  have "list_all (\<lambda>n. matchPrefix (to_lower (trim_prefix (CHR ''/'' # n) ''/'')) builtinCommands = ''shell'')
      [''she'', ''shel'', ''ex'', ''exe'', ''ru'']" by code_simp
  then have nm1: "matchPrefix (to_lower (trim_prefix (CHR ''/'' # n) ''/'')) builtinCommands = ''shell''"
    using assms(3) unfolding list_all_iff by blast
  have n: "n = ''she'' \<or> n = ''shel'' \<or> n = ''ex'' \<or> n = ''exe'' \<or> n = ''ru''" using assms(3) by simp
  have nm2: "list_all plain_char (CHR ''/'' # n)" using n by (elim disjE) (simp_all add: plain_char_def)
  have nm3: "ascii_word (CHR ''/'' # n)" using n by (elim disjE) (simp_all add: ascii_word_def byte_def)
  have nm4: "list_all (\<lambda>p. \<not> has_prefix (to_lower (CHR ''/'' # n) @ CHR '' '' # s) p) shell_prefixes" for s
    using n by (elim disjE) (simp_all add: shell_prefixes_def has_prefix_def to_lower_def lower_byte_def byte_def)
  let ?raw = "(CHR ''/'' # n) @ CHR '' '' # c"
  have "splitCommandArgs ?raw = [CHR ''/'' # n, c]"
    using split_word_then_blank [OF _ nm2, of "[]" c] split_plain [OF assms(5), of "[]" "[CHR ''/'' # n]" "[]"] ne
    by (simp add: splitCommandArgs_def end_token_def)
  moreover have "shell_action ?raw = RunShell ?raw (60 * second)"
  proof -
    have ascii: "list_all (\<lambda>c. 33 \<le> byte c \<and> byte c < 127) (CHR ''/'' # n)" "list_all (\<lambda>c. 33 \<le> byte c \<and> byte c < 127) c"
      using nm3 assms(4) by (simp_all add: ascii_word_def)
    have tr: "trim_space ?raw = ?raw"
    proof (rule trim_space_ascii)
      have "\<forall>c \<in> set (CHR ''/'' # n). byte c < 128" "\<forall>x \<in> set c. byte x < 128" using ascii unfolding list_all_iff by fastforce+
      then show "\<forall>c \<in> set ?raw. byte c < 128" by (auto simp: byte_def)
      have "last c \<in> set c" using ne by simp
      then have "33 \<le> byte (last c)" "byte (last c) < 127" using ascii(2) by (simp_all add: list_all_iff)
      then show "\<not> is_space (byte (last ?raw))" using ne by (simp add: is_space_def)
    qed (simp_all add: is_space_def byte_def)
    have "find (\<lambda>p. has_prefix (to_lower ?raw) p) shell_prefixes = None"
      using nm4 [of "to_lower c"] by (simp add: find_None_iff list_all_iff to_lower_def lower_byte_def byte_def)
    then have "shell_text ?raw = ?raw" unfolding shell_text_def using tr by simp
    then show ?thesis by (simp add: shell_action_def cmdShell_def shell_timeout_def has_prefix_def)
  qed
  ultimately have "handleCommand fs u ?raw st = Some (st, [RunShell ?raw (60 * second)], True)"
    using nm1 assms(1,2) by (intro handle_builtin [where i = "''shell''"]) (simp_all add: run_builtin_def)
  then show ?thesis by simp
qed

theorem abbreviated_shell_runs_whole_line_witness:
  "handleCommand no_files ''boss'' ''/she ls'' sample_state = Some (sample_state, [RunShell ''/she ls'' (60 * second)], True)"
proof -
  have "isAdmin ''boss'' sample_state"
    using trim_space_word [of "''boss''"]
    by (simp add: isAdmin_def sample_state_def equal_fold_def split_all_def ascii_word_def byte_def)
  then have "handleCommand no_files ''boss'' (''/'' @ ''she'' @ '' '' @ ''ls'') sample_state =
      Some (sample_state, [RunShell (''/'' @ ''she'' @ '' '' @ ''ls'') (60 * second)], True)"
    by (rule abbreviated_shell_runs_whole_line)
      (simp_all add: sample_state_def disabled_for_def ResolveRole_def mget_or_def ascii_word_def plain_char_def byte_def)
  then show ?thesis by simp
qed

section \<open>Skills\<close>

text \<open>
  Scanning the skill directories with the shared set of seen names gives, of all readable skills in the order of
  the directories and their entries, the first of each name, where names that differ only in case are the same.
\<close>

theorem skills_are_first_of_each_name:
  "sr_ListAll fs (sr_SetDirs dirs r) =
     (let sks = first_of_each [] (concat (map (skills_of fs) dirs))
      in (\<lparr>sr_dirs = dirs, sr_cache = if sks = [] then None else Some sks\<rparr>, sks))"
  by (simp add: sr_ListAll_def sr_SetDirs_def discover_dirs_reference Let_def)

end
