(* ===== verification/Heartbeat.thy ===== *)
theory Heartbeat
  imports CommandTable CustomCommands
begin

text \<open>
  The heartbeat scheduler (\<open>src/core/heartbeat.go\<close>): a periodic prompt per project, which a chat can pause, resume,
  trigger and re-time with \<open>/heartbeat\<close> (\<open>cmdHeartbeat\<close> in \<open>src/core/engine.go\<close>), and the file its overrides survive
  a restart in. A ticker is the interval it ticks with, or halted; an interval that is not positive makes the runtime
  panic, which is the value \<open>None\<close>. What the scheduled turn answers is an input of \<open>hs_execute\<close>.
\<close>

record heartbeat_config =
  hc_Enabled :: bool
  hc_IntervalMins :: int
  hc_OnlyWhenIdle :: bool
  hc_SessionKey :: string
  hc_Prompt :: string
  hc_Silent :: bool
  hc_TimeoutMins :: int

record heartbeat_persisted =
  hp_Paused :: bool
  hp_IntervalMins :: int

datatype ticker = Ticking duration | Halted

record heartbeat_entry =
  he_config :: heartbeat_config
  he_workDir :: string
  he_ticker :: "ticker option"
  he_stopped :: bool
  he_paused :: bool
  he_origIntervalMins :: int
  he_runCount :: int
  he_errorCount :: int
  he_skippedBusy :: int
  he_lastRun :: time
  he_lastError :: string

text \<open>The file holds a map from projects to pointers, which may be null.\<close>

type_synonym heartbeat_file = "(string, heartbeat_persisted option) gomap"

record heartbeat_scheduler =
  hs_entries :: "(string, heartbeat_entry) gomap"
  hs_stopped :: bool
  hs_hasFile :: bool
  hs_disk :: "heartbeat_file stored"
  hs_writable :: bool

definition NewHeartbeatScheduler :: "bool \<Rightarrow> heartbeat_file stored \<Rightarrow> bool \<Rightarrow> heartbeat_scheduler" where
  "NewHeartbeatScheduler hasDir disk writable =
     \<lparr>hs_entries = [], hs_stopped = False, hs_hasFile = hasDir, hs_disk = disk, hs_writable = writable\<rparr>"

section \<open>The file\<close>

definition loadProjectState :: "string \<Rightarrow> heartbeat_scheduler \<Rightarrow> heartbeat_persisted option" where
  "loadProjectState project hs =
     (if \<not> hs_hasFile hs then None
      else (case hs_disk hs of Doc states \<Rightarrow> mget_or None states project | _ \<Rightarrow> None))"

definition persisted_of :: "heartbeat_entry \<Rightarrow> heartbeat_persisted" where
  "persisted_of e =
     \<lparr>hp_Paused = he_paused e,
      hp_IntervalMins = (if hc_IntervalMins (he_config e) \<noteq> he_origIntervalMins e then hc_IntervalMins (he_config e) else 0)\<rparr>"

definition worth_saving :: "heartbeat_persisted \<Rightarrow> bool" where
  "worth_saving p \<longleftrightarrow> hp_Paused p \<or> hp_IntervalMins p > 0"

definition persistLocked :: "heartbeat_scheduler \<Rightarrow> heartbeat_scheduler" where
  "persistLocked hs =
     (if \<not> hs_hasFile hs then hs
      else let states = mmap (\<lambda>_ e. Some (persisted_of e)) (filter (\<lambda>(_, e). worth_saving (persisted_of e)) (hs_entries hs))
           in if \<not> hs_writable hs then hs
              else hs\<lparr>hs_disk := (if states = [] then NoFile else Doc states)\<rparr>)"

section \<open>Operations\<close>

definition interval_of :: "int \<Rightarrow> duration" where
  "interval_of mins = wrap64 (mins * minute)"

definition Register :: "string \<Rightarrow> heartbeat_config \<Rightarrow> string \<Rightarrow> heartbeat_scheduler \<Rightarrow> heartbeat_scheduler" where
  "Register project cfg0 workDir hs =
     (if \<not> hc_Enabled cfg0 \<or> hc_SessionKey cfg0 = [] then hs
      else let cfg = cfg0\<lparr>hc_IntervalMins := (if hc_IntervalMins cfg0 \<le> 0 then 30 else hc_IntervalMins cfg0),
                          hc_TimeoutMins := (if hc_TimeoutMins cfg0 \<le> 0 then 30 else hc_TimeoutMins cfg0)\<rparr>;
               saved = loadProjectState project hs;
               paused = (case saved of Some p \<Rightarrow> hp_Paused p | None \<Rightarrow> False);
               mins = (case saved of Some p \<Rightarrow> if hp_IntervalMins p > 0 then hp_IntervalMins p else hc_IntervalMins cfg
                       | None \<Rightarrow> hc_IntervalMins cfg)
           in hs\<lparr>hs_entries := mput project
                  \<lparr>he_config = cfg\<lparr>hc_IntervalMins := mins\<rparr>, he_workDir = workDir, he_ticker = None, he_stopped = False,
                   he_paused = paused, he_origIntervalMins = hc_IntervalMins cfg, he_runCount = 0, he_errorCount = 0,
                   he_skippedBusy = 0, he_lastRun = 0, he_lastError = []\<rparr> (hs_entries hs)\<rparr>)"

definition startEntry :: "heartbeat_entry \<Rightarrow> heartbeat_entry option" where
  "startEntry e =
     (let interval = interval_of (hc_IntervalMins (he_config e))
      in if interval \<le> 0 then None else Some (e\<lparr>he_ticker := Some (Ticking interval)\<rparr>))"

fun start_all :: "(string \<times> heartbeat_entry) list \<Rightarrow> (string \<times> heartbeat_entry) list option" where
  "start_all [] = Some []"
| "start_all ((k, e) # es) =
     (case startEntry e of
        None \<Rightarrow> None
      | Some e' \<Rightarrow> map_option (Cons (k, e')) (start_all es))"

definition hs_Start :: "heartbeat_scheduler \<Rightarrow> heartbeat_scheduler option" where
  "hs_Start hs = map_option (\<lambda>es. hs\<lparr>hs_entries := es\<rparr>) (start_all (hs_entries hs))"

definition hs_Stop :: "heartbeat_scheduler \<Rightarrow> heartbeat_scheduler" where
  "hs_Stop hs =
     (if hs_stopped hs then hs
      else hs\<lparr>hs_stopped := True,
              hs_entries := mmap (\<lambda>_ e. e\<lparr>he_ticker := map_option (\<lambda>_. Halted) (he_ticker e), he_stopped := True\<rparr>) (hs_entries hs)\<rparr>)"

record heartbeat_status =
  st_Enabled :: bool
  st_Paused :: bool
  st_IntervalMins :: int
  st_OnlyWhenIdle :: bool
  st_SessionKey :: string
  st_Silent :: bool
  st_RunCount :: int
  st_ErrorCount :: int
  st_SkippedBusy :: int
  st_LastRun :: time
  st_LastError :: string

definition hs_Status :: "string \<Rightarrow> heartbeat_scheduler \<Rightarrow> heartbeat_status option" where
  "hs_Status project hs =
     map_option (\<lambda>e. \<lparr>st_Enabled = hc_Enabled (he_config e), st_Paused = he_paused e, st_IntervalMins = hc_IntervalMins (he_config e),
                      st_OnlyWhenIdle = hc_OnlyWhenIdle (he_config e), st_SessionKey = hc_SessionKey (he_config e),
                      st_Silent = hc_Silent (he_config e), st_RunCount = he_runCount e, st_ErrorCount = he_errorCount e,
                      st_SkippedBusy = he_skippedBusy e, st_LastRun = he_lastRun e, st_LastError = he_lastError e\<rparr>)
       (mget (hs_entries hs) project)"

text \<open>\<open>Ticker.Reset\<close>: it restarts a halted ticker too, and panics on an interval that is not positive.\<close>

definition reset_ticker :: "duration \<Rightarrow> heartbeat_entry \<Rightarrow> heartbeat_entry option" where
  "reset_ticker interval e = (if interval \<le> 0 then None else Some (e\<lparr>he_ticker := Some (Ticking interval)\<rparr>))"

definition put_entry :: "string \<Rightarrow> heartbeat_entry \<Rightarrow> heartbeat_scheduler \<Rightarrow> heartbeat_scheduler" where
  "put_entry project e hs = hs\<lparr>hs_entries := mput project e (hs_entries hs)\<rparr>"

definition hs_Pause :: "string \<Rightarrow> heartbeat_scheduler \<Rightarrow> heartbeat_scheduler \<times> bool" where
  "hs_Pause project hs =
     (case mget (hs_entries hs) project of
        None \<Rightarrow> (hs, False)
      | Some e \<Rightarrow>
          if he_paused e then (hs, True)
          else (persistLocked (put_entry project (e\<lparr>he_paused := True, he_ticker := map_option (\<lambda>_. Halted) (he_ticker e)\<rparr>) hs), True))"

definition hs_Resume :: "string \<Rightarrow> heartbeat_scheduler \<Rightarrow> (heartbeat_scheduler \<times> bool) option" where
  "hs_Resume project hs =
     (case mget (hs_entries hs) project of
        None \<Rightarrow> Some (hs, False)
      | Some e \<Rightarrow>
          if \<not> he_paused e then Some (hs, True)
          else let e' = e\<lparr>he_paused := False\<rparr>
               in (case (if he_ticker e \<noteq> None then reset_ticker (interval_of (hc_IntervalMins (he_config e))) e' else Some e') of
                     None \<Rightarrow> None
                   | Some e'' \<Rightarrow> Some (persistLocked (put_entry project e'' hs), True)))"

definition hs_SetInterval :: "string \<Rightarrow> int \<Rightarrow> heartbeat_scheduler \<Rightarrow> (heartbeat_scheduler \<times> bool) option" where
  "hs_SetInterval project mins hs =
     (if mins \<le> 0 then Some (hs, False)
      else (case mget (hs_entries hs) project of
              None \<Rightarrow> Some (hs, False)
            | Some e \<Rightarrow>
                let e' = e\<lparr>he_config := (he_config e)\<lparr>hc_IntervalMins := mins\<rparr>\<rparr>
                in (case (if he_ticker e \<noteq> None \<and> \<not> he_paused e then reset_ticker (interval_of mins) e' else Some e') of
                      None \<Rightarrow> None
                    | Some e'' \<Rightarrow> Some (persistLocked (put_entry project e'' hs), True))))"

section \<open>Execution\<close>

definition read_candidate :: "file_system \<Rightarrow> string \<Rightarrow> string" where
  "read_candidate fs path = (case fs_read_file fs path of Some d \<Rightarrow> trim_space d | None \<Rightarrow> [])"

definition readHeartbeatMD :: "file_system \<Rightarrow> string \<Rightarrow> string" where
  "readHeartbeatMD fs workDir =
     (if workDir = [] then []
      else let a = read_candidate fs (path_join workDir ''HEARTBEAT.md'')
           in if a \<noteq> [] then a else read_candidate fs (path_join workDir ''heartbeat.md''))"

definition defaultHeartbeatPrompt :: string where
  "defaultHeartbeatPrompt =
     ''This is a periodic heartbeat check. Please briefly review:'' @ [newline] @
     ''- Any pending tasks or unfinished work'' @ [newline] @
     ''- Current project status'' @ [newline] @
     ''If nothing needs attention, respond briefly that all is well.''"

definition heartbeat_prompt :: "file_system \<Rightarrow> heartbeat_entry \<Rightarrow> string" where
  "heartbeat_prompt fs e =
     (let p = (if hc_Prompt (he_config e) = [] then readHeartbeatMD fs (he_workDir e) else hc_Prompt (he_config e))
      in if p = [] then defaultHeartbeatPrompt else p)"

text \<open>
  One run: skipped when it is to run only on an idle session and the session is busy; else the prompt and the
  outcome of the turn, an error (or time-out) or success, are counted.
\<close>

definition hs_execute :: "file_system \<Rightarrow> bool \<Rightarrow> string option \<Rightarrow> time \<Rightarrow> string \<Rightarrow> heartbeat_scheduler \<Rightarrow> heartbeat_scheduler \<times> string option" where
  "hs_execute fs busy err now project hs =
     (case mget (hs_entries hs) project of
        None \<Rightarrow> (hs, None)
      | Some e \<Rightarrow>
          if hc_OnlyWhenIdle (he_config e) \<and> busy then (put_entry project (e\<lparr>he_skippedBusy := he_skippedBusy e + 1\<rparr>) hs, None)
          else (put_entry project
                  (e\<lparr>he_runCount := he_runCount e + 1, he_lastRun := now,
                     he_errorCount := he_errorCount e + (case err of Some _ \<Rightarrow> 1 | None \<Rightarrow> 0),
                     he_lastError := (case err of Some x \<Rightarrow> x | None \<Rightarrow> [])\<rparr>) hs, Some (heartbeat_prompt fs e)))"

text \<open>A tick is received by the loop of an entry that is not stopped; a paused entry ignores it.\<close>

definition hs_tick :: "file_system \<Rightarrow> bool \<Rightarrow> string option \<Rightarrow> time \<Rightarrow> string \<Rightarrow> heartbeat_scheduler \<Rightarrow> heartbeat_scheduler \<times> string option" where
  "hs_tick fs busy err now project hs =
     (case mget (hs_entries hs) project of
        None \<Rightarrow> (hs, None)
      | Some e \<Rightarrow> if hs_stopped hs \<or> he_stopped e \<or> he_ticker e = None \<or> he_paused e then (hs, None)
                  else hs_execute fs busy err now project hs)"

definition hs_TriggerNow :: "file_system \<Rightarrow> bool \<Rightarrow> string option \<Rightarrow> time \<Rightarrow> string \<Rightarrow> heartbeat_scheduler \<Rightarrow> heartbeat_scheduler \<times> string option \<times> bool" where
  "hs_TriggerNow fs busy err now project hs =
     (if mget (hs_entries hs) project = None then (hs, None, False)
      else (let (hs', p) = hs_execute fs busy err now project hs in (hs', p, True)))"

section \<open>The command\<close>

datatype heartbeat_answer = HbNotAvailable | HbStatus | HbPaused | HbResumed | HbTriggered | HbUsage | HbInvalidMins | HbInterval int

definition heartbeat_subs :: "string list" where
  "heartbeat_subs = [''status'', ''pause'', ''stop'', ''resume'', ''start'', ''run'', ''trigger'', ''interval'']"

definition cmdHeartbeat :: "file_system \<Rightarrow> bool \<Rightarrow> string option \<Rightarrow> time \<Rightarrow> string \<Rightarrow> string list \<Rightarrow> heartbeat_scheduler \<Rightarrow> (heartbeat_scheduler \<times> heartbeat_answer) option" where
  "cmdHeartbeat fs busy err now project args hs =
     (if hs_Status project hs = None then Some (hs, HbNotAvailable)
      else let sub = (case args of a # _ \<Rightarrow> matchSubCommand (to_lower a) heartbeat_subs | [] \<Rightarrow> ''status'')
           in if sub \<in> set [''status'', []] then Some (hs, HbStatus)
              else if sub \<in> set [''pause'', ''stop''] then Some (fst (hs_Pause project hs), HbPaused)
              else if sub \<in> set [''resume'', ''start''] then map_option (\<lambda>r. (fst r, HbResumed)) (hs_Resume project hs)
              else if sub \<in> set [''run'', ''trigger''] then Some (fst (hs_TriggerNow fs busy err now project hs), HbTriggered)
              else if sub = ''interval'' then
                (case args of
                   _ # m # _ \<Rightarrow>
                     (case atoi m of
                        None \<Rightarrow> Some (hs, HbInvalidMins)
                      | Some mins \<Rightarrow> if mins \<le> 0 then Some (hs, HbInvalidMins)
                                     else map_option (\<lambda>r. (fst r, HbInterval mins)) (hs_SetInterval project mins hs))
                 | _ \<Rightarrow> Some (hs, HbUsage))
              else Some (hs, HbUsage))"

end
