(* ===== verification/HeartbeatProperties.thy ===== *)
theory HeartbeatProperties
  imports Heartbeat
begin

text \<open>
  Runs of the heartbeat scheduler: what the file, the tickers and the entries keep of each other, and what a restart
  brings back.
\<close>

section \<open>Runs\<close>

datatype hb_op =
    HPause string
  | HResume string
  | HSetInterval string int
  | HTick file_system bool "string option" time string
  | HTrigger file_system bool "string option" time string

fun hb_step :: "hb_op \<Rightarrow> heartbeat_scheduler \<Rightarrow> heartbeat_scheduler option" where
  "hb_step (HPause k) hs = Some (fst (hs_Pause k hs))"
| "hb_step (HResume k) hs = map_option fst (hs_Resume k hs)"
| "hb_step (HSetInterval k mins) hs = map_option fst (hs_SetInterval k mins hs)"
| "hb_step (HTick fs busy err now k) hs = Some (fst (hs_tick fs busy err now k hs))"
| "hb_step (HTrigger fs busy err now k) hs = Some (fst (hs_TriggerNow fs busy err now k hs))"

fun hb_run :: "hb_op list \<Rightarrow> heartbeat_scheduler \<Rightarrow> heartbeat_scheduler option" where
  "hb_run [] hs = Some hs"
| "hb_run (x # xs) hs = (case hb_step x hs of None \<Rightarrow> None | Some hs' \<Rightarrow> hb_run xs hs')"

text \<open>A start of the daemon: the projects register one after the other, then the tickers are started.\<close>

definition register_all :: "(string \<times> heartbeat_config \<times> string) list \<Rightarrow> heartbeat_scheduler \<Rightarrow> heartbeat_scheduler" where
  "register_all regs hs = fold (\<lambda>(k, c, w). Register k c w) regs hs"

definition boot :: "(string \<times> heartbeat_config \<times> string) list \<Rightarrow> heartbeat_file stored \<Rightarrow> heartbeat_scheduler option" where
  "boot regs disk = hs_Start (register_all regs (NewHeartbeatScheduler True disk True))"

section \<open>Entries and the file\<close>

abbreviation mins_of :: "heartbeat_entry \<Rightarrow> int" where
  "mins_of e \<equiv> hc_IntervalMins (he_config e)"

definition restored :: "heartbeat_persisted option \<Rightarrow> int \<Rightarrow> bool \<times> int" where
  "restored saved orig =
     (case saved of None \<Rightarrow> (False, orig)
      | Some p \<Rightarrow> (hp_Paused p, if hp_IntervalMins p > 0 then hp_IntervalMins p else orig))"

definition agrees :: "heartbeat_scheduler \<Rightarrow> string \<Rightarrow> heartbeat_entry \<Rightarrow> bool" where
  "agrees hs k e \<longleftrightarrow> 0 < mins_of e \<and> 0 < he_origIntervalMins e \<and>
     restored (loadProjectState k hs) (he_origIntervalMins e) = (he_paused e, mins_of e)"

definition file_inv :: "heartbeat_scheduler \<Rightarrow> bool" where
  "file_inv hs \<longleftrightarrow> hs_hasFile hs \<and> hs_writable hs \<and> wf_map (hs_entries hs) \<and> (\<forall>(k, e) \<in> set (hs_entries hs). agrees hs k e)"

definition positive :: "heartbeat_entry \<Rightarrow> bool" where
  "positive e \<longleftrightarrow> 0 < mins_of e \<and> 0 < he_origIntervalMins e"

lemma mget_worth_saving:
  assumes "wf_map m"
  shows "mget (mmap (\<lambda>_ e. Some (persisted_of e)) (filter (\<lambda>(_, e). worth_saving (persisted_of e)) m)) k =
    (case mget m k of Some e \<Rightarrow> if worth_saving (persisted_of e) then Some (Some (persisted_of e)) else None | None \<Rightarrow> None)"
  using mget_filter_keys [OF assms, of "\<lambda>_ e. worth_saving (persisted_of e)" k]
  by (simp add: mget_mmap split: option.splits)

text \<open>Saving writes what the entries hold, whatever the file held before.\<close>

lemma persist_loads:
  assumes "hs_hasFile hs" "hs_writable hs" "wf_map (hs_entries hs)" "mget (hs_entries hs) k = Some e"
  shows "loadProjectState k (persistLocked hs) = (if worth_saving (persisted_of e) then Some (persisted_of e) else None)"
proof -
  define states where "states = mmap (\<lambda>_ e. Some (persisted_of e)) (filter (\<lambda>(_, e). worth_saving (persisted_of e)) (hs_entries hs))"
  have g: "mget states k = (if worth_saving (persisted_of e) then Some (Some (persisted_of e)) else None)"
    unfolding states_def using mget_worth_saving [OF assms(3), of k] assms(4) by simp
  have "persistLocked hs = hs\<lparr>hs_disk := (if states = [] then NoFile else Doc states)\<rparr>"
    using assms(1,2) by (simp add: persistLocked_def states_def)
  then show ?thesis using g assms(1) by (auto simp: loadProjectState_def mget_or_def)
qed

lemma persist_entries [simp]: "hs_entries (persistLocked hs) = hs_entries hs"
  "hs_hasFile (persistLocked hs) = hs_hasFile hs" "hs_writable (persistLocked hs) = hs_writable hs"
  "hs_stopped (persistLocked hs) = hs_stopped hs"
  by (simp_all add: persistLocked_def Let_def)

lemma persist_inv:
  assumes "hs_hasFile hs" "hs_writable hs" "wf_map (hs_entries hs)" "\<forall>(k, e) \<in> set (hs_entries hs). positive e"
  shows "file_inv (persistLocked hs)"
proof -
  have "agrees (persistLocked hs) k e" if "(k, e) \<in> set (hs_entries hs)" for k e
  proof -
    have "mget (hs_entries hs) k = Some e" using that mget_in_set [OF assms(3)] by simp
    from persist_loads [OF assms(1-3) this] have "loadProjectState k (persistLocked hs) =
        (if worth_saving (persisted_of e) then Some (persisted_of e) else None)" .
    moreover have "positive e" using assms(4) that by blast
    ultimately show ?thesis by (auto simp: agrees_def restored_def persisted_of_def worth_saving_def positive_def)
  qed
  then show ?thesis using assms by (auto simp: file_inv_def)
qed

text \<open>An operation on one entry that saves, and one that changes neither pause nor interval.\<close>

lemma put_positive:
  assumes "file_inv hs" "positive e"
  shows "wf_map (hs_entries (put_entry k e hs))" "\<forall>(j, x) \<in> set (hs_entries (put_entry k e hs)). positive x"
  using assms by (auto simp: put_entry_def file_inv_def wfm set_put agrees_def positive_def)

lemma put_persist_inv: "file_inv hs \<Longrightarrow> positive e \<Longrightarrow> file_inv (persistLocked (put_entry k e hs))"
  using put_positive [of hs e k] by (intro persist_inv) (auto simp: put_entry_def file_inv_def)

lemma load_put [simp]: "loadProjectState j (put_entry k e hs) = loadProjectState j hs"
  by (simp add: put_entry_def loadProjectState_def)

lemma agrees_put [simp]: "agrees (put_entry k e hs) j x = agrees hs j x"
  by (simp add: agrees_def)

lemma put_stats_inv: "file_inv hs \<Longrightarrow> agrees hs k e \<Longrightarrow> file_inv (put_entry k e hs)"
  unfolding file_inv_def by (auto simp: wfm set_put put_entry_def agrees_def loadProjectState_def)

lemma entry_agrees: "file_inv hs \<Longrightarrow> mget (hs_entries hs) k = Some e \<Longrightarrow> agrees hs k e"
  using mget_in_set [of "hs_entries hs" k e] by (auto simp: file_inv_def)

lemma entry_positive: "file_inv hs \<Longrightarrow> mget (hs_entries hs) k = Some e \<Longrightarrow> positive e"
  using entry_agrees by (auto simp: agrees_def positive_def)

lemma execute_inv: "file_inv hs \<Longrightarrow> file_inv (fst (hs_execute fs busy err now k hs))"
proof (cases "mget (hs_entries hs) k")
  case (Some e)
  assume inv: "file_inv hs"
  then have "agrees hs k e" using Some entry_agrees by blast
  then show ?thesis using Some inv by (auto simp: hs_execute_def agrees_def intro!: put_stats_inv)
qed (simp add: hs_execute_def)

lemma step_inv: "file_inv hs \<Longrightarrow> hb_step x hs = Some hs' \<Longrightarrow> file_inv hs'"
proof (induction x hs rule: hb_step.induct)
  case (1 k hs)
  show ?case
  proof (cases "mget (hs_entries hs) k")
    case (Some e)
    then have "positive e" using 1(1) entry_positive by blast
    then show ?thesis using 1 Some by (auto simp: hs_Pause_def positive_def split: if_splits intro!: put_persist_inv)
  qed (use 1 in \<open>simp add: hs_Pause_def\<close>)
next
  case (2 k hs)
  show ?case
  proof (cases "mget (hs_entries hs) k")
    case (Some e)
    then have "positive e" using 2(1) entry_positive by blast
    then show ?thesis using 2 Some
      by (auto simp: hs_Resume_def reset_ticker_def Let_def positive_def split: if_splits intro!: put_persist_inv)
  qed (use 2 in \<open>simp add: hs_Resume_def\<close>)
next
  case (3 k mins hs)
  show ?case
  proof (cases "mget (hs_entries hs) k")
    case (Some e)
    then have "positive e" using 3(1) entry_positive by blast
    then show ?thesis using 3 Some
      by (auto simp: hs_SetInterval_def reset_ticker_def Let_def positive_def split: if_splits intro!: put_persist_inv)
  qed (use 3 in \<open>auto simp: hs_SetInterval_def split: if_splits\<close>)
next
  case (4 fs busy err now k hs)
  then show ?case using execute_inv [of hs fs busy err now k] by (auto simp: hs_tick_def split: option.splits if_splits)
next
  case (5 fs busy err now k hs)
  then show ?case using execute_inv [of hs fs busy err now k]
    by (auto simp: hs_TriggerNow_def split: option.splits if_splits prod.splits)
qed

lemma run_inv: "file_inv hs \<Longrightarrow> hb_run xs hs = Some hs' \<Longrightarrow> file_inv hs'"
  by (induction xs arbitrary: hs) (auto split: option.splits dest: step_inv)

lemma register_inv: "file_inv hs \<Longrightarrow> file_inv (Register k c w hs)"
  by (auto simp: Register_def Let_def file_inv_def wfm set_put agrees_def restored_def loadProjectState_def split: option.splits)

lemma register_all_inv: "file_inv hs \<Longrightarrow> file_inv (register_all regs hs)"
  unfolding register_all_def by (induction regs arbitrary: hs) (auto simp: register_inv)

lemma new_inv: "file_inv (NewHeartbeatScheduler True disk True)"
  by (simp add: NewHeartbeatScheduler_def file_inv_def)

lemma start_all_same:
  "start_all es = Some es' \<Longrightarrow> map fst es' = map fst es \<and>
     (\<forall>(k, e) \<in> set es'. he_ticker e = Some (Ticking (interval_of (mins_of e))) \<and> 0 < interval_of (mins_of e) \<and>
        (\<exists>e0. (k, e0) \<in> set es \<and> he_paused e = he_paused e0 \<and> mins_of e = mins_of e0 \<and> he_origIntervalMins e = he_origIntervalMins e0))"
  by (induction es arbitrary: es' rule: start_all.induct) (fastforce simp: startEntry_def Let_def split: option.splits if_splits)+

lemma boot_inv:
  assumes "boot regs disk = Some hs"
  shows "file_inv hs"
proof -
  let ?r = "register_all regs (NewHeartbeatScheduler True disk True)"
  have inv: "file_inv ?r" by (rule register_all_inv [OF new_inv])
  obtain es where es: "start_all (hs_entries ?r) = Some es" "hs = ?r\<lparr>hs_entries := es\<rparr>"
    using assms by (auto simp: boot_def hs_Start_def)
  note same = start_all_same [OF es(1)]
  have "agrees hs k e" if ke: "(k, e) \<in> set es" for k e
  proof -
    obtain e0 where "(k, e0) \<in> set (hs_entries ?r)" "he_paused e = he_paused e0" "mins_of e = mins_of e0"
        "he_origIntervalMins e = he_origIntervalMins e0"
      using same ke by fastforce
    then show ?thesis using inv es(2) by (auto simp: file_inv_def agrees_def loadProjectState_def)
  qed
  moreover have "wf_map es" using same inv by (simp add: wf_map_def file_inv_def)
  ultimately show ?thesis using inv es(2) by (auto simp: file_inv_def)
qed

section \<open>Tickers\<close>

definition ticks :: "heartbeat_entry \<Rightarrow> bool" where
  "ticks e \<longleftrightarrow> he_ticker e \<noteq> None \<and>
     (\<not> he_paused e \<longrightarrow> he_ticker e = Some (Ticking (interval_of (mins_of e))) \<and> 0 < interval_of (mins_of e))"

definition tick_inv :: "heartbeat_scheduler \<Rightarrow> bool" where
  "tick_inv hs \<longleftrightarrow> wf_map (hs_entries hs) \<and> (\<forall>k e. mget (hs_entries hs) k = Some e \<longrightarrow> ticks e)"

lemma tick_put: "tick_inv hs \<Longrightarrow> ticks e \<Longrightarrow> tick_inv (put_entry k e hs)"
  by (auto simp: tick_inv_def put_entry_def gomap wfm)

lemma tick_persist [simp]: "tick_inv (persistLocked hs) = tick_inv hs"
  by (simp add: tick_inv_def)

lemma tick_entry: "tick_inv hs \<Longrightarrow> mget (hs_entries hs) k = Some e \<Longrightarrow> ticks e"
  by (simp add: tick_inv_def)

lemma execute_tick: "tick_inv hs \<Longrightarrow> tick_inv (fst (hs_execute fs busy err now k hs))"
proof (cases "mget (hs_entries hs) k")
  case (Some e)
  assume inv: "tick_inv hs"
  then have "ticks e" using Some tick_entry by blast
  then show ?thesis using Some inv by (auto simp: hs_execute_def ticks_def intro!: tick_put)
qed (simp add: hs_execute_def)

lemma step_tick: "tick_inv hs \<Longrightarrow> hb_step x hs = Some hs' \<Longrightarrow> tick_inv hs'"
proof (induction x hs rule: hb_step.induct)
  case (1 k hs)
  show ?case
  proof (cases "mget (hs_entries hs) k")
    case (Some e)
    then have "ticks e" using 1(1) tick_entry by blast
    then show ?thesis using 1 Some by (auto simp: hs_Pause_def ticks_def split: if_splits intro!: tick_put)
  qed (use 1 in \<open>simp add: hs_Pause_def\<close>)
next
  case (2 k hs)
  show ?case
  proof (cases "mget (hs_entries hs) k")
    case (Some e)
    then have "ticks e" using 2(1) tick_entry by blast
    then show ?thesis using 2 Some
      by (auto simp: hs_Resume_def reset_ticker_def Let_def ticks_def split: if_splits intro!: tick_put)
  qed (use 2 in \<open>simp add: hs_Resume_def\<close>)
next
  case (3 k mins hs)
  show ?case
  proof (cases "mget (hs_entries hs) k")
    case (Some e)
    then have "ticks e" using 3(1) tick_entry by blast
    then show ?thesis using 3 Some
      by (auto simp: hs_SetInterval_def reset_ticker_def Let_def ticks_def intro!: tick_put split: if_splits)
  qed (use 3 in \<open>auto simp: hs_SetInterval_def split: if_splits\<close>)
next
  case (4 fs busy err now k hs)
  then show ?case using execute_tick [of hs fs busy err now k] by (auto simp: hs_tick_def split: option.splits if_splits)
next
  case (5 fs busy err now k hs)
  then show ?case using execute_tick [of hs fs busy err now k]
    by (auto simp: hs_TriggerNow_def split: option.splits if_splits prod.splits)
qed

lemma run_tick: "tick_inv hs \<Longrightarrow> hb_run xs hs = Some hs' \<Longrightarrow> tick_inv hs'"
  by (induction xs arbitrary: hs) (auto split: option.splits dest: step_tick)

lemma boot_tick:
  assumes "boot regs disk = Some hs"
  shows "tick_inv hs"
proof -
  obtain es where es: "start_all (hs_entries (register_all regs (NewHeartbeatScheduler True disk True))) = Some es" "hs_entries hs = es"
    using assms by (auto simp: boot_def hs_Start_def)
  have wf: "wf_map es" using boot_inv [OF assms] es(2) by (simp add: file_inv_def)
  then show ?thesis using start_all_same [OF es(1)] es(2) mget_in_set [OF wf] by (fastforce simp: tick_inv_def ticks_def)
qed

section \<open>Properties\<close>

text \<open>
  C34. A restart brings back every heartbeat as it was: after any sequence of pauses, resumes, changes of interval and
  runs since the start of the daemon, a new scheduler that reads the file and registers the project with the interval
  of its configuration has the same pause and the same interval.
\<close>

theorem heartbeat_survives_restart:
  assumes "boot regs disk = Some hs" "hb_run xs hs = Some hs'" "mget (hs_entries hs') k = Some e"
    and "hc_Enabled c" "hc_SessionKey c \<noteq> []" "(if hc_IntervalMins c \<le> 0 then 30 else hc_IntervalMins c) = he_origIntervalMins e"
  shows "\<exists>e'. mget (hs_entries (Register k c w (NewHeartbeatScheduler True (hs_disk hs') True))) k = Some e'
    \<and> he_paused e' = he_paused e \<and> mins_of e' = mins_of e"
proof -
  have inv: "file_inv hs'" using run_inv [OF boot_inv [OF assms(1)] assms(2)] .
  have "agrees hs' k e" using entry_agrees [OF inv assms(3)] .
  moreover have "loadProjectState k (NewHeartbeatScheduler True (hs_disk hs') True) = loadProjectState k hs'"
    using inv by (simp add: loadProjectState_def NewHeartbeatScheduler_def file_inv_def)
  ultimately show ?thesis
    using assms(4-6)
    by (auto simp: Register_def Let_def gomap agrees_def restored_def split: option.splits if_splits)
qed

text \<open>
  The tickers follow the settings: in every run a heartbeat that is not paused ticks at its current interval, and
  a tick of a paused one runs nothing and changes nothing.
\<close>

theorem heartbeat_follows_settings:
  assumes "boot regs disk = Some hs" "hb_run xs hs = Some hs'" "mget (hs_entries hs') k = Some e"
  shows "if he_paused e then hs_tick fs busy err now k hs' = (hs', None)
    else he_ticker e = Some (Ticking (interval_of (mins_of e))) \<and> 0 < interval_of (mins_of e)"
  using tick_entry [OF run_tick [OF boot_tick [OF assms(1)] assms(2)] assms(3)] assms(3)
  by (simp add: ticks_def hs_tick_def)

lemma huge_interval: "153722868 \<le> mins \<Longrightarrow> mins \<le> 307445734 \<Longrightarrow> interval_of mins \<le> 0"
proof -
  assume a: "153722868 \<le> mins" "mins \<le> 307445734"
  have "interval_of mins = mins * 60000000000 - 2 ^ 64"
  proof -
    have "(mins * 60000000000 + 2 ^ 63) mod 2 ^ 64 = mins * 60000000000 + 2 ^ 63 - 2 ^ 64"
      by (rule int_mod_pos_eq [where q = 1]) (use a in simp_all)
    then show ?thesis by (simp add: interval_of_def wrap64_def minute_def second_def)
  qed
  then show ?thesis using a by simp
qed

text \<open>
  An interval of more than 153 million minutes overflows the 64-bit duration: for a whole range of numbers the
  product is negative, and \<open>/heartbeat interval\<close>, which every user may send, makes the runtime panic.
\<close>

theorem huge_interval_crashes:
  assumes "mget (hs_entries hs) k = Some e" "he_ticker e \<noteq> None" "\<not> he_paused e" "153722868 \<le> mins" "mins \<le> 307445734"
  shows "cmdHeartbeat fs busy err now k [''interval'', itoa mins] hs = None"
proof -
  have "matchSubCommand (to_lower ''interval'') heartbeat_subs = ''interval''" by code_simp
  moreover have "atoi (itoa mins) = Some mins" using assms(4,5) by (intro atoi_itoa) simp_all
  moreover have "hs_SetInterval k mins hs = None"
    using assms huge_interval [OF assms(4,5)] by (simp add: hs_SetInterval_def reset_ticker_def Let_def)
  moreover have "hs_Status k hs \<noteq> None" using assms(1) by (simp add: hs_Status_def)
  ultimately show ?thesis using assms(4) by (simp add: cmdHeartbeat_def)
qed

section \<open>Examples\<close>

definition hourly :: heartbeat_config where
  "hourly = \<lparr>hc_Enabled = True, hc_IntervalMins = 60, hc_OnlyWhenIdle = True, hc_SessionKey = ''tg:1'', hc_Prompt = [],
             hc_Silent = False, hc_TimeoutMins = 0\<rparr>"

definition running :: heartbeat_entry where
  "running = \<lparr>he_config = hourly\<lparr>hc_TimeoutMins := 30\<rparr>, he_workDir = [], he_ticker = Some (Ticking (60 * minute)), he_stopped = False,
              he_paused = False, he_origIntervalMins = 60, he_runCount = 0, he_errorCount = 0, he_skippedBusy = 0,
              he_lastRun = 0, he_lastError = []\<rparr>"

definition one_project :: heartbeat_scheduler where
  "one_project = \<lparr>hs_entries = [(''p'', running)], hs_stopped = False, hs_hasFile = True, hs_disk = NoFile, hs_writable = True\<rparr>"

lemma boot_one: "boot [(''p'', hourly, [])] NoFile = Some one_project"
  by (simp add: boot_def register_all_def Register_def NewHeartbeatScheduler_def hourly_def hs_Start_def startEntry_def
      loadProjectState_def interval_of_def wrap64_def minute_def second_def one_project_def running_def)

definition slowed :: heartbeat_entry where
  "slowed = running\<lparr>he_paused := True, he_ticker := Some Halted, he_config := hourly\<lparr>hc_TimeoutMins := 30, hc_IntervalMins := 90\<rparr>\<rparr>"

lemma run_one: "hb_run [HSetInterval ''p'' 90, HPause ''p''] one_project =
    Some (one_project\<lparr>hs_entries := [(''p'', slowed)], hs_disk := Doc [(''p'', Some \<lparr>hp_Paused = True, hp_IntervalMins = 90\<rparr>)]\<rparr>)"
  by (simp add: hs_SetInterval_def hs_Pause_def reset_ticker_def interval_of_def wrap64_def minute_def second_def one_project_def
      running_def slowed_def hourly_def put_entry_def persistLocked_def persisted_of_def worth_saving_def mmap_def)

theorem heartbeat_survives_restart_witness:
  "\<exists>e'. mget (hs_entries (Register ''p'' hourly [] (NewHeartbeatScheduler True
      (Doc [(''p'', Some \<lparr>hp_Paused = True, hp_IntervalMins = 90\<rparr>)]) True))) ''p'' = Some e' \<and> he_paused e' \<and> mins_of e' = 90"
proof -
  let ?hs = "one_project\<lparr>hs_entries := [(''p'', slowed)], hs_disk := Doc [(''p'', Some \<lparr>hp_Paused = True, hp_IntervalMins = 90\<rparr>)]\<rparr>"
  have e: "mget (hs_entries ?hs) ''p'' = Some slowed" by simp
  have "\<exists>e'. mget (hs_entries (Register ''p'' hourly [] (NewHeartbeatScheduler True (hs_disk ?hs) True))) ''p'' = Some e'
      \<and> he_paused e' = he_paused slowed \<and> mins_of e' = mins_of slowed"
    by (rule heartbeat_survives_restart [OF boot_one run_one e]) (simp_all add: hourly_def slowed_def running_def)
  then show ?thesis by (simp add: slowed_def)
qed

theorem heartbeat_follows_settings_witness:
  "he_ticker running = Some (Ticking (interval_of 60)) \<and> 0 < interval_of 60"
  using heartbeat_follows_settings [OF boot_one, of "[]" one_project "''p''" running "\<lparr>fs_read_file = (\<lambda>_. None), fs_read_dir = (\<lambda>_. None), fs_cwd = None\<rparr>" True None 0]
  by (simp add: one_project_def) (simp add: running_def hourly_def)

theorem huge_interval_crashes_witness:
  "cmdHeartbeat \<lparr>fs_read_file = (\<lambda>_. None), fs_read_dir = (\<lambda>_. None), fs_cwd = None\<rparr> False None 0 ''p'' [''interval'', itoa 200000000] one_project = None"
  by (rule huge_interval_crashes [where e = running]) (simp_all add: one_project_def running_def)

text \<open>An override of a project that is not registered in this run is lost with the next change of any other.\<close>

lemma foreign_override_dropped:
  assumes "hs_hasFile hs" "hs_writable hs" "wf_map (hs_entries hs)" "mget (hs_entries hs) k = None"
  shows "loadProjectState k (persistLocked hs) = None"
proof -
  define states where "states = mmap (\<lambda>_ e. Some (persisted_of e)) (filter (\<lambda>(_, e). worth_saving (persisted_of e)) (hs_entries hs))"
  have "mget states k = None" unfolding states_def using mget_worth_saving [OF assms(3), of k] assms(4) by simp
  moreover have "persistLocked hs = hs\<lparr>hs_disk := (if states = [] then NoFile else Doc states)\<rparr>"
    using assms(1,2) by (simp add: persistLocked_def states_def)
  ultimately show ?thesis by (simp add: loadProjectState_def mget_or_def)
qed

end
