(* ===== verification/Relay.thy ===== *)
theory Relay
  imports InteractiveState
begin

text \<open>
  Relaying messages between the projects bound in a group chat (\<open>src/core/relay.go\<close>, and \<open>cmdBind\<close> in
  \<open>src/core/engine.go\<close>): the manager with its file, \<open>Send\<close> with the echoes it posts to the chat, and the command
  \<open>/bind\<close>. The file may hold a null document, null bindings and null maps of bots; writing to such a map panics, which
  is the value \<open>None\<close>. What the target project answers is an argument of \<open>rm_Send\<close>.
\<close>

definition relayTimeout :: duration where "relayTimeout = 120 * second"

definition RelayVisibilityFull :: string where "RelayVisibilityFull = ''full''"
definition RelayVisibilitySummary :: string where "RelayVisibilitySummary = ''summary''"
definition RelayVisibilityNone :: string where "RelayVisibilityNone = ''none''"

record relay_binding =
  rb_Platform :: string
  rb_ChatID :: string
  rb_Bots :: "(string, string) gomap option"

type_synonym relay_bindings = "(string, relay_binding option) gomap"

text \<open>
  A platform of a project as the relay uses it: its name, the reply context for a session key (when it can reconstruct
  one, which may fail), and the key for echoes (when it chooses one).
\<close>

record 'c relay_platform =
  rp_name :: string
  rp_replyCtx :: "(string \<Rightarrow> 'c option) option"
  rp_visibilityKey :: "(string \<Rightarrow> string option) option"

record 'c relay_manager =
  rm_engines :: "(string, 'c relay_platform list) gomap"
  rm_bindings :: relay_bindings
  rm_hasStore :: bool
  rm_timeout :: duration
  rm_visibility :: string
  rm_disk :: "relay_bindings option stored"
  rm_writable :: bool

section \<open>The file\<close>

definition rm_saveLocked :: "'c relay_manager \<Rightarrow> 'c relay_manager" where
  "rm_saveLocked rm =
     (if \<not> rm_hasStore rm \<or> \<not> rm_writable rm then rm else rm\<lparr>rm_disk := Doc (Some (rm_bindings rm))\<rparr>)"

definition rm_load :: "'c relay_manager \<Rightarrow> 'c relay_manager" where
  "rm_load rm =
     (if \<not> rm_hasStore rm then rm
      else (case rm_disk rm of Doc (Some bindings) \<Rightarrow> rm\<lparr>rm_bindings := bindings\<rparr> | _ \<Rightarrow> rm))"

definition NewRelayManager :: "bool \<Rightarrow> relay_bindings option stored \<Rightarrow> bool \<Rightarrow> 'c relay_manager" where
  "NewRelayManager hasDir disk writable =
     (let rm = \<lparr>rm_engines = [], rm_bindings = [], rm_hasStore = hasDir, rm_timeout = relayTimeout,
                rm_visibility = RelayVisibilityFull, rm_disk = disk, rm_writable = writable\<rparr>
      in if hasDir then rm_load rm else rm)"

section \<open>Settings and bindings\<close>

definition RegisterEngine :: "string \<Rightarrow> 'c relay_platform list \<Rightarrow> 'c relay_manager \<Rightarrow> 'c relay_manager" where
  "RegisterEngine name e rm = rm\<lparr>rm_engines := mput name e (rm_engines rm)\<rparr>"

definition SetTimeout :: "duration \<Rightarrow> 'c relay_manager \<Rightarrow> 'c relay_manager" where
  "SetTimeout d rm = rm\<lparr>rm_timeout := (if d < 0 then 0 else d)\<rparr>"

definition normalizeRelayVisibility :: "string \<Rightarrow> string" where
  "normalizeRelayVisibility mode =
     (let m = to_lower (trim_space mode)
      in if m = RelayVisibilityNone then RelayVisibilityNone
         else if m = RelayVisibilitySummary then RelayVisibilitySummary
         else RelayVisibilityFull)"

definition SetVisibility :: "string \<Rightarrow> 'c relay_manager \<Rightarrow> 'c relay_manager" where
  "SetVisibility mode rm = rm\<lparr>rm_visibility := normalizeRelayVisibility mode\<rparr>"

text \<open>The binding of a chat; a null entry counts as none.\<close>

definition GetBinding :: "string \<Rightarrow> 'c relay_manager \<Rightarrow> relay_binding option" where
  "GetBinding chatID rm = mget_or None (rm_bindings rm) chatID"

definition rm_Bind :: "string \<Rightarrow> string \<Rightarrow> (string, string) gomap option \<Rightarrow> 'c relay_manager \<Rightarrow> 'c relay_manager" where
  "rm_Bind platform chatID bots rm =
     rm_saveLocked (rm\<lparr>rm_bindings := mput chatID (Some \<lparr>rb_Platform = platform, rb_ChatID = chatID, rb_Bots = bots\<rparr>) (rm_bindings rm)\<rparr>)"

definition AddToBind :: "string \<Rightarrow> string \<Rightarrow> string \<Rightarrow> 'c relay_manager \<Rightarrow> 'c relay_manager option" where
  "AddToBind platform chatID projectName rm =
     (let b = (case GetBinding chatID rm of
                 Some b \<Rightarrow> b
               | None \<Rightarrow> \<lparr>rb_Platform = platform, rb_ChatID = chatID, rb_Bots = Some []\<rparr>)
      in (case rb_Bots b of
            None \<Rightarrow> None
          | Some bots \<Rightarrow>
              Some (rm_saveLocked
                (rm\<lparr>rm_bindings := mput chatID (Some (b\<lparr>rb_Bots := Some (mput projectName projectName bots)\<rparr>)) (rm_bindings rm)\<rparr>))))"

definition bots_of :: "relay_binding \<Rightarrow> (string, string) gomap" where
  "bots_of b = (case rb_Bots b of Some m \<Rightarrow> m | None \<Rightarrow> [])"

definition RemoveFromBind :: "string \<Rightarrow> string \<Rightarrow> 'c relay_manager \<Rightarrow> 'c relay_manager \<times> bool" where
  "RemoveFromBind chatID projectName rm =
     (case GetBinding chatID rm of
        None \<Rightarrow> (rm, False)
      | Some b \<Rightarrow>
          if mget (bots_of b) projectName = None then (rm, False)
          else let bots = mdel projectName (bots_of b)
               in (rm_saveLocked (rm\<lparr>rm_bindings :=
                     (if bots = [] then mdel chatID (rm_bindings rm)
                      else mput chatID (Some (b\<lparr>rb_Bots := Some bots\<rparr>)) (rm_bindings rm))\<rparr>), True))"

definition rm_Unbind :: "string \<Rightarrow> 'c relay_manager \<Rightarrow> 'c relay_manager" where
  "rm_Unbind chatID rm = rm_saveLocked (rm\<lparr>rm_bindings := mdel chatID (rm_bindings rm)\<rparr>)"

definition HasEngine :: "string \<Rightarrow> 'c relay_manager \<Rightarrow> bool" where
  "HasEngine name rm \<longleftrightarrow> mget (rm_engines rm) name \<noteq> None"

definition ListEngineNames :: "'c relay_manager \<Rightarrow> string list" where
  "ListEngineNames rm = map fst (rm_engines rm)"

definition ListBoundBots :: "string \<Rightarrow> string \<Rightarrow> 'c relay_manager \<Rightarrow> (string, string) gomap option" where
  "ListBoundBots chatID selfProject rm =
     map_option (\<lambda>b. filter (\<lambda>(proj, _). proj \<noteq> selfProject) (bots_of b)) (GetBinding chatID rm)"

section \<open>Labels\<close>

definition truncateRelay :: "string \<Rightarrow> int \<Rightarrow> string" where
  "truncateRelay s maxLen =
     (if int (length (runes s)) \<le> maxLen then s else of_runes (take (nat maxLen) (runes s)) @ of_runes [0x2026])"

definition relay_arrow :: string where
  "relay_arrow = '' '' @ of_runes [0x2192] @ '' ''"

definition relayVisibilityRequestLabel :: "string \<Rightarrow> string \<Rightarrow> string \<Rightarrow> string \<Rightarrow> string" where
  "relayVisibilityRequestLabel mode fromName toName message =
     ''['' @ fromName @ relay_arrow @ toName @ ''] '' @
     (if normalizeRelayVisibility mode = RelayVisibilitySummary then ''relay request sent'' else message)"

definition relayVisibilityResponseLabel :: "string \<Rightarrow> string \<Rightarrow> string \<Rightarrow> string" where
  "relayVisibilityResponseLabel mode toName response =
     ''['' @ toName @ ''] '' @
     (if normalizeRelayVisibility mode = RelayVisibilitySummary
      then ''relay response ready ('' @ itoa (int (length (runes response))) @ '' chars)''
      else truncateRelay response 2000)"

section \<open>Sending\<close>

definition parseSessionKeyParts :: "string \<Rightarrow> (string \<times> string) option" where
  "parseSessionKeyParts sessionKey =
     (case split_n (CHR '':'') 3 sessionKey of
        [a, b, c] \<Rightarrow> Some (if a = ''relay'' then (a, c) else (a, b))
      | [a, b] \<Rightarrow> Some (a, b)
      | _ \<Rightarrow> None)"

definition workspaceChannelKey :: "string \<Rightarrow> string \<Rightarrow> string" where
  "workspaceChannelKey platformName channelID =
     (if channelID = [] then [] else if platformName = [] then channelID else platformName @ '':'' @ channelID)"

definition relayConversationKey :: "string \<Rightarrow> string \<Rightarrow> string \<Rightarrow> string" where
  "relayConversationKey fromProject platformName chatID =
     ''relay:'' @ fromProject @ '':'' @ workspaceChannelKey platformName chatID"

definition resolveGroupVisibilityKey :: "string \<Rightarrow> string \<Rightarrow> string \<Rightarrow> 'c relay_platform list option \<Rightarrow> string" where
  "resolveGroupVisibilityKey platform chatID callerSessionKey sourceEngine =
     (let defaultKey = platform @ '':'' @ chatID @ '':relay''
      in (case sourceEngine of
            None \<Rightarrow> defaultKey
          | Some ps \<Rightarrow>
              (case find (\<lambda>p. rp_name p = platform) ps of
                 None \<Rightarrow> defaultKey
               | Some p \<Rightarrow>
                   (case rp_visibilityKey p of
                      None \<Rightarrow> defaultKey
                    | Some f \<Rightarrow> (case f callerSessionKey of Some k \<Rightarrow> if k \<noteq> [] then k else defaultKey | None \<Rightarrow> defaultKey)))))"

text \<open>The first platform of that name that can reconstruct the reply context gets the echo.\<close>

fun sendToGroup :: "'c relay_platform list \<Rightarrow> string \<Rightarrow> string \<Rightarrow> string \<Rightarrow> ('c \<times> string) list" where
  "sendToGroup [] platform key content = []"
| "sendToGroup (p # ps) platform key content =
     (if rp_name p \<noteq> platform then sendToGroup ps platform key content
      else (case rp_replyCtx p of
              None \<Rightarrow> sendToGroup ps platform key content
            | Some f \<Rightarrow> (case f key of None \<Rightarrow> sendToGroup ps platform key content | Some rctx \<Rightarrow> [(rctx, content)])))"

definition relayContext :: "'c relay_manager \<Rightarrow> duration option" where
  "relayContext rm = (if rm_timeout rm \<le> 0 then None else Some (rm_timeout rm))"

record relay_request =
  rq_From :: string
  rq_To :: string
  rq_SessionKey :: string
  rq_Message :: string

datatype relay_error =
    InvalidSessionKey
  | NoRelayBinding
  | NotBound string "string list"
  | TargetNotFound string
  | RelayFailed string

text \<open>The turn of the target project: the sender, the session key, the message and the time-out.\<close>

record relay_call =
  rc_To :: string
  rc_From :: string
  rc_SessionKey :: string
  rc_Message :: string
  rc_Timeout :: "duration option"

definition display_name :: "(string, string) gomap \<Rightarrow> string \<Rightarrow> string" where
  "display_name bots project = (if mget_or [] bots project \<noteq> [] then mget_or [] bots project else project)"

definition rm_Send :: "(relay_call \<Rightarrow> string + string) \<Rightarrow> relay_request \<Rightarrow> 'c relay_manager
    \<Rightarrow> (relay_error + string) \<times> relay_call list \<times> ('c \<times> string) list" where
  "rm_Send handle req rm =
     (case parseSessionKeyParts (rq_SessionKey req) of
        None \<Rightarrow> (Inl InvalidSessionKey, [], [])
      | Some (platform, chatID) \<Rightarrow>
          (case GetBinding chatID rm of
             None \<Rightarrow> (Inl NoRelayBinding, [], [])
           | Some binding \<Rightarrow>
               let bots = bots_of binding; source = mget (rm_engines rm) (rq_From req)
               in if mget bots (rq_To req) = None
                  then (Inl (NotBound (rq_To req) (filter (\<lambda>proj. proj \<noteq> rq_From req) (map fst bots))), [], [])
                  else (case mget (rm_engines rm) (rq_To req) of
                          None \<Rightarrow> (Inl (TargetNotFound (rq_To req)), [], [])
                        | Some target \<Rightarrow>
                            let fromName = display_name bots (rq_From req); toName = display_name bots (rq_To req);
                                key = resolveGroupVisibilityKey platform chatID (rq_SessionKey req) source;
                                visible = rm_visibility rm \<noteq> RelayVisibilityNone;
                                asked = (case source of
                                           Some e \<Rightarrow> if visible then sendToGroup e platform key
                                                       (relayVisibilityRequestLabel (rm_visibility rm) fromName toName (rq_Message req))
                                                     else []
                                         | None \<Rightarrow> []);
                                call = \<lparr>rc_To = rq_To req, rc_From = rq_From req, rc_SessionKey = rq_SessionKey req,
                                        rc_Message = rq_Message req, rc_Timeout = relayContext rm\<rparr>
                            in (case handle call of
                                  Inl err \<Rightarrow> (Inl (RelayFailed err), [call], asked)
                                | Inr response \<Rightarrow>
                                    (Inr response, [call],
                                     asked @ (if visible then sendToGroup target platform key
                                                (relayVisibilityResponseLabel (rm_visibility rm) toName response)
                                              else []))))))"

section \<open>The command \<open>/bind\<close>\<close>

datatype bind_answer =
    RelayNotAvailable
  | RelayNoBinding
  | RelayBound "string list"
  | RelayUnbound
  | RelaySetup
  | RelayUsage
  | RelayBindRemoved string
  | RelayBindNotFound string
  | RelayBindSelf
  | RelayNoTarget string
  | RelayNotFound string "string list"
  | RelayBindSuccess "string list" string

definition cmdBindStatus :: "string \<Rightarrow> 'c relay_manager \<Rightarrow> bind_answer" where
  "cmdBindStatus chatID rm =
     (case GetBinding chatID rm of None \<Rightarrow> RelayNoBinding | Some b \<Rightarrow> RelayBound (map fst (bots_of b)))"

definition unbind_words :: "string list" where
  "unbind_words = [''remove'', ''rm'', ''unbind'', ''del'', ''clear'']"

definition help_words :: "string list" where
  "help_words = [''help'', ''-h'', ''--help'']"

definition cmdBind :: "string \<Rightarrow> string \<Rightarrow> string \<Rightarrow> string list \<Rightarrow> 'c relay_manager option
    \<Rightarrow> ('c relay_manager option \<times> bind_answer) option" where
  "cmdBind self platform sessionKey args mgr =
     (case mgr of
        None \<Rightarrow> Some (None, RelayNotAvailable)
      | Some rm \<Rightarrow>
          (case parseSessionKeyParts sessionKey of
             None \<Rightarrow> Some (Some rm, RelayNotAvailable)
           | Some (_, chatID) \<Rightarrow>
               (case args of
                  [] \<Rightarrow> Some (Some rm, cmdBindStatus chatID rm)
                | other # _ \<Rightarrow>
                    if other \<in> set unbind_words then Some (Some (rm_Unbind chatID rm), RelayUnbound)
                    else if other = ''setup'' then Some (Some rm, RelaySetup)
                    else if other \<in> set help_words then Some (Some rm, RelayUsage)
                    else if has_prefix other ''-'' then
                      (let project = trim_prefix other ''-''; (rm', found) = RemoveFromBind chatID project rm
                       in Some (Some rm', if found then RelayBindRemoved project else RelayBindNotFound project))
                    else if other = self then Some (Some rm, RelayBindSelf)
                    else if \<not> HasEngine other rm then
                      (let others = filter (\<lambda>n. n \<noteq> self) (ListEngineNames rm)
                       in Some (Some rm, if others = [] then RelayNoTarget other else RelayNotFound other others))
                    else (case AddToBind platform chatID self rm of
                            None \<Rightarrow> None
                          | Some rm1 \<Rightarrow>
                              (case AddToBind platform chatID other rm1 of
                                 None \<Rightarrow> None
                               | Some rm2 \<Rightarrow>
                                   (case GetBinding chatID rm2 of
                                      None \<Rightarrow> None
                                    | Some b \<Rightarrow> Some (Some rm2, RelayBindSuccess (map fst (bots_of b)) other)))))))"

end
