(* ===== verification/RelayProperties.thy ===== *)
theory RelayProperties
  imports Relay
begin

text \<open>
  What the relay promises: the set of projects bound in each chat, as an abstract specification the commands and the
  sending of messages implement, and the file that keeps the bindings.
\<close>

section \<open>The abstract state\<close>

definition bots_in :: "string \<Rightarrow> 'c relay_manager \<Rightarrow> (string, string) gomap" where
  "bots_in chat rm = (case GetBinding chat rm of Some b \<Rightarrow> bots_of b | None \<Rightarrow> [])"

definition bound :: "'c relay_manager \<Rightarrow> (string \<times> string) set" where
  "bound rm = {(chat, project). mget (bots_in chat rm) project \<noteq> None}"

lemma in_bound: "(c, p) \<in> bound rm \<longleftrightarrow> mget (bots_in c rm) p \<noteq> None"
  by (simp add: bound_def)

lemma boundI: "(\<And>c p. (mget (bots_in c rm) p \<noteq> None) = ((c, p) \<in> S)) \<Longrightarrow> bound rm = S"
  by (auto simp: bound_def)

lemma save_fields [simp]:
  "rm_bindings (rm_saveLocked rm) = rm_bindings rm" "rm_engines (rm_saveLocked rm) = rm_engines rm"
  "rm_visibility (rm_saveLocked rm) = rm_visibility rm" "rm_hasStore (rm_saveLocked rm) = rm_hasStore rm"
  "rm_writable (rm_saveLocked rm) = rm_writable rm" "GetBinding c (rm_saveLocked rm) = GetBinding c rm"
  "bots_in c (rm_saveLocked rm) = bots_in c rm"
  by (simp_all add: rm_saveLocked_def GetBinding_def bots_in_def)

lemma bots_put [simp]:
  "bots_in c (rm\<lparr>rm_bindings := mput c' (Some b) (rm_bindings rm)\<rparr>) = (if c = c' then bots_of b else bots_in c rm)"
  "bots_in c (rm\<lparr>rm_bindings := mdel c' (rm_bindings rm)\<rparr>) = (if c = c' then [] else bots_in c rm)"
  by (simp_all add: GetBinding_def bots_in_def gomap)

lemma add_shape:
  assumes "AddToBind pl c p rm = Some rm'"
  obtains b where "rm' = rm_saveLocked (rm\<lparr>rm_bindings := mput c (Some b) (rm_bindings rm)\<rparr>)" "bots_of b = mput p p (bots_in c rm)"
  using assms by (auto simp: AddToBind_def Let_def bots_of_def bots_in_def split: option.splits)

lemma bound_add:
  assumes "AddToBind pl c p rm = Some rm'"
  shows "bound rm' = insert (c, p) (bound rm)"
proof -
  obtain b where b: "rm' = rm_saveLocked (rm\<lparr>rm_bindings := mput c (Some b) (rm_bindings rm)\<rparr>)" "bots_of b = mput p p (bots_in c rm)"
    using assms by (rule add_shape)
  show ?thesis by (rule boundI) (simp add: b gomap in_bound)
qed

lemma bound_unbind: "bound (rm_Unbind c rm) = {x \<in> bound rm. fst x \<noteq> c}"
  by (rule boundI) (simp add: rm_Unbind_def in_bound)

lemma only_key: "mdel p m = [] \<Longrightarrow> mget m q = Some v \<Longrightarrow> q = p"
  by (metis mget_del map_of.simps(1) option.distinct(1))

lemma remove_shape:
  obtains "RemoveFromBind c p rm = (rm, False)" "mget (bots_in c rm) p = None"
  | b where "RemoveFromBind c p rm = (rm_saveLocked (rm\<lparr>rm_bindings := mput c (Some b) (rm_bindings rm)\<rparr>), True)"
      "bots_of b = mdel p (bots_in c rm)"
  | "RemoveFromBind c p rm = (rm_saveLocked (rm\<lparr>rm_bindings := mdel c (rm_bindings rm)\<rparr>), True)" "mdel p (bots_in c rm) = []"
proof (cases "GetBinding c rm")
  case None
  then show ?thesis using that(1) by (simp add: RemoveFromBind_def bots_in_def)
next
  case (Some b)
  then have b: "bots_in c rm = bots_of b" by (simp add: bots_in_def)
  show ?thesis
  proof (cases "mget (bots_of b) p = None")
    case True
    then show ?thesis using that(1) Some b by (simp add: RemoveFromBind_def)
  next
    case False
    then show ?thesis
      using that(3) that(2) [of "b\<lparr>rb_Bots := Some (mdel p (bots_of b))\<rparr>"] Some b
      by (cases "mdel p (bots_of b) = []") (simp_all add: RemoveFromBind_def bots_of_def)
  qed
qed

lemma bound_remove: "bound (fst (RemoveFromBind c p rm)) = bound rm - {(c, p)}"
proof (cases rule: remove_shape [of c p rm])
  case 1
  then show ?thesis by (auto simp: bound_def)
next
  case (2 b)
  show ?thesis by (rule boundI) (simp add: 2 gomap in_bound)
next
  case 3
  have "mget (bots_in c rm) q = None" if "q \<noteq> p" for q using only_key [OF 3(2)] that by (metis option.exhaust)
  then show ?thesis by (intro boundI) (auto simp: 3(1) in_bound)
qed

lemma add_engines: "AddToBind pl c p rm = Some rm' \<Longrightarrow> rm_engines rm' = rm_engines rm \<and> rm_hasStore rm' = rm_hasStore rm
    \<and> rm_writable rm' = rm_writable rm"
  by (auto simp: AddToBind_def Let_def split: option.splits)

lemma remove_engines: "rm_engines (fst (RemoveFromBind c p rm)) = rm_engines rm"
  by (cases rule: remove_shape [of c p rm]) simp_all

section \<open>The command\<close>

text \<open>What a \<open>/bind\<close> of one project in one chat is to do to the set of bound projects.\<close>

definition bind_spec :: "string set \<Rightarrow> string \<Rightarrow> string \<Rightarrow> string list \<Rightarrow> (string \<times> string) set \<Rightarrow> (string \<times> string) set" where
  "bind_spec running_projects self chat args S =
     (case args of
        [] \<Rightarrow> S
      | a # _ \<Rightarrow>
          if a \<in> set unbind_words then {x \<in> S. fst x \<noteq> chat}
          else if a = ''setup'' \<or> a \<in> set help_words then S
          else if has_prefix a ''-'' then S - {(chat, tl a)}
          else if a = self \<or> a \<notin> running_projects then S
          else S \<union> {(chat, self), (chat, a)})"

definition running_projects :: "'c relay_manager \<Rightarrow> string set" where
  "running_projects rm = mkeys (rm_engines rm)"

lemma has_engine: "HasEngine p rm \<longleftrightarrow> p \<in> running_projects rm"
  by (simp add: HasEngine_def running_projects_def mget_None_keys)

lemma trim_minus: "has_prefix a ''-'' \<Longrightarrow> trim_prefix a ''-'' = tl a"
  by (cases a) (auto simp: trim_prefix_def has_prefix_def)

lemma bind_command:
  assumes "cmdBind self platform key args (Some rm) = Some (Some rm', answer)" "parseSessionKeyParts key = Some (pl, chat)"
  shows "bound rm' = bind_spec (running_projects rm) self chat args (bound rm) \<and> rm_engines rm' = rm_engines rm"
proof (cases args)
  case Nil
  then show ?thesis using assms by (simp add: cmdBind_def bind_spec_def)
next
  case (Cons a rest)
  consider (clear) "a \<in> set unbind_words"
    | (talk) "a \<notin> set unbind_words" "a = ''setup'' \<or> a \<in> set help_words"
    | (minus) "a \<notin> set unbind_words" "a \<noteq> ''setup''" "a \<notin> set help_words" "has_prefix a ''-''"
    | (refused) "a \<notin> set unbind_words" "a \<noteq> ''setup''" "a \<notin> set help_words" "\<not> has_prefix a ''-''"
        "a = self \<or> a \<notin> running_projects rm"
    | (add) "a \<notin> set unbind_words" "a \<noteq> ''setup''" "a \<notin> set help_words" "\<not> has_prefix a ''-''"
        "a \<noteq> self" "a \<in> running_projects rm"
    by blast
  then show ?thesis
  proof cases
    case clear
    then show ?thesis using assms Cons clear by (auto simp: cmdBind_def bind_spec_def bound_unbind) (auto simp: rm_Unbind_def)
  next
    case talk
    have "rm' = rm" using assms Cons talk by (cases "a = ''setup''") (simp_all add: cmdBind_def)
    then show ?thesis using Cons talk by (simp add: bind_spec_def)
  next
    case minus
    have "rm' = fst (RemoveFromBind chat (trim_prefix a ''-'') rm)"
      using assms Cons minus by (simp add: cmdBind_def Let_def split: prod.splits)
    then show ?thesis using Cons minus by (simp add: bind_spec_def bound_remove remove_engines trim_minus)
  next
    case refused
    have "rm' = rm" using assms Cons refused by (cases "a = self") (simp_all add: cmdBind_def has_engine Let_def)
    then show ?thesis using Cons refused by (auto simp: bind_spec_def)
  next
    case add
    obtain rm1 rm2 where steps: "AddToBind platform chat self rm = Some rm1" "AddToBind platform chat a rm1 = Some rm2" "rm' = rm2"
      using assms Cons add by (auto simp: cmdBind_def has_engine split: option.splits)
    then show ?thesis using Cons add bound_add [OF steps(1)] bound_add [OF steps(2)] add_engines [OF steps(1)] add_engines [OF steps(2)]
      by (auto simp: bind_spec_def)
  qed
qed

text \<open>Commands of any projects, in any chats, one after the other; \<open>None\<close> is a panic.\<close>

record bind_request =
  br_self :: string
  br_platform :: string
  br_sessionKey :: string
  br_args :: "string list"

fun bind_run :: "bind_request list \<Rightarrow> 'c relay_manager \<Rightarrow> 'c relay_manager option" where
  "bind_run [] rm = Some rm"
| "bind_run (q # qs) rm =
     (case cmdBind (br_self q) (br_platform q) (br_sessionKey q) (br_args q) (Some rm) of
        Some (Some rm', _) \<Rightarrow> bind_run qs rm'
      | _ \<Rightarrow> None)"

definition spec_step :: "string set \<Rightarrow> bind_request \<Rightarrow> (string \<times> string) set \<Rightarrow> (string \<times> string) set" where
  "spec_step names q S =
     (case parseSessionKeyParts (br_sessionKey q) of
        None \<Rightarrow> S | Some (_, chat) \<Rightarrow> bind_spec names (br_self q) chat (br_args q) S)"

lemma bind_run_refines:
  "bind_run qs rm = Some rm' \<Longrightarrow> bound rm' = fold (spec_step (running_projects rm)) qs (bound rm) \<and> rm_engines rm' = rm_engines rm"
proof (induction qs arbitrary: rm)
  case (Cons q qs)
  obtain rm1 ans where step: "cmdBind (br_self q) (br_platform q) (br_sessionKey q) (br_args q) (Some rm) = Some (Some rm1, ans)"
      and rest: "bind_run qs rm1 = Some rm'"
    using Cons.prems by (auto split: option.splits prod.splits)
  have "bound rm1 = spec_step (running_projects rm) q (bound rm) \<and> rm_engines rm1 = rm_engines rm"
  proof (cases "parseSessionKeyParts (br_sessionKey q)")
    case None
    then show ?thesis using step by (simp add: cmdBind_def spec_step_def)
  next
    case (Some pc)
    then show ?thesis using bind_command [OF step] by (cases pc) (simp add: spec_step_def)
  qed
  then show ?case using Cons.IH [OF rest] by (simp add: running_projects_def)
qed simp

section \<open>Sending\<close>

definition delivered :: "(relay_error + string) \<times> relay_call list \<times> ('c \<times> string) list \<Rightarrow> relay_call list" where
  "delivered r = fst (snd r)"

lemma send_delivers:
  "delivered (rm_Send handle req rm) =
     (case parseSessionKeyParts (rq_SessionKey req) of
        Some (_, chat) \<Rightarrow>
          if (chat, rq_To req) \<in> bound rm \<and> rq_To req \<in> running_projects rm
          then [\<lparr>rc_To = rq_To req, rc_From = rq_From req, rc_SessionKey = rq_SessionKey req,
                 rc_Message = rq_Message req, rc_Timeout = relayContext rm\<rparr>]
          else []
      | None \<Rightarrow> [])"
proof (cases "parseSessionKeyParts (rq_SessionKey req)")
  case (Some pc)
  obtain pl chat where pc: "pc = (pl, chat)" by (cases pc)
  show ?thesis
  proof (cases "GetBinding chat rm")
    case None
    then show ?thesis using Some pc by (simp add: rm_Send_def delivered_def in_bound bots_in_def)
  next
    case (Some b)
    then show ?thesis using \<open>parseSessionKeyParts _ = Some pc\<close> pc
      by (cases "mget (rm_engines rm) (rq_To req)")
        (auto simp: rm_Send_def delivered_def in_bound bots_in_def Let_def running_projects_def mget_None_keys [symmetric] split: sum.splits)
  qed
qed (simp add: rm_Send_def delivered_def)

lemma add_timeout: "AddToBind pl c p rm = Some rm' \<Longrightarrow> rm_timeout rm' = rm_timeout rm"
  by (auto simp: AddToBind_def Let_def rm_saveLocked_def split: option.splits if_splits)

section \<open>The file\<close>

definition disk_agrees :: "'c relay_manager \<Rightarrow> bool" where
  "disk_agrees rm \<longleftrightarrow> rm_hasStore rm \<and> rm_writable rm \<and>
     rm_bindings rm = (case rm_disk rm of Doc (Some bs) \<Rightarrow> bs | _ \<Rightarrow> [])"

lemma agrees_saved: "rm_hasStore rm \<Longrightarrow> rm_writable rm \<Longrightarrow> disk_agrees (rm_saveLocked rm)"
  by (simp add: disk_agrees_def rm_saveLocked_def)

lemma agrees_new: "disk_agrees (NewRelayManager True disk True)"
  by (auto simp: disk_agrees_def NewRelayManager_def rm_load_def Let_def split: stored.splits option.splits)

lemma agrees_add: "AddToBind pl c p rm = Some rm' \<Longrightarrow> disk_agrees rm \<Longrightarrow> disk_agrees rm'"
  by (auto simp: AddToBind_def Let_def disk_agrees_def rm_saveLocked_def split: option.splits)

lemma agrees_remove: "disk_agrees rm \<Longrightarrow> disk_agrees (fst (RemoveFromBind c p rm))"
  by (auto simp: RemoveFromBind_def Let_def disk_agrees_def rm_saveLocked_def split: option.splits)

lemma agrees_unbind: "disk_agrees rm \<Longrightarrow> disk_agrees (rm_Unbind c rm)"
  by (simp add: rm_Unbind_def disk_agrees_def rm_saveLocked_def)

lemma command_preserves:
  assumes "cmdBind self platform key args (Some rm) = Some (Some rm', answer)" "P rm"
    and "\<And>c. P (rm_Unbind c rm)" "\<And>c p. P (fst (RemoveFromBind c p rm))"
    and "\<And>pl c p m m'. AddToBind pl c p m = Some m' \<Longrightarrow> P m \<Longrightarrow> P m'"
  shows "P rm'"
proof (cases "parseSessionKeyParts key")
  case (Some pc)
  obtain pl chat where pc: "pc = (pl, chat)" by (cases pc)
  show ?thesis
  proof (cases args)
    case (Cons a rest)
    consider "rm' = rm" | "rm' = rm_Unbind chat rm" | "rm' = fst (RemoveFromBind chat (trim_prefix a ''-'') rm)"
      | rm1 where "AddToBind platform chat self rm = Some rm1" "AddToBind platform chat a rm1 = Some rm'"
      using assms(1) Some pc Cons
      by (cases "a \<in> set unbind_words"; cases "a = ''setup''"; cases "a \<in> set help_words"; cases "has_prefix a ''-''"; cases "a = self";
          cases "HasEngine a rm") (auto simp: cmdBind_def Let_def split: prod.splits option.splits)
    then show ?thesis using assms(2-5) by cases blast+
  qed (use assms(1,2) Some pc in \<open>simp add: cmdBind_def\<close>)
qed (use assms(1,2) in \<open>simp add: cmdBind_def\<close>)

lemma run_agrees: "bind_run qs rm = Some rm' \<Longrightarrow> disk_agrees rm \<Longrightarrow> disk_agrees rm'"
proof (induction qs arbitrary: rm)
  case (Cons q qs)
  obtain rm1 ans where step: "cmdBind (br_self q) (br_platform q) (br_sessionKey q) (br_args q) (Some rm) = Some (Some rm1, ans)"
      and rest: "bind_run qs rm1 = Some rm'"
    using Cons.prems(1) by (auto split: option.splits prod.splits)
  have "disk_agrees rm1"
    using step by (rule command_preserves) (auto simp: Cons.prems(2) agrees_unbind agrees_remove intro: agrees_add)
  then show ?case using Cons.IH rest by blast
qed simp

section \<open>Properties\<close>


text \<open>
  Bindings survive a restart: after any \<open>/bind\<close> commands a new manager that reads the file has the same bindings.
\<close>

theorem relay_bindings_survive_restart:
  assumes "bind_run qs rm = Some rm'" "rm_bindings rm = rm_bindings (NewRelayManager True (rm_disk rm) True)"
    and "rm_hasStore rm" "rm_writable rm"
  shows "rm_bindings (NewRelayManager True (rm_disk rm') True) = rm_bindings rm'"
proof -
  have load: "rm_bindings (NewRelayManager True d True) = (case d of Doc (Some bs) \<Rightarrow> bs | _ \<Rightarrow> [])" for d
    by (simp add: NewRelayManager_def rm_load_def Let_def split: stored.splits option.splits)
  have "disk_agrees rm" using assms(2-4) by (simp add: disk_agrees_def load)
  then show ?thesis using run_agrees [OF assms(1)] by (simp add: disk_agrees_def load)
qed

text \<open>
  Bindings know no platform: a project bound in a chat of one platform receives messages from a session of any
  other platform whose chat has the same ID.
\<close>

lemma parse_plain_key:
  "CHR '':'' \<notin> set pl \<Longrightarrow> CHR '':'' \<notin> set c \<Longrightarrow> pl \<noteq> ''relay'' \<Longrightarrow> parseSessionKeyParts (pl @ CHR '':'' # c @ CHR '':'' # u) = Some (pl, c)"
  by (simp add: parseSessionKeyParts_def numeral_3_eq_3 cut_append)

theorem relay_bindings_cross_platforms:
  assumes "CHR '':'' \<notin> set pl'" "CHR '':'' \<notin> set c" "pl' \<noteq> ''relay''" "AddToBind pl c p rm = Some rm'" "p \<in> running_projects rm"
  shows "delivered (rm_Send handle \<lparr>rq_From = f, rq_To = p, rq_SessionKey = pl' @ '':'' @ c @ '':'' @ u, rq_Message = m\<rparr> rm') =
    [\<lparr>rc_To = p, rc_From = f, rc_SessionKey = pl' @ '':'' @ c @ '':'' @ u, rc_Message = m, rc_Timeout = relayContext rm'\<rparr>]"
  using assms by (simp add: send_delivers parse_plain_key bound_add running_projects_def add_engines)

text \<open>The key of a relayed conversation, read back as a session key, names no chat that can be bound.\<close>

lemma relay_key_names_no_chat:
  assumes "CHR '':'' \<notin> set project" "platform \<noteq> []" "chat \<noteq> []"
  shows "parseSessionKeyParts (relayConversationKey project platform chat) = Some (''relay'', platform @ '':'' @ chat)"
proof -
  have "cut (CHR '':'') (''relay'' @ CHR '':'' # project @ CHR '':'' # platform @ CHR '':'' # chat) =
      (''relay'', Some (project @ CHR '':'' # platform @ CHR '':'' # chat))"
    by (rule cut_append) simp
  then show ?thesis
    using assms by (simp add: parseSessionKeyParts_def relayConversationKey_def workspaceChannelKey_def numeral_3_eq_3 cut_append)
qed

section \<open>Examples\<close>

definition two_projects :: "nat relay_manager" where
  "two_projects = RegisterEngine ''web'' [] (RegisterEngine ''api'' [] (NewRelayManager True NoFile True))"

definition bind_web :: bind_request where
  "bind_web = \<lparr>br_self = ''api'', br_platform = ''tg'', br_sessionKey = ''tg:7:u'', br_args = [''web'']\<rparr>"

definition both_bound :: "nat relay_manager" where
  "both_bound = two_projects\<lparr>
     rm_bindings := [(''7'', Some \<lparr>rb_Platform = ''tg'', rb_ChatID = ''7'', rb_Bots = Some [(''api'', ''api''), (''web'', ''web'')]\<rparr>)],
     rm_disk := Doc (Some [(''7'', Some \<lparr>rb_Platform = ''tg'', rb_ChatID = ''7'', rb_Bots = Some [(''api'', ''api''), (''web'', ''web'')]\<rparr>)])\<rparr>"

lemma run_bind_web: "bind_run [bind_web] two_projects = Some both_bound"
proof -
  have "parseSessionKeyParts ''tg:7:u'' = Some (''tg'', ''7'')" "''web'' \<notin> set unbind_words" "''web'' \<notin> set help_words" by code_simp+
  then show ?thesis
    by (simp add: bind_web_def cmdBind_def two_projects_def both_bound_def RegisterEngine_def NewRelayManager_def rm_load_def
        AddToBind_def GetBinding_def mget_or_def HasEngine_def has_prefix_def bots_of_def rm_saveLocked_def)
qed



theorem relay_bindings_survive_restart_witness:
  "rm_bindings (NewRelayManager True (rm_disk both_bound) True) = rm_bindings both_bound"
  by (rule relay_bindings_survive_restart [OF run_bind_web])
    (simp_all add: two_projects_def RegisterEngine_def NewRelayManager_def rm_load_def)

theorem relay_bindings_cross_platforms_witness:
  "AddToBind ''tg'' ''7'' ''web'' two_projects \<noteq> None \<and>
   (\<forall>rm'. AddToBind ''tg'' ''7'' ''web'' two_projects = Some rm' \<longrightarrow>
     delivered (rm_Send (\<lambda>_. Inr ''ok'') \<lparr>rq_From = ''eve'', rq_To = ''web'', rq_SessionKey = ''irc'' @ '':'' @ ''7'' @ '':'' @ ''x'', rq_Message = ''hi''\<rparr> rm') \<noteq> [])"
proof -
  have "''web'' \<in> running_projects two_projects" by (simp add: running_projects_def two_projects_def RegisterEngine_def gomap)
  then have "AddToBind ''tg'' ''7'' ''web'' two_projects = Some rm' \<Longrightarrow>
      delivered (rm_Send (\<lambda>_. Inr ''ok'') \<lparr>rq_From = ''eve'', rq_To = ''web'', rq_SessionKey = ''irc'' @ '':'' @ ''7'' @ '':'' @ ''x'', rq_Message = ''hi''\<rparr> rm') \<noteq> []" for rm'
    by (subst relay_bindings_cross_platforms) simp_all
  moreover have "AddToBind ''tg'' ''7'' ''web'' two_projects \<noteq> None"
    by (simp add: AddToBind_def two_projects_def RegisterEngine_def NewRelayManager_def rm_load_def GetBinding_def mget_or_def)
  ultimately show ?thesis by blast
qed

end
