(* ===== verification/RelayTurn.thy ===== *)
theory RelayTurn
  imports Relay SessionSystem
begin

text \<open>
  The turn of the target project of a relayed message (\<open>HandleRelay\<close> and \<open>drainRelaySession\<close> in \<open>src/core/engine.go\<close>),
  over the session manager. Whether the agent starts or resumes, and what arrives while the turn waits (an event of
  the agent, the end of its events, the end of the grace period, the deadline), are inputs. Permission requests are
  approved without asking; that and the environment of the process are not part of the state.
\<close>

datatype event_type =
    EventText | EventToolUse | EventToolResult | EventResult | EventError | EventPermissionRequest | EventThinking

record agent_event =
  ev_Type :: event_type
  ev_Content :: string
  ev_ToolName :: string
  ev_ToolResult :: string
  ev_SessionID :: string
  ev_Error :: "string option"
  ev_InputTokens :: int
  ev_OutputTokens :: int
  ev_CacheCreationInputTokens :: int
  ev_CacheReadInputTokens :: int

definition isPhantomResult :: "agent_event \<Rightarrow> string list \<Rightarrow> int \<Rightarrow> bool" where
  "isPhantomResult event textParts toolCount \<longleftrightarrow>
     ev_Content event = [] \<and> textParts = [] \<and> toolCount = 0 \<and> ev_InputTokens event = 0 \<and>
     ev_CacheCreationInputTokens event = 0 \<and> ev_CacheReadInputTokens event = 0 \<and> ev_OutputTokens event = 0"

record relay_turn =
  rt_sm :: session_manager
  rt_textParts :: "string list"
  rt_phantom :: "agent_event option"
  rt_phantomExpired :: bool

text \<open>How the turn ends: with an answer or an error, the agent closed or left to finish in the background.\<close>

datatype relay_end = Ends "string + string" | Drains "string + string"

section \<open>The session\<close>

definition session_of :: "string \<Rightarrow> session_manager \<Rightarrow> session option" where
  "session_of sid sm = mget (sm_sessions sm) sid"

definition saveRelaySessionID :: "string \<Rightarrow> string \<Rightarrow> string \<Rightarrow> bool \<Rightarrow> session_manager \<Rightarrow> session_manager" where
  "saveRelaySessionID agentName sid newID force sm =
     (case session_of sid sm of
        None \<Rightarrow> sm
      | Some s \<Rightarrow>
          let changed = (force \<or> snd (CompareAndSetAgentSessionID newID agentName s));
              sm1 = with_session sid (if force then OpSetAgentSessionID newID agentName else OpCompareAndSet newID agentName) sm;
              name = s_Name s
          in if newID = [] then sm
             else if \<not> changed then sm1
             else Save (if name \<noteq> [] \<and> name \<noteq> ''session'' \<and> name \<noteq> ''default'' then SetSessionName newID name sm1 else sm1))"

text \<open>
  Starting: \<open>starts\<close> is what starting the agent with a session ID gives, an error or the ID it then reports; a failed
  resume is followed by a fresh start. \<open>sends\<close> is the error of sending the message, if any.
\<close>

definition relay_begin :: "(string \<Rightarrow> string + string) \<Rightarrow> string option \<Rightarrow> string \<Rightarrow> time \<Rightarrow> string \<Rightarrow> session_manager
    \<Rightarrow> (session_manager \<times> string + string) \<times> session_manager \<times> string" where
  "relay_begin starts sends agentName now key sm =
     (let (sm0, sid) = GetOrCreateActive now key sm;
          aid = (case session_of sid sm0 of Some s \<Rightarrow> s_AgentSessionID s | None \<Rightarrow> []);
          (sm1, started) =
            (case starts aid of
               Inr cur \<Rightarrow> (sm0, Inr cur)
             | Inl err \<Rightarrow>
                 if aid \<noteq> [] then (Save (with_session sid (OpSetAgentSessionID [] agentName) sm0), starts [])
                 else (sm0, Inl err))
      in case started of
           Inl err \<Rightarrow> (Inr (''start relay session: '' @ err), sm1, sid)
         | Inr cur \<Rightarrow>
             let sm2 = saveRelaySessionID agentName sid cur False sm1
             in (case sends of
                   Some err \<Rightarrow> (Inr (''send relay message: '' @ err), sm2, sid)
                 | None \<Rightarrow> (Inl (sm2, sid), sm2, sid)))"

section \<open>The loop\<close>

definition relayPartialResponseOrError :: "string \<Rightarrow> string list \<Rightarrow> string + string" where
  "relayPartialResponseOrError ctxErr textParts = (if textParts = [] then Inl ctxErr else Inr (concat textParts))"

definition tool_part :: "(string \<Rightarrow> string \<Rightarrow> string) \<Rightarrow> agent_event \<Rightarrow> string option" where
  "tool_part toolText ev =
     (let out = trim_space (ev_Content ev);
          out = (if out = [] then trim_space (ev_ToolResult ev) else out);
          tn = trim_space (ev_ToolName ev)
      in if out = [] then None else Some (toolText (if tn = [] then ''tool'' else tn) out @ [newline, newline]))"

definition relay_response :: "string \<Rightarrow> string list \<Rightarrow> string" where
  "relay_response content textParts =
     (let resp = (if content = [] \<and> textParts \<noteq> [] then concat textParts else content)
      in if resp = [] then ''(empty response)'' else resp)"

text \<open>
  One event: the ending, or the state to go on with and whether the deadline is checked before the next one (it is
  not after a phantom result). \<open>cur\<close> is the ID the agent reports, \<open>lives\<close> whether it runs.
\<close>

definition relay_event :: "(string \<Rightarrow> string \<Rightarrow> string) \<Rightarrow> string \<Rightarrow> string \<Rightarrow> string \<Rightarrow> bool \<Rightarrow> agent_event \<Rightarrow> relay_turn
    \<Rightarrow> relay_turn \<times> relay_end option \<times> bool" where
  "relay_event toolText agentName sid cur lives ev rt =
     (case ev_Type ev of
        EventText \<Rightarrow>
          let rt = (if ev_Content ev \<noteq> [] then rt\<lparr>rt_textParts := rt_textParts rt @ [ev_Content ev]\<rparr> else rt)
          in (if ev_SessionID ev \<noteq> [] then rt\<lparr>rt_sm := saveRelaySessionID agentName sid (ev_SessionID ev) False (rt_sm rt)\<rparr> else rt,
              None, True)
      | EventToolResult \<Rightarrow>
          (case tool_part toolText ev of
             None \<Rightarrow> (rt, None, True)
           | Some part \<Rightarrow> (rt\<lparr>rt_textParts := rt_textParts rt @ [part]\<rparr>, None, True))
      | EventResult \<Rightarrow>
          if \<not> rt_phantomExpired rt \<and> isPhantomResult ev (rt_textParts rt) 0 \<and> lives
          then (rt\<lparr>rt_phantom := Some ev\<rparr>, None, False)
          else (if cur \<noteq> [] then rt\<lparr>rt_sm := saveRelaySessionID agentName sid cur True (rt_sm rt)\<rparr> else rt,
                Some (Ends (Inr (relay_response (ev_Content ev) (rt_textParts rt)))), True)
      | EventError \<Rightarrow>
          (rt, Some (Ends (Inl (case ev_Error ev of Some e \<Rightarrow> e | None \<Rightarrow> ''agent error (no details)''))), True)
      | _ \<Rightarrow> (rt, None, True))"

text \<open>What arrives; the last argument is the error of the context at that time, if it is done.\<close>

datatype relay_input =
    Received agent_event string bool "string option"
  | Closed "string option"
  | GraceOver string bool "string option"
  | Deadline string

definition after_event :: "string option \<Rightarrow> relay_turn \<times> relay_end option \<times> bool \<Rightarrow> relay_turn \<times> relay_end option" where
  "after_event ctxErr r =
     (case r of
        (rt, Some e, _) \<Rightarrow> (rt, Some e)
      | (rt, None, check) \<Rightarrow>
          (case ctxErr of
             Some err \<Rightarrow> if check then (rt, Some (Drains (relayPartialResponseOrError err (rt_textParts rt)))) else (rt, None)
           | None \<Rightarrow> (rt, None)))"

definition relay_input_step :: "(string \<Rightarrow> string \<Rightarrow> string) \<Rightarrow> string \<Rightarrow> string \<Rightarrow> relay_input \<Rightarrow> relay_turn
    \<Rightarrow> relay_turn \<times> relay_end option" where
  "relay_input_step toolText agentName sid i rt =
     (case i of
        Received ev cur lives ctxErr \<Rightarrow>
          after_event ctxErr (relay_event toolText agentName sid cur lives ev (rt\<lparr>rt_phantom := None\<rparr>))
      | GraceOver cur lives ctxErr \<Rightarrow>
          (case rt_phantom rt of
             None \<Rightarrow> (rt, None)
           | Some ev \<Rightarrow>
               after_event ctxErr (relay_event toolText agentName sid cur lives ev (rt\<lparr>rt_phantom := None, rt_phantomExpired := True\<rparr>)))
      | Deadline err \<Rightarrow> (rt, Some (Drains (relayPartialResponseOrError err (rt_textParts rt))))
      | Closed ctxErr \<Rightarrow>
          (rt, Some (Ends (case ctxErr of
                             Some err \<Rightarrow> relayPartialResponseOrError err (rt_textParts rt)
                           | None \<Rightarrow> if rt_textParts rt \<noteq> [] then Inr (concat (rt_textParts rt))
                                     else Inl ''relay: agent process exited without response''))))"

fun relay_loop :: "(string \<Rightarrow> string \<Rightarrow> string) \<Rightarrow> string \<Rightarrow> string \<Rightarrow> relay_input list \<Rightarrow> relay_turn \<Rightarrow> relay_turn \<times> relay_end option" where
  "relay_loop toolText agentName sid [] rt = (rt, None)"
| "relay_loop toolText agentName sid (i # is) rt =
     (case relay_input_step toolText agentName sid i rt of
        (rt', Some e) \<Rightarrow> (rt', Some e)
      | (rt', None) \<Rightarrow> relay_loop toolText agentName sid is rt')"

definition HandleRelay :: "(string \<Rightarrow> string + string) \<Rightarrow> string option \<Rightarrow> (string \<Rightarrow> string \<Rightarrow> string) \<Rightarrow> string \<Rightarrow> time \<Rightarrow> string
    \<Rightarrow> relay_input list \<Rightarrow> session_manager \<Rightarrow> session_manager \<times> relay_end option" where
  "HandleRelay starts sends toolText agentName now key inputs sm =
     (case relay_begin starts sends agentName now key sm of
        (Inr err, sm1, _) \<Rightarrow> (sm1, Some (Ends (Inl err)))
      | (Inl (sm1, sid), _) \<Rightarrow>
          let (rt, e) = relay_loop toolText agentName sid inputs
                 \<lparr>rt_sm = sm1, rt_textParts = [], rt_phantom = None, rt_phantomExpired = False\<rparr>
          in (rt_sm rt, e))"

section \<open>Finishing in the background\<close>

text \<open>The events read after the deadline; \<open>None\<close> stands for the end of the events, the ten minutes or the shutdown.\<close>

fun drainRelaySession :: "string \<Rightarrow> string \<Rightarrow> agent_event option list \<Rightarrow> session_manager \<Rightarrow> session_manager \<times> bool" where
  "drainRelaySession agentName sid [] sm = (sm, False)"
| "drainRelaySession agentName sid (None # evs) sm = (sm, True)"
| "drainRelaySession agentName sid (Some ev # evs) sm =
     (let sm = (if ev_SessionID ev \<noteq> [] then Save (with_session sid (OpSetAgentSessionID (ev_SessionID ev) agentName) sm) else sm)
      in if ev_Type ev \<in> {EventResult, EventError} then (sm, True) else drainRelaySession agentName sid evs sm)"

end
