(* ===== verification/RelayTurnProperties.thy ===== *)
theory RelayTurnProperties
  imports RelayTurn SessionProperties
begin

text \<open>
  What a relayed turn does to the session manager, and which answer it gives.
\<close>

section \<open>The sessions\<close>

abbreviation strip :: "session \<Rightarrow> session" where
  "strip \<equiv> stripContinueSessionSentinel"

text \<open>
  Another session is changed at most by a save, which strips the \<open>--continue\<close> sentinel; no session changes hands or
  is locked or unlocked.
\<close>

definition relay_frame :: "string \<Rightarrow> session_manager \<Rightarrow> session_manager \<Rightarrow> bool" where
  "relay_frame sid sm sm' \<longleftrightarrow>
     (sm_wf sm \<longrightarrow> sm_wf sm') \<and>
     (\<forall>k. map_option s_busy (session_of k sm') = map_option s_busy (session_of k sm)) \<and>
     (\<forall>k. k \<noteq> sid \<longrightarrow> map_option strip (session_of k sm') = map_option strip (session_of k sm))"

lemma relay_frame_refl [simp]: "relay_frame sid sm sm"
  by (simp add: relay_frame_def)

lemma relay_frame_trans: "relay_frame sid a b \<Longrightarrow> relay_frame sid b c \<Longrightarrow> relay_frame sid a c"
  by (simp add: relay_frame_def)

lemma strip_idem [simp]: "strip (strip s) = strip s"
  by (simp add: stripContinueSessionSentinel_def ContinueSession_def)

lemma strip_busy [simp]: "s_busy (strip s) = s_busy s"
  by (simp add: stripContinueSessionSentinel_def)

lemma session_saved: "session_of k (sm_saveLocked sm) = session_of k sm \<or> session_of k (sm_saveLocked sm) = map_option strip (session_of k sm)"
  using sm_saveLocked_cases [of sm] by (auto simp: session_of_def gomap)

lemma frame_saved: "relay_frame sid sm (sm_saveLocked sm)"
proof -
  have "map_option s_busy (session_of k (sm_saveLocked sm)) = map_option s_busy (session_of k sm) \<and>
      map_option strip (session_of k (sm_saveLocked sm)) = map_option strip (session_of k sm)" for k
    using session_saved [of k sm] by (auto simp: option.map_comp comp_def)
  then show ?thesis by (simp add: relay_frame_def sm_wf_saveLocked)
qed

lemma frame_Save: "relay_frame sid sm (Save sm)"
  by (simp add: Save_def frame_saved)

lemma frame_name: "relay_frame sid sm (SetSessionName aid name sm)"
proof -
  have "relay_frame sid sm (sm\<lparr>sm_sessionNames := n\<rparr>)" for n by (simp add: relay_frame_def session_of_def)
  then show ?thesis using relay_frame_trans [OF _ frame_saved] by (simp add: SetSessionName_def)
qed

definition id_op :: "session_op \<Rightarrow> bool" where
  "id_op c \<longleftrightarrow> (\<exists>i t. c = OpSetAgentSessionID i t \<or> c = OpCompareAndSet i t)"

lemma id_op_busy: "id_op c \<Longrightarrow> s_busy (session_apply c s) = s_busy s"
  unfolding id_op_def by (elim exE disjE) (simp_all add: session_ops)

lemma frame_with: "id_op c \<Longrightarrow> relay_frame sid sm (with_session sid c sm)"
  using sm_wf_with_session [of sm sid c]
  by (auto simp: relay_frame_def session_of_def with_session_def gomap option.map_comp comp_def id_op_busy)

lemma id_ops [simp]: "id_op (OpSetAgentSessionID i t)" "id_op (OpCompareAndSet i t)"
  by (simp_all add: id_op_def)

lemma saved_after: "relay_frame sid a b \<Longrightarrow> relay_frame sid a (Save b)"
  using relay_frame_trans frame_Save by blast

lemma named_after: "relay_frame sid a b \<Longrightarrow> relay_frame sid a (SetSessionName i n b)"
  using relay_frame_trans frame_name by blast

lemma frame_save_id: "relay_frame sid sm (saveRelaySessionID a sid i force sm)"
proof -
  have "relay_frame sid sm (with_session sid (if force then OpSetAgentSessionID i a else OpCompareAndSet i a) sm)"
    by (rule frame_with) simp
  then show ?thesis
    by (auto simp: saveRelaySessionID_def Let_def split: option.split intro!: saved_after named_after)
qed

lemma frame_event: "relay_frame sid (rt_sm rt) (rt_sm (fst (relay_event tt a sid cur lives ev rt)))"
  by (cases "ev_Type ev") (auto simp: relay_event_def Let_def frame_save_id split: option.split)

lemma after_state [simp]: "fst (after_event c r) = fst r"
  by (auto simp: after_event_def split: prod.split option.split)

lemma frame_input: "relay_frame sid (rt_sm rt) (rt_sm (fst (relay_input_step tt a sid i rt)))"
proof (cases i)
  case (Received ev cur lives c)
  then show ?thesis using frame_event [of sid "rt\<lparr>rt_phantom := None\<rparr>"] by (simp add: relay_input_step_def)
next
  case (GraceOver cur lives c)
  then show ?thesis using frame_event [of sid "rt\<lparr>rt_phantom := None, rt_phantomExpired := True\<rparr>"]
    by (simp add: relay_input_step_def split: option.split)
qed (auto simp: relay_input_step_def)

lemma frame_loop: "relay_loop tt a sid is rt = (rt', e) \<Longrightarrow> relay_frame sid (rt_sm rt) (rt_sm rt')"
proof (induction "is" arbitrary: rt)
  case (Cons i "is")
  obtain rt1 x where step: "relay_input_step tt a sid i rt = (rt1, x)" by fastforce
  then have "relay_frame sid (rt_sm rt) (rt_sm rt1)" using frame_input [of sid rt tt a i] by simp
  then show ?case using Cons step relay_frame_trans by (cases x) auto
qed simp

text \<open>Everything after the session was found or created.\<close>

lemma frame_HandleRelay:
  assumes "HandleRelay starts sends tt a now key inputs sm = (sm', e)" "GetOrCreateActive now key sm = (sm0, sid)"
  shows "relay_frame sid sm0 sm'"
proof -
  obtain r sm1 sid' where b: "relay_begin starts sends a now key sm = (r, sm1, sid')" by (metis prod_cases3)
  have start: "relay_frame sid sm0 sm1 \<and> sid' = sid \<and> (\<forall>x y. r = Inl (x, y) \<longrightarrow> x = sm1 \<and> y = sid)"
  proof -
    have "relay_frame sid sm0 (Save (with_session sid (OpSetAgentSessionID [] a) sm0))"
      using relay_frame_trans [OF frame_with frame_Save] by simp
    then show ?thesis using b assms(2)
      by (auto simp: relay_begin_def Let_def frame_save_id split: prod.splits sum.splits option.splits if_splits
          intro: relay_frame_trans [OF _ frame_save_id])
  qed
  show ?thesis
  proof (cases r)
    case (Inl p)
    obtain rt where rt: "relay_loop tt a sid inputs \<lparr>rt_sm = sm1, rt_textParts = [], rt_phantom = None, rt_phantomExpired = False\<rparr> = (rt, e)"
        "sm' = rt_sm rt"
      using assms(1) b Inl start by (cases p) (auto simp: HandleRelay_def split: prod.splits)
    then show ?thesis using frame_loop [OF rt(1)] start relay_frame_trans by auto
  next
    case (Inr err)
    then show ?thesis using assms(1) b start by (simp add: HandleRelay_def)
  qed
qed

section \<open>The answer\<close>

definition turn_start :: "session_manager \<Rightarrow> relay_turn" where
  "turn_start sm = \<lparr>rt_sm = sm, rt_textParts = [], rt_phantom = None, rt_phantomExpired = False\<rparr>"

text \<open>What an event before the result adds to the answer.\<close>

fun part_of :: "(string \<Rightarrow> string \<Rightarrow> string) \<Rightarrow> relay_input \<Rightarrow> string list" where
  "part_of tt (Received ev cur lives c) =
     (if ev_Type ev = EventText \<and> ev_Content ev \<noteq> [] then [ev_Content ev]
      else if ev_Type ev = EventToolResult then (case tool_part tt ev of Some p \<Rightarrow> [p] | None \<Rightarrow> [])
      else [])"
| "part_of tt _ = []"

fun in_turn :: "relay_input \<Rightarrow> bool" where
  "in_turn (Received ev cur lives c) \<longleftrightarrow> c = None \<and> ev_Type ev \<notin> {EventResult, EventError}"
| "in_turn _ \<longleftrightarrow> False"

lemma in_turn_step: "in_turn i \<Longrightarrow> snd (relay_input_step tt a sid i rt) = None \<and>
    rt_textParts (fst (relay_input_step tt a sid i rt)) = rt_textParts rt @ part_of tt i \<and>
    rt_phantomExpired (fst (relay_input_step tt a sid i rt)) = rt_phantomExpired rt"
  by (induction i rule: in_turn.induct)
    (auto simp: relay_input_step_def after_event_def relay_event_def Let_def split: event_type.splits option.splits)

lemma in_turn_run: "list_all in_turn is \<Longrightarrow> \<exists>rt'. relay_loop tt a sid (is @ js) rt = relay_loop tt a sid js rt' \<and>
    rt_textParts rt' = rt_textParts rt @ concat (map (part_of tt) is) \<and> rt_phantomExpired rt' = rt_phantomExpired rt \<and>
    relay_frame sid (rt_sm rt) (rt_sm rt')"
proof (induction "is" arbitrary: rt)
  case (Cons i "is")
  obtain rt1 where step: "relay_input_step tt a sid i rt = (rt1, None)"
      "rt_textParts rt1 = rt_textParts rt @ part_of tt i" "rt_phantomExpired rt1 = rt_phantomExpired rt"
    using in_turn_step [of i tt a sid rt] Cons.prems by (cases "relay_input_step tt a sid i rt") auto
  moreover have "relay_frame sid (rt_sm rt) (rt_sm rt1)" using frame_input [of sid rt tt a i] step by simp
  ultimately show ?case using Cons.IH [of rt1] Cons.prems relay_frame_trans by fastforce
qed auto

definition agent_id_of :: "string \<Rightarrow> session_manager \<Rightarrow> string option" where
  "agent_id_of sid sm = map_option s_AgentSessionID (session_of sid sm)"

lemma agent_id_saved: "agent_id_of sid sm = Some i \<Longrightarrow> i \<noteq> ContinueSession \<Longrightarrow> agent_id_of sid (sm_saveLocked sm) = Some i"
  using session_saved [of sid sm] by (auto simp: agent_id_of_def stripContinueSessionSentinel_def)

lemma agent_id_named: "agent_id_of sid sm = Some i \<Longrightarrow> i \<noteq> ContinueSession \<Longrightarrow> agent_id_of sid (SetSessionName j n sm) = Some i"
  unfolding SetSessionName_def by (rule agent_id_saved) (simp_all add: agent_id_of_def session_of_def)

lemma forced_id_kept:
  assumes "session_of sid sm = Some s" "i \<noteq> []" "i \<noteq> ContinueSession"
  shows "agent_id_of sid (saveRelaySessionID a sid i True sm) = Some i"
proof -
  have "agent_id_of sid (with_session sid (OpSetAgentSessionID i a) sm) = Some i"
    using assms by (simp add: agent_id_of_def session_of_def with_session_def gomap SetAgentSessionID_def Let_def)
  then show ?thesis
    using assms by (simp add: saveRelaySessionID_def Let_def Save_def agent_id_saved agent_id_named)
qed

section \<open>Properties\<close>


text \<open>
  C39. A relayed turn keeps the session manager well-formed, whatever the agent does; no other session changes but for
  the sentinel a save strips, and no session is locked or unlocked.
\<close>

theorem relayed_turn_keeps_sessions:
  assumes "sm_wf sm" "HandleRelay starts sends tt a now key inputs sm = (sm', e)"
  shows "sm_wf sm' \<and> (\<forall>k \<in> mkeys (sm_sessions sm). map_option s_busy (session_of k sm') = map_option s_busy (session_of k sm) \<and>
    (k \<noteq> snd (GetOrCreateActive now key sm) \<longrightarrow> map_option strip (session_of k sm') = map_option strip (session_of k sm)))"
proof -
  obtain sm0 sid where g: "GetOrCreateActive now key sm = (sm0, sid)" by fastforce
  have "map_option s_busy (session_of k sm0) = map_option s_busy (session_of k sm) \<and>
      map_option strip (session_of k sm0) = map_option strip (session_of k sm)" if "k \<in> mkeys (sm_sessions sm)" for k
  proof (rule GetOrCreateActive_cases [OF assms(1), of key now])
    assume "GetOrCreateActive now key sm = (sm_saveLocked (fst (createLocked now key ''default'' sm)), next_sid sm)"
    then obtain m where sm0: "sm0 = sm_saveLocked m" and m: "sm_sessions m = sm_sessions (register now key ''default'' sm)"
      using g by (simp add: createLocked_register)
    have "k \<noteq> next_sid sm" using that fresh_nextID [of sm] assms(1) by (auto simp: sm_wf_def)
    then have "session_of k m = session_of k sm" by (simp add: session_of_def gomap m)
    then show ?thesis using session_saved [of k m] sm0 by (auto simp: option.map_comp comp_def)
  qed (use g in simp)
  moreover have "sm_wf sm0" using sm_wf_GetOrCreateActive [OF assms(1), of now key] g by simp
  ultimately show ?thesis using frame_HandleRelay [OF assms(2) g] g by (simp add: relay_frame_def)
qed

text \<open>
  A relayed turn does not ask for the turn lock: while a turn holds the session, another relayed message starts
  an agent on the same session and is answered.
\<close>

theorem relay_ignores_turn_lock:
  assumes "mget (sm_activeSession sm) key = Some sid" "session_of sid sm = Some s" "s_ID s = sid" "s_busy s"
    and "starts (s_AgentSessionID s) = Inr []" "t \<noteq> []"
    and "ev_Type r = EventResult" "ev_Content r = t"
  shows "HandleRelay starts None tt a now key [Received r [] lives c] sm = (sm, Some (Ends (Inr t)))"
proof -
  have "GetOrCreateActive now key sm = (sm, sid)" using assms(1-3) by (simp add: GetOrCreateActive_def session_of_def)
  moreover have "saveRelaySessionID a sid [] False sm = sm" by (simp add: saveRelaySessionID_def Let_def split: option.split)
  ultimately show ?thesis
    using assms(2,5-8)
    by (simp add: HandleRelay_def relay_begin_def relay_input_step_def after_event_def relay_event_def isPhantomResult_def relay_response_def)
qed

section \<open>Examples\<close>

definition says :: "event_type \<Rightarrow> string \<Rightarrow> agent_event" where
  "says ty text = \<lparr>ev_Type = ty, ev_Content = text, ev_ToolName = [], ev_ToolResult = [], ev_SessionID = [], ev_Error = None,
     ev_InputTokens = 0, ev_OutputTokens = 0, ev_CacheCreationInputTokens = 0, ev_CacheReadInputTokens = 0\<rparr>"

definition one_session :: "bool \<Rightarrow> session_manager" where
  "one_session busy =
     (let (sm, sid) = GetOrCreateActive 0 ''k'' (NewSessionManager [] NoFile True)
      in if busy then with_session sid OpTryLock sm else sm)"

lemma one_session_active: "mget (sm_activeSession (one_session busy)) ''k'' = Some ''s1'' \<and>
    (\<exists>s. session_of ''s1'' (one_session busy) = Some s \<and> s_ID s = ''s1'' \<and> s_busy s = busy \<and> s_AgentSessionID s = [])"
proof -
  have "list_all (\<lambda>b. (case session_of ''s1'' (one_session b) of
      Some s \<Rightarrow> s_ID s = ''s1'' \<and> s_busy s = b \<and> s_AgentSessionID s = [] | None \<Rightarrow> False) \<and>
      mget (sm_activeSession (one_session b)) ''k'' = Some ''s1'') [True, False]"
    by code_simp
  then show ?thesis by (cases busy) (auto split: option.splits)
qed


theorem relayed_turn_keeps_sessions_witness:
  "sm_wf (fst (HandleRelay (\<lambda>_. Inr ''a1'') None (\<lambda>n t. t) ''pi'' 5 ''relay:p:tg:7'' [Deadline ''deadline''] (NewSessionManager [] NoFile True)))"
  using relayed_turn_keeps_sessions [OF sm_wf_new_empty, of "\<lambda>_. Inr ''a1''" None "\<lambda>n t. t" "''pi''" 5 "''relay:p:tg:7''" "[Deadline ''deadline'']"]
  by (metis prod.collapse)

theorem relay_ignores_turn_lock_witness:
  "HandleRelay (\<lambda>_. Inr []) None (\<lambda>n t. t) ''pi'' 5 ''k'' [Received (says EventResult ''done'') [] True None] (one_session True) =
    (one_session True, Some (Ends (Inr ''done'')))"
proof -
  obtain s where "session_of ''s1'' (one_session True) = Some s" "s_ID s = ''s1''" "s_busy s" using one_session_active by blast
  moreover have "mget (sm_activeSession (one_session True)) ''k'' = Some ''s1''" using one_session_active by blast
  ultimately show ?thesis by (intro relay_ignores_turn_lock [where s = s]) (simp_all add: says_def)
qed

end
