(* ===== verification/StreamPreview.thy ===== *)
theory StreamPreview
  imports GoStrings
begin

text \<open>
  The streaming preview of an answer (\<open>streamPreview\<close> in \<open>src/core/streaming.go\<close>): text is collected as the agent
  writes it and one chat message is edited in place, at most so often, until \<open>finish\<close> puts the answer there. What the
  platform can do is a record of flags, what its calls return is an argument of each operation, and each operation
  returns the calls it made. A timer that has fired but whose callback still waits for the mutex is \<open>Waiting\<close>: stopping
  it has no effect. The names of platforms are folded as ASCII.
\<close>

record preview_cfg =
  pc_Enabled :: bool
  pc_DisabledPlatforms :: "string list"
  pc_IntervalMs :: int
  pc_MinDeltaChars :: int
  pc_MaxChars :: int

definition DefaultStreamPreviewCfg :: preview_cfg where
  "DefaultStreamPreviewCfg =
     \<lparr>pc_Enabled = True, pc_DisabledPlatforms = [], pc_IntervalMs = 1500, pc_MinDeltaChars = 30, pc_MaxChars = 2000\<rparr>"

text \<open>The optional interfaces of a platform; the preference to keep the preview is absent or a choice.\<close>

record preview_platform =
  pf_name :: string
  pf_MessageUpdater :: bool
  pf_PreviewStarter :: bool
  pf_PreviewCleaner :: bool
  pf_KeepPreviewOnFinish :: "bool option"
  pf_PreviewStatusUpdater :: bool
  pf_StatusFooterUpdater :: bool

text \<open>What the calls of one operation return: a handle (or nil) or an error, success or an error, and the time after them.\<close>

record 'h call_results =
  res_start :: "'h option option"
  res_send :: bool
  res_update :: bool
  res_footer :: bool
  res_delete :: bool
  res_now :: time

datatype 'h preview_call =
    CallStart string "'h option option"
  | CallSend 'h string bool
  | CallUpdate 'h string bool
  | CallFooter 'h string string bool
  | CallDelete 'h bool
  | CallStatus 'h string

datatype timer_state = Armed time | Waiting

record 'h stream_preview =
  sp_cfg :: preview_cfg
  sp_platform :: preview_platform
  sp_replyCtx :: 'h
  sp_transform :: "(string \<Rightarrow> string) option"
  sp_fullText :: string
  sp_lastSentText :: string
  sp_lastSentAt :: "time option"
  sp_lastSentViaUpdate :: bool
  sp_previewMsgID :: "'h option"
  sp_degraded :: bool
  sp_timer :: "nat option"
  sp_timers :: "(nat, timer_state) gomap"
  sp_timerCount :: nat
  sp_timerStopClosed :: bool
  sp_pendingStatus :: string

definition newStreamPreview :: "preview_cfg \<Rightarrow> preview_platform \<Rightarrow> 'h \<Rightarrow> (string \<Rightarrow> string) option \<Rightarrow> 'h stream_preview" where
  "newStreamPreview cfg p replyCtx transform =
     \<lparr>sp_cfg = cfg, sp_platform = p, sp_replyCtx = replyCtx, sp_transform = transform, sp_fullText = [], sp_lastSentText = [],
      sp_lastSentAt = None, sp_lastSentViaUpdate = False, sp_previewMsgID = None, sp_degraded = False, sp_timer = None,
      sp_timers = [], sp_timerCount = 0, sp_timerStopClosed = False, sp_pendingStatus = []\<rparr>"

definition canPreview :: "'h stream_preview \<Rightarrow> bool" where
  "canPreview sp \<longleftrightarrow> \<not> sp_degraded sp \<and> pc_Enabled (sp_cfg sp) \<and>
     \<not> list_ex (\<lambda>d. to_lower d = to_lower (pf_name (sp_platform sp))) (pc_DisabledPlatforms (sp_cfg sp)) \<and>
     pf_MessageUpdater (sp_platform sp)"

section \<open>Timers\<close>

definition interval :: "'h stream_preview \<Rightarrow> duration" where
  "interval sp = wrap64 (pc_IntervalMs (sp_cfg sp) * 1000000)"

definition scheduleFlushLocked :: "time \<Rightarrow> duration \<Rightarrow> 'h stream_preview \<Rightarrow> 'h stream_preview" where
  "scheduleFlushLocked now delay sp =
     (if sp_timer sp \<noteq> None then sp
      else sp\<lparr>sp_timer := Some (sp_timerCount sp), sp_timerCount := Suc (sp_timerCount sp),
              sp_timers := mput (sp_timerCount sp) (Armed (now + delay)) (sp_timers sp)\<rparr>)"

definition stop_flush_timer :: "nat \<Rightarrow> 'h stream_preview \<Rightarrow> 'h stream_preview" where
  "stop_flush_timer i sp =
     (case mget (sp_timers sp) i of
        Some (Armed _) \<Rightarrow> sp\<lparr>sp_timers := mdel i (sp_timers sp)\<rparr>
      | _ \<Rightarrow> sp)"

definition cancelTimerLocked :: "'h stream_preview \<Rightarrow> 'h stream_preview" where
  "cancelTimerLocked sp = (case sp_timer sp of None \<Rightarrow> sp | Some i \<Rightarrow> (stop_flush_timer i sp)\<lparr>sp_timer := None\<rparr>)"

section \<open>Flushing\<close>

definition ellipsis :: string where "ellipsis = of_runes [0x2026]"

definition limit_chars :: "int \<Rightarrow> string \<Rightarrow> string" where
  "limit_chars maxChars text =
     (if maxChars > 0 \<and> int (length (runes text)) > maxChars then of_runes (take (nat maxChars) (runes text)) @ ellipsis else text)"

definition display_text :: "'h stream_preview \<Rightarrow> string" where
  "display_text sp = limit_chars (pc_MaxChars (sp_cfg sp)) (sp_fullText sp)"

definition transformed :: "'h stream_preview \<Rightarrow> string \<Rightarrow> string" where
  "transformed sp text = (case sp_transform sp of None \<Rightarrow> text | Some f \<Rightarrow> f text)"

definition flushLocked :: "'h call_results \<Rightarrow> string \<Rightarrow> 'h stream_preview \<Rightarrow> 'h stream_preview \<times> 'h preview_call list" where
  "flushLocked res text0 sp =
     (let text = transformed sp text0;
          sent = sp\<lparr>sp_lastSentText := text, sp_lastSentAt := Some (res_now res)\<rparr>
      in if text = sp_lastSentText sp \<or> text = [] then (sp, [])
         else if \<not> pf_MessageUpdater (sp_platform sp) then (sp\<lparr>sp_degraded := True\<rparr>, [])
         else (case sp_previewMsgID sp of
                 None \<Rightarrow>
                   if pf_PreviewStarter (sp_platform sp) then
                     (case res_start res of
                        None \<Rightarrow> (sp\<lparr>sp_degraded := True\<rparr>, [CallStart text None])
                      | Some h \<Rightarrow> (sent\<lparr>sp_previewMsgID := h, sp_lastSentViaUpdate := False\<rparr>, [CallStart text (Some h)]))
                   else if \<not> res_send res then (sp\<lparr>sp_degraded := True\<rparr>, [CallSend (sp_replyCtx sp) text False])
                   else (sent\<lparr>sp_previewMsgID := Some (sp_replyCtx sp), sp_lastSentViaUpdate := False\<rparr>,
                         [CallSend (sp_replyCtx sp) text True])
               | Some h \<Rightarrow>
                   if \<not> res_update res then (sp\<lparr>sp_degraded := True\<rparr>, [CallUpdate h text False])
                   else (sent\<lparr>sp_lastSentViaUpdate := True\<rparr>, [CallUpdate h text True])))"

definition appendText :: "time \<Rightarrow> 'h call_results \<Rightarrow> string \<Rightarrow> 'h stream_preview \<Rightarrow> 'h stream_preview \<times> 'h preview_call list" where
  "appendText now res text sp =
     (if sp_degraded sp \<or> \<not> pc_Enabled (sp_cfg sp) then (sp, [])
      else let sp = sp\<lparr>sp_fullText := sp_fullText sp @ text\<rparr>;
               displayText = display_text sp;
               delta = int (length (runes displayText)) - int (length (runes (sp_lastSentText sp)))
           in (case sp_lastSentAt sp of
                 None \<Rightarrow> flushLocked res displayText (cancelTimerLocked sp)
               | Some t \<Rightarrow>
                   if delta < pc_MinDeltaChars (sp_cfg sp) then (scheduleFlushLocked now (interval sp) sp, [])
                   else if now - t < interval sp then (scheduleFlushLocked now (interval sp - (now - t)) sp, [])
                   else flushLocked res displayText (cancelTimerLocked sp)))"

text \<open>A timer that is due fires; later its callback gets the mutex and runs.\<close>

definition timer_fires :: "time \<Rightarrow> nat \<Rightarrow> 'h stream_preview \<Rightarrow> 'h stream_preview" where
  "timer_fires now i sp =
     (case mget (sp_timers sp) i of
        Some (Armed due) \<Rightarrow> if due \<le> now then sp\<lparr>sp_timers := mput i Waiting (sp_timers sp)\<rparr> else sp
      | _ \<Rightarrow> sp)"

definition timer_callback :: "'h call_results \<Rightarrow> nat \<Rightarrow> 'h stream_preview \<Rightarrow> 'h stream_preview \<times> 'h preview_call list" where
  "timer_callback res i sp =
     (if mget (sp_timers sp) i \<noteq> Some Waiting then (sp, [])
      else let sp = sp\<lparr>sp_timers := mdel i (sp_timers sp), sp_timer := None\<rparr>
           in if sp_degraded sp then (sp, []) else flushLocked res (display_text sp) sp)"

section \<open>Interruptions\<close>

definition freeze :: "'h call_results \<Rightarrow> 'h stream_preview \<Rightarrow> 'h stream_preview \<times> 'h preview_call list" where
  "freeze res sp0 =
     (let sp = cancelTimerLocked sp0; text = display_text sp
      in (sp\<lparr>sp_degraded := True\<rparr>,
          case sp_previewMsgID sp of
            Some h \<Rightarrow> if \<not> sp_degraded sp \<and> pf_MessageUpdater (sp_platform sp) \<and> text \<noteq> []
                      then [CallUpdate h (transformed sp text) (res_update res)] else []
          | None \<Rightarrow> []))"

definition unfreeze :: "'h stream_preview \<Rightarrow> 'h stream_preview" where
  "unfreeze sp =
     (cancelTimerLocked sp)\<lparr>sp_lastSentAt := None, sp_fullText := [], sp_lastSentText := [], sp_lastSentViaUpdate := False,
                             sp_pendingStatus := [], sp_degraded := False\<rparr>"

definition detachPreview :: "'h stream_preview \<Rightarrow> 'h stream_preview" where
  "detachPreview sp = sp\<lparr>sp_previewMsgID := None\<rparr>"

definition discard :: "'h call_results \<Rightarrow> 'h stream_preview \<Rightarrow> 'h stream_preview \<times> 'h preview_call list" where
  "discard res sp0 =
     (let sp = (cancelTimerLocked sp0)\<lparr>sp_timerStopClosed := True\<rparr>
      in (sp\<lparr>sp_previewMsgID := None, sp_degraded := True\<rparr>,
          case sp_previewMsgID sp of
            Some h \<Rightarrow> if pf_PreviewCleaner (sp_platform sp) then [CallDelete h (res_delete res)] else []
          | None \<Rightarrow> []))"

definition appendSeparator :: "string \<Rightarrow> 'h stream_preview \<Rightarrow> 'h stream_preview \<times> bool" where
  "appendSeparator sep sp =
     (if sp_degraded sp \<or> \<not> pc_Enabled (sp_cfg sp) \<or> sp_fullText sp = [] then (sp, False)
      else (sp\<lparr>sp_fullText := sp_fullText sp @ sep\<rparr>, True))"

definition setStatus :: "string \<Rightarrow> 'h stream_preview \<Rightarrow> 'h stream_preview \<times> 'h preview_call list" where
  "setStatus status sp =
     (sp\<lparr>sp_pendingStatus := status\<rparr>,
      case sp_previewMsgID sp of
        Some h \<Rightarrow> if \<not> sp_degraded sp \<and> pf_PreviewStatusUpdater (sp_platform sp) then [CallStatus h status] else []
      | None \<Rightarrow> [])"

definition needsDoneReaction :: "'h stream_preview \<Rightarrow> bool" where
  "needsDoneReaction sp \<longleftrightarrow> sp_previewMsgID sp \<noteq> None \<and> sp_lastSentViaUpdate sp"

section \<open>The end of the answer\<close>

definition trim_newlines :: "string \<Rightarrow> string" where
  "trim_newlines s = rev (dropWhile (\<lambda>c. c = newline) (rev s))"

definition appendReplyFooter :: "string \<Rightarrow> string \<Rightarrow> string" where
  "appendReplyFooter content footer =
     (if footer = [] then content
      else let content = trim_newlines content
           in if content = [] then ''*'' @ footer @ ''*'' else content @ [newline, newline] @ ''*'' @ footer @ ''*'')"

definition clean_up :: "'h call_results \<Rightarrow> 'h \<Rightarrow> 'h stream_preview \<Rightarrow> 'h preview_call list" where
  "clean_up res h sp = (if pf_PreviewCleaner (sp_platform sp) then [CallDelete h (res_delete res)] else [])"

definition status_call :: "'h \<Rightarrow> 'h stream_preview \<Rightarrow> 'h preview_call list" where
  "status_call h sp =
     (if sp_pendingStatus sp \<noteq> [] \<and> pf_PreviewStatusUpdater (sp_platform sp) then [CallStatus h (sp_pendingStatus sp)] else [])"

text \<open>A degraded preview: one more attempt to update it, without the footer; else it is deleted.\<close>

definition finish_degraded :: "'h call_results \<Rightarrow> string \<Rightarrow> 'h \<Rightarrow> 'h stream_preview \<Rightarrow> bool \<times> 'h preview_call list" where
  "finish_degraded res finalText h sp =
     (if finalText \<noteq> [] \<and> pf_MessageUpdater (sp_platform sp) then
        if res_update res then (True, CallUpdate h finalText True # status_call h sp)
        else (False, CallUpdate h finalText False # clean_up res h sp)
      else (False, clean_up res h sp))"

definition finish_update :: "'h call_results \<Rightarrow> string \<Rightarrow> string \<Rightarrow> 'h \<Rightarrow> 'h stream_preview \<Rightarrow> bool \<times> 'h preview_call list" where
  "finish_update res finalText statusFooter h sp =
     (let structured = statusFooter \<noteq> [] \<and> pf_StatusFooterUpdater (sp_platform sp);
          calls = (if structured then [CallFooter h finalText statusFooter (res_footer res)] else []);
          text = (if statusFooter \<noteq> [] then appendReplyFooter finalText statusFooter else finalText)
      in if structured \<and> res_footer res then (True, calls)
         else if res_update res then (True, calls @ [CallUpdate h text True] @ status_call h sp)
         else (False, calls @ [CallUpdate h text False] @ clean_up res h sp))"

definition finishPreview :: "'h call_results \<Rightarrow> string \<Rightarrow> string \<Rightarrow> 'h stream_preview
    \<Rightarrow> 'h stream_preview \<times> bool \<times> 'h preview_call list" where
  "finishPreview res finalText0 statusFooter sp0 =
     (let sp = (cancelTimerLocked sp0)\<lparr>sp_timerStopClosed := True\<rparr>; finalText = transformed sp finalText0
      in (sp,
          case sp_previewMsgID sp of
            None \<Rightarrow> (False, [])
          | Some h \<Rightarrow>
              if sp_degraded sp then finish_degraded res finalText h sp
              else if pf_PreviewCleaner (sp_platform sp) \<and> pf_KeepPreviewOnFinish (sp_platform sp) \<noteq> Some True
              then (False, [CallDelete h (res_delete res)])
              else if \<not> pf_MessageUpdater (sp_platform sp) then (False, [])
              else if finalText = [] then (False, [])
              else if finalText = sp_lastSentText sp \<and> sp_lastSentViaUpdate sp \<and> statusFooter = [] then (True, [])
              else finish_update res finalText statusFooter h sp))"

end
