(* ===== verification/StreamProperties.thy ===== *)
theory StreamProperties
  imports StreamPreview
begin

text \<open>
  What the user sees of a streaming preview: the chat as a map from message handles to what they show, what \<open>finish\<close>
  leaves there, how often the message is edited, and what a late timer does.
\<close>

section \<open>The chat\<close>

text \<open>A message shows a text and, below it, a footer.\<close>

type_synonym 'h chat = "'h \<Rightarrow> (string \<times> string) option"

fun deliver :: "'h preview_call \<Rightarrow> 'h chat \<Rightarrow> 'h chat" where
  "deliver (CallStart t (Some (Some h))) c = c(h := Some (t, []))"
| "deliver (CallSend h t True) c = c(h := Some (t, []))"
| "deliver (CallUpdate h t True) c = c(h := Some (t, []))"
| "deliver (CallFooter h t f True) c = c(h := Some (t, f))"
| "deliver (CallDelete h True) c = c(h := None)"
| "deliver _ c = c"

datatype 'h preview_op =
    PAppend time "'h call_results" string
  | PFires time nat
  | PCallback "'h call_results" nat
  | PFreeze "'h call_results"
  | PUnfreeze
  | PDetach
  | PDiscard "'h call_results"
  | PSeparator string
  | PStatus string

fun preview_step :: "'h preview_op \<Rightarrow> 'h stream_preview \<Rightarrow> 'h stream_preview \<times> 'h preview_call list" where
  "preview_step (PAppend now res text) sp = appendText now res text sp"
| "preview_step (PFires now i) sp = (timer_fires now i sp, [])"
| "preview_step (PCallback res i) sp = timer_callback res i sp"
| "preview_step (PFreeze res) sp = freeze res sp"
| "preview_step PUnfreeze sp = (unfreeze sp, [])"
| "preview_step PDetach sp = (detachPreview sp, [])"
| "preview_step (PDiscard res) sp = discard res sp"
| "preview_step (PSeparator sep) sp = (fst (appendSeparator sep sp), [])"
| "preview_step (PStatus s) sp = setStatus s sp"

fun preview_run :: "'h preview_op list \<Rightarrow> 'h stream_preview \<Rightarrow> 'h chat \<Rightarrow> 'h stream_preview \<times> 'h chat" where
  "preview_run [] sp c = (sp, c)"
| "preview_run (x # xs) sp c = (let (sp', calls) = preview_step x sp in preview_run xs sp' (fold deliver calls c))"

section \<open>The message shows what was last sent\<close>

definition in_sync :: "'h stream_preview \<Rightarrow> 'h chat \<Rightarrow> bool" where
  "in_sync sp c \<longleftrightarrow> (\<forall>h. sp_previewMsgID sp = Some h \<and> sp_lastSentViaUpdate sp \<and> \<not> sp_degraded sp \<longrightarrow>
     c h = Some (sp_lastSentText sp, []))"

lemma stop_flush_timer_fields [simp]:
  "sp_previewMsgID (stop_flush_timer i sp) = sp_previewMsgID sp" "sp_lastSentViaUpdate (stop_flush_timer i sp) = sp_lastSentViaUpdate sp"
  "sp_degraded (stop_flush_timer i sp) = sp_degraded sp" "sp_lastSentText (stop_flush_timer i sp) = sp_lastSentText sp"
  "sp_platform (stop_flush_timer i sp) = sp_platform sp" "sp_cfg (stop_flush_timer i sp) = sp_cfg sp" "sp_fullText (stop_flush_timer i sp) = sp_fullText sp"
  "sp_transform (stop_flush_timer i sp) = sp_transform sp" "sp_pendingStatus (stop_flush_timer i sp) = sp_pendingStatus sp"
  "sp_lastSentAt (stop_flush_timer i sp) = sp_lastSentAt sp"
  by (auto simp: stop_flush_timer_def split: option.split timer_state.split)

lemma cancel_fields [simp]:
  "sp_previewMsgID (cancelTimerLocked sp) = sp_previewMsgID sp" "sp_lastSentViaUpdate (cancelTimerLocked sp) = sp_lastSentViaUpdate sp"
  "sp_degraded (cancelTimerLocked sp) = sp_degraded sp" "sp_lastSentText (cancelTimerLocked sp) = sp_lastSentText sp"
  "sp_platform (cancelTimerLocked sp) = sp_platform sp" "sp_cfg (cancelTimerLocked sp) = sp_cfg sp"
  "sp_fullText (cancelTimerLocked sp) = sp_fullText sp" "sp_transform (cancelTimerLocked sp) = sp_transform sp"
  "sp_pendingStatus (cancelTimerLocked sp) = sp_pendingStatus sp" "sp_lastSentAt (cancelTimerLocked sp) = sp_lastSentAt sp"
  by (auto simp: cancelTimerLocked_def split: option.split)

lemma display_fields [simp]:
  "display_text (cancelTimerLocked sp) = display_text sp" "transformed (cancelTimerLocked sp) t = transformed sp t"
  by (simp_all add: display_text_def transformed_def)

lemma sync_cancel [simp]: "in_sync (cancelTimerLocked sp) c = in_sync sp c"
  by (simp add: in_sync_def)

lemma sync_flush: "in_sync sp c \<Longrightarrow> flushLocked res t sp = (sp', calls) \<Longrightarrow> in_sync sp' (fold deliver calls c)"
  by (auto simp: flushLocked_def Let_def in_sync_def split: if_splits option.splits)

lemma sync_cancel_flush:
  "flushLocked res t (cancelTimerLocked sp) = (sp', calls) \<Longrightarrow> in_sync sp c \<Longrightarrow> in_sync sp' (fold deliver calls c)"
  using sync_flush [of "cancelTimerLocked sp"] by simp

lemma sync_schedule [simp]: "in_sync (scheduleFlushLocked now d sp) c = in_sync sp c"
  by (simp add: scheduleFlushLocked_def in_sync_def)

lemma sync_append:
  assumes "in_sync sp c" "appendText now res text sp = (sp', calls)"
  shows "in_sync sp' (fold deliver calls c)"
proof -
  let ?sp = "sp\<lparr>sp_fullText := sp_fullText sp @ text\<rparr>"
  have "in_sync ?sp c" using assms(1) by (simp add: in_sync_def)
  then show ?thesis
    using assms by (auto simp: appendText_def Let_def split: option.splits if_splits intro: sync_cancel_flush)
qed

lemma sync_callback:
  assumes "in_sync sp c" "timer_callback res i sp = (sp', calls)"
  shows "in_sync sp' (fold deliver calls c)"
proof -
  have "in_sync (sp\<lparr>sp_timers := mdel i (sp_timers sp), sp_timer := None\<rparr>) c" using assms(1) by (simp add: in_sync_def)
  then show ?thesis using assms by (auto simp: timer_callback_def Let_def split: if_splits dest: sync_flush)
qed

lemma sync_step: "in_sync sp c \<Longrightarrow> preview_step x sp = (sp', calls) \<Longrightarrow> in_sync sp' (fold deliver calls c)"
proof (induction x sp rule: preview_step.induct)
  case (1 now res t sp)
  then show ?case using sync_append by simp
next
  case (2 now i sp)
  then show ?case by (auto simp: timer_fires_def in_sync_def split: option.splits timer_state.splits if_splits)
next
  case (3 res i sp)
  then show ?case using sync_callback by simp
next
  case (9 s sp)
  then show ?case by (auto simp: setStatus_def in_sync_def split: option.splits if_splits)
qed (auto simp: freeze_def unfreeze_def detachPreview_def discard_def appendSeparator_def in_sync_def Let_def)

lemma sync_run: "in_sync sp c \<Longrightarrow> preview_run xs sp c = (sp', c') \<Longrightarrow> in_sync sp' c'"
  by (induction xs arbitrary: sp c) (auto split: prod.splits dest: sync_step)

lemma sync_new [simp]: "in_sync (newStreamPreview cfg p h f) c"
  by (simp add: in_sync_def newStreamPreview_def)

section \<open>Finishing\<close>

text \<open>What the message shows when an answer was delivered with a footer: below the text or in it.\<close>

definition shows_answer :: "string \<Rightarrow> string \<Rightarrow> (string \<times> string) option \<Rightarrow> bool" where
  "shows_answer text footer m \<longleftrightarrow> m = Some (text, footer) \<or> m = Some (appendReplyFooter text footer, [])"

lemma shows_answer_plain [simp]: "shows_answer t [] (Some (t, []))"
  by (simp add: shows_answer_def)

lemma status_delivers [simp]: "fold deliver (status_call h sp) c = c"
  by (simp add: status_call_def)

lemma clean_delivers: "pf_PreviewCleaner (sp_platform sp) \<Longrightarrow> res_delete res \<Longrightarrow> fold deliver (clean_up res h sp) c = c(h := None)"
  by (simp add: clean_up_def)

lemma finish_update_shows:
  assumes "finish_update res t footer h sp = (ok, calls)"
  shows "(ok \<longrightarrow> shows_answer t footer (fold deliver calls c h)) \<and>
    (\<not> ok \<and> pf_PreviewCleaner (sp_platform sp) \<and> res_delete res \<longrightarrow> fold deliver calls c h = None)"
  using assms
  by (auto simp: finish_update_def Let_def shows_answer_def appendReplyFooter_def clean_delivers split: if_splits)

lemma finish_degraded_shows:
  assumes "finish_degraded res t h sp = (ok, calls)"
  shows "(ok \<longrightarrow> fold deliver calls c h = Some (t, [])) \<and>
    (\<not> ok \<and> pf_PreviewCleaner (sp_platform sp) \<and> res_delete res \<longrightarrow> fold deliver calls c h = None)"
  using assms by (auto simp: finish_degraded_def clean_delivers split: if_splits)


text \<open>
  After a failed update the footer is lost: \<open>finish\<close> recovers the preview with the text of the answer alone and
  reports success.
\<close>

theorem recovery_drops_footer:
  assumes "sp_previewMsgID sp = Some h" "sp_degraded sp" "pf_MessageUpdater (sp_platform sp)" "res_update res"
    and "transformed sp t \<noteq> []" "finishPreview res t footer sp = (sp', ok, calls)"
  shows "ok \<and> fold deliver calls c h = Some (transformed sp t, [])"
proof -
  have tr: "transformed ((cancelTimerLocked sp)\<lparr>sp_timerStopClosed := True\<rparr>) t = transformed sp t" by (simp add: transformed_def)
  show ?thesis using assms by (auto simp: finishPreview_def Let_def tr finish_degraded_def)
qed

text \<open>
  C29. A late timer overwrites the answer: a callback that waits for the mutex while \<open>finish\<close> puts the answer into the
  message runs afterwards and replaces the answer by the (shortened) preview.
\<close>

theorem late_timer_overwrites_answer:
  assumes "mget (sp_timers sp) i = Some Waiting" "sp_previewMsgID sp = Some h" "\<not> sp_degraded sp"
    and "pf_MessageUpdater (sp_platform sp)" "finishPreview res t footer sp = (sp1, True, calls)"
    and "timer_callback res' i sp1 = (sp2, calls')" "res_update res'"
    and "transformed sp (display_text sp) \<noteq> []" "transformed sp (display_text sp) \<noteq> sp_lastSentText sp"
  shows "fold deliver (calls @ calls') c h = Some (transformed sp (display_text sp), [])"
proof -
  have sp1: "sp1 = (cancelTimerLocked sp)\<lparr>sp_timerStopClosed := True\<rparr>" using assms(5) by (simp add: finishPreview_def Let_def)
  have "mget (sp_timers (cancelTimerLocked sp)) i = Some Waiting"
    using assms(1) by (auto simp: cancelTimerLocked_def stop_flush_timer_def gomap split: option.split timer_state.split)
  moreover have "display_text (sp1\<lparr>sp_timers := m, sp_timer := None\<rparr>) = display_text sp"
      "transformed (sp1\<lparr>sp_timers := m, sp_timer := None\<rparr>) x = transformed sp x" for m x
    by (simp_all add: sp1 display_text_def transformed_def)
  ultimately have "calls' = [CallUpdate h (transformed sp (display_text sp)) True]"
    using assms(2-4,6-9) by (auto simp: timer_callback_def flushLocked_def Let_def sp1 split: if_splits option.splits)
  then show ?thesis by simp
qed

section \<open>How often the message is edited\<close>

text \<open>
  Runs in which the callback of a timer that fires gets the mutex at once: texts are appended, separators are added and
  the timer of the preview ticks.
\<close>

datatype 'h prompt_op = QAppend time "'h call_results" string | QTick time "'h call_results" | QSeparator string

fun prompt_step :: "'h prompt_op \<Rightarrow> 'h stream_preview \<Rightarrow> 'h stream_preview \<times> 'h preview_call list" where
  "prompt_step (QAppend now res t) sp = appendText now res t sp"
| "prompt_step (QTick now res) sp =
     (case sp_timer sp of None \<Rightarrow> (sp, []) | Some i \<Rightarrow> timer_callback res i (timer_fires now i sp))"
| "prompt_step (QSeparator sep) sp = (fst (appendSeparator sep sp), [])"

text \<open>When an operation begins and when its call returns.\<close>

fun op_times :: "'h prompt_op \<Rightarrow> (time \<times> time) option" where
  "op_times (QAppend now res t) = Some (now, res_now res)"
| "op_times (QTick now res) = Some (now, res_now res)"
| "op_times (QSeparator sep) = None"

fun in_time :: "time \<Rightarrow> 'h prompt_op list \<Rightarrow> bool" where
  "in_time t [] = True"
| "in_time t (x # xs) =
     (case op_times x of None \<Rightarrow> in_time t xs | Some (a, b) \<Rightarrow> t \<le> a \<and> a \<le> b \<and> in_time b xs)"

text \<open>The begin and the end of each call that changed the message.\<close>

fun edits :: "'h prompt_op list \<Rightarrow> 'h stream_preview \<Rightarrow> (time \<times> time) list" where
  "edits [] sp = []"
| "edits (x # xs) sp =
     (let (sp', calls) = prompt_step x sp
      in (if calls \<noteq> [] \<and> \<not> sp_degraded sp' then (case op_times x of Some t \<Rightarrow> [t] | None \<Rightarrow> []) else []) @ edits xs sp')"

definition timer_ok :: "'h stream_preview \<Rightarrow> bool" where
  "timer_ok sp \<longleftrightarrow>
     (case sp_timer sp of
        None \<Rightarrow> sp_timers sp = []
      | Some i \<Rightarrow> \<exists>due. sp_timers sp = [(i, Armed due)] \<and> (\<forall>t. sp_lastSentAt sp = Some t \<longrightarrow> t + interval sp \<le> due))"

lemma timer_ok_new [simp]: "timer_ok (newStreamPreview cfg p r f)"
  by (simp add: timer_ok_def newStreamPreview_def)

lemma interval_fields [simp]: "interval (sp\<lparr>sp_fullText := t\<rparr>) = interval sp" "interval (cancelTimerLocked sp) = interval sp"
  by (simp_all add: interval_def)

lemma timer_ok_cancel: "timer_ok sp \<Longrightarrow> sp_timer (cancelTimerLocked sp) = None \<and> sp_timers (cancelTimerLocked sp) = []"
  by (auto simp: timer_ok_def cancelTimerLocked_def stop_flush_timer_def split: option.splits)

text \<open>A flush without a timer: it changes nothing, fails for good, or is an edit.\<close>

lemma flush_result:
  assumes "flushLocked res t sp = (sp', calls)" "sp_timer sp = None" "sp_timers sp = []"
  shows "timer_ok sp' \<and> interval sp' = interval sp \<and>
    (calls = [] \<and> sp_lastSentAt sp' = sp_lastSentAt sp \<or> sp_degraded sp' \<or> calls \<noteq> [] \<and> sp_lastSentAt sp' = Some (res_now res))"
  using assms by (auto simp: flushLocked_def Let_def timer_ok_def interval_def split: if_splits option.splits)

lemma schedule_ok:
  assumes "timer_ok sp" "sp_lastSentAt sp = Some t" "t + interval sp \<le> now + d"
  shows "timer_ok (scheduleFlushLocked now d sp) \<and> sp_lastSentAt (scheduleFlushLocked now d sp) = Some t
    \<and> interval (scheduleFlushLocked now d sp) = interval sp"
  using assms by (auto simp: timer_ok_def scheduleFlushLocked_def interval_def)

text \<open>One operation: the timer stays in order; it fails for good, edits nothing, or edits no earlier than it may.\<close>

definition paced :: "'h stream_preview \<Rightarrow> (time \<times> time) option \<Rightarrow> 'h stream_preview \<Rightarrow> 'h preview_call list \<Rightarrow> bool" where
  "paced sp tm sp' calls \<longleftrightarrow> timer_ok sp' \<and> interval sp' = interval sp \<and>
     (sp_degraded sp' \<or> calls = [] \<and> sp_lastSentAt sp' = sp_lastSentAt sp \<or>
      calls \<noteq> [] \<and> (\<exists>a b. tm = Some (a, b) \<and> sp_lastSentAt sp' = Some b \<and> (\<forall>t. sp_lastSentAt sp = Some t \<longrightarrow> t + interval sp \<le> a)))"

lemma paced_flush:
  assumes "flushLocked res t sp0 = (sp', calls)" "sp_timer sp0 = None" "sp_timers sp0 = []"
    and "interval sp0 = interval sp" "sp_lastSentAt sp0 = sp_lastSentAt sp"
    and "\<And>t. sp_lastSentAt sp = Some t \<Longrightarrow> t + interval sp \<le> a"
  shows "paced sp (Some (a, res_now res)) sp' calls"
  using flush_result [OF assms(1-3)] assms(4-6) by (auto simp: paced_def)

lemma paced_append:
  assumes "timer_ok sp" "appendText now res x sp = (sp', calls)" "\<And>t. sp_lastSentAt sp = Some t \<Longrightarrow> t \<le> now"
  shows "paced sp (Some (now, res_now res)) sp' calls"
proof (cases "sp_degraded sp \<or> \<not> pc_Enabled (sp_cfg sp)")
  case True
  then show ?thesis using assms by (simp add: appendText_def paced_def)
next
  case False
  let ?sp = "sp\<lparr>sp_fullText := sp_fullText sp @ x\<rparr>"
  have ok: "timer_ok ?sp" using assms(1) by (auto simp: timer_ok_def split: option.splits)
  note idle = timer_ok_cancel [OF ok]
  show ?thesis
  proof (cases "sp_lastSentAt sp")
    case None
    then have "flushLocked res (display_text ?sp) (cancelTimerLocked ?sp) = (sp', calls)"
      using False assms(2) by (simp add: appendText_def Let_def)
    then show ?thesis by (rule paced_flush) (use idle None in simp_all)
  next
    case (Some t)
    have waits: "t + interval sp \<le> now + d \<Longrightarrow> sp' = scheduleFlushLocked now d ?sp \<Longrightarrow> calls = [] \<Longrightarrow> ?thesis" for d
      using schedule_ok [OF ok, of t now d] Some by (simp add: paced_def)
    consider "sp' = scheduleFlushLocked now (interval sp) ?sp" "calls = []"
      | "sp' = scheduleFlushLocked now (interval sp - (now - t)) ?sp" "calls = []"
      | "flushLocked res (display_text ?sp) (cancelTimerLocked ?sp) = (sp', calls)" "interval sp \<le> now - t"
      using False assms(2) Some by (auto simp: appendText_def Let_def split: if_splits)
    then show ?thesis
    proof cases
      case 1
      then show ?thesis using waits [of "interval sp"] assms(3) [OF Some] by simp
    next
      case 2
      then show ?thesis using waits [of "interval sp - (now - t)"] by simp
    next
      case 3
      show ?thesis by (rule paced_flush [OF 3(1)]) (use idle Some 3(2) in simp_all)
    qed
  qed
qed

lemma paced_tick:
  assumes "timer_ok sp" "prompt_step (QTick now res) sp = (sp', calls)"
  shows "paced sp (Some (now, res_now res)) sp' calls"
proof (cases "sp_timer sp")
  case None
  then show ?thesis using assms by (simp add: paced_def)
next
  case (Some i)
  then obtain due where due: "sp_timers sp = [(i, Armed due)]" "\<And>t. sp_lastSentAt sp = Some t \<Longrightarrow> t + interval sp \<le> due"
    using assms(1) by (auto simp: timer_ok_def)
  show ?thesis
  proof (cases "due \<le> now")
    case False
    then have "sp' = sp" "calls = []" using assms(2) Some due(1) by (simp_all add: timer_fires_def timer_callback_def)
    then show ?thesis using assms(1) by (simp add: paced_def)
  next
    case True
    let ?sp = "sp\<lparr>sp_timers := [], sp_timer := None\<rparr>"
    have step: "(sp', calls) = (if sp_degraded sp then (?sp, []) else flushLocked res (display_text ?sp) ?sp)"
      using assms(2) Some due(1) True by (simp add: timer_fires_def timer_callback_def Let_def)
    show ?thesis
    proof (cases "sp_degraded sp")
      case True
      then show ?thesis using step by (simp add: paced_def timer_ok_def interval_def)
    next
      case False
      then have "flushLocked res (display_text ?sp) ?sp = (sp', calls)" using step by simp
      then show ?thesis using due(2) True by (rule_tac paced_flush) (force simp: interval_def)+
    qed
  qed
qed

lemma paced_step:
  assumes "timer_ok sp" "prompt_step x sp = (sp', calls)"
    and "\<And>a b t. op_times x = Some (a, b) \<Longrightarrow> sp_lastSentAt sp = Some t \<Longrightarrow> t \<le> a"
  shows "paced sp (op_times x) sp' calls"
proof (cases x)
  case (QAppend now res t)
  then show ?thesis using paced_append [OF assms(1)] assms(2,3) by simp
next
  case (QTick now res)
  then show ?thesis using paced_tick [OF assms(1)] assms(2) by simp
next
  case (QSeparator sep)
  then have "sp' = fst (appendSeparator sep sp)" "calls = []" using assms(2) by simp_all
  then show ?thesis using assms(1) by (auto simp: appendSeparator_def paced_def timer_ok_def split: option.splits)
qed

lemma degraded_stays: "sp_degraded sp \<Longrightarrow> sp_degraded (fst (prompt_step x sp))"
  by (cases x) (auto simp: appendText_def timer_callback_def timer_fires_def appendSeparator_def Let_def
      split: option.split timer_state.split)

lemma degraded_no_edits: "sp_degraded sp \<Longrightarrow> edits xs sp = []"
proof (induction xs arbitrary: sp)
  case (Cons x xs)
  then show ?case using degraded_stays [OF Cons.prems, of x] by (auto split: prod.split)
qed simp

lemma edits_spaced:
  assumes "timer_ok sp" "in_time now xs" "\<And>t. sp_lastSentAt sp = Some t \<Longrightarrow> t \<le> now"
  shows "successively (\<lambda>(a, b) (c, d). b + interval sp \<le> c) (edits xs sp) \<and>
    (\<forall>t e. sp_lastSentAt sp = Some t \<longrightarrow> edits xs sp = e # tl (edits xs sp) \<longrightarrow> t + interval sp \<le> fst e)"
  using assms
proof (induction xs arbitrary: sp now)
  case (Cons x xs)
  obtain sp' calls where step: "prompt_step x sp = (sp', calls)" by fastforce
  have early: "t \<le> a" if "op_times x = Some (a, b)" "sp_lastSentAt sp = Some t" for a b t
    using Cons.prems(2,3) that by (fastforce split: option.splits)
  have pc: "paced sp (op_times x) sp' calls" using paced_step [OF Cons.prems(1) step early] .
  show ?case
  proof (cases "sp_degraded sp'")
    case True
    then show ?thesis using step degraded_no_edits [OF True, of xs] by simp
  next
    case False
    define later where "later = (case op_times x of Some (a, b) \<Rightarrow> b | None \<Rightarrow> now)"
    have times: "in_time later xs" using Cons.prems(2) by (auto simp: later_def split: option.splits)
    have ok: "timer_ok sp'" "interval sp' = interval sp" using pc by (simp_all add: paced_def)
    have late: "t \<le> later" if "sp_lastSentAt sp' = Some t" for t
      using pc False that Cons.prems(2,3) unfolding later_def paced_def by (fastforce split: option.splits)
    have IH: "successively (\<lambda>(a, b) (c, d). b + interval sp \<le> c) (edits xs sp')"
        "\<forall>t e. sp_lastSentAt sp' = Some t \<longrightarrow> edits xs sp' = e # tl (edits xs sp') \<longrightarrow> t + interval sp \<le> fst e"
      using Cons.IH [OF ok(1) times late] unfolding ok(2) by blast+
    show ?thesis
    proof (cases "calls = []")
      case True
      then have "sp_lastSentAt sp' = sp_lastSentAt sp" using pc False by (auto simp: paced_def)
      then show ?thesis using IH True step by auto
    next
      case called: False
      then obtain a b where ab: "op_times x = Some (a, b)" "sp_lastSentAt sp' = Some b" "\<And>t. sp_lastSentAt sp = Some t \<Longrightarrow> t + interval sp \<le> a"
        using pc False by (auto simp: paced_def)
      then show ?thesis using IH(1) IH(2) [rule_format, OF ab(2)] step called False
        by (cases "edits xs sp'") auto
    qed
  qed
qed simp


section \<open>Examples\<close>

definition editor :: preview_platform where
  "editor = \<lparr>pf_name = ''tg'', pf_MessageUpdater = True, pf_PreviewStarter = True, pf_PreviewCleaner = True,
             pf_KeepPreviewOnFinish = Some True, pf_PreviewStatusUpdater = False, pf_StatusFooterUpdater = False\<rparr>"

definition short_preview :: preview_cfg where
  "short_preview = \<lparr>pc_Enabled = True, pc_DisabledPlatforms = [], pc_IntervalMs = 1500, pc_MinDeltaChars = 1, pc_MaxChars = 4\<rparr>"

definition works :: "time \<Rightarrow> nat call_results" where
  "works now = \<lparr>res_start = Some (Some 1), res_send = True, res_update = True, res_footer = True, res_delete = True, res_now = now\<rparr>"

definition empty_chat :: "nat chat" where
  "empty_chat = (\<lambda>_. None)"

text \<open>The first text opens the preview, the second starts a timer, which fires while the answer is put there.\<close>

definition written :: "nat preview_op list" where
  "written = [PAppend 5 (works 6) ''one'', PAppend 7 (works 8) '' two'', PFires 1600000000 0]"

definition waiting_preview :: "nat stream_preview" where
  "waiting_preview = (newStreamPreview short_preview editor 0 None)\<lparr>sp_fullText := ''one two'', sp_lastSentText := ''one'',
     sp_lastSentAt := Some 6, sp_previewMsgID := Some 1, sp_timer := Some 0, sp_timers := [(0, Waiting)], sp_timerCount := 1\<rparr>"

definition shortened :: string where
  "shortened = limit_chars 4 ''one two''"

lemma ascii_runes: "runes ''one'' = map byte ''one''" "runes ''one two'' = map byte ''one two''"
  by (simp_all add: runes_ascii byte_def)

lemma shortened_runes: "runes shortened = map byte ''one '' @ [0x2026]"
proof -
  have "shortened = of_runes (map byte ''one '' @ [0x2026])"
    by (simp add: shortened_def limit_chars_def ascii_runes ellipsis_def of_runes_append [symmetric])
  moreover have "\<forall>r \<in> set (map byte ''one '' @ [0x2026]). valid_rune r" by (simp add: valid_rune_def byte_def)
  ultimately show ?thesis using runes_of_runes by metis
qed

lemma shortened: "length (runes shortened) = 5" "shortened \<noteq> []" "shortened \<noteq> ''one''" "shortened \<noteq> ''one two''"
  "length (runes ''one two'') = 7" "length (runes ''one'') = 3"
  using shortened_runes ascii_runes by auto

lemma limit_examples [simp]: "limit_chars 4 ''one'' = ''one''" "limit_chars 4 ''one two'' = shortened"
  by (simp_all add: limit_chars_def [of 4 "''one''"] shortened) (simp add: shortened_def)

lemma written_run: "preview_run written (newStreamPreview short_preview editor 0 None) empty_chat =
    (waiting_preview, empty_chat(1 := Some (''one'', [])))"
  by (simp add: written_def waiting_preview_def newStreamPreview_def short_preview_def editor_def works_def appendText_def Let_def
      display_text_def flushLocked_def transformed_def cancelTimerLocked_def scheduleFlushLocked_def shortened
      interval_def wrap64_def timer_fires_def)

lemma finish_example: "finishPreview (works 9) ''one two'' [] waiting_preview =
    (waiting_preview\<lparr>sp_timer := None, sp_timerStopClosed := True\<rparr>, True, [CallUpdate 1 ''one two'' True])"
  by (simp add: finishPreview_def Let_def waiting_preview_def newStreamPreview_def editor_def works_def transformed_def cancelTimerLocked_def
      stop_flush_timer_def finish_update_def status_call_def)


theorem recovery_drops_footer_witness:
  "\<exists>sp' calls. finishPreview (works 9) ''done'' ''5s'' (waiting_preview\<lparr>sp_degraded := True\<rparr>) = (sp', True, calls) \<and>
     fold deliver calls empty_chat 1 = Some (''done'', [])"
proof -
  obtain sp' ok calls where f: "finishPreview (works 9) ''done'' ''5s'' (waiting_preview\<lparr>sp_degraded := True\<rparr>) = (sp', ok, calls)"
    by (metis prod_cases3)
  have "ok \<and> fold deliver calls empty_chat 1 = Some (transformed (waiting_preview\<lparr>sp_degraded := True\<rparr>) ''done'', [])"
    by (rule recovery_drops_footer [OF _ _ _ _ _ f])
      (simp_all add: waiting_preview_def newStreamPreview_def editor_def works_def transformed_def)
  then show ?thesis using f by (simp add: waiting_preview_def newStreamPreview_def transformed_def)
qed

theorem late_timer_overwrites_answer_witness:
  "\<exists>sp2 calls'. timer_callback (works 10) 0 (waiting_preview\<lparr>sp_timer := None, sp_timerStopClosed := True\<rparr>) = (sp2, calls') \<and>
     fold deliver ([CallUpdate 1 ''one two'' True] @ calls') empty_chat 1 = Some (shortened, []) \<and> shortened \<noteq> ''one two''"
proof -
  obtain sp2 calls' where c: "timer_callback (works 10) 0 (waiting_preview\<lparr>sp_timer := None, sp_timerStopClosed := True\<rparr>) = (sp2, calls')"
    by fastforce
  have t: "transformed waiting_preview (display_text waiting_preview) = shortened"
    by (simp add: transformed_def display_text_def waiting_preview_def newStreamPreview_def short_preview_def)
  have "fold deliver ([CallUpdate 1 ''one two'' True] @ calls') empty_chat 1 = Some (transformed waiting_preview (display_text waiting_preview), [])"
    by (rule late_timer_overwrites_answer [OF _ _ _ _ finish_example c], unfold t)
      (simp_all add: waiting_preview_def newStreamPreview_def editor_def works_def shortened)
  then show ?thesis using c t shortened by metis
qed


end
