(* ===== verification/ConfigText.thy ===== *)
theory ConfigText
  imports GoStrings
begin

text \<open>
  The text of \<open>config.toml\<close> as the editing functions of \<open>config/config.go\<close> see it: lines, headers of
  tables, lines that set a key, comments at the end of a line, quoted values, and the lines between
  two indexes in which a key is set. The code does not parse TOML here; it looks at the first bytes
  of a line. Which runes beyond ASCII \<open>strconv.Quote\<close> takes for printable is a parameter.
\<close>

section \<open>White space at the end of a line\<close>

definition is_blank_byte :: "char \<Rightarrow> bool" where
  "is_blank_byte c \<longleftrightarrow> c = CHR '' '' \<or> c = tab"

text \<open>\<open>strings.TrimRight(line, " \t")\<close> and \<open>leadingWhitespace\<close>.\<close>

definition trim_right_blanks :: "string \<Rightarrow> string" where
  "trim_right_blanks s = rev (dropWhile is_blank_byte (rev s))"

definition leadingWhitespace :: "string \<Rightarrow> string" where
  "leadingWhitespace s = takeWhile is_blank_byte s"

section \<open>Recognizing lines\<close>

definition isAnyTableHeader :: "string \<Rightarrow> bool" where
  "isAnyTableHeader line = has_prefix (trim_space line) ''[''"

definition matchTableHeader :: "string \<Rightarrow> string \<Rightarrow> bool" where
  "matchTableHeader line header =
     (let t = trim_space line
      in if \<not> has_prefix t header then False
         else if length t = length header then True
         else (let c = t ! length header in c = CHR '' '' \<or> c = tab \<or> c = CHR ''#''))"

definition matchTomlStringKey :: "string \<Rightarrow> string \<Rightarrow> bool" where
  "matchTomlStringKey line key =
     (let t = trim_space line
      in if t = [] \<or> has_prefix t ''#'' \<or> has_prefix t ''['' then False
         else if \<not> has_prefix t key then False
         else has_prefix (trim_space (trim_prefix t key)) ''='')"

text \<open>The loop of \<open>extractLineComment\<close>: inside quotes, after a backslash, the rest of the line.\<close>

abbreviation backslash :: char where "backslash \<equiv> CHR 0x5C"
abbreviation dquote :: char where "dquote \<equiv> CHR 0x22"

fun comment_scan :: "bool \<Rightarrow> bool \<Rightarrow> string \<Rightarrow> string" where
  "comment_scan inQuote escaped [] = []"
| "comment_scan inQuote escaped (ch # rest) =
     (if escaped then comment_scan inQuote False rest
      else if ch = backslash \<and> inQuote then comment_scan inQuote True rest
      else if ch = dquote then comment_scan (\<not> inQuote) False rest
      else if ch = CHR ''#'' \<and> \<not> inQuote then trim_space (ch # rest)
      else comment_scan inQuote False rest)"

definition extractLineComment :: "string \<Rightarrow> string" where
  "extractLineComment line = comment_scan False False line"

section \<open>Quoted values\<close>

text \<open>\<open>strconv.Quote\<close>: a rune of the string with the bytes it was decoded from.\<close>

definition hex_fixed :: "nat \<Rightarrow> nat \<Rightarrow> string" where
  "hex_fixed w n = map (\<lambda>i. hex_digit (n div 16 ^ (w - 1 - i) mod 16)) [0..<w]"

definition is_print :: "(nat \<Rightarrow> bool) \<Rightarrow> nat \<Rightarrow> bool" where
  "is_print printable r = (if r < 128 then 32 \<le> r \<and> r < 127 else printable r)"

definition escape_letter :: "nat \<Rightarrow> char option" where
  "escape_letter r =
     map_of [(7, CHR ''a''), (8, CHR ''b''), (12, CHR ''f''), (10, CHR ''n''), (13, CHR ''r''), (9, CHR ''t''), (11, CHR ''v'')] r"

definition quote_rune :: "(nat \<Rightarrow> bool) \<Rightarrow> nat \<times> string \<Rightarrow> string" where
  "quote_rune printable rb =
     (case rb of (r, b) \<Rightarrow>
        if length b = 1 \<and> r = rune_error then backslash # CHR ''x'' # hex_fixed 2 (byte (hd b))
        else if r = byte dquote \<or> r = byte backslash then [backslash, char_of r]
        else if is_print printable r then encode_rune r
        else (case escape_letter r of
                Some c \<Rightarrow> [backslash, c]
              | None \<Rightarrow>
                  if r < 32 \<or> r = 127 then backslash # CHR ''x'' # hex_fixed 2 r
                  else if r < 65536 then backslash # CHR ''u'' # hex_fixed 4 r
                  else backslash # CHR ''U'' # hex_fixed 8 r))"

definition quoteTomlString :: "(nat \<Rightarrow> bool) \<Rightarrow> string \<Rightarrow> string" where
  "quoteTomlString printable value =
     [dquote] @ concat (map (quote_rune printable) (segs value)) @ [dquote]"

section \<open>Lines\<close>

definition splitConfigLines :: "string \<Rightarrow> string list \<times> bool" where
  "splitConfigLines raw =
     (if raw = [] then ([], False)
      else (let hadTrailing = has_suffix raw [newline]; raw' = trim_suffix raw [newline]
            in if raw' = [] then ([], hadTrailing) else (split_all newline raw', hadTrailing)))"

definition joinConfigLines :: "string list \<Rightarrow> bool \<Rightarrow> string" where
  "joinConfigLines lines hadTrailing =
     (let out = join [newline] lines in if hadTrailing \<or> lines \<noteq> [] then out @ [newline] else out)"

definition insertLines :: "string list \<Rightarrow> int \<Rightarrow> string list \<Rightarrow> string list" where
  "insertLines lines at block =
     (let at = (if at < 0 then 0 else at); at = (if at > int (length lines) then int (length lines) else at)
      in take (nat at) lines @ block @ drop (nat at) lines)"

definition key_line :: "string \<Rightarrow> string \<Rightarrow> string" where
  "key_line key shown = key @ '' = '' @ shown"

text \<open>The line of a key with its value replaced, the indentation and the comment kept.\<close>

definition with_value :: "string \<Rightarrow> string \<Rightarrow> string \<Rightarrow> string" where
  "with_value line key shown =
     (let comment = extractLineComment line; updated = leadingWhitespace line @ key_line key shown
      in if comment \<noteq> [] then updated @ '' '' @ comment else updated)"

definition replaceTomlStringKeyLine :: "(nat \<Rightarrow> bool) \<Rightarrow> string \<Rightarrow> string \<Rightarrow> string \<Rightarrow> string" where
  "replaceTomlStringKeyLine printable line key value = with_value line key (quoteTomlString printable value)"

text \<open>The first index from \<open>a\<close> to \<open>b\<close> whose line satisfies \<open>P\<close>.\<close>

definition first_line_at :: "(string \<Rightarrow> bool) \<Rightarrow> string list \<Rightarrow> int \<Rightarrow> int \<Rightarrow> int option" where
  "first_line_at P lines a b = find (\<lambda>i. P (lines ! nat i)) [a..b]"

text \<open>The value is written as it is.\<close>

definition upsertTomlRawKey :: "string list \<Rightarrow> int \<Rightarrow> int \<Rightarrow> string \<Rightarrow> string \<Rightarrow> string list" where
  "upsertTomlRawKey lines start end' key rawValue =
     (let start = (if start < 0 then 0 else start);
          end' = (if end' \<ge> int (length lines) then int (length lines) - 1 else end')
      in case first_line_at (\<lambda>l. matchTomlStringKey l key) lines start end' of
           Some i \<Rightarrow> lines[nat i := with_value (lines ! nat i) key rawValue]
         | None \<Rightarrow>
             (let insertAt = (if end' + 1 < start then start else end' + 1)
              in insertLines lines insertAt [key_line key rawValue]))"

definition upsertTomlStringKey ::
    "(nat \<Rightarrow> bool) \<Rightarrow> string list \<Rightarrow> int \<Rightarrow> int \<Rightarrow> string \<Rightarrow> string \<Rightarrow> string list" where
  "upsertTomlStringKey printable lines start end' key value =
     (let start = (if start < 0 then 0 else start);
          end' = (if end' \<ge> int (length lines) then int (length lines) - 1 else end')
      in case first_line_at (\<lambda>l. matchTomlStringKey l key) lines start end' of
           Some i \<Rightarrow> lines[nat i := replaceTomlStringKeyLine printable (lines ! nat i) key value]
         | None \<Rightarrow>
             (let insertAt = (if end' + 1 < start then start else end' + 1)
              in insertLines lines insertAt [key_line key (quoteTomlString printable value)]))"

text \<open>Setting a string is setting its quoted form.\<close>

lemma upsert_string_raw:
  "upsertTomlStringKey printable lines start end' key value = upsertTomlRawKey lines start end' key (quoteTomlString printable value)"
  by (simp add: upsertTomlStringKey_def upsertTomlRawKey_def replaceTomlStringKeyLine_def cong: option.case_cong)

section \<open>Trimming\<close>

lemma decode_rune_snoc_ascii:
  assumes "bs \<noteq> []" "length bs < 4" "b < 128"
  shows "decode_rune (bs @ [b]) = decode_rune bs"
proof -
  have c: "\<not> cont b" "\<not> second_ok x b" for x using assms(3) by (auto simp: cont_def second_ok_def)
  consider x where "bs = [x]" | x y where "bs = [x, y]" | x y z where "bs = [x, y, z]"
    using assms(1,2) by (cases bs; cases "tl bs"; cases "tl (tl bs)"; cases "tl (tl (tl bs))") auto
  then show ?thesis by cases (simp_all add: c)
qed

lemma decode_rune_width: "bs \<noteq> [] \<Longrightarrow> snd (decode_rune bs) \<le> length bs"
  by (cases bs) (auto split: list.splits)

lemma set_trim_space: "set (trim_space s) \<subseteq> set s"
proof -
  have "set (trim_space s) \<subseteq> set (concat (map snd (segs s)))"
    unfolding trim_space_def by (auto dest!: set_dropWhileD)
  then show ?thesis by (simp add: concat_segs)
qed

lemma segs_step: "s \<noteq> [] \<Longrightarrow> decode_rune (map byte (take 4 s)) = (r, w) \<Longrightarrow>
    segs s = (r, take (max 1 w) s) # segs (drop (max 1 w) s)"
  by (subst segs.simps) (simp add: Let_def)

lemma segs_snoc_ascii: "byte c < 128 \<Longrightarrow> segs (s @ [c]) = segs s @ [(byte c, [c])]"
proof (induction s rule: segs.induct)
  case (1 s)
  show ?case
  proof (cases "s = []")
    case True
    then show ?thesis using 1(2) by (simp add: segs_ascii)
  next
    case False
    obtain r w where rw: "decode_rune (map byte (take 4 s)) = (r, w)" by fastforce
    have w: "max 1 w \<le> length s"
      using decode_rune_width [of "map byte (take 4 s)"] rw False by (cases s) auto
    have "decode_rune (map byte (take 4 (s @ [c]))) = (r, w)"
    proof (cases "length s < 4")
      case True
      then have "decode_rune (map byte s @ [byte c]) = decode_rune (map byte s)"
        using False 1(2) by (intro decode_rune_snoc_ascii) auto
      then show ?thesis using rw True by simp
    qed (use rw in simp)
    then have "segs (s @ [c]) = (r, take (max 1 w) s) # segs (drop (max 1 w) s @ [c])"
      using segs_step [of "s @ [c]" r w] w by simp
    then show ?thesis using 1(1) [OF False rw [symmetric] refl] 1(2) rw segs_step [OF False rw] by simp
  qed
qed

lemma trim_space_snoc_blank: "is_blank_byte c \<Longrightarrow> trim_space (s @ [c]) = trim_space s"
proof -
  assume "is_blank_byte c"
  then have c: "byte c < 128" "is_space (byte c)" by (auto simp: is_blank_byte_def is_space_def byte_def)
  have d: "dropWhile P (xs @ [x]) = (if \<forall>y \<in> set xs. P y then [] else dropWhile P xs @ [x])"
    if "P x" for P x and xs :: "(nat \<times> string) list"
    using that by (induction xs) auto
  show ?thesis
  proof (cases "\<forall>y \<in> set (segs s). (is_space \<circ> fst) y")
    case True
    then have nil: "dropWhile (is_space \<circ> fst) (segs s) = []" by simp
    show ?thesis using c True by (simp add: trim_space_def segs_snoc_ascii d nil)
  next
    case False
    then have "dropWhile (is_space \<circ> fst) (segs s @ [(byte c, [c])]) = dropWhile (is_space \<circ> fst) (segs s) @ [(byte c, [c])]"
      using d [of "is_space \<circ> fst" "(byte c, [c])" "segs s"] c(2) by simp
    then show ?thesis using c by (simp add: trim_space_def segs_snoc_ascii)
  qed
qed

lemma trim_right_blanks_snoc: "trim_right_blanks (s @ [c]) = (if is_blank_byte c then trim_right_blanks s else s @ [c])"
  by (simp add: trim_right_blanks_def)

lemma trim_space_right_blanks [simp]: "trim_space (trim_right_blanks s) = trim_space s"
  by (induction s rule: rev_induct) (auto simp: trim_right_blanks_snoc trim_space_snoc_blank trim_right_blanks_def [of "[]"])

lemma trim_right_blanks_idem [simp]: "trim_right_blanks (trim_right_blanks s) = trim_right_blanks s"
  by (simp add: trim_right_blanks_def)

lemma isAnyTableHeader_right_blanks [simp]: "isAnyTableHeader (trim_right_blanks l) = isAnyTableHeader l"
  by (simp add: isAnyTableHeader_def)

lemma matchTableHeader_right_blanks [simp]: "matchTableHeader (trim_right_blanks l) h = matchTableHeader l h"
  by (simp add: matchTableHeader_def)

lemma matchTomlStringKey_right_blanks [simp]: "matchTomlStringKey (trim_right_blanks l) k = matchTomlStringKey l k"
  by (simp add: matchTomlStringKey_def)

section \<open>Trimming twice\<close>

lemma decode_rune_prefix:
  assumes "decode_rune (bs @ cs) = (r, w)" "bs \<noteq> []" "w \<le> length bs"
  shows "decode_rune bs = (r, w)"
proof -
  consider x where "bs = [x]" | x y where "bs = [x, y]" | x y z where "bs = [x, y, z]" | x y z u ds where "bs = x # y # z # u # ds"
    using assms(2) by (cases bs; cases "tl bs"; cases "tl (tl bs)"; cases "tl (tl (tl bs))") auto
  then show ?thesis
    by cases (use assms in \<open>auto split: if_splits list.splits simp: rune_error_def\<close>)
qed

lemma segs_prefix: "segs s = xs @ ys \<Longrightarrow> segs (concat (map snd xs)) = xs"
proof (induction xs arbitrary: s)
  case (Cons x xs)
  then have "s \<noteq> []" by auto
  obtain r w where rw: "decode_rune (map byte (take 4 s)) = (r, w)" by fastforce
  let ?m = "max 1 w" and ?t = "concat (map snd xs)"
  have x: "x = (r, take ?m s)" "segs (drop ?m s) = xs @ ys"
    using Cons.prems segs_step [OF \<open>s \<noteq> []\<close> rw] by auto
  have m: "?m \<le> length s" "?m \<le> 4"
    using decode_rune_width [of "map byte (take 4 s)"] rw \<open>s \<noteq> []\<close> by (cases s; auto)+
  have "drop ?m s = ?t @ concat (map snd ys)" using concat_segs [of "drop ?m s"] x(2) by simp
  then have s: "s = (take ?m s @ ?t) @ concat (map snd ys)" by (metis append.assoc append_take_drop_id)
  then have "take 4 s = take 4 (take ?m s @ ?t) @ take (4 - length (take ?m s @ ?t)) (concat (map snd ys))"
    by (metis take_append)
  then have "decode_rune (map byte (take 4 (take ?m s @ ?t)) @ map byte (take (4 - length (take ?m s @ ?t)) (concat (map snd ys)))) = (r, w)"
    using rw by (metis map_append)
  then have "decode_rune (map byte (take 4 (take ?m s @ ?t))) = (r, w)"
    by (rule decode_rune_prefix) (use m \<open>s \<noteq> []\<close> in auto)
  then have "segs (take ?m s @ ?t) = (r, take ?m s) # segs ?t"
    using segs_step [of "take ?m s @ ?t" r w] m \<open>s \<noteq> []\<close> by (cases s) auto
  then show ?case using Cons.IH [OF x(2)] x(1) by simp
qed simp

lemma segs_suffix: "segs s = xs @ ys \<Longrightarrow> segs (concat (map snd ys)) = ys"
proof (induction xs arbitrary: s)
  case (Cons x xs)
  then have "s \<noteq> []" by auto
  obtain r w where rw: "decode_rune (map byte (take 4 s)) = (r, w)" by fastforce
  then show ?case using Cons segs_step [OF \<open>s \<noteq> []\<close> rw] by auto
qed (metis append_Nil concat_segs)

lemma dropWhile_suffix: "\<exists>ps. xs = ps @ dropWhile P xs"
  by (metis takeWhile_dropWhile_id)

lemma segs_trim_space:
  "segs (trim_space s) = rev (dropWhile (is_space \<circ> fst) (rev (dropWhile (is_space \<circ> fst) (segs s))))"
proof -
  let ?f = "dropWhile (is_space \<circ> fst) :: (nat \<times> string) list \<Rightarrow> (nat \<times> string) list"
  obtain ps where p: "segs s = ps @ ?f (segs s)" using dropWhile_suffix by blast
  let ?u = "concat (map snd (?f (segs s)))"
  have u: "segs ?u = ?f (segs s)" by (rule segs_suffix [OF p])
  obtain qs where "rev (?f (segs s)) = qs @ ?f (rev (?f (segs s)))" using dropWhile_suffix by blast
  then have "segs ?u = rev (?f (rev (?f (segs s)))) @ rev qs" unfolding u by (metis rev_append rev_rev_ident)
  then show ?thesis unfolding trim_space_def by (rule segs_prefix)
qed

lemma dropWhile_trimmed:
  assumes "xs = [] \<or> \<not> P (hd xs)"
  shows "dropWhile P (rev (dropWhile P (rev xs))) = rev (dropWhile P (rev xs))"
proof (cases xs)
  case (Cons m ms)
  have none: "\<forall>l \<in> set ls. P l \<Longrightarrow> dropWhile P ls = []" for ls by simp
  from Cons assms have "\<not> P m" by simp
  then have "dropWhile P (rev ms @ [m]) = dropWhile P (rev ms) @ [m]" by (simp add: dropWhile_append none)
  with Cons \<open>\<not> P m\<close> show ?thesis by simp
qed simp

lemma trim_space_idem [simp]: "trim_space (trim_space s) = trim_space s"
proof -
  let ?P = "is_space \<circ> fst :: nat \<times> string \<Rightarrow> bool"
  have "dropWhile ?P (segs s) = [] \<or> \<not> ?P (hd (dropWhile ?P (segs s)))" using hd_dropWhile by blast
  then show ?thesis
    by (simp only: trim_space_def [of "trim_space s"] segs_trim_space dropWhile_trimmed rev_rev_ident dropWhile_idem)
      (simp only: trim_space_def)
qed

lemma decode_rune_last: "decode_rune bs = (r, w) \<Longrightarrow> 2 \<le> w \<Longrightarrow> w \<le> length bs \<and> 128 \<le> bs ! (w - 1)"
proof (cases bs)
  case (Cons b0 bt)
  assume d: "decode_rune bs = (r, w)" "2 \<le> w"
  have c: "cont b \<Longrightarrow> 128 \<le> b" for b by (simp add: cont_def)
  show ?thesis using d unfolding Cons decode_rune.simps
    by (cases bt; cases "tl bt"; cases "tl (tl bt)")
      (auto split: if_splits dest: c simp: second_ok_def)
qed simp

lemma segs_last_ascii: "(r, b) \<in> set (segs s) \<Longrightarrow> byte (last b) < 128 \<Longrightarrow> r = byte (last b)"
proof (induction s rule: segs.induct)
  case (1 s)
  show ?case
  proof (cases "s = []")
    case False
    obtain q w where rw: "decode_rune (map byte (take 4 s)) = (q, w)" by fastforce
    have here: "q = byte (last (take (max 1 w) s))" if "byte (last (take (max 1 w) s)) < 128"
    proof (cases "2 \<le> w")
      case True
      then have l: "w \<le> length (take 4 s)" "128 \<le> map byte (take 4 s) ! (w - 1)"
        using decode_rune_last [OF rw True] by auto
      moreover from l(1) True have "w - 1 < length (take 4 s)" by linarith
      then have "map byte (take 4 s) ! (w - 1) = byte (s ! (w - 1))" by (subst nth_map) simp_all
      ultimately have w: "w \<le> length (take 4 s)" "128 \<le> byte (s ! (w - 1))" by simp_all
      have "take (max 1 w) s \<noteq> []" "length (take (max 1 w) s) = w" "max 1 w = w" using w(1) True by auto
      then have "last (take (max 1 w) s) = s ! (w - 1)" using True by (simp add: last_conv_nth)
      then show ?thesis using that w by simp
    next
      case False
      then have "max 1 w = 1" by simp
      then have "take (max 1 w) s = [hd s]" using \<open>s \<noteq> []\<close> by (cases s) simp_all
      then show ?thesis using that rw \<open>s \<noteq> []\<close> by (cases s) simp_all
    qed
    show ?thesis using 1 here segs_step [OF False rw] rw False by auto
  qed (use 1 in simp)
qed

lemma trim_space_right_ok [simp]: "trim_right_blanks (trim_space s) = trim_space s"
proof (cases "trim_space s" rule: rev_cases)
  case (snoc u c)
  let ?x = "segs (trim_space s)"
  have "concat (map snd ?x) = u @ [c]" using concat_segs [of "trim_space s"] snoc by simp
  then obtain v r b where x: "?x = v @ [(r, b)]" by (cases ?x rule: rev_cases) auto
  have "b \<noteq> []" using segs_nonempty_bytes [of r b "trim_space s"] x by simp
  then have "last b = c" using \<open>concat (map snd ?x) = u @ [c]\<close> x by (cases b rule: rev_cases) simp_all
  have "\<not> is_space r"
  proof -
    have "dropWhile (is_space \<circ> fst) (rev (dropWhile (is_space \<circ> fst) (segs s))) = (r, b) # rev v"
      using x unfolding segs_trim_space by (metis rev.simps(2) rev_append rev_rev_ident append_Cons append_Nil rev.simps(1))
    then show ?thesis by (metis comp_apply fst_conv hd_dropWhile list.distinct(1) list.sel(1))
  qed
  have "\<not> is_blank_byte c"
  proof
    assume c: "is_blank_byte c"
    then have "r = byte c" using segs_last_ascii [of r b "trim_space s"] x \<open>last b = c\<close> by (auto simp: is_blank_byte_def byte_def)
    then show False using c \<open>\<not> is_space r\<close> by (auto simp: is_blank_byte_def is_space_def byte_def)
  qed
  then show ?thesis by (simp add: snoc trim_right_blanks_snoc)
qed (simp add: trim_right_blanks_def)

end
