(* ===== verification/ConfigFormat.thy ===== *)
theory ConfigFormat
  imports ConfigText
begin

text \<open>
  \<open>formatTOML\<close> of \<open>config/config.go\<close>, which every edit of the configuration file passes its result
  through, and the document a text stands for line by line: the content lines before the first
  header, and each header with its content lines. Formatting drops the headers without content and
  changes nothing else of the document, and formatting twice is formatting once.
\<close>

section \<open>The code\<close>

definition is_blank :: "string \<Rightarrow> bool" where
  "is_blank l \<longleftrightarrow> trim_space l = []"

text \<open>The inner loop of the first pass: is there a line with text before the next header?\<close>

fun has_content :: "string list \<Rightarrow> bool" where
  "has_content [] = False"
| "has_content (l # ls) =
     (if isAnyTableHeader l then False else if \<not> is_blank l then True else has_content ls)"

text \<open>The second pass, with \<open>skipSection\<close> computed where it is read.\<close>

fun format_lines :: "string list \<Rightarrow> bool \<Rightarrow> string list \<Rightarrow> string list" where
  "format_lines [] prevBlank out = out"
| "format_lines (l # ls) prevBlank out =
     (if isAnyTableHeader l \<and> \<not> has_content ls then format_lines ls prevBlank out
      else (let line = trim_right_blanks l; trimmed = trim_space line
            in if trimmed = [] then
                 (if prevBlank then format_lines ls prevBlank out else format_lines ls True (out @ [[]]))
               else if hd trimmed = CHR ''['' \<and> out \<noteq> [] \<and> trim_space (last out) \<noteq> [] then
                 format_lines ls False (out @ [[], line])
               else format_lines ls False (out @ [line])))"

definition trim_blank_lines :: "string list \<Rightarrow> string list" where
  "trim_blank_lines out = rev (dropWhile is_blank (rev (dropWhile is_blank out)))"

definition format_list :: "string list \<Rightarrow> string list" where
  "format_list lines = trim_blank_lines (format_lines lines False [])"

definition formatTOML :: "string \<Rightarrow> string" where
  "formatTOML raw = join [newline] (format_list (split_all newline raw)) @ [newline]"

section \<open>Documents\<close>

text \<open>The content lines before the first header, and the tables: a header with its content lines.\<close>

type_synonym config_table = "string \<times> string list"
type_synonym config_doc = "string list \<times> config_table list"

definition doc_line :: "string \<Rightarrow> config_doc \<Rightarrow> config_doc" where
  "doc_line l d =
     (case d of (pre, ts) \<Rightarrow>
        if isAnyTableHeader l then ([], (trim_right_blanks l, pre) # ts)
        else if is_blank l then (pre, ts)
        else (trim_right_blanks l # pre, ts))"

definition doc_of :: "string list \<Rightarrow> config_doc" where
  "doc_of lines = foldr doc_line lines ([], [])"

definition config_doc :: "string \<Rightarrow> config_doc" where
  "config_doc raw = doc_of (split_all newline raw)"

definition drop_empty_tables :: "config_doc \<Rightarrow> config_doc" where
  "drop_empty_tables d = (fst d, filter (\<lambda>t. snd t \<noteq> []) (snd d))"

lemma doc_of_simps [simp]: "doc_of [] = ([], [])" "doc_of (l # ls) = doc_line l (doc_of ls)"
  by (simp_all add: doc_of_def)

lemma doc_of_append: "doc_of (xs @ ys) = foldr doc_line xs (doc_of ys)"
  by (simp add: doc_of_def)

lemma header_not_blank: "isAnyTableHeader l \<Longrightarrow> \<not> is_blank l"
  by (auto simp: isAnyTableHeader_def is_blank_def has_prefix_def)

lemma is_blank_right_blanks [simp]: "is_blank (trim_right_blanks l) = is_blank l"
  by (simp add: is_blank_def)

lemma is_blank_Nil [simp]: "is_blank []" "\<not> isAnyTableHeader []"
  by (simp_all add: is_blank_def isAnyTableHeader_def has_prefix_def)

lemma header_hd: "trim_space l \<noteq> [] \<Longrightarrow> (hd (trim_space l) = CHR ''['') = isAnyTableHeader l"
  by (cases "trim_space l") (auto simp: isAnyTableHeader_def has_prefix_def)

lemma doc_line_blank: "is_blank l \<Longrightarrow> doc_line l d = d"
  using header_not_blank [of l] by (auto simp: doc_line_def split: prod.splits)

lemma doc_line_right_blanks [simp]: "doc_line (trim_right_blanks l) d = doc_line l d"
  by (cases d) (simp add: doc_line_def)

lemma has_content_doc: "has_content ls \<longleftrightarrow> fst (doc_of ls) \<noteq> []"
  by (induction ls) (auto simp: doc_line_def split: prod.splits)

section \<open>Emitting lines\<close>

text \<open>The second pass without its accumulator: \<open>st\<close> says that something was written before.\<close>

fun emit :: "string list \<Rightarrow> bool \<Rightarrow> bool \<Rightarrow> string list" where
  "emit [] pb st = []"
| "emit (l # ls) pb st =
     (if isAnyTableHeader l \<and> \<not> has_content ls then emit ls pb st
      else if is_blank l then (if pb then emit ls pb st else [] # emit ls True True)
      else if isAnyTableHeader l \<and> st \<and> \<not> pb then [] # trim_right_blanks l # emit ls False True
      else trim_right_blanks l # emit ls False True)"

lemma format_lines_emit:
  "pb = (out \<noteq> [] \<and> is_blank (last out)) \<Longrightarrow> format_lines ls pb out = out @ emit ls pb (out \<noteq> [])"
proof (induction ls arbitrary: pb out)
  case (Cons l ls)
  have b: "trim_space l = [] \<longleftrightarrow> is_blank l" "trim_space (last out) = [] \<longleftrightarrow> is_blank (last out)" by (simp_all add: is_blank_def)
  have i: "format_lines ls True (out @ [[]]) = out @ [] # emit ls True True"
    "\<not> is_blank l \<Longrightarrow> format_lines ls False (out @ [trim_right_blanks l]) = out @ trim_right_blanks l # emit ls False True"
    "\<not> is_blank l \<Longrightarrow> format_lines ls False (out @ [[], trim_right_blanks l]) = out @ [] # trim_right_blanks l # emit ls False True"
    using Cons.IH [of True "out @ [[]]"] Cons.IH [of False "out @ [trim_right_blanks l]"]
      Cons.IH [of False "out @ [[], trim_right_blanks l]"] by auto
  show ?case
    using Cons.IH [OF Cons.prems] Cons.prems i header_hd [of l] b by (auto simp: Let_def simp del: append.simps)
qed simp

lemma format_list_emit: "format_list lines = trim_blank_lines (emit lines False False)"
  using format_lines_emit [of False "[]" lines] by (simp add: format_list_def)

lemma has_content_emit: "has_content (emit ls pb st) = has_content ls"
  by (induction ls pb st rule: emit.induct) (auto dest: header_not_blank)

lemma doc_emit: "doc_of (emit ls pb st) = drop_empty_tables (doc_of ls)"
proof (induction ls pb st rule: emit.induct)
  case (2 l ls pb st)
  obtain pre ts where d: "doc_of ls = (pre, ts)" by fastforce
  have h: "has_content ls \<longleftrightarrow> pre \<noteq> []" using has_content_doc [of ls] d by simp
  have s: "drop_empty_tables (doc_line l (pre, ts)) =
      (if isAnyTableHeader l \<and> pre = [] then drop_empty_tables (pre, ts) else doc_line l (drop_empty_tables (pre, ts)))"
    by (auto simp: drop_empty_tables_def doc_line_def)
  show ?case using 2 d h s by (auto simp: doc_line_blank)
qed (simp add: drop_empty_tables_def)

lemma doc_drop_blank: "doc_of (dropWhile is_blank ls) = doc_of ls"
  by (induction ls) (auto simp: doc_line_blank)

lemma foldr_doc_blank: "\<forall>l \<in> set ls. is_blank l \<Longrightarrow> foldr doc_line ls d = d"
  by (induction ls) (auto simp: doc_line_blank)

lemma doc_drop_trailing: "doc_of (rev (dropWhile is_blank (rev ls))) = doc_of ls"
proof -
  have ls: "ls = rev (dropWhile is_blank (rev ls)) @ rev (takeWhile is_blank (rev ls))"
    by (metis rev_append rev_rev_ident takeWhile_dropWhile_id)
  have "doc_of (rev (takeWhile is_blank (rev ls))) = ([], [])"
    unfolding doc_of_def by (rule foldr_doc_blank) (auto dest: set_takeWhileD)
  then show ?thesis by (subst (2) ls) (simp add: doc_of_append doc_of_def)
qed

lemma doc_trim_blank_lines [simp]: "doc_of (trim_blank_lines ls) = doc_of ls"
  by (simp add: trim_blank_lines_def doc_drop_trailing doc_drop_blank)

lemma doc_format_list: "doc_of (format_list lines) = drop_empty_tables (doc_of lines)"
  by (simp add: format_list_emit doc_emit)

section \<open>Formatted text is left as it is\<close>

text \<open>What formatting establishes, as a condition on neighbouring lines.\<close>

fun neat :: "string list \<Rightarrow> bool" where
  "neat [] = True"
| "neat (l # ls) \<longleftrightarrow>
     trim_right_blanks l = l \<and> (is_blank l \<longrightarrow> l = []) \<and> (isAnyTableHeader l \<longrightarrow> has_content ls) \<and>
     (ls \<noteq> [] \<longrightarrow> \<not> (is_blank l \<and> is_blank (hd ls)) \<and> (isAnyTableHeader (hd ls) \<longrightarrow> is_blank l)) \<and> neat ls"

text \<open>What may come first after a blank line, and after another line.\<close>

definition may_follow :: "bool \<Rightarrow> bool \<Rightarrow> string list \<Rightarrow> bool" where
  "may_follow pb st ls \<longleftrightarrow>
     (ls \<noteq> [] \<longrightarrow> \<not> (pb \<and> is_blank (hd ls)) \<and> (isAnyTableHeader (hd ls) \<longrightarrow> pb \<or> \<not> st))"

lemma trim_right_blanks_Nil [simp]: "trim_right_blanks [] = []"
  by (simp add: trim_right_blanks_def)

lemma emit_neat: "(pb \<longrightarrow> st) \<Longrightarrow> neat (emit ls pb st) \<and> may_follow pb st (emit ls pb st)"
proof (induction ls pb st rule: emit.induct)
  case (2 l ls pb st)
  then show ?case
    using header_not_blank [of l] by (auto simp: may_follow_def has_content_emit)
qed (simp add: may_follow_def)

lemma neat_drop_blank: "neat ls \<Longrightarrow> neat (dropWhile is_blank ls)"
  by (induction ls) auto

lemma has_content_snoc_blank: "is_blank b \<Longrightarrow> has_content (ls @ [b]) = has_content ls"
  using header_not_blank [of b] by (induction ls) auto

lemma neat_snoc_blank: "is_blank b \<Longrightarrow> neat (ls @ [b]) \<Longrightarrow> neat ls"
  by (induction ls) (auto simp: has_content_snoc_blank)

lemma neat_drop_trailing: "neat ls \<Longrightarrow> neat (rev (dropWhile is_blank (rev ls)))"
  by (induction ls rule: rev_induct) (auto intro: neat_snoc_blank)

lemma neat_format_list: "neat (format_list lines)"
  unfolding format_list_emit trim_blank_lines_def
  using emit_neat [of False False lines] by (intro neat_drop_trailing neat_drop_blank) simp

lemma dropWhile_none: "\<forall>l \<in> set ls. P l \<Longrightarrow> dropWhile P ls = []"
  by simp

lemma trim_blank_lines_snoc: "is_blank b \<Longrightarrow> trim_blank_lines (ls @ [b]) = trim_blank_lines ls"
  by (cases "\<forall>l \<in> set ls. is_blank l") (simp_all add: trim_blank_lines_def dropWhile_append dropWhile_none)

lemma trim_blank_lines_idem [simp]: "trim_blank_lines (trim_blank_lines ls) = trim_blank_lines ls"
proof -
  have "dropWhile is_blank ls = [] \<or> \<not> is_blank (hd (dropWhile is_blank ls))" using hd_dropWhile by blast
  then show ?thesis unfolding trim_blank_lines_def by (simp only: dropWhile_trimmed rev_rev_ident dropWhile_idem)
qed

lemma emit_of_neat: "neat ls \<Longrightarrow> may_follow pb st ls \<Longrightarrow> emit ls pb st = ls"
proof (induction ls arbitrary: pb st)
  case (Cons l ls)
  have l: "trim_right_blanks l = l" "is_blank l \<Longrightarrow> l = []" "isAnyTableHeader l \<Longrightarrow> has_content ls" "neat ls"
    and m: "is_blank l \<Longrightarrow> \<not> pb" "isAnyTableHeader l \<Longrightarrow> pb \<or> \<not> st"
    using Cons.prems by (simp_all add: may_follow_def)
  show ?case
  proof (cases "is_blank l")
    case True
    then have "may_follow True True ls" using Cons.prems(1) by (simp add: may_follow_def)
    then show ?thesis using Cons.IH [OF l(4)] True l(2) m(1) header_not_blank [of l] by simp
  next
    case False
    then have "may_follow False True ls" using Cons.prems(1) by (simp add: may_follow_def)
    then have "emit ls False True = ls" by (rule Cons.IH [OF l(4)])
    then show ?thesis using False l(1,3) m(2) by auto
  qed
qed simp

lemma emit_snoc_blank: "emit (ls @ [[]]) pb st = emit ls pb st \<or> emit (ls @ [[]]) pb st = emit ls pb st @ [[]]"
  by (induction ls pb st rule: emit.induct) (auto simp: has_content_snoc_blank)

lemma format_list_snoc: "format_list (ls @ [[]]) = format_list ls"
  using emit_snoc_blank [of ls False False] unfolding format_list_emit
  by (elim disjE) (simp_all add: trim_blank_lines_snoc)

lemma format_list_idem: "format_list (format_list lines) = format_list lines"
proof -
  let ?x = "format_list lines"
  have "may_follow False False ?x" by (simp add: may_follow_def)
  then have "format_list ?x = trim_blank_lines ?x"
    by (simp add: format_list_emit [of ?x] emit_of_neat neat_format_list)
  then show ?thesis by (simp add: format_list_def)
qed

section \<open>From lines to text and back\<close>

definition one_line :: "string \<Rightarrow> bool" where
  "one_line l \<longleftrightarrow> newline \<notin> set l"

lemma one_line_Nil [simp]: "one_line []"
  by (simp add: one_line_def)

lemma one_line_append [simp]: "one_line (a @ b) \<longleftrightarrow> one_line a \<and> one_line b"
  by (auto simp: one_line_def)

lemma one_line_Cons [simp]: "one_line (c # b) \<longleftrightarrow> c \<noteq> newline \<and> one_line b"
  by (auto simp: one_line_def)

lemma one_line_right_blanks [simp]: "one_line l \<Longrightarrow> one_line (trim_right_blanks l)"
  unfolding one_line_def trim_right_blanks_def by (metis set_dropWhileD set_rev)

lemma one_line_split: "\<forall>l \<in> set (split_all newline raw). one_line l"
  by (auto simp: one_line_def dest: split_all_parts)

lemma set_trim_blank_lines: "set (trim_blank_lines ls) \<subseteq> set ls"
  by (auto simp: trim_blank_lines_def dest!: set_dropWhileD)

lemma set_emit: "set (emit ls pb st) \<subseteq> insert [] (trim_right_blanks ` set ls)"
  by (induction ls pb st rule: emit.induct) auto

lemma one_line_format_list: "\<forall>l \<in> set lines. one_line l \<Longrightarrow> \<forall>l \<in> set (format_list lines). one_line l"
  using set_trim_blank_lines [of "emit lines False False"] set_emit [of lines False False]
  unfolding format_list_emit by fastforce

lemma split_join_newline:
  "ls \<noteq> [] \<Longrightarrow> \<forall>l \<in> set ls. one_line l \<Longrightarrow> split_all newline (join [newline] ls @ [newline]) = ls @ [[]]"
  using split_all_append [of newline "join [newline] ls" "[]"] split_all_join [of ls newline]
  by (simp add: one_line_def split_all_absent)

lemma format_list_Nil [simp]: "format_list [] = []" "format_list [[]] = []" "format_list [[], []] = []"
  by (simp_all add: format_list_emit trim_blank_lines_def)

lemma split_newline [simp]: "split_all newline [newline] = [[], []]"
  by (simp add: split_all_def)

text \<open>The lines of a formatted text are the formatted lines, and one empty line after the last line feed.\<close>

lemma format_list_written:
  assumes "\<forall>l \<in> set ls. one_line l"
  shows "format_list (split_all newline (join [newline] ls @ [newline])) = format_list ls"
proof (cases "ls = []")
  case False
  then show ?thesis using split_join_newline [OF False assms] by (simp add: format_list_snoc)
qed simp

lemma format_twice: "formatTOML (formatTOML raw) = formatTOML raw"
  unfolding formatTOML_def format_list_written [OF one_line_format_list [OF one_line_split]]
  by (simp only: format_list_idem)

lemma config_doc_written:
  assumes "\<forall>l \<in> set ls. one_line l"
  shows "config_doc (join [newline] ls @ [newline]) = doc_of ls"
proof (cases "ls = []")
  case False
  then show ?thesis
    using split_join_newline [OF False assms] by (simp add: config_doc_def doc_of_append doc_line_blank) (simp add: doc_of_def)
qed (simp add: config_doc_def doc_line_blank)

lemma format_keeps_doc: "config_doc (formatTOML raw) = drop_empty_tables (config_doc raw)"
  unfolding formatTOML_def config_doc_written [OF one_line_format_list [OF one_line_split]]
  by (simp add: doc_format_list config_doc_def)

end
