(* ===== verification/ConfigKeys.thy ===== *)
theory ConfigKeys
  imports ConfigFormat
begin

text \<open>
  Setting a key among the lines of one table: what a line that sets a key looks like after its value
  was replaced, that the comment of the line survives any quoted value, that the loops over indexes
  change exactly the lines of the table they are given, and what that does to the document.
\<close>

section \<open>Keys and quoted values\<close>

text \<open>A bare key of TOML. The keys the code sets are such words.\<close>

definition bare_byte :: "char \<Rightarrow> bool" where
  "bare_byte c \<longleftrightarrow> (48 \<le> byte c \<and> byte c \<le> 57) \<or> (65 \<le> byte c \<and> byte c \<le> 90) \<or> (97 \<le> byte c \<and> byte c \<le> 122)
     \<or> byte c = 45 \<or> byte c = 95"

definition bare_key :: "string \<Rightarrow> bool" where
  "bare_key key \<longleftrightarrow> key \<noteq> [] \<and> list_all bare_byte key"

text \<open>A value as it is written: one line that does not end in a blank and closes the quotes it opens.\<close>

definition closed_value :: "string \<Rightarrow> bool" where
  "closed_value v \<longleftrightarrow> v \<noteq> [] \<and> \<not> is_blank_byte (last v) \<and> one_line v \<and>
     (\<forall>rest. comment_scan False False (v @ rest) = comment_scan False False rest)"

lemma bare_byte_other: "bare_byte c \<Longrightarrow>
    c \<noteq> CHR ''['' \<and> c \<noteq> CHR ''#'' \<and> c \<noteq> CHR ''='' \<and> c \<noteq> dquote \<and> c \<noteq> backslash \<and> c \<noteq> newline
    \<and> \<not> is_blank_byte c \<and> byte c < 128 \<and> \<not> is_space (byte c)"
  by (auto simp: bare_byte_def is_blank_byte_def is_space_def byte_def)

lemma bare_key_scan: "list_all bare_byte key \<Longrightarrow> comment_scan False False (key @ rest) = comment_scan False False rest"
  by (induction key) (auto dest: bare_byte_other)

lemma bare_key_one_line: "list_all bare_byte key \<Longrightarrow> one_line key"
  by (induction key) (auto dest: bare_byte_other)

text \<open>Bytes that mean nothing to the scan inside quotes.\<close>

definition quiet :: "char \<Rightarrow> bool" where
  "quiet c \<longleftrightarrow> c \<noteq> backslash \<and> c \<noteq> dquote \<and> c \<noteq> newline"

lemma quiet_scan: "list_all quiet s \<Longrightarrow> comment_scan True False (s @ rest) = comment_scan True False rest"
  by (induction s) (auto simp: quiet_def)

lemma quiet_byte: "quiet c \<longleftrightarrow> byte c \<noteq> 92 \<and> byte c \<noteq> 34 \<and> byte c \<noteq> 10"
proof -
  have "byte backslash = 92" "byte dquote = 34" "byte newline = 10" by (simp_all add: byte_def)
  then show ?thesis unfolding quiet_def by (metis byte_inject)
qed

lemma quiet_char_of: "b < 256 \<Longrightarrow> quiet (char_of b) \<longleftrightarrow> b \<noteq> 92 \<and> b \<noteq> 34 \<and> (b::nat) \<noteq> 10"
  by (simp add: quiet_byte)

lemma quiet_hex: "list_all quiet (hex_fixed w n)"
  by (auto simp: hex_fixed_def list_all_iff hex_digit_def quiet_char_of)

lemma quiet_encode_rune: "r \<noteq> 34 \<Longrightarrow> r \<noteq> 92 \<Longrightarrow> r \<noteq> 10 \<Longrightarrow> list_all quiet (encode_rune r)"
  using encode_valid_bytes [of "if valid_rune r then r else rune_error"]
  by (cases "r < 128") (auto simp: encode_rune_def encode_valid_def list_all_iff quiet_char_of valid_rune_def rune_error_def)

lemma scan_escape:
  "c \<noteq> newline \<Longrightarrow> list_all quiet s \<Longrightarrow>
   comment_scan True False ((backslash # c # s) @ rest) = comment_scan True False rest \<and> one_line (backslash # c # s)"
  using quiet_scan [of s rest] by (auto simp: one_line_def list_all_iff quiet_def)

lemma escape_letter_ok: "escape_letter r = Some c \<Longrightarrow> c \<noteq> newline"
  by (auto simp: escape_letter_def split: if_splits)

lemma byte_marks [simp]: "byte dquote = 34" "byte backslash = 92" "byte newline = 10"
  by (simp_all add: byte_def)

lemma quote_rune_scan:
  "comment_scan True False (quote_rune printable rb @ rest) = comment_scan True False rest \<and> one_line (quote_rune printable rb)"
proof (cases rb)
  case (Pair r b)
  have q: "list_all quiet s \<Longrightarrow> comment_scan True False (s @ rest) = comment_scan True False rest \<and> one_line s" for s
    using quiet_scan [of s rest] by (auto simp: one_line_def list_all_iff quiet_def)
  have e: "list_all quiet (encode_rune r)" if "is_print printable r" "r \<noteq> 34" "r \<noteq> 92"
    using that by (intro quiet_encode_rune) (auto simp: is_print_def)
  have c: "char_of r \<noteq> newline" if "r = 34 \<or> r = 92"
    using that by (auto simp flip: byte_inject)
  show ?thesis
    using scan_escape [of "CHR ''x''"] scan_escape [of "CHR ''u''"] scan_escape [of "CHR ''U''"] scan_escape [OF c, of "[]"]
      scan_escape [OF escape_letter_ok, of r _ "[]"] q [OF e] quiet_hex
    by (auto simp: Pair quote_rune_def simp del: comment_scan.simps append_Cons split: option.splits)
qed

lemma quoted_runes_scan:
  "comment_scan True False (concat (map (quote_rune printable) xs) @ rest) = comment_scan True False rest \<and>
   one_line (concat (map (quote_rune printable) xs))"
  by (induction xs) (use quote_rune_scan in auto)

lemma closed_quote: "closed_value (quoteTomlString printable v)"
proof -
  have "comment_scan True False (concat (map (quote_rune printable) (segs v)) @ dquote # rest) =
      comment_scan True False (dquote # rest)" for rest
    using quoted_runes_scan [of printable "segs v" "dquote # rest"] by (rule conjunct1)
  then show ?thesis
    using quoted_runes_scan [of printable "segs v" "[]"]
    by (simp add: closed_value_def quoteTomlString_def is_blank_byte_def)
qed

section \<open>Lines that set a key\<close>

lemma trim_space_blank_Cons: "is_blank_byte c \<Longrightarrow> trim_space (c # s) = trim_space s"
  by (auto simp: trim_space_def segs_ascii is_blank_byte_def is_space_def byte_def)

lemma trim_space_blanks: "list_all is_blank_byte u \<Longrightarrow> trim_space (u @ s) = trim_space s"
  by (induction u) (auto simp: trim_space_blank_Cons)

text \<open>An ASCII text that begins and ends with no white space stays at the start of a trimmed line.\<close>

lemma trim_space_prefix:
  assumes "u \<noteq> []" "\<forall>c \<in> set u. byte c < 128" "\<not> is_space (byte (hd u))" "\<not> is_space (byte (last u))"
  shows "\<exists>t. trim_space (u @ s) = u @ t"
proof -
  let ?f = "\<lambda>c. (byte c, [c])" and ?P = "is_space \<circ> fst :: nat \<times> string \<Rightarrow> bool"
  have seg: "segs (u @ s) = map ?f u @ segs s" using assms(2) by (induction u) (auto simp: segs_ascii)
  have front: "dropWhile ?P (segs (u @ s)) = map ?f u @ segs s"
    using assms(1,3) unfolding seg by (cases u) auto
  have rear: "dropWhile ?P (rev (map ?f u)) = rev (map ?f u)"
    using assms(1,4) by (cases u rule: rev_cases) auto
  have c: "concat (map snd (map ?f u)) = u" by (induction u) auto
  have "\<exists>y. rev (dropWhile ?P (rev (map ?f u @ segs s))) = map ?f u @ y"
  proof (cases "\<forall>x \<in> set (rev (segs s)). ?P x")
    case True
    then have "dropWhile ?P (rev (map ?f u @ segs s)) = dropWhile ?P (rev (map ?f u))"
      unfolding rev_append by (intro dropWhile_append2) simp
    then show ?thesis using rear by simp
  next
    case False
    then obtain x where "x \<in> set (rev (segs s))" "\<not> ?P x" by blast
    then have "dropWhile ?P (rev (map ?f u @ segs s)) = dropWhile ?P (rev (segs s)) @ rev (map ?f u)"
      unfolding rev_append by (rule dropWhile_append1)
    then show ?thesis by simp
  qed
  then obtain y where "rev (dropWhile ?P (rev (map ?f u @ segs s))) = map ?f u @ y" by blast
  then have "trim_space (u @ s) = concat (map snd (map ?f u @ y))" unfolding trim_space_def front by simp
  then show ?thesis using c by auto
qed

definition comment_part :: "string \<Rightarrow> string" where
  "comment_part c = (if c \<noteq> [] then '' '' @ c else [])"

lemma with_value_alt:
  "with_value line key v = leadingWhitespace line @ key_line key v @ comment_part (extractLineComment line)"
  by (simp add: with_value_def comment_part_def Let_def)

lemma leading_blank: "list_all is_blank_byte (leadingWhitespace l)"
  by (auto simp: leadingWhitespace_def list_all_iff dest: set_takeWhileD)

text \<open>Every line that the code writes for a key is found again by the code's own test.\<close>

lemma key_line_matches:
  assumes "bare_key key" "list_all is_blank_byte u"
  shows "matchTomlStringKey (u @ key_line key v @ w) key" "\<not> isAnyTableHeader (u @ key_line key v @ w)"
    "\<not> is_blank (u @ key_line key v @ w)"
proof -
  obtain k ks where k: "key = k # ks" "bare_byte k" "list_all bare_byte ks"
    using assms(1) by (cases key) (auto simp: bare_key_def)
  have b: "\<forall>c \<in> set key. byte c < 128" using assms(1) by (auto simp: bare_key_def list_all_iff dest: bare_byte_other)
  let ?l = "u @ key_line key v @ w"
  have e: "byte (CHR '' '') = 32" "byte (CHR ''='') = 61" by (simp_all add: byte_def)
  obtain t where "trim_space ((key @ '' ='') @ '' '' @ v @ w) = (key @ '' ='') @ t"
    using trim_space_prefix [of "key @ '' =''" "'' '' @ v @ w"] b k bare_byte_other [OF k(2)] e by (auto simp: is_space_def)
  then have t: "trim_space ?l = key @ '' ='' @ t"
    using trim_space_blanks [OF assms(2)] by (simp add: key_line_def)
  obtain t2 where "trim_space (''='' @ t) = ''='' @ t2"
    using trim_space_prefix [of "''=''" t] e by (auto simp: is_space_def)
  then have "trim_space ('' ='' @ t) = ''='' @ t2" using trim_space_blank_Cons [of "CHR '' ''" "''='' @ t"] by (simp add: is_blank_byte_def)
  then show "matchTomlStringKey ?l key"
    using bare_byte_other [OF k(2)] t by (simp add: matchTomlStringKey_def has_prefix_def trim_prefix_def k(1))
  show "\<not> isAnyTableHeader ?l" "\<not> is_blank ?l"
    using bare_byte_other [OF k(2)] t by (simp_all add: isAnyTableHeader_def is_blank_def has_prefix_def k(1))
qed

section \<open>The comment and the indentation\<close>

lemma comment_scan_shape: "comment_scan q e l = [] \<or> (\<exists>x. comment_scan q e l = trim_space (CHR ''#'' # x))"
  by (induction q e l rule: comment_scan.induct) auto

lemma comment_shape: "extractLineComment l = [] \<or> (\<exists>t. extractLineComment l = CHR ''#'' # t)"
proof (cases "extractLineComment l = []")
  case False
  then obtain x where "extractLineComment l = trim_space (CHR ''#'' # x)"
    using comment_scan_shape unfolding extractLineComment_def by blast
  moreover obtain t where "trim_space (CHR ''#'' # x) = CHR ''#'' # t"
    using trim_space_prefix [of "''#''" x] by (auto simp: is_space_def byte_def)
  ultimately show ?thesis by simp
qed simp

lemma comment_trimmed [simp]: "trim_space (extractLineComment l) = extractLineComment l"
  using comment_scan_shape [of False False l] unfolding extractLineComment_def by auto

lemma scan_blanks: "list_all is_blank_byte u \<Longrightarrow> comment_scan False False (u @ s) = comment_scan False False s"
  by (induction u) (auto simp: is_blank_byte_def)

lemma comment_with_value:
  assumes "bare_key key" "closed_value v"
  shows "extractLineComment (with_value l key v) = extractLineComment l"
proof -
  have "comment_scan False False (comment_part (extractLineComment l)) = extractLineComment l"
    using comment_shape [of l] comment_trimmed [of l] by (auto simp: comment_part_def simp del: comment_trimmed)
  moreover have "extractLineComment (with_value l key v) =
      comment_scan False False (leadingWhitespace l @ key_line key v @ comment_part (extractLineComment l))"
    by (subst extractLineComment_def, subst with_value_alt, rule refl)
  ultimately show ?thesis
    using assms leading_blank [of l]
    by (simp add: key_line_def scan_blanks bare_key_scan bare_key_def closed_value_def)
qed

lemma leading_with_value: "bare_key key \<Longrightarrow> leadingWhitespace (with_value l key v) = leadingWhitespace l"
proof -
  assume "bare_key key"
  then obtain k ks where k: "key = k # ks" "bare_byte k" by (cases key) (auto simp: bare_key_def)
  then show ?thesis using leading_blank [of l] bare_byte_other [OF k(2)]
    by (simp add: leadingWhitespace_def with_value_alt key_line_def takeWhile_append list_all_iff)
qed

lemma with_value_twice:
  "bare_key key \<Longrightarrow> closed_value v \<Longrightarrow> with_value (with_value l key v) key w = with_value l key w"
  by (simp add: with_value_alt [of "with_value l key v"] comment_with_value leading_with_value) (simp add: with_value_alt)

text \<open>Blanks at the end of a line make no difference.\<close>

lemma scan_snoc_blank: "is_blank_byte c \<Longrightarrow> comment_scan q e (s @ [c]) = comment_scan q e s"
proof (induction q e s rule: comment_scan.induct)
  case (2 q e ch rest)
  then show ?case using trim_space_snoc_blank [of c "ch # rest"] by auto
qed (auto simp: is_blank_byte_def)

lemma comment_right_blanks [simp]: "extractLineComment (trim_right_blanks l) = extractLineComment l"
  by (induction l rule: rev_induct)
    (auto simp: trim_right_blanks_snoc extractLineComment_def scan_snoc_blank trim_right_blanks_def [of "[]"])

lemma leading_right_blanks: "\<not> is_blank l \<Longrightarrow> leadingWhitespace (trim_right_blanks l) = leadingWhitespace l"
proof (induction l rule: rev_induct)
  case (snoc c s)
  show ?case
  proof (cases "is_blank_byte c")
    case True
    then have "\<not> is_blank s" using snoc.prems by (simp add: is_blank_def trim_space_snoc_blank)
    moreover from this have "\<not> list_all is_blank_byte s" using trim_space_blanks [of s "[]"] by (auto simp: is_blank_def)
    then have "leadingWhitespace (s @ [c]) = leadingWhitespace s"
      by (auto simp: leadingWhitespace_def takeWhile_append list_all_iff)
    ultimately show ?thesis using snoc.IH True by (simp add: trim_right_blanks_snoc)
  qed (simp add: trim_right_blanks_snoc)
qed simp

lemma trim_right_append: "s \<noteq> [] \<Longrightarrow> trim_right_blanks s = s \<Longrightarrow> trim_right_blanks (x @ s) = x @ s"
proof (cases s rule: rev_cases)
  case (snoc y c)
  assume a: "trim_right_blanks s = s"
  have "length (trim_right_blanks y) \<le> length y" unfolding trim_right_blanks_def using length_dropWhile_le [of is_blank_byte "rev y"] by simp
  then have "\<not> is_blank_byte c" using a snoc by (auto simp: trim_right_blanks_snoc split: if_splits)
  then show ?thesis using snoc by (simp add: trim_right_blanks_snoc flip: append_assoc)
qed simp

lemma trim_right_closed: "closed_value v \<Longrightarrow> trim_right_blanks v = v"
  by (cases v rule: rev_cases) (auto simp: closed_value_def trim_right_blanks_snoc)

lemma trim_right_key_line: "closed_value v \<Longrightarrow> trim_right_blanks (key_line key v) = key_line key v"
  using trim_right_append [of v "key @ '' = ''"] trim_right_closed [of v] by (simp add: key_line_def closed_value_def)

lemma trim_right_with_value:
  assumes "closed_value v" "\<not> is_blank l"
  shows "trim_right_blanks (with_value l key v) = with_value (trim_right_blanks l) key v"
proof -
  let ?c = "extractLineComment l" and ?u = "leadingWhitespace l"
  have "trim_right_blanks (with_value l key v) = with_value l key v"
  proof (cases "?c = []")
    case True
    then show ?thesis
      using trim_right_append [of "key_line key v" ?u] trim_right_key_line [OF assms(1)]
      by (simp add: with_value_alt comment_part_def key_line_def)
  next
    case False
    then show ?thesis using trim_right_append [of ?c "?u @ key_line key v @ '' ''"] trim_space_right_ok [of ?c]
      by (simp add: with_value_alt comment_part_def)
  qed
  then show ?thesis using assms(2) by (simp add: with_value_alt leading_right_blanks)
qed

end
