(* ===== verification/ConfigTables.thy ===== *)
theory ConfigTables
  imports ConfigKeys
begin

text \<open>
  From indexes to tables: where the loops of \<open>config/config.go\<close> find the end of a table, what an
  update between two indexes does to the lines of the table, and what the same update is on the
  document the lines stand for.
\<close>

section \<open>Setting a key in a list of lines\<close>

text \<open>The reference: replace the first line of the key, or add one at the end.\<close>

fun set_key :: "string \<Rightarrow> string \<Rightarrow> string list \<Rightarrow> string list" where
  "set_key key v [] = [key_line key v]"
| "set_key key v (l # ls) =
     (if matchTomlStringKey l key then with_value l key v # ls else l # set_key key v ls)"

text \<open>The line of a key, and setting it in the lines before the first header or in the table at a position.\<close>

definition key_of :: "string \<Rightarrow> string list \<Rightarrow> string option" where
  "key_of key ls = find (\<lambda>l. matchTomlStringKey l key) ls"

definition set_top :: "string \<Rightarrow> string \<Rightarrow> config_doc \<Rightarrow> config_doc" where
  "set_top key v d = (set_key key v (fst d), snd d)"

definition set_table :: "nat \<Rightarrow> string \<Rightarrow> string \<Rightarrow> config_doc \<Rightarrow> config_doc" where
  "set_table p key v d = (fst d, (snd d)[p := (fst (snd d ! p), set_key key v (snd (snd d ! p)))])"

lemma with_value_matches: "bare_key key \<Longrightarrow> matchTomlStringKey (with_value l key v) key"
  using key_line_matches(1) [of key "leadingWhitespace l" v] leading_blank by (simp add: with_value_alt)

lemma key_line_matches_Nil: "bare_key key \<Longrightarrow> matchTomlStringKey (key_line key v) key"
  using key_line_matches(1) [of key "[]" v "[]"] by simp

lemma with_value_plain: "bare_key key \<Longrightarrow> \<not> isAnyTableHeader (with_value l key v) \<and> \<not> is_blank (with_value l key v)"
  using key_line_matches(2,3) [of key "leadingWhitespace l" v] leading_blank by (simp add: with_value_alt)

lemma key_line_plain: "bare_key key \<Longrightarrow> \<not> isAnyTableHeader (key_line key v) \<and> \<not> is_blank (key_line key v)"
  using key_line_matches(2,3) [of key "[]" v "[]"] by simp

lemma key_of_set_key: "bare_key key \<Longrightarrow>
    key_of key (set_key key v ls) = Some (case key_of key ls of None \<Rightarrow> key_line key v | Some l \<Rightarrow> with_value l key v)"
  by (induction ls) (auto simp: key_of_def with_value_matches key_line_matches_Nil)

lemma set_key_twice:
  assumes "bare_key key" "closed_value v"
  shows "set_key key w (set_key key v ls) = set_key key w ls"
proof -
  have "with_value (key_line key v) key w = key_line key w"
    using with_value_twice [OF assms, of "[]" w] by (simp add: with_value_def leadingWhitespace_def extractLineComment_def)
  then show ?thesis
    using assms by (induction ls) (auto simp: with_value_matches key_line_matches_Nil with_value_twice)
qed

lemma set_key_plain: "bare_key key \<Longrightarrow> \<forall>l \<in> set ls. \<not> isAnyTableHeader l \<Longrightarrow>
    \<forall>l \<in> set (set_key key v ls). \<not> isAnyTableHeader l"
  by (induction ls) (auto simp: with_value_plain key_line_plain)

lemma match_not_blank: "matchTomlStringKey l key \<Longrightarrow> \<not> is_blank l"
  by (auto simp: matchTomlStringKey_def is_blank_def)

section \<open>The content of a table\<close>

definition content :: "string list \<Rightarrow> string list" where
  "content ls = map trim_right_blanks (filter (\<lambda>l. \<not> is_blank l) ls)"

definition starts_table :: "string list \<Rightarrow> bool" where
  "starts_table ls \<longleftrightarrow> ls = [] \<or> isAnyTableHeader (hd ls)"

lemma content_simps [simp]: "content [] = []"
    "content (l # ls) = (if is_blank l then content ls else trim_right_blanks l # content ls)"
  by (simp_all add: content_def)

lemma content_set_key: "bare_key key \<Longrightarrow> closed_value v \<Longrightarrow> content (set_key key v ls) = set_key key v (content ls)"
  by (induction ls) (auto simp: with_value_plain key_line_plain trim_right_with_value trim_right_key_line dest: match_not_blank)

lemma doc_content: "\<forall>l \<in> set b. \<not> isAnyTableHeader l \<Longrightarrow> foldr doc_line b (pre, ts) = (content b @ pre, ts)"
  by (induction b) (auto simp: doc_line_def)

lemma doc_starts_table: "starts_table c \<Longrightarrow> fst (doc_of c) = []"
  by (cases c) (auto simp: starts_table_def doc_line_def split: prod.splits)

lemma doc_append: "starts_table c \<Longrightarrow> doc_of (a @ c) = (fst (doc_of a), snd (doc_of a) @ snd (doc_of c))"
proof (induction a)
  case Nil
  then show ?case by (simp add: doc_starts_table prod_eq_iff)
next
  case (Cons l a)
  obtain pre ts where "doc_of a = (pre, ts)" by fastforce
  then show ?case using Cons by (auto simp: doc_line_def)
qed

lemma length_tables: "length (snd (doc_of ls)) = length (filter isAnyTableHeader ls)"
  by (induction ls) (auto simp: doc_line_def split: prod.splits)

lemma doc_body: "\<forall>l \<in> set b. \<not> isAnyTableHeader l \<Longrightarrow> starts_table c \<Longrightarrow> doc_of (b @ c) = (content b, snd (doc_of c))"
  using doc_content [of b "[]" "snd (doc_of c)"] doc_starts_table [of c] by (cases "doc_of c") (simp add: doc_of_append)

lemma doc_table: "isAnyTableHeader h \<Longrightarrow> \<forall>l \<in> set b. \<not> isAnyTableHeader l \<Longrightarrow> starts_table c \<Longrightarrow>
    doc_of (a @ h # b @ c) = (fst (doc_of a), snd (doc_of a) @ (trim_right_blanks h, content b) # snd (doc_of c))"
  using doc_append [of "h # b @ c" a] doc_body [of b c] by (simp add: starts_table_def [of "h # b @ c"] doc_line_def)

lemma doc_set_table:
  assumes "isAnyTableHeader h" "\<forall>l \<in> set b. \<not> isAnyTableHeader l" "starts_table c" "bare_key key" "closed_value v"
  shows "doc_of (a @ h # set_key key v b @ c) =
    set_table (length (filter isAnyTableHeader a)) key v (doc_of (a @ h # b @ c))"
  using assms set_key_plain [OF assms(4,2)]
  by (simp add: doc_table set_table_def content_set_key flip: length_tables)

lemma doc_set_top:
  assumes "\<forall>l \<in> set b. \<not> isAnyTableHeader l" "starts_table c" "bare_key key" "closed_value v"
  shows "doc_of (set_key key v b @ c) = set_top key v (doc_of (b @ c))"
  using assms set_key_plain [OF assms(3,1)] by (simp add: doc_body set_top_def content_set_key)

section \<open>Searching between indexes\<close>

fun index_of :: "('a \<Rightarrow> bool) \<Rightarrow> 'a list \<Rightarrow> nat option" where
  "index_of P [] = None"
| "index_of P (x # xs) = (if P x then Some 0 else map_option Suc (index_of P xs))"

lemma index_of_take_while: "index_of P xs =
    (if length (takeWhile (\<lambda>x. \<not> P x) xs) < length xs then Some (length (takeWhile (\<lambda>x. \<not> P x) xs)) else None)"
  by (induction xs) auto

lemma index_of_Some: "index_of P xs = Some k \<Longrightarrow> k < length xs \<and> P (xs ! k) \<and> (\<forall>j<k. \<not> P (xs ! j))"
  by (induction xs arbitrary: k) (auto split: if_splits simp: less_Suc_eq_0_disj)

lemma index_of_None: "index_of P xs = None \<longleftrightarrow> (\<forall>x \<in> set xs. \<not> P x)"
  by (induction xs) auto

lemma first_line_at_step: "first_line_at P lines i j =
    (if j < i then None else if P (lines ! nat i) then Some i else first_line_at P lines (i + 1) j)"
  by (simp add: first_line_at_def upto.simps [of i j])

lemma first_line_at_segment:
  "first_line_at P (a @ b @ c) (int (length a)) (int (length a) + int (length b) - 1) =
   map_option (\<lambda>k. int (length a + k)) (index_of P b)"
proof (induction b arbitrary: a)
  case Nil
  then show ?case by (subst first_line_at_step) simp
next
  case (Cons x b)
  show ?case
    using Cons.IH [of "a @ [x]"]
    by (subst first_line_at_step) (auto simp: option.map_comp comp_def ac_simps nth_append)
qed

lemma set_key_index: "set_key key v b =
    (case index_of (\<lambda>l. matchTomlStringKey l key) b of
       None \<Rightarrow> b @ [key_line key v]
     | Some k \<Rightarrow> b[k := with_value (b ! k) key v])"
  by (induction b) (auto split: option.splits)

lemma upsert_segment:
  "upsertTomlRawKey (a @ b @ c) (int (length a)) (int (length a) + int (length b) - 1) key v = a @ set_key key v b @ c"
proof (cases "index_of (\<lambda>l. matchTomlStringKey l key) b")
  case None
  then show ?thesis
    by (simp add: upsertTomlRawKey_def first_line_at_segment set_key_index insertLines_def Let_def nat_add_distrib)
next
  case (Some k)
  then have "k < length b" using index_of_Some by blast
  then show ?thesis using Some
    by (simp add: upsertTomlRawKey_def first_line_at_segment set_key_index Let_def nat_add_distrib list_update_append nth_append)
qed

end
