(* ===== verification/ConfigEdits.thy ===== *)
theory ConfigEdits
  imports ConfigTables CC_Prelude
begin

text \<open>
  The file \<open>config.toml\<close> and its edits as text in \<open>config/config.go\<close>: the state, reading and writing,
  the formatter as a command, and the fields at the top and in a section. Decoding TOML
  (\<open>toml.Unmarshal\<close>) is a parameter that gives the fields the operations read. The file, the path and
  the temporary files left behind are the state; where writing fails is an input. A caller holds
  \<open>configMu\<close> for the whole operation.
\<close>

section \<open>The decoded configuration and the file\<close>

datatype toml_value = TomlString string | TomlOther

record agent_config =
  ac_Type :: string
  ac_Options :: "(string, toml_value) gomap"
  ac_Providers :: "string list"
  ac_ProviderRefs :: "string list"

record platform_config =
  plc_Type :: string
  plc_Options :: "(string, toml_value) gomap"

record project_config =
  prc_Name :: string
  prc_Agent :: agent_config
  prc_Platforms :: "platform_config list"

record toml_config =
  tc_Projects :: "project_config list"
  tc_Providers :: "string list"

datatype write_fault = CreateFault | WriteFault | SyncFault | CloseFault | RenameFault

datatype config_error =
    PathNotSet | ReadConfig | ParseConfig | WriteConfig write_fault
  | ProjectNotFound string | NotInRawFile string | PlatformNotInRawFile
  | ProviderNotFound string string | GlobalProviderNotFound string
  | NameRequired | CredentialsRequired | NegativePlatformIndex | InvalidPlatformType string
  | NoSuchPlatform string | PlatformIndexOutOfRange int string nat

record config_state =
  ConfigPath :: string
  cfg_File :: "string option"
  cfg_Temps :: nat

text \<open>An operation answers a value or an error, or indexes a slice out of its bounds.\<close>

datatype 'a reply = Done 'a | Failed config_error | Crashed

text \<open>The position of the first element that satisfies a condition (\<open>projectIdx\<close>).\<close>

definition project_index :: "toml_config \<Rightarrow> string \<Rightarrow> nat option" where
  "project_index cfg name = index_of (\<lambda>p. prc_Name p = name) (tc_Projects cfg)"

section \<open>Writing\<close>

text \<open>
  The content goes to a temporary file that replaces the configuration at the end. When the
  replacement itself fails the temporary file is left behind.
\<close>

definition writeRawConfig :: "write_fault option \<Rightarrow> string \<Rightarrow> config_state \<Rightarrow> config_state \<times> config_error option" where
  "writeRawConfig fault text' st =
     (case fault of
        None \<Rightarrow> (st\<lparr>cfg_File := Some (formatTOML text')\<rparr>, None)
      | Some RenameFault \<Rightarrow> (st\<lparr>cfg_Temps := cfg_Temps st + 1\<rparr>, Some (WriteConfig RenameFault))
      | Some f \<Rightarrow> (st, Some (WriteConfig f)))"

definition FormatConfigFile ::
    "(string \<Rightarrow> toml_config option) \<Rightarrow> write_fault option \<Rightarrow> config_state \<Rightarrow> config_state \<times> config_error option" where
  "FormatConfigFile decode fault st =
     (case cfg_File st of
        None \<Rightarrow> (st, Some ReadConfig)
      | Some data \<Rightarrow>
          if decode data = None then (st, Some ParseConfig)
          else (let formatted = formatTOML data
                in if formatted = data then (st, None)
                   else (case fault of
                           None \<Rightarrow> (st\<lparr>cfg_File := Some formatted\<rparr>, None)
                         | Some RenameFault \<Rightarrow> (st\<lparr>cfg_Temps := cfg_Temps st + 1\<rparr>, Some (WriteConfig RenameFault))
                         | Some f \<Rightarrow> (st, Some (WriteConfig f)))))"

text \<open>The first lines of every operation: the path, the file, the decoded document.\<close>

definition read_config :: "config_state \<Rightarrow> config_error + string" where
  "read_config st =
     (if ConfigPath st = [] then Inl PathNotSet
      else case cfg_File st of None \<Rightarrow> Inl ReadConfig | Some data \<Rightarrow> Inr data)"

definition open_config :: "(string \<Rightarrow> toml_config option) \<Rightarrow> config_state \<Rightarrow> config_error + (string \<times> toml_config)" where
  "open_config decode st =
     (case read_config st of
        Inl e \<Rightarrow> Inl e
      | Inr raw \<Rightarrow> (case decode raw of None \<Rightarrow> Inl ParseConfig | Some cfg \<Rightarrow> Inr (raw, cfg)))"

text \<open>An edit of the lines of a text, written back.\<close>

definition write_lines ::
    "write_fault option \<Rightarrow> string \<Rightarrow> (string list \<Rightarrow> string list) \<Rightarrow> config_state \<Rightarrow> config_state \<times> config_error option" where
  "write_lines fault raw edit st =
     (case splitConfigLines raw of (lines, hadTrailing) \<Rightarrow>
        writeRawConfig fault (joinConfigLines (edit lines) hadTrailing) st)"

section \<open>Fields at the top and in a section\<close>

text \<open>The last line before the first header.\<close>

definition top_end :: "string list \<Rightarrow> int" where
  "top_end lines =
     (case first_line_at isAnyTableHeader lines 0 (int (length lines) - 1) of
        Some i \<Rightarrow> i - 1 | None \<Rightarrow> int (length lines) - 1)"

definition edit_top_level :: "(nat \<Rightarrow> bool) \<Rightarrow> string \<Rightarrow> string \<Rightarrow> string list \<Rightarrow> string list" where
  "edit_top_level printable key value lines =
     (case first_line_at (\<lambda>l. matchTomlStringKey l key) lines 0 (top_end lines) of
        Some i \<Rightarrow> lines[nat i := replaceTomlStringKeyLine printable (lines ! nat i) key value]
      | None \<Rightarrow>
          (let insertAt = (if top_end lines + 1 < 0 then 0 else top_end lines + 1)
           in insertLines lines insertAt [key_line key (quoteTomlString printable value)]))"

definition patchTopLevelField ::
    "(nat \<Rightarrow> bool) \<Rightarrow> write_fault option \<Rightarrow> string \<Rightarrow> string \<Rightarrow> config_state \<Rightarrow> config_state \<times> config_error option" where
  "patchTopLevelField printable fault key value st =
     (case read_config st of
        Inl e \<Rightarrow> (st, Some e)
      | Inr raw \<Rightarrow> write_lines fault raw (edit_top_level printable key value) st)"

definition SaveLanguage ::
    "(nat \<Rightarrow> bool) \<Rightarrow> write_fault option \<Rightarrow> string \<Rightarrow> config_state \<Rightarrow> config_state \<times> config_error option" where
  "SaveLanguage printable fault lang st = patchTopLevelField printable fault ''language'' lang st"

text \<open>The last line of the table whose header is at \<open>ln\<close>, within the lines up to \<open>last\<close>.\<close>

definition table_end :: "string list \<Rightarrow> int \<Rightarrow> int \<Rightarrow> int" where
  "table_end lines ln e =
     (case first_line_at isAnyTableHeader lines (ln + 1) e of Some j \<Rightarrow> j - 1 | None \<Rightarrow> e)"

definition section_header :: "string \<Rightarrow> string" where
  "section_header name = ''['' @ name @ '']''"

definition edit_section :: "string \<Rightarrow> string \<Rightarrow> string \<Rightarrow> string list \<Rightarrow> string list" where
  "edit_section name key tomlValue lines =
     (let header = section_header name; e = int (length lines) - 1
      in case first_line_at (\<lambda>l. matchTableHeader l header) lines 0 e of
           None \<Rightarrow>
             (let insertAt = (if top_end lines + 1 < 0 then 0 else top_end lines + 1)
              in insertLines lines insertAt [[], header, key_line key tomlValue])
         | Some start \<Rightarrow> upsertTomlRawKey lines (start + 1) (table_end lines start e) key tomlValue)"

definition patchSectionField ::
    "write_fault option \<Rightarrow> string \<Rightarrow> string \<Rightarrow> string \<Rightarrow> config_state \<Rightarrow> config_state \<times> config_error option" where
  "patchSectionField fault name key tomlValue st =
     (case read_config st of
        Inl e \<Rightarrow> (st, Some e)
      | Inr raw \<Rightarrow> write_lines fault raw (edit_section name key tomlValue) st)"

definition SaveTTSMode ::
    "(nat \<Rightarrow> bool) \<Rightarrow> write_fault option \<Rightarrow> string \<Rightarrow> config_state \<Rightarrow> config_state \<times> config_error option" where
  "SaveTTSMode printable fault mode st =
     patchSectionField fault ''tts'' ''tts_mode'' (quoteTomlString printable mode) st"

text \<open>The display settings are written one by one, and the first error ends it; a fault for each write.\<close>

fun patch_fields ::
    "(string \<times> string option) list \<Rightarrow> write_fault option list \<Rightarrow> string \<Rightarrow> config_state \<Rightarrow> config_state \<times> config_error option" where
  "patch_fields [] faults name st = (st, None)"
| "patch_fields ((key, None) # fs) faults name st = patch_fields fs (tl faults) name st"
| "patch_fields ((key, Some v) # fs) faults name st =
     (case patchSectionField (case faults of f # _ \<Rightarrow> f | [] \<Rightarrow> None) name key v st of
        (st', Some e) \<Rightarrow> (st', Some e)
      | (st', None) \<Rightarrow> patch_fields fs (tl faults) name st')"

definition shown_bool :: "bool \<Rightarrow> string" where
  "shown_bool b = (if b then ''true'' else ''false'')"

definition display_fields ::
    "(nat \<Rightarrow> bool) \<Rightarrow> string option \<Rightarrow> bool option \<Rightarrow> int option \<Rightarrow> int option \<Rightarrow> bool option \<Rightarrow> (string \<times> string option) list" where
  "display_fields printable mode thinkingMessages thinkingMaxLen toolMaxLen toolMessages =
     [(''mode'', map_option (quoteTomlString printable) mode),
      (''thinking_messages'', map_option shown_bool thinkingMessages),
      (''thinking_max_len'', map_option itoa thinkingMaxLen),
      (''tool_max_len'', map_option itoa toolMaxLen),
      (''tool_messages'', map_option shown_bool toolMessages)]"

definition SaveDisplayConfig ::
    "(nat \<Rightarrow> bool) \<Rightarrow> write_fault option list \<Rightarrow> string option \<Rightarrow> bool option \<Rightarrow> int option \<Rightarrow> int option \<Rightarrow> bool option
       \<Rightarrow> config_state \<Rightarrow> config_state \<times> config_error option" where
  "SaveDisplayConfig printable faults mode thinkingMessages thinkingMaxLen toolMaxLen toolMessages st =
     patch_fields (display_fields printable mode thinkingMessages thinkingMaxLen toolMaxLen toolMessages) faults ''display'' st"

end
