(* ===== verification/ConfigProjects.thy ===== *)
theory ConfigProjects
  imports ConfigEdits
begin

text \<open>
  The edits of \<open>config/config.go\<close> inside a project: \<open>buildRawProjectSpans\<close>, which finds the lines of
  each project and its tables, the options of the agent, the model of a provider, and the
  provisioning and the credentials of the platforms Feishu, Weixin and Yuanbao.
\<close>

section \<open>Spans\<close>

record raw_provider_span =
  pvs_start :: int
  pvs_end :: int
  pvs_nameLine :: int

record raw_platform_span =
  pls_start :: int
  pls_end :: int
  pls_typeLine :: int
  pls_optionsStart :: int
  pls_optionsEnd :: int

record raw_project_span =
  sp_start :: int
  sp_end :: int
  sp_platforms :: "raw_platform_span list"
  sp_agentStart :: int
  sp_agentEnd :: int
  sp_agentOptionsStart :: int
  sp_agentOptionsEnd :: int
  sp_agentProviders :: "raw_provider_span list"

definition projects_header :: string where "projects_header = ''[[projects]]''"
definition agent_header :: string where "agent_header = ''[projects.agent]''"
definition agent_options_header :: string where "agent_options_header = ''[projects.agent.options]''"
definition agent_providers_header :: string where "agent_providers_header = ''[[projects.agent.providers]]''"
definition platforms_header :: string where "platforms_header = ''[[projects.platforms]]''"
definition platform_options_header :: string where "platform_options_header = ''[projects.platforms.options]''"

text \<open>The lines from \<open>i\<close> to \<open>j\<close> that are this header, and each with the line before the next.\<close>

definition header_lines :: "string \<Rightarrow> string list \<Rightarrow> int \<Rightarrow> int \<Rightarrow> int list" where
  "header_lines header lines i j = filter (\<lambda>k. matchTableHeader (lines ! nat k) header) [i..j]"

fun with_ends :: "int list \<Rightarrow> int \<Rightarrow> (int \<times> int) list" where
  "with_ends [] e = []"
| "with_ends [s] e = [(s, e)]"
| "with_ends (s # t # ss) e = (s, t - 1) # with_ends (t # ss) e"

definition provider_span :: "string list \<Rightarrow> int \<Rightarrow> int \<Rightarrow> raw_provider_span" where
  "provider_span lines ln e =
     (let pend = table_end lines ln e
      in \<lparr>pvs_start = ln, pvs_end = pend,
          pvs_nameLine = (case first_line_at (\<lambda>l. matchTomlStringKey l ''name'') lines (ln + 1) pend of Some j \<Rightarrow> j | None \<Rightarrow> -1)\<rparr>)"

definition scan_agent_line :: "string list \<Rightarrow> int \<Rightarrow> int \<Rightarrow> raw_project_span \<Rightarrow> raw_project_span" where
  "scan_agent_line lines e ln span =
     (let l = lines ! nat ln;
          span = (if matchTableHeader l agent_header \<and> \<not> matchTableHeader l agent_options_header
                     \<and> \<not> matchTableHeader l agent_providers_header
                  then span\<lparr>sp_agentStart := ln, sp_agentEnd := table_end lines ln e\<rparr> else span);
          span = (if matchTableHeader l agent_options_header
                  then span\<lparr>sp_agentOptionsStart := ln, sp_agentOptionsEnd := table_end lines ln e\<rparr> else span)
      in if matchTableHeader l agent_providers_header
         then span\<lparr>sp_agentProviders := sp_agentProviders span @ [provider_span lines ln e]\<rparr> else span)"

text \<open>The flag \<open>inMainPlatformTable\<close> and the span, one line after the other.\<close>

definition scan_platform_line ::
    "string list \<Rightarrow> int \<Rightarrow> int \<Rightarrow> bool \<times> raw_platform_span \<Rightarrow> bool \<times> raw_platform_span" where
  "scan_platform_line lines pend ln s =
     (case s of (inMain, ps) \<Rightarrow>
        let l = lines ! nat ln;
            inMain = (inMain \<and> \<not> isAnyTableHeader l);
            ps = (if inMain \<and> pls_typeLine ps < 0 \<and> matchTomlStringKey l ''type'' then ps\<lparr>pls_typeLine := ln\<rparr> else ps);
            ps = (if pls_optionsStart ps < 0 \<and> matchTableHeader l platform_options_header
                  then ps\<lparr>pls_optionsStart := ln, pls_optionsEnd := table_end lines ln pend\<rparr> else ps)
        in (inMain, ps))"

definition platform_span :: "string list \<Rightarrow> int \<times> int \<Rightarrow> raw_platform_span" where
  "platform_span lines se =
     (case se of (pstart, pend) \<Rightarrow>
        snd (fold (scan_platform_line lines pend) [pstart + 1..pend]
          (True, \<lparr>pls_start = pstart, pls_end = pend, pls_typeLine = -1, pls_optionsStart = -1, pls_optionsEnd = -1\<rparr>)))"

definition project_span :: "string list \<Rightarrow> int \<times> int \<Rightarrow> raw_project_span" where
  "project_span lines se =
     (case se of (start, e) \<Rightarrow>
        let span = fold (scan_agent_line lines e) [start + 1..e]
              \<lparr>sp_start = start, sp_end = e, sp_platforms = [], sp_agentStart = -1, sp_agentEnd = -1,
               sp_agentOptionsStart = -1, sp_agentOptionsEnd = -1, sp_agentProviders = []\<rparr>;
            platformStarts = header_lines platforms_header lines (start + 1) e
        in span\<lparr>sp_platforms := map (platform_span lines) (with_ends platformStarts e)\<rparr>)"

definition buildRawProjectSpans :: "string list \<Rightarrow> raw_project_span list" where
  "buildRawProjectSpans lines =
     (let e = int (length lines) - 1 in map (project_span lines) (with_ends (header_lines projects_header lines 0 e) e))"

section \<open>Options of the agent\<close>

text \<open>The place of a new agent table: before the first header after the project's own lines.\<close>

definition agent_insert_at :: "string list \<Rightarrow> raw_project_span \<Rightarrow> int" where
  "agent_insert_at lines span =
     (case first_line_at isAnyTableHeader lines (sp_start span + 1) (sp_end span) of
        Some ln \<Rightarrow> ln | None \<Rightarrow> sp_end span + 1)"

text \<open>The lines with the options table of the agent of project \<open>k\<close>, which is added when it is missing.\<close>

definition with_agent_options :: "nat \<Rightarrow> string list \<Rightarrow> string list" where
  "with_agent_options k lines =
     (let span = buildRawProjectSpans lines ! k
      in if sp_agentOptionsStart span < 0 then
           (if sp_agentStart span < 0
            then insertLines lines (agent_insert_at lines span)
                   [[], agent_header, ''type = '' @ [dquote] @ ''claudecode'' @ [dquote], [], agent_options_header]
            else insertLines lines (sp_agentEnd span + 1) [[], agent_options_header])
         else lines)"

definition edit_agent_option :: "(nat \<Rightarrow> bool) \<Rightarrow> nat \<Rightarrow> string \<Rightarrow> string \<Rightarrow> string list \<Rightarrow> string list" where
  "edit_agent_option printable k key value lines =
     (let lines' = with_agent_options k lines; span = buildRawProjectSpans lines' ! k
      in upsertTomlStringKey printable lines' (sp_agentOptionsStart span + 1) (sp_agentOptionsEnd span) key value)"

definition patchProjectAgentOption ::
    "(string \<Rightarrow> toml_config option) \<Rightarrow> (nat \<Rightarrow> bool) \<Rightarrow> write_fault option \<Rightarrow> string \<Rightarrow> string \<Rightarrow> string
       \<Rightarrow> config_state \<Rightarrow> config_state \<times> config_error option" where
  "patchProjectAgentOption decode printable fault projectName key value st =
     (case open_config decode st of
        Inl e \<Rightarrow> (st, Some e)
      | Inr (raw, cfg) \<Rightarrow>
          (case project_index cfg projectName of
             None \<Rightarrow> (st, Some (ProjectNotFound projectName))
           | Some k \<Rightarrow>
               if length (buildRawProjectSpans (fst (splitConfigLines raw))) \<le> k then (st, Some (NotInRawFile projectName))
               else write_lines fault raw (edit_agent_option printable k key value) st))"

definition SaveActiveProvider ::
    "(string \<Rightarrow> toml_config option) \<Rightarrow> (nat \<Rightarrow> bool) \<Rightarrow> write_fault option \<Rightarrow> string \<Rightarrow> string
       \<Rightarrow> config_state \<Rightarrow> config_state \<times> config_error option" where
  "SaveActiveProvider decode printable fault projectName providerName st =
     patchProjectAgentOption decode printable fault projectName ''provider'' providerName st"

definition SaveAgentModel ::
    "(string \<Rightarrow> toml_config option) \<Rightarrow> (nat \<Rightarrow> bool) \<Rightarrow> write_fault option \<Rightarrow> string \<Rightarrow> string
       \<Rightarrow> config_state \<Rightarrow> config_state \<times> config_error option" where
  "SaveAgentModel decode printable fault projectName model st =
     patchProjectAgentOption decode printable fault projectName ''model'' model st"

section \<open>The model of a provider\<close>

definition providers_header :: string where "providers_header = ''[[providers]]''"

text \<open>
  The loop over the global providers: the first with the name that also has a header in the text.
  Its table ends before the next provider and before any other header.
\<close>

definition global_provider_table :: "string list \<Rightarrow> toml_config \<Rightarrow> string \<Rightarrow> (int \<times> int) option" where
  "global_provider_table lines cfg providerName =
     (let e = int (length lines) - 1; tables = with_ends (header_lines providers_header lines 0 e) e
      in case find (\<lambda>k. tc_Providers cfg ! k = providerName \<and> k < length tables) [0..<length (tc_Providers cfg)] of
           None \<Rightarrow> None
         | Some k \<Rightarrow> (case tables ! k of (gstart, gend) \<Rightarrow> Some (gstart, table_end lines gstart gend)))"

definition patchGlobalProviderField ::
    "(nat \<Rightarrow> bool) \<Rightarrow> write_fault option \<Rightarrow> string \<Rightarrow> toml_config \<Rightarrow> string \<Rightarrow> string \<Rightarrow> string
       \<Rightarrow> config_state \<Rightarrow> config_state \<times> config_error option" where
  "patchGlobalProviderField printable fault raw cfg providerName key value st =
     (case global_provider_table (fst (splitConfigLines raw)) cfg providerName of
        None \<Rightarrow> (st, Some (GlobalProviderNotFound providerName))
      | Some (gstart, gend) \<Rightarrow>
          write_lines fault raw (\<lambda>lines. upsertTomlStringKey printable lines (gstart + 1) gend key value) st)"

definition SaveProviderModel ::
    "(string \<Rightarrow> toml_config option) \<Rightarrow> (nat \<Rightarrow> bool) \<Rightarrow> write_fault option \<Rightarrow> string \<Rightarrow> string \<Rightarrow> string
       \<Rightarrow> config_state \<Rightarrow> config_state \<times> config_error option" where
  "SaveProviderModel decode printable fault projectName providerName model st =
     (case open_config decode st of
        Inl e \<Rightarrow> (st, Some e)
      | Inr (raw, cfg) \<Rightarrow>
          (case project_index cfg projectName of
             None \<Rightarrow> (st, Some (ProjectNotFound projectName))
           | Some k \<Rightarrow>
               (let lines = fst (splitConfigLines raw); spans = buildRawProjectSpans lines; agent = prc_Agent (tc_Projects cfg ! k)
                in if length spans \<le> k then (st, Some (NotInRawFile projectName))
                   else (case index_of (\<lambda>n. n = providerName) (ac_Providers agent) of
                           Some j \<Rightarrow>
                             if j < length (sp_agentProviders (spans ! k))
                             then (let ps = sp_agentProviders (spans ! k) ! j
                                   in write_lines fault raw
                                        (\<lambda>lines. upsertTomlStringKey printable lines (pvs_start ps + 1) (pvs_end ps) ''model'' model) st)
                             else if providerName \<in> set (ac_ProviderRefs agent)
                             then patchGlobalProviderField printable fault raw cfg providerName ''model'' model st
                             else (st, Some (ProviderNotFound providerName projectName))
                         | None \<Rightarrow>
                             if providerName \<in> set (ac_ProviderRefs agent)
                             then patchGlobalProviderField printable fault raw cfg providerName ''model'' model st
                             else (st, Some (ProviderNotFound providerName projectName))))))"

end
