(* ===== verification/ConfigPlatforms.thy ===== *)
theory ConfigPlatforms
  imports ConfigProjects
begin

text \<open>
  Setting up the platforms Feishu, Weixin and Yuanbao in \<open>config.toml\<close>: a project or platform that is
  missing is added, and the credentials of a platform are written to its options table, with the user
  who set it up added to \<open>allow_from\<close>. \<open>AllowList\<close> of \<open>core/message.go\<close> is what reads that list.
\<close>

section \<open>Lists of allowed users\<close>

definition stringOption :: "toml_value option \<Rightarrow> string" where
  "stringOption v = (case v of Some (TomlString s) \<Rightarrow> s | _ \<Rightarrow> [])"

text \<open>\<open>appendPart\<close> with the variables \<open>merged\<close> and \<open>seen\<close> it captures.\<close>

definition appendPart :: "string \<Rightarrow> string list \<times> string set \<Rightarrow> string list \<times> string set" where
  "appendPart v s =
     (case s of (merged, seen) \<Rightarrow>
        let v = trim_space v
        in if v = [] then (merged, seen)
           else if v = ''*'' then ([''*''], seen)
           else if v \<in> seen then (merged, seen)
           else (merged @ [v], insert v seen))"

text \<open>The loop over the parts; \<open>None\<close> is the early return of the wildcard.\<close>

fun merge_parts :: "string list \<Rightarrow> string list \<times> string set \<Rightarrow> (string list \<times> string set) option" where
  "merge_parts [] s = (if fst s = [''*''] then None else Some s)"
| "merge_parts (p # ps) s = (if fst s = [''*''] then None else merge_parts ps (appendPart p s))"

definition mergeAllowFromValue :: "string \<Rightarrow> string \<Rightarrow> string" where
  "mergeAllowFromValue current userID =
     (let current = trim_space current; userID = trim_space userID
      in if current = ''*'' \<or> userID = [] then current
         else if current = [] then userID
         else (case merge_parts (split_all (CHR '','') current) ([], {}) of
                 None \<Rightarrow> ''*''
               | Some s \<Rightarrow> (let merged = fst (appendPart userID s) in if merged = [''*''] then ''*'' else join '','' merged)))"

definition AllowList :: "string \<Rightarrow> string \<Rightarrow> bool" where
  "AllowList allowFrom userID =
     (let allowFrom = trim_space allowFrom
      in allowFrom = [] \<or> allowFrom = ''*'' \<or>
         list_ex (\<lambda>i. equal_fold (trim_space i) userID) (split_all (CHR '','') allowFrom))"

section \<open>The options table of a platform\<close>

definition platform_kind :: "platform_config \<Rightarrow> string" where
  "platform_kind p = to_lower (trim_space (plc_Type p))"

definition firstFeishuPlatformIndex :: "platform_config list \<Rightarrow> nat option" where
  "firstFeishuPlatformIndex ps = index_of (\<lambda>p. platform_kind p = ''feishu'' \<or> platform_kind p = ''lark'') ps"

definition firstWeixinPlatformIndex :: "platform_config list \<Rightarrow> nat option" where
  "firstWeixinPlatformIndex ps = index_of (\<lambda>p. platform_kind p = ''weixin'') ps"

definition firstYuanbaoPlatformIndex :: "platform_config list \<Rightarrow> nat option" where
  "firstYuanbaoPlatformIndex ps = index_of (\<lambda>p. platform_kind p = ''yuanbao'') ps"

definition platform_candidates :: "string list \<Rightarrow> platform_config list \<Rightarrow> nat list" where
  "platform_candidates kinds ps = filter (\<lambda>i. platform_kind (ps ! i) \<in> set kinds) [0..<length ps]"

text \<open>\<open>reloadSpan\<close>.\<close>

definition reloadSpan :: "nat \<Rightarrow> nat \<Rightarrow> string list \<Rightarrow> raw_platform_span" where
  "reloadSpan k j lines = sp_platforms (buildRawProjectSpans lines ! k) ! j"

definition nonblank_at :: "string list \<Rightarrow> int \<Rightarrow> bool" where
  "nonblank_at lines i \<longleftrightarrow> \<not> is_blank (lines ! nat i)"

text \<open>A block of lines with an empty line where it would touch text.\<close>

definition spaced :: "string list \<Rightarrow> int \<Rightarrow> string list \<Rightarrow> string list" where
  "spaced lines insertAt block =
     (if insertAt > 0 \<and> nonblank_at lines (insertAt - 1) then [[]] else []) @ block @
     (if insertAt < int (length lines) \<and> nonblank_at lines insertAt then [[]] else [])"

definition with_platform_options :: "nat \<Rightarrow> nat \<Rightarrow> string list \<Rightarrow> string list" where
  "with_platform_options k j lines =
     (let span = reloadSpan k j lines; insertAt = pls_end span + 1
      in if pls_optionsStart span < 0
         then insertLines lines insertAt (spaced lines insertAt [platform_options_header]) else lines)"

definition set_option :: "(nat \<Rightarrow> bool) \<Rightarrow> nat \<Rightarrow> nat \<Rightarrow> string \<times> string \<Rightarrow> string list \<Rightarrow> string list" where
  "set_option printable k j kv lines =
     (let span = reloadSpan k j lines
      in upsertTomlStringKey printable lines (pls_optionsStart span + 1) (pls_optionsEnd span) (fst kv) (snd kv))"

text \<open>The options that are written: those with a value.\<close>

definition optional :: "string \<Rightarrow> string \<Rightarrow> (string \<times> string) list" where
  "optional key value = (if trim_space value \<noteq> [] then [(key, trim_space value)] else [])"

definition set_options :: "(nat \<Rightarrow> bool) \<Rightarrow> nat \<Rightarrow> nat \<Rightarrow> (string \<times> string) list \<Rightarrow> string list \<Rightarrow> string list" where
  "set_options printable k j kvs lines = fold (set_option printable k j) kvs (with_platform_options k j lines)"

section \<open>Credentials\<close>

text \<open>The result; only that of Feishu has the field of the type.\<close>

record credentials_result =
  cr_ProjectName :: string
  cr_ProjectIndex :: nat
  cr_PlatformAbsIndex :: nat
  cr_PlatformType :: string
  cr_AllowFrom :: string

text \<open>
  The platform that is meant: the project, the n-th of its platforms of the given kinds, and its
  lines in the raw text.
\<close>

definition find_platform ::
    "(string \<Rightarrow> toml_config option) \<Rightarrow> string list \<Rightarrow> string \<Rightarrow> int \<Rightarrow> config_state
       \<Rightarrow> config_error + (string \<times> platform_config \<times> nat \<times> nat)" where
  "find_platform decode kinds projectName platformIndex st =
     (case open_config decode st of
        Inl e \<Rightarrow> Inl e
      | Inr (raw, cfg) \<Rightarrow>
          (case project_index cfg projectName of
             None \<Rightarrow> Inl (ProjectNotFound projectName)
           | Some k \<Rightarrow>
               (let ps = prc_Platforms (tc_Projects cfg ! k);
                    candidates = platform_candidates kinds ps;
                    targetPos = (if platformIndex > 0 then platformIndex - 1 else 0)
                in if candidates = [] then Inl (NoSuchPlatform projectName)
                   else if targetPos < 0 \<or> targetPos \<ge> int (length candidates)
                   then Inl (PlatformIndexOutOfRange platformIndex projectName (length candidates))
                   else (let j = candidates ! nat targetPos; spans = buildRawProjectSpans (fst (splitConfigLines raw))
                         in if length spans \<le> k then Inl (NotInRawFile projectName)
                            else if length (sp_platforms (spans ! k)) \<le> j then Inl PlatformNotInRawFile
                            else Inr (raw, ps ! j, k, j)))))"

definition write_credentials ::
    "write_fault option \<Rightarrow> string \<Rightarrow> (string list \<Rightarrow> string list) \<Rightarrow> credentials_result
       \<Rightarrow> config_state \<Rightarrow> config_state \<times> credentials_result reply" where
  "write_credentials fault raw edit result st =
     (case write_lines fault raw edit st of
        (st', Some e) \<Rightarrow> (st', Failed e)
      | (st', None) \<Rightarrow> (st', Done result))"

record feishu_update =
  fu_ProjectName :: string
  fu_PlatformIndex :: int
  fu_PlatformType :: string
  fu_AppID :: string
  fu_AppSecret :: string
  fu_OwnerOpenID :: string
  fu_SetAllowFromEmpty :: bool

text \<open>The type of the platform, in its own line or in a new one after the header.\<close>

definition with_type_line :: "(nat \<Rightarrow> bool) \<Rightarrow> nat \<Rightarrow> nat \<Rightarrow> string \<Rightarrow> string list \<Rightarrow> string list" where
  "with_type_line printable k j type' lines =
     (if type' = [] then lines
      else (let span = reloadSpan k j lines
            in if pls_typeLine span \<ge> 0
               then lines[nat (pls_typeLine span) :=
                      replaceTomlStringKeyLine printable (lines ! nat (pls_typeLine span)) ''type'' type']
               else insertLines lines (pls_start span + 1) [key_line ''type'' (quoteTomlString printable type')]))"

definition merged_allow_from :: "bool \<Rightarrow> string \<Rightarrow> platform_config \<Rightarrow> string" where
  "merged_allow_from seed user platform =
     (let allowFrom = trim_space (stringOption (mget (plc_Options platform) ''allow_from''))
      in if seed \<and> trim_space user \<noteq> [] then mergeAllowFromValue allowFrom (trim_space user) else allowFrom)"

definition SaveFeishuPlatformCredentials ::
    "(string \<Rightarrow> toml_config option) \<Rightarrow> (nat \<Rightarrow> bool) \<Rightarrow> write_fault option \<Rightarrow> feishu_update
       \<Rightarrow> config_state \<Rightarrow> config_state \<times> credentials_result reply" where
  "SaveFeishuPlatformCredentials decode printable fault opts st =
     (if ConfigPath st = [] then (st, Failed PathNotSet)
      else if trim_space (fu_ProjectName opts) = [] then (st, Failed NameRequired)
      else if trim_space (fu_AppID opts) = [] \<or> trim_space (fu_AppSecret opts) = [] then (st, Failed CredentialsRequired)
      else if fu_PlatformIndex opts < 0 then (st, Failed NegativePlatformIndex)
      else if fu_PlatformType opts \<notin> {[], ''feishu'', ''lark''} then (st, Failed (InvalidPlatformType (fu_PlatformType opts)))
      else (case find_platform decode [''feishu'', ''lark''] (fu_ProjectName opts) (fu_PlatformIndex opts) st of
              Inl e \<Rightarrow> (st, Failed e)
            | Inr (raw, platform, k, j) \<Rightarrow>
                (let seed = (fu_SetAllowFromEmpty opts \<and> trim_space (fu_OwnerOpenID opts) \<noteq> []);
                     allowFrom = merged_allow_from (fu_SetAllowFromEmpty opts) (fu_OwnerOpenID opts) platform;
                     kvs = [(''app_id'', trim_space (fu_AppID opts)), (''app_secret'', trim_space (fu_AppSecret opts))]
                           @ (if seed then [(''allow_from'', allowFrom)] else [])
                 in write_credentials fault raw
                      (\<lambda>lines. set_options printable k j kvs (with_type_line printable k j (fu_PlatformType opts) lines))
                      \<lparr>cr_ProjectName = fu_ProjectName opts, cr_ProjectIndex = k, cr_PlatformAbsIndex = j,
                       cr_PlatformType = (if fu_PlatformType opts \<noteq> [] then fu_PlatformType opts else plc_Type platform),
                       cr_AllowFrom = allowFrom\<rparr> st)))"

record weixin_update =
  wu_ProjectName :: string
  wu_PlatformIndex :: int
  wu_Token :: string
  wu_BaseURL :: string
  wu_CDNBaseURL :: string
  wu_AccountID :: string
  wu_ScannedUserID :: string
  wu_SetAllowFromEmpty :: bool

definition SaveWeixinPlatformCredentials ::
    "(string \<Rightarrow> toml_config option) \<Rightarrow> (nat \<Rightarrow> bool) \<Rightarrow> write_fault option \<Rightarrow> weixin_update
       \<Rightarrow> config_state \<Rightarrow> config_state \<times> credentials_result reply" where
  "SaveWeixinPlatformCredentials decode printable fault opts st =
     (if ConfigPath st = [] then (st, Failed PathNotSet)
      else if trim_space (wu_ProjectName opts) = [] then (st, Failed NameRequired)
      else if trim_space (wu_Token opts) = [] then (st, Failed CredentialsRequired)
      else if wu_PlatformIndex opts < 0 then (st, Failed NegativePlatformIndex)
      else (case find_platform decode [''weixin''] (wu_ProjectName opts) (wu_PlatformIndex opts) st of
              Inl e \<Rightarrow> (st, Failed e)
            | Inr (raw, platform, k, j) \<Rightarrow>
                (let seed = (wu_SetAllowFromEmpty opts \<and> trim_space (wu_ScannedUserID opts) \<noteq> []);
                     allowFrom = merged_allow_from (wu_SetAllowFromEmpty opts) (wu_ScannedUserID opts) platform;
                     kvs = [(''token'', trim_space (wu_Token opts))] @ optional ''base_url'' (wu_BaseURL opts)
                           @ optional ''cdn_base_url'' (wu_CDNBaseURL opts) @ optional ''account_id'' (wu_AccountID opts)
                           @ (if seed then [(''allow_from'', allowFrom)] else [])
                 in write_credentials fault raw (set_options printable k j kvs)
                      \<lparr>cr_ProjectName = wu_ProjectName opts, cr_ProjectIndex = k, cr_PlatformAbsIndex = j,
                       cr_PlatformType = plc_Type platform, cr_AllowFrom = allowFrom\<rparr> st)))"

record yuanbao_update =
  yu_ProjectName :: string
  yu_PlatformIndex :: int
  yu_BotToken :: string
  yu_APIDomain :: string
  yu_WSURL :: string
  yu_RouteEnv :: string
  yu_AllowFrom :: string

text \<open>A token of the form \<open>app_key:app_secret\<close>, split at its first colon.\<close>

definition bot_token_ok :: "string \<Rightarrow> bool" where
  "bot_token_ok token \<longleftrightarrow>
     (case index_of (\<lambda>c. c = CHR '':'') token of None \<Rightarrow> False | Some i \<Rightarrow> 0 < i \<and> i < length token - 1)"

definition SaveYuanbaoPlatformCredentials ::
    "(string \<Rightarrow> toml_config option) \<Rightarrow> (nat \<Rightarrow> bool) \<Rightarrow> write_fault option \<Rightarrow> yuanbao_update
       \<Rightarrow> config_state \<Rightarrow> config_state \<times> credentials_result reply" where
  "SaveYuanbaoPlatformCredentials decode printable fault opts st =
     (if ConfigPath st = [] then (st, Failed PathNotSet)
      else if trim_space (yu_ProjectName opts) = [] then (st, Failed NameRequired)
      else if \<not> bot_token_ok (trim_space (yu_BotToken opts)) then (st, Failed CredentialsRequired)
      else if yu_PlatformIndex opts < 0 then (st, Failed NegativePlatformIndex)
      else (case find_platform decode [''yuanbao''] (yu_ProjectName opts) (yu_PlatformIndex opts) st of
              Inl e \<Rightarrow> (st, Failed e)
            | Inr (raw, platform, k, j) \<Rightarrow>
                (let given = trim_space (yu_AllowFrom opts);
                     allowFrom = (if given \<noteq> [] then given else trim_space (stringOption (mget (plc_Options platform) ''allow_from'')));
                     kvs = [(''bot_token'', trim_space (yu_BotToken opts))] @ optional ''api_domain'' (yu_APIDomain opts)
                           @ optional ''ws_url'' (yu_WSURL opts) @ optional ''route_env'' (yu_RouteEnv opts)
                           @ optional ''allow_from'' (yu_AllowFrom opts)
                 in write_credentials fault raw (set_options printable k j kvs)
                      \<lparr>cr_ProjectName = yu_ProjectName opts, cr_ProjectIndex = k, cr_PlatformAbsIndex = j,
                       cr_PlatformType = plc_Type platform, cr_AllowFrom = allowFrom\<rparr> st)))"

end
