(* ===== verification/ConfigProvision.thy ===== *)
theory ConfigProvision
  imports ConfigPlatforms
begin

text \<open>
  Provisioning in \<open>config/config.go\<close>: the project that a platform is set up for is added to the
  configuration when it is missing, and the platform is added to the project.
\<close>

record ensure_options =
  eo_ProjectName :: string
  eo_PlatformType :: string
  eo_CloneFromProject :: string
  eo_WorkDir :: string
  eo_AgentType :: string

text \<open>The answer; only that of Feishu has the type.\<close>

record ensure_result =
  er_Created :: bool
  er_AddedPlatform :: bool
  er_ProjectIndex :: int
  er_PlatformAbsIndex :: int
  er_PlatformType :: string

text \<open>The maps of the clone are copies; of the providers only the names matter here.\<close>

definition cloneAgentConfig :: "agent_config \<Rightarrow> agent_config" where
  "cloneAgentConfig a = \<lparr>ac_Type = ac_Type a, ac_Options = ac_Options a, ac_Providers = ac_Providers a, ac_ProviderRefs = []\<rparr>"

definition pickAgentTemplateForNewProject :: "toml_config \<Rightarrow> ensure_options \<Rightarrow> agent_config" where
  "pickAgentTemplateForNewProject cfg opts =
     (let cloneName = trim_space (eo_CloneFromProject opts); agentType = trim_space (eo_AgentType opts)
      in case (if cloneName \<noteq> [] then project_index cfg cloneName else None) of
           Some i \<Rightarrow> cloneAgentConfig (prc_Agent (tc_Projects cfg ! i))
         | None \<Rightarrow>
             if agentType \<noteq> [] then
               (case cut (CHR '':'') agentType of (realType, preset) \<Rightarrow>
                  \<lparr>ac_Type = realType,
                   ac_Options = (case preset of
                       Some p \<Rightarrow> if realType = ''acp'' \<and> p \<noteq> [] then [(''command'', TomlString p), (''display_name'', TomlString p)] else []
                     | None \<Rightarrow> []),
                   ac_Providers = [], ac_ProviderRefs = []\<rparr>)
             else if tc_Projects cfg \<noteq> [] then cloneAgentConfig (prc_Agent (hd (tc_Projects cfg)))
             else \<lparr>ac_Type = ''codex'', ac_Options = [], ac_Providers = [], ac_ProviderRefs = []\<rparr>)"

text \<open>The agent of a new project: a default type, and the working directory of the options.\<close>

definition new_agent :: "toml_config \<Rightarrow> ensure_options \<Rightarrow> agent_config" where
  "new_agent cfg opts =
     (let a = pickAgentTemplateForNewProject cfg opts;
          a = (if ac_Type a = [] then a\<lparr>ac_Type := ''codex''\<rparr> else a);
          workDir = trim_space (eo_WorkDir opts)
      in if workDir \<noteq> [] then a\<lparr>ac_Options := mput ''work_dir'' (TomlString workDir) (ac_Options a)\<rparr> else a)"

definition string_option_line :: "(nat \<Rightarrow> bool) \<Rightarrow> string \<Rightarrow> agent_config \<Rightarrow> string list" where
  "string_option_line printable key a =
     (case mget (ac_Options a) key of
        Some (TomlString s) \<Rightarrow> if trim_space s \<noteq> [] then [key_line key (quoteTomlString printable s)] else []
      | _ \<Rightarrow> [])"

definition platform_block :: "string \<Rightarrow> string list" where
  "platform_block type_line = [platforms_header, type_line, [], platform_options_header]"

definition project_block :: "(nat \<Rightarrow> bool) \<Rightarrow> string \<Rightarrow> agent_config \<Rightarrow> string \<Rightarrow> string list" where
  "project_block printable name a type_line =
     [projects_header, key_line ''name'' (quoteTomlString printable name), [],
      agent_header, key_line ''type'' (quoteTomlString printable (ac_Type a)), [], agent_options_header]
     @ string_option_line printable ''work_dir'' a @ string_option_line printable ''mode'' a
     @ [[]] @ platform_block type_line"

definition add_project :: "string list \<Rightarrow> string list \<Rightarrow> string list" where
  "add_project block lines = lines @ (if lines \<noteq> [] \<and> \<not> is_blank (last lines) then [[]] else []) @ block"

definition add_platform :: "nat \<Rightarrow> string \<Rightarrow> string list \<Rightarrow> string list" where
  "add_platform k type_line lines =
     (let insertAt = sp_end (buildRawProjectSpans lines ! k) + 1
      in insertLines lines insertAt (spaced lines insertAt (platform_block type_line)))"

text \<open>
  The part the three functions share: the type of the platform is given by its line and, for the answer, as \<open>t\<close>; \<open>present\<close> finds a
  platform of the kind, \<open>created\<close> is the answer after a project was added.
\<close>

definition ensure_platform ::
    "(string \<Rightarrow> toml_config option) \<Rightarrow> (nat \<Rightarrow> bool) \<Rightarrow> write_fault option \<Rightarrow> (platform_config list \<Rightarrow> nat option)
       \<Rightarrow> string \<Rightarrow> string \<Rightarrow> (toml_config \<Rightarrow> ensure_result reply) \<Rightarrow> ensure_options \<Rightarrow> config_state \<Rightarrow> config_state \<times> ensure_result reply" where
  "ensure_platform decode printable fault present type_line t created opts st =
     (let name = trim_space (eo_ProjectName opts)
      in case open_config decode st of
           Inl e \<Rightarrow> (st, Failed e)
         | Inr (raw, cfg) \<Rightarrow>
             (case project_index cfg name of
                Some i \<Rightarrow>
                  (let ps = prc_Platforms (tc_Projects cfg ! i)
                   in case present ps of
                        Some j \<Rightarrow> (st, Done \<lparr>er_Created = False, er_AddedPlatform = False, er_ProjectIndex = int i, er_PlatformAbsIndex = int j, er_PlatformType = t\<rparr>)
                      | None \<Rightarrow>
                          if length (buildRawProjectSpans (fst (splitConfigLines raw))) \<le> i then (st, Failed (NotInRawFile name))
                          else (case write_lines fault raw (add_platform i type_line) st of
                                  (st', Some e) \<Rightarrow> (st', Failed e)
                                | (st', None) \<Rightarrow>
                                    (st', Done \<lparr>er_Created = False, er_AddedPlatform = True, er_ProjectIndex = int i,
                                                er_PlatformAbsIndex = int (length ps), er_PlatformType = t\<rparr>)))
              | None \<Rightarrow>
                  (case write_lines fault raw (add_project (project_block printable name (new_agent cfg opts) type_line)) st of
                     (st', Some e) \<Rightarrow> (st', Failed e)
                   | (st', None) \<Rightarrow> (st', created cfg))))"

text \<open>
  Feishu reads the indexes of the answer from the last project of the decoded configuration, to which
  the new project was not added; without any project that is an index below zero.
\<close>

definition feishu_created :: "string \<Rightarrow> toml_config \<Rightarrow> ensure_result reply" where
  "feishu_created t cfg =
     (if tc_Projects cfg = [] then Crashed
      else Done \<lparr>er_Created = True, er_AddedPlatform = False, er_ProjectIndex = int (length (tc_Projects cfg)) - 1,
                 er_PlatformAbsIndex = int (length (prc_Platforms (last (tc_Projects cfg)))) - 1, er_PlatformType = t\<rparr>)"

definition EnsureProjectWithFeishuPlatform ::
    "(string \<Rightarrow> toml_config option) \<Rightarrow> (nat \<Rightarrow> bool) \<Rightarrow> write_fault option \<Rightarrow> ensure_options
       \<Rightarrow> config_state \<Rightarrow> config_state \<times> ensure_result reply" where
  "EnsureProjectWithFeishuPlatform decode printable fault opts st =
     (let t = to_lower (trim_space (eo_PlatformType opts)); platformType = (if t = [] then ''feishu'' else t)
      in if ConfigPath st = [] then (st, Failed PathNotSet)
         else if trim_space (eo_ProjectName opts) = [] then (st, Failed NameRequired)
         else if platformType \<noteq> ''feishu'' \<and> platformType \<noteq> ''lark'' then (st, Failed (InvalidPlatformType (eo_PlatformType opts)))
         else ensure_platform decode printable fault firstFeishuPlatformIndex
                (key_line ''type'' (quoteTomlString printable platformType)) platformType (feishu_created platformType) opts st)"

definition appended_created :: "toml_config \<Rightarrow> ensure_result reply" where
  "appended_created cfg =
     Done \<lparr>er_Created = True, er_AddedPlatform = False, er_ProjectIndex = int (length (tc_Projects cfg)), er_PlatformAbsIndex = 0, er_PlatformType = []\<rparr>"

definition EnsureProjectWithWeixinPlatform ::
    "(string \<Rightarrow> toml_config option) \<Rightarrow> (nat \<Rightarrow> bool) \<Rightarrow> write_fault option \<Rightarrow> ensure_options
       \<Rightarrow> config_state \<Rightarrow> config_state \<times> ensure_result reply" where
  "EnsureProjectWithWeixinPlatform decode printable fault opts st =
     (if ConfigPath st = [] then (st, Failed PathNotSet)
      else if trim_space (eo_ProjectName opts) = [] then (st, Failed NameRequired)
      else ensure_platform decode printable fault firstWeixinPlatformIndex
             (''type = '' @ [dquote] @ ''weixin'' @ [dquote]) [] appended_created opts st)"

definition EnsureProjectWithYuanbaoPlatform ::
    "(string \<Rightarrow> toml_config option) \<Rightarrow> (nat \<Rightarrow> bool) \<Rightarrow> write_fault option \<Rightarrow> ensure_options
       \<Rightarrow> config_state \<Rightarrow> config_state \<times> ensure_result reply" where
  "EnsureProjectWithYuanbaoPlatform decode printable fault opts st =
     (if ConfigPath st = [] then (st, Failed PathNotSet)
      else if trim_space (eo_ProjectName opts) = [] then (st, Failed NameRequired)
      else ensure_platform decode printable fault firstYuanbaoPlatformIndex
             (''type = '' @ [dquote] @ ''yuanbao'' @ [dquote]) [] appended_created opts st)"

end
