(* ===== verification/ConfigRefinement.thy ===== *)
theory ConfigRefinement
  imports ConfigProvision
begin

text \<open>
  What an edit of the text is on the document. An edit of lines that refines a change of documents is
  the interface \<open>config_edit\<close>; from it follow what a written file holds and that a failed write leaves
  the file as it was. The edits of top-level fields and of sections are its first instances.
\<close>

section \<open>Lines of a text\<close>

lemma join_snoc_Nil: "ls \<noteq> [] \<Longrightarrow> join [c] (ls @ [[]]) = join [c] ls @ [c]"
  by (induction "[c]" ls rule: join.induct) auto

lemma join_split_all: "join [c] (split_all c s) = s"
  by (simp add: split_all_def join_split_n)

lemma split_all_nonempty: "split_all c s \<noteq> []"
  by (simp add: split_all_def split_n_nonempty)

lemma split_lines_one_line: "\<forall>l \<in> set (fst (splitConfigLines raw)). one_line l"
  by (auto simp: splitConfigLines_def Let_def one_line_def dest: split_all_parts)

lemma split_lines_doc: "doc_of (fst (splitConfigLines raw)) = config_doc raw"
proof (cases "has_suffix raw [newline]")
  case True
  then obtain r where r: "raw = r @ [newline]"
    unfolding has_suffix_def by (metis append_take_drop_id)
  then have t: "trim_suffix raw [newline] = r" using True by (simp add: trim_suffix_def)
  have "split_all newline raw = split_all newline r @ [[]]"
    using split_all_append [of newline r "[]"] r by (simp add: split_all_absent)
  then have "config_doc raw = doc_of (split_all newline r)"
    by (simp add: config_doc_def doc_of_append doc_line_blank) (simp add: doc_of_def)
  moreover have "doc_of (split_all newline []) = ([], [])" by (simp add: split_all_absent doc_line_blank)
  ultimately show ?thesis using r t by (cases "r = []") (simp_all add: splitConfigLines_def Let_def)
next
  case False
  then have "trim_suffix raw [newline] = raw" by (simp add: trim_suffix_def)
  moreover have "doc_of (split_all newline []) = ([], [])" by (simp add: split_all_absent doc_line_blank)
  ultimately show ?thesis
    by (cases "raw = []") (simp_all add: splitConfigLines_def Let_def config_doc_def)
qed

lemma join_lines_doc: "\<forall>l \<in> set ls. one_line l \<Longrightarrow> config_doc (joinConfigLines ls t) = doc_of ls"
proof (cases "ls = []")
  case True
  have "config_doc [] = ([], [])" by (simp add: config_doc_def split_all_absent doc_line_blank)
  then show ?thesis using True config_doc_written [of "[]"] by (simp add: joinConfigLines_def)
qed (simp add: joinConfigLines_def config_doc_written)

text \<open>Splitting a text and joining its lines gives the text back, with a line feed at the end.\<close>

lemma join_split_lines:
  "joinConfigLines (fst (splitConfigLines raw)) (snd (splitConfigLines raw)) =
   (if raw = [] \<or> has_suffix raw [newline] then raw else raw @ [newline])"
proof (cases "has_suffix raw [newline]")
  case True
  then obtain r where r: "raw = r @ [newline]"
    unfolding has_suffix_def by (metis append_take_drop_id)
  then have "trim_suffix raw [newline] = r" using True by (simp add: trim_suffix_def)
  then show ?thesis using True r by (simp add: splitConfigLines_def joinConfigLines_def Let_def join_split_all)
next
  case False
  then have "trim_suffix raw [newline] = raw" by (simp add: trim_suffix_def)
  then show ?thesis using False
    by (simp add: splitConfigLines_def joinConfigLines_def Let_def join_split_all split_all_nonempty)
qed

section \<open>Edits as an interface\<close>

locale config_edit =
  fixes edit :: "string list \<Rightarrow> string list"
    and change :: "config_doc \<Rightarrow> config_doc \<Rightarrow> bool"
    and ok :: "config_doc \<Rightarrow> bool"
  assumes edit_doc: "\<forall>l \<in> set ls. one_line l \<Longrightarrow> ok (doc_of ls) \<Longrightarrow> change (doc_of ls) (doc_of (edit ls))"
    and edit_lines: "\<forall>l \<in> set ls. one_line l \<Longrightarrow> ok (doc_of ls) \<Longrightarrow> \<forall>l \<in> set (edit ls). one_line l"
begin

lemma written:
  assumes "write_lines fault raw edit st = (st', None)" "ok (config_doc raw)"
  shows "\<exists>f d. st' = st\<lparr>cfg_File := Some f\<rparr> \<and> change (config_doc raw) d \<and> config_doc f = drop_empty_tables d \<and> formatTOML f = f"
proof -
  obtain ls t where s: "splitConfigLines raw = (ls, t)" by fastforce
  have o: "\<forall>l \<in> set ls. one_line l" "doc_of ls = config_doc raw"
    using split_lines_one_line [of raw] split_lines_doc [of raw] s by simp_all
  then have e: "\<forall>l \<in> set (edit ls). one_line l" "change (config_doc raw) (doc_of (edit ls))"
    using edit_lines [of ls] edit_doc [of ls] assms(2) by simp_all
  have "st' = st\<lparr>cfg_File := Some (formatTOML (joinConfigLines (edit ls) t))\<rparr>"
    using assms(1) s by (auto simp: write_lines_def writeRawConfig_def split: option.splits write_fault.splits)
  moreover have "config_doc (formatTOML (joinConfigLines (edit ls) t)) = drop_empty_tables (doc_of (edit ls))"
    using e(1) by (simp add: format_keeps_doc join_lines_doc)
  ultimately show ?thesis using e(2) format_twice by blast
qed

end

lemma failed_write_keeps_file:
  "write_lines fault raw edit st = (st', Some e) \<Longrightarrow> cfg_File st' = cfg_File st \<and> ConfigPath st' = ConfigPath st"
  by (auto simp: write_lines_def writeRawConfig_def split: option.splits write_fault.splits prod.splits)

lemma open_config_Inr: "open_config decode st = Inr (raw, cfg) \<longleftrightarrow>
    ConfigPath st \<noteq> [] \<and> cfg_File st = Some raw \<and> decode raw = Some cfg"
  by (auto simp: open_config_def read_config_def split: option.splits sum.splits if_splits)

lemma read_config_Inr: "read_config st = Inr raw \<longleftrightarrow> ConfigPath st \<noteq> [] \<and> cfg_File st = Some raw"
  by (auto simp: read_config_def split: option.splits if_splits)

section \<open>One line in, one line out\<close>

lemma set_comment_scan: "set (comment_scan q e l) \<subseteq> set l"
proof (induction q e l rule: comment_scan.induct)
  case (2 q e ch rest)
  then show ?case using set_trim_space [of "ch # rest"] by auto
qed simp

lemma one_line_with_value: "bare_key key \<Longrightarrow> closed_value v \<Longrightarrow> one_line l \<Longrightarrow> one_line (with_value l key v)"
proof -
  assume a: "bare_key key" "closed_value v" "one_line l"
  then have "one_line (extractLineComment l)" "one_line (leadingWhitespace l)"
    using set_comment_scan [of False False l] unfolding extractLineComment_def leadingWhitespace_def one_line_def
    by (auto dest: set_takeWhileD)
  then show ?thesis using a bare_key_one_line
    by (simp add: with_value_alt key_line_def comment_part_def closed_value_def bare_key_def)
qed

lemma one_line_key_line: "bare_key key \<Longrightarrow> closed_value v \<Longrightarrow> one_line (key_line key v)"
  using bare_key_one_line by (simp add: key_line_def closed_value_def bare_key_def)

lemma one_line_insert: "\<forall>l \<in> set ls. one_line l \<Longrightarrow> \<forall>l \<in> set block. one_line l \<Longrightarrow> \<forall>l \<in> set (insertLines ls at block). one_line l"
  by (auto simp: insertLines_def Let_def dest: in_set_takeD in_set_dropD)

lemma first_line_at_range: "first_line_at P ls i j = Some k \<Longrightarrow> i \<le> k \<and> k \<le> j \<and> P (ls ! nat k)"
  by (auto simp: first_line_at_def dest: find_SomeD)

lemma one_line_upsert: "bare_key key \<Longrightarrow> closed_value v \<Longrightarrow> \<forall>l \<in> set ls. one_line l \<Longrightarrow>
    \<forall>l \<in> set (upsertTomlRawKey ls s e key v). one_line l"
proof -
  assume a: "bare_key key" "closed_value v" "\<forall>l \<in> set ls. one_line l"
  have u: "\<forall>l \<in> set (ls[nat i := with_value (ls ! nat i) key v]). one_line l" if "0 \<le> i" for i
  proof (cases "nat i < length ls")
    case True
    then show ?thesis using a one_line_with_value set_update_subset_insert by (fastforce simp: nth_mem)
  next
    case False
    then have "ls[nat i := with_value (ls ! nat i) key v] = ls" by (intro list_update_beyond) linarith
    then show ?thesis using a by simp
  qed
  have n: "0 \<le> i" if "first_line_at P ls (if s < 0 then 0 else s) e' = Some i" for P i e'
    using first_line_at_range [OF that] by (auto split: if_splits)
  let ?e = "if e \<ge> int (length ls) then int (length ls) - 1 else e"
  show ?thesis
  proof (cases "first_line_at (\<lambda>l. matchTomlStringKey l key) ls (if s < 0 then 0 else s) ?e")
    case None
    have "l \<in> set (insertLines ls at [key_line key v]) \<Longrightarrow> one_line l" for l at
      using one_line_insert [OF a(3), of "[key_line key v]" at] one_line_key_line [OF a(1,2)] by simp
    then show ?thesis using None by (auto simp: upsertTomlRawKey_def Let_def)
  next
    case (Some i)
    then show ?thesis using u [OF n [OF Some]] by (simp add: upsertTomlRawKey_def Let_def)
  qed
qed

section \<open>The lines before the first header\<close>

definition head_lines :: "string list \<Rightarrow> string list" where
  "head_lines ls = takeWhile (\<lambda>l. \<not> isAnyTableHeader l) ls"

definition rest_lines :: "string list \<Rightarrow> string list" where
  "rest_lines ls = dropWhile (\<lambda>l. \<not> isAnyTableHeader l) ls"

lemma head_rest: "ls = head_lines ls @ rest_lines ls" "\<forall>l \<in> set (head_lines ls). \<not> isAnyTableHeader l"
    "starts_table (rest_lines ls)"
proof -
  show "ls = head_lines ls @ rest_lines ls" by (simp add: head_lines_def rest_lines_def)
  show "\<forall>l \<in> set (head_lines ls). \<not> isAnyTableHeader l" by (auto simp: head_lines_def dest: set_takeWhileD)
  show "starts_table (rest_lines ls)"
    unfolding starts_table_def rest_lines_def using hd_dropWhile [of "\<lambda>l. \<not> isAnyTableHeader l" ls] by blast
qed

lemma head_lines_append: "\<forall>l \<in> set b. \<not> isAnyTableHeader l \<Longrightarrow> starts_table c \<Longrightarrow> head_lines (b @ c) = b \<and> rest_lines (b @ c) = c"
  by (induction b) (auto simp: head_lines_def rest_lines_def starts_table_def, (cases c; simp)+)

lemma index_of_header: "index_of isAnyTableHeader ls =
    (if rest_lines ls = [] then None else Some (length (head_lines ls)))"
  using head_rest(1) [of ls] unfolding index_of_take_while head_lines_def rest_lines_def
  by (metis append_Nil2 length_append length_greater_0_conv less_add_same_cancel1 less_irrefl_nat)

lemma first_line_at_all: "first_line_at P ls 0 (int (length ls) - 1) = map_option int (index_of P ls)"
  using first_line_at_segment [of P "[]" ls "[]"] by simp

lemma top_end_head: "top_end ls = int (length (head_lines ls)) - 1"
proof -
  have "rest_lines ls = [] \<Longrightarrow> head_lines ls = ls" using head_rest(1) [of ls] by simp
  then show ?thesis by (auto simp: top_end_def first_line_at_all index_of_header)
qed

lemma edit_top_level_upsert: "edit_top_level printable key value ls =
    upsertTomlRawKey (head_lines ls @ rest_lines ls) 0 (int (length (head_lines ls)) - 1) key (quoteTomlString printable value)"
proof -
  have len: "length (head_lines ls) \<le> length ls" by (simp add: head_lines_def length_takeWhile_le)
  show ?thesis
    using len unfolding head_rest(1) [of ls, symmetric]
    by (auto simp: edit_top_level_def upsertTomlRawKey_def top_end_head replaceTomlStringKeyLine_def Let_def split: option.splits)
qed

lemma edit_top_level_segment: "edit_top_level printable key value ls =
    set_key key (quoteTomlString printable value) (head_lines ls) @ rest_lines ls"
  using upsert_segment [of "[]" "head_lines ls" "rest_lines ls"] by (simp add: edit_top_level_upsert)

text \<open>The first instance: a field at the top.\<close>

interpretation top_edit: config_edit "edit_top_level printable key val" "\<lambda>d d'. d' = set_top key (quoteTomlString printable val) d"
    "\<lambda>_. bare_key key" for printable key val
proof unfold_locales
  fix ls :: "string list"
  assume "\<forall>l \<in> set ls. one_line l" "bare_key key"
  then show "doc_of (edit_top_level printable key val ls) = set_top key (quoteTomlString printable val) (doc_of ls)"
    using doc_set_top [OF head_rest(2) [of ls] head_rest(3) [of ls], of key "quoteTomlString printable val"] head_rest(1) [of ls]
    by (simp add: edit_top_level_segment closed_quote)
  show "\<forall>l \<in> set (edit_top_level printable key val ls). one_line l"
    unfolding edit_top_level_upsert using \<open>\<forall>l \<in> set ls. one_line l\<close> \<open>bare_key key\<close> head_rest(1) [of ls]
    by (intro one_line_upsert closed_quote) auto
qed

section \<open>A key in a table\<close>

text \<open>The region up to \<open>e\<close> ends with the text or before a header.\<close>

definition ends_region :: "string list \<Rightarrow> int \<Rightarrow> bool" where
  "ends_region ls e \<longleftrightarrow> e = int (length ls) - 1 \<or> (0 \<le> e \<and> e < int (length ls) - 1 \<and> isAnyTableHeader (ls ! nat (e + 1)))"

text \<open>The number of headers before a line is the position of its table.\<close>

definition table_pos :: "string list \<Rightarrow> int \<Rightarrow> nat" where
  "table_pos ls i = length (filter isAnyTableHeader (take (nat i) ls))"

lemma table_end_segment:
  assumes "ends_region (a @ h # r) e" "int (length a) \<le> e"
  shows "table_end (a @ h # r) (int (length a)) e = int (length a) + int (length (head_lines r))"
proof -
  let ?m = "nat (e - int (length a))"
  have m: "?m \<le> length r" "e = int (length a) + int ?m" using assms by (auto simp: ends_region_def)
  have tl: "?m = length r \<or> (?m < length r \<and> isAnyTableHeader (r ! ?m))"
  proof (cases "e = int (length (a @ h # r)) - 1")
    case False
    then have "isAnyTableHeader ((a @ h # r) ! nat (e + 1))" "e < int (length (a @ h # r)) - 1" using assms(1) by (auto simp: ends_region_def)
    moreover have "nat (e + 1) = Suc (length a + ?m)" using m(2) by linarith
    moreover have "?m < length r" using calculation(2) assms(2) by simp
    ultimately show ?thesis by (simp add: nth_append)
  qed (use m in simp)
  have seg: "first_line_at isAnyTableHeader (a @ h # r) (int (length a) + 1) e =
      map_option (\<lambda>k. int (Suc (length a + k))) (index_of isAnyTableHeader (take ?m r))"
    using first_line_at_segment [of isAnyTableHeader "a @ [h]" "take ?m r" "drop ?m r"] m by (simp add: ac_simps)
  show ?thesis
  proof (cases "index_of isAnyTableHeader (take ?m r)")
    case None
    then have "\<forall>l \<in> set (take ?m r). \<not> isAnyTableHeader l" by (simp add: index_of_None)
    moreover have "starts_table (drop ?m r)" using tl by (auto simp: starts_table_def hd_drop_conv_nth)
    ultimately have "head_lines r = take ?m r" using head_lines_append [of "take ?m r" "drop ?m r"] by simp
    then show ?thesis using None seg m by (simp add: table_end_def)
  next
    case (Some k)
    then have k: "k < ?m" "isAnyTableHeader (r ! k)" "\<forall>j<k. \<not> isAnyTableHeader (r ! j)"
      using index_of_Some [OF Some] m by auto
    then have "\<forall>l \<in> set (take k r). \<not> isAnyTableHeader l" using m by (auto simp: in_set_conv_nth)
    moreover have "starts_table (drop k r)" using k m by (auto simp: starts_table_def hd_drop_conv_nth)
    ultimately have "head_lines r = take k r" using head_lines_append [of "take k r" "drop k r"] by simp
    then show ?thesis using Some seg k m by (simp add: table_end_def)
  qed
qed

lemma table_upsert:
  assumes "0 \<le> i" "i \<le> e" "ends_region ls e" "isAnyTableHeader (ls ! nat i)" "bare_key key" "closed_value v"
  shows "doc_of (upsertTomlRawKey ls (i + 1) (table_end ls i e) key v) = set_table (table_pos ls i) key v (doc_of ls)"
proof -
  let ?a = "take (nat i) ls" and ?h = "ls ! nat i" and ?r = "drop (Suc (nat i)) ls"
  have i: "nat i < length ls" using assms(1-3) by (auto simp: ends_region_def)
  then have ls: "ls = ?a @ ?h # ?r" by (simp add: id_take_nth_drop)
  have la: "int (length ?a) = i" using i assms(1) by simp
  have te: "table_end ls i e = i + int (length (head_lines ?r))"
    using table_end_segment [of ?a ?h ?r e] assms(2,3) la ls by simp
  have "upsertTomlRawKey ls (i + 1) (table_end ls i e) key v = ?a @ ?h # set_key key v (head_lines ?r) @ rest_lines ?r"
    using upsert_segment [of "?a @ [?h]" "head_lines ?r" "rest_lines ?r" key v] la te
    by (simp flip: head_rest(1) add: ac_simps) (use ls in simp)
  moreover have "doc_of ls = doc_of (?a @ ?h # head_lines ?r @ rest_lines ?r)" using ls head_rest(1) [of ?r] by simp
  ultimately show ?thesis
    using doc_set_table [OF assms(4) head_rest(2) [of ?r] head_rest(3) [of ?r] assms(5,6), of ?a] by (simp add: table_pos_def)
qed

section \<open>Sections\<close>

text \<open>Setting a key in the first table of a header, or in a new table in front of the others.\<close>

definition set_section :: "string \<Rightarrow> string \<Rightarrow> string \<Rightarrow> config_doc \<Rightarrow> config_doc" where
  "set_section name key v d =
     (case index_of (\<lambda>t. matchTableHeader (fst t) (section_header name)) (snd d) of
        Some p \<Rightarrow> set_table p key v d
      | None \<Rightarrow> (fst d, (section_header name, [key_line key v]) # snd d))"

lemma header_matches: "matchTableHeader l h \<Longrightarrow> has_prefix h ''['' \<Longrightarrow> isAnyTableHeader l"
  unfolding matchTableHeader_def isAnyTableHeader_def has_prefix_def Let_def
  by (cases h; cases "trim_space l") (auto split: if_splits)

lemma index_tables: "has_prefix h ''['' \<Longrightarrow>
    index_of (\<lambda>t. matchTableHeader (fst t) h) (snd (doc_of ls)) =
    map_option (\<lambda>i. table_pos ls (int i)) (index_of (\<lambda>l. matchTableHeader l h) ls)"
proof (induction ls)
  case (Cons l ls)
  obtain pre ts where d: "doc_of ls = (pre, ts)" by fastforce
  have "table_pos (l # ls) (int (Suc i)) = (if isAnyTableHeader l then 1 else 0) + table_pos ls (int i)" for i
    by (simp add: table_pos_def nat_add_distrib)
  then show ?case
    using Cons d header_matches [of l h]
    by (auto simp: doc_line_def option.map_comp comp_def table_pos_def cong: option.map_cong)
qed simp

lemma insert_segment: "insertLines (a @ c) (int (length a)) block = a @ block @ c"
  by (simp add: insertLines_def Let_def)

lemma section_header_prefix: "has_prefix (section_header name) ''[''"
  by (simp add: section_header_def has_prefix_def)

lemma section_header_line:
  assumes "bare_key name"
  shows "trim_space (section_header name) = section_header name" "one_line (section_header name)"
    "trim_right_blanks (section_header name) = section_header name"
    "matchTableHeader (section_header name) (section_header name)" "isAnyTableHeader (section_header name)"
proof -
  have b: "\<forall>c \<in> set name. byte c < 128" using assms by (auto simp: bare_key_def list_all_iff dest: bare_byte_other)
  have e: "byte (CHR ''['') = 91" "byte (CHR '']'') = 93" by (simp_all add: byte_def)
  show t: "trim_space (section_header name) = section_header name"
    using b e by (intro trim_space_ascii) (auto simp: section_header_def is_space_def)
  show "one_line (section_header name)"
    using assms bare_key_one_line [of name] by (simp add: section_header_def bare_key_def)
  show "trim_right_blanks (section_header name) = section_header name"
    using trim_right_blanks_snoc [of "''['' @ name" "CHR '']''"] by (simp add: section_header_def is_blank_byte_def)
  show m: "matchTableHeader (section_header name) (section_header name)"
    unfolding matchTableHeader_def t by (simp add: has_prefix_def)
  show "isAnyTableHeader (section_header name)"
    by (rule header_matches [OF m section_header_prefix])
qed

lemma edit_section_doc:
  assumes "bare_key name" "bare_key key" "closed_value v"
  shows "doc_of (edit_section name key v ls) = set_section name key v (doc_of ls)"
proof -
  let ?h = "section_header name"
  let ?i = "index_of (\<lambda>l. matchTableHeader l ?h) ls"
  have idx: "index_of (\<lambda>t. matchTableHeader (fst t) ?h) (snd (doc_of ls)) = map_option (\<lambda>i. table_pos ls (int i)) ?i"
    by (rule index_tables [OF section_header_prefix])
  show ?thesis
  proof (cases ?i)
    case None
    have "edit_section name key v ls = head_lines ls @ [[], ?h, key_line key v] @ rest_lines ls"
      using None insert_segment [of "head_lines ls" "rest_lines ls"] head_rest(1) [of ls]
      by (simp add: edit_section_def first_line_at_all top_end_head Let_def)
    moreover have "doc_of ([[], ?h] @ [key_line key v] @ rest_lines ls) = ([], (?h, [key_line key v]) # snd (doc_of (rest_lines ls)))"
      using doc_table [of ?h "[key_line key v]" "rest_lines ls" "[]"] section_header_line [OF assms(1)] head_rest(3) [of ls]
        key_line_plain [OF assms(2), of v] trim_right_key_line [OF assms(3), of key]
      by (simp add: doc_line_blank)
    moreover have "doc_of ls = (content (head_lines ls), snd (doc_of (rest_lines ls)))"
      using doc_body [OF head_rest(2) [of ls] head_rest(3) [of ls]] head_rest(1) [of ls] by simp
    ultimately show ?thesis
      using doc_content [OF head_rest(2) [of ls]] None idx by (simp add: set_section_def doc_of_append)
  next
    case (Some i)
    then have i: "i < length ls" "matchTableHeader (ls ! i) ?h" using index_of_Some [OF Some] by auto
    then have "isAnyTableHeader (ls ! nat (int i))" using header_matches section_header_prefix by simp
    then have "doc_of (upsertTomlRawKey ls (int i + 1) (table_end ls (int i) (int (length ls) - 1)) key v) =
        set_table (table_pos ls (int i)) key v (doc_of ls)"
      using i assms by (intro table_upsert) (auto simp: ends_region_def)
    then show ?thesis using Some idx by (simp add: edit_section_def first_line_at_all set_section_def Let_def)
  qed
qed

interpretation section_edit: config_edit "edit_section name key v" "\<lambda>d d'. d' = set_section name key v d"
    "\<lambda>_. bare_key name \<and> bare_key key \<and> closed_value v" for name key v
proof unfold_locales
  fix ls :: "string list"
  assume a: "\<forall>l \<in> set ls. one_line l" "bare_key name \<and> bare_key key \<and> closed_value v"
  then show "doc_of (edit_section name key v ls) = set_section name key v (doc_of ls)"
    by (simp add: edit_section_doc)
  have "\<forall>l \<in> set [[], section_header name, key_line key v]. one_line l"
    using a section_header_line(2) one_line_key_line by simp
  then have ins: "\<forall>l \<in> set (insertLines ls at [[], section_header name, key_line key v]). one_line l" for at
    by (rule one_line_insert [OF a(1)])
  have ups: "\<forall>l \<in> set (upsertTomlRawKey ls s e key v). one_line l" for s e
    using a by (intro one_line_upsert) auto
  show "\<forall>l \<in> set (edit_section name key v ls). one_line l"
    by (cases "first_line_at (\<lambda>l. matchTableHeader l (section_header name)) ls 0 (int (length ls) - 1)")
      (simp_all only: edit_section_def Let_def option.case, rule ins, rule ups)
qed

end
