(* ===== verification/ConfigProjectProofs.thy ===== *)
theory ConfigProjectProofs
  imports ConfigRefinement
begin

text \<open>
  Where \<open>buildRawProjectSpans\<close> finds the tables of a project: the k-th span holds the lines between the
  k-th header of a project and the next, so an option is set in a table of that project.
\<close>

section \<open>Headers by number\<close>

lemma nth_distinct_split: "distinct xs \<Longrightarrow> xs = as @ x # bs \<Longrightarrow> k < length xs \<Longrightarrow> xs ! k = x \<Longrightarrow> length as = k"
  using nth_eq_iff_index_eq [of xs "length as" k] by simp

lemma filter_upto_nth:
  assumes "k < length (filter P [i..j])"
  shows "length (filter P [i..filter P [i..j] ! k - 1]) = k"
    "i \<le> filter P [i..j] ! k" "filter P [i..j] ! k \<le> j" "P (filter P [i..j] ! k)"
proof -
  let ?x = "filter P [i..j] ! k"
  have "?x \<in> set (filter P [i..j])" using assms nth_mem by blast
  then show x: "i \<le> ?x" "?x \<le> j" "P ?x" by auto
  have "filter P [i..j] = filter P [i..y - 1] @ y # filter P [y + 1..j]" if "P y" "i \<le> y" "y \<le> j" for y
    by (subst upto_split3 [OF that(2,3)]) (simp add: that(1))
  then have s: "filter P [i..j] = filter P [i..?x - 1] @ ?x # filter P [?x + 1..j]" using x by blast
  show "length (filter P [i..?x - 1]) = k"
    by (rule nth_distinct_split [OF _ s assms refl]) simp
qed

lemma map_nth_upto: "i \<le> int (length ls) \<Longrightarrow> map (\<lambda>j. ls ! nat j) [0..i - 1] = take (nat i) ls"
proof (rule nth_equalityI)
  assume i: "i \<le> int (length ls)"
  then show "length (map (\<lambda>j. ls ! nat j) [0..i - 1]) = length (take (nat i) ls)" by simp
  fix m
  assume "m < length (map (\<lambda>j. ls ! nat j) [0..i - 1])"
  then show "map (\<lambda>j. ls ! nat j) [0..i - 1] ! m = take (nat i) ls ! m" by (simp add: nth_upto)
qed

text \<open>The number of headers of a kind among the first lines.\<close>

definition headers_before :: "string \<Rightarrow> string list \<Rightarrow> int \<Rightarrow> nat" where
  "headers_before h ls i = length (filter (\<lambda>l. matchTableHeader l h) (take (nat i) ls))"

lemma headers_before_upto: "i \<le> int (length ls) \<Longrightarrow> length (header_lines h ls 0 (i - 1)) = headers_before h ls i"
  unfolding header_lines_def headers_before_def map_nth_upto [symmetric]
  by (simp add: filter_map comp_def)

lemma headers_before_split:
  assumes "0 \<le> i" "i \<le> j" "j \<le> int (length ls)"
  shows "headers_before h ls j = headers_before h ls i + length (header_lines h ls i (j - 1))"
proof -
  have "[0..j - 1] = [0..i - 1] @ [i..j - 1]" using upto_split1 [of 0 i "j - 1"] assms by (cases "i = j") auto
  then have "header_lines h ls 0 (j - 1) = header_lines h ls 0 (i - 1) @ header_lines h ls i (j - 1)"
    by (simp add: header_lines_def)
  then show ?thesis using headers_before_upto [of j ls h] headers_before_upto [of i ls h] assms by simp
qed

lemma with_ends_nth:
  "k < length ss \<Longrightarrow> length (with_ends ss e) = length ss \<and>
   with_ends ss e ! k = (ss ! k, if Suc k < length ss then ss ! Suc k - 1 else e)"
proof (induction ss e arbitrary: k rule: with_ends.induct)
  case (3 s t ss e)
  show ?case
  proof (cases k)
    case 0
    then show ?thesis using "3.IH" [of 0] by simp
  next
    case (Suc m)
    then show ?thesis using "3.IH" [of m] "3.prems" by simp
  qed
qed simp_all

lemma length_with_ends [simp]: "length (with_ends ss e) = length ss"
  by (induction ss e rule: with_ends.induct) auto

section \<open>Blocks of lines that begin with a header\<close>

text \<open>The k-th block of a kind among the lines from \<open>i\<close> to \<open>e\<close>.\<close>

definition block_of :: "string \<Rightarrow> string list \<Rightarrow> int \<Rightarrow> int \<Rightarrow> nat \<Rightarrow> int \<times> int" where
  "block_of h ls i e k = with_ends (header_lines h ls i e) e ! k"

lemma ends_region_header: "ends_region ls e \<Longrightarrow> i \<le> j \<Longrightarrow> j \<le> e \<Longrightarrow> 0 \<le> i \<Longrightarrow> j < int (length ls)"
  by (auto simp: ends_region_def)

lemma block_facts:
  assumes "k < length (header_lines h ls i e)" "0 \<le> i" "ends_region ls e" "has_prefix h ''[''" "block_of h ls i e k = (s, t)"
  shows "i \<le> s" "s \<le> t" "t \<le> e" "matchTableHeader (ls ! nat s) h" "ends_region ls t"
    "headers_before h ls s = headers_before h ls i + k"
    "\<And>j. s < j \<Longrightarrow> j \<le> t \<Longrightarrow> \<not> matchTableHeader (ls ! nat j) h"
proof -
  let ?P = "\<lambda>j. matchTableHeader (ls ! nat j) h"
  let ?ss = "header_lines h ls i e"
  have ss: "?ss = filter ?P [i..e]" by (simp add: header_lines_def)
  have k: "k < length (filter ?P [i..e])" using assms(1) ss by simp
  have st: "s = ?ss ! k" "t = (if Suc k < length ?ss then ?ss ! Suc k - 1 else e)"
    using with_ends_nth [OF assms(1), of e] assms(5) by (auto simp: block_of_def)
  have s: "i \<le> s" "s \<le> e" "?P s" "length (filter ?P [i..s - 1]) = k"
    using filter_upto_nth [OF k] st(1) ss by simp_all
  show "i \<le> s" "matchTableHeader (ls ! nat s) h" using s by simp_all
  have len: "e < int (length ls)" using assms(3) by (auto simp: ends_region_def)
  then show "headers_before h ls s = headers_before h ls i + k"
    using headers_before_split [of i s ls h] s assms(2) by (simp add: header_lines_def)
  have split: "?ss = filter ?P [i..s - 1] @ s # filter ?P [s + 1..e]"
    using upto_split3 [of i s e] s by (simp add: ss)
  have later: "Suc k < length ?ss \<Longrightarrow> 0 < length (filter ?P [s + 1..e]) \<and> ?ss ! Suc k = filter ?P [s + 1..e] ! 0"
    using split s(4) by (simp add: nth_append)
  have "s \<le> t \<and> t \<le> e \<and> ends_region ls t \<and> (\<forall>j. s < j \<longrightarrow> j \<le> t \<longrightarrow> \<not> ?P j)"
  proof (cases "Suc k < length ?ss")
    case True
    then have l: "0 < length (filter ?P [s + 1..e])" and n: "t = filter ?P [s + 1..e] ! 0 - 1"
      using later st(2) by simp_all
    have t1: "filter ?P [s + 1..e] ! 0 = t + 1" using n by simp
    have f: "s + 1 \<le> t + 1" "t + 1 \<le> e" "?P (t + 1)" "filter ?P [s + 1..t] = []"
      using filter_upto_nth [OF l] unfolding t1 by simp_all
    then have "\<forall>j. s < j \<longrightarrow> j \<le> t \<longrightarrow> \<not> ?P j" by (auto simp: filter_empty_conv)
    moreover have "ends_region ls t"
      using f s assms(2) len header_matches [OF f(3) assms(4)] by (auto simp: ends_region_def)
    ultimately show ?thesis using f by simp
  next
    case False
    then have "filter ?P [s + 1..e] = []" using split s(4) by (cases "filter ?P [s + 1..e]") auto
    then show ?thesis using False st(2) s assms(3) by (auto simp: filter_empty_conv)
  qed
  then show "s \<le> t" "t \<le> e" "ends_region ls t" "\<And>j. s < j \<Longrightarrow> j \<le> t \<Longrightarrow> \<not> ?P j" by auto
qed

text \<open>Within a block the number of headers of its kind stands still.\<close>

lemma headers_in_block:
  assumes "0 \<le> s" "matchTableHeader (ls ! nat s) h" "\<And>j. s < j \<Longrightarrow> j \<le> t \<Longrightarrow> \<not> matchTableHeader (ls ! nat j) h"
    "s < j" "j \<le> t + 1" "t < int (length ls)"
  shows "headers_before h ls j = Suc (headers_before h ls s)"
proof -
  have u: "[s..j - 1] = s # [s + 1..j - 1]" using assms(4) by (simp add: upto_rec1)
  have "filter (\<lambda>i. matchTableHeader (ls ! nat i) h) [s + 1..j - 1] = []"
    using assms(3,5) by (auto simp: filter_empty_conv)
  then have "length (header_lines h ls s (j - 1)) = 1" by (simp add: header_lines_def u assms(2))
  then show ?thesis using headers_before_split [of s j ls h] assms by simp
qed

text \<open>A line after \<open>k + 1\<close> headers of a kind lies in the k-th block, unless it is such a header itself.\<close>

lemma block_of_line:
  assumes "0 \<le> i" "i \<le> j" "j \<le> e" "e < int (length ls)" "headers_before h ls j = headers_before h ls i + Suc k"
    "\<not> matchTableHeader (ls ! nat j) h" "block_of h ls i e k = (s, t)"
  shows "k < length (header_lines h ls i e)" "s < j" "j \<le> t"
proof -
  let ?P = "\<lambda>j. matchTableHeader (ls ! nat j) h"
  let ?ss = "header_lines h ls i e"
  have split: "?ss = header_lines h ls i (j - 1) @ header_lines h ls j e"
    using upto_split1 [of i j e] assms(2,3) by (simp add: header_lines_def)
  have l: "length (header_lines h ls i (j - 1)) = Suc k"
    using headers_before_split [of i j ls h] assms(1-5) by simp
  show k: "k < length ?ss" using split l by simp
  have st: "s = ?ss ! k" "t = (if Suc k < length ?ss then ?ss ! Suc k - 1 else e)"
    using with_ends_nth [OF k, of e] assms(7) by (auto simp: block_of_def)
  have "s = header_lines h ls i (j - 1) ! k" using st split l by (simp add: nth_append)
  then have "s \<in> set (header_lines h ls i (j - 1))" using l by simp
  then show "s < j" by (simp add: header_lines_def)
  show "j \<le> t"
  proof (cases "Suc k < length ?ss")
    case True
    then have "?ss ! Suc k = header_lines h ls j e ! 0" "header_lines h ls j e \<noteq> []" using split l by (auto simp: nth_append)
    then have "?ss ! Suc k \<in> set (header_lines h ls j e)" by (metis length_greater_0_conv nth_mem)
    then have "j \<le> ?ss ! Suc k" "?P (?ss ! Suc k)" by (simp_all add: header_lines_def)
    then have "j < ?ss ! Suc k" using assms(6) by (metis order_le_less)
    then show ?thesis using True st by simp
  qed (use st assms in simp)
qed

section \<open>The agent tables of a project\<close>

lemma header_prefixes [simp]: "has_prefix projects_header ''[''" "has_prefix agent_header ''[''" "has_prefix agent_options_header ''[''"
    "has_prefix agent_providers_header ''[''" "has_prefix platforms_header ''[''" "has_prefix platform_options_header ''[''"
    "has_prefix providers_header ''[''"
  by (simp_all add: has_prefix_def projects_header_def agent_header_def agent_options_header_def agent_providers_header_def
      platforms_header_def platform_options_header_def providers_header_def)

lemma matches_take: "matchTableHeader l h \<Longrightarrow> take (length h) (trim_space l) = h"
  by (auto simp: matchTableHeader_def has_prefix_def Let_def split: if_splits)

lemma matches_second: "matchTableHeader l h \<Longrightarrow> 1 < length h \<Longrightarrow> trim_space l ! 1 = h ! 1"
  using matches_take [of l h] by (metis nth_take)

lemma agent_no_project:
  "matchTableHeader l agent_header \<Longrightarrow> \<not> matchTableHeader l projects_header"
  "matchTableHeader l agent_options_header \<Longrightarrow> \<not> matchTableHeader l projects_header"
  using matches_second [of l agent_header] matches_second [of l agent_options_header] matches_second [of l projects_header]
  by (auto simp: agent_header_def agent_options_header_def projects_header_def)

definition agent_inv :: "string list \<Rightarrow> int \<Rightarrow> int \<Rightarrow> raw_project_span \<Rightarrow> bool" where
  "agent_inv ls s e sp \<longleftrightarrow>
     sp_start sp = s \<and> sp_end sp = e \<and>
     (0 \<le> sp_agentStart sp \<longrightarrow> s < sp_agentStart sp \<and> sp_agentStart sp \<le> e \<and>
        matchTableHeader (ls ! nat (sp_agentStart sp)) agent_header \<and> sp_agentEnd sp = table_end ls (sp_agentStart sp) e) \<and>
     (0 \<le> sp_agentOptionsStart sp \<longrightarrow> s < sp_agentOptionsStart sp \<and> sp_agentOptionsStart sp \<le> e \<and>
        matchTableHeader (ls ! nat (sp_agentOptionsStart sp)) agent_options_header \<and>
        sp_agentOptionsEnd sp = table_end ls (sp_agentOptionsStart sp) e)"

lemma agent_inv_scan: "agent_inv ls s e sp \<Longrightarrow> s < ln \<Longrightarrow> ln \<le> e \<Longrightarrow> agent_inv ls s e (scan_agent_line ls e ln sp)"
  by (auto simp: agent_inv_def scan_agent_line_def Let_def)

lemma agent_inv_fold: "agent_inv ls s e sp \<Longrightarrow> \<forall>x \<in> set xs. s < x \<and> x \<le> e \<Longrightarrow> agent_inv ls s e (fold (scan_agent_line ls e) xs sp)"
  by (induction xs arbitrary: sp) (auto intro: agent_inv_scan)

lemma scan_finds_options: "x \<in> set xs \<Longrightarrow> \<forall>x \<in> set xs. 0 \<le> x \<Longrightarrow> matchTableHeader (ls ! nat x) agent_options_header \<Longrightarrow>
    0 \<le> sp_agentOptionsStart (fold (scan_agent_line ls e) xs sp)"
proof (induction xs arbitrary: sp)
  case (Cons y xs)
  have keep: "0 \<le> sp_agentOptionsStart sp \<Longrightarrow> \<forall>x \<in> set zs. 0 \<le> x \<Longrightarrow> 0 \<le> sp_agentOptionsStart (fold (scan_agent_line ls e) zs sp)" for zs sp
    by (induction zs arbitrary: sp) (auto simp: scan_agent_line_def Let_def)
  show ?case
  proof (cases "x = y")
    case True
    then have "0 \<le> sp_agentOptionsStart (scan_agent_line ls e y sp)" using Cons.prems by (simp add: scan_agent_line_def Let_def)
    then show ?thesis using keep Cons.prems by simp
  qed (use Cons in simp)
qed simp

lemma project_span_inv:
  assumes "0 \<le> s"
  shows "agent_inv ls s e (project_span ls (s, e))"
    "i \<in> {s + 1..e} \<Longrightarrow> matchTableHeader (ls ! nat i) agent_options_header \<Longrightarrow> 0 \<le> sp_agentOptionsStart (project_span ls (s, e))"
proof -
  let ?sp = "\<lparr>sp_start = s, sp_end = e, sp_platforms = [], sp_agentStart = -1, sp_agentEnd = -1,
      sp_agentOptionsStart = -1, sp_agentOptionsEnd = -1, sp_agentProviders = []\<rparr> :: raw_project_span"
  have "agent_inv ls s e ?sp" by (simp add: agent_inv_def)
  then have "agent_inv ls s e (fold (scan_agent_line ls e) [s + 1..e] ?sp)" by (rule agent_inv_fold) auto
  then show "agent_inv ls s e (project_span ls (s, e))" by (simp add: project_span_def Let_def agent_inv_def)
  assume "i \<in> {s + 1..e}" "matchTableHeader (ls ! nat i) agent_options_header"
  then have "0 \<le> sp_agentOptionsStart (fold (scan_agent_line ls e) [s + 1..e] ?sp)"
    using assms by (intro scan_finds_options [of i]) auto
  then show "0 \<le> sp_agentOptionsStart (project_span ls (s, e))" by (simp add: project_span_def Let_def)
qed

lemma spans_nth:
  assumes "k < length (buildRawProjectSpans ls)"
  obtains s e where "block_of projects_header ls 0 (int (length ls) - 1) k = (s, e)"
    "k < length (header_lines projects_header ls 0 (int (length ls) - 1))"
    "buildRawProjectSpans ls ! k = project_span ls (s, e)"
proof -
  obtain s e where b: "block_of projects_header ls 0 (int (length ls) - 1) k = (s, e)" by fastforce
  then show ?thesis using assms that [OF b] by (simp add: buildRawProjectSpans_def Let_def block_of_def)
qed

text \<open>A line in project \<open>k\<close>: a header line, after the k-th project header and before the next.\<close>

definition in_project :: "nat \<Rightarrow> string list \<Rightarrow> int \<Rightarrow> bool" where
  "in_project k ls i \<longleftrightarrow> 0 \<le> i \<and> i < int (length ls) \<and> headers_before projects_header ls i = Suc k"

lemma project_facts:
  assumes "block_of projects_header ls 0 (int (length ls) - 1) k = (s, e)"
    "k < length (header_lines projects_header ls 0 (int (length ls) - 1))"
  shows "0 \<le> s" "s \<le> e" "e < int (length ls)" "ends_region ls e" "matchTableHeader (ls ! nat s) projects_header"
    "s < j \<Longrightarrow> j \<le> e + 1 \<Longrightarrow> headers_before projects_header ls j = Suc k"
proof -
  have r: "ends_region ls (int (length ls) - 1)" by (simp add: ends_region_def)
  note f = block_facts [OF assms(2) order_refl r header_prefixes(1) assms(1)]
  show "0 \<le> s" "s \<le> e" "ends_region ls e" "matchTableHeader (ls ! nat s) projects_header" using f by simp_all
  show e: "e < int (length ls)" using f by simp
  assume "s < j" "j \<le> e + 1"
  then show "headers_before projects_header ls j = Suc k"
    using headers_in_block [of s ls projects_header e j] f e by (simp add: headers_before_def)
qed

text \<open>Setting an option in a text whose project has the options table.\<close>

lemma set_agent_option:
  assumes "k < length (buildRawProjectSpans ls)" "0 \<le> sp_agentOptionsStart (buildRawProjectSpans ls ! k)" "bare_key key" "closed_value v"
  shows "\<exists>i. in_project k ls i \<and> matchTableHeader (ls ! nat i) agent_options_header \<and>
    doc_of (upsertTomlRawKey ls (sp_agentOptionsStart (buildRawProjectSpans ls ! k) + 1)
      (sp_agentOptionsEnd (buildRawProjectSpans ls ! k)) key v) = set_table (table_pos ls i) key v (doc_of ls)"
proof -
  obtain s e where b: "block_of projects_header ls 0 (int (length ls) - 1) k = (s, e)"
      "k < length (header_lines projects_header ls 0 (int (length ls) - 1))" "buildRawProjectSpans ls ! k = project_span ls (s, e)"
    using spans_nth [OF assms(1)] .
  note f = project_facts [OF b(1,2)]
  let ?i = "sp_agentOptionsStart (project_span ls (s, e))"
  have i: "s < ?i" "?i \<le> e" "matchTableHeader (ls ! nat ?i) agent_options_header"
      "sp_agentOptionsEnd (project_span ls (s, e)) = table_end ls ?i e"
    using project_span_inv(1) [OF f(1), of ls e] assms(2) b(3) by (simp_all add: agent_inv_def)
  have "doc_of (upsertTomlRawKey ls (?i + 1) (table_end ls ?i e) key v) = set_table (table_pos ls ?i) key v (doc_of ls)"
    using i f assms(3,4) header_matches [OF i(3)] by (intro table_upsert) simp_all
  moreover have "in_project k ls ?i" using i f(1,3) f(6) [of ?i] by (simp add: in_project_def)
  ultimately show ?thesis using i b(3) by auto
qed

section \<open>Positions in the document\<close>

definition tables_before :: "string \<Rightarrow> config_doc \<Rightarrow> nat \<Rightarrow> nat" where
  "tables_before h d p = length (filter (\<lambda>t. matchTableHeader (fst t) h) (take p (snd d)))"

definition insert_tables :: "nat \<Rightarrow> config_table list \<Rightarrow> config_doc \<Rightarrow> config_doc" where
  "insert_tables p new d = (fst d, take p (snd d) @ new @ drop p (snd d))"

lemma tables_of_lines: "has_prefix h ''['' \<Longrightarrow>
    length (filter (\<lambda>t. matchTableHeader (fst t) h) (snd (doc_of ls))) = length (filter (\<lambda>l. matchTableHeader l h) ls)"
proof (induction ls)
  case (Cons l ls)
  obtain pre ts where "doc_of ls = (pre, ts)" by fastforce
  then show ?case using Cons header_matches [of l h] by (auto simp: doc_line_def)
qed simp

lemma tables_before_split:
  assumes "has_prefix h ''[''" "starts_table (drop j ls)" "q = length (filter isAnyTableHeader (take j ls))"
  shows "tables_before h (doc_of ls) q = headers_before h ls (int j)"
proof -
  have "doc_of (take j ls @ drop j ls) = (fst (doc_of (take j ls)), snd (doc_of (take j ls)) @ snd (doc_of (drop j ls)))"
    by (rule doc_append [OF assms(2)])
  then have "take q (snd (doc_of ls)) = snd (doc_of (take j ls))" using assms(3) by (simp add: length_tables)
  then show ?thesis using tables_of_lines [OF assms(1)] by (simp add: tables_before_def headers_before_def)
qed

text \<open>A text around one of its headers.\<close>

lemma around_header:
  assumes "0 \<le> i" "i < int (length ls)" "isAnyTableHeader (ls ! nat i)"
  obtains a b c where "ls = a @ (ls ! nat i) # b @ c" "int (length a) = i" "b = head_lines (b @ c)"
    "\<forall>l \<in> set b. \<not> isAnyTableHeader l" "starts_table c" "take (nat i) ls = a"
    "doc_of ls = (fst (doc_of a), snd (doc_of a) @ (trim_right_blanks (ls ! nat i), content b) # snd (doc_of c))"
    "table_pos ls i = length (snd (doc_of a))"
proof -
  define a h r where "a = take (nat i) ls" and "h = ls ! nat i" and "r = drop (Suc (nat i)) ls"
  have i: "nat i < length ls" using assms by linarith
  then have "ls = a @ h # r" unfolding a_def h_def r_def by (rule id_take_nth_drop)
  then have ls: "ls = a @ h # head_lines r @ rest_lines r" using head_rest(1) [of r] by simp
  have d: "doc_of ls = (fst (doc_of a), snd (doc_of a) @ (trim_right_blanks h, content (head_lines r)) # snd (doc_of (rest_lines r)))"
    using doc_table [OF assms(3) [folded h_def] head_rest(2) [of r] head_rest(3) [of r], of a] ls by simp
  show ?thesis
  proof (rule that [of a "head_lines r" "rest_lines r"])
    show "int (length a) = i" using i assms(1) by (simp add: a_def)
    show "head_lines r = head_lines (head_lines r @ rest_lines r)" using head_rest(1) [of r] by simp
    show "table_pos ls i = length (snd (doc_of a))" by (simp add: table_pos_def length_tables a_def)
  qed (use ls d head_rest(2,3) [of r] in \<open>simp_all add: h_def a_def\<close>)
qed

lemma table_pos_facts:
  assumes "0 \<le> i" "i < int (length ls)" "isAnyTableHeader (ls ! nat i)" "has_prefix h ''[''"
  shows "table_pos ls i < length (snd (doc_of ls))" "fst (snd (doc_of ls) ! table_pos ls i) = trim_right_blanks (ls ! nat i)"
    "tables_before h (doc_of ls) (table_pos ls i) = headers_before h ls i"
proof -
  obtain a b c where *: "doc_of ls = (fst (doc_of a), snd (doc_of a) @ (trim_right_blanks (ls ! nat i), content b) # snd (doc_of c))"
      "table_pos ls i = length (snd (doc_of a))" "take (nat i) ls = a"
    using around_header [OF assms(1-3)] by metis
  show "table_pos ls i < length (snd (doc_of ls))" "fst (snd (doc_of ls) ! table_pos ls i) = trim_right_blanks (ls ! nat i)"
    by (simp_all add: *(1,2))
  show "tables_before h (doc_of ls) (table_pos ls i) = headers_before h ls i"
    using tables_of_lines [OF assms(4), of a] by (simp add: tables_before_def headers_before_def *)
qed

text \<open>A block inserted behind a table is a list of tables behind it.\<close>

lemma insert_after_table:
  assumes "0 \<le> i" "i \<le> e" "ends_region ls e" "isAnyTableHeader (ls ! nat i)" "starts_table blk" "has_prefix h ''[''"
  shows "doc_of (insertLines ls (table_end ls i e + 1) ([] # blk)) = insert_tables (Suc (table_pos ls i)) (snd (doc_of blk)) (doc_of ls)"
    "i < table_end ls i e + 1" "table_end ls i e \<le> e"
    "tables_before h (doc_of ls) (Suc (table_pos ls i)) = headers_before h ls (table_end ls i e + 1)"
proof -
  have "i < int (length ls)" using assms(2,3) by (auto simp: ends_region_def)
  then obtain a b c where ls: "ls = a @ (ls ! nat i) # b @ c" and la: "int (length a) = i" and b: "b = head_lines (b @ c)"
    and nb: "\<forall>l \<in> set b. \<not> isAnyTableHeader l" and c: "starts_table c" and a: "take (nat i) ls = a"
    and d: "doc_of ls = (fst (doc_of a), snd (doc_of a) @ (trim_right_blanks (ls ! nat i), content b) # snd (doc_of c))"
    and p: "table_pos ls i = length (snd (doc_of a))"
    using around_header [OF assms(1) _ assms(4)] by metis
  define x where "x = ls ! nat i"
  have ls': "ls = (a @ x # b) @ c" using ls by (simp add: x_def)
  have "ends_region (a @ x # b @ c) e" using assms(3) ls' by simp
  then have te: "table_end ls i e = i + int (length b)"
    using table_end_segment [of a x "b @ c" e] assms(2) la b ls' by simp
  then have q: "table_end ls i e + 1 = int (length (a @ x # b))" using la by simp
  have ins: "insertLines ls (table_end ls i e + 1) ([] # blk) = a @ x # (b @ [[]]) @ blk @ c"
    unfolding q using insert_segment [of "a @ x # b" c "[] # blk"] ls' by simp
  have "starts_table (blk @ c)" using assms(5) c by (cases blk) (auto simp: starts_table_def)
  moreover have "\<forall>l \<in> set (b @ [[]]). \<not> isAnyTableHeader l" using nb by auto
  ultimately have "doc_of (a @ x # (b @ [[]]) @ blk @ c) =
      (fst (doc_of a), snd (doc_of a) @ (trim_right_blanks x, content b) # snd (doc_of blk) @ snd (doc_of c))"
    using doc_table [of x "b @ [[]]" "blk @ c" a] assms(4) doc_append [OF c, of blk] by (simp add: content_def x_def)
  then show "doc_of (insertLines ls (table_end ls i e + 1) ([] # blk)) = insert_tables (Suc (table_pos ls i)) (snd (doc_of blk)) (doc_of ls)"
    unfolding ins d p insert_tables_def by (simp add: x_def)
  show "i < table_end ls i e + 1" using te by simp
  show "table_end ls i e \<le> e"
    using assms(2) first_line_at_range [of isAnyTableHeader ls "i + 1" e] by (auto simp: table_end_def split: option.splits)
  have "starts_table (drop (length (a @ x # b)) ls)" "take (length (a @ x # b)) ls = a @ x # b" using c ls' by simp_all
  moreover have "filter isAnyTableHeader b = []" using nb by (simp add: filter_empty_conv)
  ultimately show "tables_before h (doc_of ls) (Suc (table_pos ls i)) = headers_before h ls (table_end ls i e + 1)"
    using tables_before_split [OF assms(6), of "length (a @ x # b)" ls "Suc (table_pos ls i)"] assms(4) q p
    by (simp add: x_def length_tables ac_simps)
qed

text \<open>An options table that was inserted in project \<open>k\<close> is found.\<close>

lemma inserted_options:
  assumes "headers_before projects_header ls q = Suc k" "0 \<le> q" "q \<le> int (length ls)"
    "m < length block" "matchTableHeader (block ! m) agent_options_header"
    "\<forall>l \<in> set (take m block). \<not> matchTableHeader l projects_header"
  shows "k < length (buildRawProjectSpans (insertLines ls q block)) \<and>
    0 \<le> sp_agentOptionsStart (buildRawProjectSpans (insertLines ls q block) ! k)"
proof -
  let ?ls = "insertLines ls q block" and ?j = "q + int m"
  have ls: "?ls = take (nat q) ls @ block @ drop (nat q) ls" using assms(2,3) by (simp add: insertLines_def)
  have nq: "length (take (nat q) ls) = nat q" using assms(2,3) by simp
  have at: "?ls ! nat ?j = block ! m" using assms(2,4) nq by (simp add: ls nth_append nat_add_distrib)
  have len: "?j < int (length ?ls)" using assms(2-4) nq by (simp add: ls)
  have "take (nat ?j) ?ls = take (nat q) ls @ take m block" using assms(2,4) nq by (simp add: ls nat_add_distrib)
  then have "headers_before projects_header ?ls ?j = Suc k"
    using assms(1,6) by (simp add: headers_before_def filter_empty_conv)
  then have h: "headers_before projects_header ?ls ?j = headers_before projects_header ?ls 0 + Suc k" by (simp add: headers_before_def)
  obtain s e where b: "block_of projects_header ?ls 0 (int (length ?ls) - 1) k = (s, e)" by fastforce
  have np: "\<not> matchTableHeader (?ls ! nat ?j) projects_header" using agent_no_project(2) assms(5) at by simp
  have j: "k < length (header_lines projects_header ?ls 0 (int (length ?ls) - 1))" "s < ?j" "?j \<le> e"
    using block_of_line [OF order_refl _ _ _ h np b] assms(2) len by simp_all
  then have sp: "k < length (buildRawProjectSpans ?ls)" "buildRawProjectSpans ?ls ! k = project_span ?ls (s, e)"
    using b by (simp_all add: buildRawProjectSpans_def block_of_def Let_def)
  have "0 \<le> s" using project_facts(1) [OF b j(1)] .
  then show ?thesis using project_span_inv(2) [of s ?j e ?ls] sp j(2,3) at assms(5) by simp
qed

section \<open>The option of an agent on the document\<close>

text \<open>The tables that are added for a project without an options table.\<close>

definition options_table :: config_table where
  "options_table = (agent_options_header, [])"

definition agent_table :: config_table where
  "agent_table = (agent_header, [''type = '' @ [dquote] @ ''claudecode'' @ [dquote]])"

text \<open>
  \<open>key\<close> is set in an options table of project \<open>k\<close>, which may be new: a table behind as many project
  headers as there are projects up to \<open>k\<close>.
\<close>

definition sets_agent_option :: "nat \<Rightarrow> string \<Rightarrow> string \<Rightarrow> config_doc \<Rightarrow> config_doc \<Rightarrow> bool" where
  "sets_agent_option k key v d d' \<longleftrightarrow>
     (\<exists>q new p.
        (new = [] \<or> new = [options_table] \<or> new = [agent_table, options_table]) \<and>
        (new \<noteq> [] \<longrightarrow> tables_before projects_header d q = Suc k) \<and>
        (let m = insert_tables q new d
         in p < length (snd m) \<and> matchTableHeader (fst (snd m ! p)) agent_options_header \<and>
            tables_before projects_header m p = Suc k \<and> d' = set_table p key v m))"

lemma ascii_ends:
  assumes "\<forall>c \<in> set s. 32 < byte c \<and> byte c < 128" "s \<noteq> []"
  shows "trim_space s = s" "trim_right_blanks s = s"
proof -
  have n: "\<not> is_space (byte c)" "\<not> is_blank_byte c" if "c \<in> set s" for c
    using assms(1) that by (fastforce simp: is_space_def is_blank_byte_def byte_def)+
  show "trim_space s = s" using assms n by (intro trim_space_ascii) (auto simp: hd_in_set)
  show "trim_right_blanks s = s" using assms(2) n by (cases s rule: rev_cases) (auto simp: trim_right_blanks_snoc)
qed

lemma header_trims [simp]: "trim_space agent_header = agent_header" "trim_space agent_options_header = agent_options_header"
    "trim_right_blanks agent_header = agent_header" "trim_right_blanks agent_options_header = agent_options_header"
  unfolding agent_header_def agent_options_header_def by (intro ascii_ends; simp add: byte_def)+

lemma headers_self: "matchTableHeader agent_header agent_header" "matchTableHeader agent_options_header agent_options_header"
  by (simp_all add: matchTableHeader_def has_prefix_def)

definition claudecode_line :: string where
  "claudecode_line = ''type = '' @ [dquote] @ ''claudecode'' @ [dquote]"

lemma claudecode_plain: "\<not> isAnyTableHeader claudecode_line" "\<not> is_blank claudecode_line"
    "trim_right_blanks claudecode_line = claudecode_line" "one_line claudecode_line"
proof -
  have k: "claudecode_line = [] @ key_line ''type'' ([dquote] @ ''claudecode'' @ [dquote]) @ []" by (simp add: claudecode_line_def key_line_def)
  have b: "bare_key ''type''" by (simp add: bare_key_def bare_byte_def byte_def)
  show "\<not> isAnyTableHeader claudecode_line" "\<not> is_blank claudecode_line"
    unfolding k by (intro key_line_matches [OF b]; simp)+
  show "trim_right_blanks claudecode_line = claudecode_line"
    using trim_right_blanks_snoc [of "''type = '' @ [dquote] @ ''claudecode''" dquote] by (simp add: claudecode_line_def is_blank_byte_def)
  show "one_line claudecode_line" by (simp add: claudecode_line_def one_line_def)
qed

lemma new_tables:
  "snd (doc_of [agent_options_header]) = [options_table]" "starts_table [agent_options_header]"
  "snd (doc_of [agent_header, claudecode_line, [], agent_options_header]) = [agent_table, options_table]"
  "starts_table [agent_header, claudecode_line, [], agent_options_header]"
  using header_matches [OF headers_self(1)] header_matches [OF headers_self(2)] claudecode_plain
  by (simp_all add: doc_line_def options_table_def agent_table_def starts_table_def claudecode_line_def)

lemma agent_insert_at_end: "sp_start sp = s \<Longrightarrow> sp_end sp = e \<Longrightarrow> agent_insert_at ls sp = table_end ls s e + 1"
  by (auto simp: agent_insert_at_def table_end_def split: option.splits)

text \<open>Setting the option in lines that have the table gives the statement about the document.\<close>

lemma option_set_in_doc:
  assumes "k < length (buildRawProjectSpans ls)" "0 \<le> sp_agentOptionsStart (buildRawProjectSpans ls ! k)" "bare_key key" "closed_value v"
    "doc_of ls = insert_tables q new d" "new = [] \<or> new = [options_table] \<or> new = [agent_table, options_table]"
    "new \<noteq> [] \<Longrightarrow> tables_before projects_header d q = Suc k"
  shows "sets_agent_option k key v d (doc_of (upsertTomlRawKey ls (sp_agentOptionsStart (buildRawProjectSpans ls ! k) + 1)
      (sp_agentOptionsEnd (buildRawProjectSpans ls ! k)) key v))"
proof -
  obtain i where i: "in_project k ls i" "matchTableHeader (ls ! nat i) agent_options_header"
      "doc_of (upsertTomlRawKey ls (sp_agentOptionsStart (buildRawProjectSpans ls ! k) + 1)
        (sp_agentOptionsEnd (buildRawProjectSpans ls ! k)) key v) = set_table (table_pos ls i) key v (doc_of ls)"
    using set_agent_option [OF assms(1-4)] by blast
  have h: "isAnyTableHeader (ls ! nat i)" using header_matches [OF i(2)] by simp
  note f = table_pos_facts [OF _ _ h header_prefixes(1)]
  have "table_pos ls i < length (snd (doc_of ls))" "matchTableHeader (fst (snd (doc_of ls) ! table_pos ls i)) agent_options_header"
      "tables_before projects_header (doc_of ls) (table_pos ls i) = Suc k"
    using f i(1,2) by (simp_all add: in_project_def)
  then show ?thesis using assms(5-7) i(3) unfolding sets_agent_option_def Let_def by metis
qed

lemma insert_no_tables [simp]: "insert_tables q [] d = d"
  by (simp add: insert_tables_def)

lemma edit_agent_option_doc:
  assumes "k < length (buildRawProjectSpans ls)" "bare_key key"
  shows "sets_agent_option k key (quoteTomlString printable v) (doc_of ls) (doc_of (edit_agent_option printable k key v ls))"
proof -
  let ?sp = "buildRawProjectSpans ls ! k" and ?v = "quoteTomlString printable v"
  obtain s e where b: "block_of projects_header ls 0 (int (length ls) - 1) k = (s, e)"
      "k < length (header_lines projects_header ls 0 (int (length ls) - 1))" "?sp = project_span ls (s, e)"
    using spans_nth [OF assms(1)] .
  note f = project_facts [OF b(1,2)]
  have inv: "agent_inv ls s e ?sp" using project_span_inv(1) [OF f(1)] b(3) by simp
  have added: "sets_agent_option k key ?v (doc_of ls)
      (doc_of (upsertTomlRawKey ls' (sp_agentOptionsStart (buildRawProjectSpans ls' ! k) + 1) (sp_agentOptionsEnd (buildRawProjectSpans ls' ! k)) key ?v))"
    if "ls' = insertLines ls (table_end ls i e + 1) ([] # blk)" "s \<le> i" "i \<le> e" "isAnyTableHeader (ls ! nat i)" "starts_table blk"
      "snd (doc_of blk) = new" "new = [options_table] \<or> new = [agent_table, options_table]"
      "m < length blk" "matchTableHeader (blk ! m) agent_options_header" "\<forall>l \<in> set (take m blk). \<not> matchTableHeader l projects_header"
    for ls' i blk new m
  proof -
    note g = insert_after_table [OF _ that(3) f(4) that(4,5) header_prefixes(1)]
    have i0: "0 \<le> i" using that(2) f(1) by simp
    let ?q = "table_end ls i e + 1"
    have q: "headers_before projects_header ls ?q = Suc k" using f(6) [of ?q] g(2,3) [OF i0] that(2) by simp
    have "\<forall>l \<in> set (take (Suc m) ([] # blk)). \<not> matchTableHeader l projects_header"
      using that(10) by (auto simp: matchTableHeader_def has_prefix_def projects_header_def)
    then have "k < length (buildRawProjectSpans ls') \<and> 0 \<le> sp_agentOptionsStart (buildRawProjectSpans ls' ! k)"
      unfolding that(1) using inserted_options [OF q, of "Suc m" "[] # blk"] g(2,3) [OF i0] i0 f(3) that(8,9) by simp
    then show ?thesis
      using option_set_in_doc [of k ls' key ?v "Suc (table_pos ls i)" new "doc_of ls"] g(1,4) [OF i0] q that(1,6,7) assms(2) closed_quote
      by simp
  qed
  show ?thesis
  proof (cases "0 \<le> sp_agentOptionsStart ?sp")
    case True
    then show ?thesis
      using option_set_in_doc [OF assms(1) True assms(2) closed_quote, of 0 "[]" "doc_of ls"]
      by (simp add: edit_agent_option_def with_agent_options_def upsert_string_raw Let_def)
  next
    case none: False
    show ?thesis
    proof (cases "0 \<le> sp_agentStart ?sp")
      case True
      let ?i = "sp_agentStart ?sp"
      have i: "s \<le> ?i" "?i \<le> e" "isAnyTableHeader (ls ! nat ?i)" "sp_agentEnd ?sp = table_end ls ?i e"
        using inv True header_matches [of "ls ! nat ?i" agent_header] by (auto simp: agent_inv_def)
      have "edit_agent_option printable k key v ls =
          (let ls' = insertLines ls (table_end ls ?i e + 1) ([] # [agent_options_header]); span = buildRawProjectSpans ls' ! k
           in upsertTomlRawKey ls' (sp_agentOptionsStart span + 1) (sp_agentOptionsEnd span) key ?v)"
        using none True i(4) by (simp add: edit_agent_option_def with_agent_options_def upsert_string_raw Let_def)
      then show ?thesis
        using added [OF refl i(1-3) new_tables(2,1), of 0] headers_self(2) by (simp add: Let_def)
    next
      case False
      let ?blk = "[agent_header, claudecode_line, [], agent_options_header]"
      have s: "isAnyTableHeader (ls ! nat s)" using header_matches [OF f(5)] by simp
      have at: "agent_insert_at ls ?sp = table_end ls s e + 1"
        using agent_insert_at_end [of ?sp s e] inv by (simp add: agent_inv_def)
      have "edit_agent_option printable k key v ls =
          (let ls' = insertLines ls (table_end ls s e + 1) ([] # ?blk); span = buildRawProjectSpans ls' ! k
           in upsertTomlRawKey ls' (sp_agentOptionsStart span + 1) (sp_agentOptionsEnd span) key ?v)"
        using none False at by (simp add: edit_agent_option_def with_agent_options_def upsert_string_raw Let_def claudecode_line_def)
      moreover have "\<forall>l \<in> set (take 3 ?blk). \<not> matchTableHeader l projects_header"
        using agent_no_project(1) [OF headers_self(1)] claudecode_plain(1) header_matches [of claudecode_line projects_header]
        by (auto simp: matchTableHeader_def [of "[]"] has_prefix_def projects_header_def)
      ultimately show ?thesis
        using added [OF refl order_refl f(2) s new_tables(4,3), of 3] headers_self(2) by (simp add: Let_def)
    qed
  qed
qed

text \<open>The third instance of the interface.\<close>

definition project_tables :: "config_doc \<Rightarrow> nat" where
  "project_tables d = length (filter (\<lambda>t. matchTableHeader (fst t) projects_header) (snd d))"

lemma length_spans: "length (buildRawProjectSpans ls) = project_tables (doc_of ls)"
  using headers_before_upto [of "int (length ls)" ls projects_header] tables_of_lines [OF header_prefixes(1), of ls]
  by (simp add: buildRawProjectSpans_def Let_def project_tables_def headers_before_def)

lemma agent_headers_one_line: "one_line agent_header" "one_line agent_options_header"
  by (simp_all add: agent_header_def agent_options_header_def one_line_def)

lemma one_line_with_agent_options: "\<forall>l \<in> set ls. one_line l \<Longrightarrow> \<forall>l \<in> set (with_agent_options k ls). one_line l"
proof -
  assume a: "\<forall>l \<in> set ls. one_line l"
  have "\<forall>l \<in> set (insertLines ls at blk). one_line l" if "\<forall>l \<in> set blk. one_line l" for at blk
    by (rule one_line_insert [OF a that])
  moreover have "\<forall>l \<in> set [[], agent_header, claudecode_line, [], agent_options_header]. one_line l"
      "\<forall>l \<in> set [[], agent_options_header]. one_line l"
    using agent_headers_one_line claudecode_plain(4) by auto
  ultimately have b: "\<forall>l \<in> set (insertLines ls at [[], agent_header, claudecode_line, [], agent_options_header]). one_line l"
      "\<forall>l \<in> set (insertLines ls at [[], agent_options_header]). one_line l" for at by blast+
  show ?thesis
    using a b unfolding with_agent_options_def Let_def claudecode_line_def by (simp only: split: if_split) blast
qed

interpretation agent_edit: config_edit "edit_agent_option printable k key v"
    "sets_agent_option k key (quoteTomlString printable v)" "\<lambda>d. k < project_tables d \<and> bare_key key" for printable k key v
proof unfold_locales
  fix ls :: "string list"
  assume a: "\<forall>l \<in> set ls. one_line l" "k < project_tables (doc_of ls) \<and> bare_key key"
  then show "sets_agent_option k key (quoteTomlString printable v) (doc_of ls) (doc_of (edit_agent_option printable k key v ls))"
    by (intro edit_agent_option_doc) (simp_all add: length_spans)
  show "\<forall>l \<in> set (edit_agent_option printable k key v ls). one_line l"
    unfolding edit_agent_option_def Let_def upsert_string_raw using a
    by (intro one_line_upsert closed_quote one_line_with_agent_options) simp_all
qed

end
