(* ===== verification/ConfigPlatformProofs.thy ===== *)
theory ConfigPlatformProofs
  imports ConfigProjectProofs
begin

text \<open>
  The options table of a platform: which table of the document the spans find, that it is the first
  such table of the j-th platform of the k-th project, and that writing several options, with the
  spans computed anew after each, sets them all in that one table.
\<close>

section \<open>Platforms in the document\<close>

text \<open>The number of platform headers since the last project header.\<close>

definition platforms_since :: "'a list \<Rightarrow> ('a \<Rightarrow> string) \<Rightarrow> nat" where
  "platforms_since xs f =
     length (filter (\<lambda>x. matchTableHeader (f x) platforms_header)
       (takeWhile (\<lambda>x. \<not> matchTableHeader (f x) projects_header) (rev xs)))"

definition platform_number :: "config_doc \<Rightarrow> nat \<Rightarrow> nat" where
  "platform_number d p = platforms_since (take p (snd d)) fst"

definition has_platform :: "nat \<Rightarrow> nat \<Rightarrow> config_doc \<Rightarrow> bool" where
  "has_platform k j d \<longleftrightarrow> (\<exists>p < length (snd d). matchTableHeader (fst (snd d ! p)) platforms_header \<and>
     tables_before projects_header d p = Suc k \<and> platform_number d p = j)"

definition options_at :: "nat \<Rightarrow> nat \<Rightarrow> config_doc \<Rightarrow> nat \<Rightarrow> bool" where
  "options_at k j d p \<longleftrightarrow> p < length (snd d) \<and> matchTableHeader (fst (snd d ! p)) platform_options_header \<and>
     tables_before projects_header d p = Suc k \<and> platform_number d p = Suc j"

text \<open>The first options table of the platform.\<close>

definition first_options :: "nat \<Rightarrow> nat \<Rightarrow> config_doc \<Rightarrow> nat \<Rightarrow> bool" where
  "first_options k j d p \<longleftrightarrow> options_at k j d p \<and> (\<forall>q < p. \<not> options_at k j d q)"

text \<open>All this depends on the headers alone.\<close>

definition same_headers :: "config_doc \<Rightarrow> config_doc \<Rightarrow> bool" where
  "same_headers d d' \<longleftrightarrow> map fst (snd d) = map fst (snd d')"

lemma platforms_since_map: "platforms_since xs f = platforms_since (map f xs) id"
proof -
  have "takeWhile P (map f ys) = map f (takeWhile (\<lambda>x. P (f x)) ys)" for P ys by (induction ys) auto
  then show ?thesis by (simp add: platforms_since_def rev_map filter_map comp_def)
qed

lemma same_headers_facts:
  assumes "same_headers d d'"
  shows "tables_before h d p = tables_before h d' p" "platform_number d p = platform_number d' p"
    "options_at k j d p = options_at k j d' p" "has_platform k j d = has_platform k j d'"
    "first_options k j d p = first_options k j d' p"
proof -
  have m: "map fst (take p (snd d)) = map fst (take p (snd d'))" for p
    using assms unfolding same_headers_def by (metis take_map)
  have l: "length (snd d) = length (snd d')" using assms unfolding same_headers_def by (metis length_map)
  have n: "p < length (snd d) \<Longrightarrow> fst (snd d ! p) = fst (snd d' ! p)" for p
    using assms l unfolding same_headers_def by (metis nth_map)
  have tb: "tables_before h e p = length (filter (\<lambda>x. matchTableHeader x h) (map fst (take p (snd e))))" for e h p
    by (simp add: tables_before_def filter_map comp_def)
  then show t: "tables_before h d p = tables_before h d' p" for h p by (simp only: tb m)
  show u: "platform_number d p = platform_number d' p" for p
    using m [of p] platforms_since_map [of "take p (snd d)" fst] platforms_since_map [of "take p (snd d')" fst]
    by (simp add: platform_number_def)
  show o: "options_at k j d p = options_at k j d' p" for p using t u l n by (auto simp: options_at_def)
  show "has_platform k j d = has_platform k j d'" using t u l n by (auto simp: has_platform_def)
  show "first_options k j d p = first_options k j d' p" using o by (simp add: first_options_def)
qed

lemma same_headers_set_table: "same_headers (set_table p key v d) d"
proof -
  have "map fst (xs[p := (fst (xs ! p), y)]) = map fst xs" for xs :: "config_table list" and y
    by (cases "p < length xs") (simp_all add: map_update list_update_beyond, metis list_update_id nth_map)
  then show ?thesis by (simp add: same_headers_def set_table_def)
qed

section \<open>From lines to tables\<close>

lemma platforms_since_lines: "platforms_since (snd (doc_of ls)) fst = platforms_since ls id"
proof -
  have trim: "matchTableHeader l h \<Longrightarrow> has_prefix h ''['' \<Longrightarrow> isAnyTableHeader l" for l h by (rule header_matches)
  have m: "map fst (snd (doc_of ls)) = map trim_right_blanks (filter isAnyTableHeader ls)"
    by (induction ls) (auto simp: doc_line_def split: prod.splits)
  have "platforms_since (filter isAnyTableHeader ls) trim_right_blanks = platforms_since ls id" for ls
  proof -
    have "filter (\<lambda>x. matchTableHeader x platforms_header) (takeWhile (\<lambda>x. \<not> matchTableHeader x projects_header) (filter isAnyTableHeader ys))
        = filter (\<lambda>x. matchTableHeader x platforms_header) (takeWhile (\<lambda>x. \<not> matchTableHeader x projects_header) ys)" for ys
      using trim [of _ platforms_header] trim [of _ projects_header] by (induction ys) auto
    from this [of "rev ls"] show ?thesis by (simp add: platforms_since_def rev_filter)
  qed
  then show ?thesis
    using platforms_since_map [of "snd (doc_of ls)" fst] platforms_since_map [of "filter isAnyTableHeader ls" trim_right_blanks] m by simp
qed

text \<open>The place of a cut in front of a header or at the end.\<close>

definition cut_pos :: "string list \<Rightarrow> nat \<Rightarrow> nat" where
  "cut_pos ls i = length (filter isAnyTableHeader (take i ls))"

lemma cut_facts:
  assumes "starts_table (drop i ls)"
  shows "tables_before projects_header (doc_of ls) (cut_pos ls i) = headers_before projects_header ls (int i)"
    "platform_number (doc_of ls) (cut_pos ls i) = platforms_since (take i ls) id"
proof -
  show "tables_before projects_header (doc_of ls) (cut_pos ls i) = headers_before projects_header ls (int i)"
    by (rule tables_before_split [OF header_prefixes(1) assms cut_pos_def])
  have "doc_of (take i ls @ drop i ls) = (fst (doc_of (take i ls)), snd (doc_of (take i ls)) @ snd (doc_of (drop i ls)))"
    by (rule doc_append [OF assms])
  then have "take (cut_pos ls i) (snd (doc_of ls)) = snd (doc_of (take i ls))" by (simp add: cut_pos_def length_tables)
  then show "platform_number (doc_of ls) (cut_pos ls i) = platforms_since (take i ls) id"
    by (simp add: platform_number_def platforms_since_lines)
qed

lemma header_cut: "i < length ls \<Longrightarrow> isAnyTableHeader (ls ! i) \<Longrightarrow> starts_table (drop i ls)"
  by (simp add: starts_table_def hd_drop_conv_nth)

lemma table_pos_cut: "table_pos ls (int i) = cut_pos ls i"
  by (simp add: table_pos_def cut_pos_def)

text \<open>Every table has its header line, and tables are in the order of their lines.\<close>

lemma table_has_line: "p < length (filter P ls) \<Longrightarrow> \<exists>i < length ls. P (ls ! i) \<and> length (filter P (take i ls)) = p"
proof (induction ls rule: rev_induct)
  case (snoc x ls)
  show ?case
  proof (cases "p < length (filter P ls)")
    case True
    then obtain i where "i < length ls" "P (ls ! i)" "length (filter P (take i ls)) = p" using snoc.IH by blast
    then show ?thesis by (intro exI [of _ i]) (simp add: nth_append)
  next
    case False
    then have "P x" "p = length (filter P ls)" using snoc.prems by (auto split: if_splits)
    then show ?thesis by (intro exI [of _ "length ls"]) simp
  qed
qed simp

lemma cut_pos_mono: "i \<le> i' \<Longrightarrow> cut_pos ls i \<le> cut_pos ls i'"
proof -
  assume "i \<le> i'"
  then have "take i' ls = take i ls @ take (i' - i) (drop i ls)" by (metis le_add_diff_inverse take_add)
  then show ?thesis by (simp add: cut_pos_def)
qed

text \<open>The lines between a project header and the next.\<close>

lemma platforms_since_block:
  assumes "0 \<le> s" "matchTableHeader (ls ! nat s) projects_header"
    "\<And>j. s < j \<Longrightarrow> j \<le> e \<Longrightarrow> \<not> matchTableHeader (ls ! nat j) projects_header" "s < i" "i \<le> e + 1" "e < int (length ls)"
  shows "headers_before platforms_header ls i = headers_before platforms_header ls (s + 1) + platforms_since (take (nat i) ls) id"
proof -
  let ?mid = "map (\<lambda>j. ls ! nat j) [s + 1..i - 1]"
  have s: "take (nat s) ls = map (\<lambda>j. ls ! nat j) [0..s - 1]" using map_nth_upto [of s ls] assms by simp
  have "[0..i - 1] = [0..s - 1] @ s # [s + 1..i - 1]" using upto_split3 [of 0 s "i - 1"] assms by simp
  then have t: "take (nat i) ls = take (nat s) ls @ (ls ! nat s) # ?mid"
    using map_nth_upto [of i ls] assms s by simp
  have "\<forall>x \<in> set (rev ?mid). \<not> matchTableHeader x projects_header" using assms(3,5) by auto
  then have "takeWhile (\<lambda>x. \<not> matchTableHeader x projects_header) (rev (take (nat i) ls)) = rev ?mid"
    using assms(2) unfolding t by (simp add: takeWhile_append)
  then have "platforms_since (take (nat i) ls) id = length (header_lines platforms_header ls (s + 1) (i - 1))"
    by (simp add: platforms_since_def header_lines_def rev_map [symmetric] filter_map comp_def rev_filter [symmetric])
  then show ?thesis using headers_before_split [of "s + 1" i ls platforms_header] assms by simp
qed

section \<open>The lines of a platform\<close>

text \<open>What the scan of a platform's lines finds: the first options header, and the bounds it was given.\<close>

definition options_line :: "string list \<Rightarrow> int list \<Rightarrow> int option" where
  "options_line ls xs = find (\<lambda>i. matchTableHeader (ls ! nat i) platform_options_header) xs"

lemma scan_platform_fold:
  assumes "\<forall>x \<in> set xs. 0 \<le> x" "pls_optionsStart ps < 0"
  shows "case snd (fold (scan_platform_line ls pe) xs (b, ps)) of r \<Rightarrow>
    pls_start r = pls_start ps \<and> pls_end r = pls_end ps \<and>
    (case options_line ls xs of
       None \<Rightarrow> pls_optionsStart r = pls_optionsStart ps
     | Some o' \<Rightarrow> pls_optionsStart r = o' \<and> pls_optionsEnd r = table_end ls o' pe)"
proof -
  have keep: "pls_start (snd (fold (scan_platform_line ls pe) ys (b, ps))) = pls_start ps \<and>
      pls_end (snd (fold (scan_platform_line ls pe) ys (b, ps))) = pls_end ps \<and>
      (0 \<le> pls_optionsStart ps \<longrightarrow> pls_optionsStart (snd (fold (scan_platform_line ls pe) ys (b, ps))) = pls_optionsStart ps \<and>
        pls_optionsEnd (snd (fold (scan_platform_line ls pe) ys (b, ps))) = pls_optionsEnd ps)" for ys b ps
    by (induction ys arbitrary: b ps) (simp_all add: scan_platform_line_def Let_def)
  show ?thesis using assms
  proof (induction xs arbitrary: b ps)
    case (Cons x xs)
    obtain b' ps' where s: "scan_platform_line ls pe x (b, ps) = (b', ps')" by fastforce
    show ?case
    proof (cases "matchTableHeader (ls ! nat x) platform_options_header")
      case True
      then have "pls_optionsStart ps' = x" "pls_optionsEnd ps' = table_end ls x pe" "pls_start ps' = pls_start ps" "pls_end ps' = pls_end ps"
        using s Cons.prems by (auto simp: scan_platform_line_def Let_def split: if_splits)
      then show ?thesis using keep [of xs b' ps'] s True Cons.prems by (simp add: options_line_def)
    next
      case False
      then have "pls_optionsStart ps' = pls_optionsStart ps" "pls_start ps' = pls_start ps" "pls_end ps' = pls_end ps"
        using s by (auto simp: scan_platform_line_def Let_def split: if_splits)
      then show ?thesis using Cons.IH [of ps' b'] s False Cons.prems by (auto simp: options_line_def split: option.splits)
    qed
  qed (simp add: options_line_def)
qed

lemma platform_span_facts:
  assumes "0 \<le> ps"
  shows "pls_start (platform_span ls (ps, pe)) = ps" "pls_end (platform_span ls (ps, pe)) = pe"
    "options_line ls [ps + 1..pe] = None \<Longrightarrow> pls_optionsStart (platform_span ls (ps, pe)) < 0"
    "options_line ls [ps + 1..pe] = Some i \<Longrightarrow> pls_optionsStart (platform_span ls (ps, pe)) = i \<and>
       pls_optionsEnd (platform_span ls (ps, pe)) = table_end ls i pe"
  using scan_platform_fold [of "[ps + 1..pe]" "\<lparr>pls_start = ps, pls_end = pe, pls_typeLine = -1, pls_optionsStart = -1, pls_optionsEnd = -1\<rparr>" ls pe True] assms
  by (auto simp: platform_span_def split: option.splits)

text \<open>The bounds of the j-th platform of the k-th project, and what lies between them.\<close>

definition platform_block_of :: "nat \<Rightarrow> nat \<Rightarrow> string list \<Rightarrow> int \<times> int \<Rightarrow> bool" where
  "platform_block_of k j ls pse \<longleftrightarrow>
     (\<exists>s e. block_of projects_header ls 0 (int (length ls) - 1) k = (s, e) \<and>
        k < length (header_lines projects_header ls 0 (int (length ls) - 1)) \<and>
        j < length (header_lines platforms_header ls (s + 1) e) \<and> block_of platforms_header ls (s + 1) e j = pse)"

lemma platform_no_project: "matchTableHeader l platforms_header \<Longrightarrow> \<not> matchTableHeader l projects_header"
    "matchTableHeader l platform_options_header \<Longrightarrow> \<not> matchTableHeader l projects_header"
    "matchTableHeader l platform_options_header \<Longrightarrow> \<not> matchTableHeader l platforms_header"
proof -
  have t: "trim_space l ! 10 = h ! 10" if "matchTableHeader l h" "10 < length h" for h
    using matches_take [OF that(1)] that(2) by (metis nth_take)
  show "matchTableHeader l platforms_header \<Longrightarrow> \<not> matchTableHeader l projects_header"
    using t [of platforms_header] t [of projects_header] by (auto simp: platforms_header_def projects_header_def)
  show "matchTableHeader l platform_options_header \<Longrightarrow> \<not> matchTableHeader l projects_header"
    using matches_second [of l platform_options_header] matches_second [of l projects_header]
    by (auto simp: platform_options_header_def projects_header_def)
  show "matchTableHeader l platform_options_header \<Longrightarrow> \<not> matchTableHeader l platforms_header"
    using matches_second [of l platform_options_header] matches_second [of l platforms_header]
    by (auto simp: platform_options_header_def platforms_header_def)
qed

lemma platform_block_facts:
  assumes "platform_block_of k j ls (ps, pe)"
  shows "0 \<le> ps" "ps \<le> pe" "pe < int (length ls)" "ends_region ls pe" "matchTableHeader (ls ! nat ps) platforms_header"
    "ps < i \<Longrightarrow> i \<le> pe + 1 \<Longrightarrow> headers_before projects_header ls i = Suc k"
    "ps < i \<Longrightarrow> i \<le> pe + 1 \<Longrightarrow> platforms_since (take (nat i) ls) id = Suc j"
    "headers_before projects_header ls ps = Suc k" "platforms_since (take (nat ps) ls) id = j"
    "reloadSpan k j ls = platform_span ls (ps, pe)" "k < length (buildRawProjectSpans ls)"
    "j < length (sp_platforms (buildRawProjectSpans ls ! k))"
proof -
  obtain s e where b: "block_of projects_header ls 0 (int (length ls) - 1) k = (s, e)"
      "k < length (header_lines projects_header ls 0 (int (length ls) - 1))"
      "j < length (header_lines platforms_header ls (s + 1) e)" "block_of platforms_header ls (s + 1) e j = (ps, pe)"
    using assms by (auto simp: platform_block_of_def)
  note f = project_facts [OF b(1,2)]
  have s1: "0 \<le> s + 1" using f(1) by simp
  note g = block_facts [OF b(3) s1 f(4) header_prefixes(5) b(4)]
  have r: "ends_region ls (int (length ls) - 1)" by (simp add: ends_region_def)
  have np: "\<not> matchTableHeader (ls ! nat i) projects_header" if "s < i" "i \<le> e" for i
    using block_facts(7) [OF b(2) order_refl r header_prefixes(1) b(1)] that by simp
  show "0 \<le> ps" "ps \<le> pe" "pe < int (length ls)" "ends_region ls pe" "matchTableHeader (ls ! nat ps) platforms_header"
    using g f by simp_all
  have since: "headers_before platforms_header ls i = headers_before platforms_header ls (s + 1) + platforms_since (take (nat i) ls) id"
    if "s < i" "i \<le> e + 1" for i
    using platforms_since_block [OF f(1,5) np that f(3)] .
  show "headers_before projects_header ls ps = Suc k" "platforms_since (take (nat ps) ls) id = j"
    using f(6) [of ps] since [of ps] g by simp_all
  assume i: "ps < i" "i \<le> pe + 1"
  show "headers_before projects_header ls i = Suc k" using f(6) [of i] g i by simp
  have "headers_before platforms_header ls i = Suc (headers_before platforms_header ls ps)"
    using headers_in_block [of ps ls platforms_header pe i] g f i by simp
  then show "platforms_since (take (nat i) ls) id = Suc j" using since [of i] g i by simp
next
  obtain s e where b: "block_of projects_header ls 0 (int (length ls) - 1) k = (s, e)"
      "k < length (header_lines projects_header ls 0 (int (length ls) - 1))"
      "j < length (header_lines platforms_header ls (s + 1) e)" "block_of platforms_header ls (s + 1) e j = (ps, pe)"
    using assms by (auto simp: platform_block_of_def)
  have sp: "buildRawProjectSpans ls ! k = project_span ls (s, e)"
    using b(1,2) by (simp add: buildRawProjectSpans_def block_of_def Let_def)
  show "k < length (buildRawProjectSpans ls)" using b(2) by (simp add: buildRawProjectSpans_def Let_def)
  show "j < length (sp_platforms (buildRawProjectSpans ls ! k))" using b(3) by (simp add: sp project_span_def Let_def)
  show "reloadSpan k j ls = platform_span ls (ps, pe)"
    using b(3,4) by (simp add: reloadSpan_def sp project_span_def Let_def block_of_def)
qed

text \<open>The spans have a platform when the document has it.\<close>

lemma platform_block_exists:
  assumes "k < length (buildRawProjectSpans ls)" "j < length (sp_platforms (buildRawProjectSpans ls ! k))"
  obtains ps pe where "platform_block_of k j ls (ps, pe)"
proof -
  obtain s e where b: "block_of projects_header ls 0 (int (length ls) - 1) k = (s, e)"
      "k < length (header_lines projects_header ls 0 (int (length ls) - 1))" "buildRawProjectSpans ls ! k = project_span ls (s, e)"
    using spans_nth [OF assms(1)] .
  have "j < length (header_lines platforms_header ls (s + 1) e)" using assms(2) b(3) by (simp add: project_span_def Let_def)
  then show ?thesis using that b(1,2) unfolding platform_block_of_def by (metis surj_pair)
qed

lemma line_in_platform:
  assumes "i < length ls" "headers_before projects_header ls (int i) = Suc k" "\<not> matchTableHeader (ls ! i) projects_header"
  obtains s e where "block_of projects_header ls 0 (int (length ls) - 1) k = (s, e)"
    "k < length (header_lines projects_header ls 0 (int (length ls) - 1))" "s < int i" "int i \<le> e"
    "headers_before platforms_header ls (int i) = headers_before platforms_header ls (s + 1) + platforms_since (take i ls) id"
proof -
  obtain s e where b: "block_of projects_header ls 0 (int (length ls) - 1) k = (s, e)" by fastforce
  have z: "headers_before projects_header ls (int i) = headers_before projects_header ls 0 + Suc k"
    using assms(2) by (simp add: headers_before_def)
  have np: "\<not> matchTableHeader (ls ! nat (int i)) projects_header" using assms(3) by simp
  note l = block_of_line [OF order_refl _ _ _ z np b]
  have l: "k < length (header_lines projects_header ls 0 (int (length ls) - 1))" "s < int i" "int i \<le> e"
    using l assms(1) by simp_all
  note f = project_facts [OF b l(1)]
  have r: "ends_region ls (int (length ls) - 1)" by (simp add: ends_region_def)
  have "headers_before platforms_header ls (int i) = headers_before platforms_header ls (s + 1) + platforms_since (take (nat (int i)) ls) id"
    using block_facts(7) [OF l(1) order_refl r header_prefixes(1) b] l f
    by (intro platforms_since_block [of s ls e]) simp_all
  then show ?thesis using that [OF b l] by simp
qed

lemma has_platform_block: "has_platform k j (doc_of ls) \<Longrightarrow> \<exists>ps pe. platform_block_of k j ls (ps, pe)"
proof -
  assume "has_platform k j (doc_of ls)"
  then obtain p where p: "p < length (snd (doc_of ls))" "matchTableHeader (fst (snd (doc_of ls) ! p)) platforms_header"
      "tables_before projects_header (doc_of ls) p = Suc k" "platform_number (doc_of ls) p = j"
    by (auto simp: has_platform_def)
  obtain i where i: "i < length ls" "isAnyTableHeader (ls ! i)" "cut_pos ls i = p"
    using table_has_line [of p isAnyTableHeader ls] p(1) by (auto simp: length_tables cut_pos_def)
  have m: "matchTableHeader (ls ! i) platforms_header"
    using table_pos_facts(2) [of "int i" ls platforms_header] i p(2) by (simp add: table_pos_cut)
  have c: "headers_before projects_header ls (int i) = Suc k" "platforms_since (take i ls) id = j"
    using cut_facts [OF header_cut [OF i(1,2)]] i(3) p(3,4) by simp_all
  obtain s e where b: "block_of projects_header ls 0 (int (length ls) - 1) k = (s, e)"
      "k < length (header_lines projects_header ls 0 (int (length ls) - 1))" "s < int i" "int i \<le> e"
      "headers_before platforms_header ls (int i) = headers_before platforms_header ls (s + 1) + platforms_since (take i ls) id"
    using line_in_platform [OF i(1) c(1) platform_no_project(1) [OF m]] .
  note f = project_facts [OF b(1,2)]
  have "length (header_lines platforms_header ls (s + 1) (int i - 1)) = j"
    using headers_before_split [of "s + 1" "int i" ls platforms_header] b f(1) i(1) c(2) by simp
  moreover have "header_lines platforms_header ls (s + 1) e =
      header_lines platforms_header ls (s + 1) (int i - 1) @ int i # header_lines platforms_header ls (int i + 1) e"
    using upto_split3 [of "s + 1" "int i" e] b m by (simp add: header_lines_def)
  ultimately have "j < length (header_lines platforms_header ls (s + 1) e)" by simp
  then show ?thesis using b(1,2) unfolding platform_block_of_def by (metis surj_pair)
qed

lemma block_has_platform: "platform_block_of k j ls (ps, pe) \<Longrightarrow> has_platform k j (doc_of ls)"
proof -
  assume b: "platform_block_of k j ls (ps, pe)"
  note f = platform_block_facts [OF b]
  have h: "isAnyTableHeader (ls ! nat ps)" using header_matches [OF f(5)] by simp
  have n: "nat ps < length ls" using f(1-3) by linarith
  have "table_pos ls ps = cut_pos ls (nat ps)" using table_pos_cut [of ls "nat ps"] f(1) by simp
  then show ?thesis
    using table_pos_facts [OF f(1) _ h header_prefixes(1)] cut_facts [OF header_cut [OF n h]] f(1,5,8,9) n
    unfolding has_platform_def by (intro exI [of _ "table_pos ls ps"]) simp
qed

section \<open>The options table\<close>

lemma options_at_line:
  assumes "platform_block_of k j ls (ps, pe)" "options_at k j (doc_of ls) p"
  shows "\<exists>i. ps < int i \<and> int i \<le> pe \<and> cut_pos ls i = p \<and> matchTableHeader (ls ! i) platform_options_header"
proof -
  have p: "p < length (snd (doc_of ls))" "matchTableHeader (fst (snd (doc_of ls) ! p)) platform_options_header"
      "tables_before projects_header (doc_of ls) p = Suc k" "platform_number (doc_of ls) p = Suc j"
    using assms(2) by (auto simp: options_at_def)
  obtain i where i: "i < length ls" "isAnyTableHeader (ls ! i)" "cut_pos ls i = p"
    using table_has_line [of p isAnyTableHeader ls] p(1) by (auto simp: length_tables cut_pos_def)
  have m: "matchTableHeader (ls ! i) platform_options_header"
    using table_pos_facts(2) [of "int i" ls platforms_header] i p(2) by (simp add: table_pos_cut)
  have c: "headers_before projects_header ls (int i) = Suc k" "platforms_since (take i ls) id = Suc j"
    using cut_facts [OF header_cut [OF i(1,2)]] i(3) p(3,4) by simp_all
  obtain s e where b: "block_of projects_header ls 0 (int (length ls) - 1) k = (s, e)"
      "k < length (header_lines projects_header ls 0 (int (length ls) - 1))" "s < int i" "int i \<le> e"
      "headers_before platforms_header ls (int i) = headers_before platforms_header ls (s + 1) + platforms_since (take i ls) id"
    using line_in_platform [OF i(1) c(1) platform_no_project(2) [OF m]] .
  note f = project_facts [OF b(1,2)]
  have "block_of platforms_header ls (s + 1) e j = (ps, pe)"
    using assms(1) b(1) by (auto simp: platform_block_of_def)
  moreover have "headers_before platforms_header ls (int i) = headers_before platforms_header ls (s + 1) + Suc j" using b(5) c(2) by simp
  moreover have "\<not> matchTableHeader (ls ! nat (int i)) platforms_header" using platform_no_project(3) [OF m] by simp
  ultimately have "ps < int i" "int i \<le> pe"
    using block_of_line(2,3) [of "s + 1" "int i" e ls platforms_header j ps pe] b(3,4) f(1,3) by simp_all
  then show ?thesis using i(3) m by blast
qed

lemma block_line_options:
  assumes "platform_block_of k j ls (ps, pe)" "ps < i" "i \<le> pe" "matchTableHeader (ls ! nat i) platform_options_header"
  shows "options_at k j (doc_of ls) (table_pos ls i)"
proof -
  note f = platform_block_facts [OF assms(1)]
  have h: "isAnyTableHeader (ls ! nat i)" using header_matches [OF assms(4)] by simp
  have i: "0 \<le> i" "i < int (length ls)" "nat i < length ls" using f(1,3) assms(2,3) by linarith+
  have "table_pos ls i = cut_pos ls (nat i)" using table_pos_cut [of ls "nat i"] i(1) by simp
  then show ?thesis
    using table_pos_facts [OF i(1,2) h header_prefixes(1)] cut_facts [OF header_cut [OF i(3) h]] f(6,7) [of i] assms(2-4) i(1)
    by (simp add: options_at_def)
qed

lemma find_append_case: "find P (xs @ ys) = (case find P xs of Some x \<Rightarrow> Some x | None \<Rightarrow> find P ys)"
  by (induction xs) auto

lemma options_line_first:
  assumes "platform_block_of k j ls (ps, pe)"
  shows "options_line ls [ps + 1..pe] = Some i \<Longrightarrow> first_options k j (doc_of ls) (table_pos ls i) \<and> ps < i \<and> i \<le> pe
      \<and> isAnyTableHeader (ls ! nat i)"
    "options_line ls [ps + 1..pe] = None \<Longrightarrow> \<not> options_at k j (doc_of ls) p"
proof -
  note f = platform_block_facts [OF assms]
  assume i: "options_line ls [ps + 1..pe] = Some i"
  then have m: "ps < i" "i \<le> pe" "matchTableHeader (ls ! nat i) platform_options_header"
    by (auto simp: options_line_def dest: find_SomeD)
  have least: "\<not> matchTableHeader (ls ! nat y) platform_options_header" if "ps < y" "y < i" for y
  proof -
    have "[ps + 1..pe] = [ps + 1..i - 1] @ i # [i + 1..pe]" using upto_split3 [of "ps + 1" i pe] m by simp
    then have "find (\<lambda>x. matchTableHeader (ls ! nat x) platform_options_header) ([ps + 1..i - 1] @ i # [i + 1..pe]) = Some i"
      using i by (simp add: options_line_def)
    moreover have "i \<notin> set [ps + 1..i - 1]" by simp
    ultimately have "find (\<lambda>x. matchTableHeader (ls ! nat x) platform_options_header) [ps + 1..i - 1] = None"
      by (cases "find (\<lambda>x. matchTableHeader (ls ! nat x) platform_options_header) [ps + 1..i - 1]")
        (auto simp: find_append_case dest: find_SomeD split: option.splits)
    then show ?thesis using that by (auto simp: find_None_iff)
  qed
  have "\<not> options_at k j (doc_of ls) q" if q: "q < table_pos ls i" for q
  proof
    assume "options_at k j (doc_of ls) q"
    then obtain y where y: "ps < int y" "int y \<le> pe" "cut_pos ls y = q" "matchTableHeader (ls ! y) platform_options_header"
      using options_at_line [OF assms] by blast
    have "cut_pos ls (nat i) = table_pos ls i" using table_pos_cut [of ls "nat i"] m(1) f(1) by simp
    then have "\<not> nat i \<le> y" using cut_pos_mono [of "nat i" y ls] y(3) q by auto
    then have "int y < i" by (simp add: not_le zless_nat_eq_int_zless)
    then show False using least [of "int y"] y(1,4) by simp
  qed
  then show "first_options k j (doc_of ls) (table_pos ls i) \<and> ps < i \<and> i \<le> pe \<and> isAnyTableHeader (ls ! nat i)"
    using block_line_options [OF assms m] m header_matches [OF m(3)] by (simp add: first_options_def)
next
  assume "options_line ls [ps + 1..pe] = None"
  then have n: "\<not> matchTableHeader (ls ! nat x) platform_options_header" if "ps < x" "x \<le> pe" for x
    using that by (auto simp: options_line_def find_None_iff)
  show "\<not> options_at k j (doc_of ls) p"
  proof
    assume "options_at k j (doc_of ls) p"
    then obtain y where "ps < int y" "int y \<le> pe" "matchTableHeader (ls ! y) platform_options_header"
      using options_at_line [OF assms] by blast
    then show False using n [of "int y"] by simp
  qed
qed

lemma first_options_unique: "first_options k j d p \<Longrightarrow> first_options k j d q \<Longrightarrow> p = q"
  unfolding first_options_def by (metis linorder_neqE_nat)

text \<open>Setting one option, and setting several.\<close>

lemma set_option_doc:
  assumes "has_platform k j (doc_of ls)" "first_options k j (doc_of ls) p" "bare_key (fst kv)"
  shows "doc_of (set_option printable k j kv ls) = set_table p (fst kv) (quoteTomlString printable (snd kv)) (doc_of ls)"
proof -
  obtain ps pe where b: "platform_block_of k j ls (ps, pe)" using has_platform_block [OF assms(1)] by blast
  note f = platform_block_facts [OF b]
  obtain i where i: "options_line ls [ps + 1..pe] = Some i"
    using options_line_first(2) [OF b] assms(2) by (cases "options_line ls [ps + 1..pe]") (auto simp: first_options_def)
  note g = options_line_first(1) [OF b i]
  have "table_pos ls i = p" using g first_options_unique [OF assms(2)] by blast
  moreover have "doc_of (upsertTomlRawKey ls (i + 1) (table_end ls i pe) (fst kv) (quoteTomlString printable (snd kv))) =
      set_table (table_pos ls i) (fst kv) (quoteTomlString printable (snd kv)) (doc_of ls)"
    using g f(1) by (intro table_upsert f(4) assms(3) closed_quote) simp_all
  ultimately show ?thesis
    using platform_span_facts(4) [OF f(1) i] f(10) by (simp add: set_option_def upsert_string_raw Let_def)
qed

definition set_pairs :: "(nat \<Rightarrow> bool) \<Rightarrow> nat \<Rightarrow> (string \<times> string) list \<Rightarrow> config_doc \<Rightarrow> config_doc" where
  "set_pairs printable p kvs d = fold (\<lambda>kv. set_table p (fst kv) (quoteTomlString printable (snd kv))) kvs d"

lemma fold_set_option_doc:
  "has_platform k j (doc_of ls) \<Longrightarrow> first_options k j (doc_of ls) p \<Longrightarrow> \<forall>kv \<in> set kvs. bare_key (fst kv) \<Longrightarrow>
   doc_of (fold (set_option printable k j) kvs ls) = set_pairs printable p kvs (doc_of ls)"
proof (induction kvs arbitrary: ls)
  case (Cons kv kvs)
  let ?ls = "set_option printable k j kv ls"
  have d: "doc_of ?ls = set_table p (fst kv) (quoteTomlString printable (snd kv)) (doc_of ls)"
    using Cons.prems by (intro set_option_doc) simp_all
  then have "same_headers (doc_of ?ls) (doc_of ls)" using same_headers_set_table by simp
  then have "has_platform k j (doc_of ?ls)" "first_options k j (doc_of ?ls) p"
    using same_headers_facts [of "doc_of ?ls" "doc_of ls"] Cons.prems by simp_all
  then show ?case using Cons.IH [of ?ls] Cons.prems(3) d by (simp add: set_pairs_def)
qed (simp add: set_pairs_def)

section \<open>Adding the options table\<close>

definition platform_options_table :: config_table where
  "platform_options_table = (platform_options_header, [])"

lemma platform_options_header_trims [simp]: "trim_space platform_options_header = platform_options_header"
    "trim_right_blanks platform_options_header = platform_options_header"
  unfolding platform_options_header_def by (intro ascii_ends; simp add: byte_def)+

lemma platform_options_self: "matchTableHeader platform_options_header platform_options_header" "isAnyTableHeader platform_options_header"
proof -
  show m: "matchTableHeader platform_options_header platform_options_header" by (simp add: matchTableHeader_def has_prefix_def)
  show "isAnyTableHeader platform_options_header" using header_matches [OF m] by simp
qed

lemma take_insert_tables: "p \<le> q \<Longrightarrow> q \<le> length (snd d) \<Longrightarrow> take p (snd (insert_tables q new d)) = take p (snd d)"
  by (simp add: insert_tables_def)

lemma inserted_first:
  assumes "tables_before projects_header d q = Suc k" "platform_number d q = Suc j" "q \<le> length (snd d)" "\<And>p. \<not> options_at k j d p"
  shows "first_options k j (insert_tables q [platform_options_table] d) q"
proof -
  let ?d = "insert_tables q [platform_options_table] d"
  have nth: "p < q \<Longrightarrow> snd ?d ! p = snd d ! p" for p using assms(3) by (simp add: insert_tables_def nth_append)
  have at: "snd ?d ! q = platform_options_table" "q < length (snd ?d)" using assms(3) by (simp_all add: insert_tables_def nth_append)
  have n: "tables_before projects_header ?d p = tables_before projects_header d p" "platform_number ?d p = platform_number d p" if "p \<le> q" for p
    using take_insert_tables [OF that assms(3)] by (simp_all add: tables_before_def platform_number_def)
  have "\<not> options_at k j ?d p" if "p < q" for p
    using assms(3) assms(4) [of p] that nth [OF that] n [of p] by (auto simp: options_at_def)
  then show ?thesis
    using at n [of q] assms(1,2) platform_options_self(1) by (simp add: first_options_def options_at_def platform_options_table_def)
qed

lemma inserted_platform:
  assumes "has_platform k j d" "\<And>p. p < length (snd d) \<Longrightarrow> platform_number d p = j \<Longrightarrow> tables_before projects_header d p = Suc k \<Longrightarrow>
      matchTableHeader (fst (snd d ! p)) platforms_header \<Longrightarrow> p < q" "q \<le> length (snd d)"
  shows "has_platform k j (insert_tables q new d)"
proof -
  obtain p where p: "p < length (snd d)" "matchTableHeader (fst (snd d ! p)) platforms_header"
      "tables_before projects_header d p = Suc k" "platform_number d p = j" using assms(1) by (auto simp: has_platform_def)
  then have "p < q" using assms(2) by blast
  then show ?thesis
    using p assms(3) take_insert_tables [of p q d new] unfolding has_platform_def
    by (intro exI [of _ p]) (simp add: tables_before_def platform_number_def insert_tables_def nth_append)
qed

text \<open>A block with blank lines around it, in front of a header or at the end.\<close>

lemma insert_spaced_block:
  assumes "0 \<le> q" "q \<le> int (length ls)" "starts_table (drop (nat q) ls)" "starts_table b" "doc_of b = ([], ts)"
  shows "doc_of (insertLines ls q (spaced ls q b)) = insert_tables (cut_pos ls (nat q)) ts (doc_of ls)"
proof -
  let ?a = "take (nat q) ls" and ?c = "drop (nat q) ls"
  have c: "doc_of ls = (fst (doc_of ?a), snd (doc_of ?a) @ snd (doc_of ?c))" using doc_append [OF assms(3), of ?a] by simp
  have ih: "insertLines ls q x = ?a @ x @ ?c" for x using insert_segment [of ?a ?c x] assms(1,2) by simp
  have bl: "doc_of (z @ y) = doc_of z" if "y = [] \<or> y = [[]]" for z y :: "string list"
    using that doc_of_append [of z "[]"] doc_of_append [of z y] by (auto simp: doc_line_blank)
  have "doc_of (?a @ (x @ b @ y) @ ?c) = (fst (doc_of ?a), snd (doc_of ?a) @ ts @ snd (doc_of ?c))"
    if "x = [] \<or> x = [[]]" "y = [] \<or> y = [[]]" for x y
    using doc_append [OF assms(3), of "(?a @ x) @ b @ y"] doc_append [OF assms(4), of "?a @ x"] bl [OF that(1), of ?a]
      bl [OF that(2), of "(?a @ x) @ b"] assms(5) by simp
  then have "doc_of (insertLines ls q (spaced ls q b)) = (fst (doc_of ?a), snd (doc_of ?a) @ ts @ snd (doc_of ?c))"
    unfolding ih spaced_def by simp
  moreover have "cut_pos ls (nat q) = length (snd (doc_of ?a))" by (simp add: cut_pos_def length_tables)
  ultimately show ?thesis using c by (simp add: insert_tables_def)
qed

lemma insert_spaced_doc:
  assumes "0 \<le> q" "q \<le> int (length ls)" "starts_table (drop (nat q) ls)" "isAnyTableHeader h" "trim_right_blanks h = h"
  shows "doc_of (insertLines ls q (spaced ls q [h])) = insert_tables (cut_pos ls (nat q)) [(h, [])] (doc_of ls)"
  using assms by (intro insert_spaced_block) (simp_all add: starts_table_def doc_line_def)

lemma with_platform_options_doc:
  assumes "has_platform k j (doc_of ls)"
  shows "\<exists>q new. (new = [] \<or> new = [platform_options_table]) \<and> doc_of (with_platform_options k j ls) = insert_tables q new (doc_of ls) \<and>
    (\<exists>p. first_options k j (insert_tables q new (doc_of ls)) p) \<and> has_platform k j (insert_tables q new (doc_of ls))"
proof -
  obtain ps pe where b: "platform_block_of k j ls (ps, pe)" using has_platform_block [OF assms] by blast
  note f = platform_block_facts [OF b]
  show ?thesis
  proof (cases "options_line ls [ps + 1..pe]")
    case (Some i)
    then have "0 \<le> pls_optionsStart (reloadSpan k j ls)"
      using platform_span_facts(4) [OF f(1)] options_line_first(1) [OF b] f(1,10) by auto
    then have "with_platform_options k j ls = ls" by (simp add: with_platform_options_def Let_def)
    then show ?thesis using options_line_first(1) [OF b Some] assms by (intro exI [of _ 0] exI [of _ "[]"]) auto
  next
    case None
    let ?q = "pe + 1" and ?c = "cut_pos ls (nat (pe + 1))"
    have q: "0 \<le> ?q" "?q \<le> int (length ls)" using f(1-3) by simp_all
    have st: "starts_table (drop (nat ?q) ls)"
      using f(4) q by (auto simp: ends_region_def starts_table_def hd_drop_conv_nth nat_less_iff)
    have o: "\<not> options_at k j (doc_of ls) p" for p using options_line_first(2) [OF b None] .
    have e: "with_platform_options k j ls = insertLines ls ?q (spaced ls ?q [platform_options_header])"
      using platform_span_facts(2,3) [OF f(1)] None f(10) by (simp add: with_platform_options_def Let_def)
    then have d: "doc_of (with_platform_options k j ls) = insert_tables ?c [platform_options_table] (doc_of ls)"
      using insert_spaced_doc [OF q st platform_options_self(2)] by (simp add: platform_options_table_def)
    have c: "tables_before projects_header (doc_of ls) ?c = Suc k" "platform_number (doc_of ls) ?c = Suc j"
      using cut_facts [OF st] f(6,7) [of ?q] f(2) q by simp_all
    have len: "?c \<le> length (snd (doc_of ls))"
      unfolding cut_pos_def length_tables by (metis append_take_drop_id filter_append length_append le_add1)
    have "p < ?c" if p: "p < length (snd (doc_of ls))" "platform_number (doc_of ls) p = j" "tables_before projects_header (doc_of ls) p = Suc k" for p
    proof (rule ccontr)
      assume "\<not> p < ?c"
      then have "take p (snd (doc_of ls)) = take ?c (snd (doc_of ls)) @ take (p - ?c) (drop ?c (snd (doc_of ls)))"
        by (metis le_add_diff_inverse not_less take_add)
      then obtain zs where z: "take p (snd (doc_of ls)) = take ?c (snd (doc_of ls)) @ zs" by blast
      have "tables_before projects_header (doc_of ls) p =
          tables_before projects_header (doc_of ls) ?c + length (filter (\<lambda>t. matchTableHeader (fst t) projects_header) zs)"
        unfolding tables_before_def z by simp
      then have "\<forall>t \<in> set zs. \<not> matchTableHeader (fst t) projects_header" using p(3) c(1) by (simp add: filter_empty_conv)
      then have "takeWhile (\<lambda>t. \<not> matchTableHeader (fst t) projects_header) (rev (take p (snd (doc_of ls)))) =
          rev zs @ takeWhile (\<lambda>t. \<not> matchTableHeader (fst t) projects_header) (rev (take ?c (snd (doc_of ls))))"
        unfolding z by (simp add: takeWhile_append)
      then have "platform_number (doc_of ls) ?c \<le> platform_number (doc_of ls) p"
        by (simp add: platform_number_def platforms_since_def)
      then show False using p(2) c(2) by simp
    qed
    then have "has_platform k j (insert_tables ?c [platform_options_table] (doc_of ls))"
      using inserted_platform [OF assms _ len] by blast
    then show ?thesis using d inserted_first [OF c len o] by blast
  qed
qed

text \<open>The options of a platform, written one after the other.\<close>

definition credentials_written ::
    "(nat \<Rightarrow> bool) \<Rightarrow> nat \<Rightarrow> nat \<Rightarrow> (string \<times> string) list \<Rightarrow> config_doc \<Rightarrow> config_doc \<Rightarrow> bool" where
  "credentials_written printable k j kvs d d' \<longleftrightarrow>
     (\<exists>q new p. (new = [] \<or> new = [platform_options_table]) \<and> first_options k j (insert_tables q new d) p \<and>
        d' = set_pairs printable p kvs (insert_tables q new d))"

lemma set_options_doc:
  assumes "has_platform k j (doc_of ls)" "\<forall>kv \<in> set kvs. bare_key (fst kv)"
  shows "credentials_written printable k j kvs (doc_of ls) (doc_of (set_options printable k j kvs ls))"
proof -
  obtain q new p where w: "new = [] \<or> new = [platform_options_table]"
      "doc_of (with_platform_options k j ls) = insert_tables q new (doc_of ls)"
      "first_options k j (insert_tables q new (doc_of ls)) p" "has_platform k j (insert_tables q new (doc_of ls))"
    using with_platform_options_doc [OF assms(1)] by blast
  then have "doc_of (set_options printable k j kvs ls) = set_pairs printable p kvs (insert_tables q new (doc_of ls))"
    using fold_set_option_doc [of k j "with_platform_options k j ls" p kvs printable] assms(2) by (simp add: set_options_def)
  then show ?thesis using w unfolding credentials_written_def by blast
qed

lemma one_line_set_option: "bare_key (fst kv) \<Longrightarrow> \<forall>l \<in> set ls. one_line l \<Longrightarrow> \<forall>l \<in> set (set_option printable k j kv ls). one_line l"
  unfolding set_option_def Let_def upsert_string_raw by (intro one_line_upsert closed_quote)

lemma one_line_set_options: "\<forall>kv \<in> set kvs. bare_key (fst kv) \<Longrightarrow> \<forall>l \<in> set ls. one_line l \<Longrightarrow>
    \<forall>l \<in> set (set_options printable k j kvs ls). one_line l"
proof -
  assume a: "\<forall>kv \<in> set kvs. bare_key (fst kv)" "\<forall>l \<in> set ls. one_line l"
  have fold: "\<forall>kv \<in> set kvs. bare_key (fst kv) \<Longrightarrow> \<forall>l \<in> set ls. one_line l \<Longrightarrow>
      \<forall>l \<in> set (fold (set_option printable k j) kvs ls). one_line l" for ls
  proof (induction kvs arbitrary: ls)
    case (Cons kv kvs)
    have "\<forall>l \<in> set (set_option printable k j kv ls). one_line l" using Cons.prems by (intro one_line_set_option) simp_all
    then show ?case using Cons.IH [of "set_option printable k j kv ls"] Cons.prems(1) by simp
  qed simp
  have "\<forall>l \<in> set (spaced ls at [platform_options_header]). one_line l" for at
    by (auto simp: spaced_def platform_options_header_def one_line_def split: if_splits)
  then have "\<forall>l \<in> set (insertLines ls at (spaced ls at [platform_options_header])). one_line l" for at
    by (rule one_line_insert [OF a(2)])
  then have "\<forall>l \<in> set (with_platform_options k j ls). one_line l"
    using a(2) unfolding with_platform_options_def Let_def by (simp only: split: if_split) blast
  then show ?thesis unfolding set_options_def using fold [OF a(1)] by blast
qed

text \<open>The fourth instance of the interface.\<close>

interpretation options_edit: config_edit "set_options printable k j kvs" "credentials_written printable k j kvs"
    "\<lambda>d. has_platform k j d \<and> (\<forall>kv \<in> set kvs. bare_key (fst kv))" for printable k j kvs
  by unfold_locales (auto intro: set_options_doc dest: one_line_set_options)

end
