(* ===== verification/ConfigAllowList.thy ===== *)
theory ConfigAllowList
  imports ConfigPlatforms
begin

text \<open>
  Adding a user to a list of allowed users (\<open>mergeAllowFromValue\<close>), and whom the list admits before and
  after (\<open>AllowList\<close> of \<open>core/message.go\<close>).
\<close>

section \<open>Trimmed texts\<close>

lemma decode_rune_ascii_next:
  assumes "bs \<noteq> []" "b < 128"
  shows "decode_rune (take 4 (bs @ b # ds)) = decode_rune (take 4 bs)"
proof -
  have c: "\<not> cont b" "\<not> second_ok x b" for x using assms(2) by (auto simp: cont_def second_ok_def)
  consider x where "bs = [x]" | x y where "bs = [x, y]" | x y z where "bs = [x, y, z]" | x y z u us where "bs = x # y # z # u # us"
    using assms(1) by (cases bs; cases "tl bs"; cases "tl (tl bs)"; cases "tl (tl (tl bs))") auto
  then show ?thesis
    by cases (simp_all add: c split: list.splits)
qed

lemma segs_append_ascii: "byte c < 128 \<Longrightarrow> segs (s @ c # r) = segs s @ (byte c, [c]) # segs r"
proof (induction s rule: segs.induct)
  case (1 s)
  show ?case
  proof (cases "s = []")
    case True
    then show ?thesis using 1(2) by (simp add: segs_ascii)
  next
    case False
    obtain q w where rw: "decode_rune (map byte (take 4 s)) = (q, w)" by fastforce
    have w: "max 1 w \<le> length s"
      using decode_rune_width [of "map byte (take 4 s)"] rw False by (cases s) auto
    have "map byte (take 4 (s @ c # r)) = take 4 (map byte s @ byte c # map byte r)"
      by (metis list.simps(9) map_append take_map)
    then have "decode_rune (map byte (take 4 (s @ c # r))) = (q, w)"
      using decode_rune_ascii_next [of "map byte s" "byte c" "map byte r"] False 1(2) rw by (simp only: take_map) simp
    then have "segs (s @ c # r) = (q, take (max 1 w) s) # segs (drop (max 1 w) s @ c # r)"
      using segs_step [of "s @ c # r" q w] w by simp
    then show ?thesis using 1(1) [OF False rw [symmetric] refl] 1(2) rw segs_step [OF False rw] by simp
  qed
qed

definition trimmed :: "string \<Rightarrow> bool" where
  "trimmed s \<longleftrightarrow> s \<noteq> [] \<and> \<not> is_space (fst (hd (segs s))) \<and> \<not> is_space (fst (last (segs s)))"

lemma segs_nonempty: "s \<noteq> [] \<Longrightarrow> segs s \<noteq> []"
  by (subst segs.simps) (simp add: Let_def split: prod.splits)

lemma trimmed_iff: "trimmed s \<longleftrightarrow> s \<noteq> [] \<and> trim_space s = s"
proof (cases "s = []")
  case False
  let ?P = "is_space \<circ> fst :: nat \<times> string \<Rightarrow> bool" and ?x = "segs s"
  have x: "?x \<noteq> []" using segs_nonempty [OF False] .
  show ?thesis
  proof
    assume t: "trimmed s"
    then have "dropWhile ?P ?x = ?x" using x by (cases ?x) (auto simp: trimmed_def)
    moreover from this have "dropWhile ?P (rev ?x) = rev ?x" using t x by (cases ?x rule: rev_cases) (auto simp: trimmed_def)
    ultimately show "s \<noteq> [] \<and> trim_space s = s" using False concat_segs [of s] by (simp add: trim_space_def)
  next
    assume "s \<noteq> [] \<and> trim_space s = s"
    then have e: "?x = rev (dropWhile ?P (rev (dropWhile ?P ?x)))" using segs_trim_space [of s] by simp
    then have "length ?x \<le> length (dropWhile ?P ?x)"
      using length_dropWhile_le [of ?P "rev (dropWhile ?P ?x)"] by (metis length_rev)
    then have f: "dropWhile ?P ?x = ?x" using takeWhile_dropWhile_id [of ?P ?x] by (metis append_self_conv2 le_antisym length_append length_dropWhile_le add_cancel_left_left length_0_conv)
    have "dropWhile ?P (rev ?x) = rev ?x" using arg_cong [OF e, of rev] by (simp only: rev_rev_ident f)
    then have "\<not> ?P (hd ?x)" "\<not> ?P (hd (rev ?x))" using f x by (metis hd_dropWhile, metis hd_dropWhile rev_is_Nil_conv)
    then show "trimmed s" using False x by (simp add: trimmed_def hd_rev)
  qed
qed (simp add: trimmed_def)

lemma trimmed_append: "byte c < 128 \<Longrightarrow> trimmed p \<Longrightarrow> trimmed q \<Longrightarrow> trimmed (p @ c # q)"
  by (auto simp: trimmed_def segs_append_ascii segs_nonempty)

lemma trimmed_join: "byte c < 128 \<Longrightarrow> ps \<noteq> [] \<Longrightarrow> \<forall>p \<in> set ps. trimmed p \<Longrightarrow> trimmed (join [c] ps)"
  by (induction "[c]" ps rule: join.induct) (auto intro: trimmed_append)

section \<open>Whom a list admits\<close>

text \<open>The users in a list: its parts without the white space around them.\<close>

definition listed :: "string \<Rightarrow> string set" where
  "listed allowFrom = {trim_space p | p. p \<in> set (split_all (CHR '','') allowFrom)} - {[]}"

lemma AllowList_listed:
  assumes "trimmed allowFrom" "allowFrom \<noteq> ''*''" "x \<noteq> []"
  shows "AllowList allowFrom x \<longleftrightarrow> (\<exists>u \<in> listed allowFrom. equal_fold u x)"
proof -
  have "\<not> equal_fold [] x" using assms(3) by (simp add: equal_fold_def to_lower_def)
  moreover have "trim_space allowFrom = allowFrom" "allowFrom \<noteq> []" using assms(1) by (auto simp: trimmed_iff)
  ultimately show ?thesis using assms(2) by (auto simp: AllowList_def listed_def list_ex_iff)
qed

text \<open>The loop collects the parts, each once, unless one of them is the wildcard.\<close>

lemma merge_parts_spec:
  "merge_parts ps (m, s) = Some (m', s') \<Longrightarrow> set m = s \<Longrightarrow> \<forall>p \<in> s. trimmed p \<Longrightarrow> ''*'' \<notin> s \<Longrightarrow>
   (''*'' \<notin> trim_space ` set ps \<and> set m' = s' \<and> s' = s \<union> (trim_space ` set ps - {[]}) \<and> (\<forall>p \<in> s'. trimmed p))"
proof (induction ps arbitrary: m s)
  case (Cons p ps)
  have nw: "m \<noteq> [''*'']" using Cons.prems(2,4) by auto
  have tr: "trim_space p \<noteq> [] \<Longrightarrow> trimmed (trim_space p)" by (simp add: trimmed_iff)
  consider "trim_space p = []" | "trim_space p = ''*''" | "trim_space p \<noteq> []" "trim_space p \<noteq> ''*''" "trim_space p \<in> s"
    | "trim_space p \<noteq> []" "trim_space p \<noteq> ''*''" "trim_space p \<notin> s" by blast
  then show ?case
  proof cases
    case 2
    then have "merge_parts (p # ps) (m, s) = merge_parts ps ([''*''], s)" using nw by (simp add: appendPart_def)
    moreover have "merge_parts ps ([''*''], s) = None" by (cases ps) auto
    ultimately show ?thesis using Cons.prems(1) by simp
  next
    case 4
    then have "merge_parts ps (m @ [trim_space p], insert (trim_space p) s) = Some (m', s')"
      using Cons.prems(1) nw by (simp add: appendPart_def Let_def)
    from Cons.IH [OF this] show ?thesis using Cons.prems(2-4) 4 tr by auto
  qed (use Cons nw in \<open>auto simp: appendPart_def Let_def\<close>)
qed (auto split: if_splits)

lemma merge_parts_some: "''*'' \<notin> trim_space ` set ps \<Longrightarrow> ''*'' \<notin> set m \<Longrightarrow> \<exists>r. merge_parts ps (m, s) = Some r"
proof (induction ps arbitrary: m s)
  case (Cons p ps)
  then show ?case by (cases "m = [''*'']") (auto simp: appendPart_def Let_def simp del: split_paired_Ex)
qed auto

lemma merge_parts_wildcard: "''*'' \<in> trim_space ` set ps \<Longrightarrow> set m = s \<Longrightarrow> \<forall>p \<in> s. trimmed p \<Longrightarrow> ''*'' \<notin> s \<Longrightarrow> merge_parts ps (m, s) = None"
  using merge_parts_spec [of ps m s] by (cases "merge_parts ps (m, s)") (auto simp del: merge_parts.simps)

lemma split_part_no_comma: "p \<in> set (split_all (CHR '','') a) \<Longrightarrow> CHR '','' \<notin> set (trim_space p)"
  using split_all_parts set_trim_space by blast

lemma merged_list:
  assumes "trimmed current" "trimmed user" "CHR '','' \<notin> set user" "user \<noteq> ''*''" "current \<noteq> ''*''"
    "''*'' \<notin> listed current"
  shows "trimmed (mergeAllowFromValue current user)" "mergeAllowFromValue current user \<noteq> ''*''"
    "listed (mergeAllowFromValue current user) = insert user (listed current)"
proof -
  let ?ps = "split_all (CHR '','') current"
  have t: "trim_space current = current" "trim_space user = user" "current \<noteq> []" "user \<noteq> []"
    using assms(1,2) by (auto simp: trimmed_iff)
  have nw: "''*'' \<notin> trim_space ` set ?ps" using assms(6) by (auto simp: listed_def)
  have "\<exists>r. merge_parts ?ps ([], {}) = Some r" using merge_parts_some [OF nw] by simp
  then obtain m s where ms: "merge_parts ?ps ([], {}) = Some (m, s)" using nw by (metis empty_set empty_iff surj_pair)
  then have spec: "set m = s" "s = trim_space ` set ?ps - {[]}" "\<forall>p \<in> s. trimmed p"
    using merge_parts_spec [OF ms] by auto
  let ?m = "fst (appendPart user (m, s))"
  have um: "set ?m = insert user s" "?m \<noteq> []" using spec(1) t(2,4) assms(4) by (auto simp: appendPart_def Let_def)
  have nw': "?m \<noteq> [''*'']"
  proof
    assume "?m = [''*'']"
    then have "user = ''*''" using um(1) by auto
    then show False using assms(4) by simp
  qed
  have e: "mergeAllowFromValue current user = join '','' ?m"
    using t assms(5) ms nw' by (simp add: mergeAllowFromValue_def Let_def)
  have parts: "\<forall>p \<in> set ?m. trimmed p" "\<forall>p \<in> set ?m. CHR '','' \<notin> set p"
    using um(1) spec(2,3) assms(2,3) split_part_no_comma by auto
  have comma: "byte (CHR '','') < 128" by (simp add: byte_def)
  show "trimmed (mergeAllowFromValue current user)" unfolding e using trimmed_join [OF comma um(2) parts(1)] .
  have sp: "split_all (CHR '','') (join '','' ?m) = ?m" by (rule split_all_join [OF um(2) parts(2)])
  show "mergeAllowFromValue current user \<noteq> ''*''"
  proof
    assume "mergeAllowFromValue current user = ''*''"
    then have "?m = split_all (CHR '','') ''*''" using e sp by simp
    then show False using nw' by (simp add: split_all_absent)
  qed
  have "trim_space ` set ?m - {[]} = set ?m" using parts(1) by (auto simp: trimmed_iff image_iff)
  then have "listed (mergeAllowFromValue current user) = set ?m" unfolding e listed_def sp by auto
  then show "listed (mergeAllowFromValue current user) = insert user (listed current)"
    using um(1) spec(2) by (auto simp: listed_def)
qed

end
