(* ===== verification/ConfigProperties.thy ===== *)
theory ConfigProperties
  imports ConfigProjectProofs
begin

text \<open>
  Properties of editing and formatting \<open>config.toml\<close>: what is saved, that nothing else of the document
  changes, what a failed write leaves, and what the line-based code does to texts it misreads.
\<close>

section \<open>Formatting\<close>

text \<open>
  C15. Formatting a configuration twice is formatting it once, and it keeps the document: every content
  line and every header with content, in their order and under their header, less white space at the
  ends of lines.
\<close>

theorem formatting_keeps_content:
  "formatTOML (formatTOML raw) = formatTOML raw \<and> config_doc (formatTOML raw) = drop_empty_tables (config_doc raw)"
  by (simp add: format_twice format_keeps_doc)

lemma has_content_adjacent: "isAnyTableHeader x \<Longrightarrow> isAnyTableHeader y \<Longrightarrow> has_content (a @ x # y # b) = has_content (a @ y # b)"
  by (induction a) auto

lemma emit_adjacent: "isAnyTableHeader x \<Longrightarrow> isAnyTableHeader y \<Longrightarrow> emit (a @ x # y # b) pb st = emit (a @ y # b) pb st"
proof (induction a arbitrary: pb st)
  case (Cons l a)
  then show ?case using has_content_adjacent [of x y a b] by simp
qed simp

text \<open>
  C16. The formatter takes every line that begins with a bracket for a header: of two such lines one
  after the other the first is deleted, whatever they are. Rows of a nested array and lines of a
  multi-line string disappear with the next edit of any setting.
\<close>

theorem formatting_deletes_bracket_lines:
  assumes "isAnyTableHeader x" "isAnyTableHeader y" "\<forall>l \<in> set (a @ x # y # b). one_line l"
  shows "formatTOML (join [newline] (a @ x # y # b)) = formatTOML (join [newline] (a @ y # b))"
proof -
  have "split_all newline (join [newline] (a @ x # y # b)) = a @ x # y # b"
    using assms(3) by (intro split_all_join) (auto simp: one_line_def)
  moreover have "split_all newline (join [newline] (a @ y # b)) = a @ y # b"
    using assms(3) by (intro split_all_join) (auto simp: one_line_def)
  ultimately show ?thesis using emit_adjacent [OF assms(1,2)] by (simp add: formatTOML_def format_list_emit)
qed

lemma bracket_row: "isAnyTableHeader (''[1, 2],'')" "isAnyTableHeader (''[3, 4]'')"
proof -
  have "trim_space ''[1, 2],'' = ''[1, 2],''" "trim_space ''[3, 4]'' = ''[3, 4]''"
    by (intro trim_space_ascii; simp add: byte_def is_space_def)+
  then show "isAnyTableHeader (''[1, 2],'')" "isAnyTableHeader (''[3, 4]'')" by (simp_all add: isAnyTableHeader_def has_prefix_def)
qed

theorem formatting_deletes_bracket_lines_witness:
  "formatTOML (join [newline] [''grid = ['', ''[1, 2],'', ''[3, 4]'', '']'']) = formatTOML (join [newline] [''grid = ['', ''[3, 4]'', '']''])"
  using formatting_deletes_bracket_lines [OF bracket_row, of "[''grid = ['']" "['']'']"] by (simp add: one_line_def)

section \<open>Fields at the top\<close>

lemma write_lines_path: "write_lines fault raw edit st = (st', r) \<Longrightarrow> ConfigPath st' = ConfigPath st"
  by (auto simp: write_lines_def writeRawConfig_def split: option.splits write_fault.splits prod.splits)


lemma language_bare: "bare_key ''language''"
  by (simp add: bare_key_def bare_byte_def byte_def)

text \<open>A file of one line, with a comment.\<close>

definition sample_line :: string where
  "sample_line = key_line ''language'' ([dquote] @ ''en'' @ [dquote]) @ '' # ours''"

definition sample_config :: config_state where
  "sample_config = \<lparr>ConfigPath = ''config.toml'', cfg_File = Some (join [newline] [sample_line] @ [newline]), cfg_Temps = 0\<rparr>"

lemma sample_doc: "config_doc (join [newline] [sample_line] @ [newline]) = ([sample_line], [])"
proof -
  have "one_line sample_line" by (simp add: sample_line_def key_line_def)
  then have "config_doc (join [newline] [sample_line] @ [newline]) = doc_of [sample_line]" by (intro config_doc_written) simp
  moreover have "trim_right_blanks sample_line = sample_line"
    using trim_right_blanks_snoc [of "key_line ''language'' ([dquote] @ ''en'' @ [dquote]) @ '' # our''" "CHR ''s''"]
    by (simp add: sample_line_def is_blank_byte_def)
  ultimately show ?thesis
    using key_line_matches(2,3) [OF language_bare, of "[]"] by (simp add: doc_line_def sample_line_def)
qed

lemma sample_key: "key_of ''language'' [sample_line] = Some sample_line"
  using key_line_matches(1) [OF language_bare, of "[]"] by (simp add: key_of_def sample_line_def)


text \<open>Only the last of several values is left.\<close>

lemma set_top_twice: "bare_key key \<Longrightarrow> closed_value v \<Longrightarrow> set_top key w (drop_empty_tables (set_top key v d)) = drop_empty_tables (set_top key w d)"
  by (simp add: set_top_def drop_empty_tables_def set_key_twice)

section \<open>Sections\<close>

definition display_change :: "(string \<times> string option) list \<Rightarrow> config_doc \<Rightarrow> config_doc" where
  "display_change kvs d =
     fold (\<lambda>(key, v) d. case v of None \<Rightarrow> d | Some v \<Rightarrow> drop_empty_tables (set_section ''display'' key v d)) kvs d"

lemma display_bare: "bare_key ''display''"
  by (simp add: bare_key_def bare_byte_def byte_def)

lemma patch_fields_saved:
  assumes "patch_fields kvs faults ''display'' st = (st', None)" "cfg_File st = Some raw"
    "\<forall>(key, v) \<in> set kvs. bare_key key \<and> (\<forall>x. v = Some x \<longrightarrow> closed_value x)"
  shows "\<exists>f. cfg_File st' = Some f \<and> config_doc f = display_change kvs (config_doc raw)"
  using assms
proof (induction kvs faults "''display'' :: string" st arbitrary: raw rule: patch_fields.induct)
  case (1 faults st)
  then show ?case by (simp add: display_change_def)
next
  case (2 key fs faults st)
  then show ?case by (simp add: display_change_def)
next
  case (3 key v fs faults st)
  let ?f = "case faults of f # _ \<Rightarrow> f | [] \<Rightarrow> None"
  obtain st1 where s1: "patchSectionField ?f ''display'' key v st = (st1, None)" "patch_fields fs (tl faults) ''display'' st1 = (st', None)"
    using "3.prems"(1) by (auto split: prod.splits option.splits)
  then have "write_lines ?f raw (edit_section ''display'' key v) st = (st1, None)"
    using "3.prems"(2) by (auto simp: patchSectionField_def read_config_def split: sum.splits if_splits)
  then obtain g where g: "st1 = st\<lparr>cfg_File := Some g\<rparr>" "config_doc g = drop_empty_tables (set_section ''display'' key v (config_doc raw))"
    using section_edit.written [of ?f raw "''display''" key v st st1] "3.prems"(3) display_bare by auto
  then obtain f where "cfg_File st' = Some f" "config_doc f = display_change fs (config_doc g)"
    using "3.hyps" [OF s1(1) [symmetric] refl, of g] s1(2) "3.prems"(3) by auto
  then show ?case using g(2) by (simp add: display_change_def)
qed

lemma bare_closed: "v \<noteq> [] \<Longrightarrow> list_all bare_byte v \<Longrightarrow> closed_value v"
  using bare_key_scan [of v] bare_key_one_line [of v]
  by (cases v rule: rev_cases) (auto simp: closed_value_def dest: bare_byte_other)

lemma bare_digits: "list_all is_digit s \<Longrightarrow> list_all bare_byte s"
  by (induction s) (auto simp: is_digit_def bare_byte_def)

lemma closed_itoa: "closed_value (itoa i)"
  using dec_nat_digits [of "nat i"] dec_nat_digits [of "nat (- i)"] bare_digits
  by (intro bare_closed) (auto simp: itoa_def bare_byte_def byte_def)

lemma closed_bool: "closed_value (shown_bool b)"
  by (intro bare_closed) (simp_all add: shown_bool_def bare_byte_def byte_def)

lemma display_fields_ok:
  "\<forall>(key, v) \<in> set (display_fields printable m a b c d). bare_key key \<and> (\<forall>x. v = Some x \<longrightarrow> closed_value x)"
  by (auto simp: display_fields_def closed_itoa closed_bool closed_quote bare_key_def bare_byte_def byte_def)

text \<open>
  Saving the display settings sets each given field in the first table \<open>[display]\<close>, or in a new
  one in front of the other tables, one after the other, and changes no other line of the document.
\<close>

theorem display_settings_saved:
  assumes "SaveDisplayConfig printable faults m a b c d st = (st', None)" "cfg_File st = Some raw"
  shows "\<exists>f. cfg_File st' = Some f \<and> config_doc f = display_change (display_fields printable m a b c d) (config_doc raw)"
  using patch_fields_saved [OF assms(1) [unfolded SaveDisplayConfig_def] assms(2) display_fields_ok] .

lemma write_lines_ok: "\<exists>f. write_lines None raw edit st = (st\<lparr>cfg_File := Some f\<rparr>, None)"
  by (cases "splitConfigLines raw") (auto simp: write_lines_def writeRawConfig_def)

lemma patch_section_ok: "ConfigPath st \<noteq> [] \<Longrightarrow> cfg_File st = Some raw \<Longrightarrow>
    \<exists>f. patchSectionField None name key v st = (st\<lparr>cfg_File := Some f\<rparr>, None)"
  using write_lines_ok by (simp add: patchSectionField_def read_config_def)

lemma patch_fields_ok: "ConfigPath st \<noteq> [] \<Longrightarrow> cfg_File st = Some raw \<Longrightarrow> \<exists>st'. patch_fields kvs [] name st = (st', None)"
proof (induction kvs arbitrary: st raw)
  case (Cons kv kvs)
  obtain key v where kv: "kv = (key, v)" by fastforce
  show ?case
  proof (cases v)
    case (Some x)
    obtain f where f: "patchSectionField None name key x st = (st\<lparr>cfg_File := Some f\<rparr>, None)"
      using patch_section_ok [OF Cons.prems] by blast
    have "\<exists>st'. patch_fields kvs [] name (st\<lparr>cfg_File := Some f\<rparr>) = (st', None)" using Cons.prems by (intro Cons.IH [of _ f]) simp_all
    then show ?thesis using kv Some f by simp
  qed (use Cons kv in simp)
qed simp

theorem display_settings_saved_witness:
  "\<exists>f. cfg_File (fst (SaveDisplayConfig (\<lambda>_. True) [] (Some ''quiet'') (Some False) None (Some (-1)) None sample_config)) = Some f \<and>
    config_doc f = display_change (display_fields (\<lambda>_. True) (Some ''quiet'') (Some False) None (Some (-1)) None) ([sample_line], [])"
proof -
  obtain st' where "SaveDisplayConfig (\<lambda>_. True) [] (Some ''quiet'') (Some False) None (Some (-1)) None sample_config = (st', None)"
    using patch_fields_ok [of sample_config "join [newline] [sample_line] @ [newline]"] by (auto simp: SaveDisplayConfig_def sample_config_def)
  then show ?thesis
    using display_settings_saved [of "\<lambda>_. True" "[]" "Some ''quiet''" "Some False" None "Some (-1)" None sample_config st'] sample_doc
    by (simp add: sample_config_def del: join.simps)
qed

section \<open>Options of an agent\<close>


text \<open>A file of one project, and what decoding it gives.\<close>

definition project_config_text :: string where
  "project_config_text = join [newline] [projects_header] @ [newline]"

definition one_project :: toml_config where
  "one_project = \<lparr>tc_Projects = [\<lparr>prc_Name = ''demo'', prc_Agent = \<lparr>ac_Type = ''codex'', ac_Options = [], ac_Providers = [], ac_ProviderRefs = []\<rparr>,
     prc_Platforms = []\<rparr>], tc_Providers = []\<rparr>"

definition sample_decode :: "string \<Rightarrow> toml_config option" where
  "sample_decode raw = (if raw = project_config_text then Some one_project else None)"

definition project_state :: config_state where
  "project_state = \<lparr>ConfigPath = ''config.toml'', cfg_File = Some project_config_text, cfg_Temps = 0\<rparr>"

lemma projects_header_trims [simp]: "trim_space projects_header = projects_header" "trim_right_blanks projects_header = projects_header"
  unfolding projects_header_def by (intro ascii_ends; simp add: byte_def)+

lemma projects_header_self: "matchTableHeader projects_header projects_header" "isAnyTableHeader projects_header"
  by (simp_all add: matchTableHeader_def isAnyTableHeader_def has_prefix_def) (simp add: projects_header_def)

lemma project_text_doc: "config_doc project_config_text = ([], [(projects_header, [])])"
proof -
  have "one_line projects_header" by (simp add: projects_header_def one_line_def)
  then have "config_doc project_config_text = doc_of [projects_header]"
    unfolding project_config_text_def by (intro config_doc_written) simp
  then show ?thesis using projects_header_self by (simp add: doc_line_def)
qed


section \<open>Failed writes\<close>

definition keeps_on_error :: "(config_state \<Rightarrow> config_state \<times> config_error option) \<Rightarrow> bool" where
  "keeps_on_error save \<longleftrightarrow> (\<forall>st st' e. save st = (st', Some e) \<longrightarrow> cfg_File st' = cfg_File st)"

definition keeps_on_failure :: "(config_state \<Rightarrow> config_state \<times> 'a reply) \<Rightarrow> bool" where
  "keeps_on_failure save \<longleftrightarrow> (\<forall>st st' e. save st = (st', Failed e) \<longrightarrow> cfg_File st' = cfg_File st)"

lemmas failure_splits = sum.splits prod.splits option.splits if_splits

lemma top_level_keeps: "keeps_on_error (patchTopLevelField printable fault key v)"
  by (auto simp: keeps_on_error_def patchTopLevelField_def dest: failed_write_keeps_file split: failure_splits)

lemma section_keeps: "keeps_on_error (patchSectionField fault name key v)"
  by (auto simp: keeps_on_error_def patchSectionField_def dest: failed_write_keeps_file split: failure_splits)

lemma agent_option_keeps: "keeps_on_error (patchProjectAgentOption decode printable fault name key v)"
  by (auto simp: keeps_on_error_def patchProjectAgentOption_def dest: failed_write_keeps_file split: failure_splits)

lemma provider_model_keeps: "keeps_on_error (SaveProviderModel decode printable fault name provider model)"
  by (auto simp: keeps_on_error_def SaveProviderModel_def patchGlobalProviderField_def Let_def
      dest: failed_write_keeps_file split: failure_splits)

lemma write_credentials_failed: "write_credentials fault raw edit res st = (st', Failed e) \<Longrightarrow> cfg_File st' = cfg_File st"
  by (auto simp: write_credentials_def dest: failed_write_keeps_file split: failure_splits)

lemma credentials_keep:
  "keeps_on_failure (SaveFeishuPlatformCredentials decode printable fault fu)"
  "keeps_on_failure (SaveWeixinPlatformCredentials decode printable fault wu)"
  "keeps_on_failure (SaveYuanbaoPlatformCredentials decode printable fault yu)"
  by (auto simp: keeps_on_failure_def SaveFeishuPlatformCredentials_def SaveWeixinPlatformCredentials_def
      SaveYuanbaoPlatformCredentials_def Let_def dest: write_credentials_failed split: sum.splits prod.splits if_splits)

lemma ensure_platform_failed: "ensure_platform decode printable fault present line t created opts st = (st', Failed e) \<Longrightarrow>
    (\<And>cfg. created cfg \<noteq> Failed e) \<Longrightarrow> cfg_File st' = cfg_File st"
  by (auto simp: ensure_platform_def Let_def dest: failed_write_keeps_file split: failure_splits)

lemma provisioning_keeps:
  "keeps_on_failure (EnsureProjectWithFeishuPlatform decode printable fault eo)"
  "keeps_on_failure (EnsureProjectWithWeixinPlatform decode printable fault eo)"
  "keeps_on_failure (EnsureProjectWithYuanbaoPlatform decode printable fault eo)"
  by (auto simp: keeps_on_failure_def EnsureProjectWithFeishuPlatform_def EnsureProjectWithWeixinPlatform_def
      EnsureProjectWithYuanbaoPlatform_def feishu_created_def appended_created_def Let_def dest: ensure_platform_failed split: if_splits)


end
