(* ===== verification/ConfigCredentials.thy ===== *)
theory ConfigCredentials
  imports ConfigPlatformProofs ConfigAllowList ConfigProperties ConfigProvision
begin

text \<open>
  What setting up a platform writes: the type of the platform, its credentials in one options table
  of that platform, and the user added to the list of allowed users; and the answer of a setup that
  adds the first project.
\<close>

section \<open>The type of a platform\<close>

text \<open>The key replaced where it is, or a new line in front.\<close>

definition set_type :: "nat \<Rightarrow> string \<Rightarrow> config_doc \<Rightarrow> config_doc" where
  "set_type p v d =
     (if key_of ''type'' (snd (snd d ! p)) = None
      then (fst d, (snd d)[p := (fst (snd d ! p), key_line ''type'' v # snd (snd d ! p))])
      else set_table p ''type'' v d)"

definition type_line_at :: "string list \<Rightarrow> int list \<Rightarrow> int option" where
  "type_line_at ls xs = find (\<lambda>i. matchTomlStringKey (ls ! nat i) ''type'') (takeWhile (\<lambda>i. \<not> isAnyTableHeader (ls ! nat i)) xs)"

lemma scan_type_keep: "\<not> b \<or> 0 \<le> pls_typeLine ps \<Longrightarrow>
    pls_typeLine (snd (fold (scan_platform_line ls pe) xs (b, ps))) = pls_typeLine ps"
  by (induction xs arbitrary: b ps) (auto simp: scan_platform_line_def Let_def)

lemma scan_type_fold: "\<forall>x \<in> set xs. 0 \<le> x \<Longrightarrow> pls_typeLine ps < 0 \<Longrightarrow>
    pls_typeLine (snd (fold (scan_platform_line ls pe) xs (True, ps))) = (case type_line_at ls xs of None \<Rightarrow> pls_typeLine ps | Some i \<Rightarrow> i)"
proof (induction xs arbitrary: ps)
  case (Cons x xs)
  obtain b' ps' where s: "scan_platform_line ls pe x (True, ps) = (b', ps')" by fastforce
  show ?case
  proof (cases "isAnyTableHeader (ls ! nat x)")
    case True
    then have "\<not> b'" "pls_typeLine ps' = pls_typeLine ps" using s by (auto simp: scan_platform_line_def Let_def split: if_splits)
    then show ?thesis using scan_type_keep [of b' ps' ls pe xs] s True by (simp add: type_line_at_def)
  next
    case False
    then have b: "b'" "pls_typeLine ps' = (if matchTomlStringKey (ls ! nat x) ''type'' then x else pls_typeLine ps)"
      using s Cons.prems by (auto simp: scan_platform_line_def Let_def split: if_splits)
    show ?thesis
    proof (cases "matchTomlStringKey (ls ! nat x) ''type''")
      case True
      then show ?thesis using scan_type_keep [of b' ps' ls pe xs] s b False Cons.prems by (simp add: type_line_at_def)
    next
      case no: False
      then have "pls_typeLine ps' < 0" using b Cons.prems by simp
      then show ?thesis using Cons.IH [of ps'] s b no False Cons.prems by (auto simp: type_line_at_def split: option.splits)
    qed
  qed
qed (simp add: type_line_at_def)

lemma index_of_match: "index_of (\<lambda>l. matchTomlStringKey l key) b = None \<longleftrightarrow> key_of key (content b) = None"
  by (induction b) (auto simp: key_of_def dest: match_not_blank)

lemma type_bare: "bare_key ''type''"
  by (simp add: bare_key_def bare_byte_def byte_def)

lemma with_type_line_doc:
  assumes "platform_block_of k j ls (ps, pe)" "t \<noteq> []"
  shows "doc_of (with_type_line printable k j t ls) = set_type (table_pos ls ps) (quoteTomlString printable t) (doc_of ls)"
proof -
  note f = platform_block_facts [OF assms(1)]
  let ?v = "quoteTomlString printable t"
  have h: "isAnyTableHeader (ls ! nat ps)" using header_matches [OF f(5)] by simp
  have n: "ps < int (length ls)" using f(2,3) by simp
  obtain a b c where ls: "ls = a @ (ls ! nat ps) # b @ c" and la: "int (length a) = ps" and b: "b = head_lines (b @ c)"
    and nb: "\<forall>l \<in> set b. \<not> isAnyTableHeader l" and c: "starts_table c"
    and d: "doc_of ls = (fst (doc_of a), snd (doc_of a) @ (trim_right_blanks (ls ! nat ps), content b) # snd (doc_of c))"
    and p: "table_pos ls ps = length (snd (doc_of a))"
    using around_header [OF f(1) n h] by metis
  define x where "x = ls ! nat ps"
  have ls': "ls = (a @ [x]) @ b @ c" using ls by (simp add: x_def)
  have "ends_region (a @ x # b @ c) pe" using f(4) ls' by simp
  then have te: "table_end ls ps pe = ps + int (length b)"
    using table_end_segment [of a x "b @ c" pe] f(2) la b ls' by simp
  have tw: "type_line_at ls [ps + 1..pe] = first_line_at (\<lambda>l. matchTomlStringKey l ''type'') ls (int (length (a @ [x]))) (int (length (a @ [x])) + int (length b) - 1)"
  proof -
    have le: "ps + int (length b) \<le> pe" using insert_after_table(3) [OF f(1,2,4) h _ header_prefixes(1), of "[]"] te by (simp add: starts_table_def)
    have "\<not> isAnyTableHeader (ls ! nat i)" if "ps + 1 \<le> i" "i \<le> ps + int (length b)" for i
    proof -
      have "nat i - Suc (length a) < length b" "Suc (length a) \<le> nat i" using that la by linarith+
      then have "ls ! nat i = b ! (nat i - Suc (length a))" by (subst ls') (simp add: nth_append)
      then show ?thesis using nb \<open>nat i - Suc (length a) < length b\<close> nth_mem by metis
    qed
    moreover have "ps + int (length b) = pe \<or> isAnyTableHeader (ls ! nat (ps + int (length b) + 1))"
    proof (cases "ps + int (length b) = pe")
      case False
      then have "first_line_at isAnyTableHeader ls (ps + 1) pe = Some (ps + int (length b) + 1)"
        using te by (auto simp: table_end_def split: option.splits)
      then show ?thesis using first_line_at_range by blast
    qed simp
    moreover have "[ps + 1..pe] = [ps + 1..ps + int (length b)] @ [ps + int (length b) + 1..pe]"
      using upto_split2 [of "ps + 1" "ps + int (length b)" pe] le by (cases b) simp_all
    moreover have "ps + int (length b) \<noteq> pe \<Longrightarrow> [ps + int (length b) + 1..pe] = (ps + int (length b) + 1) # [ps + int (length b) + 2..pe]"
      using le by (simp add: upto_rec1 ac_simps)
    ultimately have "takeWhile (\<lambda>i. \<not> isAnyTableHeader (ls ! nat i)) [ps + 1..pe] = [ps + 1..ps + int (length b)]"
      by (cases "ps + int (length b) = pe") (auto simp: takeWhile_append)
    then show ?thesis using la by (simp add: type_line_at_def first_line_at_def ac_simps)
  qed
  also have "\<dots> = map_option (\<lambda>m. int (length (a @ [x]) + m)) (index_of (\<lambda>l. matchTomlStringKey l ''type'') b)"
    using first_line_at_segment [of _ "a @ [x]" b c] ls' by simp
  finally have tl: "type_line_at ls [ps + 1..pe] = map_option (\<lambda>m. int (length (a @ [x]) + m)) (index_of (\<lambda>l. matchTomlStringKey l ''type'') b)" .
  let ?sp = "reloadSpan k j ls"
  have ty: "pls_typeLine ?sp = (case type_line_at ls [ps + 1..pe] of None \<Rightarrow> -1 | Some i \<Rightarrow> i)"
    using scan_type_fold [of "[ps + 1..pe]" "\<lparr>pls_start = ps, pls_end = pe, pls_typeLine = -1, pls_optionsStart = -1, pls_optionsEnd = -1\<rparr>" ls pe] f(1,10)
    by (cases "type_line_at ls [ps + 1..pe]") (simp_all add: platform_span_def)
  have dt: "doc_of (a @ x # y @ c) = (fst (doc_of a), snd (doc_of a) @ (trim_right_blanks x, content y) # snd (doc_of c))"
    if "\<forall>l \<in> set y. \<not> isAnyTableHeader l" for y
    using doc_table [OF h [folded x_def] that c] .
  show ?thesis
  proof (cases "index_of (\<lambda>l. matchTomlStringKey l ''type'') b")
    case None
    have "with_type_line printable k j t ls = insertLines ls (ps + 1) [key_line ''type'' ?v]"
      using assms(2) ty tl None f(10) platform_span_facts(1) [OF f(1)] by (simp add: with_type_line_def Let_def)
    also have "\<dots> = a @ x # (key_line ''type'' ?v # b) @ c"
      using insert_segment [of "a @ [x]" "b @ c" "[key_line ''type'' ?v]"] ls' la by (simp add: ac_simps)
    finally show ?thesis
      using dt [of "key_line ''type'' ?v # b"] nb key_line_plain [OF type_bare] trim_right_key_line [OF closed_quote] d p None index_of_match [of "''type''" b]
      by (simp add: set_type_def x_def)
  next
    case (Some m)
    then have m: "m < length b" using index_of_Some by blast
    have tp: "pls_typeLine ?sp = int (length (a @ [x]) + m)" using ty tl Some by simp
    have "with_type_line printable k j t ls = ls[length (a @ [x]) + m := with_value (ls ! (length (a @ [x]) + m)) ''type'' ?v]"
      using assms(2) by (simp add: with_type_line_def Let_def tp replaceTomlStringKeyLine_def nat_add_distrib)
    also have "\<dots> = (a @ [x]) @ b[m := with_value (b ! m) ''type'' ?v] @ c"
      using m by (subst (1 2) ls') (simp add: list_update_append nth_append)
    also have "\<dots> = a @ x # set_key ''type'' ?v b @ c" using Some by (simp add: set_key_index)
    finally show ?thesis
      using dt [OF set_key_plain [OF type_bare nb]] content_set_key [OF type_bare closed_quote] d p Some index_of_match [of "''type''" b]
      by (auto simp add: set_type_def set_table_def x_def)
  qed
qed

lemma same_headers_set_type: "same_headers (set_type p v d) d"
proof -
  have "map fst (xs[p := (fst (xs ! p), y)]) = map fst xs" for xs :: "config_table list" and y
    by (cases "p < length xs") (simp_all add: map_update list_update_beyond, metis list_update_id nth_map)
  then show ?thesis using same_headers_set_table [of p "''type''" v d] by (simp add: same_headers_def set_type_def)
qed

section \<open>Edits of a platform\<close>

definition platform_at :: "nat \<Rightarrow> nat \<Rightarrow> config_doc \<Rightarrow> nat \<Rightarrow> bool" where
  "platform_at k j d p \<longleftrightarrow> p < length (snd d) \<and> matchTableHeader (fst (snd d ! p)) platforms_header \<and>
     tables_before projects_header d p = Suc k \<and> platform_number d p = j"

text \<open>The type is set in the table of the platform, when one is given, and then the options.\<close>

definition platform_written ::
    "(nat \<Rightarrow> bool) \<Rightarrow> nat \<Rightarrow> nat \<Rightarrow> string \<Rightarrow> (string \<times> string) list \<Rightarrow> config_doc \<Rightarrow> config_doc \<Rightarrow> bool" where
  "platform_written printable k j t kvs d d' \<longleftrightarrow>
     (\<exists>p. platform_at k j d p \<and>
        credentials_written printable k j kvs (if t = [] then d else set_type p (quoteTomlString printable t) d) d')"

definition edit_platform :: "(nat \<Rightarrow> bool) \<Rightarrow> nat \<Rightarrow> nat \<Rightarrow> string \<Rightarrow> (string \<times> string) list \<Rightarrow> string list \<Rightarrow> string list" where
  "edit_platform printable k j t kvs lines = set_options printable k j kvs (with_type_line printable k j t lines)"

lemma block_platform_at: "platform_block_of k j ls (ps, pe) \<Longrightarrow> platform_at k j (doc_of ls) (table_pos ls ps)"
proof -
  assume b: "platform_block_of k j ls (ps, pe)"
  note f = platform_block_facts [OF b]
  have h: "isAnyTableHeader (ls ! nat ps)" using header_matches [OF f(5)] by simp
  have n: "nat ps < length ls" using f(1-3) by linarith
  have "table_pos ls ps = cut_pos ls (nat ps)" using table_pos_cut [of ls "nat ps"] f(1) by simp
  then show ?thesis
    using table_pos_facts [OF f(1) _ h header_prefixes(1)] cut_facts [OF header_cut [OF n h]] f(1,5,8,9) n
    by (simp add: platform_at_def)
qed

lemma edit_platform_doc:
  assumes "has_platform k j (doc_of ls)" "\<forall>kv \<in> set kvs. bare_key (fst kv)"
  shows "platform_written printable k j t kvs (doc_of ls) (doc_of (edit_platform printable k j t kvs ls))"
proof -
  obtain ps pe where b: "platform_block_of k j ls (ps, pe)" using has_platform_block [OF assms(1)] by blast
  let ?d = "if t = [] then doc_of ls else set_type (table_pos ls ps) (quoteTomlString printable t) (doc_of ls)"
  have d: "doc_of (with_type_line printable k j t ls) = ?d"
    using with_type_line_doc [OF b] by (cases "t = []") (simp_all add: with_type_line_def)
  have "has_platform k j ?d"
    using same_headers_facts(4) [OF same_headers_set_type] assms(1) by auto
  then have "credentials_written printable k j kvs ?d (doc_of (edit_platform printable k j t kvs ls))"
    using set_options_doc [of k j "with_type_line printable k j t ls" kvs printable] assms(2) d by (simp add: edit_platform_def)
  then show ?thesis using block_platform_at [OF b] unfolding platform_written_def by blast
qed

lemma one_line_with_type: "\<forall>l \<in> set ls. one_line l \<Longrightarrow> \<forall>l \<in> set (with_type_line printable k j t ls). one_line l"
proof -
  assume a: "\<forall>l \<in> set ls. one_line l"
  have kl: "one_line (key_line ''type'' (quoteTomlString printable t))" by (intro one_line_key_line type_bare closed_quote)
  have ins: "\<forall>l \<in> set (insertLines ls at [key_line ''type'' (quoteTomlString printable t)]). one_line l" for at
    by (rule one_line_insert [OF a]) (simp only: list.set ball_simps kl)
  have upd: "\<forall>l \<in> set (ls[i := with_value (ls ! i) ''type'' (quoteTomlString printable t)]). one_line l" for i
  proof (cases "i < length ls")
    case True
    then have "one_line (with_value (ls ! i) ''type'' (quoteTomlString printable t))"
      using a by (intro one_line_with_value type_bare closed_quote) simp
    then show ?thesis using a set_update_subset_insert [of ls i] by blast
  qed (use a in \<open>simp add: list_update_beyond\<close>)
  show ?thesis
    unfolding with_type_line_def Let_def replaceTomlStringKeyLine_def using a ins upd by (simp only: split: if_split) blast
qed

text \<open>The fifth instance of the interface.\<close>

interpretation platform_edit: config_edit "edit_platform printable k j t kvs" "platform_written printable k j t kvs"
    "\<lambda>d. has_platform k j d \<and> (\<forall>kv \<in> set kvs. bare_key (fst kv))" for printable k j t kvs
proof unfold_locales
  show "platform_written printable k j t kvs (doc_of ls) (doc_of (edit_platform printable k j t kvs ls))"
    if "has_platform k j (doc_of ls) \<and> (\<forall>kv \<in> set kvs. bare_key (fst kv))" for ls
    using that edit_platform_doc by blast
next
  fix ls
  assume "\<forall>l \<in> set ls. one_line l" and a: "has_platform k j (doc_of ls) \<and> (\<forall>kv \<in> set kvs. bare_key (fst kv))"
  then have o: "\<forall>l \<in> set (with_type_line printable k j t ls). one_line l" using one_line_with_type by blast
  show "\<forall>l \<in> set (edit_platform printable k j t kvs ls). one_line l"
    unfolding edit_platform_def using one_line_set_options [OF _ o] a by blast
qed

lemma find_platform_found:
  assumes "find_platform decode kinds name i st = Inr (raw, platform, k, j)"
  shows "\<exists>cfg. cfg_File st = Some raw \<and> decode raw = Some cfg \<and> project_index cfg name = Some k \<and>
      platform = prc_Platforms (tc_Projects cfg ! k) ! j \<and> platform_kind platform \<in> set kinds" "has_platform k j (config_doc raw)"
proof -
  obtain cfg where o: "open_config decode st = Inr (raw, cfg)" "project_index cfg name = Some k"
    using assms by (auto simp: find_platform_def Let_def split: sum.splits option.splits if_splits)
  let ?ps = "prc_Platforms (tc_Projects cfg ! k)" and ?c = "platform_candidates kinds (prc_Platforms (tc_Projects cfg ! k))"
  let ?t = "if i > 0 then i - 1 else 0"
  have f: "0 \<le> ?t" "?t < int (length ?c)" "j = ?c ! nat ?t" "platform = ?ps ! j"
      "k < length (buildRawProjectSpans (fst (splitConfigLines raw)))"
      "j < length (sp_platforms (buildRawProjectSpans (fst (splitConfigLines raw)) ! k))"
    using assms o by (auto simp: find_platform_def Let_def split: if_splits)
  have "j \<in> set ?c" using f(1-3) nth_mem [of "nat ?t" ?c] by simp
  then have "platform_kind platform \<in> set kinds" using f(4) by (simp add: platform_candidates_def)
  then show "\<exists>cfg. cfg_File st = Some raw \<and> decode raw = Some cfg \<and> project_index cfg name = Some k \<and>
      platform = prc_Platforms (tc_Projects cfg ! k) ! j \<and> platform_kind platform \<in> set kinds"
    using o f(4) by (auto simp: open_config_Inr)
  obtain ps pe where "platform_block_of k j (fst (splitConfigLines raw)) (ps, pe)"
    using platform_block_exists [OF f(5,6)] by blast
  then show "has_platform k j (config_doc raw)" using block_has_platform split_lines_doc by metis
qed

lemma write_credentials_done: "write_credentials fault raw edit res st = (st', Done r) \<Longrightarrow> r = res \<and> write_lines fault raw edit st = (st', None)"
  by (auto simp: write_credentials_def split: prod.splits option.splits)

text \<open>The options Feishu writes.\<close>

definition feishu_options :: "feishu_update \<Rightarrow> string \<Rightarrow> (string \<times> string) list" where
  "feishu_options opts allowFrom =
     [(''app_id'', trim_space (fu_AppID opts)), (''app_secret'', trim_space (fu_AppSecret opts))]
     @ (if fu_SetAllowFromEmpty opts \<and> trim_space (fu_OwnerOpenID opts) \<noteq> [] then [(''allow_from'', allowFrom)] else [])"

lemma feishu_options_bare: "\<forall>kv \<in> set (feishu_options opts a). bare_key (fst kv)"
  by (simp add: feishu_options_def bare_key_def bare_byte_def byte_def)


text \<open>A project with one Feishu platform.\<close>

definition feishu_text :: string where
  "feishu_text = join [newline] [projects_header, platforms_header] @ [newline]"

definition feishu_decode :: "string \<Rightarrow> toml_config option" where
  "feishu_decode raw = Some \<lparr>tc_Projects = [\<lparr>prc_Name = ''demo'', prc_Agent = \<lparr>ac_Type = ''codex'', ac_Options = [], ac_Providers = [], ac_ProviderRefs = []\<rparr>,
     prc_Platforms = [\<lparr>plc_Type = ''feishu'', plc_Options = []\<rparr>]\<rparr>], tc_Providers = []\<rparr>"

definition feishu_state :: config_state where
  "feishu_state = \<lparr>ConfigPath = ''config.toml'', cfg_File = Some feishu_text, cfg_Temps = 0\<rparr>"

definition feishu_opts :: feishu_update where
  "feishu_opts = \<lparr>fu_ProjectName = ''demo'', fu_PlatformIndex = 0, fu_PlatformType = [], fu_AppID = ''id'', fu_AppSecret = ''key'',
     fu_OwnerOpenID = [], fu_SetAllowFromEmpty = False\<rparr>"

lemma platforms_header_facts: "isAnyTableHeader platforms_header" "trim_right_blanks platforms_header = platforms_header"
    "one_line platforms_header" "matchTableHeader platforms_header platforms_header" "\<not> matchTableHeader platforms_header projects_header"
proof -
  show m: "matchTableHeader platforms_header platforms_header" by (simp add: matchTableHeader_def has_prefix_def platforms_header_def ascii_ends byte_def)
  show "isAnyTableHeader platforms_header" using header_matches [OF m] by simp
  show "\<not> matchTableHeader platforms_header projects_header" using platform_no_project(1) [OF m] .
  show "trim_right_blanks platforms_header = platforms_header"
    unfolding platforms_header_def by (rule ascii_ends) (simp_all add: byte_def)
qed (simp add: one_line_def platforms_header_def)

lemma feishu_text_doc: "config_doc feishu_text = ([], [(projects_header, []), (platforms_header, [])])"
proof -
  have "config_doc feishu_text = doc_of [projects_header, platforms_header]"
    unfolding feishu_text_def by (intro config_doc_written) (simp add: platforms_header_facts, simp add: one_line_def projects_header_def)
  then show ?thesis using projects_header_self platforms_header_facts by (simp add: doc_line_def)
qed

lemma feishu_text_spans: "0 < length (buildRawProjectSpans (fst (splitConfigLines feishu_text)))"
    "0 < length (sp_platforms (buildRawProjectSpans (fst (splitConfigLines feishu_text)) ! 0))"
proof -
  have "has_platform 0 0 (doc_of (fst (splitConfigLines feishu_text)))"
    unfolding split_lines_doc feishu_text_doc has_platform_def
    by (intro exI [of _ 1]) (simp add: platforms_header_facts projects_header_self tables_before_def platform_number_def platforms_since_def)
  from has_platform_block [OF this] show "0 < length (buildRawProjectSpans (fst (splitConfigLines feishu_text)))"
      "0 < length (sp_platforms (buildRawProjectSpans (fst (splitConfigLines feishu_text)) ! 0))"
    using platform_block_facts(11,12) by blast+
qed

lemma feishu_words [simp]: "trim_space ''demo'' = ''demo''" "trim_space ''id'' = ''id''" "trim_space ''key'' = ''key''"
    "trim_space ''feishu'' = ''feishu''"
  by (intro ascii_ends; simp add: byte_def)+

lemma trim_Nil [simp]: "trim_space [] = []"
  by (simp add: trim_space_def)


end
