(* ===== verification/ConfigSetup.thy ===== *)
theory ConfigSetup
  imports ConfigCredentials
begin

text \<open>
  Provisioning: what adding a project, or a platform to a project, does to the document, and what the
  three functions answer.
\<close>

section \<open>A project at the end of the file\<close>

definition new_project_tables :: "(nat \<Rightarrow> bool) \<Rightarrow> string \<Rightarrow> agent_config \<Rightarrow> string \<Rightarrow> config_table list" where
  "new_project_tables printable name a type_line =
     [(projects_header, [key_line ''name'' (quoteTomlString printable name)]),
      (agent_header, [key_line ''type'' (quoteTomlString printable (ac_Type a))]),
      (agent_options_header, string_option_line printable ''work_dir'' a @ string_option_line printable ''mode'' a),
      (platforms_header, [type_line]), (platform_options_header, [])]"

lemma more_headers: "isAnyTableHeader platforms_header" "isAnyTableHeader platform_options_header" "isAnyTableHeader agent_header"
    "isAnyTableHeader agent_options_header" "isAnyTableHeader projects_header"
    "one_line platforms_header" "one_line platform_options_header" "one_line agent_header" "one_line agent_options_header" "one_line projects_header"
    "trim_right_blanks platforms_header = platforms_header"
  using platform_options_self projects_header_self header_matches [OF headers_self(1)] header_matches [OF headers_self(2)]
  by (auto simp: isAnyTableHeader_def platforms_header_def has_prefix_def one_line_def platform_options_header_def agent_header_def
      agent_options_header_def projects_header_def ascii_ends byte_def)

lemma bare_keys: "bare_key ''name''" "bare_key ''work_dir''" "bare_key ''mode''"
  by (simp_all add: bare_key_def bare_byte_def byte_def)

text \<open>A line that is content of a table, as it stands.\<close>

definition plain_line :: "string \<Rightarrow> bool" where
  "plain_line l \<longleftrightarrow> \<not> isAnyTableHeader l \<and> \<not> is_blank l \<and> trim_right_blanks l = l \<and> one_line l"

lemma plain_key_line: "bare_key key \<Longrightarrow> closed_value v \<Longrightarrow> plain_line (key_line key v)"
  using key_line_plain trim_right_key_line one_line_key_line by (simp add: plain_line_def)

lemma plain_lines_doc: "\<forall>l \<in> set ls. plain_line l \<Longrightarrow> doc_of (ls @ r) = (ls @ fst (doc_of r), snd (doc_of r))"
  by (induction ls) (auto simp: doc_line_def plain_line_def)

lemma plain_option_lines: "bare_key key \<Longrightarrow> \<forall>l \<in> set (string_option_line printable key a). plain_line l"
  using plain_key_line [OF _ closed_quote] by (auto simp: string_option_line_def split: option.splits toml_value.splits)

lemma project_block_doc:
  assumes "plain_line type_line"
  shows "doc_of (project_block printable name a type_line) = ([], new_project_tables printable name a type_line)"
proof -
  have p: "plain_line (key_line ''name'' (quoteTomlString printable name))" "plain_line (key_line ''type'' (quoteTomlString printable (ac_Type a)))"
    by (intro plain_key_line bare_keys type_bare closed_quote)+
  have o: "\<forall>l \<in> set (string_option_line printable ''work_dir'' a @ string_option_line printable ''mode'' a). plain_line l"
    using plain_option_lines bare_keys by auto
  have b: "doc_of ([] # platform_block type_line) = ([], [(platforms_header, [type_line]), (platform_options_header, [])])"
    using assms more_headers by (simp add: platform_block_def doc_line_def plain_line_def)
  show ?thesis
    using plain_lines_doc [OF o, of "[] # platform_block type_line"] b p more_headers
    by (simp add: project_block_def new_project_tables_def doc_line_def plain_line_def)
qed

lemma project_block_one_line: "plain_line type_line \<Longrightarrow> \<forall>l \<in> set (project_block printable name a type_line). one_line l"
  using plain_option_lines [OF bare_keys(2), of printable a] plain_option_lines [OF bare_keys(3), of printable a]
    one_line_key_line [OF bare_keys(1) closed_quote, of printable name] one_line_key_line [OF type_bare closed_quote, of printable "ac_Type a"] more_headers
  by (auto simp: project_block_def platform_block_def plain_line_def)

definition with_project :: "(nat \<Rightarrow> bool) \<Rightarrow> string \<Rightarrow> agent_config \<Rightarrow> string \<Rightarrow> config_doc \<Rightarrow> config_doc" where
  "with_project printable name a type_line d = (fst d, snd d @ new_project_tables printable name a type_line)"

interpretation project_added: config_edit "add_project (project_block printable name a type_line)"
    "\<lambda>d d'. d' = with_project printable name a type_line d" "\<lambda>d. plain_line type_line" for printable name a type_line
proof unfold_locales
  fix ls :: "string list"
  assume p: "plain_line type_line"
  have s: "starts_table (project_block printable name a type_line)"
    using more_headers by (simp add: starts_table_def project_block_def)
  have "doc_of (ls @ s @ project_block printable name a type_line) =
      (fst (doc_of ls), snd (doc_of ls) @ new_project_tables printable name a type_line)" if "s = [] \<or> s = [[]]" for s
  proof -
    have "doc_of (ls @ s) = doc_of ls" using that doc_of_append [of ls "[]"] doc_of_append [of ls s] by (auto simp: doc_line_blank)
    then show ?thesis using doc_append [OF s, of "ls @ s"] project_block_doc [OF p] by simp
  qed
  then show "doc_of (add_project (project_block printable name a type_line) ls) = with_project printable name a type_line (doc_of ls)"
    by (simp add: add_project_def with_project_def)
next
  fix ls
  assume "\<forall>l \<in> set ls. one_line l" "plain_line type_line"
  then show "\<forall>l \<in> set (add_project (project_block printable name a type_line) ls). one_line l"
    using project_block_one_line by (auto simp: add_project_def)
qed

section \<open>A platform at the end of a project\<close>

definition new_platform_tables :: "string \<Rightarrow> config_table list" where
  "new_platform_tables type_line = [(platforms_header, [type_line]), (platform_options_header, [])]"

text \<open>
  The tables go behind the last table of project \<open>k\<close>: the header of the next project, if there is one,
  follows.
\<close>

definition adds_platform :: "nat \<Rightarrow> string \<Rightarrow> config_doc \<Rightarrow> config_doc \<Rightarrow> bool" where
  "adds_platform k type_line d d' \<longleftrightarrow>
     (\<exists>q \<le> length (snd d). tables_before projects_header d q = Suc k \<and>
        (q < length (snd d) \<longrightarrow> matchTableHeader (fst (snd d ! q)) projects_header) \<and>
        d' = insert_tables q (new_platform_tables type_line) d)"

lemma project_end:
  assumes "k < length (buildRawProjectSpans ls)" "q = sp_end (buildRawProjectSpans ls ! k) + 1"
  shows "0 \<le> q" "q \<le> int (length ls)" "starts_table (drop (nat q) ls)" "headers_before projects_header ls q = Suc k"
    "q < int (length ls) \<Longrightarrow> matchTableHeader (ls ! nat q) projects_header"
proof -
  obtain s e where b: "block_of projects_header ls 0 (int (length ls) - 1) k = (s, e)"
      "k < length (header_lines projects_header ls 0 (int (length ls) - 1))" "buildRawProjectSpans ls ! k = project_span ls (s, e)"
    using spans_nth [OF assms(1)] by metis
  note f = project_facts [OF b(1,2)]
  have q: "q = e + 1" using assms(2) b(3) project_span_inv(1) [OF f(1), of ls e] by (simp add: agent_inv_def)
  show "0 \<le> q" "q \<le> int (length ls)" "headers_before projects_header ls q = Suc k" using f(1-3) f(6) [of q] q by simp_all
  show "starts_table (drop (nat q) ls)"
    using f(4) q f(1-3) by (auto simp: ends_region_def starts_table_def hd_drop_conv_nth nat_less_iff)
  assume "q < int (length ls)"
  then have e: "e \<noteq> int (length ls) - 1" using q by simp
  let ?h = "header_lines projects_header ls 0 (int (length ls) - 1)"
  have "(s, e) = (?h ! k, if Suc k < length ?h then ?h ! Suc k - 1 else int (length ls) - 1)"
    using b(1) with_ends_nth [OF b(2), of "int (length ls) - 1"] by (simp add: block_of_def)
  then have k: "Suc k < length ?h" "q = ?h ! Suc k" using e q by (auto split: if_splits)
  then have "?h ! Suc k \<in> set ?h" by simp
  then show "matchTableHeader (ls ! nat q) projects_header" using k(2) by (simp add: header_lines_def)
qed

lemma platform_block_doc:
  assumes "plain_line type_line"
  shows "starts_table (platform_block type_line)" "doc_of (platform_block type_line) = ([], new_platform_tables type_line)"
    "\<forall>l \<in> set (platform_block type_line). one_line l"
  using assms more_headers
  by (auto simp: starts_table_def platform_block_def new_platform_tables_def doc_line_def plain_line_def)

text \<open>The header behind a cut, in the lines and in the document.\<close>

lemma table_at_cut:
  assumes "0 \<le> q" "q \<le> int (length ls)" "starts_table (drop (nat q) ls)"
  shows "cut_pos ls (nat q) \<le> length (snd (doc_of ls))"
    "cut_pos ls (nat q) < length (snd (doc_of ls)) \<Longrightarrow>
      q < int (length ls) \<and> fst (snd (doc_of ls) ! cut_pos ls (nat q)) = trim_right_blanks (ls ! nat q)"
proof -
  let ?a = "take (nat q) ls" and ?c = "drop (nat q) ls"
  have d: "snd (doc_of ls) = snd (doc_of ?a) @ snd (doc_of ?c)" using doc_append [OF assms(3), of ?a] by simp
  have p: "cut_pos ls (nat q) = length (snd (doc_of ?a))" by (simp add: cut_pos_def length_tables)
  show "cut_pos ls (nat q) \<le> length (snd (doc_of ls))" unfolding p d by simp
  assume "cut_pos ls (nat q) < length (snd (doc_of ls))"
  then have n: "snd (doc_of ?c) \<noteq> []" unfolding p d by auto
  then have c: "?c \<noteq> []" by auto
  then have l: "q < int (length ls)" using assms(1) by (simp add: nat_less_iff)
  have "hd ?c = ls ! nat q" using l assms(1) by (simp add: hd_drop_conv_nth nat_less_iff)
  moreover have "fst (hd (snd (doc_of ?c))) = trim_right_blanks (hd ?c)"
    using assms(3) c by (cases ?c) (auto simp: starts_table_def doc_line_def split: prod.splits)
  ultimately have "fst (snd (doc_of ?c) ! 0) = trim_right_blanks (ls ! nat q)" using n by (simp add: hd_conv_nth)
  then show "q < int (length ls) \<and> fst (snd (doc_of ls) ! cut_pos ls (nat q)) = trim_right_blanks (ls ! nat q)"
    using l n unfolding p d by (simp add: nth_append)
qed

lemma add_platform_doc:
  assumes "k < length (buildRawProjectSpans ls)" "plain_line type_line"
  shows "adds_platform k type_line (doc_of ls) (doc_of (add_platform k type_line ls))"
proof -
  define q where "q = sp_end (buildRawProjectSpans ls ! k) + 1"
  note e = project_end [OF assms(1) q_def] and t = platform_block_doc [OF assms(2)]
  note c = table_at_cut [OF e(1-3)]
  have "doc_of (add_platform k type_line ls) = insert_tables (cut_pos ls (nat q)) (new_platform_tables type_line) (doc_of ls)"
    using insert_spaced_block [OF e(1-3) t(1,2)] by (simp add: add_platform_def Let_def q_def)
  moreover have "tables_before projects_header (doc_of ls) (cut_pos ls (nat q)) = Suc k"
    using cut_facts(1) [OF e(3)] e(1,4) by simp
  moreover have "matchTableHeader (fst (snd (doc_of ls) ! cut_pos ls (nat q))) projects_header"
    if "cut_pos ls (nat q) < length (snd (doc_of ls))"
    using c(2) [OF that] e(5) by simp
  ultimately show ?thesis using c(1) unfolding adds_platform_def by blast
qed

interpretation platform_added: config_edit "add_platform k type_line" "adds_platform k type_line"
    "\<lambda>d. k < project_tables d \<and> plain_line type_line" for k type_line
proof unfold_locales
  fix ls
  assume "\<forall>l \<in> set ls. one_line l" "k < project_tables (doc_of ls) \<and> plain_line type_line"
  then show "\<forall>l \<in> set (add_platform k type_line ls). one_line l"
    using platform_block_doc(3) [of type_line] unfolding add_platform_def Let_def
    by (intro one_line_insert) (auto simp: spaced_def)
qed (auto intro: add_platform_doc simp: length_spans)

end
