(* ===== verification/ConfigSetupProperties.thy ===== *)
theory ConfigSetupProperties
  imports ConfigSetup
begin

text \<open>
  The properties of setting up platforms: what provisioning writes and answers, and whom the list of
  allowed users admits once a user was added to it.
\<close>

section \<open>Provisioning\<close>

definition weixin_line :: string where
  "weixin_line = ''type = '' @ [dquote] @ ''weixin'' @ [dquote]"

lemma plain_weixin_line: "plain_line weixin_line"
proof -
  have "closed_value ([dquote] @ ''weixin'' @ [dquote])"
    by (simp add: closed_value_def ascii_ends byte_def is_blank_byte_def)
  then have "plain_line (key_line ''type'' ([dquote] @ ''weixin'' @ [dquote]))" by (intro plain_key_line type_bare)
  then show ?thesis by (simp add: weixin_line_def key_line_def)
qed

text \<open>
  C20. Setting up a Weixin project answers with the platform of the project when there is one, and
  leaves the file alone. A project without one gets the platform at its end. When no project has the
  name, a project with the agent that was picked and the platform is added at the end of the file. In
  every case the answer holds the indexes of the project and of its platform, and nothing else of the
  document changes.
\<close>

theorem weixin_setup_done:
  assumes "EnsureProjectWithWeixinPlatform decode printable fault opts st = (st', Done res)"
  shows "\<exists>raw cfg. cfg_File st = Some raw \<and> decode raw = Some cfg \<and>
    (case project_index cfg (trim_space (eo_ProjectName opts)) of
       Some k \<Rightarrow>
         \<not> er_Created res \<and> er_ProjectIndex res = int k \<and>
         (case firstWeixinPlatformIndex (prc_Platforms (tc_Projects cfg ! k)) of
            Some j \<Rightarrow> st' = st \<and> \<not> er_AddedPlatform res \<and> er_PlatformAbsIndex res = int j
          | None \<Rightarrow> er_AddedPlatform res \<and> er_PlatformAbsIndex res = int (length (prc_Platforms (tc_Projects cfg ! k))) \<and>
              (\<exists>f d. st' = st\<lparr>cfg_File := Some f\<rparr> \<and> adds_platform k weixin_line (config_doc raw) d \<and> config_doc f = drop_empty_tables d))
     | None \<Rightarrow> er_Created res \<and> er_ProjectIndex res = int (length (tc_Projects cfg)) \<and> er_PlatformAbsIndex res = 0 \<and>
         (\<exists>f. st' = st\<lparr>cfg_File := Some f\<rparr> \<and>
            config_doc f = drop_empty_tables
              (with_project printable (trim_space (eo_ProjectName opts)) (new_agent cfg opts) weixin_line (config_doc raw))))"
proof -
  let ?name = "trim_space (eo_ProjectName opts)"
  have e: "ensure_platform decode printable fault firstWeixinPlatformIndex weixin_line [] appended_created opts st = (st', Done res)"
    using assms by (auto simp: EnsureProjectWithWeixinPlatform_def weixin_line_def split: if_splits)
  then obtain raw cfg where o: "open_config decode st = Inr (raw, cfg)"
    by (auto simp: ensure_platform_def Let_def split: sum.splits)
  then have st: "cfg_File st = Some raw" "decode raw = Some cfg" by (simp_all add: open_config_Inr)
  show ?thesis
  proof (cases "project_index cfg ?name")
    case None
    then have w: "write_lines fault raw (add_project (project_block printable ?name (new_agent cfg opts) weixin_line)) st = (st', None)"
        and r: "Done res = appended_created cfg"
      using e o by (auto simp: ensure_platform_def Let_def split: prod.splits option.splits)
    from project_added.written [OF w plain_weixin_line] show ?thesis
      using st None r by (intro exI [of _ raw] exI [of _ cfg]) (auto simp: appended_created_def)
  next
    case (Some k)
    show ?thesis
    proof (cases "firstWeixinPlatformIndex (prc_Platforms (tc_Projects cfg ! k))")
      case None
      then have w: "write_lines fault raw (add_platform k weixin_line) st = (st', None)" "k < project_tables (config_doc raw)"
          "res = \<lparr>er_Created = False, er_AddedPlatform = True, er_ProjectIndex = int k,
                  er_PlatformAbsIndex = int (length (prc_Platforms (tc_Projects cfg ! k))), er_PlatformType = []\<rparr>"
        using e o Some by (auto simp: ensure_platform_def Let_def length_spans split_lines_doc split: prod.splits option.splits if_splits)
      from platform_added.written [OF w(1)] w(2) plain_weixin_line show ?thesis
        using st Some None w(3) by (intro exI [of _ raw] exI [of _ cfg]) auto
    next
      case (Some j)
      then show ?thesis using e o st \<open>project_index cfg ?name = Some k\<close>
        by (intro exI [of _ raw] exI [of _ cfg]) (auto simp: ensure_platform_def Let_def)
    qed
  qed
qed

definition setup_options :: "string \<Rightarrow> ensure_options" where
  "setup_options name = \<lparr>eo_ProjectName = name, eo_PlatformType = [], eo_CloneFromProject = [], eo_WorkDir = [], eo_AgentType = []\<rparr>"

theorem weixin_setup_done_witness:
  "\<exists>f d. cfg_File (fst (EnsureProjectWithWeixinPlatform sample_decode (\<lambda>_. True) None (setup_options ''demo'') project_state)) = Some f \<and>
    adds_platform 0 weixin_line ([], [(projects_header, [])]) d \<and> config_doc f = drop_empty_tables d"
proof -
  have "project_tables (config_doc project_config_text) = 1"
    unfolding project_text_doc by (simp add: project_tables_def projects_header_self)
  then have "0 < length (buildRawProjectSpans (fst (splitConfigLines project_config_text)))"
    by (simp add: length_spans split_lines_doc)
  moreover obtain f where "write_lines None project_config_text (add_platform 0 weixin_line) project_state = (project_state\<lparr>cfg_File := Some f\<rparr>, None)"
    using write_lines_ok by blast
  ultimately obtain st' res where done': "EnsureProjectWithWeixinPlatform sample_decode (\<lambda>_. True) None (setup_options ''demo'') project_state = (st', Done res)"
    by (simp add: EnsureProjectWithWeixinPlatform_def ensure_platform_def open_config_def read_config_def project_state_def
        setup_options_def sample_decode_def one_project_def project_index_def firstWeixinPlatformIndex_def weixin_line_def)
  from weixin_setup_done [OF done'] show ?thesis
    using done' by (auto simp: project_state_def setup_options_def sample_decode_def one_project_def project_index_def
        firstWeixinPlatformIndex_def project_text_doc simp del: split_paired_Ex)
qed

text \<open>
  Setting up Feishu when the configuration has no project yet writes the new project to the file,
  and then ends in a crash instead of an answer: the indexes are read from the last project of a
  configuration that has none.
\<close>

theorem feishu_setup_without_projects:
  assumes "ConfigPath st \<noteq> []" "cfg_File st = Some raw" "decode raw = Some cfg" "tc_Projects cfg = []"
    "trim_space (eo_ProjectName opts) \<noteq> []" "to_lower (trim_space (eo_PlatformType opts)) \<in> {[], ''feishu''}"
  shows "\<exists>f. EnsureProjectWithFeishuPlatform decode printable None opts st = (st\<lparr>cfg_File := Some f\<rparr>, Crashed) \<and>
    config_doc f = drop_empty_tables (with_project printable (trim_space (eo_ProjectName opts)) (new_agent cfg opts)
      (key_line ''type'' (quoteTomlString printable ''feishu'')) (config_doc raw))"
proof -
  let ?block = "project_block printable (trim_space (eo_ProjectName opts)) (new_agent cfg opts) (key_line ''type'' (quoteTomlString printable ''feishu''))"
  have p: "plain_line (key_line ''type'' (quoteTomlString printable ''feishu''))" by (intro plain_key_line type_bare closed_quote)
  obtain f where w: "write_lines None raw (add_project ?block) st = (st\<lparr>cfg_File := Some f\<rparr>, None)"
    using write_lines_ok by blast
  have o: "open_config decode st = Inr (raw, cfg)" using assms(1-3) by (simp add: open_config_Inr)
  have t: "(if to_lower (trim_space (eo_PlatformType opts)) = [] then ''feishu'' else to_lower (trim_space (eo_PlatformType opts))) = ''feishu''"
    using assms(6) by auto
  have "project_index cfg (trim_space (eo_ProjectName opts)) = None" using assms(4) by (simp add: project_index_def)
  then have e: "ensure_platform decode printable None present (key_line ''type'' (quoteTomlString printable ''feishu'')) t created opts st =
      (st\<lparr>cfg_File := Some f\<rparr>, created cfg)" for present t created
    using o w by (simp add: ensure_platform_def Let_def)
  have "EnsureProjectWithFeishuPlatform decode printable None opts st = (st\<lparr>cfg_File := Some f\<rparr>, Crashed)"
    unfolding EnsureProjectWithFeishuPlatform_def Let_def t e using assms(1,4,5) by (simp add: feishu_created_def)
  moreover obtain f' where "st\<lparr>cfg_File := Some f\<rparr> = st\<lparr>cfg_File := Some f'\<rparr>" "config_doc f' = drop_empty_tables (with_project printable
      (trim_space (eo_ProjectName opts)) (new_agent cfg opts) (key_line ''type'' (quoteTomlString printable ''feishu'')) (config_doc raw))"
    using project_added.written [OF w p] by blast
  ultimately show ?thesis by metis
qed

definition empty_decode :: "string \<Rightarrow> toml_config option" where
  "empty_decode raw = Some \<lparr>tc_Projects = [], tc_Providers = []\<rparr>"

theorem feishu_setup_without_projects_witness:
  "snd (EnsureProjectWithFeishuPlatform empty_decode (\<lambda>_. True) None (setup_options ''demo'') sample_config) = Crashed"
  using feishu_setup_without_projects [of sample_config "join [newline] [sample_line] @ [newline]" empty_decode
      "\<lparr>tc_Projects = [], tc_Providers = []\<rparr>" "setup_options ''demo''" "\<lambda>_. True"]
  by (auto simp: sample_config_def empty_decode_def setup_options_def to_lower_def)

section \<open>Allowed users\<close>

text \<open>
  C21. A user added to a list of allowed users is admitted, and so is everyone the list admitted
  before; nobody else is. The list has to name users: it is not empty and has no wildcard in it.
\<close>

theorem merged_allow_list_admits:
  assumes "trimmed current" "''*'' \<notin> listed current" "current \<noteq> ''*''"
    "trimmed user" "CHR '','' \<notin> set user" "user \<noteq> ''*''" "x \<noteq> []"
  shows "AllowList (mergeAllowFromValue current user) x \<longleftrightarrow> equal_fold user x \<or> AllowList current x"
proof -
  note m = merged_list [OF assms(1,4,5,6,3,2)]
  show ?thesis
    unfolding AllowList_listed [OF m(1,2) assms(7)] AllowList_listed [OF assms(1,3,7)] m(3) by (simp only: bex_simps)
qed

theorem merged_allow_list_admits_witness:
  "AllowList (mergeAllowFromValue ''alice'' ''carol'') ''carol'' \<and> \<not> AllowList (mergeAllowFromValue ''alice'' ''carol'') ''bob''"
proof -
  have t: "trim_space ''alice'' = ''alice''" "trim_space ''carol'' = ''carol''" by (intro ascii_ends; simp add: byte_def)+
  then have "trimmed ''alice''" "trimmed ''carol''" unfolding trimmed_iff by simp_all
  note t = this t
  have l: "listed ''alice'' = {''alice''}" using t by (simp add: listed_def split_all_absent)
  have "AllowList (mergeAllowFromValue ''alice'' ''carol'') x \<longleftrightarrow> equal_fold ''carol'' x \<or> AllowList ''alice'' x" if "x \<noteq> []" for x
    by (rule merged_allow_list_admits) (use t l that in auto)
  moreover have "\<not> AllowList ''alice'' ''bob''" using AllowList_listed [of "''alice''" "''bob''"] t l by (simp add: equal_fold_def to_lower_def)
  ultimately show ?thesis by (simp add: equal_fold_def to_lower_def)
qed

end
