(* ===== verification/Spec2Isabelle.thy ===== *)
theory Spec2Isabelle
  imports SessionProperties Dedup CommandTable UserRoles OutgoingRate WorkspaceBinding DirHistory ProjectState
    WorkspacePool CronProperties CronHuman TimerProperties PermissionProperties TurnProperties LiveSessions MessageSplit AdmissionProperties CommandProperties HeartbeatProperties RelayProperties RelayTurnProperties StreamProperties
    ConfigSetupProperties
begin

text \<open>
  Verification library of cc-connect, a Go daemon that connects coding agents (local processes) with chat platforms.
  It models the core of the program, the package \<open>src/core\<close>: what happens between a message that a
  platform delivers and the prompts, answers and files that result from it; and the editing of the configuration file
  in \<open>src/config\<close>.

  \<^bold>\<open>The program.\<close> An engine (\<open>engine.go\<close>) receives messages from its platforms.
  \<open>handleMessage\<close> admits them: it drops duplicates (\<open>dedup.go\<close>) and what exceeds a user's
  rate (\<open>ratelimit.go\<close>, \<open>user_roles.go\<close>), expands aliases, holds back banned words, finds
  the workspace, and takes a slash command, a shortcut or a \<open>!\<close> line to its handler, which asks for the
  rights of the user; commands beyond the built-in ones come from a registry (\<open>command.go\<close>) and from
  skill directories (\<open>skill.go\<close>). Any other message answers a pending permission request or goes to the
  session of the user (\<open>session.go\<close>): it takes its turn lock or is queued for the turn that is running.
  The holder of the lock starts or resumes the agent process of the conversation, within the cap on live processes
  (\<open>live_sessions.go\<close>), sends the prompt, reads the agent's events, shows a preview that it edits in
  place (\<open>streaming.go\<close>), splits the answer into chat messages (\<open>markdown_html.go\<close>), paces
  them per platform (\<open>outgoing_ratelimit.go\<close>) and drains the queue. Beside it, schedulers run prompts and
  commands at their times (\<open>cron.go\<close>, \<open>timer.go\<close>, \<open>heartbeat.go\<close>), and stores
  keep what survives a restart: sessions, jobs, channel bindings (\<open>workspace_binding.go\<close>), directories
  (\<open>dir_history.go\<close>), overrides (\<open>projectstate.go\<close>). Projects that are bound in a chat relay
  messages to each other (\<open>relay.go\<close>). A pool tracks the workspaces of a multi-workspace project
  (\<open>workspace_state.go\<close>). Settings that a user changes in the chat or sets up on the command line are
  written into \<open>config.toml\<close> as edits of its text, which keep comments and everything the edit does not
  mean (\<open>config/config.go\<close>).

  \<^bold>\<open>How the code is modelled.\<close>
  \<^item> A method that holds a mutex for its whole body is one function on a record, the state after it returned
    explicitly. Where the code releases a lock and continues, the parts are separate definitions, and the theorems
    about them speak of interleavings (\<open>TurnProtocol\<close>, \<open>PermissionReply\<close>,
    \<open>WorkspacePool\<close>, \<open>TimerJob\<close>).
  \<^item> Data that the code shares by pointer and mutates through it lives in a heap with addresses (sessions while
    they are pruned, interactive states, pending permissions, workspace states).
  \<^item> Strings are byte lists and runes are decoded as Go does it, invalid UTF-8 included
    (\<open>GoStrings\<close>). A map is an association list (\<open>gomap\<close>) whose order stands for an
    arbitrary order of iteration. Times and durations are nanoseconds as \<open>int\<close>; arithmetic that can
    overflow an \<open>int64\<close> is wrapped explicitly. The float of the outgoing limiter is a rational number.
  \<^item> A file is absent, undecodable, or the document it holds, and writing it may fail. Errors are values of sum
    and option types; a directory tree is what reading it answers (\<open>file_system\<close>); a panic or a fatal
    error of the runtime is a value too, and a loop that may not end is a \<open>partial_function\<close> whose value
    \<open>None\<close> means that it does not.
  \<^item> What the code calls and is not in the repository, or does not compute here, is a parameter: decoding TOML
    (an argument that gives the fields the edits read), the library robfig/cron (the record \<open>cron_lib\<close> of
    \<open>CronScheduler\<close>), symbolic links, JSON decoding, the texts of errors, whether a process starts, dies
    or can be cancelled (\<open>start_env\<close>, labels of \<open>TurnProtocol\<close>).

  \<^bold>\<open>Theories and sources.\<close>
  \<^item> \<open>CC_Prelude\<close>, \<open>GoStrings\<close>: maps, time, 64-bit arithmetic, files; bytes, runes,
    white space, splitting, numbers.
  \<^item> \<open>Session\<close>, \<open>SessionManager\<close>, \<open>SessionPrune\<close>
    (\<open>session.go\<close>): one conversation with its turn lock, and the manager: sessions per user, the active
    one, snapshots, pruning. \<open>SessionInvariant\<close>, \<open>SessionPruneProofs\<close> and
    \<open>SessionSystem\<close> hold the invariant, pruning in closed form and the state machine of all calls,
    including the methods reached through a session pointer and restarts; \<open>SessionProperties\<close> holds C1,
    C2 and C8 to C10.
  \<^item> \<open>CommandArgs\<close>, \<open>CustomCommands\<close>, \<open>Skills\<close> (\<open>engine.go\<close>,
    \<open>command.go\<close>, \<open>skill.go\<close>): splitting a command line, expanding templates, shell command
    lines; the registry of custom commands and command files; skills. \<open>Admission\<close> holds the policies
    (aliases, banned words, limits, administrators, disabled commands) and the state they read,
    \<open>CommandDispatch\<close> the slash commands that change registries and schedulers,
    \<open>MessageAdmission\<close> the way of a message up to its session. \<open>AdmissionSafety\<close> describes
    the shape of every run; \<open>AdmissionProperties\<close> holds C5 to C7 and C35,
    \<open>CommandProperties\<close> C36.
  \<^item> \<open>InteractiveState\<close>, \<open>TurnLifecycle\<close>, \<open>TurnProtocol\<close>
    (\<open>engine.go\<close>, \<open>live_sessions.go\<close>): the state per conversation with its queue and its
    watermarks, starting, resuming, recycling and stopping the agent, and the interleaved steps of handlers, the
    holder of the turn lock, the agent, recalls and /stop, as a step function with labels and the inductive
    \<open>turn_reach\<close>. \<open>TurnInvariant\<close> proves the invariant of all runs, one lemma per operation
    and one per step; \<open>TurnQueueProofs\<close> the order and progress of the queue in runs without restarts;
    \<open>TurnProperties\<close> C3, C4, C11 and C12.
  \<^item> \<open>PermissionWords\<close>, \<open>PermissionReply\<close>, \<open>PermissionProperties\<close>
    (\<open>engine.go\<close>): what a reply means and what it does to the pending request, C13 and C14.
  \<^item> \<open>LiveSessions\<close> (\<open>live_sessions.go\<close>): caps, eviction and the wait for a slot, C23
    and C24.
  \<^item> \<open>MessageSplit\<close> (\<open>markdown_html.go\<close>): splitting answers with open code fences, C25
    to C27.
  \<^item> \<open>StreamPreview\<close>, \<open>StreamProperties\<close> (\<open>streaming.go\<close>): the preview
    message that is edited while the agent writes, with its timers, and what the chat shows after it, C28 to C30.
  \<^item> \<open>JobStore\<close>, \<open>CronStore\<close>, \<open>CronScheduler\<close>,
    \<open>CronInvariant\<close>, \<open>CronProperties\<close>, \<open>CronHuman\<close> (\<open>cron.go\<close>) and
    \<open>TimerJob\<close>, \<open>TimerProperties\<close> (\<open>timer.go\<close>): \<open>JobStore\<close> is the
    contract both stores satisfy (a locale, interpreted by each), C31 to C33. \<open>CronHuman\<close> describes
    expressions in words. \<open>Heartbeat\<close>, \<open>HeartbeatProperties\<close> (\<open>heartbeat.go\<close>):
    C34.
  \<^item> \<open>Relay\<close>, \<open>RelayProperties\<close> (\<open>relay.go\<close>, \<open>cmdBind\<close>):
    bindings of projects in a chat, sending between them, and the set of bound projects they implement, C37;
    \<open>RelayTurn\<close>, \<open>RelayTurnProperties\<close> (\<open>HandleRelay\<close> in
    \<open>engine.go\<close>): the turn of the target project over the session manager, C38 and C39.
  \<^item> \<open>RateLimit\<close> (\<open>ratelimit.go\<close>, \<open>rate_limit.go\<close>),
    \<open>OutgoingRate\<close> (\<open>outgoing_ratelimit.go\<close>), \<open>UserRoles\<close>
    (\<open>user_roles.go\<close>): C40; \<open>Dedup\<close> (\<open>dedup.go\<close>).
  \<^item> \<open>WorkspaceBinding\<close>, \<open>WorkspacePool\<close>, \<open>ProjectState\<close>,
    \<open>DirHistory\<close>, \<open>CommandTable\<close>: theorems that are not numbered and theorems that are not
    numbered.

  \<^item> \<open>ConfigText\<close>, \<open>ConfigFormat\<close> (\<open>config/config.go\<close>): lines of
    \<open>config.toml\<close>, the recognition of headers and keys, quoting, and \<open>formatTOML\<close>. A
    document (\<open>config_doc\<close>) is what the lines say: those before the first header, and each header with
    its lines. \<open>ConfigEdits\<close>, \<open>ConfigProjects\<close>, \<open>ConfigPlatforms\<close>,
    \<open>ConfigProvision\<close> are the operations: fields and sections, agents and providers of a project,
    credentials, new projects and platforms. \<open>ConfigKeys\<close> and \<open>ConfigTables\<close> say what
    setting a key does to lines and to a table; the locale \<open>config_edit\<close> of
    \<open>ConfigRefinement\<close> states the contract of an edit (it changes the document as specified and keeps
    lines apart) and concludes what the written file holds. Each edit interprets it, over
    \<open>ConfigProjectProofs\<close>, \<open>ConfigPlatformProofs\<close>, \<open>ConfigCredentials\<close> and
    \<open>ConfigSetup\<close>. \<open>ConfigAllowList\<close> is about lists of allowed users. C15 to C22.

  \<^bold>\<open>Bounds and fuel.\<close> No definition uses fuel but \<open>slot_attempts\<close>, whose 64 attempts
  are the code's own. The inner loop of the splitter is a \<open>partial_function\<close>: C25 proves that it returns
  when fences are short, C27 that it does not otherwise. \<open>evictOldest\<close> and the decoding of runes
  terminate by the length of their lists.

  \<^bold>\<open>What the proofs revealed\<close> is stated as theorems where it is a behaviour: the error properties
  C11, C12, C16, C22, C27, C29 and C35, and theorems such as \<open>approving_word_overrides_refusal\<close>,
  \<open>second_reply_swallows_next_request\<close>, \<open>two_grants_for_one_slot\<close>,
  \<open>chunk_exceeds_limit\<close>, \<open>reaper_races_begin_turn\<close>,
  \<open>update_bypasses_validation\<close>, \<open>abbreviated_shell_runs_whole_line\<close>,
  \<open>empty_banned_word_disables_filter\<close>, \<open>image_skips_banned_words\<close>,
  \<open>huge_interval_crashes\<close>, \<open>relay_bindings_cross_platforms\<close>,
  \<open>relay_ignores_turn_lock\<close> and \<open>skill_shadowed\<close>.

  \<^bold>\<open>Not modelled.\<close> Clients of chat services (\<open>src/platform\<close>), adapters of agent
  programs (\<open>src/agent\<close>), the command line, HTTP front ends, rendering of cards and progress,
  translations, speech and images: input, output and glue around the parts above. Within the turn protocol,
  auto-reset, auto-compress, the unsolicited reader and the counter of running turns are left out (the counter's own
  operations are in \<open>TurnLifecycle\<close>). The parsers of package time behind \<open>ParseDelayOrTime\<close>
  and the rounding of floating-point numbers are not modelled. The handlers of the built-in commands that only render
  texts, or whose state belongs to another component, are one action of \<open>CommandDispatch\<close>. Of the
  configuration, the decoder itself, the substitution of environment variables and the defaults are left out.
\<close>

end
